(* ===== verification/Prelude.thy ===== *)
theory Prelude
  imports Main "HOL-Library.Word"
begin

text \<open>
  Vocabulary shared by every theory of the development: bytes and byte arrays, the text
  type, 32-bit loads and stores, and generic lemmas on lists and words.  Memory words are
  read and written in little-endian order, the order of the hosts the program is built for
  (x86-64, AArch64).

  The collection \<open>byte_simps\<close> gathers the length and round-trip equations of the byte-level
  functions, and \<open>op_defs\<close> gathers the definitions of the operations of the stateful
  components, so that a component's proofs can be written as \<open>simp add: op_defs\<close>.
\<close>

unbundle bit_operations_syntax

type_synonym byte = "8 word"
type_synonym bytes = "byte list"      \<comment> \<open>QByteArray, and raw memory blocks\<close>
type_synonym u32 = "32 word"
type_synonym qstring = "16 word list" \<comment> \<open>QString: a sequence of UTF-16 code units\<close>

named_theorems byte_simps
named_theorems op_defs

section \<open>Outcomes\<close>

text \<open>
  The outcome of code that may leave the defined behaviour of C++: \<open>UB\<close> stands for the
  executions the language gives no meaning to (a read of an uninitialised or out-of-range
  object, a null pointer or an end iterator dereferenced, an overflow of a signed integer, a failed
  assertion), \<open>Diverge\<close> for
  those that never return, \<open>Ret v\<close> for a return of \<open>v\<close>.
\<close>

datatype 'a run = Ret 'a | UB | Diverge

fun run_bind :: "'a run \<Rightarrow> ('a \<Rightarrow> 'b run) \<Rightarrow> 'b run" where
  "run_bind (Ret v) f = f v"
| "run_bind UB f = UB"
| "run_bind Diverge f = Diverge"

lemma run_bind_Ret_iff: "run_bind r f = Ret b \<longleftrightarrow> (\<exists>a. r = Ret a \<and> f a = Ret b)"
  by (cases r) auto

lemma run_bind_UB_iff: "run_bind r f = UB \<longleftrightarrow> r = UB \<or> (\<exists>a. r = Ret a \<and> f a = UB)"
  by (cases r) auto

lemma run_bind_Diverge_iff: "run_bind r f = Diverge \<longleftrightarrow> r = Diverge \<or> (\<exists>a. r = Ret a \<and> f a = Diverge)"
  by (cases r) auto

text \<open>The result of an operation on the type int, of 32 bits: an overflow is undefined.\<close>

definition c_int :: "int \<Rightarrow> int run" where
  "c_int n = (if - (2 ^ 31) \<le> n \<and> n < 2 ^ 31 then Ret n else UB)"

section \<open>Text literals\<close>

definition qs :: "string \<Rightarrow> qstring" where
  "qs s = map of_char s"

lemma qs_Nil [simp]: "qs [] = []"
  by (simp add: qs_def)

lemma length_qs [simp]: "length (qs s) = length s"
  by (simp add: qs_def)

text \<open>A byte array that is passed as a C string ends at its first null byte.\<close>

definition cstr :: "bytes \<Rightarrow> bytes" where
  "cstr b = takeWhile (\<lambda>x. x \<noteq> 0) b"

lemma cstr_cstr [simp]: "cstr (cstr b) = cstr b"
  by (simp add: cstr_def)

lemma cstr_nonzero: "0 \<notin> set b \<Longrightarrow> cstr b = b"
  by (auto simp: cstr_def takeWhile_eq_all_conv)

definition ascii :: "string \<Rightarrow> bytes" where
  "ascii s = map of_char s"

section \<open>Memory words\<close>

lemma xor_cancel_left: "x XOR (x XOR y) = (y :: 'a::len word)"
  by (simp flip: xor.assoc)

lemmas xor_ac = xor.assoc xor.commute xor.left_commute xor_cancel_left

definition load32 :: "bytes \<Rightarrow> u32" where
  "load32 b = ucast (b ! 0) OR push_bit 8 (ucast (b ! 1))
     OR push_bit 16 (ucast (b ! 2)) OR push_bit 24 (ucast (b ! 3))"

definition store32 :: "u32 \<Rightarrow> bytes" where
  "store32 w = [ucast w, ucast (drop_bit 8 w), ucast (drop_bit 16 w), ucast (drop_bit 24 w)]"

lemma length_store32 [simp, byte_simps]: "length (store32 w) = 4"
  by (simp add: store32_def)

lemma load32_store32 [simp, byte_simps]: "load32 (store32 w) = w"
proof (rule bit_word_eqI)
  fix n assume "n < LENGTH(32)"
  then show "bit (load32 (store32 w)) n \<longleftrightarrow> bit w n"
    by (cases "n < 8"; cases "n < 16"; cases "n < 24")
      (auto simp add: load32_def store32_def bit_simps not_less)
qed

lemma length_4_cases:
  assumes "length b = 4"
  obtains x y z u where "b = [x, y, z, u]"
  using assms by (auto simp: length_Suc_conv eval_nat_numeral)

lemma store32_load32:
  assumes "length b = 4"
  shows "store32 (load32 b) = b"
proof -
  obtain x y z u where b: "b = [x, y, z, u]"
    using assms by (rule length_4_cases)
  have "ucast (load32 b) = x"
    by (rule bit_word_eqI) (auto simp add: b load32_def bit_simps dest: bit_imp_le_length)
  moreover have "ucast (drop_bit 8 (load32 b)) = y"
    by (rule bit_word_eqI) (auto simp add: b load32_def bit_simps dest: bit_imp_le_length)
  moreover have "ucast (drop_bit 16 (load32 b)) = z"
    by (rule bit_word_eqI) (auto simp add: b load32_def bit_simps dest: bit_imp_le_length)
  moreover have "ucast (drop_bit 24 (load32 b)) = u"
    by (rule bit_word_eqI) (auto simp add: b load32_def bit_simps dest: bit_imp_le_length)
  ultimately show ?thesis by (simp add: store32_def b)
qed

section \<open>Byte arrays\<close>

definition xor_bytes :: "bytes \<Rightarrow> bytes \<Rightarrow> bytes" where
  "xor_bytes xs ys = map (\<lambda>(x, y). x XOR y) (zip xs ys)"

lemma length_xor_bytes [simp, byte_simps]: "length (xor_bytes xs ys) = min (length xs) (length ys)"
  by (simp add: xor_bytes_def)

lemma xor_bytes_cancel [byte_simps]:
  "length xs = length ys \<Longrightarrow> xor_bytes (xor_bytes xs ys) ys = xs"
  unfolding xor_bytes_def
  by (induction xs ys rule: list_induct2) (simp_all add: xor.assoc)

definition zeros :: "nat \<Rightarrow> bytes" where
  "zeros n = replicate n 0"

lemma length_zeros [simp]: "length (zeros n) = n"
  by (simp add: zeros_def)

lemma set_zeros: "set (zeros n) \<subseteq> {0}"
  by (simp add: zeros_def set_replicate_conv_if)

lemma xor_bytes_zeros: "length xs \<le> n \<Longrightarrow> xor_bytes xs (zeros n) = xs"
  unfolding xor_bytes_def zeros_def by (rule nth_equalityI) auto

section \<open>Lists cut into blocks\<close>

text \<open>The blocks of size \<open>n\<close> of a list; a shorter rest at the end is left out.\<close>

function blocks :: "nat \<Rightarrow> 'a list \<Rightarrow> 'a list list" where
  "blocks n xs = (if n = 0 \<or> length xs < n then [] else take n xs # blocks n (drop n xs))"
  by pat_completeness auto
termination
  by (relation "measure (\<lambda>(n, xs). length xs)") auto

declare blocks.simps [simp del]

lemma blocks_short: "length xs < n \<Longrightarrow> blocks n xs = []"
  by (subst blocks.simps) simp

lemma blocks_append:
  "length xs = n \<Longrightarrow> 0 < n \<Longrightarrow> blocks n (xs @ ys) = xs # blocks n ys"
  by (subst blocks.simps) simp

lemma blocks_lengths: "b \<in> set (blocks n xs) \<Longrightarrow> length b = n"
proof (induction n xs rule: blocks.induct)
  case (1 n xs)
  show ?case
  proof (cases "n = 0 \<or> length xs < n")
    case True
    with "1.prems" show ?thesis by (simp add: blocks.simps [of n xs])
  next
    case False
    then have "blocks n xs = take n xs # blocks n (drop n xs)"
      by (simp add: blocks.simps [of n xs])
    with "1.prems" "1.IH" [OF False] False show ?thesis by auto
  qed
qed

lemma concat_blocks:
  "0 < n \<Longrightarrow> length xs mod n = 0 \<Longrightarrow> concat (blocks n xs) = xs"
proof (induction n xs rule: blocks.induct)
  case (1 n xs)
  show ?case
  proof (cases "length xs < n")
    case True
    with "1.prems" show ?thesis by (simp add: blocks_short)
  next
    case False
    have "(length xs - n) mod n = 0"
      using False "1.prems" by (simp add: le_mod_geq [symmetric])
    with "1.IH" False "1.prems" have "concat (blocks n (drop n xs)) = drop n xs" by simp
    with False "1.prems" show ?thesis by (simp add: blocks.simps [of n xs])
  qed
qed

lemma blocks_concat:
  "0 < n \<Longrightarrow> \<forall>b \<in> set bs. length b = n \<Longrightarrow> blocks n (concat bs) = bs"
  by (induction bs) (simp_all add: blocks_short blocks_append)

lemma length_concat_blocks:
  "\<forall>b \<in> set bs. length b = n \<Longrightarrow> length (concat bs) = n * length bs"
  by (induction bs) simp_all

end
