(* ===== verification/BlockCipher.thy ===== *)
theory BlockCipher
  imports Prelude
begin

text \<open>
  The abstract class of src/runtime/kwalletbackend/blockcipher.h.  A virtual call goes through
  a record of functions, one per virtual method, on the state type \<open>'c\<close> of the subclass;
  \<open>encrypt\<close> and \<open>decrypt\<close> work in place, so they return the result code, the block and the
  cipher.

  The locale \<open>block_cipher\<close> is the contract the client (cbc.cc) relies on: what a cipher that
  is ready does with one block, and what one that is not ready does.
\<close>

record 'c blockcipher =
  bc_blockSize :: "'c \<Rightarrow> int"
  bc_setKey :: "'c \<Rightarrow> bytes \<Rightarrow> int \<Rightarrow> bool \<times> 'c"
  bc_keyLen :: "'c \<Rightarrow> int"
  bc_variableKeyLen :: "'c \<Rightarrow> bool"
  bc_readyToGo :: "'c \<Rightarrow> bool"
  bc_encrypt :: "'c \<Rightarrow> bytes \<Rightarrow> int \<times> bytes \<times> 'c"
  bc_decrypt :: "'c \<Rightarrow> bytes \<Rightarrow> int \<times> bytes \<times> 'c"

locale block_cipher =
  fixes vt :: "'c blockcipher"
  assumes encrypt_block: "bc_readyToGo vt c \<Longrightarrow> int (length b) = bc_blockSize vt c \<Longrightarrow>
      \<exists>b'. bc_encrypt vt c b = (bc_blockSize vt c, b', c) \<and> length b' = length b \<and>
        bc_decrypt vt c b' = (bc_blockSize vt c, b, c)"
    and not_ready: "\<not> bc_readyToGo vt c \<Longrightarrow> int (length b) = bc_blockSize vt c \<Longrightarrow>
      bc_encrypt vt c b = (-1, b, c) \<and> bc_decrypt vt c b = (-1, b, c)"
    and decrypt_block: "bc_readyToGo vt c \<Longrightarrow> int (length b) = bc_blockSize vt c \<Longrightarrow>
      \<exists>b'. bc_decrypt vt c b = (bc_blockSize vt c, b', c) \<and> length b' = length b"

end
