(* ===== verification/Cbc.thy ===== *)
theory Cbc
  imports BlockCipher
begin

text \<open>
  Cipher block chaining, src/runtime/kwalletbackend/cbc.cc, over any subclass of
  \<open>BlockCipher\<close>.  The record is the state of a \<open>CipherBlockChain\<close>: the cipher pointer, the
  two scratch registers (null until first used), the register length, and the flags that
  make an object usable in one direction only.

  \<open>encrypt\<close> returns its local \<open>rc\<close> uninitialised when there is no block to encrypt, and
  \<open>decryptECB\<close> copies \<open>_len\<close> bytes out of the caller's block whatever its length; both are
  \<open>UB\<close> here.
\<close>

record 'c cbc =
  cbc_cipher :: "'c option"
  cbc_register :: "bytes option"
  cbc_next :: "bytes option"
  cbc_len :: int
  cbc_reader :: bool
  cbc_writer :: bool
  cbc_useECB :: bool
  cbc_blksz :: int

definition CBC_new :: "'c blockcipher \<Rightarrow> 'c option \<Rightarrow> bool \<Rightarrow> 'c cbc" where
  "CBC_new vt cipher useECB =
     \<lparr>cbc_cipher = cipher, cbc_register = None, cbc_next = None, cbc_len = -1,
      cbc_reader = False, cbc_writer = False, cbc_useECB = useECB,
      cbc_blksz = (case cipher of None \<Rightarrow> -1 | Some c \<Rightarrow> bc_blockSize vt c)\<rparr>"

definition CBC_setKey :: "'c blockcipher \<Rightarrow> 'c cbc \<Rightarrow> bytes \<Rightarrow> int \<Rightarrow> bool \<times> 'c cbc" where
  "CBC_setKey vt s key bitlength =
     (case cbc_cipher s of
        Some c \<Rightarrow> (let (ok, c') = bc_setKey vt c key bitlength in (ok, s\<lparr>cbc_cipher := Some c'\<rparr>))
      | None \<Rightarrow> (False, s))"

definition CBC_keyLen :: "'c blockcipher \<Rightarrow> 'c cbc \<Rightarrow> int" where
  "CBC_keyLen vt s = (case cbc_cipher s of Some c \<Rightarrow> bc_keyLen vt c | None \<Rightarrow> -1)"

definition CBC_variableKeyLen :: "'c blockcipher \<Rightarrow> 'c cbc \<Rightarrow> bool" where
  "CBC_variableKeyLen vt s = (case cbc_cipher s of Some c \<Rightarrow> bc_variableKeyLen vt c | None \<Rightarrow> False)"

definition CBC_readyToGo :: "'c blockcipher \<Rightarrow> 'c cbc \<Rightarrow> bool" where
  "CBC_readyToGo vt s = (case cbc_cipher s of Some c \<Rightarrow> bc_readyToGo vt c | None \<Rightarrow> False)"

definition CBC_initRegister :: "'c blockcipher \<Rightarrow> 'c \<Rightarrow> 'c cbc \<Rightarrow> 'c cbc" where
  "CBC_initRegister vt c s =
     (let s = (if cbc_register s = None then s\<lparr>cbc_len := bc_blockSize vt c\<rparr> else s)
      in s\<lparr>cbc_register := Some (zeros (nat (cbc_len s)))\<rparr>)"

section \<open>Encryption\<close>

text \<open>
  The loop over the blocks.  The state is the result code, the cipher, the register and the
  blocks written so far.
\<close>

fun cbc_enc_loop :: "'c blockcipher \<Rightarrow> bytes list \<Rightarrow> int run \<Rightarrow> 'c \<Rightarrow> bytes \<Rightarrow> bytes
    \<Rightarrow> int run \<times> 'c \<times> bytes \<times> bytes" where
  "cbc_enc_loop vt [] rc c reg out = (rc, c, reg, out)"
| "cbc_enc_loop vt (b # bs) rc c reg out =
     (let (rc', b', c') = bc_encrypt vt c (xor_bytes b reg)
      in cbc_enc_loop vt bs (Ret rc') c' (if rc' \<noteq> -1 then b' else reg) (out @ b'))"

definition CBC_encrypt :: "'c blockcipher \<Rightarrow> 'c cbc \<Rightarrow> bytes \<Rightarrow> (int \<times> bytes \<times> 'c cbc) run" where
  "CBC_encrypt vt s block =
     (case cbc_cipher s of
        None \<Rightarrow> Ret (-1, block, s)
      | Some c \<Rightarrow>
          if cbc_reader s then Ret (-1, block, s)
          else
            let s1 = CBC_initRegister vt c (s\<lparr>cbc_writer := True\<rparr>) in
            if 0 < int (length block) mod cbc_len s1 then Ret (-1, block, s1)
            else
              let (rc, c', reg, out) =
                cbc_enc_loop vt (blocks (nat (cbc_len s1)) block) UB c (the (cbc_register s1)) []
              in run_bind rc (\<lambda>r. Ret (r, out, s1\<lparr>cbc_cipher := Some c', cbc_register := Some reg\<rparr>)))"

section \<open>Decryption\<close>

text \<open>The registers change places after every block; the copy made first becomes the next register.\<close>

fun cbc_dec_loop :: "'c blockcipher \<Rightarrow> bytes list \<Rightarrow> int \<Rightarrow> 'c \<Rightarrow> bytes \<Rightarrow> bytes option \<Rightarrow> bytes
    \<Rightarrow> int \<times> 'c \<times> bytes \<times> bytes option \<times> bytes" where
  "cbc_dec_loop vt [] rc c reg nxt out = (rc, c, reg, nxt, out)"
| "cbc_dec_loop vt (b # bs) rc c reg nxt out =
     (let (n, b', c') = bc_decrypt vt c b;
          (rc', b'') = (if n \<noteq> -1 then (rc + n, xor_bytes b' reg) else (rc, b'))
      in cbc_dec_loop vt bs rc' c' b (Some reg) (out @ b''))"

definition CBC_decryptECB :: "'c blockcipher \<Rightarrow> 'c cbc \<Rightarrow> bytes \<Rightarrow> (int \<times> bytes \<times> 'c cbc) run" where
  "CBC_decryptECB vt s block =
     (case cbc_cipher s of
        None \<Rightarrow> Ret (-1, block, s)
      | Some c \<Rightarrow>
          if cbc_writer s then Ret (-1, block, s)
          else
            let s1 = s\<lparr>cbc_reader := True\<rparr>; len = int (length block) in
            if cbc_register s1 \<noteq> None \<and> cbc_len s1 < len then Ret (-1, block, s1)
            else
              let (reg, n) = (case cbc_register s1 of None \<Rightarrow> (zeros (length block), len)
                                | Some r \<Rightarrow> (r, cbc_len s1))
              in if len < n then UB
                 else
                   let (rc, b', c') = bc_decrypt vt c block;
                       b'' = (if rc \<noteq> -1 then xor_bytes b' reg else b')
                   in Ret (rc, b'', s1\<lparr>cbc_cipher := Some c', cbc_len := n,
                        cbc_register := Some block, cbc_next := Some reg\<rparr>))"

definition CBC_decrypt :: "'c blockcipher \<Rightarrow> 'c cbc \<Rightarrow> bytes \<Rightarrow> (int \<times> bytes \<times> 'c cbc) run" where
  "CBC_decrypt vt s block =
     (if cbc_useECB s then CBC_decryptECB vt s block
      else
        case cbc_cipher s of
          None \<Rightarrow> Ret (-1, block, s)
        | Some c \<Rightarrow>
            if cbc_writer s then Ret (-1, block, s)
            else
              let s1 = CBC_initRegister vt c (s\<lparr>cbc_reader := True\<rparr>) in
              if 0 < int (length block) mod cbc_len s1 then Ret (-1, block, s1)
              else
                let (rc, c', reg, nxt, out) =
                  cbc_dec_loop vt (blocks (nat (cbc_len s1)) block) 0 c (the (cbc_register s1)) (cbc_next s1) []
                in Ret (rc, out, s1\<lparr>cbc_cipher := Some c', cbc_register := Some reg, cbc_next := nxt\<rparr>))"

section \<open>Chaining over a cipher that keeps its contract\<close>

context block_cipher begin

lemma enc_dec_loops:
  assumes "bc_readyToGo vt c" and "\<forall>b \<in> set bs. int (length b) = bc_blockSize vt c"
    and "int (length reg) = bc_blockSize vt c"
  shows "\<exists>ds reg'. cbc_enc_loop vt bs rc c reg out =
        ((if bs = [] then rc else Ret (bc_blockSize vt c)), c, reg', out @ concat ds) \<and>
      length ds = length bs \<and> (\<forall>b \<in> set ds. int (length b) = bc_blockSize vt c) \<and>
      (\<forall>n nxt out'. \<exists>nxt'. cbc_dec_loop vt ds n c reg nxt out' =
        (n + int (length bs) * bc_blockSize vt c, c, reg', nxt', out' @ concat bs))"
  using assms
proof (induction bs arbitrary: rc reg out)
  case Nil
  then show ?case by simp
next
  case (Cons b bs)
  have l: "length b = length reg" using Cons.prems by simp
  obtain b' where b': "bc_encrypt vt c (xor_bytes b reg) = (bc_blockSize vt c, b', c)"
    "length b' = length (xor_bytes b reg)" "bc_decrypt vt c b' = (bc_blockSize vt c, xor_bytes b reg, c)"
    using encrypt_block [of c "xor_bytes b reg"] Cons.prems by auto
  have n1: "bc_blockSize vt c \<noteq> -1" using Cons.prems by auto
  from Cons.IH [of b' "Ret (bc_blockSize vt c)" "out @ b'"] b'(2) Cons.prems
  obtain ds reg' where ds: "cbc_enc_loop vt bs (Ret (bc_blockSize vt c)) c b' (out @ b') =
        (Ret (bc_blockSize vt c), c, reg', (out @ b') @ concat ds)"
      "length ds = length bs" "\<forall>b \<in> set ds. int (length b) = bc_blockSize vt c"
      "\<forall>n nxt out'. \<exists>nxt'. cbc_dec_loop vt ds n c b' nxt out' =
        (n + int (length bs) * bc_blockSize vt c, c, reg', nxt', out' @ concat bs)"
    by (auto split: if_splits)
  show ?case
  proof (intro exI [of _ "b' # ds"] exI [of _ reg'] conjI allI)
    show "cbc_enc_loop vt (b # bs) rc c reg out =
        ((if b # bs = [] then rc else Ret (bc_blockSize vt c)), c, reg', out @ concat (b' # ds))"
      using b' n1 ds(1) by simp
    show "\<exists>nxt'. cbc_dec_loop vt (b' # ds) n c reg nxt out' =
        (n + int (length (b # bs)) * bc_blockSize vt c, c, reg', nxt', out' @ concat (b # bs))" for n nxt out'
      using ds(4) [rule_format, of "n + bc_blockSize vt c" "Some reg" "out' @ b"] b' n1 l
      by (simp add: xor_bytes_cancel algebra_simps)
  qed (use ds b'(2) Cons.prems in auto)
qed

text \<open>A fresh object encrypts, another fresh object with the same cipher gets the text back.\<close>

lemma cbc_roundtrip:
  assumes ready: "bc_readyToGo vt c" and pos: "0 < bc_blockSize vt c"
    and plain: "plain \<noteq> []" "int (length plain) mod bc_blockSize vt c = 0"
  shows "\<exists>ct s d. CBC_encrypt vt (CBC_new vt (Some c) ecb) plain = Ret (bc_blockSize vt c, ct, s) \<and>
      length ct = length plain \<and>
      CBC_decrypt vt (CBC_new vt (Some c) False) ct = Ret (int (length plain), plain, d)"
proof -
  let ?n = "nat (bc_blockSize vt c)"
  have n: "0 < ?n" "int ?n = bc_blockSize vt c" using pos by simp_all
  have m: "length plain mod ?n = 0" using plain(2) pos by (metis n(2) of_nat_mod of_nat_eq_0_iff)
  have bl: "\<forall>b \<in> set (blocks ?n plain). int (length b) = bc_blockSize vt c"
    using n(2) by (simp add: blocks_lengths)
  have cc: "concat (blocks ?n plain) = plain" using n(1) m by (rule concat_blocks)
  then have ne: "blocks ?n plain \<noteq> []" using plain(1) by auto
  obtain ds reg where ds: "cbc_enc_loop vt (blocks ?n plain) UB c (zeros ?n) [] =
        (Ret (bc_blockSize vt c), c, reg, concat ds)"
      "length ds = length (blocks ?n plain)" "\<forall>b \<in> set ds. int (length b) = bc_blockSize vt c"
      "\<forall>k nxt out. \<exists>nxt'. cbc_dec_loop vt ds k c (zeros ?n) nxt out =
        (k + int (length (blocks ?n plain)) * bc_blockSize vt c, c, reg, nxt', out @ concat (blocks ?n plain))"
    using enc_dec_loops [OF ready bl, of "zeros ?n" UB "[]"] ne n(2) by auto
  have ld: "\<forall>b \<in> set ds. length b = ?n" using ds(3) by auto
  have bd: "blocks ?n (concat ds) = ds" using n(1) ld by (rule blocks_concat)
  have lc: "length (concat ds) = length plain"
    using length_concat_blocks [OF ld] ds(2) length_concat_blocks [of "blocks ?n plain" ?n] cc
    by (simp add: blocks_lengths)
  obtain nxt where dl: "cbc_dec_loop vt ds 0 c (zeros ?n) None [] =
      (int (length plain), c, reg, nxt, plain)"
    using ds(4) [rule_format, of 0 None "[]"] cc n(2) length_concat_blocks [OF ld] ds(2) lc
    by (auto simp: mult.commute)
  have "CBC_encrypt vt (CBC_new vt (Some c) ecb) plain = Ret (bc_blockSize vt c, concat ds,
      (CBC_initRegister vt c ((CBC_new vt (Some c) ecb)\<lparr>cbc_writer := True\<rparr>))\<lparr>cbc_cipher := Some c, cbc_register := Some reg\<rparr>)"
    using plain(2) ds(1) by (simp add: CBC_encrypt_def CBC_new_def CBC_initRegister_def)
  moreover have "CBC_decrypt vt (CBC_new vt (Some c) False) (concat ds) = Ret (int (length plain), plain,
      (CBC_initRegister vt c ((CBC_new vt (Some c) False)\<lparr>cbc_reader := True\<rparr>))
        \<lparr>cbc_cipher := Some c, cbc_register := Some reg, cbc_next := nxt\<rparr>)"
    using plain(2) lc dl bd by (simp add: CBC_decrypt_def CBC_new_def CBC_initRegister_def)
  ultimately show ?thesis using lc by blast
qed

text \<open>Decryption of any text by a fresh object: it never fails on whole blocks, ready cipher or not.\<close>

lemma dec_loop_total:
  assumes "\<forall>b \<in> set bs. int (length b) = bc_blockSize vt c"
    and "int (length reg) = bc_blockSize vt c"
  shows "\<exists>reg' nxt' out'. cbc_dec_loop vt bs n c reg nxt out =
      (n + (if bc_readyToGo vt c then int (length bs) * bc_blockSize vt c else 0), c, reg', nxt', out @ out') \<and>
    length out' = length (concat bs) \<and> (\<not> bc_readyToGo vt c \<longrightarrow> out' = concat bs)"
  using assms
proof (induction bs arbitrary: n reg nxt out)
  case Nil
  then show ?case by simp
next
  case (Cons b bs)
  have lb: "int (length b) = bc_blockSize vt c" using Cons.prems by simp
  show ?case
  proof (cases "bc_readyToGo vt c")
    case True
    obtain b' where b': "bc_decrypt vt c b = (bc_blockSize vt c, b', c)" "length b' = length b"
      using decrypt_block [OF True lb] by auto
    have "bc_blockSize vt c \<noteq> -1" using lb by simp
    moreover have "length (xor_bytes b' reg) = length b" using b'(2) lb Cons.prems(2) by simp
    ultimately show ?thesis
      using Cons.IH [of b "n + bc_blockSize vt c" "Some reg" "out @ xor_bytes b' reg"] Cons.prems b' True lb
      by (auto simp: algebra_simps)
  next
    case False
    then have "bc_decrypt vt c b = (-1, b, c)" using not_ready lb by simp
    then show ?thesis
      using Cons.IH [of b n "Some reg" "out @ b"] Cons.prems False lb by auto
  qed
qed

lemma cbc_decrypt_total:
  assumes pos: "0 < bc_blockSize vt c" and m: "int (length ct) mod bc_blockSize vt c = 0"
  shows "\<exists>out s. CBC_decrypt vt (CBC_new vt (Some c) False) ct =
      Ret ((if bc_readyToGo vt c then int (length ct) else 0), out, s) \<and> length out = length ct \<and>
      (\<not> bc_readyToGo vt c \<longrightarrow> out = ct)"
proof -
  let ?n = "nat (bc_blockSize vt c)"
  have n: "0 < ?n" "int ?n = bc_blockSize vt c" using pos by simp_all
  have "length ct mod ?n = 0" using m by (metis n(2) of_nat_mod of_nat_eq_0_iff)
  then have cc: "concat (blocks ?n ct) = ct" using n(1) by (simp add: concat_blocks)
  have bl: "\<forall>b \<in> set (blocks ?n ct). int (length b) = bc_blockSize vt c"
    using n(2) by (simp add: blocks_lengths)
  have len: "int (length (blocks ?n ct)) * bc_blockSize vt c = int (length ct)"
    using length_concat_blocks [of "blocks ?n ct" ?n] cc n(2) by (metis blocks_lengths mult.commute of_nat_mult)
  obtain reg nxt out where "cbc_dec_loop vt (blocks ?n ct) 0 c (zeros ?n) None [] =
      ((if bc_readyToGo vt c then int (length ct) else 0), c, reg, nxt, out)"
      "length out = length ct" "\<not> bc_readyToGo vt c \<longrightarrow> out = ct"
    using dec_loop_total [OF bl, of "zeros ?n" 0 None "[]"] n(2) len cc by auto
  then show ?thesis
    using m by (simp add: CBC_decrypt_def CBC_new_def CBC_initRegister_def)
qed

end

section \<open>Properties\<close>

text \<open>An object that has encrypted refuses to decrypt, and one that has decrypted refuses to
  encrypt, in both modes and with any cipher; the refused call changes neither the block nor the
  object.\<close>

theorem one_direction:
  "(CBC_encrypt vt s x = Ret (r, y, s') \<and> cbc_cipher s \<noteq> None \<and> \<not> cbc_reader s \<longrightarrow>
      CBC_decrypt vt s' z = Ret (-1, z, s')) \<and>
   (CBC_decrypt vt s x = Ret (r, y, s') \<and> cbc_cipher s \<noteq> None \<and> \<not> cbc_writer s \<longrightarrow>
      CBC_encrypt vt s' z = Ret (-1, z, s'))"
proof (intro conjI impI)
  assume a: "CBC_encrypt vt s x = Ret (r, y, s') \<and> cbc_cipher s \<noteq> None \<and> \<not> cbc_reader s"
  then have "cbc_writer s' \<and> cbc_cipher s' \<noteq> None"
    by (auto simp: CBC_encrypt_def CBC_initRegister_def Let_def run_bind_Ret_iff split: if_splits prod.splits)
  then show "CBC_decrypt vt s' z = Ret (-1, z, s')"
    by (auto simp: CBC_decrypt_def CBC_decryptECB_def)
next
  assume a: "CBC_decrypt vt s x = Ret (r, y, s') \<and> cbc_cipher s \<noteq> None \<and> \<not> cbc_writer s"
  then have "cbc_reader s' \<and> cbc_cipher s' \<noteq> None"
    by (auto simp: CBC_decrypt_def CBC_decryptECB_def CBC_initRegister_def Let_def
        split: if_splits prod.splits option.splits)
  then show "CBC_encrypt vt s' z = Ret (-1, z, s')"
    by (auto simp: CBC_encrypt_def)
qed

end
