(* ===== verification/Blowfish.thy ===== *)
theory Blowfish
  imports BlowfishTables Cbc
begin

text \<open>
  The block cipher of src/runtime/kwalletbackend/blowfish.cc.  The record is the class's
  state; the operations return the new state explicitly.  \<open>encipher\<close> and \<open>decipher\<close> are the
  16-round Feistel network over the key-dependent arrays \<open>m_P\<close> and \<open>m_S\<close>; \<open>init\<close> is the key
  schedule with the weak-key test.

  The lemmas show that \<open>decipher\<close> inverts \<open>encipher\<close> for any contents of the arrays, and that
  the byte-level operations invert each other on whole blocks once a key has been accepted.
\<close>

record blowfish =
  m_S :: "u32 list list"
  m_P :: "u32 list"
  m_key :: "bytes option"
  m_keylen :: int
  m_initialized :: bool

text \<open>The constructor sets \<open>_blksz\<close> to 8 for good, so the block size is a constant below.\<close>

definition BlowFish_blksz :: int where
  "BlowFish_blksz = 8"

text \<open>The arrays and the key length are indeterminate until a key is set.\<close>

definition BlowFish_new :: "u32 list list \<Rightarrow> u32 list \<Rightarrow> int \<Rightarrow> blowfish" where
  "BlowFish_new junkS junkP junkLen =
     \<lparr>m_S = junkS, m_P = junkP, m_key = None, m_keylen = junkLen, m_initialized = False\<rparr>"

section \<open>The Feistel network\<close>

definition BlowFish_F :: "u32 list list \<Rightarrow> u32 \<Rightarrow> u32" where
  "BlowFish_F S x =
     (let d = unat (x AND 0xff); x = drop_bit 8 x;
          c = unat (x AND 0xff); x = drop_bit 8 x;
          b = unat (x AND 0xff); x = drop_bit 8 x;
          a = unat (x AND 0xff);
          y = S ! 0 ! a + S ! 1 ! b;
          y = y XOR S ! 2 ! c
      in y + S ! 3 ! d)"

text \<open>One round: the key word, the round function, and the exchange of the halves.\<close>

definition bf_round :: "u32 list list \<Rightarrow> u32 list \<Rightarrow> nat \<Rightarrow> u32 \<times> u32 \<Rightarrow> u32 \<times> u32" where
  "bf_round S P i x =
     (let (Xl, Xr) = x; Xl = Xl XOR P ! i; Xr = Xr XOR BlowFish_F S Xl in (Xr, Xl))"

definition BlowFish_encipher :: "u32 list list \<Rightarrow> u32 list \<Rightarrow> u32 \<times> u32 \<Rightarrow> u32 \<times> u32" where
  "BlowFish_encipher S P x =
     (let (Xl, Xr) = fold (bf_round S P) [0..<16] x; (Xl, Xr) = (Xr, Xl)
      in (Xl XOR P ! 17, Xr XOR P ! 16))"

definition BlowFish_decipher :: "u32 list list \<Rightarrow> u32 list \<Rightarrow> u32 \<times> u32 \<Rightarrow> u32 \<times> u32" where
  "BlowFish_decipher S P x =
     (let (Xl, Xr) = fold (bf_round S P) (rev [2..<18]) x; (Xl, Xr) = (Xr, Xl)
      in (Xl XOR P ! 0, Xr XOR P ! 1))"

section \<open>Key schedule\<close>

text \<open>One turn of the inner loop: the next key byte, the index wrapping at the key's end.\<close>

definition key_byte :: "bytes \<Rightarrow> nat \<Rightarrow> u32 \<times> nat \<Rightarrow> u32 \<times> nat" where
  "key_byte key n dj =
     (let (data, j) = dj; data = push_bit 8 data OR ucast (key ! j); j = j + 1
      in (data, if n \<le> j then 0 else j))"

fun mix_key :: "bytes \<Rightarrow> nat \<Rightarrow> nat \<Rightarrow> u32 list \<Rightarrow> u32 list" where
  "mix_key key n j [] = []"
| "mix_key key n j (p # ps) =
     (let (data, j') = (key_byte key n ^^ 4) (0, j) in (p XOR data) # mix_key key n j' ps)"

type_synonym bf_schedule = "(u32 \<times> u32) \<times> u32 list list \<times> u32 list"

definition fill_P :: "nat \<Rightarrow> bf_schedule \<Rightarrow> bf_schedule" where
  "fill_P i st =
     (let (d, S, P) = st; (dl, dr) = BlowFish_encipher S P d
      in ((dl, dr), S, P[i := dl, i + 1 := dr]))"

definition fill_S :: "nat \<times> nat \<Rightarrow> bf_schedule \<Rightarrow> bf_schedule" where
  "fill_S ji st =
     (let (j, i) = ji; (d, S, P) = st; (dl, dr) = BlowFish_encipher S P d
      in ((dl, dr), S[j := (S ! j)[i := dl, i + 1 := dr]], P))"

definition evens :: "nat \<Rightarrow> nat list" where
  "evens n = map (\<lambda>k. 2 * k) [0..<n div 2]"

text \<open>The test of the key: two equal words in one S-box make it weak.\<close>

definition weak_boxes :: "u32 list list \<Rightarrow> bool" where
  "weak_boxes S \<longleftrightarrow> list_ex (\<lambda>i. list_ex (\<lambda>j.
      S ! 0 ! i = S ! 0 ! j \<or> S ! 1 ! i = S ! 1 ! j \<or> S ! 2 ! i = S ! 2 ! j \<or> S ! 3 ! i = S ! 3 ! j)
      [i + 1..<256]) [0..<255]"

definition key_schedule :: "bytes \<Rightarrow> nat \<Rightarrow> u32 list list \<times> u32 list" where
  "key_schedule key n =
     (let st = ((0, 0), [ks0, ks1, ks2, ks3], mix_key key n 0 P_init);
          st = fold fill_P (evens 18) st;
          st = fold fill_S (concat (map (\<lambda>j. map (\<lambda>i. (j, i)) (evens 256)) [0..<4])) st
      in (fst (snd st), snd (snd st)))"

definition BlowFish_init :: "blowfish \<Rightarrow> bool \<times> blowfish" where
  "BlowFish_init s =
     (let (S, P) = key_schedule (case m_key s of None \<Rightarrow> [] | Some k \<Rightarrow> k) (nat (m_keylen s div 8));
          s = s\<lparr>m_S := S, m_P := P\<rparr>
      in if weak_boxes S then (False, s) else (True, s\<lparr>m_initialized := True\<rparr>))"

definition BlowFish_setKey :: "blowfish \<Rightarrow> bytes \<Rightarrow> int \<Rightarrow> bool \<times> blowfish" where
  "BlowFish_setKey s key bitlength =
     (if bitlength \<le> 0 \<or> 448 < bitlength \<or> bitlength mod 8 \<noteq> 0 then (False, s)
      else BlowFish_init (s\<lparr>m_key := Some (take (nat (bitlength div 8)) key), m_keylen := bitlength\<rparr>))"

definition BlowFish_keyLen :: "blowfish \<Rightarrow> int" where
  "BlowFish_keyLen s = 448"

definition BlowFish_variableKeyLen :: "blowfish \<Rightarrow> bool" where
  "BlowFish_variableKeyLen s = True"

definition BlowFish_readyToGo :: "blowfish \<Rightarrow> bool" where
  "BlowFish_readyToGo s = m_initialized s"

section \<open>Byte blocks\<close>

definition shuffle :: "u32 \<Rightarrow> u32" where
  "shuffle r = drop_bit 24 (r AND 0xff000000) OR drop_bit 8 (r AND 0x00ff0000)
     OR push_bit 8 (r AND 0x0000ff00) OR push_bit 24 (r AND 0x000000ff)"

definition on_block :: "(u32 \<times> u32 \<Rightarrow> u32 \<times> u32) \<Rightarrow> bytes \<Rightarrow> bytes" where
  "on_block f b =
     (let (l, r) = f (shuffle (load32 (take 4 b)), shuffle (load32 (drop 4 b)))
      in store32 (shuffle l) @ store32 (shuffle r))"

definition BlowFish_encrypt :: "blowfish \<Rightarrow> bytes \<Rightarrow> int \<times> bytes" where
  "BlowFish_encrypt s block =
     (if \<not> m_initialized s \<or> length block mod 8 \<noteq> 0 then (-1, block)
      else (int (length block), concat (map (on_block (BlowFish_encipher (m_S s) (m_P s))) (blocks 8 block))))"

definition BlowFish_decrypt :: "blowfish \<Rightarrow> bytes \<Rightarrow> int \<times> bytes" where
  "BlowFish_decrypt s block =
     (if \<not> m_initialized s \<or> length block mod 8 \<noteq> 0 then (-1, block)
      else (int (length block), concat (map (on_block (BlowFish_decipher (m_S s) (m_P s))) (blocks 8 block))))"

section \<open>Decryption inverts encryption\<close>

text \<open>
  \<open>enc_state k\<close> is the pair of halves after \<open>k\<close> rounds of \<open>encipher\<close>; \<open>dec_state k\<close> is the
  pair that \<open>decipher\<close> holds when it has undone the rounds from \<open>k + 1\<close> on.
\<close>

definition enc_state :: "u32 list list \<Rightarrow> u32 list \<Rightarrow> u32 \<times> u32 \<Rightarrow> nat \<Rightarrow> u32 \<times> u32" where
  "enc_state S P x k = fold (bf_round S P) [0..<k] x"

definition dec_state :: "u32 list list \<Rightarrow> u32 list \<Rightarrow> u32 \<times> u32 \<Rightarrow> nat \<Rightarrow> u32 \<times> u32" where
  "dec_state S P x k = (let (l, r) = enc_state S P x k in (l XOR P ! k XOR BlowFish_F S r, r))"

lemma enc_state_Suc: "enc_state S P x (Suc k) = bf_round S P k (enc_state S P x k)"
  by (simp add: enc_state_def)

lemma dec_state_round: "bf_round S P (Suc k) (dec_state S P x (Suc k)) = dec_state S P x k"
  by (simp add: dec_state_def enc_state_Suc bf_round_def Let_def xor_ac split: prod.split)

lemma dec_state_rounds: "fold (bf_round S P) (rev [2..<n + 2]) (dec_state S P x (n + 1)) = dec_state S P x 1"
  by (induction n) (simp_all add: dec_state_round)

lemma decipher_encipher [simp]: "BlowFish_decipher S P (BlowFish_encipher S P x) = x"
proof -
  obtain l r where x16: "enc_state S P x 16 = (l, r)" by fastforce
  have c: "BlowFish_encipher S P x = (r XOR P ! 17, l XOR P ! 16)"
    using x16 by (simp add: BlowFish_encipher_def enc_state_def)
  have "bf_round S P 17 (r XOR P ! 17, l XOR P ! 16) = dec_state S P x 16"
    by (simp add: bf_round_def dec_state_def x16 Let_def xor_ac)
  moreover have "rev [2..<18] = 17 # rev [2..<15 + 2]" by (simp add: upt_rec)
  ultimately have d: "fold (bf_round S P) (rev [2..<18]) (BlowFish_encipher S P x) = dec_state S P x 1"
    using dec_state_rounds [of S P 15 x] c by simp
  obtain x0 y0 where x: "x = (x0, y0)" by fastforce
  have "dec_state S P x 1 = (y0 XOR P ! 1, x0 XOR P ! 0)"
    by (simp add: dec_state_def enc_state_def bf_round_def Let_def xor_ac x)
  then show ?thesis
    unfolding BlowFish_decipher_def d by (simp add: x xor_ac)
qed

lemma shuffle_mask:
  "shuffle r = drop_bit 24 (r AND push_bit 24 (mask 8)) OR drop_bit 8 (r AND push_bit 16 (mask 8))
     OR push_bit 8 (r AND push_bit 8 (mask 8)) OR push_bit 24 (r AND mask 8)"
  by (simp add: shuffle_def mask_eq_exp_minus_1 push_bit_eq_mult)

lemma bit_shuffle:
  "n < 32 \<Longrightarrow> bit (shuffle r) n \<longleftrightarrow>
     bit r (if n < 8 then n + 24 else if n < 16 then n + 8 else if n < 24 then n - 8 else n - 24)"
  by (cases "n < 8"; cases "n < 16"; cases "n < 24")
    (auto simp: shuffle_mask bit_simps not_less algebra_simps)

lemma shuffle_shuffle [simp]: "shuffle (shuffle r) = r"
proof (rule bit_word_eqI)
  fix n assume "n < LENGTH(32)"
  then show "bit (shuffle (shuffle r)) n = bit r n"
    by (cases "n < 8"; cases "n < 16"; cases "n < 24") (auto simp: bit_shuffle not_less)
qed

lemma length_on_block [simp, byte_simps]: "length (on_block f b) = 8"
  by (simp add: on_block_def split: prod.split)

lemma on_block_inverse:
  assumes "\<And>x. g (f x) = x" and "length b = 8"
  shows "on_block g (on_block f b) = b"
proof -
  obtain l r where f: "f (shuffle (load32 (take 4 b)), shuffle (load32 (drop 4 b))) = (l, r)"
    by fastforce
  then have "g (l, r) = (shuffle (load32 (take 4 b)), shuffle (load32 (drop 4 b)))"
    using assms(1) by metis
  moreover have "store32 (load32 (take 4 b)) @ store32 (load32 (drop 4 b)) = b"
    using assms(2) by (simp add: store32_load32)
  ultimately show ?thesis using f by (simp add: on_block_def)
qed

lemma encrypt_ready:
  assumes "m_initialized s" and "length b mod 8 = 0"
  shows "fst (BlowFish_encrypt s b) = int (length b)"
    and "length (snd (BlowFish_encrypt s b)) = length b"
proof -
  have "length b = 8 * length (blocks 8 b)"
    using length_concat_blocks [of "blocks 8 b" 8] concat_blocks [of 8 b] assms(2)
    by (simp add: blocks_lengths)
  moreover have "length (concat (map (on_block f) bs)) = 8 * length bs" for f and bs :: "bytes list"
    by (induction bs) simp_all
  ultimately show "fst (BlowFish_encrypt s b) = int (length b)"
    and "length (snd (BlowFish_encrypt s b)) = length b"
    using assms by (simp_all add: BlowFish_encrypt_def)
qed

lemma decrypt_encrypt:
  assumes "m_initialized s" and "length b mod 8 = 0"
  shows "BlowFish_decrypt s (snd (BlowFish_encrypt s b)) = (int (length b), b)"
proof -
  let ?e = "on_block (BlowFish_encipher (m_S s) (m_P s))"
  let ?d = "on_block (BlowFish_decipher (m_S s) (m_P s))"
  have "blocks 8 (concat (map ?e (blocks 8 b))) = map ?e (blocks 8 b)"
    by (rule blocks_concat) auto
  moreover have "map ?d (map ?e (blocks 8 b)) = blocks 8 b"
    by (simp add: map_idI on_block_inverse blocks_lengths)
  ultimately show ?thesis
    using assms encrypt_ready(2) [OF assms] concat_blocks [of 8 b]
    by (simp add: BlowFish_decrypt_def BlowFish_encrypt_def)
qed

lemma length_mix_key [simp]: "length (mix_key key n j ps) = length ps"
  by (induction ps arbitrary: j) (simp_all add: Let_def split: prod.split)

section \<open>The cipher behind the interface\<close>

definition BlowFish_vt :: "blowfish blockcipher" where
  "BlowFish_vt =
     \<lparr>bc_blockSize = (\<lambda>_. BlowFish_blksz), bc_setKey = BlowFish_setKey, bc_keyLen = BlowFish_keyLen,
      bc_variableKeyLen = BlowFish_variableKeyLen, bc_readyToGo = BlowFish_readyToGo,
      bc_encrypt = (\<lambda>s b. let (rc, b') = BlowFish_encrypt s b in (rc, b', s)),
      bc_decrypt = (\<lambda>s b. let (rc, b') = BlowFish_decrypt s b in (rc, b', s))\<rparr>"


lemma BlowFish_vt_simps [simp]:
  "bc_blockSize BlowFish_vt s = 8" "bc_readyToGo BlowFish_vt s = m_initialized s"
  "bc_setKey BlowFish_vt = BlowFish_setKey" "bc_keyLen BlowFish_vt s = 448"
  by (simp_all add: BlowFish_vt_def BlowFish_blksz_def BlowFish_readyToGo_def BlowFish_keyLen_def)

lemma decrypt_ready_length:
  assumes "m_initialized s" and "length b mod 8 = 0"
  shows "fst (BlowFish_decrypt s b) = int (length b)"
    and "length (snd (BlowFish_decrypt s b)) = length b"
proof -
  have "length b = 8 * length (blocks 8 b)"
    using length_concat_blocks [of "blocks 8 b" 8] concat_blocks [of 8 b] assms(2)
    by (simp add: blocks_lengths)
  moreover have "length (concat (map (on_block f) bs)) = 8 * length bs" for f and bs :: "bytes list"
    by (induction bs) simp_all
  ultimately show "fst (BlowFish_decrypt s b) = int (length b)"
    and "length (snd (BlowFish_decrypt s b)) = length b"
    using assms by (simp_all add: BlowFish_decrypt_def)
qed

interpretation bf: block_cipher BlowFish_vt
proof unfold_locales
  fix c :: blowfish and b :: bytes
  assume l: "int (length b) = bc_blockSize BlowFish_vt c"
  have m: "length b mod 8 = 0" using l by simp
  show "\<exists>b'. bc_encrypt BlowFish_vt c b = (bc_blockSize BlowFish_vt c, b', c) \<and>
      length b' = length b \<and> bc_decrypt BlowFish_vt c b' = (bc_blockSize BlowFish_vt c, b, c)"
    if "bc_readyToGo BlowFish_vt c"
    using that l encrypt_ready [OF _ m, of c] decrypt_encrypt [OF _ m, of c]
    by (cases "BlowFish_encrypt c b") (auto simp: BlowFish_vt_def BlowFish_blksz_def BlowFish_readyToGo_def)
  show "bc_encrypt BlowFish_vt c b = (-1, b, c) \<and> bc_decrypt BlowFish_vt c b = (-1, b, c)"
    if "\<not> bc_readyToGo BlowFish_vt c"
    using that by (simp add: BlowFish_vt_def BlowFish_readyToGo_def BlowFish_encrypt_def BlowFish_decrypt_def)
  show "\<exists>b'. bc_decrypt BlowFish_vt c b = (bc_blockSize BlowFish_vt c, b', c) \<and> length b' = length b"
    if "bc_readyToGo BlowFish_vt c"
    using that l decrypt_ready_length [OF _ m, of c]
    by (cases "BlowFish_decrypt c b") (auto simp: BlowFish_vt_def BlowFish_blksz_def BlowFish_readyToGo_def)
qed

section \<open>Key mixing\<close>

text \<open>The key read as an endless repetition: its byte at position \<open>i\<close>, and four bytes as a number.\<close>

definition cyclic :: "bytes \<Rightarrow> nat \<Rightarrow> nat \<Rightarrow> u32" where
  "cyclic key n i = ucast (key ! (i mod n))"

definition cyclic_word :: "bytes \<Rightarrow> nat \<Rightarrow> nat \<Rightarrow> u32" where
  "cyclic_word key n i =
     push_bit 24 (cyclic key n i) OR push_bit 16 (cyclic key n (i + 1)) OR
     push_bit 8 (cyclic key n (i + 2)) OR cyclic key n (i + 3)"

lemma key_byte_cyclic:
  assumes "0 < n"
  shows "key_byte key n (x, i mod n) = (push_bit 8 x OR cyclic key n i, Suc i mod n)"
proof -
  have "i mod n < n" using assms by simp
  then show ?thesis by (auto simp: key_byte_def cyclic_def mod_Suc)
qed

lemma key_word_cyclic:
  assumes "0 < n"
  shows "(key_byte key n ^^ 4) (0, i mod n) = (cyclic_word key n i, (i + 4) mod n)"
proof -
  note k = key_byte_cyclic [OF assms]
  have e: "Suc (Suc i) = i + 2" "Suc (i + 2) = i + 3" "Suc (i + 3) = i + 4" by simp_all
  have "(key_byte key n ^^ 4) (0, i mod n) =
      (push_bit 8 (push_bit 8 (push_bit 8 (cyclic key n i) OR cyclic key n (i + 1)) OR cyclic key n (i + 2))
        OR cyclic key n (i + 3), (i + 4) mod n)"
    by (simp add: eval_nat_numeral k)
  then show ?thesis by (simp add: cyclic_word_def push_bit_or or.assoc)
qed

lemma mix_key_cyclic:
  assumes "0 < n" and "i < length ps"
  shows "mix_key key n (j mod n) ps ! i = ps ! i XOR cyclic_word key n (j + 4 * i)"
  using assms(2)
proof (induction ps arbitrary: i j)
  case (Cons p ps)
  show ?case
    using Cons.IH [of "i - 1" "j + 4"] Cons.prems key_word_cyclic [OF assms(1), of key j]
    by (cases i) (simp_all add: add.assoc)
qed simp

section \<open>Properties\<close>

text \<open>With any accepted key, decryption of an encrypted byte array gives the array back, and both
  directions report the number of bytes.\<close>

theorem decrypt_inverts_encrypt:
  assumes "m_initialized s" and "length b mod 8 = 0"
  shows "fst (BlowFish_encrypt s b) = int (length b) \<and>
     BlowFish_decrypt s (snd (BlowFish_encrypt s b)) = (int (length b), b)"
  using encrypt_ready(1) [OF assms] decrypt_encrypt [OF assms] by simp

definition zero_blowfish :: blowfish where
  "zero_blowfish = \<lparr>m_S = replicate 4 (replicate 256 0), m_P = replicate 18 0, m_key = None, m_keylen = 8,
     m_initialized = True\<rparr>"

theorem decrypt_inverts_encrypt_witness:
  "BlowFish_decrypt zero_blowfish (snd (BlowFish_encrypt zero_blowfish [1, 2, 3, 4, 5, 6, 7, 8])) =
     (8, [1, 2, 3, 4, 5, 6, 7, 8])"
  using decrypt_inverts_encrypt [of zero_blowfish "[1, 2, 3, 4, 5, 6, 7, 8]"] by (simp add: zero_blowfish_def)

text \<open>C24. A text of whole blocks encrypted in chained mode by a fresh object is given back by a fresh
  object that decrypts with the same cipher.\<close>

theorem chained_roundtrip:
  assumes "m_initialized c" and "plain \<noteq> []" and "length plain mod 8 = 0"
  shows "\<exists>ct s d. CBC_encrypt BlowFish_vt (CBC_new BlowFish_vt (Some c) ecb) plain = Ret (8, ct, s) \<and>
     length ct = length plain \<and>
     CBC_decrypt BlowFish_vt (CBC_new BlowFish_vt (Some c) False) ct = Ret (int (length plain), plain, d)"
proof -
  have "int (length plain) mod 8 = 0" using assms(3) by presburger
  then show ?thesis using bf.cbc_roundtrip [of c plain ecb] assms by simp
qed

theorem chained_roundtrip_witness:
  "\<exists>ct s d. CBC_encrypt BlowFish_vt (CBC_new BlowFish_vt (Some zero_blowfish) False) (replicate 16 7) = Ret (8, ct, s) \<and>
     length ct = 16 \<and>
     CBC_decrypt BlowFish_vt (CBC_new BlowFish_vt (Some zero_blowfish) False) ct = Ret (16, replicate 16 7, d)"
  using chained_roundtrip [of zero_blowfish "replicate 16 7" False] by (simp add: zero_blowfish_def)

text \<open>The key schedule starts from the digits of pi with the key, repeated cyclically and read as
  big-endian words, mixed into the P-array.\<close>

theorem key_mixing:
  assumes "0 < n" and "i < length ps"
  shows "mix_key key n 0 ps ! i = ps ! i XOR cyclic_word key n (4 * i)"
  using mix_key_cyclic [OF assms, of key 0] by simp

theorem key_mixing_witness:
  "mix_key [1, 2, 3] 3 0 P_init ! 1 = P_init ! 1 XOR 0x02030102"
proof -
  have "cyclic_word [1, 2, 3] 3 4 = 0x02030102"
    by (simp add: cyclic_word_def cyclic_def)
  then show ?thesis using key_mixing [of 3 1 P_init "[1, 2, 3]"] by (simp add: P_init_def)
qed

theorem one_direction_witness:
  "\<exists>s. CBC_decrypt BlowFish_vt (CBC_new BlowFish_vt (Some zero_blowfish) False) [] = Ret (0, [], s) \<and>
     CBC_encrypt BlowFish_vt s [1] = Ret (-1, [1], s)"
proof -
  let ?s = "CBC_new BlowFish_vt (Some zero_blowfish) False"
  obtain s where "CBC_decrypt BlowFish_vt ?s [] = Ret (0, [], s)"
    by (simp add: CBC_decrypt_def CBC_new_def CBC_initRegister_def blocks_short)
  then show ?thesis
    using one_direction [of BlowFish_vt ?s "[]" 0 "[]" s "[1]"] by (simp add: CBC_new_def)
qed

end
