(* ===== verification/CbcMaster.thy ===== *)
theory CbcMaster
  imports Blowfish
begin

text \<open>
  An earlier version of the chaining object, src/runtime/kwalletbackend/cbc.master.cc, kept in the tree beside cbc.cc.  It
  takes the whole text for one block: the register has the length of the first text, so that within a text nothing is
  chained, and only a later text of the same object is mixed with the one before.  This is the mode that cbc.cc reads old
  files with.  The class is that of \<open>Cbc\<close> without the flag for this mode; the field is not used here.
\<close>

definition Master_new :: "'c blockcipher \<Rightarrow> 'c option \<Rightarrow> 'c cbc" where
  "Master_new vt cipher =
     \<lparr>cbc_cipher = cipher, cbc_register = None, cbc_next = None, cbc_len = -1, cbc_reader = False, cbc_writer = False,
      cbc_useECB = False, cbc_blksz = (case cipher of None \<Rightarrow> -1 | Some c \<Rightarrow> bc_blockSize vt c)\<rparr>"

definition Master_setKey :: "'c blockcipher \<Rightarrow> 'c cbc \<Rightarrow> bytes \<Rightarrow> int \<Rightarrow> bool \<times> 'c cbc" where
  "Master_setKey vt s key bitlength =
     (case cbc_cipher s of
        Some c \<Rightarrow> (let (ok, c') = bc_setKey vt c key bitlength in (ok, s\<lparr>cbc_cipher := Some c'\<rparr>))
      | None \<Rightarrow> (False, s))"

definition Master_keyLen :: "'c blockcipher \<Rightarrow> 'c cbc \<Rightarrow> int" where
  "Master_keyLen vt s = (case cbc_cipher s of Some c \<Rightarrow> bc_keyLen vt c | None \<Rightarrow> -1)"

definition Master_variableKeyLen :: "'c blockcipher \<Rightarrow> 'c cbc \<Rightarrow> bool" where
  "Master_variableKeyLen vt s = (case cbc_cipher s of Some c \<Rightarrow> bc_variableKeyLen vt c | None \<Rightarrow> False)"

definition Master_readyToGo :: "'c blockcipher \<Rightarrow> 'c cbc \<Rightarrow> bool" where
  "Master_readyToGo vt s = (case cbc_cipher s of Some c \<Rightarrow> bc_readyToGo vt c | None \<Rightarrow> False)"

text \<open>The register keeps its length; a shorter text replaces its front only.\<close>

definition Master_encrypt :: "'c blockcipher \<Rightarrow> 'c cbc \<Rightarrow> bytes \<Rightarrow> (int \<times> bytes \<times> 'c cbc) run" where
  "Master_encrypt vt s block =
     (case cbc_cipher s of
        None \<Rightarrow> Ret (-1, block, s)
      | Some c \<Rightarrow>
          if cbc_reader s then Ret (-1, block, s)
          else
            let s1 = s\<lparr>cbc_writer := True\<rparr>; len = int (length block) in
            if cbc_register s1 \<noteq> None \<and> cbc_len s1 < len then Ret (-1, block, s1)
            else
              let (reg, n) = (case cbc_register s1 of None \<Rightarrow> (zeros (length block), len) | Some r \<Rightarrow> (r, cbc_len s1));
                  (rc, b', c') = bc_encrypt vt c (xor_bytes block reg)
              in Ret (rc, b', s1\<lparr>cbc_cipher := Some c', cbc_len := n,
                   cbc_register := Some (if rc \<noteq> -1 then b' @ drop (length b') reg else reg)\<rparr>))"

text \<open>Like the new decryption it reads a whole register from the text, however short that is.\<close>

definition Master_decrypt :: "'c blockcipher \<Rightarrow> 'c cbc \<Rightarrow> bytes \<Rightarrow> (int \<times> bytes \<times> 'c cbc) run" where
  "Master_decrypt vt s block =
     (case cbc_cipher s of
        None \<Rightarrow> Ret (-1, block, s)
      | Some c \<Rightarrow>
          if cbc_writer s then Ret (-1, block, s)
          else
            let s1 = s\<lparr>cbc_reader := True\<rparr>; len = int (length block) in
            if cbc_register s1 \<noteq> None \<and> cbc_len s1 < len then Ret (-1, block, s1)
            else
              let (reg, n) = (case cbc_register s1 of None \<Rightarrow> (zeros (length block), len) | Some r \<Rightarrow> (r, cbc_len s1))
              in if len < n then UB
                 else
                   let (rc, b', c') = bc_decrypt vt c block;
                       b'' = (if rc \<noteq> -1 then xor_bytes b' reg else b')
                   in Ret (rc, b'', s1\<lparr>cbc_cipher := Some c', cbc_len := n,
                        cbc_register := Some block, cbc_next := Some reg\<rparr>))"

section \<open>Old texts are read\<close>

fun process_all :: "('s \<Rightarrow> bytes \<Rightarrow> (int \<times> bytes \<times> 's) run) \<Rightarrow> 's \<Rightarrow> bytes list \<Rightarrow> ((int \<times> bytes) list \<times> 's) run" where
  "process_all f s [] = Ret ([], s)"
| "process_all f s (x # xs) =
     run_bind (f s x) (\<lambda>(rc, y, s). run_bind (process_all f s xs) (\<lambda>(ys, s). Ret ((rc, y) # ys, s)))"

text \<open>The mode of cbc.cc for reading is the decryption of the old version.\<close>

lemma old_decryption: "cbc_useECB s \<Longrightarrow> CBC_decrypt vt s = Master_decrypt vt s"
  by (simp add: fun_eq_iff CBC_decrypt_def CBC_decryptECB_def Master_decrypt_def)

text \<open>The objects on both sides have the same register, which is of the length of the texts once there is one.\<close>

definition in_step :: "nat \<Rightarrow> blowfish \<Rightarrow> blowfish cbc \<Rightarrow> blowfish cbc \<Rightarrow> bool" where
  "in_step n c s d \<longleftrightarrow> cbc_cipher s = Some c \<and> cbc_cipher d = Some c \<and> \<not> cbc_reader s \<and> \<not> cbc_writer d \<and> cbc_useECB d \<and>
     cbc_register s = cbc_register d \<and>
     (\<forall>r. cbc_register s = Some r \<longrightarrow> length r = n \<and> cbc_len s = int n \<and> cbc_len d = int n)"

lemma in_step_text:
  assumes "in_step n c s d" and "m_initialized c" and "n mod 8 = 0" and "length p = n"
  obtains ct s' d' where "Master_encrypt BlowFish_vt s p = Ret (int n, ct, s')" and "length ct = n"
    and "CBC_decrypt BlowFish_vt d ct = Ret (int n, p, d')" and "in_step n c s' d'"
proof -
  let ?reg = "case cbc_register s of None \<Rightarrow> zeros n | Some r \<Rightarrow> r"
  let ?x = "xor_bytes p ?reg"
  have r: "length ?reg = n" using assms(1) by (simp add: in_step_def split: option.split)
  have x: "length ?x mod 8 = 0" "length ?x = n" using assms(3,4) r by simp_all
  obtain ct where e: "BlowFish_encrypt c ?x = (int n, ct)" "length ct = n"
    using encrypt_ready [OF assms(2) x(1)] x(2) by (cases "BlowFish_encrypt c ?x") simp
  then have d: "BlowFish_decrypt c ct = (int n, ?x)" using decrypt_encrypt [OF assms(2) x(1)] x(2) by simp
  have vt: "bc_encrypt BlowFish_vt c b = (case BlowFish_encrypt c b of (rc, y) \<Rightarrow> (rc, y, c))"
    "bc_decrypt BlowFish_vt c b = (case BlowFish_decrypt c b of (rc, y) \<Rightarrow> (rc, y, c))" for b
    by (simp_all add: BlowFish_vt_def split: prod.split)
  have "Master_encrypt BlowFish_vt s p =
      Ret (int n, ct, s\<lparr>cbc_writer := True, cbc_cipher := Some c, cbc_len := int n, cbc_register := Some ct\<rparr>)"
    using assms(1,4) e r by (auto simp: Master_encrypt_def in_step_def vt Let_def split: option.split)
  moreover have "CBC_decrypt BlowFish_vt d ct = Ret (int n, p, d\<lparr>cbc_reader := True, cbc_cipher := Some c,
      cbc_len := int n, cbc_register := Some ct, cbc_next := Some ?reg\<rparr>)"
    using assms(1,4) e(2) d r xor_bytes_cancel [of p ?reg]
    by (auto simp: old_decryption Master_decrypt_def in_step_def vt Let_def split: option.split)
  moreover have "in_step n c (s\<lparr>cbc_writer := True, cbc_cipher := Some c, cbc_len := int n, cbc_register := Some ct\<rparr>)
      (d\<lparr>cbc_reader := True, cbc_cipher := Some c, cbc_len := int n, cbc_register := Some ct, cbc_next := Some ?reg\<rparr>)"
    using assms(1) e(2) by (simp add: in_step_def)
  ultimately show thesis using that e(2) by blast
qed

text \<open>What an object of the old version encrypts, one text after the other, an object of the new version that reads in
  the old mode gives back, text by text, with the same key; the texts have the same length, of whole blocks.\<close>

theorem old_texts_read:
  assumes "m_initialized c" and "n mod 8 = 0" and "\<forall>p \<in> set ps. length p = n"
  shows "\<exists>cts s d. process_all (Master_encrypt BlowFish_vt) (Master_new BlowFish_vt (Some c)) ps =
      Ret (map (\<lambda>ct. (int n, ct)) cts, s) \<and>
    process_all (CBC_decrypt BlowFish_vt) (CBC_new BlowFish_vt (Some c) True) cts = Ret (map (\<lambda>p. (int n, p)) ps, d)"
proof -
  have "\<exists>cts s' d'. process_all (Master_encrypt BlowFish_vt) s ps = Ret (map (\<lambda>ct. (int n, ct)) cts, s') \<and>
      process_all (CBC_decrypt BlowFish_vt) d cts = Ret (map (\<lambda>p. (int n, p)) ps, d')" if "in_step n c s d" for s d
    using that assms(3)
  proof (induction ps arbitrary: s d)
    case Nil
    show ?case by (intro exI [of _ "[]"]) simp
  next
    case (Cons p ps)
    have l: "length p = n" using Cons.prems(2) by simp
    obtain ct s1 d1 where t: "Master_encrypt BlowFish_vt s p = Ret (int n, ct, s1)"
      "CBC_decrypt BlowFish_vt d ct = Ret (int n, p, d1)" "in_step n c s1 d1"
      by (rule in_step_text [OF Cons.prems(1) assms(1,2) l])
    obtain cts s' d' where "process_all (Master_encrypt BlowFish_vt) s1 ps = Ret (map (\<lambda>ct. (int n, ct)) cts, s')"
      "process_all (CBC_decrypt BlowFish_vt) d1 cts = Ret (map (\<lambda>p. (int n, p)) ps, d')"
      using Cons.IH [OF t(3)] Cons.prems(2) by auto
    with t(1,2) show ?case by (intro exI [of _ "ct # cts"] exI [of _ s'] exI [of _ d']) simp
  qed
  moreover have "in_step n c (Master_new BlowFish_vt (Some c)) (CBC_new BlowFish_vt (Some c) True)"
    by (simp add: in_step_def Master_new_def CBC_new_def)
  ultimately show ?thesis by blast
qed

theorem old_texts_read_witness:
  "\<exists>cts s d. process_all (Master_encrypt BlowFish_vt) (Master_new BlowFish_vt (Some zero_blowfish)) [replicate 16 1, replicate 16 2] =
      Ret (map (\<lambda>ct. (16, ct)) cts, s) \<and>
    process_all (CBC_decrypt BlowFish_vt) (CBC_new BlowFish_vt (Some zero_blowfish) True) cts =
      Ret ([(16, replicate 16 1), (16, replicate 16 2)], d)"
  using old_texts_read [of zero_blowfish 16 "[replicate 16 1, replicate 16 2]"] by (simp add: zero_blowfish_def)

text \<open>Within one text nothing is chained: it is what the cipher makes of it, block by block.\<close>

lemma old_text_not_chained:
  assumes "m_initialized c" and "length p mod 8 = 0"
  shows "\<exists>s. Master_encrypt BlowFish_vt (Master_new BlowFish_vt (Some c)) p =
    Ret (int (length p), snd (BlowFish_encrypt c p), s)"
  using encrypt_ready(1) [OF assms] xor_bytes_zeros [of p "length p"]
  by (cases "BlowFish_encrypt c p") (simp add: Master_encrypt_def Master_new_def BlowFish_vt_def Let_def)

end
