(* ===== verification/QtMap.thy ===== *)
theory QtMap
  imports Prelude "HOL-Library.List_Lexorder"
begin

text \<open>
  Ordered dictionaries (\<open>QMap\<close>, \<open>std::map\<close>): association lists kept in strictly ascending key
  order, which is the order in which the code iterates over them.  Text keys are ordered by
  their UTF-16 code units.

  The locale \<open>ordered_dict\<close> is the contract the components use (lookup after insertion and
  removal, and the order of the keys); it is interpreted on the operations below.
\<close>

type_synonym ('k, 'v) qmap = "('k \<times> 'v) list"

fun qmap_insert :: "'k::linorder \<Rightarrow> 'v \<Rightarrow> ('k, 'v) qmap \<Rightarrow> ('k, 'v) qmap" where
  "qmap_insert k v [] = [(k, v)]"
| "qmap_insert k v ((k', v') # m) =
     (if k < k' then (k, v) # (k', v') # m
      else if k = k' then (k, v) # m
      else (k', v') # qmap_insert k v m)"

definition qmap_remove :: "'k \<Rightarrow> ('k, 'v) qmap \<Rightarrow> ('k, 'v) qmap" where
  "qmap_remove k m = filter (\<lambda>p. fst p \<noteq> k) m"

definition qmap_find :: "('k, 'v) qmap \<Rightarrow> 'k \<Rightarrow> 'v option" where
  "qmap_find m k = map_of m k"

definition qmap_contains :: "('k, 'v) qmap \<Rightarrow> 'k \<Rightarrow> bool" where
  "qmap_contains m k \<longleftrightarrow> qmap_find m k \<noteq> None"

definition qmap_keys :: "('k, 'v) qmap \<Rightarrow> 'k list" where
  "qmap_keys m = map fst m"

definition qmap_wf :: "('k::linorder, 'v) qmap \<Rightarrow> bool" where
  "qmap_wf m \<longleftrightarrow> sorted_wrt (<) (map fst m)"

locale ordered_dict =
  fixes ins :: "'k::linorder \<Rightarrow> 'v \<Rightarrow> 'm \<Rightarrow> 'm"
    and del :: "'k \<Rightarrow> 'm \<Rightarrow> 'm"
    and find :: "'m \<Rightarrow> 'k \<Rightarrow> 'v option"
    and keys :: "'m \<Rightarrow> 'k list"
    and wf :: "'m \<Rightarrow> bool"
  assumes find_ins: "wf m \<Longrightarrow> find (ins k v m) = (find m)(k \<mapsto> v)"
    and find_del: "wf m \<Longrightarrow> find (del k m) = (find m)(k := None)"
    and wf_ins: "wf m \<Longrightarrow> wf (ins k v m)"
    and wf_del: "wf m \<Longrightarrow> wf (del k m)"
    and keys_find: "wf m \<Longrightarrow> set (keys m) = dom (find m)"
    and keys_sorted: "wf m \<Longrightarrow> sorted_wrt (<) (keys m)"

context ordered_dict begin

text \<open>Keys come out in one order only, so two dictionaries with the same domain list the same keys.\<close>

lemma keys_eqI:
  assumes "wf m" and "wf m'" and "dom (find m) = dom (find m')"
  shows "keys m = keys m'"
  using assms keys_find keys_sorted
  by (intro sorted_distinct_set_unique) (auto simp: strict_sorted_iff)

lemma keys_del_ins:
  assumes "wf m" and "find m k = None"
  shows "keys (del k (ins k v m)) = keys m"
  using assms find_del [OF wf_ins [OF assms(1)], of k k v] find_ins [OF assms(1), of k v]
  by (intro keys_eqI) (auto simp: wf_del wf_ins)

end

lemma qmap_find_insert: "qmap_wf m \<Longrightarrow> qmap_find (qmap_insert k v m) = (qmap_find m)(k \<mapsto> v)"
  unfolding qmap_find_def
  by (induction k v m rule: qmap_insert.induct)
    (auto simp: qmap_wf_def fun_eq_iff)

lemma qmap_find_remove: "qmap_find (qmap_remove k m) = (qmap_find m)(k := None)"
  unfolding qmap_find_def qmap_remove_def by (induction m) (auto simp: fun_eq_iff)

lemma fst_qmap_insert: "set (map fst (qmap_insert k v m)) = insert k (set (map fst m))"
  by (induction k v m rule: qmap_insert.induct) auto

lemma qmap_wf_insert: "qmap_wf m \<Longrightarrow> qmap_wf (qmap_insert k v m)"
  unfolding qmap_wf_def
proof (induction k v m rule: qmap_insert.induct)
  case (2 k v k' v' m)
  show ?case
  proof (cases "k < k' \<or> k = k'")
    case True
    with 2 show ?thesis by (auto dest: less_trans)
  next
    case False
    then have "k' < k" by auto
    with 2 False show ?thesis using fst_qmap_insert [of k v m] by (auto simp: set_map)
  qed
qed simp

lemma qmap_wf_remove: "qmap_wf m \<Longrightarrow> qmap_wf (qmap_remove k m)"
  unfolding qmap_wf_def qmap_remove_def by (induction m) auto

lemma set_qmap_keys: "set (qmap_keys m) = dom (qmap_find m)"
proof -
  have "qmap_find m = map_of m" by (simp add: qmap_find_def fun_eq_iff)
  then show ?thesis by (simp add: qmap_keys_def dom_map_of_conv_image_fst)
qed

lemma dom_qmap_find: "dom (qmap_find m) = fst ` set m"
  by (simp add: set_qmap_keys [symmetric] qmap_keys_def)

interpretation qm: ordered_dict qmap_insert qmap_remove qmap_find qmap_keys qmap_wf
  by unfold_locales
    (simp_all add: qmap_find_insert qmap_find_remove qmap_wf_insert qmap_wf_remove set_qmap_keys,
     simp add: qmap_wf_def qmap_keys_def)

lemmas qmap_simps = qmap_find_insert qmap_find_remove qmap_wf_insert qmap_wf_remove

lemma qmap_wf_Nil [simp]: "qmap_wf []"
  by (simp add: qmap_wf_def)

lemma qmap_find_Nil [simp]: "qmap_find [] k = None"
  by (simp add: qmap_find_def)

lemma qmap_contains_insert [simp]:
  "qmap_wf m \<Longrightarrow> qmap_contains (qmap_insert k v m) k' \<longleftrightarrow> k' = k \<or> qmap_contains m k'"
  by (simp add: qmap_contains_def qmap_find_insert)

text \<open>An insertion past the last key appends; so does inserting an ascending list one by one.\<close>

lemma qmap_insert_last:
  "\<forall>k' \<in> set (map fst m). k' < k \<Longrightarrow> qmap_insert k v m = m @ [(k, v)]"
  by (induction k v m rule: qmap_insert.induct) auto

lemma qmap_insert_again:
  "\<forall>k' \<in> set (map fst m). k' < k \<Longrightarrow> qmap_insert k v (m @ [(k, w)]) = m @ [(k, v)]"
  by (induction m) auto

end
