(* ===== verification/Host.thy ===== *)
theory Host
  imports QtMap
begin

text \<open>
  What the program takes from outside its own source: Qt's text and stream encodings, MD5
  (\<open>QCryptographicHash\<close>), gcrypt's key derivation and random bytes, and the answers of the
  file system.  They are the fields of the record \<open>host\<close>, an argument of every definition that
  uses them; nothing is assumed of them except where a theorem names \<open>stream_laws\<close> or
  \<open>md5_laws\<close>.

  \<open>get_u32\<close>, \<open>get_str\<close> and \<open>get_ba\<close> are the \<open>QDataStream >>\<close> operators: they return the value
  read and the rest of the stream, and at the end of the stream whatever Qt returns there.
\<close>

record host =
  toUtf8 :: "qstring \<Rightarrow> bytes"
  fromUtf8 :: "bytes \<Rightarrow> qstring"
  toPercent :: "bytes \<Rightarrow> byte \<Rightarrow> bytes \<Rightarrow> bytes"
  fromPercent :: "byte \<Rightarrow> bytes \<Rightarrow> bytes"
  md5 :: "bytes \<Rightarrow> bytes"
  put_u32 :: "u32 \<Rightarrow> bytes"
  get_u32 :: "bytes \<Rightarrow> u32 \<times> bytes"
  put_str :: "qstring \<Rightarrow> bytes"
  get_str :: "bytes \<Rightarrow> qstring \<times> bytes"
  put_ba :: "bytes \<Rightarrow> bytes"
  get_ba :: "bytes \<Rightarrow> bytes \<times> bytes"
  kdf :: "bytes \<Rightarrow> bytes \<Rightarrow> bytes option"   \<comment> \<open>PBKDF2-SHA512 of password and salt; None: gcrypt error\<close>
  randomSalt :: "bytes"                     \<comment> \<open>gcry_randomize; 56 bytes\<close>
  randomByte :: "nat \<Rightarrow> byte"             \<comment> \<open>QRandomGenerator::generate, byte by byte\<close>
  gcryptInit :: "bool"                      \<comment> \<open>secure memory could be initialised\<close>
  saveLocation :: "qstring"
  mayRead :: "qstring \<Rightarrow> bool"             \<comment> \<open>opening the existing file for reading succeeds\<close>
  mayWrite :: "qstring \<Rightarrow> bool"            \<comment> \<open>opening or creating the file for writing succeeds\<close>
  fullWrite :: "qstring \<Rightarrow> nat \<Rightarrow> bool"   \<comment> \<open>a write of so many bytes to the file is complete\<close>
  mayCommit :: "qstring \<Rightarrow> bool"           \<comment> \<open>QSaveFile::commit succeeds\<close>
  mayRemove :: "qstring \<Rightarrow> bool"
  mayRename :: "qstring \<Rightarrow> qstring \<Rightarrow> bool"
  dirEntries :: "(qstring \<Rightarrow> bytes option) \<Rightarrow> qstring list"  \<comment> \<open>file names *.kwl in the save directory\<close>
  rand :: "nat \<Rightarrow> int"                  \<comment> \<open>the numbers of the C library's generator, in order\<close>
  gpgInitialized :: bool                  \<comment> \<open>the GpgME library was set up earlier in the process\<close>
  gpgEngine :: bool                       \<comment> \<open>GpgME finds its OpenPGP engine\<close>
  gpgContext :: bool                      \<comment> \<open>a context could be created\<close>
  gpgEncrypt :: "qstring option \<Rightarrow> bytes \<Rightarrow> bytes option"
  gpgDecrypt :: "nat \<Rightarrow> bytes \<Rightarrow> bytes option"  \<comment> \<open>the outcome of attempt \<open>n\<close>\<close>
  gpgRetry :: "nat \<Rightarrow> bool"             \<comment> \<open>the user asks for another attempt\<close>
  gpgKeys :: "qstring list"               \<comment> \<open>the IDs of the keys on the local key ring\<close>
  stackJunk :: "nat \<Rightarrow> byte"              \<comment> \<open>contents of an uninitialised local array\<close>

text \<open>The files, by path.\<close>

type_synonym files = "qstring \<Rightarrow> bytes option"

section \<open>Documented behaviour of the library\<close>

text \<open>
  A stream gives back what was put into it, whatever follows; lengths are written as 32-bit
  numbers, so only for text and byte arrays that fit.
\<close>

definition fits :: "'a list \<Rightarrow> bool" where
  "fits xs \<longleftrightarrow> length xs < 2 ^ 30"

definition stream_laws :: "host \<Rightarrow> bool" where
  "stream_laws h \<longleftrightarrow>
     (\<forall>w r. get_u32 h (put_u32 h w @ r) = (w, r)) \<and>
     (\<forall>s r. fits s \<longrightarrow> get_str h (put_str h s @ r) = (s, r)) \<and>
     (\<forall>b r. fits b \<longrightarrow> get_ba h (put_ba h b @ r) = (b, r)) \<and>
     (\<forall>w. length (put_u32 h w) = 4) \<and>
     (\<forall>s. fits s \<longrightarrow> put_str h s \<noteq> [])"

definition md5_laws :: "host \<Rightarrow> bool" where
  "md5_laws h \<longleftrightarrow> (\<forall>b. length (md5 h b) = 16)"

lemma get_put_u32: "stream_laws h \<Longrightarrow> get_u32 h (put_u32 h w @ r) = (w, r)"
  by (simp add: stream_laws_def)

lemma get_put_str: "stream_laws h \<Longrightarrow> fits s \<Longrightarrow> get_str h (put_str h s @ r) = (s, r)"
  by (simp add: stream_laws_def)

lemma get_put_ba: "stream_laws h \<Longrightarrow> fits b \<Longrightarrow> get_ba h (put_ba h b @ r) = (b, r)"
  by (simp add: stream_laws_def)

lemma length_put_u32: "stream_laws h \<Longrightarrow> length (put_u32 h w) = 4"
  by (simp add: stream_laws_def)

lemma put_str_nonempty: "stream_laws h \<Longrightarrow> fits s \<Longrightarrow> put_str h s \<noteq> []"
  by (simp add: stream_laws_def)

lemmas stream_simps = get_put_u32 get_put_str get_put_ba length_put_u32 put_str_nonempty

section \<open>A concrete host\<close>

text \<open>
  A host on which the laws hold, for closed examples: big-endian numbers, length-prefixed
  arrays, and a placeholder of the right length for each hash.
\<close>

definition be32 :: "u32 \<Rightarrow> bytes" where
  "be32 w = rev (store32 w)"

definition be32_get :: "bytes \<Rightarrow> u32 \<times> bytes" where
  "be32_get b = (if length b < 4 then (0, []) else (load32 (rev (take 4 b)), drop 4 b))"

definition put_list :: "('a \<Rightarrow> bytes) \<Rightarrow> 'a list \<Rightarrow> bytes" where
  "put_list f xs = be32 (of_nat (length xs)) @ concat (map f xs)"

definition example_host :: host where
  "example_host =
     \<lparr>toUtf8 = map ucast, fromUtf8 = map ucast, toPercent = (\<lambda>_ _ b. b), fromPercent = (\<lambda>_ b. b),
      md5 = (\<lambda>b. take 16 (b @ zeros 16)),
      put_u32 = be32, get_u32 = be32_get,
      put_str = put_list (\<lambda>c. [ucast (drop_bit 8 c), ucast c]),
      get_str = (\<lambda>b. let (n, r) = be32_get b in
        (map (\<lambda>p. push_bit 8 (ucast (p ! 0)) OR ucast (p ! 1)) (blocks 2 (take (2 * unat n) r)),
         drop (2 * unat n) r)),
      put_ba = put_list (\<lambda>c. [c]),
      get_ba = (\<lambda>b. let (n, r) = be32_get b in (take (unat n) r, drop (unat n) r)),
      kdf = (\<lambda>p s. Some (take 56 (p @ s @ zeros 56))),
      randomSalt = zeros 56, randomByte = (\<lambda>_. 0), gcryptInit = True, saveLocation = qs ''/w'',
      mayRead = (\<lambda>_. True), mayWrite = (\<lambda>_. True), fullWrite = (\<lambda>_ _. True), mayCommit = (\<lambda>_. True),
      mayRemove = (\<lambda>_. True), mayRename = (\<lambda>_ _. True), dirEntries = (\<lambda>_. []), rand = (\<lambda>n. int n + 1),
      gpgInitialized = False, gpgEngine = True,
      gpgContext = True, gpgEncrypt = (\<lambda>_. Some), gpgDecrypt = (\<lambda>_. Some), gpgRetry = (\<lambda>_. False),
      gpgKeys = [qs ''key''], stackJunk = (\<lambda>_. 0)\<rparr>"

lemma be32_get_put [simp]: "be32_get (be32 w @ r) = (w, r)"
  by (simp add: be32_get_def be32_def)

lemma length_be32 [simp]: "length (be32 w) = 4"
  by (simp add: be32_def)

lemma unat_length: "fits xs \<Longrightarrow> unat (of_nat (length xs) :: u32) = length xs"
  by (simp add: fits_def unat_of_nat)

lemma char_split: "push_bit 8 (ucast (ucast (drop_bit 8 c) :: byte)) OR ucast (ucast c :: byte) = (c :: 16 word)"
proof (rule bit_word_eqI)
  fix n assume "n < LENGTH(16)"
  then show "bit (push_bit 8 (ucast (ucast (drop_bit 8 c) :: byte)) OR ucast (ucast c :: byte) :: 16 word) n = bit c n"
    by (cases "n < 8") (auto simp: bit_simps not_less)
qed

lemma stream_laws_example: "stream_laws example_host"
proof -
  have bl: "blocks 2 (concat (map (\<lambda>c. [ucast (drop_bit 8 c), ucast c] :: bytes) s)) =
      map (\<lambda>c. [ucast (drop_bit 8 c), ucast c]) s" for s :: qstring
    by (rule blocks_concat) auto
  have lc: "length (concat (map (\<lambda>c. [ucast (drop_bit 8 c), ucast c] :: bytes) s)) = 2 * length s" for s :: qstring
    by (induction s) simp_all
  have str: "get_str example_host (put_str example_host s @ r) = (s, r)" if "fits s" for s r
    using that bl [of s] lc [of s]
    by (simp add: example_host_def put_list_def unat_length comp_def char_split)
  have ba: "get_ba example_host (put_ba example_host b @ r) = (b, r)" if "fits b" for b r
    using that by (simp add: example_host_def put_list_def unat_length)
  have ne: "put_str example_host s \<noteq> []" for s
    by (simp add: example_host_def put_list_def be32_def store32_def)
  have w: "get_u32 example_host (put_u32 example_host w @ r) = (w, r)"
    and l: "length (put_u32 example_host w) = 4" for w r
    by (simp_all add: example_host_def)
  show ?thesis
    unfolding stream_laws_def using str ba ne w l by blast
qed

lemma md5_laws_example: "md5_laws example_host"
proof -
  have "length (take 16 (b @ zeros 16)) = 16" for b :: bytes
    unfolding length_take length_append length_zeros by linarith
  then show ?thesis by (simp only: md5_laws_def example_host_def host.simps) simp
qed

end
