(* ===== verification/BackendData.thy ===== *)
theory BackendData
  imports Host
begin

text \<open>
  The in-memory wallet: the classes \<open>Entry\<close> (kwalletentry.cc) and \<open>Backend\<close>
  (kwalletbackend.h, kwalletbackend.cc) of src/runtime/kwalletbackend, with the operations
  on folders and entries.  The record \<open>backend\<close> has one field per member; the entry pointers
  of the two-level map are owned by that map alone, so the map holds the entries themselves.

  Next to the map the wallet keeps \<open>_hashes\<close>, the MD5 digests of the folder names and entry
  names, from which a closed wallet answers \<open>folderDoesNotExist\<close> and \<open>entryDoesNotExist\<close>.
  The lemmas say how each operation changes the content (\<open>lookup_entry\<close>), that the maps stay
  ordered (\<open>wf_entries\<close>), and under which conditions the digests agree with the content
  (\<open>coherent\<close>).
\<close>

section \<open>Entries\<close>

type_synonym entry_type = u32

definition Unknown :: entry_type where "Unknown = 0"
definition Password :: entry_type where "Password = 1"
definition Stream :: entry_type where "Stream = 2"
definition Map :: entry_type where "Map = 3"

lemmas entry_type_defs = Unknown_def Password_def Stream_def Map_def

record entry =
  e_key :: qstring
  e_value :: bytes
  e_type :: entry_type

text \<open>The constructor leaves the type indeterminate.\<close>

definition Entry_new :: "entry_type \<Rightarrow> entry" where
  "Entry_new junk = \<lparr>e_key = [], e_value = [], e_type = junk\<rparr>"

definition Entry_password :: "host \<Rightarrow> entry \<Rightarrow> qstring" where
  "Entry_password h e = fst (get_str h (e_value e))"

definition Entry_setValue :: "bytes \<Rightarrow> entry \<Rightarrow> entry" where
  "Entry_setValue val e = e\<lparr>e_value := val\<rparr>"

text \<open>
  The overload for text zeroes the old value and streams the new one over it from the start;
  opening a byte array for writing does not truncate it.
\<close>

definition Entry_setValueText :: "host \<Rightarrow> qstring \<Rightarrow> entry \<Rightarrow> entry" where
  "Entry_setValueText h val e =
     e\<lparr>e_value := put_str h val @ drop (length (put_str h val)) (zeros (length (e_value e)))\<rparr>"

definition Entry_setKey :: "qstring \<Rightarrow> entry \<Rightarrow> entry" where
  "Entry_setKey k e = e\<lparr>e_key := k\<rparr>"

definition Entry_setType :: "entry_type \<Rightarrow> entry \<Rightarrow> entry" where
  "Entry_setType t e = e\<lparr>e_type := t\<rparr>"

definition Entry_copy :: "entry \<Rightarrow> entry \<Rightarrow> entry" where
  "Entry_copy x e = e\<lparr>e_type := e_type x, e_key := e_key x, e_value := e_value x\<rparr>"

definition Entry_delete :: "entry \<Rightarrow> entry" where
  "Entry_delete e = e\<lparr>e_value := zeros (length (e_value e))\<rparr>"

lemma Entry_copy_eq [simp]: "Entry_copy x e = x"
  by (simp add: Entry_copy_def)

section \<open>The wallet object\<close>

datatype cipher_type = CIPHER_UNKNOWN | CIPHER_BLOWFISH | CIPHER_GPG

type_synonym entry_map = "(qstring, entry) qmap"
type_synonym folder_map = "(qstring, entry_map) qmap"
type_synonym hash_map = "bytes \<Rightarrow> bytes list option"

record backend =
  b_name :: qstring
  b_path :: qstring
  b_open :: bool
  b_useNewHash :: bool
  b_folder :: qstring
  b_ref :: int
  b_entries :: folder_map
  b_hashes :: hash_map
  b_passhash :: bytes
  b_newPassHash :: bytes
  b_cipherType :: cipher_type
  b_gpgKey :: "qstring option"

text \<open>The digest of a folder or entry name.\<close>

definition name_digest :: "host \<Rightarrow> qstring \<Rightarrow> bytes" where
  "name_digest h s = md5 h (toUtf8 h s)"

text \<open>Updates of the digest list of the folder \<open>f\<close>, where it has one.\<close>

definition hash_update :: "host \<Rightarrow> qstring \<Rightarrow> (bytes list \<Rightarrow> bytes list) \<Rightarrow> hash_map \<Rightarrow> hash_map" where
  "hash_update h f upd hm =
     (case hm (name_digest h f) of None \<Rightarrow> hm | Some l \<Rightarrow> hm(name_digest h f \<mapsto> upd l))"

section \<open>Operations on folders and entries\<close>

definition Backend_setFolder :: "qstring \<Rightarrow> backend \<Rightarrow> backend" where
  "Backend_setFolder f b = b\<lparr>b_folder := f\<rparr>"

definition Backend_hasFolder :: "backend \<Rightarrow> qstring \<Rightarrow> bool" where
  "Backend_hasFolder b f = qmap_contains (b_entries b) f"

definition Backend_ref :: "backend \<Rightarrow> int \<times> backend" where
  "Backend_ref b = (b_ref b + 1, b\<lparr>b_ref := b_ref b + 1\<rparr>)"

definition Backend_deref :: "backend \<Rightarrow> int \<times> backend" where
  "Backend_deref b =
     (let r = b_ref b - 1; r = (if r < 0 then 0 else r) in (r, b\<lparr>b_ref := r\<rparr>))"

text \<open>Changing the cipher of a wallet that has one fails the assertion.\<close>

definition Backend_setCipherType :: "cipher_type \<Rightarrow> backend \<Rightarrow> backend run" where
  "Backend_setCipherType ct b =
     (if b_cipherType b = CIPHER_UNKNOWN then Ret (b\<lparr>b_cipherType := ct\<rparr>) else UB)"

text \<open>\<open>_entries[_folder]\<close> in a const method: an empty map where the folder does not exist.\<close>

definition current_folder :: "backend \<Rightarrow> entry_map" where
  "current_folder b = (case qmap_find (b_entries b) (b_folder b) of None \<Rightarrow> [] | Some m \<Rightarrow> m)"

definition Backend_folderList :: "backend \<Rightarrow> qstring list" where
  "Backend_folderList b = qmap_keys (b_entries b)"

definition Backend_entryList :: "backend \<Rightarrow> qstring list" where
  "Backend_entryList b = qmap_keys (current_folder b)"

definition Backend_hasEntry :: "backend \<Rightarrow> qstring \<Rightarrow> bool" where
  "Backend_hasEntry b key =
     (qmap_contains (b_entries b) (b_folder b) \<and> qmap_contains (current_folder b) key)"

definition Backend_readEntry :: "backend \<Rightarrow> qstring \<Rightarrow> entry option" where
  "Backend_readEntry b key =
     (if b_open b \<and> Backend_hasEntry b key then qmap_find (current_folder b) key else None)"

definition Backend_entriesList :: "backend \<Rightarrow> entry list" where
  "Backend_entriesList b = (if \<not> b_open b then [] else map snd (current_folder b))"

definition Backend_createFolder :: "host \<Rightarrow> qstring \<Rightarrow> backend \<Rightarrow> bool \<times> backend" where
  "Backend_createFolder h f b =
     (if qmap_contains (b_entries b) f then (False, b)
      else (True, b\<lparr>b_entries := qmap_insert f [] (b_entries b),
                    b_hashes := (b_hashes b)(name_digest h f \<mapsto> [])\<rparr>))"

text \<open>
  \<open>_entries[_folder]\<close> is taken by reference here, which creates the folder when it does not
  exist; no digest is recorded for it.
\<close>

definition Backend_renameEntry :: "host \<Rightarrow> qstring \<Rightarrow> qstring \<Rightarrow> backend \<Rightarrow> int \<times> backend" where
  "Backend_renameEntry h oldName newName b =
     (let emap = current_folder b; b1 = b\<lparr>b_entries := qmap_insert (b_folder b) emap (b_entries b)\<rparr>
      in case qmap_find emap oldName of
           None \<Rightarrow> (-1, b1)
         | Some e \<Rightarrow>
             if qmap_contains emap newName then (-1, b1)
             else
               let emap' = qmap_insert newName e (qmap_remove oldName emap)
               in (0, b\<lparr>b_entries := qmap_insert (b_folder b) emap' (b_entries b),
                       b_hashes := hash_update h (b_folder b)
                         (\<lambda>l. removeAll (name_digest h oldName) l @ [name_digest h newName]) (b_hashes b)\<rparr>))"

definition Backend_writeEntry :: "host \<Rightarrow> entry \<Rightarrow> backend \<Rightarrow> backend" where
  "Backend_writeEntry h e b =
     (if \<not> b_open b then b
      else b\<lparr>b_entries := qmap_insert (b_folder b) (qmap_insert (e_key e) e (current_folder b)) (b_entries b),
             b_hashes := hash_update h (b_folder b) (\<lambda>l. l @ [name_digest h (e_key e)]) (b_hashes b)\<rparr>)"

text \<open>
  The iterator of the folder is dereferenced before it is compared with the end: undefined
  when the current folder does not exist.
\<close>

definition Backend_removeEntry :: "host \<Rightarrow> qstring \<Rightarrow> backend \<Rightarrow> (bool \<times> backend) run" where
  "Backend_removeEntry h key b =
     (if \<not> b_open b then Ret (False, b)
      else case qmap_find (b_entries b) (b_folder b) of
        None \<Rightarrow> UB
      | Some emap \<Rightarrow>
          if qmap_contains emap key
          then Ret (True, b\<lparr>b_entries := qmap_insert (b_folder b) (qmap_remove key emap) (b_entries b),
                            b_hashes := hash_update h (b_folder b) (removeAll (name_digest h key)) (b_hashes b)\<rparr>)
          else Ret (False, b))"

definition Backend_removeFolder :: "host \<Rightarrow> qstring \<Rightarrow> backend \<Rightarrow> bool \<times> backend" where
  "Backend_removeFolder h f b =
     (if \<not> b_open b then (False, b)
      else if qmap_contains (b_entries b) f
      then (True, b\<lparr>b_folder := (if b_folder b = f then [] else b_folder b),
                    b_entries := qmap_remove f (b_entries b),
                    b_hashes := (b_hashes b)(name_digest h f := None)\<rparr>)
      else (False, b))"

definition Backend_folderDoesNotExist :: "host \<Rightarrow> backend \<Rightarrow> qstring \<Rightarrow> bool" where
  "Backend_folderDoesNotExist h b f = (b_hashes b (name_digest h f) = None)"

definition Backend_entryDoesNotExist :: "host \<Rightarrow> backend \<Rightarrow> qstring \<Rightarrow> qstring \<Rightarrow> bool" where
  "Backend_entryDoesNotExist h b f k =
     (case b_hashes b (name_digest h f) of
        Some l \<Rightarrow> name_digest h k \<notin> set l
      | None \<Rightarrow> True)"

lemmas Backend_defs [op_defs] = Backend_setFolder_def Backend_hasFolder_def Backend_folderList_def
  Backend_entryList_def Backend_hasEntry_def Backend_readEntry_def Backend_entriesList_def
  Backend_createFolder_def Backend_renameEntry_def Backend_writeEntry_def Backend_removeEntry_def
  Backend_removeFolder_def

end
