(* ===== verification/BackendContent.thy ===== *)
theory BackendContent
  imports BackendData
begin

text \<open>
  What the operations of \<open>BackendData\<close> do to the content of a wallet.  \<open>content\<close> abstracts the
  two-level map to a partial function of partial functions; each operation refines one update
  of it.  \<open>coherent\<close> relates the digest table to the content, for names whose digests do not
  collide.
\<close>

section \<open>Content and well-formedness\<close>

type_synonym content = "qstring \<Rightarrow> (qstring \<Rightarrow> entry option) option"

definition content :: "backend \<Rightarrow> content" where
  "content b f = map_option qmap_find (qmap_find (b_entries b) f)"

definition wf_entries :: "backend \<Rightarrow> bool" where
  "wf_entries b \<longleftrightarrow> qmap_wf (b_entries b) \<and>
     (\<forall>f m. qmap_find (b_entries b) f = Some m \<longrightarrow> qmap_wf m)"

definition lookup_entry :: "backend \<Rightarrow> qstring \<Rightarrow> qstring \<Rightarrow> entry option" where
  "lookup_entry b f k = (case content b f of None \<Rightarrow> None | Some m \<Rightarrow> m k)"

lemma content_frame [simp]:
  "content (b\<lparr>b_open := o'\<rparr>) = content b" "content (b\<lparr>b_folder := f\<rparr>) = content b"
  "content (b\<lparr>b_hashes := hm\<rparr>) = content b" "content (b\<lparr>b_ref := r\<rparr>) = content b"
  by (simp_all add: content_def fun_eq_iff)

lemma wf_entries_frame [simp]:
  "wf_entries (b\<lparr>b_folder := f\<rparr>) = wf_entries b" "wf_entries (b\<lparr>b_hashes := hm\<rparr>) = wf_entries b"
  by (simp_all add: wf_entries_def)

lemma content_insert:
  "wf_entries b \<Longrightarrow> content (b\<lparr>b_entries := qmap_insert f m (b_entries b)\<rparr>) = (content b)(f \<mapsto> qmap_find m)"
  by (simp add: content_def wf_entries_def qmap_simps fun_eq_iff)

lemma content_remove:
  "content (b\<lparr>b_entries := qmap_remove f (b_entries b)\<rparr>) = (content b)(f := None)"
  by (simp add: content_def qmap_simps fun_eq_iff)

lemma wf_insert:
  "wf_entries b \<Longrightarrow> qmap_wf m \<Longrightarrow> wf_entries (b\<lparr>b_entries := qmap_insert f m (b_entries b)\<rparr>)"
  by (auto simp: wf_entries_def qmap_simps split: if_splits)

lemma wf_remove: "wf_entries b \<Longrightarrow> wf_entries (b\<lparr>b_entries := qmap_remove f (b_entries b)\<rparr>)"
  by (auto simp: wf_entries_def qmap_simps split: if_splits)

lemma wf_current: "wf_entries b \<Longrightarrow> qmap_wf (current_folder b)"
  by (auto simp: wf_entries_def current_folder_def split: option.splits)

lemma find_current:
  "qmap_find (current_folder b) = (case content b (b_folder b) of None \<Rightarrow> Map.empty | Some m \<Rightarrow> m)"
  by (auto simp: current_folder_def content_def fun_eq_iff split: option.splits)

lemma hasFolder_content: "Backend_hasFolder b f \<longleftrightarrow> content b f \<noteq> None"
  by (simp add: Backend_hasFolder_def qmap_contains_def content_def)

lemma hasEntry_lookup: "Backend_hasEntry b k \<longleftrightarrow> lookup_entry b (b_folder b) k \<noteq> None"
  by (auto simp: Backend_hasEntry_def qmap_contains_def lookup_entry_def find_current
      content_def split: option.splits)

lemma readEntry_lookup:
  "Backend_readEntry b k = (if b_open b then lookup_entry b (b_folder b) k else None)"
  using hasEntry_lookup [of b k]
  by (auto simp: Backend_readEntry_def lookup_entry_def find_current split: option.splits)

lemma folderList_content: "wf_entries b \<Longrightarrow> set (Backend_folderList b) = dom (content b)"
  by (auto simp: Backend_folderList_def set_qmap_keys content_def wf_entries_def)

lemma entryList_content:
  "set (Backend_entryList b) = {k. lookup_entry b (b_folder b) k \<noteq> None}"
  by (auto simp: Backend_entryList_def set_qmap_keys find_current lookup_entry_def split: option.splits)

section \<open>Each operation refines an update of the content\<close>

lemma content_createFolder:
  assumes "wf_entries b"
  shows "content (snd (Backend_createFolder h f b)) =
      (if content b f = None then (content b)(f \<mapsto> Map.empty) else content b)"
    and "wf_entries (snd (Backend_createFolder h f b))"
    and "fst (Backend_createFolder h f b) \<longleftrightarrow> content b f = None"
proof -
  have e: "qmap_find [] = Map.empty" by (simp add: fun_eq_iff)
  show "content (snd (Backend_createFolder h f b)) =
      (if content b f = None then (content b)(f \<mapsto> Map.empty) else content b)"
    using content_insert [OF assms, of f "[]"]
    by (auto simp: Backend_createFolder_def qmap_contains_def content_def e fun_eq_iff)
  show "wf_entries (snd (Backend_createFolder h f b))"
    using assms wf_insert [OF assms, of "[]" f]
    by (simp add: Backend_createFolder_def wf_entries_def)
  show "fst (Backend_createFolder h f b) \<longleftrightarrow> content b f = None"
    by (simp add: Backend_createFolder_def qmap_contains_def content_def)
qed

lemma content_writeEntry:
  assumes "wf_entries b" and "b_open b"
  shows "content (Backend_writeEntry h e b) = (content b)(b_folder b \<mapsto>
      (case content b (b_folder b) of None \<Rightarrow> Map.empty | Some m \<Rightarrow> m)(e_key e \<mapsto> e))"
    and "wf_entries (Backend_writeEntry h e b)"
proof -
  have w: "qmap_wf (current_folder b)" using assms(1) by (rule wf_current)
  let ?m = "qmap_insert (e_key e) e (current_folder b)"
  have "content (Backend_writeEntry h e b) = content (b\<lparr>b_entries := qmap_insert (b_folder b) ?m (b_entries b)\<rparr>)"
    using assms(2) by (simp add: Backend_writeEntry_def content_def fun_eq_iff)
  then show "content (Backend_writeEntry h e b) = (content b)(b_folder b \<mapsto>
      (case content b (b_folder b) of None \<Rightarrow> Map.empty | Some m \<Rightarrow> m)(e_key e \<mapsto> e))"
    using assms w by (simp add: content_insert qmap_simps find_current)
  have "wf_entries (b\<lparr>b_entries := qmap_insert (b_folder b) ?m (b_entries b)\<rparr>)"
    using assms(1) w by (intro wf_insert) (simp_all add: qmap_simps)
  then show "wf_entries (Backend_writeEntry h e b)"
    using assms(2) by (simp add: Backend_writeEntry_def wf_entries_def)
qed

lemma content_removeEntry:
  assumes "wf_entries b" and "Backend_removeEntry h k b = Ret (ok, b')"
  shows "content b' = (if ok then (content b)(b_folder b \<mapsto> (the (content b (b_folder b)))(k := None)) else content b)"
    and "wf_entries b'" and "ok \<longleftrightarrow> b_open b \<and> lookup_entry b (b_folder b) k \<noteq> None"
    and "b_folder b' = b_folder b" and "b_open b' = b_open b"
proof -
  consider "\<not> b_open b" "\<not> ok" "b' = b"
    | m where "b_open b" "qmap_find (b_entries b) (b_folder b) = Some m" "qmap_find m k = None" "\<not> ok" "b' = b"
    | m where "b_open b" "qmap_find (b_entries b) (b_folder b) = Some m" "qmap_find m k \<noteq> None" "ok"
        "b' = b\<lparr>b_entries := qmap_insert (b_folder b) (qmap_remove k m) (b_entries b),
          b_hashes := hash_update h (b_folder b) (removeAll (name_digest h k)) (b_hashes b)\<rparr>"
    using assms(2) by (auto simp: Backend_removeEntry_def qmap_contains_def split: if_splits option.splits)
  note c = this
  have hm: "content (b\<lparr>b_entries := e, b_hashes := x\<rparr>) = content (b\<lparr>b_entries := e\<rparr>)" for e x
    by (simp add: content_def fun_eq_iff)
  have hw: "wf_entries (b\<lparr>b_entries := e, b_hashes := x\<rparr>) = wf_entries (b\<lparr>b_entries := e\<rparr>)" for e x
    by (simp add: wf_entries_def)
  show "content b' = (if ok then (content b)(b_folder b \<mapsto> (the (content b (b_folder b)))(k := None)) else content b)"
    using c assms(1) by cases (simp_all add: hm content_insert qmap_simps content_def)
  show "wf_entries b'"
    using c
  proof cases
    case (3 m)
    then show ?thesis using assms(1) unfolding 3(5) hw
      by (intro wf_insert) (auto simp: wf_entries_def qmap_simps)
  qed (use assms(1) in simp_all)
  show "ok \<longleftrightarrow> b_open b \<and> lookup_entry b (b_folder b) k \<noteq> None"
    using c by cases (simp_all add: lookup_entry_def content_def)
  show "b_folder b' = b_folder b" using c by cases simp_all
  show "b_open b' = b_open b" using c by cases simp_all
qed

lemma removeEntry_defined:
  "Backend_removeEntry h k b \<noteq> UB \<longleftrightarrow> \<not> b_open b \<or> content b (b_folder b) \<noteq> None"
  by (auto simp: Backend_removeEntry_def content_def split: option.splits)

lemma content_removeFolder:
  assumes "wf_entries b"
  shows "content (snd (Backend_removeFolder h f b)) = (if b_open b then (content b)(f := None) else content b)"
    and "wf_entries (snd (Backend_removeFolder h f b))"
    and "fst (Backend_removeFolder h f b) \<longleftrightarrow> b_open b \<and> content b f \<noteq> None"
proof -
  show "content (snd (Backend_removeFolder h f b)) = (if b_open b then (content b)(f := None) else content b)"
    by (auto simp: Backend_removeFolder_def content_def qmap_contains_def qmap_simps fun_eq_iff)
  show "wf_entries (snd (Backend_removeFolder h f b))"
    using assms wf_remove [OF assms, of f] by (simp add: Backend_removeFolder_def wf_entries_def)
  show "fst (Backend_removeFolder h f b) \<longleftrightarrow> b_open b \<and> content b f \<noteq> None"
    by (simp add: Backend_removeFolder_def qmap_contains_def content_def)
qed

text \<open>\<open>renameEntry\<close>: the folder exists afterwards in any case.\<close>

lemma content_renameEntry:
  assumes "wf_entries b"
  defines "m \<equiv> (case content b (b_folder b) of None \<Rightarrow> Map.empty | Some m \<Rightarrow> m)"
  shows "content (snd (Backend_renameEntry h old new b)) = (content b)(b_folder b \<mapsto>
      (case m old of Some e \<Rightarrow> if m new = None then m(old := None, new \<mapsto> e) else m | None \<Rightarrow> m))"
    and "wf_entries (snd (Backend_renameEntry h old new b))"
    and "fst (Backend_renameEntry h old new b) = (if m old \<noteq> None \<and> m new = None then 0 else -1)"
proof -
  have w: "qmap_wf (current_folder b)" using assms(1) by (rule wf_current)
  have m: "m = qmap_find (current_folder b)" by (simp add: m_def find_current)
  have hm: "content (b\<lparr>b_entries := e, b_hashes := x\<rparr>) = content (b\<lparr>b_entries := e\<rparr>)" for e x
    by (simp add: content_def fun_eq_iff)
  have hw: "wf_entries (b\<lparr>b_entries := e, b_hashes := x\<rparr>) = wf_entries (b\<lparr>b_entries := e\<rparr>)" for e x
    by (simp add: wf_entries_def)
  show "content (snd (Backend_renameEntry h old new b)) = (content b)(b_folder b \<mapsto>
      (case m old of Some e \<Rightarrow> if m new = None then m(old := None, new \<mapsto> e) else m | None \<Rightarrow> m))"
    using assms(1) w unfolding m
    by (auto simp: Backend_renameEntry_def Let_def qmap_contains_def hm content_insert qmap_simps split: option.splits)
  show "wf_entries (snd (Backend_renameEntry h old new b))"
    using assms(1) w
    by (auto simp: Backend_renameEntry_def Let_def hw qmap_simps intro!: wf_insert split: option.splits)
  show "fst (Backend_renameEntry h old new b) = (if m old \<noteq> None \<and> m new = None then 0 else -1)"
    unfolding m by (auto simp: Backend_renameEntry_def Let_def qmap_contains_def split: option.splits)
qed

end
