(* ===== verification/BackendHashes.thy ===== *)
theory BackendHashes
  imports BackendContent
begin

text \<open>
  The digest table of a wallet against its content.  \<open>coherent h b\<close> says that the table has a
  list for exactly the folders of the wallet, and in it exactly the digests of the folder's
  entries.  MD5 is not injective, so the operations are followed on a set \<open>N\<close> of names whose
  digests differ (\<open>inj_on\<close>); \<open>store_step\<close> is the step relation of a wallet that is open and
  works on folders that exist.
\<close>

definition names :: "backend \<Rightarrow> qstring set" where
  "names b = dom (content b) \<union> {k. \<exists>f m. content b f = Some m \<and> m k \<noteq> None}"

definition coherent :: "host \<Rightarrow> backend \<Rightarrow> bool" where
  "coherent h b \<longleftrightarrow>
     (\<forall>d. b_hashes b d \<noteq> None \<longleftrightarrow> d \<in> name_digest h ` dom (content b)) \<and>
     (\<forall>f m l. content b f = Some m \<and> b_hashes b (name_digest h f) = Some l \<longrightarrow>
        set l = name_digest h ` dom m)"

lemma coherent_dom:
  "coherent h b \<Longrightarrow> b_hashes b d \<noteq> None \<longleftrightarrow> d \<in> name_digest h ` dom (content b)"
  unfolding coherent_def by blast

lemma coherent_set:
  "coherent h b \<Longrightarrow> content b f = Some m \<Longrightarrow> b_hashes b (name_digest h f) = Some l \<Longrightarrow>
    set l = name_digest h ` dom m"
  unfolding coherent_def by blast

lemma coherent_folder:
  assumes "coherent h b" and "content b f = Some m"
  obtains l where "b_hashes b (name_digest h f) = Some l" and "set l = name_digest h ` dom m"
proof -
  have "name_digest h f \<in> name_digest h ` dom (content b)" using assms(2) by blast
  then obtain l where "b_hashes b (name_digest h f) = Some l"
    using coherent_dom [OF assms(1)] by blast
  with coherent_set [OF assms this] that show thesis by blast
qed

lemma namesD: "names b \<subseteq> N \<Longrightarrow> content b g = Some m \<Longrightarrow> g \<in> N \<and> dom m \<subseteq> N"
  unfolding names_def by blast

lemma digest_differs:
  assumes "inj_on (name_digest h) N" and "names b \<subseteq> N" and "content b g \<noteq> None" and "f \<in> N" and "g \<noteq> f"
  shows "name_digest h g \<noteq> name_digest h f"
  using assms by (auto simp: inj_on_def dest!: namesD)

text \<open>One folder's entries change, and its digest list with them.\<close>

lemma coherent_update:
  assumes co: "coherent h b" and inj: "inj_on (name_digest h) N" and N: "names b \<subseteq> N"
    and f: "content b f = Some m" and c': "content b' = (content b)(f \<mapsto> m')"
    and h': "b_hashes b' = hash_update h f upd (b_hashes b)"
    and upd: "\<And>l. set l = name_digest h ` dom m \<Longrightarrow> set (upd l) = name_digest h ` dom m'"
  shows "coherent h b'"
proof -
  obtain l where l: "b_hashes b (name_digest h f) = Some l" "set l = name_digest h ` dom m"
    using co f by (rule coherent_folder)
  have hm: "b_hashes b' = (b_hashes b)(name_digest h f \<mapsto> upd l)"
    using h' l by (simp add: hash_update_def)
  have d: "dom (content b') = dom (content b)" using c' f by auto
  have fN: "f \<in> N" using namesD [OF N f] by simp
  note ne = digest_differs [OF inj N _ fN]
  show ?thesis
    unfolding coherent_def
  proof (intro conjI allI impI)
    fix x show "(b_hashes b' x \<noteq> None) = (x \<in> name_digest h ` dom (content b'))"
      using coherent_dom [OF co, of x] l(1) unfolding d hm by auto
  next
    fix g m2 l2 assume a: "content b' g = Some m2 \<and> b_hashes b' (name_digest h g) = Some l2"
    show "set l2 = name_digest h ` dom m2"
    proof (cases "g = f")
      case True
      with a c' hm upd [OF l(2)] show ?thesis by auto
    next
      case False
      with a c' have g: "content b g = Some m2" by simp
      with a hm ne [of g] False have "b_hashes b (name_digest h g) = Some l2" by simp
      with co g show ?thesis by (rule coherent_set)
    qed
  qed
qed

lemma coherent_same:
  "coherent h b \<Longrightarrow> content b' = content b \<Longrightarrow> b_hashes b' = b_hashes b \<Longrightarrow> coherent h b'"
  by (simp add: coherent_def)

lemma coherent_createFolder:
  assumes co: "coherent h b" and wf: "wf_entries b"
    and inj: "inj_on (name_digest h) N" and N: "names b \<subseteq> N" "f \<in> N"
  shows "coherent h (snd (Backend_createFolder h f b))"
proof (cases "content b f")
  case (Some m)
  then have "snd (Backend_createFolder h f b) = b"
    by (auto simp: Backend_createFolder_def qmap_contains_def content_def)
  with co show ?thesis by simp
next
  case None
  let ?b = "snd (Backend_createFolder h f b)"
  have c': "content ?b = (content b)(f \<mapsto> Map.empty)"
    using content_createFolder(1) [OF wf, of h f] None by simp
  have hm: "b_hashes ?b = (b_hashes b)(name_digest h f \<mapsto> [])"
    using None by (simp add: Backend_createFolder_def qmap_contains_def content_def)
  note ne = digest_differs [OF inj N(1) _ N(2)]
  show ?thesis
    unfolding coherent_def
  proof (intro conjI allI impI)
    fix x show "(b_hashes ?b x \<noteq> None) = (x \<in> name_digest h ` dom (content ?b))"
      using coherent_dom [OF co, of x] unfolding c' hm by auto
  next
    fix g m l assume a: "content ?b g = Some m \<and> b_hashes ?b (name_digest h g) = Some l"
    show "set l = name_digest h ` dom m"
    proof (cases "g = f")
      case True with a c' hm show ?thesis by auto
    next
      case False
      with a c' have g: "content b g = Some m" by simp
      with a hm ne [of g] False have "b_hashes b (name_digest h g) = Some l" by simp
      with co g show ?thesis by (rule coherent_set)
    qed
  qed
qed

lemma coherent_writeEntry:
  assumes "coherent h b" and "wf_entries b" and "b_open b" and "content b (b_folder b) = Some m"
    and "inj_on (name_digest h) N" and "names b \<subseteq> N"
  shows "coherent h (Backend_writeEntry h e b)"
proof (rule coherent_update [OF assms(1,5,6,4)])
  show "content (Backend_writeEntry h e b) = (content b)(b_folder b \<mapsto> m(e_key e \<mapsto> e))"
    using content_writeEntry(1) [OF assms(2,3)] assms(4) by simp
  show "b_hashes (Backend_writeEntry h e b) =
      hash_update h (b_folder b) (\<lambda>l. l @ [name_digest h (e_key e)]) (b_hashes b)"
    using assms(3) by (simp add: Backend_writeEntry_def)
qed auto

lemma digest_remove:
  assumes "inj_on (name_digest h) N" and "dom m \<subseteq> N" and "k \<in> N" and "set l = name_digest h ` dom m"
  shows "set (removeAll (name_digest h k) l) = name_digest h ` dom (m(k := None))"
  using assms by (auto simp: inj_on_def)

lemma coherent_removeEntry:
  assumes "coherent h b" and "wf_entries b" and f: "content b (b_folder b) = Some m"
    and "inj_on (name_digest h) N" and N: "names b \<subseteq> N"
    and r: "Backend_removeEntry h k b = Ret (ok, b')"
  shows "coherent h b'"
proof (cases ok)
  case False
  with r have "b' = b" by (auto simp: Backend_removeEntry_def split: if_splits option.splits)
  with assms(1) show ?thesis by simp
next
  case True
  have k: "m k \<noteq> None" using content_removeEntry(3) [OF assms(2) r] True f by (simp add: lookup_entry_def)
  have dm: "dom m \<subseteq> N" using namesD [OF N f] by simp
  show ?thesis
  proof (rule coherent_update [OF assms(1,4) N f])
    show "content b' = (content b)(b_folder b \<mapsto> m(k := None))"
      using content_removeEntry(1) [OF assms(2) r] True f by simp
    show "b_hashes b' = hash_update h (b_folder b) (removeAll (name_digest h k)) (b_hashes b)"
      using r True by (auto simp: Backend_removeEntry_def split: if_splits option.splits)
    show "set (removeAll (name_digest h k) l) = name_digest h ` dom (m(k := None))"
      if "set l = name_digest h ` dom m" for l
      using assms(4) dm that k by (intro digest_remove [of h N]) auto
  qed
qed

lemma coherent_renameEntry:
  assumes "coherent h b" and wf: "wf_entries b" and f: "content b (b_folder b) = Some m"
    and inj: "inj_on (name_digest h) N" and N: "names b \<subseteq> N" "new \<in> N"
  shows "coherent h (snd (Backend_renameEntry h old new b))"
proof -
  let ?b = "snd (Backend_renameEntry h old new b)"
  have c: "content ?b = (content b)(b_folder b \<mapsto>
      (case m old of Some e \<Rightarrow> if m new = None then m(old := None, new \<mapsto> e) else m | None \<Rightarrow> m))"
    by (rule content_renameEntry(1) [OF wf, of h old new, unfolded f option.case])
  have cur: "qmap_find (current_folder b) = m" using f by (simp add: find_current)
  show ?thesis
  proof (cases "m old \<noteq> None \<and> m new = None")
    case False
    then have "content ?b = content b" using c f by (auto split: option.splits)
    moreover have "b_hashes ?b = b_hashes b" using False cur
      by (auto simp: Backend_renameEntry_def Let_def qmap_contains_def split: option.splits)
    ultimately show ?thesis using assms(1) by (rule coherent_same [rotated])
  next
    case True
    then obtain e where e: "m old = Some e" "m new = None" by auto
    have dm: "dom m \<subseteq> N" using namesD [OF N(1) f] by simp
    show ?thesis
    proof (rule coherent_update [OF assms(1) inj N(1) f])
      show "content ?b = (content b)(b_folder b \<mapsto> m(old := None, new \<mapsto> e))"
        using c e by simp
      show "b_hashes ?b = hash_update h (b_folder b)
          (\<lambda>l. removeAll (name_digest h old) l @ [name_digest h new]) (b_hashes b)"
        using e cur by (simp add: Backend_renameEntry_def Let_def qmap_contains_def)
      show "set (removeAll (name_digest h old) l @ [name_digest h new]) =
          name_digest h ` dom (m(old := None, new \<mapsto> e))" if "set l = name_digest h ` dom m" for l
      proof -
        have "old \<in> N" using dm e by auto
        from digest_remove [OF inj dm this that] show ?thesis by auto
      qed
    qed
  qed
qed

lemma coherent_removeFolder:
  assumes co: "coherent h b" and wf: "wf_entries b"
    and inj: "inj_on (name_digest h) N" and N: "names b \<subseteq> N"
  shows "coherent h (snd (Backend_removeFolder h f b))"
proof (cases "b_open b \<and> content b f \<noteq> None")
  case False
  then show ?thesis using co
    by (auto simp: Backend_removeFolder_def qmap_contains_def content_def)
next
  case True
  let ?b = "snd (Backend_removeFolder h f b)"
  have c: "content ?b = (content b)(f := None)"
    using content_removeFolder(1) [OF wf] True by simp
  have hm: "b_hashes ?b = (b_hashes b)(name_digest h f := None)"
    using True by (simp add: Backend_removeFolder_def qmap_contains_def content_def)
  obtain m0 where "content b f = Some m0" using True by auto
  then have "f \<in> N" using namesD [OF N] by blast
  note ne = digest_differs [OF inj N _ this]
  show ?thesis
    unfolding coherent_def
  proof (intro conjI allI impI)
    fix x show "(b_hashes ?b x \<noteq> None) = (x \<in> name_digest h ` dom (content ?b))"
    proof (cases "x = name_digest h f")
      case True
      have "x \<notin> name_digest h ` dom ((content b)(f := None))"
      proof
        assume "x \<in> name_digest h ` dom ((content b)(f := None))"
        then obtain g where "g \<in> dom ((content b)(f := None))" and x: "x = name_digest h g" by (rule imageE)
        then have "content b g \<noteq> None" "g \<noteq> f" by (simp_all add: domIff split: if_splits)
        from ne [OF this] x True show False by simp
      qed
      with True show ?thesis unfolding c hm by simp
    next
      case False
      then have "x \<in> name_digest h ` dom (content ?b) \<longleftrightarrow> x \<in> name_digest h ` dom (content b)"
        unfolding c by auto
      with False coherent_dom [OF co, of x] show ?thesis unfolding hm by simp
    qed
  next
    fix g m l assume "content ?b g = Some m \<and> b_hashes ?b (name_digest h g) = Some l"
    then have "content b g = Some m" "b_hashes b (name_digest h g) = Some l"
      using c hm by (auto split: if_splits)
    with co show "set l = name_digest h ` dom m" by (rule coherent_set)
  qed
qed

section \<open>Runs of an open wallet\<close>

text \<open>
  One call of a client on an open wallet.  The operations on entries are taken in a current
  folder that exists; in any other the digests are not kept, and \<open>removeEntry\<close> is undefined.
\<close>

inductive store_step :: "host \<Rightarrow> qstring set \<Rightarrow> backend \<Rightarrow> backend \<Rightarrow> bool" for h N where
  set_folder: "store_step h N b (Backend_setFolder f b)"
| create: "f \<in> N \<Longrightarrow> store_step h N b (snd (Backend_createFolder h f b))"
| write_entry: "e_key e \<in> N \<Longrightarrow> Backend_hasFolder b (b_folder b) \<Longrightarrow> store_step h N b (Backend_writeEntry h e b)"
| rename: "new \<in> N \<Longrightarrow> Backend_hasFolder b (b_folder b) \<Longrightarrow>
    store_step h N b (snd (Backend_renameEntry h old new b))"
| remove_entry: "Backend_hasFolder b (b_folder b) \<Longrightarrow> Backend_removeEntry h k b = Ret (ok, b') \<Longrightarrow> store_step h N b b'"
| remove_folder: "store_step h N b (snd (Backend_removeFolder h f b))"

inductive_cases store_stepE: "store_step h N b b'"

definition store_inv :: "host \<Rightarrow> qstring set \<Rightarrow> backend \<Rightarrow> bool" where
  "store_inv h N b \<longleftrightarrow> b_open b \<and> wf_entries b \<and> coherent h b \<and> names b \<subseteq> N"

lemma names_mono:
  assumes "\<And>g m'. content b' g = Some m' \<Longrightarrow> g \<in> N \<and> dom m' \<subseteq> N"
  shows "names b' \<subseteq> N"
  using assms by (fastforce simp: names_def)

lemma store_step_inv:
  assumes inj: "inj_on (name_digest h) N" and "store_step h N b b'" and "store_inv h N b"
  shows "store_inv h N b'"
  using assms(2)
proof cases
  case (set_folder f)
  have c: "content b' = content b" "b_hashes b' = b_hashes b" using set_folder by (simp_all add: Backend_setFolder_def)
  have "coherent h b" using assms(3) by (simp add: store_inv_def)
  then have "coherent h b'" using c by (rule coherent_same)
  with set_folder assms(3) show ?thesis by (simp add: store_inv_def Backend_setFolder_def names_def)
next
  case (create f)
  have i: "wf_entries b" "coherent h b" "names b \<subseteq> N" "b_open b" using assms(3) by (simp_all add: store_inv_def)
  have "names b' \<subseteq> N"
    using content_createFolder(1) [OF i(1), of h f] create namesD [OF i(3)]
    by (intro names_mono) (auto split: if_splits)
  with create i coherent_createFolder [OF i(2,1) inj i(3)] content_createFolder(2) [OF i(1)]
  show ?thesis by (simp add: store_inv_def Backend_createFolder_def)
next
  case (write_entry e)
  have i: "wf_entries b" "coherent h b" "names b \<subseteq> N" "b_open b" using assms(3) by (simp_all add: store_inv_def)
  obtain m where m: "content b (b_folder b) = Some m" using write_entry by (auto simp: hasFolder_content)
  have "names b' \<subseteq> N"
    using content_writeEntry(1) [OF i(1,4), of h e] write_entry m namesD [OF i(3)]
    by (intro names_mono) (fastforce split: if_splits)
  with write_entry i coherent_writeEntry [OF i(2,1,4) m inj i(3)] content_writeEntry(2) [OF i(1,4)]
  show ?thesis by (simp add: store_inv_def Backend_writeEntry_def)
next
  case (rename new old)
  have i: "wf_entries b" "coherent h b" "names b \<subseteq> N" "b_open b" using assms(3) by (simp_all add: store_inv_def)
  obtain m where m: "content b (b_folder b) = Some m" using rename by (auto simp: hasFolder_content)
  have "names b' \<subseteq> N"
    using content_renameEntry(1) [OF i(1), of h old new, unfolded m option.case] rename m namesD [OF i(3)] namesD [OF i(3) m]
    by (intro names_mono) (fastforce split: if_splits option.splits)
  moreover have "b_open b'" using rename i by (simp add: Backend_renameEntry_def Let_def split: option.splits)
  ultimately show ?thesis
    using rename i coherent_renameEntry [OF i(2,1) m inj i(3)] content_renameEntry(2) [OF i(1)]
    by (simp add: store_inv_def)
next
  case (remove_entry k ok)
  have i: "wf_entries b" "coherent h b" "names b \<subseteq> N" "b_open b" using assms(3) by (simp_all add: store_inv_def)
  obtain m where m: "content b (b_folder b) = Some m" using remove_entry by (auto simp: hasFolder_content)
  have "names b' \<subseteq> N"
    using content_removeEntry(1) [OF i(1) remove_entry(2)] m namesD [OF i(3)]
    by (intro names_mono) (fastforce split: if_splits)
  with i coherent_removeEntry [OF i(2,1) m inj i(3) remove_entry(2)] content_removeEntry [OF i(1) remove_entry(2)]
  show ?thesis by (simp add: store_inv_def)
next
  case (remove_folder f)
  have i: "wf_entries b" "coherent h b" "names b \<subseteq> N" "b_open b" using assms(3) by (simp_all add: store_inv_def)
  have "names b' \<subseteq> N"
    using content_removeFolder(1) [OF i(1), of h f] remove_folder namesD [OF i(3)]
    by (intro names_mono) (auto split: if_splits)
  with remove_folder i coherent_removeFolder [OF i(2,1) inj i(3)] content_removeFolder(2) [OF i(1)]
  show ?thesis by (simp add: store_inv_def Backend_removeFolder_def)
qed

lemma store_steps_inv:
  assumes "inj_on (name_digest h) N" and "(store_step h N)\<^sup>*\<^sup>* b b'" and "store_inv h N b"
  shows "store_inv h N b'"
  using assms(2,3) by (induction rule: rtranclp_induct) (auto intro: store_step_inv [OF assms(1)])

lemma store_inv_folder:
  assumes "inj_on (name_digest h) N" and "store_inv h N b" and "f \<in> N"
  shows "Backend_folderDoesNotExist h b f \<longleftrightarrow> \<not> Backend_hasFolder b f"
proof -
  have "name_digest h f \<in> name_digest h ` dom (content b) \<longleftrightarrow> f \<in> dom (content b)"
    using assms by (intro inj_on_image_mem_iff) (auto simp: store_inv_def names_def)
  moreover have "coherent h b" using assms(2) by (simp add: store_inv_def)
  ultimately show ?thesis
    using coherent_dom [of h b "name_digest h f"]
    by (auto simp: Backend_folderDoesNotExist_def hasFolder_content)
qed

lemma store_inv_entry:
  assumes "inj_on (name_digest h) N" and "store_inv h N b" and "f \<in> N" and "k \<in> N"
  shows "Backend_entryDoesNotExist h b f k \<longleftrightarrow> lookup_entry b f k = None"
proof (cases "content b f")
  case None
  then have "b_hashes b (name_digest h f) = None"
    using store_inv_folder [OF assms(1,2,3)] by (simp add: Backend_folderDoesNotExist_def hasFolder_content)
  with None show ?thesis by (simp add: Backend_entryDoesNotExist_def lookup_entry_def)
next
  case (Some m)
  obtain l where l: "b_hashes b (name_digest h f) = Some l" "set l = name_digest h ` dom m"
    using coherent_folder [OF _ Some, of h] assms(2) by (auto simp: store_inv_def)
  have "dom m \<subseteq> N" using namesD [OF _ Some, of N] assms(2) by (simp add: store_inv_def)
  with assms have "name_digest h k \<in> name_digest h ` dom m \<longleftrightarrow> k \<in> dom m"
    by (intro inj_on_image_mem_iff) auto
  with l Some show ?thesis by (auto simp: Backend_entryDoesNotExist_def lookup_entry_def)
qed

end
