(* ===== verification/Sha1.thy ===== *)
theory Sha1
  imports Prelude
begin

text \<open>
  The hash of src/runtime/kwalletbackend/sha1.cc.  The record \<open>sha1\<close> is the class's state;
  the five chaining variables are \<open>long\<close> (64 bits) as declared in sha1.h, and the round
  arithmetic is on \<open>unsigned int\<close> (32 bits).  The file forces \<open>Q_BYTE_ORDER\<close> and
  \<open>Q_BIG_ENDIAN\<close> to the same value, so the branches taken are the \<open>memcpy\<close> branches:
  message words are loaded, and digest words are stored, in the order of the host.

  The lemmas relate the buffered, incremental implementation to a one-shot reference on
  the whole message: \<open>absorbed m s\<close> says that state \<open>s\<close> has taken in exactly the
  message \<open>m\<close>.
\<close>

section \<open>State and round functions\<close>

record sha1 =
  sha_hashlen :: int
  sha_init :: bool
  sha_h0 :: "64 word"
  sha_h1 :: "64 word"
  sha_h2 :: "64 word"
  sha_h3 :: "64 word"
  sha_h4 :: "64 word"
  sha_nblocks :: "64 word"
  sha_count :: nat
  sha_buf :: bytes

definition rol :: "u32 \<Rightarrow> nat \<Rightarrow> u32" where
  "rol x y = push_bit y x OR drop_bit (32 - y) x"

definition K1 :: u32 where "K1 = 0x5a827999"
definition K2 :: u32 where "K2 = 0x6ed9eba1"
definition K3 :: u32 where "K3 = 0x8f1bbcdc"
definition K4 :: u32 where "K4 = 0xca62c1d6"

definition F1 :: "u32 \<Rightarrow> u32 \<Rightarrow> u32 \<Rightarrow> u32" where
  "F1 x y z = z XOR (x AND (y XOR z))"

definition F2 :: "u32 \<Rightarrow> u32 \<Rightarrow> u32 \<Rightarrow> u32" where
  "F2 x y z = x XOR y XOR z"

definition F3 :: "u32 \<Rightarrow> u32 \<Rightarrow> u32 \<Rightarrow> u32" where
  "F3 x y z = (x AND y) OR (z AND (x OR y))"

definition F4 :: "u32 \<Rightarrow> u32 \<Rightarrow> u32 \<Rightarrow> u32" where
  "F4 x y z = x XOR y XOR z"

text \<open>The message schedule: \<open>M(i)\<close> computes word \<open>i\<close> in place in the window of 16 words.\<close>

definition SHA1_M :: "u32 list \<Rightarrow> nat \<Rightarrow> u32 \<times> u32 list" where
  "SHA1_M x i =
     (let tm = x ! (i mod 16) XOR x ! ((i - 14) mod 16) XOR x ! ((i - 8) mod 16)
                 XOR x ! ((i - 3) mod 16);
          v = push_bit 1 tm OR drop_bit 31 tm
      in (v, x[i mod 16 := v]))"

type_synonym regs = "u32 \<times> u32 \<times> u32 \<times> u32 \<times> u32"

text \<open>
  One use of the macro \<open>R(a, b, c, d, e, f, k, m)\<close>.  The next use in the source names the
  registers rotated by one place, which is the order of the result.
\<close>

fun SHA1_R :: "regs \<Rightarrow> (u32 \<Rightarrow> u32 \<Rightarrow> u32 \<Rightarrow> u32) \<Rightarrow> u32 \<Rightarrow> u32 \<Rightarrow> regs" where
  "SHA1_R (a, b, c, d, e) f k m = (e + (rol a 5 + f b c d + k + m), a, rol b 30, c, d)"

definition SHA1_f :: "nat \<Rightarrow> u32 \<Rightarrow> u32 \<Rightarrow> u32 \<Rightarrow> u32" where
  "SHA1_f i = (if i < 20 then F1 else if i < 40 then F2 else if i < 60 then F3 else F4)"

definition SHA1_k :: "nat \<Rightarrow> u32" where
  "SHA1_k i = (if i < 20 then K1 else if i < 40 then K2 else if i < 60 then K3 else K4)"

definition sha_round :: "nat \<Rightarrow> regs \<times> u32 list \<Rightarrow> regs \<times> u32 list" where
  "sha_round i rx =
     (let (r, x) = rx; (m, x') = (if i < 16 then (x ! i, x) else SHA1_M x i)
      in (SHA1_R r (SHA1_f i) (SHA1_k i) m, x'))"

definition SHA1_load :: "bytes \<Rightarrow> u32 list" where
  "SHA1_load d = map (\<lambda>i. load32 (take 4 (drop (4 * i) d))) [0..<16]"

definition SHA1_rounds :: "regs \<Rightarrow> bytes \<Rightarrow> regs" where
  "SHA1_rounds r d = fst (fold sha_round [0..<80] (r, SHA1_load d))"

section \<open>Operations\<close>

definition SHA1_reset :: "sha1 \<Rightarrow> sha1" where
  "SHA1_reset s = s\<lparr>sha_h0 := 0x67452301, sha_h1 := 0xefcdab89, sha_h2 := 0x98badcfe, sha_h3 := 0x10325476,
     sha_h4 := 0xc3d2e1f0, sha_nblocks := 0, sha_count := 0, sha_buf := zeros 56 @ drop 56 (sha_buf s), sha_init := True\<rparr>"

text \<open>
  The constructor.  The members it does not set are indeterminate; \<open>junk\<close> is what the
  buffer held.
\<close>

definition SHA1_new :: "bytes \<Rightarrow> sha1" where
  "SHA1_new junk = SHA1_reset \<lparr>sha_hashlen = 160, sha_init = False, sha_h0 = 0, sha_h1 = 0, sha_h2 = 0, sha_h3 = 0, sha_h4 = 0,
     sha_nblocks = 0, sha_count = 0, sha_buf = junk\<rparr>"

definition SHA1_transform :: "sha1 \<Rightarrow> bytes \<Rightarrow> sha1" where
  "SHA1_transform s d =
     (let (a, b, c, e, f) = SHA1_rounds (ucast (sha_h0 s), ucast (sha_h1 s), ucast (sha_h2 s), ucast (sha_h3 s),
        ucast (sha_h4 s)) d
      in s\<lparr>sha_h0 := sha_h0 s + ucast a, sha_h1 := sha_h1 s + ucast b, sha_h2 := sha_h2 s + ucast c,
          sha_h3 := sha_h3 s + ucast e, sha_h4 := sha_h4 s + ucast f\<rparr>)"

text \<open>\<open>process(nullptr, 0)\<close>: a full buffer is hashed.\<close>

definition SHA1_flush :: "sha1 \<Rightarrow> sha1" where
  "SHA1_flush s = (if sha_count s = 64 then (SHA1_transform s (sha_buf s))\<lparr>sha_count := 0, sha_nblocks := sha_nblocks s + 1\<rparr>
              else s)"

text \<open>The two copy loops of \<open>process\<close>: bytes go to the buffer until it is full.\<close>

fun SHA1_fill :: "sha1 \<Rightarrow> bytes \<Rightarrow> sha1 \<times> bytes" where
  "SHA1_fill s [] = (s, [])"
| "SHA1_fill s (b # bs) =
     (if sha_count s < 64 then SHA1_fill (s\<lparr>sha_buf := (sha_buf s)[sha_count s := b], sha_count := sha_count s + 1\<rparr>) bs
      else (s, b # bs))"

text \<open>The loop over whole blocks of the input.\<close>

function SHA1_blocks :: "sha1 \<Rightarrow> bytes \<Rightarrow> sha1 \<times> bytes" where
  "SHA1_blocks s d =
     (if 64 \<le> length d
      then SHA1_blocks ((SHA1_transform s (take 64 d))\<lparr>sha_count := 0, sha_nblocks := sha_nblocks s + 1\<rparr>) (drop 64 d)
      else (s, d))"
  by pat_completeness auto
termination
  by (relation "measure (\<lambda>(s, d). length d)") auto

declare SHA1_blocks.simps [simp del]

definition SHA1_process :: "sha1 \<Rightarrow> bytes option \<Rightarrow> int \<times> sha1" where
  "SHA1_process s block =
     (if \<not> sha_init s then (-1, s)
      else
        let s1 = SHA1_flush s in
        case block of None \<Rightarrow> (0, s1)
        | Some d \<Rightarrow>
            let (s2, d2) = (if sha_count s1 \<noteq> 0 then let (t, r) = SHA1_fill s1 d in (SHA1_flush t, r) else (s1, d)) in
            if sha_count s1 \<noteq> 0 \<and> d2 = [] then (int (length d), s2)
            else
              let (s3, d3) = SHA1_blocks s2 d2; (s4, d4) = SHA1_fill s3 d3
              in (int (length d - length d4), s4))"

text \<open>The length field, computed as \<open>hash\<close> computes it on 32-bit values.\<close>

definition SHA1_length_words :: "64 word \<Rightarrow> nat \<Rightarrow> u32 \<times> u32" where
  "SHA1_length_words nb cnt =
     (let t = (ucast nb :: u32);
          lsb = push_bit 6 t;
          msb = (if lsb < t then 1 else 0) + drop_bit 26 t;
          t = lsb;
          lsb = t + of_nat cnt;
          msb = (if lsb < t then msb + 1 else msb);
          t = lsb;
          lsb = push_bit 3 t;
          msb = (if lsb < t then msb + 1 else msb) + drop_bit 29 t
      in (msb, lsb))"

definition be_bytes :: "u32 \<Rightarrow> bytes" where
  "be_bytes w = [ucast (drop_bit 24 w), ucast (drop_bit 16 w), ucast (drop_bit 8 w), ucast w]"

text \<open>\<open>while (_count < upto) _buf[_count++] = 0;\<close>\<close>

function SHA1_pad_to :: "nat \<Rightarrow> sha1 \<Rightarrow> sha1" where
  "SHA1_pad_to lim s =
     (if sha_count s < lim then SHA1_pad_to lim (s\<lparr>sha_buf := (sha_buf s)[sha_count s := 0], sha_count := sha_count s + 1\<rparr>)
      else s)"
  by pat_completeness auto
termination
  by (relation "measure (\<lambda>(lim, s). lim - sha_count s)") auto

declare SHA1_pad_to.simps [simp del]

text \<open>The byte 0x80 and the zeros, up to the length field.\<close>

definition SHA1_pad :: "sha1 \<Rightarrow> sha1" where
  "SHA1_pad s =
     (let s2 = s\<lparr>sha_buf := (sha_buf s)[sha_count s := 0x80], sha_count := Suc (sha_count s)\<rparr>
      in if sha_count s2 < 56 then SHA1_pad_to 56 s2
         else let t = snd (SHA1_process (SHA1_pad_to 64 s2) None)
              in t\<lparr>sha_buf := zeros 56 @ drop 56 (sha_buf t)\<rparr>)"

text \<open>The length field, the last block, and the digest stored over the buffer.\<close>

definition SHA1_finish :: "u32 \<Rightarrow> u32 \<Rightarrow> sha1 \<Rightarrow> sha1" where
  "SHA1_finish msb lsb s =
     (let s4 = s\<lparr>sha_buf := take 56 (sha_buf s) @ be_bytes msb @ be_bytes lsb\<rparr>;
          s5 = SHA1_transform s4 (sha_buf s4);
          digest = store32 (ucast (sha_h0 s5)) @ store32 (ucast (sha_h1 s5)) @ store32 (ucast (sha_h2 s5))
                     @ store32 (ucast (sha_h3 s5)) @ store32 (ucast (sha_h4 s5))
      in s5\<lparr>sha_buf := digest @ drop 20 (sha_buf s5), sha_init := False\<rparr>)"

definition SHA1_hash :: "sha1 \<Rightarrow> bytes \<times> sha1" where
  "SHA1_hash s =
     (if \<not> sha_init s then (sha_buf s, s)
      else
        let s1 = snd (SHA1_process s None);
            (msb, lsb) = SHA1_length_words (sha_nblocks s1) (sha_count s1);
            s2 = SHA1_finish msb lsb (SHA1_pad s1)
        in (sha_buf s2, s2))"

section \<open>What a state has absorbed\<close>

definition sha_regs :: "sha1 \<Rightarrow> regs" where
  "sha_regs s = (ucast (sha_h0 s), ucast (sha_h1 s), ucast (sha_h2 s), ucast (sha_h3 s), ucast (sha_h4 s))"

definition sha_compress :: "regs \<Rightarrow> bytes \<Rightarrow> regs" where
  "sha_compress r d =
     (let (a, b, c, e, f) = r; (a', b', c', e', f') = SHA1_rounds r d
      in (a + a', b + b', c + c', e + e', f + f'))"

definition sha_iv :: regs where
  "sha_iv = (0x67452301, 0xefcdab89, 0x98badcfe, 0x10325476, 0xc3d2e1f0)"

lemma ucast_add_down: "(ucast (a + ucast b :: 64 word) :: u32) = ucast a + b"
proof -
  have "take_bit 32 (x + take_bit 32 y) = take_bit 32 (take_bit 64 x + y)" for x y :: int
  proof -
    have "take_bit 32 (take_bit 64 x + y) = take_bit 32 (take_bit 32 (take_bit 64 x) + take_bit 32 y)"
      by (simp only: take_bit_add)
    also have "\<dots> = take_bit 32 (take_bit 32 x + take_bit 32 (take_bit 32 y))"
      by simp
    finally show ?thesis by (simp only: take_bit_add)
  qed
  then show ?thesis by transfer simp
qed

lemma sha_regs_transform [simp]:
  "sha_regs (SHA1_transform s d) = sha_compress (sha_regs s) d"
  by (simp add: SHA1_transform_def sha_regs_def sha_compress_def Let_def ucast_add_down split: prod.split)

lemma SHA1_transform_frame [simp]:
  "sha_init (SHA1_transform s d) = sha_init s" "sha_nblocks (SHA1_transform s d) = sha_nblocks s"
  "sha_count (SHA1_transform s d) = sha_count s" "sha_buf (SHA1_transform s d) = sha_buf s"
  by (simp_all add: SHA1_transform_def Let_def split: prod.split)

lemma sha_regs_update [simp]:
  "sha_regs (s\<lparr>sha_count := c\<rparr>) = sha_regs s" "sha_regs (s\<lparr>sha_nblocks := n\<rparr>) = sha_regs s"
  "sha_regs (s\<lparr>sha_buf := b\<rparr>) = sha_regs s" "sha_regs (s\<lparr>sha_init := i\<rparr>) = sha_regs s"
  by (simp_all add: sha_regs_def)

definition absorbed :: "bytes \<Rightarrow> sha1 \<Rightarrow> bool" where
  "absorbed m s \<longleftrightarrow> sha_init s \<and> length (sha_buf s) = 64 \<and> sha_count s \<le> 64 \<and>
     (\<exists>n m1. m = m1 @ take (sha_count s) (sha_buf s) \<and> length m1 = 64 * n \<and>
        sha_nblocks s = of_nat n \<and> sha_regs s = foldl sha_compress sha_iv (blocks 64 m1))"

lemma blocks_append_multiple:
  assumes "length xs = n * k" and "0 < n"
  shows "blocks n (xs @ ys) = blocks n xs @ blocks n ys"
  using assms(1)
proof (induction k arbitrary: xs)
  case 0
  then show ?case using \<open>0 < n\<close> by (simp add: blocks_short)
next
  case (Suc k)
  have "xs = take n xs @ drop n xs" and "length (take n xs) = n" and "length (drop n xs) = n * k"
    using Suc.prems by auto
  then show ?case using Suc.IH [of "drop n xs"] \<open>0 < n\<close>
    by (metis append.assoc append_Cons blocks_append)
qed

lemma blocks_self: "length b = n \<Longrightarrow> 0 < n \<Longrightarrow> blocks n b = [b]"
  using blocks_append [of b n "[]"] by (simp add: blocks_short)

lemma absorbed_reset: "length (sha_buf s) = 64 \<Longrightarrow> absorbed [] (SHA1_reset s)"
  by (simp add: absorbed_def SHA1_reset_def sha_regs_def sha_iv_def blocks_short)

lemma absorbed_block:
  assumes "absorbed m s" and "sha_count s = 0" and "length d = 64"
  shows "absorbed (m @ d) ((SHA1_transform s d)\<lparr>sha_count := 0, sha_nblocks := sha_nblocks s + 1\<rparr>)"
proof -
  obtain n where n: "length m = 64 * n" "sha_nblocks s = of_nat n"
    "sha_regs s = foldl sha_compress sha_iv (blocks 64 m)"
    using assms by (auto simp: absorbed_def)
  have "length (m @ d) = 64 * Suc n" using n assms(3) by simp
  moreover have "blocks 64 (m @ d) = blocks 64 m @ [d]"
    using n(1) assms(3) by (simp add: blocks_append_multiple blocks_self)
  moreover have "sha_nblocks s + 1 = of_nat (Suc n)" using n by simp
  ultimately show ?thesis
    using assms n unfolding absorbed_def
    by (intro conjI exI [of _ "Suc n"] exI [of _ "m @ d"]) simp_all
qed

lemma absorbed_flush:
  assumes "absorbed m s"
  shows "absorbed m (SHA1_flush s)" and "sha_count (SHA1_flush s) < 64"
proof -
  have "absorbed m (SHA1_flush s) \<and> sha_count (SHA1_flush s) < 64"
  proof (cases "sha_count s = 64")
    case False
    with assms show ?thesis by (simp add: SHA1_flush_def absorbed_def)
  next
    case True
    obtain n m1 where m: "m = m1 @ sha_buf s" "length m1 = 64 * n" "sha_nblocks s = of_nat n"
      "sha_regs s = foldl sha_compress sha_iv (blocks 64 m1)"
      using assms True by (auto simp: absorbed_def)
    have *: "absorbed m1 (s\<lparr>sha_count := 0\<rparr>)"
      using assms m by (auto simp: absorbed_def)
    have "sha_buf s = sha_buf (s\<lparr>sha_count := 0\<rparr>)" by simp
    have "(SHA1_transform (s\<lparr>sha_count := 0\<rparr>) (sha_buf s))\<lparr>sha_count := 0, sha_nblocks := sha_nblocks s + 1\<rparr>
            = SHA1_flush s"
      using True by (simp add: SHA1_flush_def SHA1_transform_def Let_def split: prod.split)
    then show ?thesis
      using absorbed_block [OF *, of "sha_buf s"] assms m True
      by (auto simp: absorbed_def SHA1_flush_def)
  qed
  then show "absorbed m (SHA1_flush s)" and "sha_count (SHA1_flush s) < 64" by simp_all
qed

lemma absorbed_put:
  assumes "absorbed m s" and "sha_count s < 64"
  shows "absorbed (m @ [b]) (s\<lparr>sha_buf := (sha_buf s)[sha_count s := b], sha_count := sha_count s + 1\<rparr>)"
proof -
  have "take (Suc (sha_count s)) ((sha_buf s)[sha_count s := b]) = take (sha_count s) (sha_buf s) @ [b]"
    using assms by (simp add: absorbed_def take_Suc_conv_app_nth)
  with assms show ?thesis by (auto simp: absorbed_def)
qed

lemma absorbed_fill:
  assumes "absorbed m s"
  shows "\<exists>c r. d = c @ r \<and> snd (SHA1_fill s d) = r \<and> absorbed (m @ c) (fst (SHA1_fill s d)) \<and>
     sha_count (fst (SHA1_fill s d)) = sha_count s + length c \<and>
     (r \<noteq> [] \<longrightarrow> sha_count (fst (SHA1_fill s d)) = 64)"
  using assms
proof (induction d arbitrary: m s)
  case Nil
  then show ?case by simp
next
  case (Cons b d)
  show ?case
  proof (cases "sha_count s < 64")
    case False
    with Cons.prems have "sha_count s = 64" by (simp add: absorbed_def)
    with Cons.prems show ?thesis by simp
  next
    case True
    let ?t = "s\<lparr>sha_buf := (sha_buf s)[sha_count s := b], sha_count := sha_count s + 1\<rparr>"
    from Cons.IH [OF absorbed_put [OF Cons.prems True, of b]]
    obtain c r where "d = c @ r" "snd (SHA1_fill ?t d) = r" "absorbed ((m @ [b]) @ c) (fst (SHA1_fill ?t d))"
      "sha_count (fst (SHA1_fill ?t d)) = sha_count ?t + length c"
      "r \<noteq> [] \<longrightarrow> sha_count (fst (SHA1_fill ?t d)) = 64"
      by blast
    with True show ?thesis
      by (intro exI [of _ "b # c"] exI [of _ r]) simp
  qed
qed

lemma absorbed_blocks:
  assumes "absorbed m s" and "sha_count s = 0"
  shows "\<exists>c r. d = c @ r \<and> snd (SHA1_blocks s d) = r \<and> absorbed (m @ c) (fst (SHA1_blocks s d)) \<and>
     sha_count (fst (SHA1_blocks s d)) = 0 \<and> length r < 64"
  using assms
proof (induction s d arbitrary: m rule: SHA1_blocks.induct)
  case (1 s d)
  show ?case
  proof (cases "64 \<le> length d")
    case False
    with "1.prems" show ?thesis by (simp add: SHA1_blocks.simps [of s d])
  next
    case True
    let ?t = "(SHA1_transform s (take 64 d))\<lparr>sha_count := 0, sha_nblocks := sha_nblocks s + 1\<rparr>"
    have "absorbed (m @ take 64 d) ?t" using True "1.prems" by (intro absorbed_block) auto
    from "1.IH" [OF True this] obtain c r where "drop 64 d = c @ r" "snd (SHA1_blocks ?t (drop 64 d)) = r"
      "absorbed ((m @ take 64 d) @ c) (fst (SHA1_blocks ?t (drop 64 d)))"
      "sha_count (fst (SHA1_blocks ?t (drop 64 d))) = 0" "length r < 64"
      by auto
    moreover have "d = (take 64 d @ c) @ r"
      using \<open>drop 64 d = c @ r\<close> by (metis append.assoc append_take_drop_id)
    ultimately show ?thesis using True
      by (intro exI [of _ "take 64 d @ c"] exI [of _ r]) (simp add: SHA1_blocks.simps [of s d])
  qed
qed


lemma absorbed_process:
  assumes "absorbed m s"
  shows "absorbed (m @ d) (snd (SHA1_process s (Some d)))"
    and "fst (SHA1_process s (Some d)) = int (length d)"
proof -
  let ?s1 = "SHA1_flush s"
  have i: "sha_init s" using assms by (simp add: absorbed_def)
  have a1: "absorbed m ?s1" using assms by (rule absorbed_flush)
  obtain c r where f: "d = c @ r" "snd (SHA1_fill ?s1 d) = r" "absorbed (m @ c) (fst (SHA1_fill ?s1 d))"
    "r \<noteq> [] \<longrightarrow> sha_count (fst (SHA1_fill ?s1 d)) = 64"
    using absorbed_fill [OF a1, of d] by blast
  define s2 where "s2 = (if sha_count ?s1 \<noteq> 0 then SHA1_flush (fst (SHA1_fill ?s1 d)) else ?s1)"
  define c2 where "c2 = (if sha_count ?s1 \<noteq> 0 then c else [])"
  define d2 where "d2 = (if sha_count ?s1 \<noteq> 0 then r else d)"
  have d2: "d = c2 @ d2" using f by (simp add: c2_def d2_def)
  have a2: "absorbed (m @ c2) s2"
    using f a1 absorbed_flush(1) [OF f(3)] by (simp add: s2_def c2_def)
  show "absorbed (m @ d) (snd (SHA1_process s (Some d)))"
    and "fst (SHA1_process s (Some d)) = int (length d)"
  proof -
    have "absorbed (m @ d) (snd (SHA1_process s (Some d))) \<and> fst (SHA1_process s (Some d)) = int (length d)"
    proof (cases "sha_count ?s1 \<noteq> 0 \<and> d2 = []")
      case True
      then have "SHA1_process s (Some d) = (int (length d), s2)"
        using i f(2) by (auto simp: SHA1_process_def Let_def s2_def d2_def split: prod.split if_splits)
      with True a2 d2 show ?thesis by simp
    next
      case False
      have z: "sha_count s2 = 0"
        using False f by (auto simp: s2_def d2_def SHA1_flush_def split: if_splits)
      obtain c3 r3 where b: "d2 = c3 @ r3" "snd (SHA1_blocks s2 d2) = r3"
        "absorbed ((m @ c2) @ c3) (fst (SHA1_blocks s2 d2))" "sha_count (fst (SHA1_blocks s2 d2)) = 0"
        "length r3 < 64"
        using absorbed_blocks [OF a2 z, of d2] by blast
      obtain c4 r4 where g: "r3 = c4 @ r4" "snd (SHA1_fill (fst (SHA1_blocks s2 d2)) r3) = r4"
        "absorbed (((m @ c2) @ c3) @ c4) (fst (SHA1_fill (fst (SHA1_blocks s2 d2)) r3))"
        "sha_count (fst (SHA1_fill (fst (SHA1_blocks s2 d2)) r3)) = length c4"
        "r4 \<noteq> [] \<longrightarrow> sha_count (fst (SHA1_fill (fst (SHA1_blocks s2 d2)) r3)) = 64"
        using absorbed_fill [OF b(3), of r3] unfolding b(4) add_0 by blast
      have "r4 = []" using g b(5) by (cases "r4 = []") auto
      have "SHA1_process s (Some d) =
          (int (length d - length r4), fst (SHA1_fill (fst (SHA1_blocks s2 d2)) r3))"
        using i False f(2) b(2) g(2)
        by (auto simp: SHA1_process_def Let_def s2_def d2_def split: prod.split)
      with g d2 b(1) \<open>r4 = []\<close> show ?thesis by simp
    qed
    then show "absorbed (m @ d) (snd (SHA1_process s (Some d)))"
      and "fst (SHA1_process s (Some d)) = int (length d)" by simp_all
  qed
qed

section \<open>The digest as a function of the message\<close>

text \<open>The number of zero bytes the code puts after the byte 0x80, and the number FIPS 180 asks for.\<close>

definition code_zeros :: "nat \<Rightarrow> nat" where
  "code_zeros len = (let c = len mod 64 in if c < 55 then 55 - c else 119 - c)"

definition fips_zeros :: "nat \<Rightarrow> nat" where
  "fips_zeros len = (let c = len mod 64 in if c < 56 then 55 - c else 119 - c)"

definition padded :: "nat \<Rightarrow> bytes \<Rightarrow> bytes" where
  "padded z m = m @ [0x80] @ zeros z @ be_bytes 0 @ be_bytes (of_nat (8 * length m))"

definition regs_bytes :: "regs \<Rightarrow> bytes" where
  "regs_bytes r = (case r of (a, b, c, d, e) \<Rightarrow>
     store32 a @ store32 b @ store32 c @ store32 d @ store32 e)"

definition sha_ref :: "nat \<Rightarrow> bytes \<Rightarrow> bytes" where
  "sha_ref z m = regs_bytes (foldl sha_compress sha_iv (blocks 64 (padded z m)))"

lemma length_be_bytes [simp]: "length (be_bytes w) = 4"
  by (simp add: be_bytes_def)

lemma length_regs_bytes [simp]: "length (regs_bytes r) = 20"
  by (simp add: regs_bytes_def split: prod.split)

lemma not_of_nat_less: "a \<le> b \<Longrightarrow> b < 2 ^ 32 \<Longrightarrow> \<not> (of_nat b :: u32) < of_nat a"
  by (simp add: word_less_nat_alt unat_of_nat)

lemma length_words_small:
  assumes "64 * n + c < 2 ^ 29"
  shows "SHA1_length_words (of_nat n) c = (0, of_nat (8 * (64 * n + c)))"
proof -
  have u: "(ucast (of_nat n :: 64 word) :: u32) = of_nat n"
    using assms by (simp add: ucast_eq uint_nat unat_of_nat)
  have p6: "push_bit 6 (of_nat n :: u32) = of_nat (64 * n)"
    by (simp add: push_bit_eq_mult)
  have p3: "push_bit 3 (of_nat (64 * n + c) :: u32) = of_nat (8 * (64 * n + c))"
    by (simp add: push_bit_eq_mult algebra_simps)
  have d: "k < 2 ^ i \<Longrightarrow> k < 2 ^ 32 \<Longrightarrow> drop_bit i (of_nat k :: u32) = 0" for i k
    by (simp add: word_unat_eq_iff unat_drop_bit_eq unat_of_nat drop_bit_eq_div [where 'a = nat])
  have d26: "drop_bit 26 (of_nat n :: u32) = 0"
    using assms by (intro d) auto
  have d29: "drop_bit 29 (of_nat (64 * n + c) :: u32) = 0"
    using assms by (intro d) auto
  have "\<not> (of_nat (64 * n) :: u32) < of_nat n"
    using assms by (intro not_of_nat_less) auto
  moreover have "\<not> (of_nat (64 * n + c) :: u32) < of_nat (64 * n)"
    using assms by (intro not_of_nat_less) auto
  moreover have "\<not> (of_nat (8 * (64 * n + c)) :: u32) < of_nat (64 * n + c)"
    using assms by (intro not_of_nat_less) auto
  ultimately show ?thesis
    unfolding SHA1_length_words_def Let_def u p6 of_nat_add [symmetric] p3 d26 d29 by simp
qed

lemma pad_to_eq:
  assumes "sha_count s \<le> lim" and "lim \<le> length (sha_buf s)"
  shows "SHA1_pad_to lim s =
    s\<lparr>sha_buf := take (sha_count s) (sha_buf s) @ zeros (lim - sha_count s) @ drop lim (sha_buf s), sha_count := lim\<rparr>"
  using assms
proof (induction lim s rule: SHA1_pad_to.induct)
  case (1 lim s)
  show ?case
  proof (cases "sha_count s < lim")
    case False
    with "1.prems" have "sha_count s = lim" by simp
    then show ?thesis by (simp add: SHA1_pad_to.simps [of lim s] zeros_def)
  next
    case True
    let ?t = "s\<lparr>sha_buf := (sha_buf s)[sha_count s := 0], sha_count := sha_count s + 1\<rparr>"
    have "take (Suc (sha_count s)) ((sha_buf s)[sha_count s := 0]) = take (sha_count s) (sha_buf s) @ [0]"
      using True "1.prems" by (simp add: take_Suc_conv_app_nth)
    moreover have "zeros (lim - sha_count s) = 0 # zeros (lim - Suc (sha_count s))"
      using True unfolding zeros_def by (metis Suc_diff_Suc replicate_Suc)
    moreover have "SHA1_pad_to lim s = SHA1_pad_to lim ?t"
      using True by (simp add: SHA1_pad_to.simps [of lim s])
    ultimately show ?thesis
      using "1.IH" [OF True] True "1.prems" by (simp add: drop_update_cancel)
  qed
qed


lemma padded_blocks_one:
  assumes "m = m1 @ t" and "length m1 = 64 * n" and "length t < 55"
  shows "blocks 64 (padded (code_zeros (length m)) m) =
     blocks 64 m1 @ [t @ [0x80] @ zeros (55 - length t) @ be_bytes 0 @ be_bytes (of_nat (8 * length m))]"
proof -
  have "length m mod 64 = length t" using assms by simp
  then have "code_zeros (length m) = 55 - length t" using assms by (simp add: code_zeros_def)
  then show ?thesis using assms
    by (simp add: padded_def blocks_append_multiple blocks_self)
qed

lemma padded_blocks_two:
  assumes "m = m1 @ t" and "length m1 = 64 * n" and "55 \<le> length t" and "length t < 64"
  shows "blocks 64 (padded (code_zeros (length m)) m) =
     blocks 64 m1 @ [t @ [0x80] @ zeros (63 - length t),
       zeros 56 @ be_bytes 0 @ be_bytes (of_nat (8 * length m))]"
proof -
  have "length m mod 64 = length t" using assms by simp
  then have "code_zeros (length m) = (63 - length t) + 56" using assms by (simp add: code_zeros_def)
  then have "padded (code_zeros (length m)) m = m1 @ (t @ [0x80] @ zeros (63 - length t)) @
      (zeros 56 @ be_bytes 0 @ be_bytes (of_nat (8 * length m)))"
    using assms(1) by (simp add: padded_def zeros_def replicate_add)
  moreover have "length (t @ [0x80] @ zeros (63 - length t)) = 64" using assms by simp
  moreover have "length (zeros 56 @ be_bytes 0 @ be_bytes (of_nat (8 * length m))) = 64" by simp
  ultimately show ?thesis using assms(2)
    by (simp only: blocks_append_multiple blocks_append zero_less_numeral) (simp add: blocks_self)
qed

lemma SHA1_finish_buf:
  assumes "56 \<le> length (sha_buf s)"
  shows "sha_buf (SHA1_finish msb lsb s) =
      regs_bytes (sha_compress (sha_regs s) (take 56 (sha_buf s) @ be_bytes msb @ be_bytes lsb)) @
      drop 20 (take 56 (sha_buf s) @ be_bytes msb @ be_bytes lsb)"
proof -
  let ?b = "take 56 (sha_buf s) @ be_bytes msb @ be_bytes lsb"
  let ?s5 = "SHA1_transform (s\<lparr>sha_buf := ?b\<rparr>) ?b"
  have "regs_bytes (sha_regs ?s5) = store32 (ucast (sha_h0 ?s5)) @ store32 (ucast (sha_h1 ?s5)) @
      store32 (ucast (sha_h2 ?s5)) @ store32 (ucast (sha_h3 ?s5)) @ store32 (ucast (sha_h4 ?s5))"
    unfolding sha_regs_def regs_bytes_def by simp
  then show ?thesis by (simp add: SHA1_finish_def Let_def)
qed

lemma SHA1_pad_short:
  assumes "sha_count s < 55" and "length (sha_buf s) = 64"
  shows "sha_regs (SHA1_pad s) = sha_regs s" and "length (sha_buf (SHA1_pad s)) = 64"
    and "take 56 (sha_buf (SHA1_pad s)) = take (sha_count s) (sha_buf s) @ [0x80] @ zeros (55 - sha_count s)"
proof -
  let ?s2 = "s\<lparr>sha_buf := (sha_buf s)[sha_count s := 0x80], sha_count := Suc (sha_count s)\<rparr>"
  have "SHA1_pad s = SHA1_pad_to 56 ?s2" using assms by (simp add: SHA1_pad_def)
  also have "\<dots> = ?s2\<lparr>sha_buf := take (Suc (sha_count s)) (sha_buf ?s2) @ zeros (55 - sha_count s)
      @ drop 56 (sha_buf ?s2), sha_count := 56\<rparr>"
    using assms by (subst pad_to_eq) simp_all
  finally have p: "SHA1_pad s = \<dots>" .
  have e: "56 - sha_count s = Suc (55 - sha_count s)" using assms by simp
  show "sha_regs (SHA1_pad s) = sha_regs s" "length (sha_buf (SHA1_pad s)) = 64"
    "take 56 (sha_buf (SHA1_pad s)) = take (sha_count s) (sha_buf s) @ [0x80] @ zeros (55 - sha_count s)"
    unfolding p using assms e by (simp_all add: take_Suc_conv_app_nth)
qed

lemma SHA1_pad_long:
  assumes "55 \<le> sha_count s" and "sha_count s < 64" and "length (sha_buf s) = 64" and "sha_init s"
  shows "sha_regs (SHA1_pad s) =
      sha_compress (sha_regs s) (take (sha_count s) (sha_buf s) @ [0x80] @ zeros (63 - sha_count s))"
    and "length (sha_buf (SHA1_pad s)) = 64" and "take 56 (sha_buf (SHA1_pad s)) = zeros 56"
proof -
  let ?s2 = "s\<lparr>sha_buf := (sha_buf s)[sha_count s := 0x80], sha_count := Suc (sha_count s)\<rparr>"
  let ?b = "take (sha_count s) (sha_buf s) @ [0x80] @ zeros (63 - sha_count s)"
  have "SHA1_pad_to 64 ?s2 = ?s2\<lparr>sha_buf := ?b, sha_count := 64\<rparr>"
    using assms by (subst pad_to_eq) (simp_all add: take_Suc_conv_app_nth)
  then have "snd (SHA1_process (SHA1_pad_to 64 ?s2) None) =
      (SHA1_transform (?s2\<lparr>sha_buf := ?b, sha_count := 64\<rparr>) ?b)\<lparr>sha_count := 0, sha_nblocks := sha_nblocks s + 1\<rparr>"
    using assms by (simp add: SHA1_process_def SHA1_flush_def Let_def)
  then have p: "SHA1_pad s = (SHA1_transform (?s2\<lparr>sha_buf := ?b, sha_count := 64\<rparr>) ?b)
      \<lparr>sha_count := 0, sha_nblocks := sha_nblocks s + 1, sha_buf := zeros 56 @ drop 56 ?b\<rparr>"
    using assms by (simp add: SHA1_pad_def Let_def)
  show "sha_regs (SHA1_pad s) = sha_compress (sha_regs s) ?b" "length (sha_buf (SHA1_pad s)) = 64"
    "take 56 (sha_buf (SHA1_pad s)) = zeros 56"
    unfolding p using assms by simp_all
qed

lemma hash_absorbed:
  assumes "absorbed m s" and "length m < 2 ^ 29"
  shows "take 20 (fst (SHA1_hash s)) = sha_ref (code_zeros (length m)) m"
    and "length (fst (SHA1_hash s)) = 64"
proof -
  let ?s1 = "SHA1_flush s" and ?c = "sha_count (SHA1_flush s)"
  let ?t = "take ?c (sha_buf ?s1)"
  have i: "sha_init s" "sha_init ?s1" and c: "?c < 64" and len: "length (sha_buf ?s1) = 64"
    using assms absorbed_flush [OF assms(1)] by (auto simp: absorbed_def)
  obtain n m1 where m: "m = m1 @ ?t" "length m1 = 64 * n"
    "sha_nblocks ?s1 = of_nat n" "sha_regs ?s1 = foldl sha_compress sha_iv (blocks 64 m1)"
    using absorbed_flush(1) [OF assms(1)] by (auto simp: absorbed_def)
  have lm: "length m = 64 * n + ?c"
    using arg_cong [OF m(1), of length] m(2) c len by simp
  have lt: "length ?t = ?c" using c len by simp
  have "SHA1_length_words (sha_nblocks ?s1) ?c = (0, of_nat (8 * length m))"
    using length_words_small [of n ?c] assms(2) m(3) lm by simp
  then have h: "fst (SHA1_hash s) = sha_buf (SHA1_finish 0 (of_nat (8 * length m)) (SHA1_pad ?s1))"
    using i by (simp add: SHA1_hash_def SHA1_process_def Let_def)
  have "take 20 (fst (SHA1_hash s)) = sha_ref (code_zeros (length m)) m \<and> length (fst (SHA1_hash s)) = 64"
  proof (cases "?c < 55")
    case True
    note p = SHA1_pad_short [OF True len]
    have "blocks 64 (padded (code_zeros (length m)) m) = blocks 64 m1 @
        [?t @ [0x80] @ zeros (55 - ?c) @ be_bytes 0 @ be_bytes (of_nat (8 * length m))]"
      using padded_blocks_one [OF m(1,2)] True lt by simp
    then show ?thesis using p True lt by (simp add: h SHA1_finish_buf sha_ref_def m(4))
  next
    case False
    then have "55 \<le> ?c" by simp
    note p = SHA1_pad_long [OF this c len i(2)]
    have "blocks 64 (padded (code_zeros (length m)) m) = blocks 64 m1 @
        [?t @ [0x80] @ zeros (63 - ?c), zeros 56 @ be_bytes 0 @ be_bytes (of_nat (8 * length m))]"
      using padded_blocks_two [OF m(1,2)] False c lt by simp
    then show ?thesis using p by (simp add: h SHA1_finish_buf sha_ref_def m(4))
  qed
  then show "take 20 (fst (SHA1_hash s)) = sha_ref (code_zeros (length m)) m"
    and "length (fst (SHA1_hash s)) = 64" by simp_all
qed

lemma absorbed_chunks:
  assumes "length junk = 64"
  shows "absorbed (concat ds) (foldl (\<lambda>s d. snd (SHA1_process s (Some d))) (SHA1_new junk) ds)"
proof (induction ds rule: rev_induct)
  case Nil
  then show ?case using assms by (simp add: SHA1_new_def absorbed_reset)
next
  case (snoc d ds)
  from absorbed_process(1) [OF snoc] show ?case by simp
qed

section \<open>The rounds against the standard\<close>

text \<open>
  FIPS 180-4, 6.1.2: the message schedule of 80 words and the rounds over it.  The source keeps
  a window of 16 schedule words and computes each new word in the place of the oldest.
\<close>

function schedule :: "bytes \<Rightarrow> nat \<Rightarrow> u32" where
  "schedule d t =
     (if t < 16 then load32 (take 4 (drop (4 * t) d))
      else rol (schedule d (t - 3) XOR schedule d (t - 8) XOR schedule d (t - 14) XOR schedule d (t - 16)) 1)"
  by pat_completeness auto
termination
  by (relation "measure snd") auto

declare schedule.simps [simp del]

definition Ch :: "u32 \<Rightarrow> u32 \<Rightarrow> u32 \<Rightarrow> u32" where
  "Ch x y z = (x AND y) XOR (NOT x AND z)"

definition Parity :: "u32 \<Rightarrow> u32 \<Rightarrow> u32 \<Rightarrow> u32" where
  "Parity x y z = x XOR y XOR z"

definition Maj :: "u32 \<Rightarrow> u32 \<Rightarrow> u32 \<Rightarrow> u32" where
  "Maj x y z = (x AND y) XOR (x AND z) XOR (y AND z)"

definition fips_f :: "nat \<Rightarrow> u32 \<Rightarrow> u32 \<Rightarrow> u32 \<Rightarrow> u32" where
  "fips_f t = (if t \<le> 19 then Ch else if t \<le> 39 then Parity else if t \<le> 59 then Maj else Parity)"

definition fips_k :: "nat \<Rightarrow> u32" where
  "fips_k t = (if t \<le> 19 then 0x5a827999 else if t \<le> 39 then 0x6ed9eba1
     else if t \<le> 59 then 0x8f1bbcdc else 0xca62c1d6)"

definition fips_round :: "bytes \<Rightarrow> nat \<Rightarrow> regs \<Rightarrow> regs" where
  "fips_round m t r =
     (case r of (a, b, c, d, e) \<Rightarrow>
        (rol a 5 + fips_f t b c d + e + fips_k t + schedule m t, a, rol b 30, c, d))"

lemma F1_Ch: "F1 = Ch"
  by (intro ext bit_word_eqI) (auto simp: F1_def Ch_def bit_simps)

lemma F3_Maj: "F3 = Maj"
  by (intro ext bit_word_eqI) (auto simp: F3_def Maj_def bit_simps)

lemma SHA1_f_fips: "SHA1_f t = fips_f t"
  by (auto simp: SHA1_f_def fips_f_def F1_Ch F3_Maj F2_def F4_def Parity_def fun_eq_iff)

lemma SHA1_k_fips: "SHA1_k t = fips_k t"
  by (auto simp: SHA1_k_def fips_k_def K1_def K2_def K3_def K4_def)

text \<open>The window before round \<open>t\<close> holds the last 16 schedule words, each at its index modulo 16.\<close>

definition window :: "bytes \<Rightarrow> nat \<Rightarrow> u32 list \<Rightarrow> bool" where
  "window d t x \<longleftrightarrow> length x = 16 \<and>
     (\<forall>i. i < max t 16 \<and> max t 16 \<le> i + 16 \<longrightarrow> x ! (i mod 16) = schedule d i)"

lemma window_load: "window d 0 (SHA1_load d)"
  by (auto simp: window_def SHA1_load_def schedule.simps [of d])

lemma window_word:
  assumes "window d t x" and "t < 16"
  shows "x ! t = schedule d t" and "window d (Suc t) x"
proof -
  have "x ! (t mod 16) = schedule d t" using assms unfolding window_def by auto
  then show "x ! t = schedule d t" using assms(2) by simp
  have "max (Suc t) 16 = max t 16" using assms(2) by simp
  then show "window d (Suc t) x" using assms(1) unfolding window_def by metis
qed

lemma window_M:
  assumes w: "window d t x" and t: "16 \<le> t"
  shows "fst (SHA1_M x t) = schedule d t" and "window d (Suc t) (snd (SHA1_M x t))"
proof -
  have l: "length x = 16" using w by (simp add: window_def)
  have at: "x ! (i mod 16) = schedule d i" if "i < t" "t \<le> i + 16" for i
    using w t that unfolding window_def by auto
  have m: "t mod 16 = (t - 16) mod 16" using t by (simp add: le_mod_geq)
  have s: "schedule d t = rol (schedule d (t - 3) XOR schedule d (t - 8) XOR schedule d (t - 14)
      XOR schedule d (t - 16)) 1"
    using t by (subst schedule.simps) simp
  show v: "fst (SHA1_M x t) = schedule d t"
    unfolding SHA1_M_def Let_def fst_conv s rol_def m
    using t by (simp add: at xor.commute xor.left_commute)
  have x': "snd (SHA1_M x t) = x[t mod 16 := schedule d t]"
    using v by (simp add: SHA1_M_def Let_def)
  show "window d (Suc t) (snd (SHA1_M x t))"
    unfolding window_def x'
  proof (intro conjI allI impI)
    fix i assume "i < max (Suc t) 16 \<and> max (Suc t) 16 \<le> i + 16"
    then have i: "i \<le> t" "t < i + 16" using t by auto
    show "x[t mod 16 := schedule d t] ! (i mod 16) = schedule d i"
    proof (cases "i = t")
      case True then show ?thesis using l by simp
    next
      case False
      then have "i < t" "t - i < 16" "0 < t - i" using i by simp_all
      then have "\<not> 16 dvd (t - i)" by (auto dest: dvd_imp_le)
      then have "t mod 16 \<noteq> i mod 16" using i(1) by (metis mod_eq_dvd_iff_nat)
      then show ?thesis using at [of i] i \<open>i < t\<close> by simp
    qed
  qed (simp add: l)
qed

lemma window_round:
  assumes "window d t x"
  shows "fst (sha_round t (r, x)) = fips_round d t r" and "window d (Suc t) (snd (sha_round t (r, x)))"
proof -
  obtain a b c e f where r: "r = (a, b, c, e, f)" by (cases r) auto
  show "fst (sha_round t (r, x)) = fips_round d t r"
    using window_word(1) [OF assms] window_M(1) [OF assms]
    by (cases "SHA1_M x t")
      (auto simp: sha_round_def fips_round_def r SHA1_f_fips SHA1_k_fips not_less add.commute add.left_commute)
  show "window d (Suc t) (snd (sha_round t (r, x)))"
    using window_word(2) [OF assms] window_M(2) [OF assms]
    by (cases "SHA1_M x t") (auto simp: sha_round_def r not_less)
qed

lemma window_rounds:
  "fst (fold sha_round [0..<n] (r, SHA1_load d)) = fold (fips_round d) [0..<n] r \<and>
   window d n (snd (fold sha_round [0..<n] (r, SHA1_load d)))"
proof (induction n)
  case 0 then show ?case by (simp add: window_load)
next
  case (Suc n)
  let ?p = "fold sha_round [0..<n] (r, SHA1_load d)"
  from Suc have w: "window d n (snd ?p)" and f: "fst ?p = fold (fips_round d) [0..<n] r" by simp_all
  have "(fst ?p, snd ?p) = ?p" by simp
  with window_round [OF w, of "fst ?p"] show ?case by (simp add: f)
qed

section \<open>Properties\<close>

text \<open>C25. The 80 rounds of \<open>transform\<close>, with the message schedule computed in place in a window
  of 16 words, are the rounds of FIPS 180-4 over the full schedule of 80 words.\<close>

theorem rounds_are_fips: "SHA1_rounds r d = fold (fips_round d) [0..<80] r"
  unfolding SHA1_rounds_def using window_rounds by blast

text \<open>C23. The digest depends only on the message, not on how \<open>process\<close> was fed with it, and it is
  the digest of the padded message; the code pads as FIPS 180 asks, except that it inserts one
  more block of zeros when the message is 55 bytes long modulo 64.\<close>

theorem digest_of_chunks:
  assumes "length (concat ds) < 2 ^ 29" and "length junk = 64"
  shows "take 20 (fst (SHA1_hash (foldl (\<lambda>s d. snd (SHA1_process s (Some d))) (SHA1_new junk) ds))) =
     sha_ref (fips_zeros (length (concat ds)) + (if length (concat ds) mod 64 = 55 then 64 else 0)) (concat ds)"
proof -
  have "absorbed (concat ds) (foldl (\<lambda>s d. snd (SHA1_process s (Some d))) (SHA1_new junk) ds)"
    using assms(2) by (rule absorbed_chunks)
  from hash_absorbed(1) [OF this assms(1)] show ?thesis
    by (auto simp: code_zeros_def fips_zeros_def Let_def)
qed

theorem digest_of_chunks_witness:
  "take 20 (fst (SHA1_hash (foldl (\<lambda>s d. snd (SHA1_process s (Some d))) (SHA1_new (zeros 64)) [[97], [98, 99]]))) =
     sha_ref 52 [97, 98, 99]"
  using digest_of_chunks [of "[[97], [98, 99]]" "zeros 64"] by (simp add: fips_zeros_def)

end
