(* ===== verification/Persist.thy ===== *)
theory Persist
  imports BackendHashes Sha1 Blowfish
begin

text \<open>
  The Blowfish file format: \<open>BlowfishPersistHandler\<close> of
  src/runtime/kwalletbackend/backendpersisthandler.cpp.  After the magic and the version a
  wallet file holds the digest table in the clear and one encrypted block:
  \<^verbatim>\<open>8 random bytes | length (4, big-endian) | data | 1..8 random bytes | SHA-1 (20)\<close>.

  \<open>QSaveFile\<close> collects what is written and replaces the file on \<open>commit\<close>; without a commit
  the old file stays.
\<close>

section \<open>Files that are being saved\<close>

record savefile =
  sf_path :: qstring
  sf_data :: bytes

definition sf_write :: "host \<Rightarrow> bytes \<Rightarrow> savefile \<Rightarrow> bool \<times> savefile" where
  "sf_write h d sf =
     (if fullWrite h (sf_path sf) (length d) then (True, sf\<lparr>sf_data := sf_data sf @ d\<rparr>) else (False, sf))"

definition sf_commit :: "host \<Rightarrow> savefile \<Rightarrow> files \<Rightarrow> bool \<times> files" where
  "sf_commit h sf fs =
     (if mayCommit h (sf_path sf) then (True, fs(sf_path sf \<mapsto> sf_data sf)) else (False, fs))"

section \<open>Streams\<close>

text \<open>The digest table: the number of folders, and for each its digest and its entries' digests.\<close>

definition raw_digest :: "host \<Rightarrow> qstring \<Rightarrow> bytes" where
  "raw_digest h s = take 16 (name_digest h s)"

definition folder_hashes :: "host \<Rightarrow> qstring \<times> entry_map \<Rightarrow> bytes" where
  "folder_hashes h fm =
     (let (f, m) = fm in
      raw_digest h f @ put_u32 h (of_nat (length m)) @ concat (map (\<lambda>(k, e). raw_digest h k) m))"

definition hashes_stream :: "host \<Rightarrow> folder_map \<Rightarrow> bytes" where
  "hashes_stream h em = put_u32 h (of_nat (length em)) @ concat (map (folder_hashes h) em)"

text \<open>The data: the folders with their entries.\<close>

definition entry_data :: "host \<Rightarrow> qstring \<times> entry \<Rightarrow> bytes" where
  "entry_data h ke =
     (let (k, e) = ke in put_str h k @ put_u32 h (e_type e) @ put_ba h (e_value e))"

definition folder_data :: "host \<Rightarrow> qstring \<times> entry_map \<Rightarrow> bytes" where
  "folder_data h fm =
     (let (f, m) = fm in
      put_str h f @ put_u32 h (of_nat (length m)) @ concat (map (entry_data h) m))"

definition data_stream :: "host \<Rightarrow> folder_map \<Rightarrow> bytes" where
  "data_stream h em = concat (map (folder_data h) em)"

section \<open>Writing\<close>

definition sha1_of :: "host \<Rightarrow> bytes \<Rightarrow> bytes" where
  "sha1_of h d =
     take 20 (fst (SHA1_hash (snd (SHA1_process (SHA1_new (map (stackJunk h) [0..<64])) (Some d)))))"

text \<open>
  The plain text of the encrypted block.  The source fills the parts by index; they follow each
  other without gap, the digest at \<open>newsize - 20\<close>.
\<close>

definition whole_file :: "host \<Rightarrow> bytes \<Rightarrow> bytes" where
  "whole_file h decrypted =
     (let blksz = 8;
          newsize = length decrypted + blksz + 4 + 20;
          delta = blksz - newsize mod blksz;
          randBlock = map (randomByte h) [0..<blksz + delta]
      in take blksz randBlock @ be_bytes (of_nat (length decrypted)) @ decrypted
           @ drop blksz randBlock @ sha1_of h decrypted)"

text \<open>A cipher object before its key is set; \<open>setKey\<close> overwrites the indeterminate members.\<close>

definition fresh_blowfish :: blowfish where
  "fresh_blowfish = BlowFish_new [] [] 0"

definition BlowfishPersist_write :: "host \<Rightarrow> backend \<Rightarrow> savefile \<Rightarrow> bytes \<Rightarrow> files \<Rightarrow> (int \<times> files) run" where
  "BlowfishPersist_write h wb sf version fs =
     (if b_cipherType wb \<noteq> CIPHER_BLOWFISH then UB
      else
        let version = version[2 := 3, 3 := (if \<not> b_useNewHash wb then 0 else 2)];
            (ok, sf) = sf_write h version sf in
        if \<not> ok then Ret (-4, fs)
        else
          let hashes = hashes_stream h (b_entries wb);
              decrypted = data_stream h (b_entries wb);
              (ok, sf) = sf_write h hashes sf in
          if \<not> ok then Ret (-4, fs)
          else
            let wholeFile = whole_file h decrypted;
                bf = CBC_new BlowFish_vt (Some fresh_blowfish) False;
                (keyed, bf) = CBC_setKey BlowFish_vt bf (b_passhash wb) (int (length (b_passhash wb)) * 8) in
            if \<not> keyed then Ret (-2, fs)
            else
              run_bind (CBC_encrypt BlowFish_vt bf wholeFile) (\<lambda>(rc, wholeFile, bf).
                if rc < 0 then Ret (-2, fs)
                else
                  let (ok, sf) = sf_write h wholeFile sf in
                  if \<not> ok then Ret (-4, fs)
                  else
                    let (ok, fs) = sf_commit h sf fs in
                    if \<not> ok then Ret (-4, fs) else Ret (0, fs)))"

section \<open>Reading\<close>

text \<open>\<open>readRawData\<close> into a local array of 16 bytes: a short read leaves the rest of the array as it was.\<close>

definition read_raw16 :: "host \<Rightarrow> bytes \<Rightarrow> bytes \<times> bytes" where
  "read_raw16 h s = (take 16 s @ drop (length s) (map (stackJunk h) [0..<16]), drop 16 s)"

fun read_digests :: "host \<Rightarrow> nat \<Rightarrow> bytes \<Rightarrow> bytes list \<times> bytes" where
  "read_digests h 0 s = ([], s)"
| "read_digests h (Suc n) s =
     (let (d, s) = read_raw16 h s; (ds, s) = read_digests h n s in (d # ds, s))"

text \<open>The loop over the folders of the table; \<open>None\<close> is the return of -43 at the end of the file.\<close>

fun read_hashes :: "host \<Rightarrow> nat \<Rightarrow> bytes \<Rightarrow> hash_map \<Rightarrow> (hash_map \<times> bytes) option \<times> hash_map" where
  "read_hashes h 0 s hm = (Some (hm, s), hm)"
| "read_hashes h (Suc n) s hm =
     (if s = [] then (None, hm)
      else
        let (d, s) = read_raw16 h s; (fsz, s) = get_u32 h s;
            (ds, s) = read_digests h (unat fsz) s
        in read_hashes h n s (hm(d \<mapsto> ds)))"

text \<open>
  One folder's entries.  An entry of an unknown type is dropped, and its value is not read from
  the stream.
\<close>

fun read_entries :: "host \<Rightarrow> qstring \<Rightarrow> nat \<Rightarrow> bytes \<Rightarrow> folder_map \<Rightarrow> folder_map \<times> bytes" where
  "read_entries h folder 0 s em = (em, s)"
| "read_entries h folder (Suc n) s em =
     (let (key, s) = get_str h s; (x, s) = get_u32 h s in
      if x = Password \<or> x = Stream \<or> x = Map
      then
        let (a, s) = get_ba h s; e = \<lparr>e_key = key, e_value = a, e_type = x\<rparr>;
            m = (case qmap_find em folder of None \<Rightarrow> [] | Some m \<Rightarrow> m)
        in read_entries h folder n s (qmap_insert folder (qmap_insert key e m) em)
      else read_entries h folder n s em)"

partial_function (option) read_folders :: "host \<Rightarrow> bytes \<Rightarrow> folder_map \<Rightarrow> folder_map option" where
  "read_folders h s em =
     (if s = [] then Some em
      else
        let (folder, s1) = get_str h s; (n, s2) = get_u32 h s1;
            (em2, s3) = read_entries h folder (unat n) s2 (qmap_insert folder [] em)
        in read_folders h s3 em2)"

text \<open>The big-endian length after the first block.\<close>

definition stored_size :: "bytes \<Rightarrow> nat" where
  "stored_size d = unat (load32 (rev (take 4 (drop 8 d))))"

text \<open>
  The checks on the decrypted block, and the data stream out of it.  The length is read from
  bytes 8 to 11 and the digest from the last 20 bytes without a test that the block has them;
  a shorter block is read out of range.
\<close>

definition open_block :: "host \<Rightarrow> bytes \<Rightarrow> (int + bytes) run" where
  "open_block h d =
     (if length d < 12 then UB
      else
        let fsize = stored_size d in
        if int (length d) - 8 - 4 < int fsize then Ret (Inl (-9))
        else if length d < 20 then UB
        else if sha1_of h (take fsize (drop 12 d)) \<noteq> drop (length d - 20) d then Ret (Inl (-8))
        else Ret (Inr (take fsize (drop 12 d))))"

definition BlowfishPersist_read :: "host \<Rightarrow> bool \<Rightarrow> backend \<Rightarrow> bytes \<Rightarrow> (int \<times> backend) run" where
  "BlowfishPersist_read h useECB wb db =
     (let wb = wb\<lparr>b_cipherType := CIPHER_BLOWFISH, b_hashes := Map.empty\<rparr>;
          (n, s) = get_u32 h db in
      if 0xffff < n then Ret (-43, wb)
      else
        let (res, hm) = read_hashes h (unat n) s Map.empty; wb = wb\<lparr>b_hashes := hm\<rparr> in
        case res of None \<Rightarrow> Ret (-43, wb)
        | Some (hm, encrypted) \<Rightarrow>
            let wb = wb\<lparr>b_hashes := hm\<rparr> in
            if length encrypted mod 8 \<noteq> 0 then Ret (-5, wb)
            else
              let bf = CBC_new BlowFish_vt (Some fresh_blowfish) useECB;
                  (_, bf) = CBC_setKey BlowFish_vt bf (b_passhash wb) (int (length (b_passhash wb)) * 8)
              in
              run_bind (CBC_decrypt BlowFish_vt bf encrypted) (\<lambda>(rc, d, bf).
                if rc < 0 then Ret (-6, wb\<lparr>b_passhash := zeros (length (b_passhash wb))\<rparr>)
                else run_bind (open_block h d) (\<lambda>r.
                  case r of Inl e \<Rightarrow> Ret (e, wb)
                  | Inr stream \<Rightarrow>
                      (case read_folders h stream (b_entries wb) of
                         None \<Rightarrow> Diverge
                       | Some em \<Rightarrow> Ret (0, wb\<lparr>b_entries := em, b_open := True\<rparr>)))))"

end
