(* ===== verification/PersistProps.thy ===== *)
theory PersistProps
  imports Persist
begin

text \<open>
  The properties of the Blowfish file format.  A wallet that is written can be read back with
  the same key: the reader's loops are followed over the streams that the writer produces, one
  lemma per loop, and the block's checks pass on a block built by the writer.  Further lemmas
  say which error codes the reader can return.
\<close>

section \<open>Reading the digest table back\<close>

definition storable :: "backend \<Rightarrow> bool" where
  "storable b \<longleftrightarrow> length (b_entries b) \<le> 0xffff \<and>
     (\<forall>(f, m) \<in> set (b_entries b). fits f \<and> fits m \<and>
        (\<forall>(k, e) \<in> set m. fits k \<and> fits (e_value e) \<and> e_key e = k \<and>
           (e_type e = Password \<or> e_type e = Stream \<or> e_type e = Map)))"

definition add_folder :: "host \<Rightarrow> hash_map \<Rightarrow> qstring \<times> entry_map \<Rightarrow> hash_map" where
  "add_folder h hm fm = hm(raw_digest h (fst fm) \<mapsto> map (\<lambda>(k, e). raw_digest h k) (snd fm))"

definition digest_table :: "host \<Rightarrow> folder_map \<Rightarrow> hash_map" where
  "digest_table h em = foldl (add_folder h) Map.empty em"

lemma length_raw_digest [simp]: "md5_laws h \<Longrightarrow> length (raw_digest h s) = 16"
  by (simp add: raw_digest_def name_digest_def md5_laws_def)

lemma raw_digest_name: "md5_laws h \<Longrightarrow> raw_digest h s = name_digest h s"
  by (simp add: raw_digest_def name_digest_def md5_laws_def)

lemma read_raw16_digest [simp]:
  "md5_laws h \<Longrightarrow> read_raw16 h (raw_digest h s @ r) = (raw_digest h s, r)"
  by (simp add: read_raw16_def)

lemma read_digests_stream:
  assumes "md5_laws h"
  shows "read_digests h (length m) (concat (map (\<lambda>(k, e). raw_digest h k) m) @ r) =
     (map (\<lambda>(k, e). raw_digest h k) m, r)"
  using assms by (induction m) auto

lemma read_hashes_stream:
  assumes "stream_laws h" and "md5_laws h" and "\<forall>(f, m) \<in> set em. fits m"
  shows "read_hashes h (length em) (concat (map (folder_hashes h) em) @ r) hm =
     (Some (foldl (add_folder h) hm em, r), foldl (add_folder h) hm em)"
  using assms(3)
proof (induction em arbitrary: hm)
  case Nil
  then show ?case by simp
next
  case (Cons fm em)
  obtain f m where fm: "fm = (f, m)" by fastforce
  have "fits m" using Cons.prems fm by simp
  then have n: "unat (of_nat (length m) :: u32) = length m" by (rule unat_length)
  have ne: "raw_digest h f \<noteq> []"
    using length_raw_digest [OF assms(2), of f] by fastforce
  have fh: "folder_hashes h fm = raw_digest h f @ put_u32 h (of_nat (length m)) @
      concat (map (\<lambda>(k, e). raw_digest h k) m)"
    by (simp add: fm folder_hashes_def)
  have af: "add_folder h hm fm = hm(raw_digest h f \<mapsto> map (\<lambda>(k, e). raw_digest h k) m)"
    by (simp add: fm add_folder_def)
  have "read_hashes h (length (fm # em)) (concat (map (folder_hashes h) (fm # em)) @ r) hm =
      read_hashes h (length em) (concat (map (folder_hashes h) em) @ r) (add_folder h hm fm)"
    using assms(1,2) ne n by (simp add: fh af stream_simps read_digests_stream)
  with Cons.IH [of "add_folder h hm fm"] Cons.prems show ?case by simp
qed

section \<open>Reading the entries back\<close>

lemma find_last: "\<forall>k' \<in> set (map fst m). k' < (k :: 'a :: linorder) \<Longrightarrow> qmap_find (m @ [(k, v)]) k = Some v"
proof -
  assume "\<forall>k' \<in> set (map fst m). k' < k"
  then have "k \<notin> fst ` set m" by auto
  then have "map_of m k = None" by (simp add: map_of_eq_None_iff)
  then show ?thesis by (simp add: qmap_find_def map_add_def)
qed

text \<open>The folder being read is the last one, and its entries are appended one by one.\<close>

lemma read_entries_stream:
  assumes "stream_laws h"
    and "\<forall>(k, e) \<in> set m. fits k \<and> fits (e_value e) \<and> e_key e = k \<and>
           (e_type e = Password \<or> e_type e = Stream \<or> e_type e = Map)"
    and "qmap_wf (acc @ m)" and "\<forall>f' \<in> set (map fst em). f' < f"
  shows "read_entries h f (length m) (concat (map (entry_data h) m) @ r) (em @ [(f, acc)]) =
     (em @ [(f, acc @ m)], r)"
  using assms(2,3)
proof (induction m arbitrary: acc)
  case Nil
  then show ?case by simp
next
  case (Cons ke m)
  obtain k e where ke: "ke = (k, e)" by fastforce
  have e: "fits k" "fits (e_value e)" "e_key e = k"
    "e_type e = Password \<or> e_type e = Stream \<or> e_type e = Map"
    using Cons.prems(1) ke by simp_all
  have "\<forall>k' \<in> set (map fst acc). k' < k"
    using Cons.prems(2) unfolding ke qmap_wf_def by (auto simp: sorted_wrt_append)
  then have ins: "qmap_insert k e acc = acc @ [(k, e)]" by (rule qmap_insert_last)
  have rec: "\<lparr>e_key = k, e_value = e_value e, e_type = e_type e\<rparr> = e"
    using e(3) by simp
  have "read_entries h f (length (ke # m)) (concat (map (entry_data h) (ke # m)) @ r) (em @ [(f, acc)]) =
      read_entries h f (length m) (concat (map (entry_data h) m) @ r) (em @ [(f, acc @ [(k, e)])])"
    using e assms(1) assms(4)
    by (simp add: ke entry_data_def stream_simps find_last ins rec qmap_insert_again)
  with Cons.IH [of "acc @ [(k, e)]"] Cons.prems show ?case by (simp add: ke)
qed

lemma read_folders_stream:
  assumes "stream_laws h"
    and "\<forall>(f, m) \<in> set em. fits f \<and> fits m \<and> qmap_wf m \<and>
        (\<forall>(k, e) \<in> set m. fits k \<and> fits (e_value e) \<and> e_key e = k \<and>
           (e_type e = Password \<or> e_type e = Stream \<or> e_type e = Map))"
    and "qmap_wf (acc @ em)"
  shows "read_folders h (data_stream h em) acc = Some (acc @ em)"
  using assms(2,3)
proof (induction em arbitrary: acc)
  case Nil
  then show ?case by (simp add: data_stream_def read_folders.simps)
next
  case (Cons fm em)
  obtain f m where fm: "fm = (f, m)" by fastforce
  have m: "fits f" "fits m" "qmap_wf m" using Cons.prems fm by simp_all
  have n: "unat (of_nat (length m) :: u32) = length m" using m(2) by (rule unat_length)
  have lt: "\<forall>k' \<in> set (map fst acc). k' < f"
    using Cons.prems(2) unfolding fm qmap_wf_def by (auto simp: sorted_wrt_append)
  have ents: "read_entries h f (length m) (concat (map (entry_data h) m) @ data_stream h em) (acc @ [(f, [])]) =
      (acc @ [(f, m)], data_stream h em)"
    using read_entries_stream [OF assms(1), of m "[]" acc f "data_stream h em"] Cons.prems(1) m(3) lt
    by (simp add: fm)
  have s: "data_stream h (fm # em) =
      put_str h f @ put_u32 h (of_nat (length m)) @ concat (map (entry_data h) m) @ data_stream h em"
    by (simp add: data_stream_def fm folder_data_def)
  have ne: "data_stream h (fm # em) \<noteq> []" using s m(1) assms(1) by (simp add: stream_simps)
  have "read_folders h (data_stream h (fm # em)) acc = read_folders h (data_stream h em) (acc @ [(f, m)])"
    using ne ents m(1) n assms(1) lt unfolding read_folders.simps [of h "data_stream h (fm # em)"]
    by (simp add: s stream_simps qmap_insert_last)
  with Cons.IH [of "acc @ [(f, m)]"] Cons.prems show ?case by (simp add: fm)
qed

section \<open>The encrypted block\<close>

lemma length_sha1_of:
  assumes "length d < 2 ^ 29"
  shows "length (sha1_of h d) = 20"
proof -
  have "absorbed [] (SHA1_new (map (stackJunk h) [0..<64]))"
    by (simp add: SHA1_new_def absorbed_reset)
  from absorbed_process(1) [OF this, of d]
  have "absorbed d (snd (SHA1_process (SHA1_new (map (stackJunk h) [0..<64])) (Some d)))" by simp
  from hash_absorbed(2) [OF this assms] show ?thesis by (simp add: sha1_of_def)
qed

lemma rev_be_bytes [simp]: "rev (be_bytes w) = store32 w"
  by (simp add: be_bytes_def store32_def)

text \<open>The parts of the plain block; the random bytes after the data fill the last cipher block.\<close>

lemma whole_file_parts:
  obtains lead trail where
    "whole_file h d = lead @ be_bytes (of_nat (length d)) @ d @ trail @ sha1_of h d"
    "length lead = 8" "length trail = 8 - (length d + 32) mod 8"
proof
  let ?r = "map (randomByte h) [0..<8 + (8 - (length d + 32) mod 8)]"
  show "whole_file h d = take 8 ?r @ be_bytes (of_nat (length d)) @ d @ drop 8 ?r @ sha1_of h d"
    by (simp add: whole_file_def Let_def add.assoc)
qed simp_all

lemma length_whole_file:
  assumes "length d < 2 ^ 29"
  shows "length (whole_file h d) mod 8 = 0" and "whole_file h d \<noteq> []"
proof -
  obtain lead trail where w: "whole_file h d = lead @ be_bytes (of_nat (length d)) @ d @ trail @ sha1_of h d"
    "length lead = 8" "length trail = 8 - (length d + 32) mod 8"
    by (rule whole_file_parts)
  have "length (whole_file h d) = length d + 32 + (8 - (length d + 32) mod 8)"
    using w length_sha1_of [OF assms] by simp
  moreover have "(x + (8 - x mod 8)) mod 8 = 0" for x :: nat by presburger
  ultimately show "length (whole_file h d) mod 8 = 0" by metis
  show "whole_file h d \<noteq> []" using w by auto
qed

lemma open_whole_file:
  assumes "length d < 2 ^ 29"
  shows "open_block h (whole_file h d) = Ret (Inr d)"
proof -
  obtain lead trail where w: "whole_file h d = lead @ be_bytes (of_nat (length d)) @ d @ trail @ sha1_of h d"
    "length lead = 8"
    by (rule whole_file_parts)
  have "unat (of_nat (length d) :: u32) = length d" using assms by (simp add: unat_of_nat)
  then have "stored_size (whole_file h d) = length d"
    using w(2) by (simp add: stored_size_def w(1))
  moreover have "length (sha1_of h d) = 20" using assms by (rule length_sha1_of)
  ultimately show ?thesis
    using w(2) by (simp add: open_block_def w(1))
qed

section \<open>Round trip\<close>

lemma setKey_ready:
  "fst (BlowFish_setKey fresh_blowfish key n) \<Longrightarrow> m_initialized (snd (BlowFish_setKey fresh_blowfish key n))"
  by (auto simp: BlowFish_setKey_def BlowFish_init_def Let_def split: if_splits prod.splits)

lemma setKey_refused:
  "\<not> fst (BlowFish_setKey fresh_blowfish key n) \<Longrightarrow> \<not> m_initialized (snd (BlowFish_setKey fresh_blowfish key n))"
  by (auto simp: BlowFish_setKey_def BlowFish_init_def Let_def fresh_blowfish_def BlowFish_new_def
      split: if_splits prod.splits)

lemma CBC_setKey_new:
  "CBC_setKey BlowFish_vt (CBC_new BlowFish_vt (Some c) ecb) key n =
     (fst (BlowFish_setKey c key n), CBC_new BlowFish_vt (Some (snd (BlowFish_setKey c key n))) ecb)"
  by (simp add: CBC_setKey_def CBC_new_def split: prod.split)

definition key_accepted :: "bytes \<Rightarrow> bool" where
  "key_accepted key = fst (BlowFish_setKey fresh_blowfish key (int (length key) * 8))"

definition file_version :: "backend \<Rightarrow> bytes \<Rightarrow> bytes" where
  "file_version wb version = version[2 := 3, 3 := (if b_useNewHash wb then 2 else 0)]"

lemma write_accepted:
  assumes "b_cipherType wb = CIPHER_BLOWFISH"
    and io: "\<forall>n. fullWrite h (sf_path sf) n" "mayCommit h (sf_path sf)"
    and small: "length (data_stream h (b_entries wb)) < 2 ^ 29"
    and key: "key_accepted (b_passhash wb)"
  obtains ct d where
    "BlowfishPersist_write h wb sf version fs = Ret (0, fs(sf_path sf \<mapsto>
       sf_data sf @ file_version wb version @ hashes_stream h (b_entries wb) @ ct))"
    "length ct = length (whole_file h (data_stream h (b_entries wb)))"
    "CBC_decrypt BlowFish_vt (snd (CBC_setKey BlowFish_vt (CBC_new BlowFish_vt (Some fresh_blowfish) False)
        (b_passhash wb) (int (length (b_passhash wb)) * 8))) ct =
       Ret (int (length ct), whole_file h (data_stream h (b_entries wb)), d)"
proof -
  let ?w = "whole_file h (data_stream h (b_entries wb))"
  let ?c = "snd (BlowFish_setKey fresh_blowfish (b_passhash wb) (int (length (b_passhash wb)) * 8))"
  have ready: "m_initialized ?c" using key unfolding key_accepted_def by (rule setKey_ready)
  have "int (length ?w) mod 8 = 0" using length_whole_file(1) [OF small, of h] by presburger
  from bf.cbc_roundtrip [of ?c ?w False] ready length_whole_file(2) [OF small] this
  obtain ct s d where ct: "CBC_encrypt BlowFish_vt (CBC_new BlowFish_vt (Some ?c) False) ?w = Ret (8, ct, s)"
    "length ct = length ?w" "CBC_decrypt BlowFish_vt (CBC_new BlowFish_vt (Some ?c) False) ct = Ret (int (length ?w), ?w, d)"
    by auto
  show thesis
  proof (rule that [of ct d])
    show "BlowfishPersist_write h wb sf version fs = Ret (0, fs(sf_path sf \<mapsto>
       sf_data sf @ file_version wb version @ hashes_stream h (b_entries wb) @ ct))"
      using assms(1) io ct(1) key
      by (simp add: BlowfishPersist_write_def sf_write_def sf_commit_def CBC_setKey_new key_accepted_def
          file_version_def)
  qed (use ct in \<open>simp_all add: CBC_setKey_new\<close>)
qed

lemma write_refused:
  assumes "b_cipherType wb = CIPHER_BLOWFISH" and "\<forall>n. fullWrite h (sf_path sf) n"
    and "\<not> key_accepted (b_passhash wb)"
  shows "BlowfishPersist_write h wb sf version fs = Ret (-2, fs)"
  using assms by (simp add: BlowfishPersist_write_def sf_write_def CBC_setKey_new key_accepted_def)

lemma storable_folders:
  assumes "storable wb" and "wf_entries wb"
  shows "\<forall>(f, m) \<in> set (b_entries wb). fits f \<and> fits m \<and> qmap_wf m \<and>
      (\<forall>(k, e) \<in> set m. fits k \<and> fits (e_value e) \<and> e_key e = k \<and>
         (e_type e = Password \<or> e_type e = Stream \<or> e_type e = Map))"
proof -
  have wf: "qmap_wf (b_entries wb)" using assms(2) by (simp add: wf_entries_def)
  then have "distinct (map fst (b_entries wb))"
    by (simp add: qmap_wf_def strict_sorted_iff)
  then have "qmap_wf m" if "(f, m) \<in> set (b_entries wb)" for f m
    using that assms(2) by (simp add: wf_entries_def qmap_find_def)
  then show ?thesis using assms(1) by (fastforce simp: storable_def)
qed

lemma data_stream_back:
  assumes "stream_laws h" and "storable wb" and "wf_entries wb"
  shows "read_folders h (data_stream h (b_entries wb)) [] = Some (b_entries wb)"
  using read_folders_stream [OF assms(1) storable_folders [OF assms(2,3)], of "[]"] assms(3)
  by (simp add: wf_entries_def)

lemma hashes_stream_back:
  assumes "stream_laws h" and "md5_laws h" and "storable wb"
  shows "read_hashes h (length (b_entries wb)) (concat (map (folder_hashes h) (b_entries wb)) @ r) Map.empty =
     (Some (digest_table h (b_entries wb), r), digest_table h (b_entries wb))"
  unfolding digest_table_def using assms(3)
  by (intro read_hashes_stream [OF assms(1,2)]) (auto simp: storable_def)

lemma read_written:
  assumes laws: "stream_laws h" "md5_laws h" and wb: "storable wb" "wf_entries wb"
    and small: "length (data_stream h (b_entries wb)) < 2 ^ 29"
    and wb': "b_entries wb' = []" "b_passhash wb' = b_passhash wb"
    and ct: "length ct = length (whole_file h (data_stream h (b_entries wb)))"
      "CBC_decrypt BlowFish_vt (snd (CBC_setKey BlowFish_vt (CBC_new BlowFish_vt (Some fresh_blowfish) False)
        (b_passhash wb) (int (length (b_passhash wb)) * 8))) ct =
       Ret (int (length ct), whole_file h (data_stream h (b_entries wb)), d)"
  shows "BlowfishPersist_read h False wb' (hashes_stream h (b_entries wb) @ ct) =
    Ret (0, wb'\<lparr>b_cipherType := CIPHER_BLOWFISH, b_hashes := digest_table h (b_entries wb),
      b_entries := b_entries wb, b_open := True\<rparr>)"
proof -
  have n: "unat (of_nat (length (b_entries wb)) :: u32) = length (b_entries wb)"
    "\<not> (0xffff :: u32) < of_nat (length (b_entries wb))"
    using wb(1) by (simp_all add: storable_def unat_of_nat word_less_nat_alt)
  have m: "length ct mod 8 = 0" using length_whole_file(1) [OF small] ct(1) by simp
  obtain keyed c where k: "CBC_setKey BlowFish_vt (CBC_new BlowFish_vt (Some fresh_blowfish) False)
        (b_passhash wb) (int (length (b_passhash wb)) * 8) = (keyed, c)" by fastforce
  show ?thesis
    unfolding BlowfishPersist_read_def hashes_stream_def append.assoc get_put_u32 [OF laws(1)] Let_def
      prod.case n if_False hashes_stream_back [OF laws wb(1)] option.case
    using ct(2) m k n(2) open_whole_file [OF small] data_stream_back [OF laws(1) wb] wb'
    by simp
qed

section \<open>Properties\<close>

text \<open>C5. A wallet that is written to a file is read back from it unchanged by a wallet object with
  the same key: every folder and entry with its type and value, in order, and the digest table;
  the object is then open.  When the cipher refuses the key as weak, nothing is written.\<close>

theorem file_roundtrip:
  assumes "stream_laws h" "md5_laws h" "\<forall>n. fullWrite h (sf_path sf) n" "mayCommit h (sf_path sf)"
    and "b_cipherType wb = CIPHER_BLOWFISH" "storable wb" "wf_entries wb"
    and "length (data_stream h (b_entries wb)) < 2 ^ 29"
    and "b_entries wb' = []" "b_passhash wb' = b_passhash wb"
  shows "\<exists>ct. BlowfishPersist_write h wb sf version fs =
      (if key_accepted (b_passhash wb)
       then Ret (0, fs(sf_path sf \<mapsto> sf_data sf @ file_version wb version @ hashes_stream h (b_entries wb) @ ct))
       else Ret (-2, fs)) \<and>
    (key_accepted (b_passhash wb) \<longrightarrow>
      BlowfishPersist_read h False wb' (hashes_stream h (b_entries wb) @ ct) =
        Ret (0, wb'\<lparr>b_cipherType := CIPHER_BLOWFISH, b_hashes := digest_table h (b_entries wb),
          b_entries := b_entries wb, b_open := True\<rparr>))"
proof (cases "key_accepted (b_passhash wb)")
  case False
  with write_refused [OF assms(5,3)] show ?thesis by simp
next
  case True
  obtain ct d where ct: "BlowfishPersist_write h wb sf version fs = Ret (0, fs(sf_path sf \<mapsto>
       sf_data sf @ file_version wb version @ hashes_stream h (b_entries wb) @ ct))"
    "length ct = length (whole_file h (data_stream h (b_entries wb)))"
    "CBC_decrypt BlowFish_vt (snd (CBC_setKey BlowFish_vt (CBC_new BlowFish_vt (Some fresh_blowfish) False)
        (b_passhash wb) (int (length (b_passhash wb)) * 8))) ct =
       Ret (int (length ct), whole_file h (data_stream h (b_entries wb)), d)"
    using assms(5,3,4,8) True by (rule write_accepted)
  from read_written [OF assms(1,2,6,7,8,9,10) ct(2,3)] ct(1) True show ?thesis by auto
qed

definition stored_wallet :: backend where
  "stored_wallet = \<lparr>b_name = qs ''w'', b_path = qs ''/w/w.kwl'', b_open = True, b_useNewHash = True,
     b_folder = [], b_ref = 0,
     b_entries = [(qs ''f'', [(qs ''k'', \<lparr>e_key = qs ''k'', e_value = [1, 2], e_type = Password\<rparr>)])],
     b_hashes = Map.empty, b_passhash = zeros 20, b_newPassHash = [], b_cipherType = CIPHER_BLOWFISH,
     b_gpgKey = None\<rparr>"

lemma stored_wallet_ok:
  "storable stored_wallet" "wf_entries stored_wallet" "b_cipherType stored_wallet = CIPHER_BLOWFISH"
  by (simp_all add: stored_wallet_def storable_def wf_entries_def qmap_wf_def qmap_find_def fits_def)

lemma stored_wallet_small: "length (data_stream example_host (b_entries stored_wallet)) < 2 ^ 29"
  by (simp add: stored_wallet_def data_stream_def folder_data_def entry_data_def example_host_def put_list_def qs_def)

theorem file_roundtrip_witness:
  "\<exists>ct. BlowfishPersist_write example_host stored_wallet \<lparr>sf_path = qs ''p'', sf_data = []\<rparr> [0, 1, 0, 0] Map.empty =
      (if key_accepted (zeros 20)
       then Ret (0, [qs ''p'' \<mapsto> [0, 1, 3, 2] @ hashes_stream example_host (b_entries stored_wallet) @ ct])
       else Ret (-2, Map.empty))"
proof -
  have "\<forall>n. fullWrite example_host p n" "mayCommit example_host p" for p
    by (simp_all add: example_host_def)
  from file_roundtrip [OF stream_laws_example md5_laws_example this stored_wallet_ok(3,1,2) stored_wallet_small,
      of "stored_wallet\<lparr>b_entries := []\<rparr>" "\<lparr>sf_path = qs ''p'', sf_data = []\<rparr>" "[0, 1, 0, 0]" Map.empty]
  show ?thesis by (auto simp: stored_wallet_def file_version_def)
qed

text \<open>Writing returns 0, -2 (no key) or -4 (a failed write or commit), is always defined for a
  Blowfish wallet, and leaves every file as it was unless it returns 0; then only the wallet's own
  file is replaced.\<close>

theorem write_is_atomic:
  assumes "b_cipherType wb = CIPHER_BLOWFISH" and "length (data_stream h (b_entries wb)) < 2 ^ 29"
  shows "\<exists>rc fs'. BlowfishPersist_write h wb sf version fs = Ret (rc, fs') \<and> rc \<in> {0, -2, -4} \<and>
    (rc \<noteq> 0 \<longrightarrow> fs' = fs) \<and> (\<forall>p. p \<noteq> sf_path sf \<longrightarrow> fs' p = fs p)"
proof -
  let ?w = "whole_file h (data_stream h (b_entries wb))"
  let ?c = "snd (BlowFish_setKey fresh_blowfish (b_passhash wb) (int (length (b_passhash wb)) * 8))"
  have "int (length ?w) mod 8 = 0" using length_whole_file(1) [OF assms(2), of h] by presburger
  then obtain ct s where ct: "key_accepted (b_passhash wb) \<longrightarrow>
      CBC_encrypt BlowFish_vt (CBC_new BlowFish_vt (Some ?c) False) ?w = Ret (8, ct, s)"
    using bf.cbc_roundtrip [of ?c ?w False] length_whole_file(2) [OF assms(2)]
    by (fastforce simp: key_accepted_def dest: setKey_ready)
  show ?thesis
  proof (cases "key_accepted (b_passhash wb)")
    case True
    with ct assms(1) show ?thesis
      by (auto simp: BlowfishPersist_write_def CBC_setKey_new key_accepted_def sf_write_def sf_commit_def Let_def)
  next
    case False
    with assms(1) show ?thesis
      by (auto simp: BlowfishPersist_write_def CBC_setKey_new key_accepted_def sf_write_def Let_def)
  qed
qed

theorem write_is_atomic_witness:
  "\<exists>rc fs'. BlowfishPersist_write example_host stored_wallet \<lparr>sf_path = qs ''p'', sf_data = []\<rparr> [0, 1, 0, 0]
     [qs ''q'' \<mapsto> [7]] = Ret (rc, fs') \<and> fs' (qs ''q'') = Some [7]"
proof -
  let ?fs = "[qs ''q'' \<mapsto> [7]]" and ?sf = "\<lparr>sf_path = qs ''p'', sf_data = []\<rparr>"
  obtain rc fs' where w: "BlowfishPersist_write example_host stored_wallet ?sf [0, 1, 0, 0] ?fs = Ret (rc, fs')"
    "\<forall>p. p \<noteq> sf_path ?sf \<longrightarrow> fs' p = ?fs p"
    using write_is_atomic [OF stored_wallet_ok(3) stored_wallet_small, of ?sf "[0, 1, 0, 0]" ?fs] by auto
  from w(2) have "fs' (qs ''q'') = Some [7]" by (simp add: qs_def)
  with w(1) show ?thesis by blast
qed

text \<open>In chained mode the reader returns only 0, -5, -8, -9 or -43: never -6, because a cipher that
  refused the key makes the decryption report 0 bytes, not -1.  On an error the wallet object keeps
  its entries, its open flag and, in spite of what the comment of \<open>Backend::open\<close> says, its password
  hash; on success it is open.\<close>

theorem read_outcomes:
  assumes "BlowfishPersist_read h False wb db = Ret (rc, wb')"
  shows "rc \<in> {0, -5, -8, -9, -43} \<and> b_passhash wb' = b_passhash wb \<and>
    (if rc = 0 then b_open wb' else b_open wb' = b_open wb \<and> b_entries wb' = b_entries wb)"
proof -
  let ?c = "snd (BlowFish_setKey fresh_blowfish (b_passhash wb) (int (length (b_passhash wb)) * 8))"
  have total: "\<exists>rc out s. CBC_decrypt BlowFish_vt (CBC_new BlowFish_vt (Some ?c) False) e = Ret (rc, out, s) \<and> \<not> rc < 0"
    if "length e mod 8 = 0" for e
  proof -
    have "int (length e) mod 8 = 0" using that by presburger
    then show ?thesis using bf.cbc_decrypt_total [of ?c e] by auto
  qed
  obtain n s where n: "get_u32 h db = (n, s)" by fastforce
  obtain res hm where r: "read_hashes h (unat n) s Map.empty = (res, hm)" by fastforce
  show ?thesis
  proof (cases "0xffff < n \<or> res = None \<or> (\<exists>hm' e. res = Some (hm', e) \<and> length e mod 8 \<noteq> 0)")
    case True
    with assms n r show ?thesis
      by (auto simp: BlowfishPersist_read_def Let_def split: if_splits option.splits)
  next
    case False
    then obtain hm' e where e: "\<not> 0xffff < n" "res = Some (hm', e)" "length e mod 8 = 0"
      by (cases res) auto
    from total [OF e(3)] obtain k out st where
      "CBC_decrypt BlowFish_vt (CBC_new BlowFish_vt (Some ?c) False) e = Ret (k, out, st)" "\<not> k < 0" by blast
    with assms n r e show ?thesis
      by (auto simp: BlowfishPersist_read_def CBC_setKey_new Let_def open_block_def
          split: if_splits option.splits)
  qed
qed

theorem read_outcomes_witness:
  "fst (case BlowfishPersist_read example_host False stored_wallet [0, 1, 0, 0] of Ret r \<Rightarrow> r) = -43"
proof -
  have "BlowfishPersist_read example_host False stored_wallet [0, 1, 0, 0] =
      Ret (-43, stored_wallet\<lparr>b_cipherType := CIPHER_BLOWFISH, b_hashes := Map.empty\<rparr>)"
    by (simp add: BlowfishPersist_read_def example_host_def be32_get_def load32_def)
  with read_outcomes [OF this] show ?thesis by simp
qed

text \<open>A file whose digest table is followed by an encrypted block of fewer than 12 bytes is read
  out of range: the length field is taken from bytes 8 to 11 without a check.\<close>

theorem short_block_undefined:
  assumes "get_u32 h db = (n, s)" and "n \<le> 0xffff"
    and "read_hashes h (unat n) s Map.empty = (Some (hm, e), hm')"
    and "length e mod 8 = 0" and "length e < 12"
  shows "BlowfishPersist_read h False wb db = UB"
proof -
  let ?c = "snd (BlowFish_setKey fresh_blowfish (b_passhash wb) (int (length (b_passhash wb)) * 8))"
  have "int (length e) mod 8 = 0" using assms(4) by presburger
  then obtain rc out st where "CBC_decrypt BlowFish_vt (CBC_new BlowFish_vt (Some ?c) False) e = Ret (rc, out, st)"
    "\<not> rc < 0" "length out = length e"
    using bf.cbc_decrypt_total [of ?c e] by auto
  then show ?thesis
    using assms by (simp add: BlowfishPersist_read_def CBC_setKey_new open_block_def not_less Let_def)
qed

theorem short_block_undefined_witness:
  "BlowfishPersist_read example_host False stored_wallet [0, 0, 0, 0] = UB"
  by (rule short_block_undefined [of _ _ 0 "[]" Map.empty "[]" Map.empty])
    (simp_all add: example_host_def be32_get_def load32_def)

text \<open>The streams of Qt: a read never gives bytes back, and takes some from a stream that has any.\<close>

definition progress_laws :: "host \<Rightarrow> bool" where
  "progress_laws h \<longleftrightarrow>
     (\<forall>s. length (snd (get_u32 h s)) \<le> length s) \<and> (\<forall>s. length (snd (get_ba h s)) \<le> length s) \<and>
     (\<forall>s. length (snd (get_str h s)) \<le> length s) \<and>
     (\<forall>s. s \<noteq> [] \<longrightarrow> length (snd (get_str h s)) < length s)"

lemma progress_laws_example: "progress_laws example_host"
  by (auto simp: progress_laws_def example_host_def be32_get_def)

lemma read_entries_progress:
  assumes "progress_laws h"
  shows "length (snd (read_entries h f n s em)) \<le> length s"
proof (induction n arbitrary: s em)
  case 0
  then show ?case by simp
next
  case (Suc n)
  obtain key s1 where 1: "get_str h s = (key, s1)" by fastforce
  obtain x s2 where 2: "get_u32 h s1 = (x, s2)" by fastforce
  obtain a s3 where 3: "get_ba h s2 = (a, s3)" by fastforce
  have "length s1 \<le> length s" "length s2 \<le> length s1" "length s3 \<le> length s2"
    using assms 1 2 3 unfolding progress_laws_def by (metis snd_conv)+
  then show ?case
    using order_trans [OF Suc.IH [of s3]] order_trans [OF Suc.IH [of s2]]
    by (simp add: 1 2 3 Let_def)
qed

lemma read_folders_total:
  assumes "progress_laws h"
  shows "\<exists>em'. read_folders h s em = Some em'"
proof (induction "length s" arbitrary: s em rule: less_induct)
  case less
  show ?case
  proof (cases "s = []")
    case True
    then show ?thesis by (simp add: read_folders.simps)
  next
    case False
    obtain f s1 where 1: "get_str h s = (f, s1)" by fastforce
    obtain n s2 where 2: "get_u32 h s1 = (n, s2)" by fastforce
    obtain em3 s3 where 3: "read_entries h f (unat n) s2 (qmap_insert f [] em) = (em3, s3)" by fastforce
    have "length s1 < length s" "length s2 \<le> length s1"
      using assms 1 2 False unfolding progress_laws_def by (metis snd_conv)+
    moreover have "length s3 \<le> length s2" using read_entries_progress [OF assms] 3 by (metis snd_conv)
    ultimately have "length s3 < length s" by simp
    from less [OF this, of em3] show ?thesis
      using False 1 2 3 by (simp add: read_folders.simps [of h s])
  qed
qed

text \<open>The part of a file after the digest table, when the table can be read.\<close>

definition encrypted_part :: "host \<Rightarrow> bytes \<Rightarrow> bytes option" where
  "encrypted_part h db =
     (let (n, s) = get_u32 h db in if 0xffff < n then None else map_option snd (fst (read_hashes h (unat n) s Map.empty)))"

lemma reader_decrypts:
  assumes "length e mod 8 = 0"
  shows "\<exists>rc out st. CBC_decrypt BlowFish_vt (CBC_new BlowFish_vt (Some c) ecb) e = Ret (rc, out, st) \<and> length out = length e"
proof (cases ecb)
  case True
  then show ?thesis using assms decrypt_ready_length(2) [of c e]
    by (cases "m_initialized c")
      (auto simp: CBC_decrypt_def CBC_decryptECB_def CBC_new_def BlowFish_vt_def BlowFish_decrypt_def Let_def)
next
  case False
  have "int (length e) mod 8 = 0" using assms by presburger
  then show ?thesis using bf.cbc_decrypt_total [of c e] False by auto
qed

lemma open_block_returns: "20 \<le> length d \<Longrightarrow> \<exists>r. open_block h d = Ret r"
  by (simp add: open_block_def Let_def)

text \<open>C35. The reader returns, in both modes, with a result code and a wallet, on every file in which the part after the digest
  table has at least 20 bytes or is not made of whole blocks, and on every file whose table cannot be read.  On the other
  files, which are short of the 20 bytes of the digest, it may read out of range and is then undefined, but it never runs
  forever: none of its loops does, whatever the bytes are.\<close>

theorem read_terminates:
  assumes "progress_laws h"
  shows "BlowfishPersist_read h useECB wb db \<noteq> Diverge \<and>
    ((\<forall>e. encrypted_part h db = Some e \<longrightarrow> 20 \<le> length e \<or> length e mod 8 \<noteq> 0) \<longrightarrow>
      (\<exists>rc wb'. BlowfishPersist_read h useECB wb db = Ret (rc, wb')))"
proof
  have c: "CBC_decrypt BlowFish_vt s b \<noteq> Diverge" for s b
    by (auto simp: CBC_decrypt_def CBC_decryptECB_def Let_def split: option.splits prod.splits if_splits)
  have o: "open_block h d \<noteq> Diverge" for d
    by (simp add: open_block_def Let_def)
  have rf: "read_folders h s em \<noteq> None" for s em
    using read_folders_total [OF assms, of s em] by blast
  show "BlowfishPersist_read h useECB wb db \<noteq> Diverge"
    unfolding BlowfishPersist_read_def Let_def
    by (auto simp: run_bind_Diverge_iff c o rf split: prod.splits option.splits sum.splits if_splits)
  show "(\<forall>e. encrypted_part h db = Some e \<longrightarrow> 20 \<le> length e \<or> length e mod 8 \<noteq> 0) \<longrightarrow>
      (\<exists>rc wb'. BlowfishPersist_read h useECB wb db = Ret (rc, wb'))"
  proof
    assume long: "\<forall>e. encrypted_part h db = Some e \<longrightarrow> 20 \<le> length e \<or> length e mod 8 \<noteq> 0"
    obtain n s where n: "get_u32 h db = (n, s)" by fastforce
    obtain res hm where r: "read_hashes h (unat n) s Map.empty = (res, hm)" by fastforce
    show "\<exists>rc wb'. BlowfishPersist_read h useECB wb db = Ret (rc, wb')"
    proof (cases "0xffff < n \<or> res = None \<or> (\<exists>hm' e. res = Some (hm', e) \<and> length e mod 8 \<noteq> 0)")
      case True
      then show ?thesis using n r
        by (auto simp: BlowfishPersist_read_def Let_def split: option.splits)
    next
      case False
      then obtain hm' e where e: "\<not> 0xffff < n" "res = Some (hm', e)" "length e mod 8 = 0" by (cases res) auto
      then have "20 \<le> length e" using long n r by (simp add: encrypted_part_def)
      moreover obtain rc out st where "CBC_decrypt BlowFish_vt (CBC_new BlowFish_vt (Some (snd (BlowFish_setKey fresh_blowfish
          (b_passhash wb) (int (length (b_passhash wb)) * 8)))) useECB) e = Ret (rc, out, st)" "length out = length e"
        using reader_decrypts [OF e(3)] by blast
      moreover obtain x where "open_block h out = Ret x" using open_block_returns calculation by metis
      ultimately show ?thesis using n r e
        by (auto simp: BlowfishPersist_read_def CBC_setKey_new Let_def rf split: sum.split option.split)
    qed
  qed
qed

text \<open>A file with an empty digest table and three blocks, which are not a wallet.\<close>

theorem read_terminates_witness: "\<exists>rc wb. BlowfishPersist_read example_host True stored_wallet (zeros 28) = Ret (rc, wb)"
proof -
  have "encrypted_part example_host (zeros 28) = Some (zeros 24)"
    by (simp add: encrypted_part_def example_host_def be32_get_def load32_def zeros_def numeral_eq_Suc)
  then show ?thesis using read_terminates [OF progress_laws_example, of True stored_wallet "zeros 28"] by simp
qed

text \<open>An entry whose type is none of password, stream and map is dropped without its value being
  taken from the stream, so the value's bytes are read as the next entry.\<close>

theorem unknown_type_desync:
  assumes "stream_laws h" and "fits k" and "t \<noteq> Password" "t \<noteq> Stream" "t \<noteq> Map"
  shows "read_entries h f (Suc n) (entry_data h (k, \<lparr>e_key = k, e_value = v, e_type = t\<rparr>) @ r) em =
    read_entries h f n (put_ba h v @ r) em"
  using assms by (simp add: entry_data_def stream_simps)

theorem unknown_type_desync_witness:
  "read_entries example_host (qs ''f'') 1
     (entry_data example_host (qs ''k'', \<lparr>e_key = qs ''k'', e_value = [9], e_type = Unknown\<rparr>)) [] =
   ([], [0, 0, 0, 1, 9])"
  using unknown_type_desync [OF stream_laws_example, of "qs ''k''" Unknown "qs ''f''" 0 "[9]" "[]" "[]"]
  by (simp add: entry_type_defs fits_def example_host_def put_list_def be32_def store32_def)

section \<open>The digest table in the file\<close>

lemma foldl_add_folder:
  "foldl (add_folder h) hm em =
     hm ++ map_of (rev (map (\<lambda>(f, m). (raw_digest h f, map (\<lambda>(k, e). raw_digest h k) m)) em))"
proof (induction em arbitrary: hm)
  case (Cons fm em)
  obtain f m where fm: "fm = (f, m)" by fastforce
  have "add_folder h hm fm = hm(raw_digest h f \<mapsto> map (\<lambda>(k, e). raw_digest h k) m)"
    by (simp add: fm add_folder_def)
  with Cons [of "add_folder h hm fm"] show ?case by (simp add: fm del: fun_upd_apply)
qed simp

lemma digest_table_coherent:
  assumes "md5_laws h" "wf_entries b" and inj: "inj_on (name_digest h) (names b)"
  shows "coherent h (b\<lparr>b_hashes := digest_table h (b_entries b)\<rparr>)"
proof -
  let ?t = "map (\<lambda>(f, m). (name_digest h f, map (\<lambda>(k, e). name_digest h k) m)) (b_entries b)"
  let ?hm = "digest_table h (b_entries b)"
  have hm: "?hm = map_of (rev ?t)"
    by (simp add: digest_table_def foldl_add_folder raw_digest_name [OF assms(1)])
  have wf: "distinct (map fst (b_entries b))"
    using assms(2) by (simp add: wf_entries_def qmap_wf_def strict_sorted_iff)
  have dom: "dom (content b) = fst ` set (b_entries b)"
    by (auto simp: content_def qmap_find_def dom_map_of_conv_image_fst [symmetric])
  have "inj_on (name_digest h) (set (map fst (b_entries b)))"
    using inj by (rule inj_on_subset) (simp add: names_def dom)
  then have "distinct (map (name_digest h) (map fst (b_entries b)))"
    using wf by (simp only: distinct_map)
  moreover have "map fst (rev ?t) = rev (map (name_digest h) (map fst (b_entries b)))"
    by (simp add: rev_map comp_def split_beta)
  ultimately have dist: "distinct (map fst (rev ?t))" by (simp only: distinct_rev)
  show "coherent h (b\<lparr>b_hashes := ?hm\<rparr>)"
    unfolding coherent_def
  proof (intro conjI allI impI)
    fix d
    have "dom ?hm = name_digest h ` dom (content b)"
      unfolding hm dom_map_of_conv_image_fst dom by (force simp: image_image split_beta)
    then show "(b_hashes (b\<lparr>b_hashes := ?hm\<rparr>) d \<noteq> None) =
        (d \<in> name_digest h ` dom (content (b\<lparr>b_hashes := ?hm\<rparr>)))"
      using domIff [of d ?hm] by simp
  next
    fix f m l
    assume a: "content (b\<lparr>b_hashes := ?hm\<rparr>) f = Some m \<and> b_hashes (b\<lparr>b_hashes := ?hm\<rparr>) (name_digest h f) = Some l"
    then obtain m0 where m0: "(f, m0) \<in> set (b_entries b)" "m = qmap_find m0"
      by (auto simp: content_def qmap_find_def dest: map_of_SomeD)
    then have "(name_digest h f, map (\<lambda>(k, e). name_digest h k) m0) \<in> set (rev ?t)" by force
    with dist have "?hm (name_digest h f) = Some (map (\<lambda>(k, e). name_digest h k) m0)"
      unfolding hm by (rule map_of_is_SomeI)
    with a have "l = map (\<lambda>(k, e). name_digest h k) m0" by simp
    moreover have "qmap_find m0 = map_of m0" by (simp add: qmap_find_def fun_eq_iff)
    ultimately show "set l = name_digest h ` dom m"
      by (simp add: m0(2) dom_map_of_conv_image_fst image_image split_beta)
  qed
qed

text \<open>The digest table that a file holds in the clear answers as the wallet's content does, for
  names whose digests differ: reading it alone, without the key, gives a coherent table.\<close>

theorem clear_table_coherent:
  assumes "stream_laws h" "md5_laws h" "storable b" "wf_entries b" and inj: "inj_on (name_digest h) (names b)"
  shows "\<exists>hm. read_hashes h (length (b_entries b)) (drop 4 (hashes_stream h (b_entries b)) @ r) Map.empty =
      (Some (hm, r), hm) \<and> coherent h (b\<lparr>b_hashes := hm\<rparr>)"
proof -
  have "drop 4 (hashes_stream h (b_entries b)) = concat (map (folder_hashes h) (b_entries b))"
    using assms(1) by (simp add: hashes_stream_def stream_simps)
  with hashes_stream_back [OF assms(1,2,3)] digest_table_coherent [OF assms(2,4,5)] show ?thesis by auto
qed

theorem clear_table_coherent_witness:
  "\<exists>hm. read_hashes example_host 1 (drop 4 (hashes_stream example_host (b_entries stored_wallet)) @ [5]) Map.empty =
      (Some (hm, [5]), hm) \<and> \<not> Backend_folderDoesNotExist example_host (stored_wallet\<lparr>b_hashes := hm\<rparr>) (qs ''f'')"
proof -
  have c: "content stored_wallet = [qs ''f'' \<mapsto> [qs ''k'' \<mapsto> \<lparr>e_key = qs ''k'', e_value = [1, 2], e_type = Password\<rparr>]]"
    by (auto simp: content_def stored_wallet_def qmap_find_def fun_eq_iff)
  have "names stored_wallet \<subseteq> {qs ''f'', qs ''k''}" unfolding names_def c by (auto split: if_splits)
  moreover have "inj_on (name_digest example_host) {qs ''f'', qs ''k''}"
    by (simp add: name_digest_def example_host_def qs_def zeros_def)
  ultimately have inj: "inj_on (name_digest example_host) (names stored_wallet)" by (rule inj_on_subset [rotated])
  obtain hm where hm: "read_hashes example_host (length (b_entries stored_wallet))
      (drop 4 (hashes_stream example_host (b_entries stored_wallet)) @ [5]) Map.empty = (Some (hm, [5]), hm)"
      "coherent example_host (stored_wallet\<lparr>b_hashes := hm\<rparr>)"
    using clear_table_coherent [OF stream_laws_example md5_laws_example stored_wallet_ok(1,2) inj] by blast
  have "length (b_entries stored_wallet) = 1" by (simp add: stored_wallet_def)
  with hm coherent_dom [OF hm(2), of "name_digest example_host (qs ''f'')"] show ?thesis
    by (auto simp: Backend_folderDoesNotExist_def c)
qed

end
