(* ===== verification/GpgPersist.thy ===== *)
theory GpgPersist
  imports PersistProps
begin

text \<open>
  The GPG file format: \<open>GpgPersistHandler\<close> of
  src/runtime/kwalletbackend/backendpersisthandler.cpp.  After the magic and the version the rest
  of the file is one GPG message; its plain text is the key's ID, the digest table and the data,
  each as one length-prefixed item.  The streams inside are those of the Blowfish format, but the
  reader's loops count the folders instead of testing for the end of the stream.

  GpgME is a parameter (the \<open>gpg\<close> fields of the host).  A key is known by its ID; \<open>None\<close> is the
  null key.  The dialogs of the error paths have no effect on the state, except the one that
  offers another attempt, whose answers are \<open>gpgRetry\<close>.
\<close>

text \<open>The library is checked at the first call only; later calls report no error whatever it found.\<close>

definition initGpgME :: "host \<Rightarrow> bool" where
  "initGpgME h = (if \<not> gpgInitialized h then \<not> gpgEngine h else False)"

definition gpg_plain :: "host \<Rightarrow> backend \<Rightarrow> bytes" where
  "gpg_plain h wb =
     put_str h (case b_gpgKey wb of None \<Rightarrow> [] | Some k \<Rightarrow> k) @ put_ba h (hashes_stream h (b_entries wb)) @
     put_ba h (data_stream h (b_entries wb))"

text \<open>The message is copied to the file in pieces of 4096 bytes.\<close>

fun write_pieces :: "host \<Rightarrow> bytes list \<Rightarrow> savefile \<Rightarrow> bool \<times> savefile" where
  "write_pieces h [] sf = (True, sf)"
| "write_pieces h (b # bs) sf =
     (let (ok, sf) = sf_write h b sf in if \<not> ok then (False, sf) else write_pieces h bs sf)"

function pieces :: "nat \<Rightarrow> bytes \<Rightarrow> bytes list" where
  "pieces n b = (if n = 0 \<or> b = [] then [] else take n b # pieces n (drop n b))"
  by pat_completeness auto
termination
  by (relation "measure (\<lambda>(n, b). length b)") auto

declare pieces.simps [simp del]

definition GpgPersist_write :: "host \<Rightarrow> backend \<Rightarrow> savefile \<Rightarrow> bytes \<Rightarrow> files \<Rightarrow> (int \<times> files) run" where
  "GpgPersist_write h wb sf version fs =
     (let version = version[2 := 2, 3 := 0]; (ok, sf) = sf_write h version sf in
      if \<not> ok then Ret (-4, fs)
      else if initGpgME h then Ret (-5, fs)
      else if \<not> gpgContext h then Ret (-6, fs)
      else if b_cipherType wb \<noteq> CIPHER_GPG then UB
      else
        case gpgEncrypt h (b_gpgKey wb) (gpg_plain h wb) of
          None \<Rightarrow> Ret (-7, fs)
        | Some ct \<Rightarrow>
            let (ok, sf) = write_pieces h (pieces 4096 ct) sf in
            if \<not> ok then Ret (-4, fs)
            else
              let (ok, fs) = sf_commit h sf fs in
              if \<not> ok then Ret (-4, fs) else Ret (0, fs))"

text \<open>Decryption is tried until it succeeds or the user gives up.\<close>

partial_function (option) gpg_decrypt_loop :: "host \<Rightarrow> nat \<Rightarrow> bytes \<Rightarrow> bytes option option" where
  "gpg_decrypt_loop h n ct =
     (case gpgDecrypt h n ct of
        Some pt \<Rightarrow> Some (Some pt)
      | None \<Rightarrow> if gpgRetry h n then gpg_decrypt_loop h (n + 1) ct else Some None)"

fun gpg_read_hashes :: "host \<Rightarrow> nat \<Rightarrow> bytes \<Rightarrow> hash_map \<Rightarrow> hash_map" where
  "gpg_read_hashes h 0 s hm = hm"
| "gpg_read_hashes h (Suc n) s hm =
     (let (d, s) = read_raw16 h s; (fsz, s) = get_u32 h s; (ds, s) = read_digests h (unat fsz) s
      in gpg_read_hashes h n s (hm(d \<mapsto> ds)))"

fun gpg_read_folders :: "host \<Rightarrow> nat \<Rightarrow> bytes \<Rightarrow> folder_map \<Rightarrow> folder_map" where
  "gpg_read_folders h 0 s em = em"
| "gpg_read_folders h (Suc n) s em =
     (let (folder, s) = get_str h s; (k, s) = get_u32 h s;
          (em, s) = read_entries h folder (unat k) s (qmap_insert folder [] em)
      in gpg_read_folders h n s em)"

definition GpgPersist_read :: "host \<Rightarrow> backend \<Rightarrow> bytes \<Rightarrow> (int \<times> backend) run" where
  "GpgPersist_read h wb db =
     (if initGpgME h then Ret (-1, wb)
      else
        let wb = wb\<lparr>b_cipherType := CIPHER_GPG, b_hashes := Map.empty\<rparr> in
        if \<not> gpgContext h then Ret (-1, wb)
        else
          case gpg_decrypt_loop h 0 db of
            None \<Rightarrow> Diverge
          | Some None \<Rightarrow> Ret (-1, wb)
          | Some (Some plain) \<Rightarrow>
              let (keyID, s) = get_str h plain; (hashes, s) = get_ba h s; (values, s) = get_ba h s;
                  wb = (if keyID \<in> set (gpgKeys h) then wb\<lparr>b_gpgKey := Some keyID\<rparr> else wb)
              in if b_gpgKey wb = None then Ret (-1, wb)
                 else
                   let (n, hs) = get_u32 h hashes in
                   if 0xFFFF < n then Ret (-43, wb)
                   else Ret (0, wb\<lparr>b_hashes := gpg_read_hashes h (unat n) hs (b_hashes wb),
                                   b_entries := gpg_read_folders h (unat n) values (b_entries wb),
                                   b_open := True\<rparr>))"

section \<open>Reading back\<close>

lemma concat_pieces: "0 < n \<Longrightarrow> concat (pieces n b) = b"
proof (induction n b rule: pieces.induct)
  case (1 n b)
  show ?case
  proof (cases "b = []")
    case True
    then show ?thesis by (simp add: pieces.simps)
  next
    case False
    then have "pieces n b = take n b # pieces n (drop n b)" using "1.prems" by (simp add: pieces.simps [of n b])
    with "1.IH" "1.prems" False show ?thesis by simp
  qed
qed

lemma write_pieces_full:
  "\<forall>n. fullWrite h (sf_path sf) n \<Longrightarrow> write_pieces h bs sf = (True, sf\<lparr>sf_data := sf_data sf @ concat bs\<rparr>)"
  by (induction bs arbitrary: sf) (simp_all add: sf_write_def)

lemma gpg_read_hashes_eq:
  assumes "read_hashes h n s hm = (Some (hm', s'), hm'')"
  shows "gpg_read_hashes h n s hm = hm'"
  using assms by (induction n arbitrary: s hm) (auto split: if_splits prod.splits)

lemma gpg_read_folders_stream:
  assumes "stream_laws h"
    and "\<forall>(f, m) \<in> set em. fits f \<and> fits m \<and> qmap_wf m \<and>
        (\<forall>(k, e) \<in> set m. fits k \<and> fits (e_value e) \<and> e_key e = k \<and>
           (e_type e = Password \<or> e_type e = Stream \<or> e_type e = Map))"
    and "qmap_wf (acc @ em)"
  shows "gpg_read_folders h (length em) (data_stream h em) acc = acc @ em"
  using assms(2,3)
proof (induction em arbitrary: acc)
  case Nil
  then show ?case by simp
next
  case (Cons fm em)
  obtain f m where fm: "fm = (f, m)" by fastforce
  have m: "fits f" "fits m" "qmap_wf m" using Cons.prems fm by simp_all
  have n: "unat (of_nat (length m) :: u32) = length m" using m(2) by (rule unat_length)
  have lt: "\<forall>k' \<in> set (map fst acc). k' < f"
    using Cons.prems(2) unfolding fm qmap_wf_def by (auto simp: sorted_wrt_append)
  have ents: "read_entries h f (length m) (concat (map (entry_data h) m) @ data_stream h em) (acc @ [(f, [])]) =
      (acc @ [(f, m)], data_stream h em)"
    using read_entries_stream [OF assms(1), of m "[]" acc f "data_stream h em"] Cons.prems(1) m(3) lt
    by (simp add: fm)
  have s: "data_stream h (fm # em) =
      put_str h f @ put_u32 h (of_nat (length m)) @ concat (map (entry_data h) m) @ data_stream h em"
    by (simp add: data_stream_def fm folder_data_def)
  have "gpg_read_folders h (length (fm # em)) (data_stream h (fm # em)) acc =
      gpg_read_folders h (length em) (data_stream h em) (acc @ [(f, m)])"
    using ents m(1) n assms(1) lt by (simp add: s stream_simps qmap_insert_last)
  with Cons.IH [of "acc @ [(f, m)]"] Cons.prems show ?case by (simp add: fm)
qed

section \<open>Properties\<close>

text \<open>C27. A GPG wallet that is written is read back unchanged, with its key, by a wallet object
  without entries, provided GPG decrypts what it encrypted and the key is on the key ring.\<close>

theorem gpg_roundtrip:
  assumes "stream_laws h" "md5_laws h" "\<forall>n. fullWrite h (sf_path sf) n" "mayCommit h (sf_path sf)"
    and "gpgEngine h" "gpgContext h" "key \<in> set (gpgKeys h)" "fits key"
    and "b_cipherType wb = CIPHER_GPG" "b_gpgKey wb = Some key" "storable wb" "wf_entries wb"
    and "fits (hashes_stream h (b_entries wb))" "fits (data_stream h (b_entries wb))"
    and "gpgEncrypt h (Some key) (gpg_plain h wb) = Some ct" "gpgDecrypt h 0 ct = Some (gpg_plain h wb)"
    and "b_entries wb' = []"
  shows "GpgPersist_write h wb sf version fs =
      Ret (0, fs(sf_path sf \<mapsto> sf_data sf @ version[2 := 2, 3 := 0] @ ct)) \<and>
    GpgPersist_read h wb' ct =
      Ret (0, wb'\<lparr>b_cipherType := CIPHER_GPG, b_hashes := digest_table h (b_entries wb), b_gpgKey := Some key,
        b_entries := b_entries wb, b_open := True\<rparr>)"
proof
  have i: "\<not> initGpgME h" using assms(5) by (simp add: initGpgME_def)
  show "GpgPersist_write h wb sf version fs =
      Ret (0, fs(sf_path sf \<mapsto> sf_data sf @ version[2 := 2, 3 := 0] @ ct))"
    using assms(3,4,6,9,10,15) i
    by (simp add: GpgPersist_write_def sf_write_def write_pieces_full concat_pieces sf_commit_def)
  have n: "unat (of_nat (length (b_entries wb)) :: u32) = length (b_entries wb)"
    "\<not> (0xffff :: u32) < of_nat (length (b_entries wb))"
    using assms(11) by (simp_all add: storable_def unat_of_nat word_less_nat_alt)
  have "qmap_wf ([] @ b_entries wb)" using assms(12) by (simp add: wf_entries_def)
  then have fd: "gpg_read_folders h (length (b_entries wb)) (data_stream h (b_entries wb)) [] = b_entries wb"
    using gpg_read_folders_stream [OF assms(1) storable_folders [OF assms(11,12)], of "[]"] by simp
  have hd: "gpg_read_hashes h (length (b_entries wb)) (concat (map (folder_hashes h) (b_entries wb))) Map.empty =
      digest_table h (b_entries wb)"
    using gpg_read_hashes_eq [OF hashes_stream_back [OF assms(1,2,11), of "[]", simplified]] by simp
  have u: "get_u32 h (hashes_stream h (b_entries wb)) =
      (of_nat (length (b_entries wb)), concat (map (folder_hashes h) (b_entries wb)))"
    using assms(1) by (simp add: hashes_stream_def stream_simps)
  have b: "get_ba h (put_ba h v) = (v, [])" if "fits v" for v
    using get_put_ba [OF assms(1) that, of "[]"] by simp
  have d: "gpg_decrypt_loop h 0 ct = Some (Some (gpg_plain h wb))"
    using assms(16) by (simp add: gpg_decrypt_loop.simps)
  show "GpgPersist_read h wb' ct =
      Ret (0, wb'\<lparr>b_cipherType := CIPHER_GPG, b_hashes := digest_table h (b_entries wb), b_gpgKey := Some key,
        b_entries := b_entries wb, b_open := True\<rparr>)"
    using i assms(1,6,7,8,10,13,14,17) d n fd hd u b
    by (simp add: GpgPersist_read_def gpg_plain_def stream_simps)
qed

definition gpg_wallet :: backend where
  "gpg_wallet = stored_wallet\<lparr>b_cipherType := CIPHER_GPG, b_gpgKey := Some (qs ''key'')\<rparr>"

theorem gpg_roundtrip_witness:
  "\<exists>ct. GpgPersist_write example_host gpg_wallet \<lparr>sf_path = qs ''p'', sf_data = []\<rparr> [0, 1, 0, 0] Map.empty =
      Ret (0, [qs ''p'' \<mapsto> [0, 1, 2, 0] @ ct]) \<and>
    GpgPersist_read example_host (gpg_wallet\<lparr>b_entries := []\<rparr>) ct =
      Ret (0, gpg_wallet\<lparr>b_hashes := digest_table example_host (b_entries gpg_wallet)\<rparr>)"
proof -
  have e: "b_entries gpg_wallet = b_entries stored_wallet" by (simp add: gpg_wallet_def)
  have g: "storable gpg_wallet" "wf_entries gpg_wallet"
    using stored_wallet_ok by (simp_all add: gpg_wallet_def storable_def wf_entries_def)
  have l: "fits (hashes_stream example_host (b_entries stored_wallet))"
    by (simp add: fits_def hashes_stream_def folder_hashes_def stored_wallet_def
        length_raw_digest [OF md5_laws_example] length_put_u32 [OF stream_laws_example])
  have f: "fits (data_stream example_host (b_entries stored_wallet))"
    using stored_wallet_small by (simp add: fits_def)
  have io: "\<forall>n. fullWrite example_host p n" "mayCommit example_host p" for p by (simp_all add: example_host_def)
  have k: "gpgEngine example_host" "gpgContext example_host" "qs ''key'' \<in> set (gpgKeys example_host)"
    "fits (qs ''key'')" by (simp_all add: example_host_def fits_def)
  have c: "b_cipherType gpg_wallet = CIPHER_GPG" "b_gpgKey gpg_wallet = Some (qs ''key'')"
    by (simp_all add: gpg_wallet_def)
  have x: "gpgEncrypt example_host (Some (qs ''key'')) p = Some p" "gpgDecrypt example_host 0 p = Some p" for p
    by (simp_all add: example_host_def)
  have s: "(gpg_wallet\<lparr>b_entries := []\<rparr>)\<lparr>b_cipherType := CIPHER_GPG, b_hashes := t, b_gpgKey := Some (qs ''key''),
      b_entries := b_entries gpg_wallet, b_open := True\<rparr> = gpg_wallet\<lparr>b_hashes := t\<rparr>" for t
    by (simp add: gpg_wallet_def stored_wallet_def)
  show ?thesis
    using gpg_roundtrip [OF stream_laws_example md5_laws_example io k c g l [folded e] f [folded e] x,
        of "gpg_wallet\<lparr>b_entries := []\<rparr>" "\<lparr>sf_path = qs ''p'', sf_data = []\<rparr>" "[0, 1, 0, 0]" Map.empty]
    unfolding s by auto
qed

end
