(* ===== verification/BackendFile.thy ===== *)
theory BackendFile
  imports GpgPersist
begin

text \<open>
  The wallet and its files: opening, saving, closing and renaming, from
  src/runtime/kwalletbackend/kwalletbackend.cc.  The files of the save directory are a map from
  paths to contents that the operations take and return; the answers of the file system to the
  attempts to open, write, remove and rename files are those of the host.  A write that is not
  complete is taken to have written nothing.

  Result codes are the source's.  A wallet goes from closed to open by \<open>openInternal\<close>, which
  creates a missing file by saving the empty wallet and then reads the file through the handler
  that the version bytes select.
\<close>

section \<open>Names and paths\<close>

definition walletAllowedChars :: bytes where
  "walletAllowedChars = map of_char
     (''abcdefghijklmnopqrstuvwxyzABCDEFGHIJKLMNOPQRSTUVWXYZ0123456789^&'' @ [CHR 0x27, CHR 0x40] @
      ''{}[],$=!-#()%.+_'' @ [CHR 0x0D, CHR 0x0A, CHR 0x09, CHR 0x0C, CHR 0x0B] @ '' '')"

definition encodeWalletName :: "host \<Rightarrow> qstring \<Rightarrow> qstring" where
  "encodeWalletName h name = fromUtf8 h (toPercent h walletAllowedChars (of_char CHR '';'') (toUtf8 h name))"

definition decodeWalletName :: "host \<Rightarrow> qstring \<Rightarrow> qstring" where
  "decodeWalletName h encodedName = fromUtf8 h (fromPercent h (of_char CHR '';'') (toUtf8 h encodedName))"

definition wallet_path :: "host \<Rightarrow> qstring \<Rightarrow> qstring" where
  "wallet_path h name = saveLocation h @ qs ''/'' @ encodeWalletName h name @ qs ''.kwl''"

definition salt_path :: "host \<Rightarrow> qstring \<Rightarrow> qstring" where
  "salt_path h name = saveLocation h @ qs ''/'' @ encodeWalletName h name @ qs ''.salt''"

definition Backend_new :: "host \<Rightarrow> qstring \<Rightarrow> backend" where
  "Backend_new h name =
     \<lparr>b_name = name, b_path = wallet_path h name, b_open = False, b_useNewHash = False, b_folder = [],
      b_ref = 0, b_entries = [], b_hashes = Map.empty, b_passhash = [], b_newPassHash = [],
      b_cipherType = CIPHER_UNKNOWN, b_gpgKey = None\<rparr>"

text \<open>A wallet file has at least 60 bytes.\<close>

definition wallet_on_disk :: "files \<Rightarrow> qstring \<Rightarrow> bool" where
  "wallet_on_disk fs path = (case fs path of None \<Rightarrow> False | Some d \<Rightarrow> 60 \<le> length d)"

definition Backend_exists :: "host \<Rightarrow> files \<Rightarrow> qstring \<Rightarrow> bool" where
  "Backend_exists h fs wallet = wallet_on_disk fs (wallet_path h wallet)"

definition openRCToString :: "int \<Rightarrow> qstring" where
  "openRCToString rc =
     (if rc = -255 then qs ''Already open.''
      else if rc = -2 then qs ''Error opening file.''
      else if rc = -3 then qs ''Not a wallet file.''
      else if rc = -4 then qs ''Unsupported file format revision.''
      else if rc = -41 then qs ''Unknown cipher or hash''
      else if rc = -42 then qs ''Unknown encryption scheme.''
      else if rc = -43 then qs ''Corrupt file?''
      else if rc = -8 then qs ''Error validating wallet integrity. Possibly corrupted.''
      else if rc = -5 \<or> rc = -7 \<or> rc = -9 then qs ''Read error - possibly incorrect password.''
      else if rc = -6 then qs ''Decryption error.''
      else [])"

section \<open>Password hashes\<close>

definition ensureGcryptInit :: "host \<Rightarrow> bool" where
  "ensureGcryptInit h = gcryptInit h"

text \<open>
  The key derived from password and salt, and whether it was; gcrypt leaves the output alone when
  it reports an error.
\<close>

definition password2PBKDF2_SHA512 :: "host \<Rightarrow> bytes \<Rightarrow> bytes \<Rightarrow> bytes \<Rightarrow> bool \<times> bytes" where
  "password2PBKDF2_SHA512 h password hash salt =
     (if \<not> ensureGcryptInit h then (False, hash)
      else case kdf h password salt of None \<Rightarrow> (False, hash) | Some k \<Rightarrow> (True, k))"

text \<open>One turn of the loop that makes brute force slower: the digest goes back into the hash.\<close>

definition stretch_step :: "sha1 \<times> bytes \<Rightarrow> sha1 \<times> bytes" where
  "stretch_step sb =
     (let (s, _) = sb; (d, s) = SHA1_hash s; block = take 20 d
      in (snd (SHA1_process (SHA1_reset s) (Some block)), block))"

definition stretch :: "sha1 \<Rightarrow> bytes \<Rightarrow> sha1 \<times> bytes" where
  "stretch s part =
     (let (s, block) = (stretch_step ^^ 2000) (snd (SHA1_process s (Some part)), zeros 20)
      in (SHA1_reset s, block))"

definition password2hash :: "host \<Rightarrow> bytes \<Rightarrow> bytes" where
  "password2hash h password =
     (let (s, block1) = stretch (SHA1_new (map (stackJunk h) [0..<64])) (take 16 password) in
      if 16 < length password then
        let (s, block2) = stretch s (take 16 (drop 16 password)) in
        if 32 < length password then
          let (s, block3) = stretch s (take 16 (drop 32 password)) in
          if 48 < length password then
            let (s, block4) = stretch s (drop 48 password)
            in take 14 block1 @ take 14 block2 @ take 14 block3 @ take 14 block4
          else take 20 block1 @ take 20 block2 @ take 16 block3
        else take 20 block1 @ take 20 block2
      else take 20 block1)"

text \<open>An empty result is an error; the old salt is gone then.\<close>

definition createAndSaveSalt :: "host \<Rightarrow> qstring \<Rightarrow> files \<Rightarrow> bytes \<times> files" where
  "createAndSaveSalt h path fs =
     (let fs = (if mayRemove h path then fs(path := None) else fs) in
      if \<not> mayWrite h path then ([], fs)
      else
        let fs = fs(path \<mapsto> []) in
        if \<not> ensureGcryptInit h then ([], fs)
        else
          let salt = randomSalt h in
          if \<not> fullWrite h path (length salt) then ([], fs) else (salt, fs(path \<mapsto> salt)))"

definition read_salt :: "host \<Rightarrow> qstring \<Rightarrow> files \<Rightarrow> bytes \<times> files" where
  "read_salt h path fs =
     (case fs path of
        None \<Rightarrow> createAndSaveSalt h path fs
      | Some d \<Rightarrow>
          if d = [] then createAndSaveSalt h path fs
          else if \<not> mayRead h path then createAndSaveSalt h path fs
          else (d, fs))"

definition Backend_setPassword :: "host \<Rightarrow> bytes \<Rightarrow> backend \<Rightarrow> files \<Rightarrow> backend \<times> files" where
  "Backend_setPassword h password b fs =
     (let b = b\<lparr>b_newPassHash := zeros 56, b_passhash := password2hash h password\<rparr>;
          (salt, fs) = read_salt h (salt_path h (b_name b)) fs in
      if salt = [] then (b, fs)
      else
        let (ok, k) = password2PBKDF2_SHA512 h password (b_newPassHash b) salt;
            b = b\<lparr>b_newPassHash := k\<rparr>
        in (if ok then b\<lparr>b_useNewHash := True\<rparr> else b, fs))"

definition Backend_swapToNewHash :: "backend \<Rightarrow> backend" where
  "Backend_swapToNewHash b = (if \<not> b_useNewHash b then b else b\<lparr>b_passhash := b_newPassHash b\<rparr>)"

section \<open>Saving\<close>

definition KWMAGIC :: bytes where
  "KWMAGIC = map of_char ''KWALLET'' @ [0x0A, 0x0D, 0, 0x0D, 0x0A]"

text \<open>The handlers; each is its \<open>write\<close> or its \<open>read\<close>.\<close>

datatype handler = BlowfishPersistHandler bool | GpgPersistHandler

definition getPersistHandler :: "cipher_type \<Rightarrow> handler run" where
  "getPersistHandler ct =
     (case ct of CIPHER_BLOWFISH \<Rightarrow> Ret (BlowfishPersistHandler False) | CIPHER_GPG \<Rightarrow> Ret GpgPersistHandler
      | CIPHER_UNKNOWN \<Rightarrow> UB)"

definition getPersistHandlerOf :: "bytes \<Rightarrow> handler option" where
  "getPersistHandlerOf v =
     (if (v ! 2 = 0 \<or> v ! 2 = 3) \<and> (v ! 3 = 0 \<or> v ! 3 = 2) then Some (BlowfishPersistHandler (v ! 2 = 0))
      else if v ! 2 = 2 \<and> v ! 3 = 0 then Some GpgPersistHandler
      else None)"

fun handler_write :: "handler \<Rightarrow> host \<Rightarrow> backend \<Rightarrow> savefile \<Rightarrow> bytes \<Rightarrow> files \<Rightarrow> (int \<times> files) run" where
  "handler_write (BlowfishPersistHandler ecb) h = BlowfishPersist_write h"
| "handler_write GpgPersistHandler h = GpgPersist_write h"

fun handler_read :: "handler \<Rightarrow> host \<Rightarrow> backend \<Rightarrow> bytes \<Rightarrow> (int \<times> backend) run" where
  "handler_read (BlowfishPersistHandler ecb) h = BlowfishPersist_read h ecb"
| "handler_read GpgPersistHandler h = GpgPersist_read h"

definition Backend_sync :: "host \<Rightarrow> backend \<Rightarrow> files \<Rightarrow> (int \<times> backend \<times> files) run" where
  "Backend_sync h b fs =
     (if \<not> b_open b then Ret (-255, b, fs)
      else if fs (b_path b) = None then Ret (-3, b, fs)
      else if \<not> mayWrite h (b_path b) then Ret (-1, b, fs)
      else
        let (ok, sf) = sf_write h KWMAGIC \<lparr>sf_path = b_path b, sf_data = []\<rparr> in
        if \<not> ok then Ret (-4, b, fs)
        else
          let version = [0, if b_useNewHash b then 1 else 0, 0, 0];
              b = (if b_useNewHash b then Backend_swapToNewHash b else b)
          in run_bind (getPersistHandler (b_cipherType b)) (\<lambda>phandler.
               run_bind (handler_write phandler h b sf version fs) (\<lambda>(rc, fs). Ret (rc, b, fs))))"

section \<open>Opening\<close>

text \<open>A missing or short file is created and the empty wallet saved to it.\<close>

definition Backend_create_file :: "host \<Rightarrow> backend \<Rightarrow> files \<Rightarrow> (int \<times> backend \<times> files) run" where
  "Backend_create_file h b fs =
     (if wallet_on_disk fs (b_path b) then Ret (0, b, fs)
      else if \<not> mayWrite h (b_path b) then Ret (-2, b, fs)
      else
        let fs = (if fs (b_path b) = None then fs(b_path b \<mapsto> []) else fs); b = b\<lparr>b_open := True\<rparr> in
        run_bind (Backend_sync h b fs) (\<lambda>(rc, b, fs). Ret (if rc \<noteq> 0 then -2 else 0, b, fs)))"

text \<open>\<open>QFile::read\<close> into a local array; a short read leaves the rest of the array as it was.\<close>

definition read_into :: "bytes \<Rightarrow> nat \<Rightarrow> bytes \<Rightarrow> bytes \<times> bytes" where
  "read_into buf n d = (take n d @ drop (min n (length d)) buf, drop n d)"

definition Backend_read_file :: "host \<Rightarrow> backend \<Rightarrow> bytes \<Rightarrow> (int \<times> backend) run" where
  "Backend_read_file h b db =
     (let (magicBuf, db) = read_into (map (stackJunk h) [0..<12]) 12 db in
      if magicBuf \<noteq> KWMAGIC then Ret (-3, b)
      else
        let (magicBuf, db) = read_into magicBuf 4 db in
        if magicBuf ! 0 \<noteq> 0 then Ret (-4, b)
        else if magicBuf ! 1 \<noteq> 1 \<and> magicBuf ! 1 \<noteq> 0 then Ret (-4, b)
        else
          let b = (if magicBuf ! 1 = 1 then Backend_swapToNewHash b else b) in
          case getPersistHandlerOf magicBuf of
            None \<Rightarrow> Ret (-41, b)
          | Some phandler \<Rightarrow> handler_read phandler h b db)"

definition Backend_openInternal :: "host \<Rightarrow> backend \<Rightarrow> files \<Rightarrow> (int \<times> backend \<times> files) run" where
  "Backend_openInternal h b fs =
     run_bind (Backend_create_file h b fs) (\<lambda>(rc, b, fs).
       if rc \<noteq> 0 then Ret (rc, b, fs)
       else if \<not> mayRead h (b_path b) then Ret (-2, b, fs)
       else case fs (b_path b) of
         None \<Rightarrow> Ret (-2, b, fs)
       | Some db \<Rightarrow> run_bind (Backend_read_file h b db) (\<lambda>(rc, b). Ret (rc, b, fs)))"

definition Backend_open :: "host \<Rightarrow> bytes \<Rightarrow> backend \<Rightarrow> files \<Rightarrow> (int \<times> backend \<times> files) run" where
  "Backend_open h password b fs =
     (if b_open b then Ret (-255, b, fs)
      else let (b, fs) = Backend_setPassword h password b fs in Backend_openInternal h b fs)"

definition Backend_openGpg :: "host \<Rightarrow> qstring option \<Rightarrow> backend \<Rightarrow> files \<Rightarrow> (int \<times> backend \<times> files) run" where
  "Backend_openGpg h key b fs =
     (if b_open b then Ret (-255, b, fs) else Backend_openInternal h (b\<lparr>b_gpgKey := key\<rparr>) fs)"

definition Backend_openPreHashed :: "host \<Rightarrow> bytes \<Rightarrow> backend \<Rightarrow> files \<Rightarrow> (int \<times> backend \<times> files) run" where
  "Backend_openPreHashed h passwordHash b fs =
     (if b_open b then Ret (-255, b, fs)
      else if length passwordHash \<noteq> 20 \<and> length passwordHash \<noteq> 40 \<and> length passwordHash \<noteq> 56 then Ret (-42, b, fs)
      else Backend_openInternal h
             (b\<lparr>b_passhash := passwordHash, b_newPassHash := passwordHash, b_useNewHash := True\<rparr>) fs)"

section \<open>Closing and renaming\<close>

definition Backend_closeInternal :: "host \<Rightarrow> bool \<Rightarrow> backend \<Rightarrow> files \<Rightarrow> (int \<times> backend \<times> files) run" where
  "Backend_closeInternal h save b fs =
     run_bind (if save then Backend_sync h b fs else Ret (0, b, fs)) (\<lambda>(rc, b, fs).
       if rc \<noteq> 0 then Ret (rc, b, fs) else Ret (0, b\<lparr>b_entries := [], b_open := False\<rparr>, fs))"

definition Backend_close :: "host \<Rightarrow> bool \<Rightarrow> backend \<Rightarrow> files \<Rightarrow> (int \<times> backend \<times> files) run" where
  "Backend_close h save b fs =
     run_bind (Backend_closeInternal h save b fs) (\<lambda>(rc, b, fs).
       if rc \<noteq> 0 then Ret (rc, b, fs)
       else Ret (0, b\<lparr>b_passhash := zeros (length (b_passhash b)), b_newPassHash := zeros (length (b_newPassHash b))\<rparr>, fs))"

text \<open>The destructor; the result is what it leaves in the object.\<close>

definition Backend_delete :: "host \<Rightarrow> backend \<Rightarrow> files \<Rightarrow> (backend \<times> files) run" where
  "Backend_delete h b fs =
     (if b_open b then run_bind (Backend_close h False b fs) (\<lambda>(rc, b, fs). Ret (b, fs)) else Ret (b, fs))"

text \<open>\<open>QFile::rename\<close> does not replace an existing file; its result is ignored.\<close>

definition rename_file :: "host \<Rightarrow> qstring \<Rightarrow> qstring \<Rightarrow> files \<Rightarrow> files" where
  "rename_file h old new fs =
     (case fs old of
        Some d \<Rightarrow> if fs new = None \<and> mayRename h old new then fs(old := None, new \<mapsto> d) else fs
      | None \<Rightarrow> fs)"

definition Backend_renameWallet :: "host \<Rightarrow> qstring \<Rightarrow> backend \<Rightarrow> files \<Rightarrow> (int \<times> backend \<times> files) run" where
  "Backend_renameWallet h newName b fs =
     (let newPath = wallet_path h newName in
      if newPath = b_path b then Ret (0, b, fs)
      else if fs newPath \<noteq> None then Ret (-17, b, fs)
      else
        run_bind (Backend_closeInternal h True b fs) (\<lambda>(rc, b, fs).
          if rc \<noteq> 0 then Ret (rc, b, fs)
          else
            let fs = rename_file h (b_path b) newPath fs;
                fs = rename_file h (salt_path h (b_name b)) (salt_path h newName) fs
            in Backend_openInternal h (b\<lparr>b_name := newName, b_path := newPath\<rparr>) fs))"

end
