(* ===== verification/KTimeout.thy ===== *)
theory KTimeout
  imports QtMap
begin

text \<open>
  The timers of src/runtime/ksecretd/ktimeout.cpp, one per identifier.  The record holds the hash
  \<open>_timers\<close> from identifiers to Qt timer numbers, and what Qt keeps for the object: the running
  timers with their intervals, and the next number \<open>startTimer\<close> will give out.  Qt numbers
  timers from 1 and gives out 0 when a timer cannot be started, as for a negative interval.

  The locale \<open>timer_pool\<close> is what the daemon relies on: which identifiers have a timer after each
  operation.  \<open>kt_inv\<close> is the invariant under which the hash and Qt's timers agree.
\<close>

section \<open>Operations\<close>

record ktimeout =
  kt_timers :: "(int, int) qmap"
  kt_running :: "int \<Rightarrow> int option"
  kt_next :: int

definition KTimeout_new :: ktimeout where
  "KTimeout_new = \<lparr>kt_timers = [], kt_running = Map.empty, kt_next = 1\<rparr>"

definition startTimer :: "int \<Rightarrow> ktimeout \<Rightarrow> int \<times> ktimeout" where
  "startTimer timeout t =
     (if timeout < 0 then (0, t)
      else (kt_next t, t\<lparr>kt_running := (kt_running t)(kt_next t \<mapsto> timeout), kt_next := kt_next t + 1\<rparr>))"

definition killTimer :: "int \<Rightarrow> ktimeout \<Rightarrow> ktimeout" where
  "killTimer timerId t = t\<lparr>kt_running := (kt_running t)(timerId := None)\<rparr>"

text \<open>\<open>_timers.value(id, 0)\<close>\<close>

definition timer_of :: "ktimeout \<Rightarrow> int \<Rightarrow> int" where
  "timer_of t i = (case qmap_find (kt_timers t) i of None \<Rightarrow> 0 | Some n \<Rightarrow> n)"

definition KTimeout_clear :: "ktimeout \<Rightarrow> ktimeout" where
  "KTimeout_clear t = (fold killTimer (map snd (kt_timers t)) t)\<lparr>kt_timers := []\<rparr>"

definition KTimeout_removeTimer :: "int \<Rightarrow> ktimeout \<Rightarrow> ktimeout" where
  "KTimeout_removeTimer i t =
     (let timerId = timer_of t i; t = (if timerId \<noteq> 0 then killTimer timerId t else t)
      in t\<lparr>kt_timers := qmap_remove i (kt_timers t)\<rparr>)"

definition KTimeout_addTimer :: "int \<Rightarrow> int \<Rightarrow> ktimeout \<Rightarrow> ktimeout" where
  "KTimeout_addTimer i timeout t =
     (if qmap_contains (kt_timers t) i then t
      else let (n, t) = startTimer timeout t in t\<lparr>kt_timers := qmap_insert i n (kt_timers t)\<rparr>)"

definition KTimeout_resetTimer :: "int \<Rightarrow> int \<Rightarrow> ktimeout \<Rightarrow> ktimeout" where
  "KTimeout_resetTimer i timeout t =
     (let timerId = timer_of t i in
      if timerId \<noteq> 0
      then let (n, t) = startTimer timeout (killTimer timerId t) in t\<lparr>kt_timers := qmap_insert i n (kt_timers t)\<rparr>
      else t)"

text \<open>The identifier signalled for a timer event: the first whose timer has the event's number.\<close>

definition KTimeout_timerEvent :: "ktimeout \<Rightarrow> int \<Rightarrow> int option" where
  "KTimeout_timerEvent t n = map_option fst (List.find (\<lambda>(i, m). m = n) (kt_timers t))"

section \<open>The invariant\<close>

text \<open>The hash as a partial function.\<close>

definition kt_map :: "ktimeout \<Rightarrow> int \<Rightarrow> int option" where
  "kt_map t = qmap_find (kt_timers t)"

definition kt_ids :: "ktimeout \<Rightarrow> int set" where
  "kt_ids t = dom (kt_map t)"

definition kt_inv :: "ktimeout \<Rightarrow> bool" where
  "kt_inv t \<longleftrightarrow> qmap_wf (kt_timers t) \<and> 0 < kt_next t \<and> inj_on (kt_map t) (kt_ids t) \<and>
     (\<forall>n \<in> ran (kt_map t). 0 < n \<and> n < kt_next t) \<and> dom (kt_running t) = ran (kt_map t)"

lemma kt_inv_new: "kt_inv KTimeout_new" "kt_ids KTimeout_new = {}"
  by (simp_all add: kt_inv_def kt_ids_def kt_map_def KTimeout_new_def fun_eq_iff dom_def ran_def)

lemma kt_inv_next: "kt_inv t \<Longrightarrow> kt_next t \<notin> ran (kt_map t)"
  by (auto simp: kt_inv_def)

lemma ran_remove:
  assumes "inj_on m (dom m)" and "m i = Some n"
  shows "ran (m(i := None)) = ran m - {n}"
proof -
  have u: "j = i" if "m j = Some n" for j
    by (rule inj_onD [OF assms(1)]) (use that assms(2) in auto)
  have r: "ran (m(i := None)) = {x. \<exists>j. j \<noteq> i \<and> m j = Some x}"
    by (auto simp: ran_def)
  show ?thesis
  proof (intro set_eqI iffI)
    fix x assume "x \<in> ran (m(i := None))"
    then obtain j where "j \<noteq> i" "m j = Some x" unfolding r by blast
    then show "x \<in> ran m - {n}" using u [of j] by (auto intro: ranI)
  next
    fix x assume "x \<in> ran m - {n}"
    then obtain j where "m j = Some x" "x \<noteq> n" by (auto simp: ran_def)
    then have "j \<noteq> i" using assms(2) by auto
    with \<open>m j = Some x\<close> show "x \<in> ran (m(i := None))" unfolding r by blast
  qed
qed

lemma kt_remove:
  assumes "kt_inv t"
  shows "kt_inv (KTimeout_removeTimer i t) \<and> kt_ids (KTimeout_removeTimer i t) = kt_ids t - {i}"
proof -
  let ?t = "KTimeout_removeTimer i t"
  have m: "kt_map ?t = (kt_map t)(i := None)" "kt_next ?t = kt_next t" "qmap_wf (kt_timers ?t)"
    using assms by (simp_all add: KTimeout_removeTimer_def kt_map_def killTimer_def qmap_simps Let_def kt_inv_def)
  have "dom (kt_running ?t) = ran (kt_map ?t)"
  proof (cases "kt_map t i")
    case None
    then have "kt_running ?t = kt_running t"
      by (simp add: KTimeout_removeTimer_def timer_of_def kt_map_def)
    with None assms m(1) show ?thesis by (simp add: kt_inv_def fun_upd_idem)
  next
    case (Some n)
    then have "0 < n" using assms by (auto simp: kt_inv_def intro: ranI)
    then have "kt_running ?t = (kt_running t)(n := None)"
      using Some by (simp add: KTimeout_removeTimer_def timer_of_def kt_map_def killTimer_def)
    moreover have "ran ((kt_map t)(i := None)) = ran (kt_map t) - {n}"
      using assms Some by (intro ran_remove) (simp_all add: kt_inv_def kt_ids_def)
    ultimately show ?thesis using assms m(1) by (simp add: kt_inv_def)
  qed
  moreover have "inj_on ((kt_map t)(i := None)) (dom (kt_map t) - {i})"
    using assms by (auto simp: kt_inv_def kt_ids_def inj_on_def)
  moreover have "ran ((kt_map t)(i := None)) \<subseteq> ran (kt_map t)" by (auto simp: ran_def)
  ultimately show ?thesis using assms m by (auto simp: kt_inv_def kt_ids_def)
qed

lemma kt_start:
  assumes "kt_inv t" and "kt_map t i = None" and "0 \<le> timeout"
  defines "t' \<equiv> (let (n, t) = startTimer timeout t in t\<lparr>kt_timers := qmap_insert i n (kt_timers t)\<rparr>)"
  shows "kt_inv t' \<and> kt_ids t' = insert i (kt_ids t)"
proof -
  have f: "kt_next t \<notin> ran (kt_map t)" using assms(1) by (rule kt_inv_next)
  then have "kt_map t j \<noteq> Some (kt_next t)" for j by (auto intro: ranI)
  then have i: "inj_on ((kt_map t)(i \<mapsto> kt_next t)) (insert i (dom (kt_map t)))"
    using assms(1) by (auto simp: kt_inv_def kt_ids_def inj_on_def)
  have m: "kt_map t' = (kt_map t)(i \<mapsto> kt_next t)" "kt_next t' = kt_next t + 1" "qmap_wf (kt_timers t')"
    "kt_running t' = (kt_running t)(kt_next t \<mapsto> timeout)"
    using assms by (simp_all add: t'_def startTimer_def kt_map_def qmap_simps kt_inv_def)
  show ?thesis
    using assms(1,2) f i by (auto simp: kt_inv_def kt_ids_def m)
qed

lemma kt_add:
  assumes "kt_inv t" and "0 \<le> timeout"
  shows "kt_inv (KTimeout_addTimer i timeout t) \<and> kt_ids (KTimeout_addTimer i timeout t) = insert i (kt_ids t)"
proof (cases "kt_map t i")
  case None
  with kt_start [OF assms(1) None assms(2)] show ?thesis
    by (simp add: KTimeout_addTimer_def qmap_contains_def kt_map_def)
next
  case (Some n)
  with assms show ?thesis by (auto simp: KTimeout_addTimer_def kt_ids_def qmap_contains_def kt_map_def)
qed

lemma qmap_insert_remove: "qmap_wf m \<Longrightarrow> qmap_insert i n (qmap_remove i m) = qmap_insert i n m"
  unfolding qmap_wf_def qmap_remove_def
proof (induction m)
  case (Cons kv m)
  then show ?case
    by (cases kv; cases m) (auto simp: filter_id_conv dest: less_trans)
qed simp

lemma kt_reset:
  assumes "kt_inv t" and "0 \<le> timeout"
  shows "kt_inv (KTimeout_resetTimer i timeout t) \<and> kt_ids (KTimeout_resetTimer i timeout t) = kt_ids t"
proof (cases "kt_map t i")
  case None
  with assms show ?thesis by (simp add: KTimeout_resetTimer_def timer_of_def kt_map_def)
next
  case (Some n)
  then have n: "0 < n" using assms(1) by (auto simp: kt_inv_def intro: ranI)
  let ?t = "KTimeout_removeTimer i t"
  have "KTimeout_resetTimer i timeout t =
      (let (n, t) = startTimer timeout ?t in t\<lparr>kt_timers := qmap_insert i n (kt_timers t)\<rparr>)"
    using Some n assms
    by (simp add: KTimeout_resetTimer_def KTimeout_removeTimer_def timer_of_def killTimer_def startTimer_def
        kt_map_def kt_inv_def qmap_insert_remove)
  moreover have "kt_map ?t i = None" by (simp add: KTimeout_removeTimer_def Let_def kt_map_def qmap_simps)
  ultimately show ?thesis
    using kt_start [of ?t i timeout] kt_remove [OF assms(1), of i] assms(2) Some by (auto simp: kt_ids_def)
qed

lemma kill_all:
  "kt_running (fold killTimer ns t) = (\<lambda>n. if n \<in> set ns then None else kt_running t n) \<and>
   kt_next (fold killTimer ns t) = kt_next t"
  by (induction ns arbitrary: t) (auto simp: killTimer_def fun_eq_iff)

lemma kt_clear:
  assumes "kt_inv t"
  shows "kt_inv (KTimeout_clear t) \<and> kt_ids (KTimeout_clear t) = {}"
proof -
  have "kt_map t = map_of (kt_timers t)" by (simp add: kt_map_def qmap_find_def fun_eq_iff)
  then have "ran (kt_map t) \<subseteq> set (map snd (kt_timers t))" by (force simp: ran_def dest: map_of_SomeD)
  then have "dom (kt_running t) \<subseteq> set (map snd (kt_timers t))" using assms by (simp add: kt_inv_def)
  then have "kt_running (KTimeout_clear t) = Map.empty"
    by (auto simp: KTimeout_clear_def kill_all fun_eq_iff)
  moreover have "kt_next (KTimeout_clear t) = kt_next t" "kt_map (KTimeout_clear t) = Map.empty"
    "kt_timers (KTimeout_clear t) = []"
    by (simp_all add: KTimeout_clear_def kill_all kt_map_def fun_eq_iff)
  ultimately show ?thesis using assms by (simp add: kt_inv_def kt_ids_def)
qed

section \<open>The interface\<close>

locale timer_pool =
  fixes inv :: "'t \<Rightarrow> bool" and ids :: "'t \<Rightarrow> int set"
    and add :: "int \<Rightarrow> int \<Rightarrow> 't \<Rightarrow> 't" and reset :: "int \<Rightarrow> int \<Rightarrow> 't \<Rightarrow> 't"
    and remove :: "int \<Rightarrow> 't \<Rightarrow> 't" and clear :: "'t \<Rightarrow> 't"
  assumes inv_add: "inv t \<Longrightarrow> 0 \<le> d \<Longrightarrow> inv (add i d t) \<and> ids (add i d t) = insert i (ids t)"
    and inv_reset: "inv t \<Longrightarrow> 0 \<le> d \<Longrightarrow> inv (reset i d t) \<and> ids (reset i d t) = ids t"
    and inv_remove: "inv t \<Longrightarrow> inv (remove i t) \<and> ids (remove i t) = ids t - {i}"
    and inv_clear: "inv t \<Longrightarrow> inv (clear t) \<and> ids (clear t) = {}"

context timer_pool begin

lemma add_all:
  "inv t \<Longrightarrow> 0 \<le> d \<Longrightarrow> inv (fold (\<lambda>i. add i d) is t) \<and> ids (fold (\<lambda>i. add i d) is t) = set is \<union> ids t"
  by (induction "is" arbitrary: t) (auto simp: inv_add)

lemma reset_all:
  "inv t \<Longrightarrow> 0 \<le> d \<Longrightarrow> inv (fold (\<lambda>i. reset i d) is t) \<and> ids (fold (\<lambda>i. reset i d) is t) = ids t"
  by (induction "is" arbitrary: t) (auto simp: inv_reset)

lemma add_reset:
  "inv t \<Longrightarrow> 0 \<le> d \<Longrightarrow> 0 \<le> e \<Longrightarrow> inv (reset i e (add i d t)) \<and> ids (reset i e (add i d t)) = insert i (ids t)"
  by (simp add: inv_add inv_reset)

end

interpretation kt: timer_pool kt_inv kt_ids KTimeout_addTimer KTimeout_resetTimer KTimeout_removeTimer KTimeout_clear
  by unfold_locales (simp_all add: kt_add kt_reset kt_remove kt_clear)

section \<open>Properties\<close>

text \<open>The timers of the hash are exactly the timers running in Qt, each with a number of its own:
  every operation keeps this, so no timer is leaked or killed twice.\<close>

theorem timers_in_step:
  assumes "kt_inv t" and "0 \<le> timeout"
  shows "kt_inv (KTimeout_addTimer i timeout t) \<and> kt_inv (KTimeout_resetTimer i timeout t) \<and>
    kt_inv (KTimeout_removeTimer i t) \<and> kt_inv (KTimeout_clear t) \<and>
    kt_ids (KTimeout_removeTimer i (KTimeout_addTimer i timeout t)) = kt_ids t - {i}"
  using kt_add [OF assms] kt_reset [OF assms] kt_remove kt_clear [OF assms(1)] assms(1) by auto

theorem timers_in_step_witness:
  "kt_inv (KTimeout_addTimer 7 5000 KTimeout_new)"
  using timers_in_step [OF kt_inv_new(1), of 5000 7] by simp

end
