(* ===== verification/KSecretD.thy ===== *)
theory KSecretD
  imports BackendFile KTimeout
begin

text \<open>
  The daemon: the class \<open>KSecretD\<close> of src/runtime/ksecretd/ksecretd.cpp.  Clients know an open
  wallet by a handle; the daemon keeps the open wallets by handle, a timer per wallet for closing
  it when idle and one for saving it, a count of failed accesses, and a queue of requests that may
  need a dialog.  The wallets are owned by the hash \<open>_wallets\<close> alone, so it holds the \<open>Backend\<close>
  objects themselves.  It is kept in the order of the handles; the order in which Qt walks its hash
  is not specified.

  Signals, messages to the user and calls of the Secret Service side are events, appended to a
  log.  What the user answers to the dialogs of a request is the record \<open>user\<close>; a password dialog
  is shown again until the wallet is open or the user cancels, so its answers are a list.
\<close>

section \<open>State\<close>

datatype transaction_type = Open | ChangePassword

record transaction =
  tr_type :: transaction_type
  tr_wallet :: qstring
  tr_wId :: int
  tr_modal :: bool
  tr_promise :: nat

datatype event = WalletCreated qstring | WalletDeleted qstring | EntryRenamed qstring qstring qstring qstring
  | EntryDeleted qstring qstring qstring | LockCollection qstring | WalletChangeState qstring int
  | PromiseResult nat int | ProcessTransactions | NotifyFailures | StartManager | ErrorMessage string | Quit

record settings =
  set_firstUse :: bool
  set_launchManager :: bool
  set_closeWhenIdle :: bool
  set_idleTimeout :: int
  set_kSecretDEnabled :: bool
  set_kWalletDEnabled :: bool
  set_useOneWallet :: bool
  set_defaultWallet :: qstring
  set_localWallet :: qstring

record user =
  u_newWallet :: "(bool \<times> qstring option) option"   \<comment> \<open>Blowfish?, and the GPG key; None: cancelled\<close>
  u_passwords :: "bytes list"                          \<comment> \<open>tried for an existing wallet, before cancelling\<close>
  u_newPasswords :: "bytes list"
  u_changePassword :: "bytes option"

type_synonym wallets = "(int, backend) qmap"

record ksecretd =
  ks_wallets :: wallets
  ks_failed :: int
  ks_closeIdle :: bool
  ks_launchManager :: bool
  ks_firstUse :: bool
  ks_idleTime :: int
  ks_closeTimers :: ktimeout
  ks_syncTimers :: ktimeout
  ks_processing :: bool
  ks_transactions :: "transaction list"
  ks_promises :: nat
  ks_rand :: nat
  ks_settings :: settings
  ks_files :: files
  ks_events :: "event list"

definition syncTime :: int where
  "syncTime = 5000"

definition emit :: "event \<Rightarrow> ksecretd \<Rightarrow> ksecretd" where
  "emit e s = s\<lparr>ks_events := ks_events s @ [e]\<rparr>"

definition put_wallet :: "int \<Rightarrow> backend \<Rightarrow> ksecretd \<Rightarrow> ksecretd" where
  "put_wallet handle b s = s\<lparr>ks_wallets := qmap_insert handle b (ks_wallets s)\<rparr>"

definition networkWallet :: "settings \<Rightarrow> qstring" where
  "networkWallet st = set_defaultWallet st"

definition localWallet :: "settings \<Rightarrow> qstring" where
  "localWallet st = (if \<not> set_useOneWallet st then set_localWallet st else set_defaultWallet st)"

definition KSecretD_isEnabled :: "ksecretd \<Rightarrow> bool" where
  "KSecretD_isEnabled s = (set_kSecretDEnabled (ks_settings s) \<and> set_kWalletDEnabled (ks_settings s))"

section \<open>Handles\<close>

text \<open>Random numbers are drawn until one is neither 0 nor in use.\<close>

partial_function (option) generateHandle :: "host \<Rightarrow> wallets \<Rightarrow> nat \<Rightarrow> (int \<times> nat) option" where
  "generateHandle h ws n =
     (if qmap_contains ws (rand h n) \<or> rand h n = 0 then generateHandle h ws (n + 1)
      else Some (rand h n, n + 1))"

definition findWallet :: "qstring \<Rightarrow> ksecretd \<Rightarrow> (int \<times> backend) option" where
  "findWallet name s = List.find (\<lambda>(hd, b). b_name b = name) (ks_wallets s)"

text \<open>A failed access is counted; the sixth in a row warns the user and starts the count again.\<close>

definition count_failure :: "ksecretd \<Rightarrow> ksecretd" where
  "count_failure s =
     (let f = ks_failed s + 1 in
      if 5 < f then emit NotifyFailures (s\<lparr>ks_failed := 0\<rparr>) else s\<lparr>ks_failed := f\<rparr>)"

definition KSecretD_getWallet :: "int \<Rightarrow> ksecretd \<Rightarrow> backend option \<times> ksecretd" where
  "KSecretD_getWallet handle s =
     (if handle = 0 then (None, s)
      else case qmap_find (ks_wallets s) handle of
        Some w \<Rightarrow>
          let s = s\<lparr>ks_failed := 0\<rparr> in
          (Some w, if ks_closeIdle s
                   then s\<lparr>ks_closeTimers := KTimeout_resetTimer handle (ks_idleTime s) (ks_closeTimers s)\<rparr> else s)
      | None \<Rightarrow> (None, count_failure s))"

definition KSecretD_isOpen :: "int \<Rightarrow> ksecretd \<Rightarrow> bool \<times> ksecretd" where
  "KSecretD_isOpen handle s =
     (if handle = 0 then (False, s)
      else case qmap_find (ks_wallets s) handle of
        None \<Rightarrow> (False, count_failure s)
      | Some w \<Rightarrow> (True, s\<lparr>ks_failed := 0\<rparr>))"

text \<open>The names of the wallets that have a file.\<close>

definition KSecretD_wallets :: "host \<Rightarrow> ksecretd \<Rightarrow> qstring list" where
  "KSecretD_wallets h s =
     map (\<lambda>fn. decodeWalletName h
       (if drop (length fn - 4) fn = qs ''.kwl'' then take (length fn - 4) fn else fn))
       (dirEntries h (ks_files s))"

section \<open>Folders and entries\<close>

definition initiateSync :: "int \<Rightarrow> ksecretd \<Rightarrow> ksecretd" where
  "initiateSync handle s =
     s\<lparr>ks_syncTimers := KTimeout_resetTimer handle syncTime (KTimeout_addTimer handle syncTime (ks_syncTimers s))\<rparr>"

definition KSecretD_folderList :: "int \<Rightarrow> ksecretd \<Rightarrow> qstring list \<times> ksecretd" where
  "KSecretD_folderList handle s =
     (case KSecretD_getWallet handle s of (Some b, s) \<Rightarrow> (Backend_folderList b, s) | (None, s) \<Rightarrow> ([], s))"

definition KSecretD_createFolder :: "host \<Rightarrow> int \<Rightarrow> qstring \<Rightarrow> ksecretd \<Rightarrow> bool \<times> ksecretd" where
  "KSecretD_createFolder h handle f s =
     (case KSecretD_getWallet handle s of
        (Some b, s) \<Rightarrow>
          let (rc, b) = Backend_createFolder h f b in (rc, initiateSync handle (put_wallet handle b s))
      | (None, s) \<Rightarrow> (False, s))"

definition KSecretD_readMap :: "int \<Rightarrow> qstring \<Rightarrow> qstring \<Rightarrow> ksecretd \<Rightarrow> bytes \<times> ksecretd" where
  "KSecretD_readMap handle folder key s =
     (case KSecretD_getWallet handle s of
        (Some b, s) \<Rightarrow>
          let b = Backend_setFolder folder b; s = put_wallet handle b s in
          (case Backend_readEntry b key of
             Some e \<Rightarrow> if e_type e = Map then (e_value e, s) else ([], s)
           | None \<Rightarrow> ([], s))
      | (None, s) \<Rightarrow> ([], s))"

definition KSecretD_readEntry :: "int \<Rightarrow> qstring \<Rightarrow> qstring \<Rightarrow> ksecretd \<Rightarrow> bytes \<times> ksecretd" where
  "KSecretD_readEntry handle folder key s =
     (case KSecretD_getWallet handle s of
        (Some b, s) \<Rightarrow>
          let b = Backend_setFolder folder b; s = put_wallet handle b s in
          (case Backend_readEntry b key of Some e \<Rightarrow> (e_value e, s) | None \<Rightarrow> ([], s))
      | (None, s) \<Rightarrow> ([], s))"

definition KSecretD_entryList :: "int \<Rightarrow> qstring \<Rightarrow> ksecretd \<Rightarrow> qstring list \<times> ksecretd" where
  "KSecretD_entryList handle folder s =
     (case KSecretD_getWallet handle s of
        (Some b, s) \<Rightarrow> let b = Backend_setFolder folder b in (Backend_entryList b, put_wallet handle b s)
      | (None, s) \<Rightarrow> ([], s))"

definition KSecretD_readPassword :: "host \<Rightarrow> int \<Rightarrow> qstring \<Rightarrow> qstring \<Rightarrow> ksecretd \<Rightarrow> qstring \<times> ksecretd" where
  "KSecretD_readPassword h handle folder key s =
     (case KSecretD_getWallet handle s of
        (Some b, s) \<Rightarrow>
          let b = Backend_setFolder folder b; s = put_wallet handle b s in
          (case Backend_readEntry b key of
             Some e \<Rightarrow> if e_type e = Password then (Entry_password h e, s) else ([], s)
           | None \<Rightarrow> ([], s))
      | (None, s) \<Rightarrow> ([], s))"

text \<open>A local \<open>Entry\<close> is filled and copied into the wallet.\<close>

definition write_to :: "host \<Rightarrow> int \<Rightarrow> qstring \<Rightarrow> entry \<Rightarrow> ksecretd \<Rightarrow> int \<times> ksecretd" where
  "write_to h handle folder e s =
     (case KSecretD_getWallet handle s of
        (Some b, s) \<Rightarrow>
          let b = Backend_writeEntry h e (Backend_setFolder folder b) in
          (0, initiateSync handle (put_wallet handle b s))
      | (None, s) \<Rightarrow> (-1, s))"

definition KSecretD_writeEntry ::
    "host \<Rightarrow> int \<Rightarrow> qstring \<Rightarrow> qstring \<Rightarrow> bytes \<Rightarrow> entry_type \<Rightarrow> ksecretd \<Rightarrow> int \<times> ksecretd" where
  "KSecretD_writeEntry h handle folder key value et =
     write_to h handle folder (Entry_setType et (Entry_setValue value (Entry_setKey key (Entry_new Unknown))))"

definition KSecretD_writePassword :: "host \<Rightarrow> int \<Rightarrow> qstring \<Rightarrow> qstring \<Rightarrow> qstring \<Rightarrow> ksecretd \<Rightarrow> int \<times> ksecretd" where
  "KSecretD_writePassword h handle folder key value =
     write_to h handle folder (Entry_setType Password (Entry_setValueText h value (Entry_setKey key (Entry_new Unknown))))"

text \<open>\<open>b->readEntry(key)->type()\<close> goes through a null pointer when the wallet is not open.\<close>

definition KSecretD_entryType :: "int \<Rightarrow> qstring \<Rightarrow> qstring \<Rightarrow> ksecretd \<Rightarrow> (entry_type \<times> ksecretd) run" where
  "KSecretD_entryType handle folder key s =
     (case KSecretD_getWallet handle s of
        (Some b, s) \<Rightarrow>
          if \<not> Backend_hasFolder b folder then Ret (Unknown, s)
          else
            let b = Backend_setFolder folder b; s = put_wallet handle b s in
            if Backend_hasEntry b key
            then (case Backend_readEntry b key of None \<Rightarrow> UB | Some e \<Rightarrow> Ret (e_type e, s))
            else Ret (Unknown, s)
      | (None, s) \<Rightarrow> Ret (Unknown, s))"

definition KSecretD_hasEntry :: "int \<Rightarrow> qstring \<Rightarrow> qstring \<Rightarrow> ksecretd \<Rightarrow> bool \<times> ksecretd" where
  "KSecretD_hasEntry handle folder key s =
     (case KSecretD_getWallet handle s of
        (Some b, s) \<Rightarrow>
          if \<not> Backend_hasFolder b folder then (False, s)
          else let b = Backend_setFolder folder b in (Backend_hasEntry b key, put_wallet handle b s)
      | (None, s) \<Rightarrow> (False, s))"

definition KSecretD_removeEntry :: "host \<Rightarrow> int \<Rightarrow> qstring \<Rightarrow> qstring \<Rightarrow> ksecretd \<Rightarrow> (int \<times> ksecretd) run" where
  "KSecretD_removeEntry h handle folder key s =
     (case KSecretD_getWallet handle s of
        (Some b, s) \<Rightarrow>
          if \<not> Backend_hasFolder b folder then Ret (0, s)
          else
            run_bind (Backend_removeEntry h key (Backend_setFolder folder b)) (\<lambda>(rc, b).
              Ret (if rc then 0 else -3,
                   emit (EntryDeleted (b_name b) folder key) (initiateSync handle (put_wallet handle b s))))
      | (None, s) \<Rightarrow> Ret (-1, s))"

definition KSecretD_renameEntry ::
    "host \<Rightarrow> int \<Rightarrow> qstring \<Rightarrow> qstring \<Rightarrow> qstring \<Rightarrow> ksecretd \<Rightarrow> int \<times> ksecretd" where
  "KSecretD_renameEntry h handle folder oldName newName s =
     (case KSecretD_getWallet handle s of
        (Some b, s) \<Rightarrow>
          let (rc, b) = Backend_renameEntry h oldName newName (Backend_setFolder folder b) in
          (rc, emit (EntryRenamed (b_name b) folder oldName newName) (initiateSync handle (put_wallet handle b s)))
      | (None, s) \<Rightarrow> (-1, s))"

end
