(* ===== verification/KSecretDOpen.thy ===== *)
theory KSecretDOpen
  imports KSecretD
begin

text \<open>
  Opening and closing wallets in the daemon, the queue of requests, and the slots that react to
  timers, to the settings and to changes of the save directory
  (src/runtime/ksecretd/ksecretd.cpp).

  The user's answers to the dialogs of one request are an argument; \<open>processTransactions\<close> takes a
  function from the request's number to its answers.  The event loop that a dialog runs is not
  entered by other requests here: \<open>_processing\<close> keeps the queue from being worked on twice.
\<close>

section \<open>Closing\<close>

text \<open>
  The wallet leaves the hash before it is saved, and the result of the save is ignored; the object
  is deleted, with what a failed save left in it.
\<close>

definition KSecretD_internalClose :: "host \<Rightarrow> backend \<Rightarrow> int \<Rightarrow> bool \<Rightarrow> ksecretd \<Rightarrow> (int \<times> ksecretd) run" where
  "KSecretD_internalClose h w handle saveBeforeClose s =
     (let s = (if ks_closeIdle s
               then s\<lparr>ks_closeTimers := KTimeout_removeTimer handle (ks_closeTimers s)\<rparr> else s);
          s = s\<lparr>ks_syncTimers := KTimeout_removeTimer handle (ks_syncTimers s),
                ks_wallets := qmap_remove handle (ks_wallets s)\<rparr>
      in run_bind (Backend_close h saveBeforeClose w (ks_files s)) (\<lambda>(rc, w, fs).
           Ret (0, emit (LockCollection (b_name w)) (s\<lparr>ks_files := fs\<rparr>))))"

definition KSecretD_close :: "host \<Rightarrow> int \<Rightarrow> ksecretd \<Rightarrow> (int \<times> ksecretd) run" where
  "KSecretD_close h handle s =
     (case qmap_find (ks_wallets s) handle of
        Some w \<Rightarrow> let (_, w) = Backend_deref w in KSecretD_internalClose h w handle True s
      | None \<Rightarrow> Ret (-1, s))"

definition KSecretD_timedOutClose :: "host \<Rightarrow> int \<Rightarrow> ksecretd \<Rightarrow> ksecretd run" where
  "KSecretD_timedOutClose h i s =
     (case qmap_find (ks_wallets s) i of
        Some w \<Rightarrow> run_bind (KSecretD_internalClose h w i True s) (\<lambda>(_, s). Ret s)
      | None \<Rightarrow> Ret s)"

definition KSecretD_timedOutSync :: "host \<Rightarrow> int \<Rightarrow> ksecretd \<Rightarrow> ksecretd run" where
  "KSecretD_timedOutSync h handle s =
     (let s = s\<lparr>ks_syncTimers := KTimeout_removeTimer handle (ks_syncTimers s)\<rparr> in
      case qmap_find (ks_wallets s) handle of
        Some w \<Rightarrow> run_bind (Backend_sync h w (ks_files s)) (\<lambda>(_, w, fs). Ret (put_wallet handle w (s\<lparr>ks_files := fs\<rparr>)))
      | None \<Rightarrow> Ret s)"

text \<open>\<open>deleteWallet\<close> closes the wallet through the pointer \<open>findWallet\<close> gives, null when it is not open.\<close>

definition remove_file :: "host \<Rightarrow> qstring \<Rightarrow> files \<Rightarrow> files" where
  "remove_file h path fs = (if fs path \<noteq> None \<and> mayRemove h path then fs(path := None) else fs)"

definition KSecretD_deleteWallet :: "host \<Rightarrow> qstring \<Rightarrow> ksecretd \<Rightarrow> (int \<times> ksecretd) run" where
  "KSecretD_deleteWallet h wallet s =
     (if ks_files s (wallet_path h wallet) = None then Ret (-1, s)
      else case findWallet wallet s of
        None \<Rightarrow> UB
      | Some (handle, w) \<Rightarrow>
          run_bind (KSecretD_internalClose h w handle True s) (\<lambda>(_, s).
            let s = s\<lparr>ks_files := remove_file h (wallet_path h wallet) (ks_files s)\<rparr>;
                s = emit (WalletDeleted wallet) s
            in Ret (0, s\<lparr>ks_files := remove_file h (salt_path h wallet) (ks_files s)\<rparr>)))"

text \<open>\<open>renameWallet\<close> of the daemon goes through the same pointer.\<close>

definition KSecretD_renameWallet :: "host \<Rightarrow> qstring \<Rightarrow> qstring \<Rightarrow> ksecretd \<Rightarrow> (int \<times> ksecretd) run" where
  "KSecretD_renameWallet h oldName newName s =
     (case findWallet oldName s of
        None \<Rightarrow> UB
      | Some (handle, w) \<Rightarrow>
          run_bind (Backend_renameWallet h newName w (ks_files s)) (\<lambda>(rc, w, fs).
            Ret (rc, put_wallet handle w (s\<lparr>ks_files := fs\<rparr>))))"

section \<open>Opening\<close>

text \<open>The password dialog: shown until the wallet is open or the answers end with a cancel.\<close>

fun ask_password :: "host \<Rightarrow> bytes list \<Rightarrow> bytes option \<Rightarrow> backend \<Rightarrow> files \<Rightarrow> (bytes option \<times> backend \<times> files) run" where
  "ask_password h [] password b fs = Ret (password, b, fs)"
| "ask_password h (p # ps) password b fs =
     (if b_open b then Ret (password, b, fs)
      else run_bind (Backend_open h p b fs) (\<lambda>(rc, b, fs). ask_password h ps (Some p) b fs))"

text \<open>
  A wallet with a file.  The first attempt, with the empty password, finds out the cipher; that it
  did is asserted.  The result is the object, the password and whether none was needed.
\<close>

definition open_existing :: "host \<Rightarrow> user \<Rightarrow> qstring \<Rightarrow> files
    \<Rightarrow> ((backend \<times> bytes option \<times> bool) option \<times> files) run" where
  "open_existing h u wallet fs =
     run_bind (Backend_open h [] (Backend_new h wallet) fs) (\<lambda>(pwless, b, fs).
       case b_cipherType b of
         CIPHER_UNKNOWN \<Rightarrow> UB
       | CIPHER_GPG \<Rightarrow> if \<not> b_open b then Ret (None, fs) else Ret (Some (b, None, True), fs)
       | CIPHER_BLOWFISH \<Rightarrow>
           if pwless \<noteq> 0 \<or> \<not> b_open b then
             let b = (if pwless = 0 then Backend_new h wallet else b) in
             run_bind (ask_password h (u_passwords u) None b fs) (\<lambda>(password, b, fs).
               Ret (Some (b, password, False), fs))
           else Ret (Some (b, None, True), fs))"

definition open_new :: "host \<Rightarrow> user \<Rightarrow> qstring \<Rightarrow> files
    \<Rightarrow> ((backend \<times> bytes option \<times> bool) option \<times> files) run" where
  "open_new h u wallet fs =
     (case u_newWallet u of
        None \<Rightarrow> Ret (None, fs)
      | Some (isBlowfish, gpgKey) \<Rightarrow>
          if \<not> isBlowfish then
            run_bind (Backend_setCipherType CIPHER_GPG (Backend_new h wallet)) (\<lambda>b.
              run_bind (Backend_openGpg h gpgKey b fs) (\<lambda>(_, b, fs). Ret (Some (b, None, False), fs)))
          else
            run_bind (Backend_setCipherType CIPHER_BLOWFISH (Backend_new h wallet)) (\<lambda>b.
              run_bind (ask_password h (u_newPasswords u) None b fs) (\<lambda>(password, b, fs).
                Ret (Some (b, password, False), fs))))"

text \<open>An opened wallet gets its handle, its timers and, when it is new, its two folders.\<close>

definition register_wallet :: "host \<Rightarrow> bool \<Rightarrow> qstring \<Rightarrow> int \<Rightarrow> backend \<Rightarrow> ksecretd \<Rightarrow> ksecretd" where
  "register_wallet h brandNew wallet rc b s =
     (let s = put_wallet rc b s;
          s = s\<lparr>ks_syncTimers := KTimeout_addTimer rc syncTime (ks_syncTimers s)\<rparr>;
          s = (if brandNew
               then snd (KSecretD_createFolder h rc (qs ''Form Data'') (snd (KSecretD_createFolder h rc (qs ''Passwords'') s)))
               else s);
          s = (case qmap_find (ks_wallets s) rc of
                 Some b \<Rightarrow> put_wallet rc (snd (Backend_ref b)) s | None \<Rightarrow> s);
          s = (if ks_closeIdle s
               then s\<lparr>ks_closeTimers := KTimeout_addTimer rc (ks_idleTime s) (ks_closeTimers s)\<rparr> else s);
          s = (if brandNew then emit (WalletCreated wallet) s else s)
      in if length (ks_wallets s) = 1 \<and> ks_launchManager s then emit StartManager s else s)"

text \<open>The end of \<open>internalOpen\<close>: what was opened is given up or gets a fresh handle.\<close>

definition finish_open :: "host \<Rightarrow> bool \<Rightarrow> qstring \<Rightarrow> (backend \<times> bytes option \<times> bool) option \<Rightarrow> ksecretd
    \<Rightarrow> (int \<times> ksecretd) run" where
  "finish_open h brandNew wallet res s =
     (case res of None \<Rightarrow> Ret (-1, s)
      | Some (b, password, emptyPass) \<Rightarrow>
          if b_cipherType b = CIPHER_BLOWFISH \<and> \<not> emptyPass \<and> (password = None \<or> \<not> b_open b) then Ret (-1, s)
          else
            (case generateHandle h (ks_wallets s) (ks_rand s) of
               None \<Rightarrow> Diverge
             | Some (rc, n) \<Rightarrow> Ret (rc, register_wallet h brandNew wallet rc b (s\<lparr>ks_rand := n\<rparr>))))"

definition KSecretD_internalOpen :: "host \<Rightarrow> user \<Rightarrow> qstring \<Rightarrow> ksecretd \<Rightarrow> (int \<times> ksecretd) run" where
  "KSecretD_internalOpen h u wallet s =
     (case findWallet wallet s of
        Some (rc, b) \<Rightarrow> Ret (rc, put_wallet rc (snd (Backend_ref b)) s)
      | None \<Rightarrow>
          if 20 < length (ks_wallets s) then Ret (-1, s)
          else
            let brandNew = (\<not> Backend_exists h (ks_files s) wallet) in
            run_bind (if brandNew then open_new h u wallet (ks_files s) else open_existing h u wallet (ks_files s))
              (\<lambda>(res, fs). finish_open h brandNew wallet res (s\<lparr>ks_files := fs\<rparr>)))"

text \<open>On the first use the wallet asked for becomes the default wallet.\<close>

definition first_use :: "host \<Rightarrow> qstring \<Rightarrow> ksecretd \<Rightarrow> ksecretd" where
  "first_use h wallet s =
     (if ks_firstUse s then
        let s = (if wallet \<noteq> localWallet (ks_settings s)
                 then s\<lparr>ks_settings := (ks_settings s)\<lparr>set_defaultWallet := wallet\<rparr>\<rparr> else s)
        in if localWallet (ks_settings s) \<in> set (KSecretD_wallets h s)
           then s\<lparr>ks_firstUse := False, ks_settings := (ks_settings s)\<lparr>set_firstUse := False\<rparr>\<rparr>
           else s
      else s)"

definition KSecretD_doTransactionOpen :: "host \<Rightarrow> user \<Rightarrow> qstring \<Rightarrow> ksecretd \<Rightarrow> (int \<times> ksecretd) run" where
  "KSecretD_doTransactionOpen h u wallet s = KSecretD_internalOpen h u wallet (first_use h wallet s)"

definition pam_register :: "host \<Rightarrow> bool \<Rightarrow> qstring \<Rightarrow> backend \<Rightarrow> ksecretd \<Rightarrow> (int \<times> ksecretd) run" where
  "pam_register h brandNew wallet b s =
     (case generateHandle h (ks_wallets s) (ks_rand s) of
        None \<Rightarrow> Diverge
      | Some (handle, n) \<Rightarrow>
          let s = put_wallet handle b (s\<lparr>ks_rand := n\<rparr>);
              s = s\<lparr>ks_syncTimers := KTimeout_addTimer handle syncTime (ks_syncTimers s)\<rparr>;
              s = (if ks_closeIdle s
                   then s\<lparr>ks_closeTimers := KTimeout_addTimer handle (ks_idleTime s) (ks_closeTimers s)\<rparr> else s);
              s = (if brandNew then emit (WalletCreated wallet) s else s);
              s = emit (WalletChangeState wallet handle) s;
              s = (if length (ks_wallets s) = 1 \<and> ks_launchManager s then emit StartManager s else s)
          in Ret (handle, s))"

definition KSecretD_pamOpen :: "host \<Rightarrow> qstring \<Rightarrow> bytes \<Rightarrow> ksecretd \<Rightarrow> (int \<times> ksecretd) run" where
  "KSecretD_pamOpen h wallet passwordHash s =
     (if ks_processing s then Ret (-1, s)
      else case findWallet wallet s of
        Some (rc, b) \<Rightarrow> Ret (rc, s)
      | None \<Rightarrow>
          if 20 < length (ks_wallets s) then Ret (-1, s)
          else
            let brandNew = (wallet \<notin> set (KSecretD_wallets h s)) in
            run_bind (if brandNew then Backend_setCipherType CIPHER_BLOWFISH (Backend_new h wallet)
                      else Ret (Backend_new h wallet)) (\<lambda>b.
              run_bind (Backend_openPreHashed h passwordHash b (ks_files s)) (\<lambda>(openrc, b, fs).
                let s = s\<lparr>ks_files := fs\<rparr> in
                if openrc \<noteq> 0 \<or> \<not> b_open b then Ret (openrc, s)
                else
                  pam_register h brandNew wallet b s)))"

section \<open>Changing the password\<close>

text \<open>
  The wallet is opened first if need be, and closed again then.  The new password is put into the
  object before the wallet is saved with it.
\<close>

definition renew_password :: "host \<Rightarrow> user \<Rightarrow> backend \<Rightarrow> bool \<Rightarrow> ksecretd \<Rightarrow> (backend \<times> bool \<times> ksecretd) run" where
  "renew_password h u w reclose s =
     (if b_cipherType w = CIPHER_GPG
      then (if b_gpgKey w = None then UB else Ret (w, reclose, emit (ErrorMessage ''Use GPG tools'') s))
      else
        case u_changePassword u of
          None \<Rightarrow> Ret (w, reclose, s)
        | Some p \<Rightarrow>
            let (w, fs) = Backend_setPassword h p w (ks_files s) in
            run_bind (Backend_close h True w fs) (\<lambda>(rc, w, fs).
              if rc < 0 then Ret (w, True, emit (ErrorMessage ''Password was not changed'') (s\<lparr>ks_files := fs\<rparr>))
              else
                run_bind (Backend_open h p w fs) (\<lambda>(rc, w, fs).
                  if rc < 0 then Ret (w, True, emit (ErrorMessage ''Data may be lost'') (s\<lparr>ks_files := fs\<rparr>))
                  else Ret (w, reclose, s\<lparr>ks_files := fs\<rparr>))))"

definition KSecretD_changeOn :: "host \<Rightarrow> user \<Rightarrow> int \<Rightarrow> backend \<Rightarrow> bool \<Rightarrow> ksecretd \<Rightarrow> ksecretd run" where
  "KSecretD_changeOn h u handle w reclose s =
     run_bind (renew_password h u w reclose s) (\<lambda>(w, reclose, s).
       let s = put_wallet handle w s in
       if reclose then run_bind (KSecretD_internalClose h w handle True s) (\<lambda>(_, s). Ret s) else Ret s)"

definition KSecretD_doTransactionChangePassword :: "host \<Rightarrow> user \<Rightarrow> qstring \<Rightarrow> ksecretd \<Rightarrow> ksecretd run" where
  "KSecretD_doTransactionChangePassword h u wallet s =
     (case findWallet wallet s of
        Some (handle, w) \<Rightarrow> KSecretD_changeOn h u handle w False s
      | None \<Rightarrow>
          run_bind (KSecretD_doTransactionOpen h u wallet s) (\<lambda>(handle, s).
            if handle = -1 then Ret (emit (ErrorMessage ''Unable to open wallet'') s)
            else
              (case qmap_find (ks_wallets s) handle of
                 None \<Rightarrow> UB
               | Some w \<Rightarrow> KSecretD_changeOn h u handle w True s)))"

section \<open>The queue of requests\<close>

text \<open>A new request gets the number of its promise; the queue is worked on from the event loop.\<close>

definition enqueue :: "transaction_type \<Rightarrow> qstring \<Rightarrow> int \<Rightarrow> bool \<Rightarrow> ksecretd \<Rightarrow> nat \<times> ksecretd" where
  "enqueue t wallet wId modal s =
     (let n = ks_promises s in
      (n, emit ProcessTransactions (s\<lparr>ks_promises := n + 1, ks_transactions := ks_transactions s @
        [\<lparr>tr_type = t, tr_wallet = wallet, tr_wId = wId, tr_modal = modal, tr_promise = n\<rparr>]\<rparr>)))"

text \<open>\<open>Inl\<close> is a future that is ready with its value.\<close>

definition KSecretD_open :: "qstring \<Rightarrow> int \<Rightarrow> ksecretd \<Rightarrow> (int + nat) \<times> ksecretd" where
  "KSecretD_open wallet wId s =
     (if \<not> KSecretD_isEnabled s then (Inl (-1), s)
      else let (n, s) = enqueue Open wallet wId True s in (Inr n, s))"

definition KSecretD_internalChangePassword :: "qstring \<Rightarrow> int \<Rightarrow> ksecretd \<Rightarrow> nat \<times> ksecretd" where
  "KSecretD_internalChangePassword wallet wId s = enqueue ChangePassword wallet wId False s"

text \<open>
  After a failed open the requests of the same client for the same wallet get the result -1, but
  they stay in the queue.
\<close>

definition fail_others :: "transaction \<Rightarrow> ksecretd \<Rightarrow> ksecretd" where
  "fail_others t s =
     fold (\<lambda>x. if tr_type x = Open \<and> tr_wallet x = tr_wallet t \<and> tr_wId x = tr_wId t
               then emit (PromiseResult (tr_promise x) (-1)) else id) (ks_transactions s) s"

fun run_transactions :: "host \<Rightarrow> (nat \<Rightarrow> user) \<Rightarrow> transaction list \<Rightarrow> ksecretd \<Rightarrow> ksecretd run" where
  "run_transactions h us [] s = Ret s"
| "run_transactions h us (t # ts) s =
     (let s = s\<lparr>ks_transactions := ts\<rparr> in
      run_bind
        (case tr_type t of
           Open \<Rightarrow>
             run_bind (KSecretD_doTransactionOpen h (us (tr_promise t)) (tr_wallet t) s) (\<lambda>(res, s).
               let s = (if res < 0 then fail_others t s else s)
               in Ret (emit (PromiseResult (tr_promise t) res) s))
         | ChangePassword \<Rightarrow>
             run_bind (KSecretD_doTransactionChangePassword h (us (tr_promise t)) (tr_wallet t) s) (\<lambda>s.
               Ret (emit (PromiseResult (tr_promise t) 0) s)))
        (run_transactions h us ts))"

definition KSecretD_processTransactions :: "host \<Rightarrow> (nat \<Rightarrow> user) \<Rightarrow> ksecretd \<Rightarrow> ksecretd run" where
  "KSecretD_processTransactions h us s =
     (if ks_processing s then Ret s
      else
        run_bind (run_transactions h us (ks_transactions s) (s\<lparr>ks_processing := True\<rparr>)) (\<lambda>s.
          Ret (s\<lparr>ks_processing := False\<rparr>)))"

section \<open>Settings and the save directory\<close>

fun close_all :: "host \<Rightarrow> bool \<Rightarrow> (int \<times> backend) list \<Rightarrow> ksecretd \<Rightarrow> ksecretd run" where
  "close_all h save [] s = Ret s"
| "close_all h save ((handle, w) # ws) s =
     run_bind (KSecretD_internalClose h w handle save s) (\<lambda>(_, s). close_all h save ws s)"

text \<open>The wallets whose file is gone are closed without saving.\<close>

definition KSecretD_emitWalletListDirty :: "host \<Rightarrow> ksecretd \<Rightarrow> ksecretd run" where
  "KSecretD_emitWalletListDirty h s =
     close_all h False (filter (\<lambda>(_, w). b_name w \<notin> set (KSecretD_wallets h s)) (ks_wallets s)) s"

definition reconfigure_timers :: "bool \<Rightarrow> int \<Rightarrow> ksecretd \<Rightarrow> ksecretd" where
  "reconfigure_timers idleSave timeSave s =
     (if ks_closeIdle s then
        let hs = map fst (ks_wallets s);
            s = (if ks_idleTime s \<noteq> timeSave
                 then s\<lparr>ks_closeTimers := fold (\<lambda>i. KTimeout_resetTimer i (ks_idleTime s)) hs (ks_closeTimers s)\<rparr> else s)
        in if \<not> idleSave
           then s\<lparr>ks_closeTimers := fold (\<lambda>i. KTimeout_addTimer i (ks_idleTime s)) hs (ks_closeTimers s)\<rparr> else s
      else s\<lparr>ks_closeTimers := KTimeout_clear (ks_closeTimers s)\<rparr>)"

text \<open>The interval of the timers in milliseconds, \<open>settings.idleTimeout() * 60 * 1000\<close>: two products of
  the 32-bit type int, each undefined when it overflows.  The setting is in minutes and has no maximum.\<close>

definition idle_interval :: "int \<Rightarrow> int run" where
  "idle_interval minutes = run_bind (c_int (minutes * 60)) (\<lambda>m. c_int (m * 1000))"

definition KSecretD_reconfigure :: "host \<Rightarrow> ksecretd \<Rightarrow> ksecretd run" where
  "KSecretD_reconfigure h s =
     (let st = ks_settings s; idleSave = ks_closeIdle s; timeSave = ks_idleTime s;
          s = s\<lparr>ks_firstUse := set_firstUse st, ks_launchManager := set_launchManager st,
                ks_closeIdle := set_closeWhenIdle st\<rparr>
      in run_bind (idle_interval (set_idleTimeout st)) (\<lambda>t.
           let s = reconfigure_timers idleSave timeSave (s\<lparr>ks_idleTime := t\<rparr>)
           in if \<not> KSecretD_isEnabled s
              then run_bind (close_all h True (ks_wallets s) s) (\<lambda>s. Ret (emit Quit s))
              else Ret s))"

lemma idle_interval_eq: "idle_interval t = (if -35791 \<le> t \<and> t \<le> 35791 then Ret (t * 60000) else UB)"
  by (auto simp: idle_interval_def c_int_def)

text \<open>A setting of more than 35791 minutes, about 25 days, makes the program undefined.\<close>

lemma reconfigure_overflow: "35791 < set_idleTimeout (ks_settings s) \<Longrightarrow> KSecretD_reconfigure h s = UB"
  by (simp add: KSecretD_reconfigure_def idle_interval_eq Let_def)

text \<open>The constructor; \<open>n\<close> is where the generator of handles starts.\<close>

definition KSecretD_new :: "host \<Rightarrow> settings \<Rightarrow> files \<Rightarrow> nat \<Rightarrow> ksecretd run" where
  "KSecretD_new h st fs n =
     KSecretD_reconfigure h \<lparr>ks_wallets = [], ks_failed = 0, ks_closeIdle = False, ks_launchManager = False,
       ks_firstUse = False, ks_idleTime = 0, ks_closeTimers = KTimeout_new, ks_syncTimers = KTimeout_new,
       ks_processing = False, ks_transactions = [], ks_promises = 0, ks_rand = n, ks_settings = st, ks_files = fs,
       ks_events = []\<rparr>"

text \<open>The destructor saves what is open; a failed save is ignored.\<close>

fun KSecretD_destroy :: "host \<Rightarrow> (int \<times> backend) list \<Rightarrow> files \<Rightarrow> files run" where
  "KSecretD_destroy h [] fs = Ret fs"
| "KSecretD_destroy h ((handle, w) # ws) fs =
     run_bind (Backend_close h True w fs) (\<lambda>(rc, w, fs). KSecretD_destroy h ws fs)"

end
