(* ===== verification/EntryStore.thy ===== *)
theory EntryStore
  imports BackendHashes
begin

text \<open>
  The interface between the daemon and the wallet: a store of entries that are found under a
  folder and a key.  \<open>put\<close> writes an entry into a folder, \<open>get\<close> finds it; the law is that a write
  is seen under its own folder and key and nowhere else.  What any sequence of writes leaves
  follows from the law alone, once for the wallet object and once for the daemon in front of it.
\<close>

locale entry_store =
  fixes ok :: "'s \<Rightarrow> bool" and put :: "'f \<Rightarrow> 'e \<Rightarrow> 's \<Rightarrow> 's"
    and get :: "'f \<Rightarrow> 'k \<Rightarrow> 's \<Rightarrow> 'e option" and key :: "'e \<Rightarrow> 'k"
  assumes ok_put: "ok s \<Longrightarrow> ok (put f e s)"
    and get_put: "ok s \<Longrightarrow> get g k (put f e s) = (if g = f \<and> k = key e then Some e else get g k s)"

context entry_store begin

lemma ok_puts: "ok s \<Longrightarrow> ok (fold (\<lambda>(f, e). put f e) ws s)"
  by (induction ws arbitrary: s) (auto simp: ok_put)

text \<open>The last matching write wins.\<close>

lemma get_puts:
  assumes "ok s"
  shows "get g k (fold (\<lambda>(f, e). put f e) ws s) =
    (case List.find (\<lambda>(f, e). f = g \<and> key e = k) (rev ws) of Some (f, e) \<Rightarrow> Some e | None \<Rightarrow> get g k s)"
proof (induction ws rule: rev_induct)
  case (snoc w ws)
  obtain f e where w: "w = (f, e)" by fastforce
  have "ok (fold (\<lambda>(f, e). put f e) ws s)" using assms by (rule ok_puts)
  with snoc show ?case by (auto simp: w get_put)
qed simp

lemma puts_commute:
  assumes "ok s" and "f \<noteq> f' \<or> key e \<noteq> key e'"
  shows "get g k (put f e (put f' e' s)) = get g k (put f' e' (put f e s))"
  using assms by (auto simp: get_put ok_put)

end

lemma wallet_put:
  assumes "wf_entries b \<and> b_open b"
  shows "wf_entries (Backend_writeEntry h e (Backend_setFolder f b)) \<and>
      b_open (Backend_writeEntry h e (Backend_setFolder f b))"
    and "lookup_entry (Backend_writeEntry h e (Backend_setFolder f b)) g k =
      (if g = f \<and> k = e_key e then Some e else lookup_entry b g k)"
proof -
  let ?b = "Backend_setFolder f b"
  have b: "wf_entries ?b" "b_open ?b" "b_folder ?b = f" "content ?b = content b"
    using assms by (simp_all add: Backend_setFolder_def)
  show "lookup_entry (Backend_writeEntry h e ?b) g k = (if g = f \<and> k = e_key e then Some e else lookup_entry b g k)"
    unfolding lookup_entry_def content_writeEntry(1) [OF b(1,2)] b(3,4)
    by (auto split: option.splits)
  show "wf_entries (Backend_writeEntry h e ?b) \<and> b_open (Backend_writeEntry h e ?b)"
    using content_writeEntry(2) [OF b(1,2)] b(2) by (simp add: Backend_writeEntry_def)
qed

interpretation wallet: entry_store "\<lambda>b. wf_entries b \<and> b_open b"
    "\<lambda>f e b. Backend_writeEntry h e (Backend_setFolder f b)" "\<lambda>f k b. lookup_entry b f k" e_key for h
  by unfold_locales (simp_all add: wallet_put)

end
