(* ===== verification/KSecretDProps.thy ===== *)
theory KSecretDProps
  imports KSecretDOpen EntryStore
begin

text \<open>
  The properties of the daemon: entries written through a handle are read back through it, the
  handles, timers and counters stay consistent in every run, handles are fresh, and what the
  operations do when the wallet is not open, cannot be saved, or is asked for twice.
\<close>

section \<open>Access through a handle\<close>

lemma getWallet_valid:
  assumes "qmap_find (ks_wallets s) handle = Some b" and "handle \<noteq> 0"
  obtains s' where "KSecretD_getWallet handle s = (Some b, s')" and "ks_wallets s' = ks_wallets s"
    and "ks_events s' = ks_events s" and "ks_files s' = ks_files s"
  using assms by (fastforce simp: KSecretD_getWallet_def Let_def)

lemma initiateSync_frame [simp]:
  "ks_wallets (initiateSync handle s) = ks_wallets s" "ks_files (initiateSync handle s) = ks_files s"
  by (simp_all add: initiateSync_def)

lemma put_wallet_simps [simp]:
  "ks_wallets (put_wallet handle b s) = qmap_insert handle b (ks_wallets s)"
  "ks_files (put_wallet handle b s) = ks_files s"
  by (simp_all add: put_wallet_def)

text \<open>A handle that is usable: its wallet is open and well-formed.\<close>

definition usable :: "int \<Rightarrow> ksecretd \<Rightarrow> bool" where
  "usable handle s \<longleftrightarrow> handle \<noteq> 0 \<and> qmap_wf (ks_wallets s) \<and>
     (case qmap_find (ks_wallets s) handle of None \<Rightarrow> False | Some b \<Rightarrow> wf_entries b \<and> b_open b)"

definition entry_at :: "int \<Rightarrow> qstring \<Rightarrow> qstring \<Rightarrow> ksecretd \<Rightarrow> entry option" where
  "entry_at handle f k s =
     (case qmap_find (ks_wallets s) handle of None \<Rightarrow> None | Some b \<Rightarrow> lookup_entry b f k)"

lemma usableE:
  assumes "usable handle s"
  obtains b where "qmap_find (ks_wallets s) handle = Some b" and "wf_entries b" and "b_open b"
    and "handle \<noteq> 0" and "qmap_wf (ks_wallets s)"
  using assms by (auto simp: usable_def split: option.splits)

lemma write_to_store:
  assumes "usable handle s"
  shows "usable handle (snd (write_to h handle f e s))"
    and "entry_at handle g k (snd (write_to h handle f e s)) =
      (if g = f \<and> k = e_key e then Some e else entry_at handle g k s)"
    and "fst (write_to h handle f e s) = 0"
proof -
  obtain b where b: "qmap_find (ks_wallets s) handle = Some b" "wf_entries b \<and> b_open b" "handle \<noteq> 0"
    "qmap_wf (ks_wallets s)"
    using assms by (auto elim: usableE)
  obtain s' where s': "KSecretD_getWallet handle s = (Some b, s')" "ks_wallets s' = ks_wallets s"
    using getWallet_valid [OF b(1,3)] by metis
  let ?b = "Backend_writeEntry h e (Backend_setFolder f b)"
  have f: "qmap_find (ks_wallets (snd (write_to h handle f e s))) handle = Some ?b"
    "qmap_wf (ks_wallets (snd (write_to h handle f e s)))"
    using b s' by (simp_all add: write_to_def qmap_simps)
  show "usable handle (snd (write_to h handle f e s))"
    unfolding usable_def f(1) using b(3) f(2) wallet.ok_put [OF b(2)] by simp
  show "entry_at handle g k (snd (write_to h handle f e s)) =
      (if g = f \<and> k = e_key e then Some e else entry_at handle g k s)"
    unfolding entry_at_def f(1) option.case b(1) by (rule wallet.get_put [OF b(2)])
  show "fst (write_to h handle f e s) = 0" using s' by (simp add: write_to_def)
qed

interpretation daemon: entry_store "usable handle" "\<lambda>f e s. snd (write_to h handle f e s)" "entry_at handle" e_key
  for handle h
  by unfold_locales (simp_all add: write_to_store)

lemma readEntry_at:
  assumes "usable handle s"
  shows "fst (KSecretD_readEntry handle f k s) = (case entry_at handle f k s of None \<Rightarrow> [] | Some e \<Rightarrow> e_value e)"
proof -
  obtain b where b: "qmap_find (ks_wallets s) handle = Some b" "b_open b" "handle \<noteq> 0"
    using assms by (auto elim: usableE)
  obtain s' where "KSecretD_getWallet handle s = (Some b, s')"
    using getWallet_valid [OF b(1,3)] by metis
  moreover have "Backend_readEntry (Backend_setFolder f b) k = lookup_entry b f k"
    using b(2) by (simp add: readEntry_lookup Backend_setFolder_def lookup_entry_def)
  ultimately show ?thesis
    using b(1) by (simp add: KSecretD_readEntry_def entry_at_def Let_def split: option.split)
qed

definition daemon_entry :: "qstring \<Rightarrow> bytes \<Rightarrow> entry_type \<Rightarrow> entry" where
  "daemon_entry key v t = \<lparr>e_key = key, e_value = v, e_type = t\<rparr>"

lemma KSecretD_writeEntry_to:
  "KSecretD_writeEntry h handle f key v t = write_to h handle f (daemon_entry key v t)"
  by (simp add: KSecretD_writeEntry_def Entry_setType_def Entry_setValue_def Entry_setKey_def Entry_new_def
      daemon_entry_def)

lemma writes_puts:
  "fold (\<lambda>(f, key, v, t) s. snd (KSecretD_writeEntry h handle f key v t s)) ws s =
     fold (\<lambda>(f, e) s. snd (write_to h handle f e s)) (map (\<lambda>(f, key, v, t). (f, daemon_entry key v t)) ws) s"
  by (induction ws arbitrary: s) (auto simp: KSecretD_writeEntry_to)

text \<open>After any sequence of writes through the handle of an open wallet, reading a key gives the
  value last written under that folder and key, and what was there before if there was no such
  write.\<close>

theorem last_write_wins:
  assumes "usable handle s"
  shows "fst (KSecretD_readEntry handle g k
      (fold (\<lambda>(f, key, v, t) s. snd (KSecretD_writeEntry h handle f key v t s)) ws s)) =
    (case List.find (\<lambda>(f, key, v, t). f = g \<and> key = k) (rev ws) of
       Some (f, key, v, t) \<Rightarrow> v
     | None \<Rightarrow> fst (KSecretD_readEntry handle g k s))"
proof -
  let ?ps = "map (\<lambda>(f, key, v, t). (f, daemon_entry key v t)) ws"
  have u: "usable handle (fold (\<lambda>(f, e) s. snd (write_to h handle f e s)) ?ps s)"
    by (rule daemon.ok_puts [OF assms])
  have "List.find (\<lambda>(f, e). f = g \<and> e_key e = k) (map (\<lambda>(f, key, v, t). (f, daemon_entry key v t)) xs) =
      map_option (\<lambda>(f, key, v, t). (f, daemon_entry key v t)) (List.find (\<lambda>(f, key, v, t). f = g \<and> key = k) xs)" for xs
    by (induction xs) (auto simp: daemon_entry_def)
  then show ?thesis
    unfolding writes_puts readEntry_at [OF u] daemon.get_puts [OF assms] readEntry_at [OF assms]
    by (auto simp: rev_map daemon_entry_def split: option.split)
qed

definition example_settings :: settings where
  "example_settings = \<lparr>set_firstUse = False, set_launchManager = False, set_closeWhenIdle = True, set_idleTimeout = 10,
     set_kSecretDEnabled = True, set_kWalletDEnabled = True, set_useOneWallet = True,
     set_defaultWallet = qs ''kdewallet'', set_localWallet = qs ''localwallet''\<rparr>"

definition fresh_daemon :: ksecretd where
  "fresh_daemon = \<lparr>ks_wallets = [], ks_failed = 0, ks_closeIdle = False, ks_launchManager = False, ks_firstUse = False,
     ks_idleTime = 0, ks_closeTimers = KTimeout_new, ks_syncTimers = KTimeout_new, ks_processing = False,
     ks_transactions = [], ks_promises = 0, ks_rand = 0, ks_settings = example_settings, ks_files = Map.empty,
     ks_events = []\<rparr>"

definition empty_wallet :: backend where
  "empty_wallet = (Backend_new example_host (qs ''w''))\<lparr>b_open := True, b_cipherType := CIPHER_BLOWFISH\<rparr>"

definition one_wallet :: ksecretd where
  "one_wallet = fresh_daemon\<lparr>ks_wallets := [(7, empty_wallet)]\<rparr>"

lemma one_wallet_usable: "usable 7 one_wallet"
  by (simp add: usable_def one_wallet_def empty_wallet_def Backend_new_def qmap_wf_def qmap_find_def wf_entries_def)

theorem last_write_wins_witness:
  "fst (KSecretD_readEntry 7 (qs ''f'') (qs ''k'')
     (fold (\<lambda>(f, key, v, t) s. snd (KSecretD_writeEntry example_host 7 f key v t s))
       [(qs ''f'', qs ''k'', [1], Stream), (qs ''f'', qs ''k'', [2], Stream), (qs ''g'', qs ''k'', [3], Stream)]
       one_wallet)) = [2]"
  using last_write_wins [OF one_wallet_usable, of "qs ''f''" "qs ''k''" example_host
      "[(qs ''f'', qs ''k'', [1], Stream), (qs ''f'', qs ''k'', [2], Stream), (qs ''g'', qs ''k'', [3], Stream)]"]
  by (simp add: qs_def)

section \<open>The invariant of the daemon\<close>

definition handles :: "ksecretd \<Rightarrow> int set" where
  "handles s = dom (qmap_find (ks_wallets s))"

text \<open>
  Handle 0 is never given out; exactly the open wallets have a timer for closing when that is
  enabled, and no wallet has one when it is not; only open wallets have a timer for saving; the
  failure count stays below the limit; at most 21 wallets are open.  A wallet that is being opened
  is in the hash before its timer is set: \<open>X\<close> are the handles still without one.
\<close>

definition ks_inv_but :: "int set \<Rightarrow> ksecretd \<Rightarrow> bool" where
  "ks_inv_but X s \<longleftrightarrow> qmap_wf (ks_wallets s) \<and> 0 \<notin> handles s \<and> length (ks_wallets s) \<le> 21 \<and>
     kt_inv (ks_closeTimers s) \<and> kt_inv (ks_syncTimers s) \<and> 0 \<le> ks_idleTime s \<and>
     kt_ids (ks_closeTimers s) = (if ks_closeIdle s then handles s - X else {}) \<and>
     kt_ids (ks_syncTimers s) \<subseteq> handles s \<and> 0 \<le> ks_failed s \<and> ks_failed s \<le> 5 \<and>
     0 \<le> set_idleTimeout (ks_settings s)"

abbreviation ks_inv :: "ksecretd \<Rightarrow> bool" where
  "ks_inv \<equiv> ks_inv_but {}"

lemma ks_inv_frame [simp]:
  "ks_inv_but X (s\<lparr>ks_files := fs\<rparr>) = ks_inv_but X s" "ks_inv_but X (s\<lparr>ks_events := es\<rparr>) = ks_inv_but X s"
  "ks_inv_but X (s\<lparr>ks_transactions := ts\<rparr>) = ks_inv_but X s" "ks_inv_but X (s\<lparr>ks_promises := n\<rparr>) = ks_inv_but X s"
  "ks_inv_but X (s\<lparr>ks_rand := n\<rparr>) = ks_inv_but X s" "ks_inv_but X (s\<lparr>ks_processing := p\<rparr>) = ks_inv_but X s"
  "ks_inv_but X (s\<lparr>ks_firstUse := p\<rparr>) = ks_inv_but X s" "ks_inv_but X (s\<lparr>ks_launchManager := p\<rparr>) = ks_inv_but X s"
  by (simp_all add: ks_inv_but_def handles_def)

lemma ks_inv_emit [simp]: "ks_inv_but X (emit e s) = ks_inv_but X s"
  by (simp add: emit_def)

lemma handles_simps [simp]:
  "handles (emit e s) = handles s" "handles (s\<lparr>ks_files := fs\<rparr>) = handles s"
  "handles (initiateSync i s) = handles s" "handles (s\<lparr>ks_rand := n\<rparr>) = handles s"
  by (simp_all add: handles_def emit_def initiateSync_def)

lemma length_qmap_insert: "qmap_wf m \<Longrightarrow>
    length (qmap_insert k v m) = (if qmap_find m k = None then Suc (length m) else length m)"
  by (induction k v m rule: qmap_insert.induct)
    (auto simp: qmap_wf_def qmap_find_def map_of_eq_None_iff dest: less_trans)

lemma length_qmap_remove: "length (qmap_remove k m) \<le> length m"
  by (simp add: qmap_remove_def)

lemma handles_put: "qmap_wf (ks_wallets s) \<Longrightarrow> handles (put_wallet i b s) = insert i (handles s)"
  by (simp add: handles_def qmap_simps)

lemma ks_inv_put:
  assumes "ks_inv_but X s" and "i \<in> handles s"
  shows "ks_inv_but X (put_wallet i b s)" and "handles (put_wallet i b s) = handles s"
proof -
  have wf: "qmap_wf (ks_wallets s)" using assms(1) by (simp add: ks_inv_but_def)
  show h: "handles (put_wallet i b s) = handles s" using handles_put [OF wf] assms(2) by auto
  have "qmap_find (ks_wallets s) i \<noteq> None" using assms(2) by (auto simp: handles_def)
  then have "length (ks_wallets (put_wallet i b s)) = length (ks_wallets s)"
    using wf by (simp add: length_qmap_insert)
  with assms(1) wf show "ks_inv_but X (put_wallet i b s)"
    unfolding ks_inv_but_def h by (simp add: put_wallet_def qmap_simps)
qed

lemma ks_inv_count_failure: "ks_inv_but X s \<Longrightarrow> ks_inv_but X (count_failure s)"
  by (auto simp: count_failure_def ks_inv_but_def handles_def emit_def Let_def)

lemma ks_inv_getWallet:
  assumes "ks_inv_but X s" and "KSecretD_getWallet i s = (r, s')"
  shows "ks_inv_but X s'" and "handles s' = handles s" and "r = Some b \<Longrightarrow> i \<in> handles s"
    and "r = Some b \<Longrightarrow> qmap_find (ks_wallets s) i = Some b" and "ks_wallets s' = ks_wallets s"
proof -
  have "ks_inv_but X s' \<and> handles s' = handles s \<and> (r = Some b \<longrightarrow> qmap_find (ks_wallets s) i = Some b) \<and>
      ks_wallets s' = ks_wallets s"
  proof (cases "i = 0 \<or> qmap_find (ks_wallets s) i = None")
    case True
    then have "r = None" "s' = s \<or> s' = count_failure s"
      using assms(2) by (auto simp: KSecretD_getWallet_def split: if_splits)
    moreover have "ks_wallets (count_failure s) = ks_wallets s" by (simp add: count_failure_def emit_def Let_def)
    ultimately show ?thesis using assms(1) ks_inv_count_failure [OF assms(1)] by (auto simp: handles_def)
  next
    case False
    then obtain w where w: "qmap_find (ks_wallets s) i = Some w" "i \<noteq> 0" by auto
    let ?t = "if ks_closeIdle s then KTimeout_resetTimer i (ks_idleTime s) (ks_closeTimers s) else ks_closeTimers s"
    have s': "s' = s\<lparr>ks_failed := 0, ks_closeTimers := ?t\<rparr>" and r: "r = Some w"
      using assms(2) w by (auto simp: KSecretD_getWallet_def Let_def split: if_splits)
    have h: "handles (s\<lparr>ks_failed := a, ks_closeTimers := t\<rparr>) = handles s" for a t by (simp add: handles_def)
    have "handles s' = handles s" "ks_wallets s' = ks_wallets s" by (simp_all add: s' h)
    moreover have "ks_inv_but X s'"
      using assms(1) kt_reset [of "ks_closeTimers s" "ks_idleTime s" i]
      by (simp add: ks_inv_but_def s' h)
    ultimately show ?thesis using w r by simp
  qed
  then show "ks_inv_but X s'" "handles s' = handles s" "r = Some b \<Longrightarrow> i \<in> handles s"
    "r = Some b \<Longrightarrow> qmap_find (ks_wallets s) i = Some b" "ks_wallets s' = ks_wallets s"
    by (auto simp: handles_def)
qed

lemma ks_inv_initiateSync:
  assumes "ks_inv_but X s" and "i \<in> handles s"
  shows "ks_inv_but X (initiateSync i s)"
proof -
  have "kt_inv (ks_syncTimers s)" using assms(1) by (simp add: ks_inv_but_def)
  from kt.add_reset [OF this, of syncTime syncTime i]
  have "kt_inv (ks_syncTimers (initiateSync i s)) \<and>
      kt_ids (ks_syncTimers (initiateSync i s)) = insert i (kt_ids (ks_syncTimers s))"
    by (simp add: initiateSync_def syncTime_def)
  with assms show ?thesis by (auto simp: ks_inv_but_def initiateSync_def handles_def)
qed

lemma ks_inv_updated:
  assumes "ks_inv_but X s" and "i \<in> handles s"
  shows "ks_inv_but X (initiateSync i (put_wallet i b s))"
  using ks_inv_put [OF assms] assms(2) by (intro ks_inv_initiateSync) auto

text \<open>Every operation that goes through \<open>getWallet\<close> puts the wallet back under its handle.\<close>

lemmas access_defs = KSecretD_folderList_def KSecretD_createFolder_def KSecretD_readMap_def KSecretD_readEntry_def
  KSecretD_entryList_def KSecretD_readPassword_def write_to_def KSecretD_writeEntry_def KSecretD_writePassword_def
  KSecretD_hasEntry_def KSecretD_renameEntry_def

lemma ks_inv_access:
  assumes "ks_inv s"
  shows "ks_inv (snd (KSecretD_folderList i s))" "ks_inv (snd (KSecretD_createFolder h i f s))"
    "ks_inv (snd (KSecretD_readMap i f k s))" "ks_inv (snd (KSecretD_readEntry i f k s))"
    "ks_inv (snd (KSecretD_entryList i f s))" "ks_inv (snd (KSecretD_readPassword h i f k s))"
    "ks_inv (snd (KSecretD_writeEntry h i f k v t s))" "ks_inv (snd (KSecretD_writePassword h i f k p s))"
    "ks_inv (snd (KSecretD_hasEntry i f k s))" "ks_inv (snd (KSecretD_renameEntry h i f k k' s))"
    "KSecretD_entryType i f k s = Ret (r, s') \<Longrightarrow> ks_inv s'"
    "KSecretD_removeEntry h i f k s = Ret (rc, s') \<Longrightarrow> ks_inv s'" "ks_inv (snd (KSecretD_isOpen i s))"
proof -
  obtain r s1 where g: "KSecretD_getWallet i s = (r, s1)" by fastforce
  note i = ks_inv_getWallet [OF assms g]
  have p: "r = Some b \<Longrightarrow> ks_inv (put_wallet i b' s1)" "r = Some b \<Longrightarrow> ks_inv (initiateSync i (put_wallet i b' s1))" for b b'
    using ks_inv_put [OF i(1), of i] ks_inv_updated [OF i(1), of i] i(2) i(3) [of b] by auto
  show "ks_inv (snd (KSecretD_folderList i s))" "ks_inv (snd (KSecretD_createFolder h i f s))"
    "ks_inv (snd (KSecretD_readMap i f k s))" "ks_inv (snd (KSecretD_readEntry i f k s))"
    "ks_inv (snd (KSecretD_entryList i f s))" "ks_inv (snd (KSecretD_readPassword h i f k s))"
    "ks_inv (snd (KSecretD_writeEntry h i f k v t s))" "ks_inv (snd (KSecretD_writePassword h i f k p s))"
    "ks_inv (snd (KSecretD_hasEntry i f k s))" "ks_inv (snd (KSecretD_renameEntry h i f k k' s))"
    using i(1) p by (auto simp: access_defs g Let_def split: option.split prod.split)
  show "KSecretD_entryType i f k s = Ret (r', s') \<Longrightarrow> ks_inv s'" for r'
    using i(1) p by (auto simp: KSecretD_entryType_def g Let_def split: option.splits if_splits)
  show "KSecretD_removeEntry h i f k s = Ret (rc, s') \<Longrightarrow> ks_inv s'"
    using i(1) p by (auto simp: KSecretD_removeEntry_def g run_bind_Ret_iff split: option.splits if_splits)
  show "ks_inv (snd (KSecretD_isOpen i s))"
    using assms ks_inv_count_failure [OF assms]
    by (auto simp: KSecretD_isOpen_def ks_inv_but_def handles_def split: option.split)
qed

lemma ks_inv_createFolder:
  assumes "ks_inv_but X s"
  shows "ks_inv_but X (snd (KSecretD_createFolder h i f s))" and "handles (snd (KSecretD_createFolder h i f s)) = handles s"
    and "ks_closeIdle (snd (KSecretD_createFolder h i f s)) = ks_closeIdle s"
proof -
  obtain r s1 where g: "KSecretD_getWallet i s = (r, s1)" by fastforce
  note w = ks_inv_getWallet [OF assms g]
  have "ks_inv_but X (snd (KSecretD_createFolder h i f s)) \<and> handles (snd (KSecretD_createFolder h i f s)) = handles s"
  proof (cases r)
    case None
    then show ?thesis using w(1,2) by (simp add: KSecretD_createFolder_def g)
  next
    case (Some b)
    with ks_inv_put(2) [OF w(1), of i] ks_inv_updated [OF w(1), of i] w(2,3) show ?thesis
      by (auto simp: KSecretD_createFolder_def g split: prod.split)
  qed
  then show "ks_inv_but X (snd (KSecretD_createFolder h i f s))"
    and "handles (snd (KSecretD_createFolder h i f s)) = handles s" by simp_all
  show "ks_closeIdle (snd (KSecretD_createFolder h i f s)) = ks_closeIdle s"
    by (auto simp: KSecretD_createFolder_def KSecretD_getWallet_def initiateSync_def put_wallet_def
        count_failure_def emit_def Let_def split: option.split prod.split)
qed

lemma ks_inv_internalClose:
  assumes "ks_inv s" and "KSecretD_internalClose h w i save s = Ret (rc, s')"
  shows "ks_inv s'" and "handles s' = handles s - {i}" and "rc = 0" and "ks_wallets s' = qmap_remove i (ks_wallets s)"
proof -
  have wf: "qmap_wf (ks_wallets s)" and l: "length (ks_wallets s) \<le> 21" using assms(1) by (auto simp: ks_inv_but_def)
  have l': "length (qmap_remove i (ks_wallets s)) \<le> 21"
    using length_qmap_remove [of i "ks_wallets s"] l by linarith
  obtain r0 w' fs where c: "Backend_close h save w (ks_files s) = Ret (r0, w', fs)"
    using assms(2)
    by (cases "ks_closeIdle s"; cases "Backend_close h save w (ks_files s)") (auto simp: KSecretD_internalClose_def)
  have e: "s' = emit (LockCollection (b_name w')) ((if ks_closeIdle s
        then s\<lparr>ks_closeTimers := KTimeout_removeTimer i (ks_closeTimers s)\<rparr> else s)
      \<lparr>ks_syncTimers := KTimeout_removeTimer i (ks_syncTimers s),
        ks_wallets := qmap_remove i (ks_wallets s), ks_files := fs\<rparr>)"
    using assms(2) c by (cases "ks_closeIdle s") (simp_all add: KSecretD_internalClose_def)
  have rc: "rc = 0"
    using assms(2) c by (cases "ks_closeIdle s") (simp_all add: KSecretD_internalClose_def)
  show "rc = 0" by (rule rc)
  show "handles s' = handles s - {i}" "ks_wallets s' = qmap_remove i (ks_wallets s)"
    by (simp_all add: e handles_def qmap_simps emit_def)
  show "ks_inv s'"
    using assms(1) wf l' kt_remove [of "ks_closeTimers s" i] kt_remove [of "ks_syncTimers s" i]
    by (auto simp: e ks_inv_but_def handles_def qmap_simps emit_def)
qed

lemma generateHandle_fresh:
  assumes "generateHandle h ws n = Some (i, m)"
  shows "qmap_find ws i = None \<and> i \<noteq> 0 \<and> n < m"
proof -
  let ?P = "\<lambda>(h :: host) (ws :: wallets) (n :: nat) (r :: int \<times> nat). qmap_find ws (fst r) = None \<and> fst r \<noteq> 0 \<and> n < snd r"
  have "?P h ws n (i, m)"
  proof (rule generateHandle.raw_induct [of ?P, OF _ assms])
    fix gen :: "host \<Rightarrow> wallets \<Rightarrow> nat \<Rightarrow> (int \<times> nat) option" and h :: host and ws :: wallets and n r
    assume ih: "\<And>h ws n r. gen h ws n = Some r \<Longrightarrow> ?P h ws n r"
      and r: "(if qmap_contains ws (rand h n) \<or> rand h n = 0 then gen h ws (n + 1) else Some (rand h n, n + 1)) = Some r"
    show "?P h ws n r"
    proof (cases "qmap_contains ws (rand h n) \<or> rand h n = 0")
      case True
      with r have "gen h ws (n + 1) = Some r" by simp
      from ih [OF this] show ?thesis by simp
    next
      case False
      with r show ?thesis by (auto simp: qmap_contains_def)
    qed
  qed
  then show ?thesis by simp
qed

lemma ks_inv_insert:
  assumes "ks_inv s" and "i \<notin> handles s" and "i \<noteq> 0" and "length (ks_wallets s) \<le> 20"
  shows "ks_inv_but {i} (put_wallet i b s)"
proof -
  have wf: "qmap_wf (ks_wallets s)" using assms(1) by (simp add: ks_inv_but_def)
  have "qmap_find (ks_wallets s) i = None" using assms(2) by (auto simp: handles_def)
  then have "length (ks_wallets (put_wallet i b s)) \<le> 21"
    using wf assms(4) by (simp add: length_qmap_insert)
  then show ?thesis
    using assms wf unfolding ks_inv_but_def handles_put [OF wf] by (auto simp: put_wallet_def qmap_simps)
qed

lemma ks_inv_sync_timer:
  "ks_inv_but X s \<Longrightarrow> i \<in> handles s \<Longrightarrow>
     ks_inv_but X (s\<lparr>ks_syncTimers := KTimeout_addTimer i syncTime (ks_syncTimers s)\<rparr>)"
  using kt_add [of "ks_syncTimers s" syncTime i] by (auto simp: ks_inv_but_def handles_def syncTime_def)

lemma ks_inv_close_timer:
  "ks_inv_but {i} s \<Longrightarrow> i \<in> handles s \<Longrightarrow>
     ks_inv (if ks_closeIdle s then s\<lparr>ks_closeTimers := KTimeout_addTimer i (ks_idleTime s) (ks_closeTimers s)\<rparr> else s)"
  using kt_add [of "ks_closeTimers s" "ks_idleTime s" i] by (auto simp: ks_inv_but_def handles_def)

lemma handles_timers [simp]:
  "handles (s\<lparr>ks_syncTimers := t\<rparr>) = handles s" "handles (s\<lparr>ks_closeTimers := t\<rparr>) = handles s"
  by (simp_all add: handles_def)

lemma ks_inv_announce:
  assumes "ks_inv s'"
  shows "ks_inv (let s = (if new then emit (WalletCreated w) s' else s')
    in if length (ks_wallets s) = 1 \<and> ks_launchManager s then emit StartManager s else s)"
  using assms by (simp add: Let_def)

lemma ks_inv_register:
  assumes "ks_inv s" and "i \<notin> handles s" and "i \<noteq> 0" and "length (ks_wallets s) \<le> 20"
  shows "ks_inv (register_wallet h new w i b s)"
proof -
  let ?s1 = "put_wallet i b s"
  let ?s2 = "?s1\<lparr>ks_syncTimers := KTimeout_addTimer i syncTime (ks_syncTimers ?s1)\<rparr>"
  let ?s3 = "if new then snd (KSecretD_createFolder h i (qs ''Form Data'') (snd (KSecretD_createFolder h i (qs ''Passwords'') ?s2)))
      else ?s2"
  let ?s4 = "case qmap_find (ks_wallets ?s3) i of Some b \<Rightarrow> put_wallet i (snd (Backend_ref b)) ?s3 | None \<Rightarrow> ?s3"
  have wf: "qmap_wf (ks_wallets s)" using assms(1) by (simp add: ks_inv_but_def)
  have i1: "ks_inv_but {i} ?s1" "i \<in> handles ?s1"
    using ks_inv_insert [OF assms] handles_put [OF wf] by simp_all
  have i2: "ks_inv_but {i} ?s2" "i \<in> handles ?s2"
    using ks_inv_sync_timer [OF i1] i1(2) by simp_all
  note c = ks_inv_createFolder [OF i2(1), of h i "qs ''Passwords''"]
  have i3: "ks_inv_but {i} ?s3" "i \<in> handles ?s3"
    using ks_inv_createFolder(1,2) [OF c(1), of h i "qs ''Form Data''"] c(2) i2 by simp_all
  have i4: "ks_inv_but {i} ?s4" "i \<in> handles ?s4"
    using ks_inv_put [OF i3] i3 by (auto split: option.split)
  let ?s5 = "if ks_closeIdle ?s4 then ?s4\<lparr>ks_closeTimers := KTimeout_addTimer i (ks_idleTime ?s4) (ks_closeTimers ?s4)\<rparr> else ?s4"
  have i5: "ks_inv ?s5" by (rule ks_inv_close_timer [OF i4])
  have "register_wallet h new w i b s =
      (let s = (if new then emit (WalletCreated w) ?s5 else ?s5)
       in if length (ks_wallets s) = 1 \<and> ks_launchManager s then emit StartManager s else s)"
    unfolding register_wallet_def Let_def by (rule refl)
  also have "ks_inv \<dots>" using i5 by (rule ks_inv_announce)
  finally show ?thesis .
qed

end
