(* ===== verification/KSecretDInv.thy ===== *)
theory KSecretDInv
  imports KSecretDProps
begin

text \<open>
  The invariant of the daemon through whole runs: each operation keeps it, \<open>daemon_step\<close> collects
  the operations (and what happens around the daemon: settings and files that change), and the
  invariant holds in every state reached from the constructor's.
\<close>

section \<open>Closing, deleting, renaming\<close>

lemma findWallet_find:
  assumes "ks_inv s" and "findWallet w s = Some (i, b)"
  shows "qmap_find (ks_wallets s) i = Some b" and "i \<in> handles s" and "b_name b = w"
proof -
  from assms(2) obtain n where n: "n < length (ks_wallets s)" "ks_wallets s ! n = (i, b)" "b_name b = w"
    unfolding findWallet_def by (fastforce simp: find_Some_iff)
  then have "(i, b) \<in> set (ks_wallets s)" by (metis nth_mem)
  moreover have "qmap_wf (ks_wallets s)" using assms(1) by (simp add: ks_inv_but_def)
  ultimately show "qmap_find (ks_wallets s) i = Some b"
    by (simp add: qmap_find_def qmap_wf_def strict_sorted_iff)
  then show "i \<in> handles s" by (auto simp: handles_def)
  show "b_name b = w" by (rule n(3))
qed

lemma ks_inv_close:
  assumes "ks_inv s" and "KSecretD_close h i s = Ret (rc, s')"
  shows "ks_inv s'"
  using assms ks_inv_internalClose(1) [OF assms(1)]
  by (auto simp: KSecretD_close_def split: option.splits prod.splits)

lemma ks_inv_timedOutClose:
  assumes "ks_inv s" and "KSecretD_timedOutClose h i s = Ret s'"
  shows "ks_inv s'"
  using assms ks_inv_internalClose(1) [OF assms(1)]
  by (auto simp: KSecretD_timedOutClose_def run_bind_Ret_iff split: option.splits)

lemma ks_inv_unsync:
  assumes "ks_inv_but X s"
  shows "ks_inv_but X (s\<lparr>ks_syncTimers := KTimeout_removeTimer i (ks_syncTimers s)\<rparr>)"
  using assms kt_remove [of "ks_syncTimers s" i] by (auto simp: ks_inv_but_def handles_def)

lemma ks_inv_timedOutSync:
  assumes "ks_inv s" and "KSecretD_timedOutSync h i s = Ret s'"
  shows "ks_inv s'"
proof -
  let ?s = "s\<lparr>ks_syncTimers := KTimeout_removeTimer i (ks_syncTimers s)\<rparr>"
  have i: "ks_inv ?s" using assms(1) by (rule ks_inv_unsync)
  show ?thesis
  proof (cases "qmap_find (ks_wallets s) i")
    case None
    with assms(2) i show ?thesis by (simp add: KSecretD_timedOutSync_def)
  next
    case (Some w)
    then have "i \<in> handles (?s\<lparr>ks_files := fs\<rparr>)" for fs by (auto simp: handles_def)
    with ks_inv_put(1) [of "{}" "?s\<lparr>ks_files := _\<rparr>" i] i Some assms(2) show ?thesis
      by (auto simp: KSecretD_timedOutSync_def run_bind_Ret_iff)
  qed
qed

lemma ks_inv_deleteWallet:
  assumes "ks_inv s" and "KSecretD_deleteWallet h w s = Ret (rc, s')"
  shows "ks_inv s'"
  using assms ks_inv_internalClose(1) [OF assms(1)]
  by (fastforce simp: KSecretD_deleteWallet_def run_bind_Ret_iff Let_def split: option.splits if_splits prod.splits)

lemma ks_inv_renameWallet:
  assumes "ks_inv s" and "KSecretD_renameWallet h old new s = Ret (rc, s')"
  shows "ks_inv s'"
proof (cases "findWallet old s")
  case (Some p)
  then obtain i b where p: "findWallet old s = Some (i, b)" by (cases p) simp
  from findWallet_find(2) [OF assms(1) p] have "i \<in> handles (s\<lparr>ks_files := fs\<rparr>)" for fs by simp
  with ks_inv_put(1) [of "{}" "s\<lparr>ks_files := _\<rparr>" i] assms p show ?thesis
    by (auto simp: KSecretD_renameWallet_def run_bind_Ret_iff)
qed (use assms in \<open>simp add: KSecretD_renameWallet_def\<close>)

lemma ks_inv_close_all:
  "ks_inv s \<Longrightarrow> close_all h save ws s = Ret s' \<Longrightarrow> ks_inv s' \<and> handles s' = handles s - fst ` set ws"
proof (induction ws arbitrary: s)
  case (Cons x ws)
  obtain i w where x: "x = (i, w)" by (cases x)
  from Cons.prems(2) obtain rc s1 where c: "KSecretD_internalClose h w i save s = Ret (rc, s1)"
    and r: "close_all h save ws s1 = Ret s'"
    by (auto simp: x run_bind_Ret_iff)
  from Cons.IH [OF ks_inv_internalClose(1) [OF Cons.prems(1) c] r] ks_inv_internalClose(2) [OF Cons.prems(1) c]
  show ?case by (auto simp: x)
qed simp

lemma ks_inv_emitWalletListDirty:
  "ks_inv s \<Longrightarrow> KSecretD_emitWalletListDirty h s = Ret s' \<Longrightarrow> ks_inv s'"
  unfolding KSecretD_emitWalletListDirty_def using ks_inv_close_all by blast

section \<open>Opening\<close>

lemma ks_inv_first_use [simp]: "ks_inv_but X (first_use h w s) = ks_inv_but X s"
  by (auto simp: first_use_def ks_inv_but_def handles_def Let_def)

lemma finish_open_cases:
  assumes "finish_open h new w res s = Ret (rc, s')"
  obtains "rc = -1" and "s' = s"
    | b n where "generateHandle h (ks_wallets s) (ks_rand s) = Some (rc, n)"
      and "s' = register_wallet h new w rc b (s\<lparr>ks_rand := n\<rparr>)"
proof (cases res)
  case None
  with assms that(1) show ?thesis by (simp add: finish_open_def)
next
  case (Some r)
  obtain b p e where r: "r = (b, p, e)" by (cases r)
  show ?thesis
  proof (cases "b_cipherType b = CIPHER_BLOWFISH \<and> \<not> e \<and> (p = None \<or> \<not> b_open b)")
    case True
    with assms Some r that(1) show ?thesis unfolding finish_open_def by simp
  next
    case False
    then have "(case generateHandle h (ks_wallets s) (ks_rand s) of None \<Rightarrow> Diverge
        | Some (i, n) \<Rightarrow> Ret (i, register_wallet h new w i b (s\<lparr>ks_rand := n\<rparr>))) = Ret (rc, s')"
      using assms Some r unfolding finish_open_def by (simp only: option.case prod.case if_False)
    then show ?thesis
      using that(2) [of _ b] by (cases "generateHandle h (ks_wallets s) (ks_rand s)") auto
  qed
qed

lemma ks_inv_finish_open:
  assumes "ks_inv s" and "length (ks_wallets s) \<le> 20" and "finish_open h new w res s = Ret (rc, s')"
  shows "ks_inv s'"
  using assms(3)
proof (cases rule: finish_open_cases)
  case (2 b n)
  show ?thesis
    using generateHandle_fresh [OF 2(1)] assms(1,2) unfolding 2(2)
    by (intro ks_inv_register) (auto simp: handles_def)
qed (use assms(1) in simp)

lemma ks_inv_internalOpen:
  assumes "ks_inv s" and "KSecretD_internalOpen h u w s = Ret (rc, s')"
  shows "ks_inv s'"
proof (cases "findWallet w s")
  case (Some p)
  then obtain i b where p: "findWallet w s = Some (i, b)" by (cases p) simp
  with ks_inv_put(1) [OF assms(1) findWallet_find(2) [OF assms(1) p]] assms(2) show ?thesis
    by (auto simp: KSecretD_internalOpen_def)
next
  case None
  show ?thesis
  proof (cases "20 < length (ks_wallets s)")
    case True
    with None assms show ?thesis by (simp add: KSecretD_internalOpen_def)
  next
    case False
    then obtain new res fs where "finish_open h new w res (s\<lparr>ks_files := fs\<rparr>) = Ret (rc, s')"
      using None assms(2) by (auto simp: KSecretD_internalOpen_def run_bind_Ret_iff Let_def)
    with ks_inv_finish_open [of "s\<lparr>ks_files := fs\<rparr>"] assms(1) False show ?thesis by simp
  qed
qed

lemma ks_inv_pam_register:
  assumes "ks_inv s" and "length (ks_wallets s) \<le> 20" and "pam_register h new w b s = Ret (rc, s')"
  shows "ks_inv s'"
proof -
  obtain i n where g: "generateHandle h (ks_wallets s) (ks_rand s) = Some (i, n)"
    using assms(3) by (cases "generateHandle h (ks_wallets s) (ks_rand s)") (auto simp: pam_register_def)
  let ?s1 = "put_wallet i b (s\<lparr>ks_rand := n\<rparr>)"
  let ?s2 = "?s1\<lparr>ks_syncTimers := KTimeout_addTimer i syncTime (ks_syncTimers ?s1)\<rparr>"
  let ?s3 = "if ks_closeIdle ?s2 then ?s2\<lparr>ks_closeTimers := KTimeout_addTimer i (ks_idleTime ?s2) (ks_closeTimers ?s2)\<rparr> else ?s2"
  have wf: "qmap_wf (ks_wallets (s\<lparr>ks_rand := n\<rparr>))" using assms(1) by (simp add: ks_inv_but_def)
  have i1: "ks_inv_but {i} ?s1" "i \<in> handles ?s1"
    using ks_inv_insert [of "s\<lparr>ks_rand := n\<rparr>" i b] generateHandle_fresh [OF g] handles_put [OF wf] assms(1,2)
    by (auto simp: handles_def)
  have i3: "ks_inv ?s3"
    using ks_inv_close_timer [OF ks_inv_sync_timer [OF i1]] i1(2) by simp
  let ?s4 = "let s = (if new then emit (WalletCreated w) ?s3 else ?s3); s = emit (WalletChangeState w i) s
      in if length (ks_wallets s) = 1 \<and> ks_launchManager s then emit StartManager s else s"
  have "pam_register h new w b s = Ret (i, ?s4)"
    unfolding pam_register_def g option.case prod.case Let_def by (rule refl)
  then have "s' = ?s4" using assms(3) by (simp only: run.inject prod.inject)
  moreover have "ks_inv ?s4" using i3 by (simp add: Let_def)
  ultimately show ?thesis by simp
qed

lemma ks_inv_pamOpen:
  assumes "ks_inv s" and "KSecretD_pamOpen h w p s = Ret (rc, s')"
  shows "ks_inv s'"
proof (cases "ks_inv s'")
  case False
  then obtain new b fs where "pam_register h new w b (s\<lparr>ks_files := fs\<rparr>) = Ret (rc, s')" "\<not> 20 < length (ks_wallets s)"
    using assms by (auto simp: KSecretD_pamOpen_def run_bind_Ret_iff Let_def split: if_splits option.splits)
  with ks_inv_pam_register [of "s\<lparr>ks_files := fs\<rparr>"] assms(1) show ?thesis by simp
qed

section \<open>The queue and the settings\<close>

lemma renew_password_state:
  "renew_password h u w r s = Ret (w', r', s1) \<Longrightarrow> ks_inv_but X s1 = ks_inv_but X s \<and> handles s1 = handles s"
  by (auto simp: renew_password_def run_bind_Ret_iff Let_def split: if_splits option.splits prod.splits)

lemma ks_inv_changeOn:
  assumes "ks_inv s" and "i \<in> handles s" and "KSecretD_changeOn h u i w r s = Ret s'"
  shows "ks_inv s'"
proof -
  from assms(3) obtain w' r' s1 where c: "renew_password h u w r s = Ret (w', r', s1)"
    and e: "(let s = put_wallet i w' s1 in
      if r' then run_bind (KSecretD_internalClose h w' i True s) (\<lambda>(_, s). Ret s) else Ret s) = Ret s'"
    unfolding KSecretD_changeOn_def run_bind_Ret_iff by auto
  have p: "ks_inv (put_wallet i w' s1)"
    using renew_password_state [OF c] assms(1,2) by (intro ks_inv_put(1)) simp_all
  with e ks_inv_internalClose(1) [OF p] show ?thesis
    unfolding Let_def run_bind_Ret_iff by (cases r') (auto simp: run_bind_Ret_iff)
qed

lemma ks_inv_doTransactionOpen:
  "ks_inv s \<Longrightarrow> KSecretD_doTransactionOpen h u w s = Ret (rc, s') \<Longrightarrow> ks_inv s'"
  unfolding KSecretD_doTransactionOpen_def by (rule ks_inv_internalOpen) simp_all

lemma ks_inv_doTransactionChangePassword:
  assumes "ks_inv s" and "KSecretD_doTransactionChangePassword h u w s = Ret s'"
  shows "ks_inv s'"
proof (cases "findWallet w s")
  case (Some p)
  then obtain i b where p: "findWallet w s = Some (i, b)" by (cases p) simp
  with ks_inv_changeOn [OF assms(1) findWallet_find(2) [OF assms(1) p]] assms(2) show ?thesis
    by (auto simp: KSecretD_doTransactionChangePassword_def)
next
  case None
  then obtain rc s1 where o: "KSecretD_doTransactionOpen h u w s = Ret (rc, s1)"
    using assms(2) by (auto simp: KSecretD_doTransactionChangePassword_def run_bind_Ret_iff)
  have i: "ks_inv s1" by (rule ks_inv_doTransactionOpen [OF assms(1) o])
  show ?thesis
  proof (cases "rc = -1 \<or> qmap_find (ks_wallets s1) rc = None")
    case True
    with None o i assms(2) show ?thesis
      by (auto simp: KSecretD_doTransactionChangePassword_def split: if_splits)
  next
    case False
    then obtain b where b: "qmap_find (ks_wallets s1) rc = Some b" by auto
    then have "rc \<in> handles s1" by (auto simp: handles_def)
    with ks_inv_changeOn [OF i] None o b False assms(2) show ?thesis
      by (simp add: KSecretD_doTransactionChangePassword_def)
  qed
qed

lemma fold_emit_inv: "ks_inv_but X (fold (\<lambda>x. if P x then emit (E x) else id) xs s) = ks_inv_but X s"
  by (induction xs arbitrary: s) simp_all

lemma ks_inv_run_transactions:
  "ks_inv s \<Longrightarrow> run_transactions h us ts s = Ret s' \<Longrightarrow> ks_inv s'"
proof (induction ts arbitrary: s)
  case (Cons t ts)
  show ?case
  proof (cases "tr_type t")
    case Open
    then obtain res s1 where o: "KSecretD_doTransactionOpen h (us (tr_promise t)) (tr_wallet t) (s\<lparr>ks_transactions := ts\<rparr>) = Ret (res, s1)"
      and r: "run_transactions h us ts (emit (PromiseResult (tr_promise t) res) (if res < 0 then fail_others t s1 else s1)) = Ret s'"
      using Cons.prems(2) by (auto simp: run_bind_Ret_iff Let_def)
    have "ks_inv s1" using ks_inv_doTransactionOpen [OF _ o] Cons.prems(1) by simp
    then show ?thesis by (intro Cons.IH [OF _ r]) (simp add: fail_others_def fold_emit_inv)
  next
    case ChangePassword
    then obtain s1 where o: "KSecretD_doTransactionChangePassword h (us (tr_promise t)) (tr_wallet t) (s\<lparr>ks_transactions := ts\<rparr>) = Ret s1"
      and r: "run_transactions h us ts (emit (PromiseResult (tr_promise t) 0) s1) = Ret s'"
      using Cons.prems(2) by (auto simp: run_bind_Ret_iff Let_def)
    have "ks_inv s1" using ks_inv_doTransactionChangePassword [OF _ o] Cons.prems(1) by simp
    then show ?thesis by (intro Cons.IH [OF _ r]) simp
  qed
qed simp

lemma ks_inv_processTransactions:
  assumes "ks_inv s" and "KSecretD_processTransactions h us s = Ret s'"
  shows "ks_inv s'"
  using assms ks_inv_run_transactions [of "s\<lparr>ks_processing := True\<rparr>"]
  by (auto simp: KSecretD_processTransactions_def run_bind_Ret_iff split: if_splits)

lemma ks_inv_reconfigure_timers:
  assumes "ks_inv (s\<lparr>ks_closeIdle := c, ks_idleTime := d\<rparr>)" and "0 \<le> ks_idleTime s"
  shows "ks_inv (reconfigure_timers c t s)"
proof -
  have f: "set (map fst (ks_wallets s)) = handles s"
    by (simp add: handles_def dom_qmap_find)
  let ?t = "if ks_idleTime s \<noteq> t then fold (\<lambda>i. KTimeout_resetTimer i (ks_idleTime s)) (map fst (ks_wallets s)) (ks_closeTimers s)
    else ks_closeTimers s"
  have k: "kt_inv (ks_closeTimers s)" "kt_ids (ks_closeTimers s) = (if c then handles s else {})"
    using assms(1) by (simp_all add: ks_inv_but_def handles_def)
  have t: "kt_inv ?t \<and> kt_ids ?t = kt_ids (ks_closeTimers s)"
    using kt.reset_all [OF k(1) assms(2)] k(1) by simp
  have a: "kt_inv (fold (\<lambda>i. KTimeout_addTimer i (ks_idleTime s)) (map fst (ks_wallets s)) ?t) \<and>
      kt_ids (fold (\<lambda>i. KTimeout_addTimer i (ks_idleTime s)) (map fst (ks_wallets s)) ?t) = handles s \<union> kt_ids (ks_closeTimers s)"
    using kt.add_all [OF _ assms(2), of ?t "map fst (ks_wallets s)"] t f by simp
  have e: "reconfigure_timers c t s = s\<lparr>ks_closeTimers := if ks_closeIdle s
      then if c then ?t else fold (\<lambda>i. KTimeout_addTimer i (ks_idleTime s)) (map fst (ks_wallets s)) ?t
      else KTimeout_clear (ks_closeTimers s)\<rparr>"
    by (simp add: reconfigure_timers_def Let_def)
  show ?thesis
    using assms k t a kt_clear [OF k(1)] unfolding e ks_inv_but_def by (simp add: handles_def)
qed

lemma ks_inv_reconfigure:
  assumes "ks_inv s" and "KSecretD_reconfigure h s = Ret s'"
  shows "ks_inv s'" and "\<not> KSecretD_isEnabled s \<Longrightarrow> ks_wallets s' = []"
proof -
  let ?st = "ks_settings s"
  have r: "idle_interval (set_idleTimeout ?st) = Ret (set_idleTimeout ?st * 60000)"
    using assms(2) by (auto simp: KSecretD_reconfigure_def idle_interval_eq Let_def split: if_splits)
  let ?s = "s\<lparr>ks_firstUse := set_firstUse ?st, ks_launchManager := set_launchManager ?st,
    ks_closeIdle := set_closeWhenIdle ?st, ks_idleTime := set_idleTimeout ?st * 60000\<rparr>"
  let ?s' = "reconfigure_timers (ks_closeIdle s) (ks_idleTime s) ?s"
  have i: "ks_inv ?s'"
    using assms(1) by (intro ks_inv_reconfigure_timers [where d = "ks_idleTime s"]) (auto simp: ks_inv_but_def handles_def)
  have f: "ks_wallets ?s' = ks_wallets s" "KSecretD_isEnabled ?s' = KSecretD_isEnabled s"
    by (simp_all add: reconfigure_timers_def KSecretD_isEnabled_def Let_def)
  have e: "KSecretD_reconfigure h s = (if \<not> KSecretD_isEnabled s
      then run_bind (close_all h True (ks_wallets s) ?s') (\<lambda>s. Ret (emit Quit s)) else Ret ?s')"
    using f by (simp add: KSecretD_reconfigure_def r Let_def del: ks_inv_frame)
  have "ks_inv s' \<and> (\<not> KSecretD_isEnabled s \<longrightarrow> handles s' = {})"
  proof (cases "KSecretD_isEnabled s")
    case True
    with i e assms(2) show ?thesis by simp
  next
    case False
    then have "run_bind (close_all h True (ks_wallets s) ?s') (\<lambda>s. Ret (emit Quit s)) = Ret s'"
      using e assms(2) by simp
    then obtain s1 where c: "close_all h True (ks_wallets s) ?s' = Ret s1" and s': "s' = emit Quit s1"
      unfolding run_bind_Ret_iff by blast
    have "fst ` set (ks_wallets s) = handles ?s'"
      using f(1) by (simp add: handles_def dom_qmap_find)
    with ks_inv_close_all [OF i c] s' show ?thesis by simp
  qed
  then show "ks_inv s'" and "\<not> KSecretD_isEnabled s \<Longrightarrow> ks_wallets s' = []"
    by (auto simp: handles_def dom_qmap_find)
qed

section \<open>Runs\<close>

text \<open>One step: a call of a client, a slot, or a change of the settings or of the files from outside.\<close>

inductive daemon_step :: "host \<Rightarrow> ksecretd \<Rightarrow> ksecretd \<Rightarrow> bool" for h where
  step_open: "daemon_step h s (snd (KSecretD_open w wId s))"
| step_changePassword: "daemon_step h s (snd (KSecretD_internalChangePassword w wId s))"
| step_process: "KSecretD_processTransactions h us s = Ret s' \<Longrightarrow> daemon_step h s s'"
| step_pamOpen: "KSecretD_pamOpen h w p s = Ret (rc, s') \<Longrightarrow> daemon_step h s s'"
| step_close: "KSecretD_close h i s = Ret (rc, s') \<Longrightarrow> daemon_step h s s'"
| step_delete: "KSecretD_deleteWallet h w s = Ret (rc, s') \<Longrightarrow> daemon_step h s s'"
| step_rename: "KSecretD_renameWallet h old new s = Ret (rc, s') \<Longrightarrow> daemon_step h s s'"
| step_timedOutClose: "KSecretD_timedOutClose h i s = Ret s' \<Longrightarrow> daemon_step h s s'"
| step_timedOutSync: "KSecretD_timedOutSync h i s = Ret s' \<Longrightarrow> daemon_step h s s'"
| step_dirty: "KSecretD_emitWalletListDirty h s = Ret s' \<Longrightarrow> daemon_step h s s'"
| step_reconfigure: "KSecretD_reconfigure h s = Ret s' \<Longrightarrow> daemon_step h s s'"
| step_isOpen: "daemon_step h s (snd (KSecretD_isOpen i s))"
| step_folderList: "daemon_step h s (snd (KSecretD_folderList i s))"
| step_createFolder: "daemon_step h s (snd (KSecretD_createFolder h i f s))"
| step_readMap: "daemon_step h s (snd (KSecretD_readMap i f k s))"
| step_readEntry: "daemon_step h s (snd (KSecretD_readEntry i f k s))"
| step_entryList: "daemon_step h s (snd (KSecretD_entryList i f s))"
| step_readPassword: "daemon_step h s (snd (KSecretD_readPassword h i f k s))"
| step_writeEntry: "daemon_step h s (snd (KSecretD_writeEntry h i f k v t s))"
| step_writePassword: "daemon_step h s (snd (KSecretD_writePassword h i f k pw s))"
| step_hasEntry: "daemon_step h s (snd (KSecretD_hasEntry i f k s))"
| step_entryType: "KSecretD_entryType i f k s = Ret (t, s') \<Longrightarrow> daemon_step h s s'"
| step_removeEntry: "KSecretD_removeEntry h i f k s = Ret (rc, s') \<Longrightarrow> daemon_step h s s'"
| step_renameEntry: "daemon_step h s (snd (KSecretD_renameEntry h i f k k' s))"
| step_settings: "0 \<le> set_idleTimeout st \<Longrightarrow> daemon_step h s (s\<lparr>ks_settings := st\<rparr>)"
| step_files: "daemon_step h s (s\<lparr>ks_files := fs\<rparr>)"

lemma ks_inv_requests:
  "ks_inv s \<Longrightarrow> ks_inv (snd (KSecretD_open w wId s))" "ks_inv s \<Longrightarrow> ks_inv (snd (KSecretD_internalChangePassword w wId s))"
  by (simp_all add: KSecretD_open_def KSecretD_internalChangePassword_def enqueue_def Let_def)

lemma ks_inv_settings: "ks_inv s \<Longrightarrow> 0 \<le> set_idleTimeout st \<Longrightarrow> ks_inv (s\<lparr>ks_settings := st\<rparr>)"
  by (simp add: ks_inv_but_def handles_def)

lemma ks_inv_step:
  assumes "daemon_step h s s'" and "ks_inv s"
  shows "ks_inv s'"
  using assms
proof (induction rule: daemon_step.induct)
  case (step_entryType i f k s t s')
  then show ?case using ks_inv_access(11) by blast
next
  case (step_removeEntry i f k s rc s')
  then show ?case using ks_inv_access(12) by blast
next
  case (step_files s fs)
  then show ?case by simp
qed ((erule ks_inv_requests ks_inv_access(1-10,13) | erule (1) ks_inv_settings ks_inv_processTransactions ks_inv_pamOpen
      ks_inv_close ks_inv_deleteWallet ks_inv_renameWallet ks_inv_timedOutClose ks_inv_timedOutSync
      ks_inv_emitWalletListDirty ks_inv_reconfigure(1))+)

lemma ks_inv_new:
  assumes "0 \<le> set_idleTimeout st" and "KSecretD_new h st fs n = Ret s"
  shows "ks_inv s"
  using assms(2) unfolding KSecretD_new_def
  by (rule ks_inv_reconfigure(1) [rotated])
    (use assms(1) in \<open>simp add: ks_inv_but_def handles_def kt_inv_new dom_qmap_find\<close>)

text \<open>C4. In every run of the daemon that stays defined, with an idle time that is never negative, however requests,
  timers, settings and file changes interleave: no
  wallet has the handle 0, at most 21 are open, exactly the open wallets have a timer for closing when
  that is enabled (and none otherwise), a timer for saving belongs to an open wallet, the timers agree
  with those that run in Qt, and the failure count stays between 0 and 5.\<close>

theorem daemon_runs_consistent:
  assumes "0 \<le> set_idleTimeout st" and "KSecretD_new h st fs n = Ret s0"
    and "(daemon_step h)\<^sup>*\<^sup>* s0 s"
  shows "0 \<notin> handles s \<and> length (ks_wallets s) \<le> 21 \<and>
    kt_ids (ks_closeTimers s) = (if ks_closeIdle s then handles s else {}) \<and>
    kt_ids (ks_syncTimers s) \<subseteq> handles s \<and> kt_inv (ks_closeTimers s) \<and> kt_inv (ks_syncTimers s) \<and>
    0 \<le> ks_failed s \<and> ks_failed s \<le> 5"
proof -
  from assms(3) have "ks_inv s"
    by (induction rule: rtranclp_induct) (auto intro: ks_inv_step ks_inv_new [OF assms(1,2)])
  then show ?thesis by (simp add: ks_inv_but_def)
qed

lemma new_example:
  "KSecretD_new h example_settings fs n = Ret (fresh_daemon\<lparr>ks_closeIdle := True, ks_idleTime := 600000,
     ks_rand := n, ks_files := fs\<rparr>)"
  by (simp add: KSecretD_new_def KSecretD_reconfigure_def reconfigure_timers_def example_settings_def fresh_daemon_def
      KSecretD_isEnabled_def idle_interval_eq Let_def)

theorem daemon_runs_consistent_witness:
  "ks_failed (snd (KSecretD_isOpen 3 (snd (KSecretD_open (qs ''w'') 0 (fresh_daemon\<lparr>ks_closeIdle := True,
     ks_idleTime := 600000, ks_rand := 0, ks_files := Map.empty\<rparr>))))) \<le> 5"
proof -
  let ?s = "fresh_daemon\<lparr>ks_closeIdle := True, ks_idleTime := 600000, ks_rand := 0, ks_files := Map.empty\<rparr>"
  have "(daemon_step example_host)\<^sup>*\<^sup>* ?s (snd (KSecretD_isOpen 3 (snd (KSecretD_open (qs ''w'') 0 ?s))))"
    by (meson rtranclp.rtrancl_refl rtranclp.rtrancl_into_rtrancl step_open step_isOpen)
  moreover have "0 \<le> set_idleTimeout example_settings" by (simp add: example_settings_def)
  ultimately show ?thesis using daemon_runs_consistent [OF _ new_example] by blast
qed

end
