(* ===== verification/BackendProps.thy ===== *)
theory BackendProps
  imports EntryStore
begin

text \<open>
  The properties of the in-memory wallet: what each operation of \<open>Backend\<close> does to the entry
  that a client reads under a folder and a key, the order of the lists it returns, and the
  agreement of the digest table with the content over any run of operations.
\<close>

section \<open>A concrete wallet\<close>

definition plain_backend :: backend where
  "plain_backend = \<lparr>b_name = qs ''w'', b_path = qs ''/w/w.kwl'', b_open = True, b_useNewHash = False,
     b_folder = [], b_ref = 0, b_entries = [], b_hashes = Map.empty, b_passhash = zeros 20,
     b_newPassHash = [], b_cipherType = CIPHER_BLOWFISH, b_gpgKey = None\<rparr>"

definition text_entry :: "string \<Rightarrow> entry" where
  "text_entry k = \<lparr>e_key = qs k, e_value = [1, 2], e_type = Password\<rparr>"

definition one_entry :: backend where
  "one_entry = plain_backend\<lparr>b_folder := qs ''f'', b_entries := [(qs ''f'', [(qs ''k'', text_entry ''k'')])]\<rparr>"

lemma plain_backend_wf: "wf_entries plain_backend"
  by (simp add: plain_backend_def wf_entries_def)

lemma one_entry_wf: "wf_entries one_entry"
  by (simp add: one_entry_def plain_backend_def wf_entries_def qmap_wf_def qmap_find_def)

lemma one_entry_simps:
  "b_open one_entry" "b_folder one_entry = qs ''f''"
  "lookup_entry one_entry (qs ''f'') (qs ''k'') = Some (text_entry ''k'')"
  "lookup_entry one_entry (qs ''f'') (qs ''n'') = None" "Backend_hasFolder one_entry (qs ''f'')"
  by (simp_all add: one_entry_def plain_backend_def lookup_entry_def content_def qmap_find_def qs_def
      Backend_hasFolder_def qmap_contains_def)

section \<open>Entries\<close>

text \<open>An entry written into a folder of an open wallet is what is read back under its key, and no
  other entry of the wallet changes; the folder is created when it is missing.\<close>

theorem write_then_lookup:
  assumes "wf_entries b" and "b_open b"
  shows "lookup_entry (Backend_writeEntry h e (Backend_setFolder f b)) g k =
      (if g = f \<and> k = e_key e then Some e else lookup_entry b g k) \<and>
    wf_entries (Backend_writeEntry h e (Backend_setFolder f b))"
  using wallet.get_put [of b] wallet.ok_put [of b] assms by simp

theorem write_then_lookup_witness:
  "lookup_entry (Backend_writeEntry example_host (text_entry ''n'') (Backend_setFolder (qs ''g'') one_entry))
     (qs ''g'') (qs ''n'') = Some (text_entry ''n'')"
  using write_then_lookup [OF one_entry_wf one_entry_simps(1), of example_host "text_entry ''n''" "qs ''g''"]
  by (simp add: text_entry_def)

text \<open>\<open>renameEntry\<close> succeeds exactly when the old name exists and the new one does not, and then
  moves the entry, unchanged, to the new name; otherwise every entry stays.  The current folder
  exists afterwards in either case.\<close>

theorem rename_moves:
  assumes "wf_entries b"
  shows "fst (Backend_renameEntry h old new b) =
      (if lookup_entry b (b_folder b) old \<noteq> None \<and> lookup_entry b (b_folder b) new = None then 0 else -1) \<and>
    lookup_entry (snd (Backend_renameEntry h old new b)) g k =
      (if fst (Backend_renameEntry h old new b) = 0 \<and> g = b_folder b
       then (if k = new then lookup_entry b g old else if k = old then None else lookup_entry b g k)
       else lookup_entry b g k) \<and>
    Backend_hasFolder (snd (Backend_renameEntry h old new b)) (b_folder b)"
proof -
  note r = content_renameEntry [OF assms, of h old new]
  show ?thesis
    unfolding lookup_entry_def hasFolder_content r(1,3) by (auto split: option.splits)
qed

theorem rename_moves_witness:
  "fst (Backend_renameEntry example_host (qs ''k'') (qs ''n'') one_entry) = 0 \<and>
   lookup_entry (snd (Backend_renameEntry example_host (qs ''k'') (qs ''n'') one_entry)) (qs ''f'') (qs ''n'') =
     Some (text_entry ''k'')"
  using rename_moves [OF one_entry_wf, of example_host "qs ''k''" "qs ''n''" "qs ''f''" "qs ''n''"]
  by (simp add: one_entry_simps)

text \<open>\<open>removeEntry\<close> is undefined exactly when the wallet is open and the current folder does not
  exist; otherwise it reports whether the entry was there and removes that entry only.\<close>

theorem remove_entry_outcome:
  assumes "wf_entries b"
  shows "(Backend_removeEntry h k b = UB \<longleftrightarrow> b_open b \<and> \<not> Backend_hasFolder b (b_folder b)) \<and>
    (\<forall>ok b'. Backend_removeEntry h k b = Ret (ok, b') \<longrightarrow>
       (ok \<longleftrightarrow> b_open b \<and> lookup_entry b (b_folder b) k \<noteq> None) \<and>
       lookup_entry b' g j = (if ok \<and> g = b_folder b \<and> j = k then None else lookup_entry b g j))"
proof (intro conjI allI impI)
  show "Backend_removeEntry h k b = UB \<longleftrightarrow> b_open b \<and> \<not> Backend_hasFolder b (b_folder b)"
    using removeEntry_defined [of h k b] by (auto simp: hasFolder_content)
next
  fix ok b' assume r: "Backend_removeEntry h k b = Ret (ok, b')"
  note c = content_removeEntry [OF assms r]
  show "ok \<longleftrightarrow> b_open b \<and> lookup_entry b (b_folder b) k \<noteq> None" by (rule c(3))
  show "lookup_entry b' g j = (if ok \<and> g = b_folder b \<and> j = k then None else lookup_entry b g j)"
    using c(3) unfolding lookup_entry_def c(1) by (auto split: option.splits)
qed

theorem remove_entry_outcome_witness:
  "Backend_removeEntry example_host (qs ''k'') (one_entry\<lparr>b_folder := qs ''g''\<rparr>) = UB"
proof -
  have "wf_entries (one_entry\<lparr>b_folder := qs ''g''\<rparr>)" using one_entry_wf by simp
  from remove_entry_outcome [OF this, of example_host "qs ''k''"] show ?thesis
    by (simp add: one_entry_def plain_backend_def Backend_hasFolder_def qmap_contains_def qmap_find_def qs_def)
qed

text \<open>\<open>removeFolder\<close> on an open wallet removes the folder with all its entries and nothing else,
  and leaves no current folder when it was the current one.\<close>

theorem remove_folder_outcome:
  assumes "wf_entries b" and "b_open b"
  shows "(fst (Backend_removeFolder h f b) \<longleftrightarrow> Backend_hasFolder b f) \<and>
    \<not> Backend_hasFolder (snd (Backend_removeFolder h f b)) f \<and>
    (g \<noteq> f \<longrightarrow> lookup_entry (snd (Backend_removeFolder h f b)) g k = lookup_entry b g k) \<and>
    (Backend_hasFolder b f \<longrightarrow> b_folder (snd (Backend_removeFolder h f b)) = (if b_folder b = f then [] else b_folder b))"
  using content_removeFolder [OF assms(1), of h f] assms(2)
  by (auto simp: lookup_entry_def hasFolder_content Backend_removeFolder_def qmap_contains_def content_def)

theorem remove_folder_outcome_witness:
  "fst (Backend_removeFolder example_host (qs ''f'') one_entry) \<and>
   b_folder (snd (Backend_removeFolder example_host (qs ''f'') one_entry)) = []"
  using remove_folder_outcome [OF one_entry_wf one_entry_simps(1), of example_host "qs ''f''"]
  by (simp add: one_entry_simps)

text \<open>The folder list and the entry list of a folder are strictly ascending in code-unit order and
  contain exactly the folders and the entries that can be read.\<close>

theorem lists_ascending:
  assumes "wf_entries b"
  shows "sorted_wrt (<) (Backend_folderList b) \<and> (f \<in> set (Backend_folderList b) \<longleftrightarrow> Backend_hasFolder b f) \<and>
    sorted_wrt (<) (Backend_entryList b) \<and> (k \<in> set (Backend_entryList b) \<longleftrightarrow> Backend_hasEntry b k)"
  using folderList_content [OF assms] entryList_content [of b] wf_current [OF assms] assms
    qm.keys_sorted [of "b_entries b"] qm.keys_sorted [of "current_folder b"]
  by (auto simp: hasFolder_content hasEntry_lookup wf_entries_def Backend_folderList_def Backend_entryList_def)

theorem lists_ascending_witness:
  "sorted_wrt (<) (Backend_folderList (one_entry\<lparr>b_folder := []\<rparr>)) \<and>
   qs ''k'' \<notin> set (Backend_entryList (one_entry\<lparr>b_folder := []\<rparr>))"
proof -
  have "wf_entries (one_entry\<lparr>b_folder := []\<rparr>)" using one_entry_wf by simp
  from lists_ascending [OF this] show ?thesis
    by (simp add: one_entry_def plain_backend_def Backend_hasEntry_def qmap_contains_def qmap_find_def qs_def)
qed

section \<open>The digest table\<close>

text \<open>C26. Over any run of operations on folders that exist, the digest table answers
  \<open>folderDoesNotExist\<close> and \<open>entryDoesNotExist\<close> as the content does, for names whose digests do
  not collide.\<close>

theorem digests_agree:
  assumes "inj_on (name_digest h) N" and "store_inv h N b0" and "(store_step h N)\<^sup>*\<^sup>* b0 b"
    and "f \<in> N" and "k \<in> N"
  shows "(Backend_folderDoesNotExist h b f \<longleftrightarrow> \<not> Backend_hasFolder b f) \<and>
    (Backend_entryDoesNotExist h b f k \<longleftrightarrow> lookup_entry b f k = None)"
proof -
  have "store_inv h N b" using assms(1,3,2) by (rule store_steps_inv)
  with assms show ?thesis using store_inv_folder [of h N b f] store_inv_entry [of h N b f k] by simp
qed

theorem digests_agree_witness:
  "\<not> Backend_folderDoesNotExist example_host (snd (Backend_createFolder example_host (qs ''a'') plain_backend)) (qs ''a'') \<and>
   Backend_folderDoesNotExist example_host (snd (Backend_createFolder example_host (qs ''a'') plain_backend)) (qs ''b'')"
proof -
  let ?N = "{qs ''a'', qs ''b''}"
  have inj: "inj_on (name_digest example_host) ?N"
    by (simp add: name_digest_def example_host_def qs_def zeros_def)
  have c: "content plain_backend = Map.empty"
    by (simp add: plain_backend_def content_def fun_eq_iff)
  have "store_inv example_host ?N plain_backend"
    using plain_backend_wf unfolding store_inv_def coherent_def names_def c by (simp add: plain_backend_def)
  moreover have "(store_step example_host ?N)\<^sup>*\<^sup>* plain_backend
      (snd (Backend_createFolder example_host (qs ''a'') plain_backend))"
    by (intro r_into_rtranclp store_step.create) simp
  ultimately show ?thesis
    using digests_agree [OF inj, of plain_backend _ "qs ''a''" "qs ''a''"]
      digests_agree [OF inj, of plain_backend _ "qs ''b''" "qs ''b''"]
    by (simp add: hasFolder_content content_createFolder(1) [OF plain_backend_wf] c qs_def)
qed

text \<open>An entry written while the current folder does not exist can be read, but the digest table
  does not learn of it: a closed wallet will say that neither the folder nor the entry exists.\<close>

theorem write_without_folder:
  fixes e :: entry
  assumes "wf_entries b" and "b_open b" and "\<not> Backend_hasFolder b f" and "Backend_folderDoesNotExist h b f"
  defines "b' \<equiv> Backend_writeEntry h e (Backend_setFolder f b)"
  shows "Backend_readEntry b' (e_key e) = Some e \<and> Backend_hasFolder b' f \<and>
    Backend_folderDoesNotExist h b' f \<and> Backend_entryDoesNotExist h b' f k"
proof -
  have b: "wf_entries (Backend_setFolder f b)" "b_open (Backend_setFolder f b)"
    using assms by (simp_all add: Backend_setFolder_def)
  have "b_folder b' = f" "b_open b'" "b_hashes b' = b_hashes b"
    using assms(2,4) by (simp_all add: b'_def Backend_writeEntry_def Backend_setFolder_def
        Backend_folderDoesNotExist_def hash_update_def)
  moreover have "lookup_entry b' f (e_key e) = Some e" "content b' f \<noteq> None"
    unfolding b'_def lookup_entry_def content_writeEntry(1) [OF b] by (simp_all add: Backend_setFolder_def)
  ultimately show ?thesis
    using assms(4) by (simp add: readEntry_lookup hasFolder_content Backend_folderDoesNotExist_def
        Backend_entryDoesNotExist_def)
qed

theorem write_without_folder_witness:
  "Backend_readEntry (Backend_writeEntry example_host (text_entry ''k'') (Backend_setFolder (qs ''g'') plain_backend))
     (qs ''k'') = Some (text_entry ''k'')"
  using write_without_folder [OF plain_backend_wf, of "qs ''g''" example_host "text_entry ''k''"]
  by (simp add: plain_backend_def Backend_hasFolder_def qmap_contains_def Backend_folderDoesNotExist_def text_entry_def)

end
