(* ===== verification/BackendFileProps.thy ===== *)
theory BackendFileProps
  imports BackendFile BackendProps
begin

text \<open>
  The properties of the wallet and its files: what the password hash is, that a wallet that was
  saved can be opened by another object with the same key, that an unsuccessful save leaves every
  file alone, and what closing and failing to create a wallet leave behind.
\<close>

section \<open>The password hash\<close>

definition sha1_digest :: "bytes \<Rightarrow> bytes" where
  "sha1_digest m = sha_ref (code_zeros (length m)) m"

lemma length_sha1_digest [simp]: "length (sha1_digest m) = 20"
  by (simp add: sha1_digest_def sha_ref_def)

lemma SHA1_hash_buf: "fst (SHA1_hash s) = sha_buf (snd (SHA1_hash s))"
  by (simp add: SHA1_hash_def Let_def split: prod.split)

lemma stretch_step_absorbed:
  assumes "absorbed m s" and "length m < 2 ^ 29"
  shows "absorbed (sha1_digest m) (fst (stretch_step (s, b)))" and "snd (stretch_step (s, b)) = sha1_digest m"
proof -
  obtain d s1 where h: "SHA1_hash s = (d, s1)" by fastforce
  have d: "take 20 d = sha1_digest m" "length (sha_buf s1) = 64"
    using hash_absorbed [OF assms] SHA1_hash_buf [of s] h by (simp_all add: sha1_digest_def)
  from d(2) have "absorbed [] (SHA1_reset s1)" by (rule absorbed_reset)
  from absorbed_process(1) [OF this, of "sha1_digest m"]
  show "absorbed (sha1_digest m) (fst (stretch_step (s, b)))" and "snd (stretch_step (s, b)) = sha1_digest m"
    using d(1) by (simp_all add: stretch_step_def h Let_def)
qed

lemma stretch_steps:
  assumes "absorbed m s" and "length m < 2 ^ 29"
  shows "absorbed ((sha1_digest ^^ Suc n) m) (fst ((stretch_step ^^ Suc n) (s, b))) \<and>
    snd ((stretch_step ^^ Suc n) (s, b)) = (sha1_digest ^^ Suc n) m"
proof (induction n)
  case 0
  then show ?case using stretch_step_absorbed [OF assms] by simp
next
  case (Suc n)
  let ?p = "(stretch_step ^^ Suc n) (s, b)"
  have "length ((sha1_digest ^^ Suc n) m) < 2 ^ 29" by simp
  from stretch_step_absorbed [OF conjunct1 [OF Suc] this, of "snd ?p"] show ?case by simp
qed

lemma stretch_digest:
  assumes "length (sha_buf s) = 64" and "length part < 2 ^ 29" and "absorbed [] s"
  shows "snd (stretch s part) = (sha1_digest ^^ 2000) part" and "absorbed [] (fst (stretch s part))"
proof -
  have a: "absorbed part (snd (SHA1_process s (Some part)))"
    using absorbed_process(1) [OF assms(3), of part] by simp
  note st = stretch_steps [OF a assms(2), of 1999 "zeros 20"]
  have "Suc 1999 = 2000" by simp
  with st show "snd (stretch s part) = (sha1_digest ^^ 2000) part"
    by (simp add: stretch_def split_beta del: funpow.simps)
  have "length (sha_buf (fst ((stretch_step ^^ 2000) (snd (SHA1_process s (Some part)), zeros 20)))) = 64"
    using st \<open>Suc 1999 = 2000\<close> by (simp add: absorbed_def del: funpow.simps)
  then show "absorbed [] (fst (stretch s part))"
    by (simp add: stretch_def split_beta absorbed_reset del: funpow.simps)
qed

text \<open>The old password hash: the password is cut at 16, 32 and 48 bytes, each part is hashed 2000
  times on its own, and the digests are joined to 20, 40 or 56 bytes.\<close>

theorem password_hash:
  assumes "length password < 2 ^ 29"
  defines "H \<equiv> sha1_digest ^^ 2000"
  shows "password2hash h password =
    (if length password \<le> 16 then H password
     else if length password \<le> 32 then H (take 16 password) @ H (drop 16 password)
     else if length password \<le> 48 then
       H (take 16 password) @ H (take 16 (drop 16 password)) @ take 16 (H (drop 32 password))
     else take 14 (H (take 16 password)) @ take 14 (H (take 16 (drop 16 password))) @
       take 14 (H (take 16 (drop 32 password))) @ take 14 (H (drop 48 password)))"
proof -
  let ?s0 = "SHA1_new (map (stackJunk h) [0..<64])"
  have a0: "absorbed [] ?s0" by (simp add: SHA1_new_def absorbed_reset)
  have buf: "absorbed [] s \<Longrightarrow> length (sha_buf s) = 64" for s by (simp add: absorbed_def)
  have st: "\<exists>s'. stretch s p = (s', H p) \<and> absorbed [] s'" if "absorbed [] s" "length p < 2 ^ 29" for s p
    using stretch_digest [OF buf [OF that(1)] that(2,1)] unfolding H_def by (metis prod.collapse)
  have e: "(2000 :: nat) = Suc 1999" by simp
  have "length (H p) = 20" for p
    unfolding H_def e funpow.simps o_apply by (rule length_sha1_digest)
  then have l20: "take 20 (H p) = H p" for p by simp
  have s: "length (take 16 (drop k password)) < 2 ^ 29" "length (drop k password) < 2 ^ 29" for k
    using assms(1) by simp_all
  obtain s1 where s1: "stretch ?s0 (take 16 password) = (s1, H (take 16 password))" "absorbed [] s1"
    using st [OF a0, of "take 16 password"] s(1) [of 0] by auto
  obtain s2 where s2: "stretch s1 (take 16 (drop 16 password)) = (s2, H (take 16 (drop 16 password)))" "absorbed [] s2"
    using st [OF s1(2) s(1) [of 16]] by auto
  obtain s3 where s3: "stretch s2 (take 16 (drop 32 password)) = (s3, H (take 16 (drop 32 password)))" "absorbed [] s3"
    using st [OF s2(2) s(1) [of 32]] by auto
  obtain s4 where s4: "stretch s3 (drop 48 password) = (s4, H (drop 48 password))"
    using st [OF s3(2) s(2) [of 48]] by auto
  show ?thesis
    using s1(1) s2(1) s3(1) s4 by (auto simp: password2hash_def l20)
qed

theorem password_hash_witness:
  "password2hash example_host (replicate 17 65) = (sha1_digest ^^ 2000) (replicate 16 65) @ (sha1_digest ^^ 2000) [65]"
  using password_hash [of "replicate 17 65" example_host] by simp

section \<open>Saving and opening again\<close>

lemma length_KWMAGIC [simp]: "length KWMAGIC = 12"
  by (simp add: KWMAGIC_def)

text \<open>The key a wallet is saved with, and the key an object reads a file of the wallet with.\<close>

definition save_key :: "backend \<Rightarrow> bytes" where
  "save_key b = (if b_useNewHash b then b_newPassHash b else b_passhash b)"

definition saved_version :: "backend \<Rightarrow> bytes" where
  "saved_version b = [0, if b_useNewHash b then 1 else 0, 3, if b_useNewHash b then 2 else 0]"

lemma swap_simps [simp]:
  "b_passhash (Backend_swapToNewHash b) = save_key b" "b_entries (Backend_swapToNewHash b) = b_entries b"
  "b_cipherType (Backend_swapToNewHash b) = b_cipherType b" "b_useNewHash (Backend_swapToNewHash b) = b_useNewHash b"
  "b_open (Backend_swapToNewHash b) = b_open b" "b_path (Backend_swapToNewHash b) = b_path b"
  "b_newPassHash (Backend_swapToNewHash b) = b_newPassHash b"
  "wf_entries (Backend_swapToNewHash b) = wf_entries b" "storable (Backend_swapToNewHash b) = storable b"
  by (simp_all add: Backend_swapToNewHash_def save_key_def wf_entries_def storable_def)

lemma swap_old [simp]: "\<not> b_useNewHash b \<Longrightarrow> Backend_swapToNewHash b = b"
  by (simp add: Backend_swapToNewHash_def)

lemma read_saved_file:
  "Backend_read_file h c (KWMAGIC @ saved_version b @ r) =
     BlowfishPersist_read h False (if b_useNewHash b then Backend_swapToNewHash c else c) r"
  by (simp add: Backend_read_file_def read_into_def saved_version_def getPersistHandlerOf_def Let_def)

lemma length_hashes_stream: "stream_laws h \<Longrightarrow> 4 \<le> length (hashes_stream h em)"
  by (simp add: hashes_stream_def stream_simps)

lemma whole_file_long:
  assumes "length d < 2 ^ 29"
  shows "40 \<le> length (whole_file h d)"
proof -
  have "length (whole_file h d) > 32"
    unfolding whole_file_def Let_def using length_sha1_of [OF assms] by simp
  with length_whole_file(1) [OF assms, of h] show ?thesis by presburger
qed

lemma sync_blowfish:
  assumes "\<forall>n. fullWrite h (b_path b) n" "mayWrite h (b_path b)" "b_open b"
    "b_cipherType b = CIPHER_BLOWFISH" "fs (b_path b) \<noteq> None"
  shows "Backend_sync h b fs = run_bind (BlowfishPersist_write h (Backend_swapToNewHash b)
      \<lparr>sf_path = b_path b, sf_data = KWMAGIC\<rparr> [0, if b_useNewHash b then 1 else 0, 0, 0] fs)
    (\<lambda>(rc, fs). Ret (rc, Backend_swapToNewHash b, fs))"
proof -
  obtain old where "fs (b_path b) = Some old" using assms(5) by auto
  with assms show ?thesis
    by (simp add: Backend_sync_def sf_write_def getPersistHandler_def Let_def)
qed

text \<open>The conditions under which a wallet can be saved, and what it takes to read the file again.\<close>

definition savable :: "host \<Rightarrow> backend \<Rightarrow> bool" where
  "savable h b \<longleftrightarrow> stream_laws h \<and> md5_laws h \<and> (\<forall>n. fullWrite h (b_path b) n) \<and>
     mayWrite h (b_path b) \<and> mayCommit h (b_path b) \<and> mayRead h (b_path b) \<and>
     b_open b \<and> b_cipherType b = CIPHER_BLOWFISH \<and> storable b \<and> wf_entries b \<and>
     length (data_stream h (b_entries b)) < 2 ^ 29"

definition may_open :: "backend \<Rightarrow> backend \<Rightarrow> bool" where
  "may_open b c \<longleftrightarrow> b_path c = b_path b \<and> b_entries c = [] \<and>
     (if b_useNewHash b then save_key c else b_passhash c) = save_key b"

lemma sync_refused:
  assumes "savable h b" and "fs (b_path b) \<noteq> None" and "\<not> key_accepted (save_key b)"
  shows "Backend_sync h b fs = Ret (-2, Backend_swapToNewHash b, fs)"
proof -
  have "BlowfishPersist_write h (Backend_swapToNewHash b) \<lparr>sf_path = b_path b, sf_data = KWMAGIC\<rparr>
      [0, if b_useNewHash b then 1 else 0, 0, 0] fs = Ret (-2, fs)"
    using assms by (intro write_refused) (simp_all add: savable_def)
  then show ?thesis using assms by (subst sync_blowfish) (auto simp: savable_def)
qed

lemma sync_accepted:
  assumes "savable h b" and "fs (b_path b) \<noteq> None" and "key_accepted (save_key b)"
  obtains d where "Backend_sync h b fs = Ret (0, Backend_swapToNewHash b, fs(b_path b \<mapsto> d))"
    and "\<And>c fs'. may_open b c \<Longrightarrow> fs' (b_path b) = Some d \<Longrightarrow>
      \<exists>c'. Backend_openInternal h c fs' = Ret (0, c', fs') \<and> b_open c' \<and> b_entries c' = b_entries b \<and>
        b_hashes c' = digest_table h (b_entries b)"
proof -
  let ?b = "Backend_swapToNewHash b" and ?sf = "\<lparr>sf_path = b_path b, sf_data = KWMAGIC\<rparr>"
  let ?v = "[0, if b_useNewHash b then 1 else 0, 0, 0] :: bytes"
  have v: "file_version ?b ?v = saved_version b" by (simp add: file_version_def saved_version_def)
  have ok: "stream_laws h" "md5_laws h" "storable ?b" "wf_entries ?b" "mayRead h (b_path b)"
    "length (data_stream h (b_entries b)) < 2 ^ 29"
    using assms(1) by (simp_all add: savable_def)
  have pre: "b_cipherType ?b = CIPHER_BLOWFISH" "\<forall>n. fullWrite h (sf_path ?sf) n" "mayCommit h (sf_path ?sf)"
    "length (data_stream h (b_entries ?b)) < 2 ^ 29" "key_accepted (b_passhash ?b)"
    using assms by (simp_all add: savable_def)
  obtain ct d where ct: "BlowfishPersist_write h ?b ?sf ?v fs = Ret (0, fs(sf_path ?sf \<mapsto>
      sf_data ?sf @ file_version ?b ?v @ hashes_stream h (b_entries ?b) @ ct))"
    "length ct = length (whole_file h (data_stream h (b_entries ?b)))"
    "CBC_decrypt BlowFish_vt (snd (CBC_setKey BlowFish_vt (CBC_new BlowFish_vt (Some fresh_blowfish) False)
      (b_passhash ?b) (int (length (b_passhash ?b)) * 8))) ct =
      Ret (int (length ct), whole_file h (data_stream h (b_entries ?b)), d)"
    by (rule write_accepted [OF pre])
  let ?file = "KWMAGIC @ saved_version b @ hashes_stream h (b_entries b) @ ct"
  have l: "60 \<le> length ?file"
    using length_hashes_stream [OF ok(1), of "b_entries b"] whole_file_long [OF ok(6), of h] ct(2)
    by (simp add: saved_version_def)
  show thesis
  proof (rule that [of ?file])
    show "Backend_sync h b fs = Ret (0, ?b, fs(b_path b \<mapsto> ?file))"
      using assms ct(1) v by (subst sync_blowfish) (auto simp: savable_def)
    fix c fs' assume c: "may_open b c" and fs': "fs' (b_path b) = Some ?file"
    let ?c = "if b_useNewHash b then Backend_swapToNewHash c else c"
    have "b_entries ?c = []" "b_passhash ?c = b_passhash ?b" using c by (auto simp: may_open_def)
    from read_written [OF ok(1-4) pre(4) this ct(2,3)]
    have "Backend_read_file h c ?file = Ret (0, ?c\<lparr>b_cipherType := CIPHER_BLOWFISH,
        b_hashes := digest_table h (b_entries b), b_entries := b_entries b, b_open := True\<rparr>)"
      unfolding read_saved_file by simp
    with c l fs' ok(5) show "\<exists>c'. Backend_openInternal h c fs' = Ret (0, c', fs') \<and> b_open c' \<and>
        b_entries c' = b_entries b \<and> b_hashes c' = digest_table h (b_entries b)"
      by (simp add: Backend_openInternal_def Backend_create_file_def wallet_on_disk_def may_open_def)
  qed
qed

text \<open>C1. A saved Blowfish wallet is opened again by any wallet object with the same path and the same
  key: the object gets the same folders and entries and the digest table of the file, and the file
  stays as it is.  If the cipher refuses the key, the save returns -2 and no file changes.\<close>

theorem saved_wallet_opens:
  fixes b c :: backend
  assumes "stream_laws h" "md5_laws h" "\<forall>n. fullWrite h (b_path b) n"
    and "mayWrite h (b_path b)" "mayCommit h (b_path b)" "mayRead h (b_path b)"
    and "b_open b" "b_cipherType b = CIPHER_BLOWFISH" "storable b" "wf_entries b"
    and "length (data_stream h (b_entries b)) < 2 ^ 29" "fs (b_path b) \<noteq> None"
    and "b_path c = b_path b" "b_entries c = []"
    and "(if b_useNewHash b then save_key c else b_passhash c) = save_key b"
  shows "\<exists>file. Backend_sync h b fs =
      (if key_accepted (save_key b) then Ret (0, Backend_swapToNewHash b, fs(b_path b \<mapsto> file))
       else Ret (-2, Backend_swapToNewHash b, fs)) \<and>
    (key_accepted (save_key b) \<longrightarrow>
      (\<exists>c'. Backend_openInternal h c (fs(b_path b \<mapsto> file)) = Ret (0, c', fs(b_path b \<mapsto> file)) \<and>
        b_open c' \<and> b_entries c' = b_entries b \<and> b_hashes c' = digest_table h (b_entries b)))"
proof -
  have s: "savable h b" and c: "may_open b c" using assms by (simp_all add: savable_def may_open_def)
  show ?thesis
  proof (cases "key_accepted (save_key b)")
    case False
    with sync_refused [of h b fs, OF s assms(12)] show ?thesis by simp
  next
    case True
    from sync_accepted [of h b fs, OF s assms(12) True] obtain d where
      "Backend_sync h b fs = Ret (0, Backend_swapToNewHash b, fs(b_path b \<mapsto> d))"
      "\<exists>c'. Backend_openInternal h c (fs(b_path b \<mapsto> d)) = Ret (0, c', fs(b_path b \<mapsto> d)) \<and>
        b_open c' \<and> b_entries c' = b_entries b \<and> b_hashes c' = digest_table h (b_entries b)"
      using c by (metis fun_upd_same)
    then show ?thesis using True by (intro exI [of _ d]) simp
  qed
qed

definition open_wallet :: backend where
  "open_wallet = stored_wallet\<lparr>b_newPassHash := zeros 20\<rparr>"

theorem saved_wallet_opens_witness:
  "\<exists>file. Backend_sync example_host open_wallet [qs ''/w/w.kwl'' \<mapsto> []] =
      (if key_accepted (zeros 20) then Ret (0, open_wallet, [qs ''/w/w.kwl'' \<mapsto> file])
       else Ret (-2, open_wallet, [qs ''/w/w.kwl'' \<mapsto> []]))"
proof -
  let ?p = "qs ''/w/w.kwl''" and ?c = "open_wallet\<lparr>b_entries := [], b_open := False\<rparr>"
  have p: "b_path open_wallet = ?p" "Backend_swapToNewHash open_wallet = open_wallet" "save_key open_wallet = zeros 20"
    by (simp_all add: open_wallet_def stored_wallet_def Backend_swapToNewHash_def save_key_def)
  have io: "\<forall>n. fullWrite example_host (b_path open_wallet) n" "mayWrite example_host (b_path open_wallet)"
    "mayCommit example_host (b_path open_wallet)" "mayRead example_host (b_path open_wallet)"
    by (simp_all add: example_host_def)
  have b: "b_open open_wallet" "b_cipherType open_wallet = CIPHER_BLOWFISH" "storable open_wallet" "wf_entries open_wallet"
    "length (data_stream example_host (b_entries open_wallet)) < 2 ^ 29"
    using stored_wallet_ok stored_wallet_small
    by (simp_all add: open_wallet_def stored_wallet_def storable_def wf_entries_def)
  have c: "b_path ?c = b_path open_wallet" "b_entries ?c = []"
    "(if b_useNewHash open_wallet then save_key ?c else b_passhash ?c) = save_key open_wallet"
    by (simp_all add: open_wallet_def stored_wallet_def save_key_def)
  have f: "[?p \<mapsto> []] (b_path open_wallet) \<noteq> None" unfolding p by simp
  from saved_wallet_opens [where fs = "[?p \<mapsto> []]" and c = ?c, OF stream_laws_example md5_laws_example io b f c]
  show ?thesis unfolding p by auto
qed

section \<open>Saving that fails\<close>

lemma sf_write_path: "sf_write h d sf = (ok, sf') \<Longrightarrow> sf_path sf' = sf_path sf"
  by (auto simp: sf_write_def split: if_splits)

lemma write_pieces_path: "write_pieces h bs sf = (ok, sf') \<Longrightarrow> sf_path sf' = sf_path sf"
  by (induction bs arbitrary: sf) (auto dest: sf_write_path split: prod.splits if_splits)

lemma sf_commit_frame:
  "sf_commit h sf fs = (ok, fs') \<Longrightarrow> (ok \<or> fs' = fs) \<and> (\<forall>p. p \<noteq> sf_path sf \<longrightarrow> fs' p = fs p)"
  by (auto simp: sf_commit_def split: if_splits)

lemma BlowfishPersist_write_frame:
  assumes "BlowfishPersist_write h b sf v fs = Ret (rc, fs')"
  shows "rc \<le> 0 \<and> (rc \<noteq> 0 \<longrightarrow> fs' = fs) \<and> (\<forall>p. p \<noteq> sf_path sf \<longrightarrow> fs' p = fs p)"
  using assms
  by (auto simp: BlowfishPersist_write_def Let_def run_bind_Ret_iff
      dest!: sf_write_path sf_commit_frame split: if_splits prod.splits)

lemma GpgPersist_write_frame:
  assumes "GpgPersist_write h b sf v fs = Ret (rc, fs')"
  shows "rc \<le> 0 \<and> (rc \<noteq> 0 \<longrightarrow> fs' = fs) \<and> (\<forall>p. p \<noteq> sf_path sf \<longrightarrow> fs' p = fs p)"
  using assms
  by (auto simp: GpgPersist_write_def Let_def
      dest!: sf_write_path write_pieces_path sf_commit_frame split: if_splits prod.splits option.splits)

lemma handler_write_frame:
  assumes "handler_write ph h b sf v fs = Ret (rc, fs')"
  shows "rc \<le> 0" "rc \<noteq> 0 \<Longrightarrow> fs' = fs" "p \<noteq> sf_path sf \<Longrightarrow> fs' p = fs p"
  using assms BlowfishPersist_write_frame GpgPersist_write_frame by (cases ph; fastforce)+

lemma sync_frame:
  assumes "Backend_sync h b fs = Ret (rc, b', fs')"
  shows "rc \<le> 0 \<and> (rc \<noteq> 0 \<longrightarrow> fs' = fs) \<and> (\<forall>p. p \<noteq> b_path b \<longrightarrow> fs' p = fs p) \<and>
    (b' = b \<or> b' = Backend_swapToNewHash b)"
  using assms handler_write_frame
  by (fastforce simp: Backend_sync_def sf_write_def Let_def run_bind_Ret_iff split: if_splits prod.splits)

text \<open>C10. A save that does not return 0 changes no file, whatever step failed and for both formats; one
  that does replaces the wallet's own file only.  The wallet keeps its entries and stays open.\<close>

theorem sync_atomic:
  assumes "Backend_sync h b fs = Ret (rc, b', fs')"
  shows "rc \<le> 0 \<and> (rc \<noteq> 0 \<longrightarrow> fs' = fs) \<and> (\<forall>p. p \<noteq> b_path b \<longrightarrow> fs' p = fs p) \<and>
    b_entries b' = b_entries b \<and> b_open b' = b_open b"
  using sync_frame [OF assms] by auto

theorem sync_atomic_witness:
  "Backend_sync example_host (open_wallet\<lparr>b_path := qs ''x''\<rparr>) [qs ''y'' \<mapsto> [1]] =
     Ret (-3, open_wallet\<lparr>b_path := qs ''x''\<rparr>, [qs ''y'' \<mapsto> [1]])"
proof -
  have "Backend_sync example_host (open_wallet\<lparr>b_path := qs ''x''\<rparr>) [qs ''y'' \<mapsto> [1]] =
      Ret (-3, open_wallet\<lparr>b_path := qs ''x''\<rparr>, [qs ''y'' \<mapsto> [1]])"
    by (simp add: Backend_sync_def open_wallet_def stored_wallet_def qs_def)
  with sync_atomic [OF this] show ?thesis by simp
qed

text \<open>Closing: on success the wallet has no entries, is not open, and both its keys are zeroed; when
  the save fails it is left as it was, open and with its entries, and no file has changed.\<close>

theorem close_outcome:
  assumes "Backend_close h save b fs = Ret (rc, b', fs')"
  shows "if rc = 0 then b_entries b' = [] \<and> \<not> b_open b' \<and> set (b_passhash b') \<subseteq> {0} \<and> set (b_newPassHash b') \<subseteq> {0}
     else save \<and> fs' = fs \<and> b_entries b' = b_entries b \<and> b_open b' = b_open b \<and> b_passhash b' \<in> {b_passhash b, save_key b}"
proof (cases save)
  case False
  then have "rc = 0" "b' = b\<lparr>b_entries := [], b_open := False, b_passhash := zeros (length (b_passhash b)),
      b_newPassHash := zeros (length (b_newPassHash b))\<rparr>"
    using assms by (simp_all add: Backend_close_def Backend_closeInternal_def)
  then show ?thesis by (simp add: set_zeros)
next
  case True
  then obtain rc1 b1 fs1 where s: "Backend_sync h b fs = Ret (rc1, b1, fs1)"
    using assms by (cases "Backend_sync h b fs") (auto simp: Backend_close_def Backend_closeInternal_def)
  show ?thesis
  proof (cases "rc1 = 0")
    case True
    with s \<open>save\<close> assms have "rc = 0" "b' = b1\<lparr>b_entries := [], b_open := False,
        b_passhash := zeros (length (b_passhash b1)), b_newPassHash := zeros (length (b_newPassHash b1))\<rparr>"
      by (simp_all add: Backend_close_def Backend_closeInternal_def)
    then show ?thesis by (simp add: set_zeros)
  next
    case False
    with s \<open>save\<close> assms have "rc = rc1" "b' = b1" "fs' = fs1"
      by (simp_all add: Backend_close_def Backend_closeInternal_def)
    with False sync_frame [OF s] \<open>save\<close> show ?thesis by auto
  qed
qed

text \<open>
  An open wallet is deleted without a save, and its keys are erased.  The daemon deletes a wallet after closing it, also
  when the save failed: what was not saved is lost then.  A wallet that could not be opened keeps the keys that were tried.
\<close>

lemma deleted_wallet:
  assumes "Backend_delete h b fs = Ret (b', fs')"
  shows "fs' = fs \<and> (b_open b \<longrightarrow> b_entries b' = [] \<and> set (b_passhash b') \<subseteq> {0} \<and> set (b_newPassHash b') \<subseteq> {0}) \<and>
    (\<not> b_open b \<longrightarrow> b' = b)"
  using assms
  by (auto simp: Backend_delete_def Backend_close_def Backend_closeInternal_def zeros_def split: if_splits)

theorem close_outcome_witness:
  "\<exists>b'. Backend_close example_host False open_wallet Map.empty = Ret (0, b', Map.empty) \<and> set (b_passhash b') \<subseteq> {0}"
proof -
  obtain b' where "Backend_close example_host False open_wallet Map.empty = Ret (0, b', Map.empty)"
    by (simp add: Backend_close_def Backend_closeInternal_def)
  with close_outcome [OF this] show ?thesis by simp
qed

text \<open>A wallet that cannot be created because its first save fails is reported as -2 but left open
  and empty, so that every later attempt to open it answers that it is already open.\<close>

theorem failed_create_stays_open:
  assumes "\<not> wallet_on_disk fs (b_path b)" and "mayWrite h (b_path b)" and "\<not> fullWrite h (b_path b) 12"
  shows "\<exists>b' fs'. Backend_openInternal h b fs = Ret (-2, b', fs') \<and> b_open b' \<and> b_entries b' = b_entries b \<and>
    Backend_open h password b' fs' = Ret (-255, b', fs')"
proof -
  let ?fs = "if fs (b_path b) = None then fs(b_path b \<mapsto> []) else fs"
  obtain d where "?fs (b_path b) = Some d" by (cases "fs (b_path b)") auto
  then have "Backend_sync h (b\<lparr>b_open := True\<rparr>) ?fs = Ret (-4, b\<lparr>b_open := True\<rparr>, ?fs)"
    using assms by (simp add: Backend_sync_def sf_write_def)
  then have "Backend_openInternal h b fs = Ret (-2, b\<lparr>b_open := True\<rparr>, ?fs)"
    using assms by (simp add: Backend_openInternal_def Backend_create_file_def Let_def)
  then show ?thesis by (simp add: Backend_open_def)
qed

theorem failed_create_stays_open_witness:
  "\<exists>b' fs'. Backend_openInternal (example_host\<lparr>fullWrite := \<lambda>_ _. False\<rparr>) open_wallet Map.empty = Ret (-2, b', fs') \<and>
     b_open b'"
proof -
  have "mayWrite (example_host\<lparr>fullWrite := \<lambda>_ _. False\<rparr>) (b_path open_wallet)" by (simp add: example_host_def)
  then show ?thesis
    using failed_create_stays_open [of Map.empty open_wallet "example_host\<lparr>fullWrite := \<lambda>_ _. False\<rparr>" "[]"]
    by (auto simp: wallet_on_disk_def)
qed

end
