(* ===== verification/KSecretDClaims.thy ===== *)
theory KSecretDClaims
  imports KSecretDInv BackendFileProps
begin

text \<open>
  What single operations of the daemon promise: handles, counted failures, closing, deleting,
  switching the daemon off, and the queue of requests.
\<close>

section \<open>Handles\<close>

definition taken :: "host \<Rightarrow> wallets \<Rightarrow> nat \<Rightarrow> bool" where
  "taken h ws j \<longleftrightarrow> qmap_contains ws (rand h j) \<or> rand h j = 0"

lemma generateHandle_step:
  "generateHandle h ws n = (if taken h ws n then generateHandle h ws (n + 1) else Some (rand h n, n + 1))"
  by (subst generateHandle.simps) (simp add: taken_def)

lemma generateHandle_found:
  "\<not> taken h ws (n + k) \<Longrightarrow> \<forall>j < k. taken h ws (n + j) \<Longrightarrow> generateHandle h ws n = Some (rand h (n + k), Suc (n + k))"
proof (induction k arbitrary: n)
  case (Suc k)
  have "taken h ws n" using Suc.prems(2) [rule_format, of 0] by simp
  moreover have "\<forall>j < k. taken h ws (Suc n + j)"
    using Suc.prems(2) by (metis Suc_less_eq add_Suc_shift)
  ultimately show ?case
    using Suc.IH [of "Suc n"] Suc.prems(1) generateHandle_step [of h ws n] by simp
qed (simp add: generateHandle_step)

lemma generateHandle_only_found:
  assumes "generateHandle h ws n = Some r"
  shows "\<exists>j. n \<le> j \<and> \<not> taken h ws j"
proof -
  let ?P = "\<lambda>(h :: host) (ws :: wallets) (n :: nat) (r :: int \<times> nat). \<exists>j. n \<le> j \<and> \<not> taken h ws j"
  show ?thesis
  proof (rule generateHandle.raw_induct [of ?P, OF _ assms])
    fix gen :: "host \<Rightarrow> wallets \<Rightarrow> nat \<Rightarrow> (int \<times> nat) option" and h :: host and ws :: wallets and n r
    assume ih: "\<And>h ws n r. gen h ws n = Some r \<Longrightarrow> ?P h ws n r"
      and r: "(if qmap_contains ws (rand h n) \<or> rand h n = 0 then gen h ws (n + 1) else Some (rand h n, n + 1)) = Some r"
    show "?P h ws n r"
    proof (cases "taken h ws n")
      case True
      with r have "gen h ws (n + 1) = Some r" by (simp add: taken_def)
      from ih [OF this] show ?thesis by (meson add_leD1)
    qed blast
  qed
qed

lemma handle_first:
  assumes "n \<le> j" and "\<not> taken h ws j"
  shows "\<exists>r. generateHandle h ws n = Some r"
proof -
  let ?k = "LEAST k. \<not> taken h ws (n + k)"
  have "\<not> taken h ws (n + (j - n))" using assms by simp
  then have "\<not> taken h ws (n + ?k)" by (rule LeastI)
  moreover have "\<forall>i < ?k. taken h ws (n + i)" using not_less_Least by blast
  ultimately show ?thesis using generateHandle_found by blast
qed

text \<open>The search for a handle gives the first random number that is neither 0 nor a handle in use, and
  it runs forever exactly when every number drawn is one of those.\<close>

theorem handle_search:
  "(generateHandle h ws n = None \<longleftrightarrow> (\<forall>j \<ge> n. taken h ws j)) \<and>
   (\<not> taken h ws (n + k) \<and> (\<forall>j < k. taken h ws (n + j)) \<longrightarrow>
     generateHandle h ws n = Some (rand h (n + k), Suc (n + k)))"
proof -
  have "generateHandle h ws n = None \<longleftrightarrow> (\<forall>j \<ge> n. taken h ws j)"
    using generateHandle_only_found [of h ws n] handle_first [of n _ h ws] by fastforce
  then show ?thesis using generateHandle_found by blast
qed

theorem handle_search_witness: "generateHandle example_host [(1, empty_wallet)] 0 = Some (2, 2)"
proof -
  have "taken example_host [(1, empty_wallet)] 0" "\<not> taken example_host [(1, empty_wallet)] 1"
    by (simp_all add: taken_def qmap_contains_def qmap_find_def example_host_def)
  then show ?thesis
    using handle_search [of example_host "[(1, empty_wallet)]" 0 1]
    by (simp add: example_host_def less_Suc_eq numeral_2_eq_2)
qed

text \<open>When the generator gives different numbers while the daemon looks for one, a handle is found,
  and it is new, whatever wallets are open.\<close>

theorem handle_found:
  assumes "inj_on (rand h) {n .. n + Suc (length ws)}"
  shows "\<exists>i m. generateHandle h ws n = Some (i, m) \<and> i \<noteq> 0 \<and> \<not> qmap_contains ws i"
proof -
  have "\<not> rand h ` {n .. n + Suc (length ws)} \<subseteq> insert 0 (fst ` set ws)"
  proof
    assume s: "rand h ` {n .. n + Suc (length ws)} \<subseteq> insert 0 (fst ` set ws)"
    have "card (insert 0 (fst ` set ws)) \<le> Suc (card (fst ` set ws))" by (rule card_insert_le_m1) simp_all
    also have "\<dots> \<le> Suc (length ws)"
      using card_image_le [of "set ws" fst] card_length [of ws] by simp
    finally have "card (rand h ` {n .. n + Suc (length ws)}) \<le> Suc (length ws)"
      using card_mono [OF _ s] by simp
    then show False using card_image [OF assms] by simp
  qed
  then obtain j where "n \<le> j" "rand h j \<notin> insert 0 (fst ` set ws)" by (meson atLeastAtMost_iff image_subsetI)
  then have "\<not> taken h ws j"
    using dom_qmap_find [of ws] by (auto simp: taken_def qmap_contains_def)
  with handle_first [OF \<open>n \<le> j\<close>] obtain r where "generateHandle h ws n = Some r" by blast
  then obtain i m where g: "generateHandle h ws n = Some (i, m)" by (cases r) simp
  then show ?thesis using generateHandle_fresh [OF g] by (simp add: qmap_contains_def)
qed

theorem handle_found_witness:
  "\<exists>i m. generateHandle example_host [(1, empty_wallet)] 0 = Some (i, m) \<and> i \<noteq> 0"
proof -
  have "inj_on (rand example_host) {0 .. 0 + Suc (length [(1 :: int, empty_wallet)])}"
    by (simp add: inj_on_def example_host_def)
  from handle_found [OF this] show ?thesis by blast
qed

section \<open>Failed accesses\<close>

lemma isOpen_fails:
  assumes "handle \<noteq> 0" and "qmap_find (ks_wallets s) handle = None" and "0 \<le> ks_failed s" and "ks_failed s \<le> 5"
  shows "snd (KSecretD_isOpen handle s) = s\<lparr>ks_failed := (if ks_failed s = 5 then 0 else ks_failed s + 1),
    ks_events := ks_events s @ (if ks_failed s = 5 then [NotifyFailures] else [])\<rparr>"
  using assms by (simp add: KSecretD_isOpen_def count_failure_def emit_def)

lemma succ_6:
  fixes x :: int
  shows "(x + 1) mod 6 = (if x mod 6 = 5 then 0 else x mod 6 + 1)"
    and "(x + 1) div 6 = (if x mod 6 = 5 then x div 6 + 1 else x div 6)"
proof -
  have e: "x + 1 = (x mod 6 + 1) + 6 * (x div 6)" by simp
  have b: "0 \<le> x mod 6" "x mod 6 < 6" by simp_all
  show "(x + 1) mod 6 = (if x mod 6 = 5 then 0 else x mod 6 + 1)"
    using b by (subst e, unfold mod_mult_self2) (simp add: mod_pos_pos_trivial)
  show "(x + 1) div 6 = (if x mod 6 = 5 then x div 6 + 1 else x div 6)"
    using b by (subst e, subst div_mult_self2) (simp_all add: div_pos_pos_trivial)
qed

text \<open>Failed accesses through a handle that is not in use are counted modulo 6: the daemon warns the user at
  every sixth one in a row, and nothing else changes.\<close>

theorem failures_counted:
  assumes "handle \<noteq> 0" and "qmap_find (ks_wallets s) handle = None" and "0 \<le> ks_failed s" and "ks_failed s \<le> 5"
  shows "((\<lambda>s. snd (KSecretD_isOpen handle s)) ^^ n) s =
    s\<lparr>ks_failed := (ks_failed s + int n) mod 6,
      ks_events := ks_events s @ replicate (nat ((ks_failed s + int n) div 6)) NotifyFailures\<rparr>"
proof (induction n)
  case 0
  then show ?case using assms by simp
next
  case (Suc n)
  let ?f = "ks_failed s + int n"
  have m: "0 \<le> ?f mod 6" "?f mod 6 \<le> 5" "0 \<le> ?f div 6" using assms(3) by simp_all
  have e: "ks_failed s + int (Suc n) = ?f + 1" by simp
  show ?case
    unfolding funpow.simps comp_def Suc
    by (subst isOpen_fails) (use assms m in \<open>simp_all add: e succ_6 nat_add_distrib replicate_append_same
        del: of_nat_Suc\<close>)
qed

theorem failures_counted_witness:
  "((\<lambda>s. snd (KSecretD_isOpen 3 s)) ^^ 7) fresh_daemon = fresh_daemon\<lparr>ks_failed := 1, ks_events := [NotifyFailures]\<rparr>"
  using failures_counted [of 3 fresh_daemon 7] by (simp add: fresh_daemon_def)

section \<open>Closing and deleting\<close>

lemma internalClose_Ret:
  assumes "Backend_close h save w (ks_files s) = Ret (rc, w', fs)"
  shows "\<exists>s'. KSecretD_internalClose h w i save s = Ret (0, s') \<and> ks_files s' = fs \<and> ks_settings s' = ks_settings s"
  by (cases "ks_closeIdle s") (simp_all add: KSecretD_internalClose_def assms emit_def)

text \<open>Closing an open wallet always answers 0 and forgets the wallet and its timers, also when it could
  not be saved: with a save file that cannot be written, the files are as they were, so what was written
  since the last save is lost without an error.\<close>

theorem close_ignores_failed_save:
  assumes "ks_inv s" and "qmap_find (ks_wallets s) handle = Some w"
    and "b_open w" and "ks_files s (b_path w) \<noteq> None" and "\<not> mayWrite h (b_path w)"
  shows "\<exists>s'. KSecretD_close h handle s = Ret (0, s') \<and> ks_files s' = ks_files s \<and>
    ks_wallets s' = qmap_remove handle (ks_wallets s) \<and> handle \<notin> kt_ids (ks_closeTimers s') \<and>
    handle \<notin> kt_ids (ks_syncTimers s')"
proof -
  obtain z w' where d: "Backend_deref w = (z, w')" by (cases "Backend_deref w")
  have w': "b_open w'" "b_path w' = b_path w"
    using d assms(3) by (auto simp: Backend_deref_def Let_def split: if_splits)
  then have c: "Backend_close h True w' (ks_files s) = Ret (-1, w', ks_files s)"
    using assms(3-5) by (auto simp: Backend_close_def Backend_closeInternal_def Backend_sync_def)
  obtain s' where s': "KSecretD_internalClose h w' handle True s = Ret (0, s')" "ks_files s' = ks_files s"
    using internalClose_Ret [OF c] by blast
  note i = ks_inv_internalClose [OF assms(1) s'(1)]
  have "handle \<notin> kt_ids (ks_closeTimers s') \<and> handle \<notin> kt_ids (ks_syncTimers s')"
    using i(1,2) by (auto simp: ks_inv_but_def)
  with d s' i(4) assms(2) show ?thesis by (simp add: KSecretD_close_def)
qed

definition read_only_host :: host where
  "read_only_host = example_host\<lparr>mayWrite := (\<lambda>_. False)\<rparr>"

definition saved_once :: ksecretd where
  "saved_once = one_wallet\<lparr>ks_files := [b_path empty_wallet \<mapsto> [1]]\<rparr>"

lemma saved_once_inv: "ks_inv saved_once"
  by (simp add: saved_once_def one_wallet_def fresh_daemon_def ks_inv_but_def handles_def dom_qmap_find kt_inv_new
      qmap_wf_def example_settings_def)

theorem close_ignores_failed_save_witness:
  "\<exists>s'. KSecretD_close read_only_host 7 saved_once = Ret (0, s') \<and> ks_files s' = ks_files saved_once"
proof -
  have "qmap_find (ks_wallets saved_once) 7 = Some empty_wallet" "ks_files saved_once (b_path empty_wallet) \<noteq> None"
    by (simp_all add: saved_once_def one_wallet_def qmap_find_def)
  with close_ignores_failed_save [OF saved_once_inv, of 7 empty_wallet read_only_host] show ?thesis
    by (auto simp: read_only_host_def empty_wallet_def)
qed

section \<open>Closing and opening again\<close>

lemma pam_register_Ret:
  assumes "generateHandle h (ks_wallets s) (ks_rand s) = Some (i, n)"
  shows "\<exists>s'. pam_register h new w b s = Ret (i, s') \<and> ks_wallets s' = qmap_insert i b (ks_wallets s)"
proof -
  have "ks_wallets (let s = (if new then emit (WalletCreated w) s1 else s1); s = emit (WalletChangeState w i) s
      in if length (ks_wallets s) = 1 \<and> ks_launchManager s then emit StartManager s else s) = ks_wallets s1" for s1
    by (simp add: Let_def emit_def)
  then show ?thesis
    unfolding pam_register_def assms option.case prod.case by (simp add: Let_def)
qed

lemma pamOpen_opens:
  assumes "\<not> ks_processing s" and "findWallet name s = None" and "length (ks_wallets s) \<le> 20"
    and "length pw \<in> {20, 40, 56}" and "generateHandle h (ks_wallets s) (ks_rand s) = Some (i, n)"
    and opens: "\<And>c. b_path c = wallet_path h name \<Longrightarrow> b_entries c = [] \<Longrightarrow> b_passhash c = pw \<Longrightarrow> b_newPassHash c = pw \<Longrightarrow>
      \<exists>c'. Backend_openInternal h c (ks_files s) = Ret (0, c', ks_files s) \<and> b_open c' \<and> b_entries c' = es"
  shows "\<exists>c' s'. KSecretD_pamOpen h name pw s = Ret (i, s') \<and> ks_wallets s' = qmap_insert i c' (ks_wallets s) \<and>
    b_open c' \<and> b_entries c' = es"
proof -
  let ?new = "name \<notin> set (KSecretD_wallets h s)"
  let ?b = "if ?new then (Backend_new h name)\<lparr>b_cipherType := CIPHER_BLOWFISH\<rparr> else Backend_new h name"
  have b: "(if ?new then Backend_setCipherType CIPHER_BLOWFISH (Backend_new h name) else Ret (Backend_new h name)) = Ret ?b"
    by (simp add: Backend_setCipherType_def Backend_new_def)
  let ?c = "?b\<lparr>b_passhash := pw, b_newPassHash := pw, b_useNewHash := True\<rparr>"
  have "\<not> b_open ?b" "b_path ?c = wallet_path h name" "b_entries ?c = []" by (simp_all add: Backend_new_def)
  with opens [of ?c] assms(4) obtain c' where
    c': "Backend_openPreHashed h pw ?b (ks_files s) = Ret (0, c', ks_files s)" "b_open c'" "b_entries c' = es"
    unfolding Backend_openPreHashed_def by auto
  obtain s' where "pam_register h ?new name c' s = Ret (i, s')" "ks_wallets s' = qmap_insert i c' (ks_wallets s)"
    using pam_register_Ret [OF assms(5)] by blast
  then show ?thesis
    using assms(1-3) c' unfolding KSecretD_pamOpen_def Let_def b by auto
qed

lemma readEntry_found:
  assumes "qmap_find (ks_wallets s) i = Some b" and "i \<noteq> 0" and "b_open b"
  shows "fst (KSecretD_readEntry i f k s) = (case lookup_entry b f k of None \<Rightarrow> [] | Some e \<Rightarrow> e_value e)"
proof -
  obtain s' where "KSecretD_getWallet i s = (Some b, s')"
    using getWallet_valid [OF assms(1,2)] by metis
  moreover have "Backend_readEntry (Backend_setFolder f b) k = lookup_entry b f k"
    using assms(3) by (simp add: readEntry_lookup Backend_setFolder_def lookup_entry_def)
  ultimately show ?thesis by (simp add: KSecretD_readEntry_def Let_def split: option.split)
qed

lemma same_entries_read:
  assumes "qmap_find (ks_wallets s) i = Some b" and "i \<noteq> 0" and "b_open b"
    and "qmap_find (ks_wallets s') j = Some c" and "j \<noteq> 0" and "b_open c" and "b_entries b = b_entries c"
  shows "fst (KSecretD_readEntry i f k s) = fst (KSecretD_readEntry j f k s')"
  using assms(7) by (simp add: readEntry_found [OF assms(1-3)] readEntry_found [OF assms(4-6)] lookup_entry_def content_def)

lemma deref_same:
  assumes "Backend_deref w = (z, w')"
  shows "savable h w' = savable h w" "save_key w' = save_key w" "b_path w' = b_path w" "may_open w' c = may_open w c"
    "b_entries w' = b_entries w"
proof -
  have w': "w' = w\<lparr>b_ref := b_ref w'\<rparr>" using assms by (auto simp: Backend_deref_def Let_def)
  show "savable h w' = savable h w" "save_key w' = save_key w" "b_path w' = b_path w" "may_open w' c = may_open w c"
    "b_entries w' = b_entries w"
    by (subst w', simp add: savable_def storable_def wf_entries_def save_key_def may_open_def)+
qed

lemma close_files:
  assumes "qmap_find (ks_wallets s) i = Some w" and "Backend_deref w = (z, w')"
    and "Backend_sync h w' (ks_files s) = Ret (rc, w2, fs')"
  shows "\<exists>s1. KSecretD_close h i s = Ret (0, s1) \<and> ks_files s1 = fs'"
proof -
  obtain rc' w3 where "Backend_close h True w' (ks_files s) = Ret (rc', w3, fs')"
    using assms(3) by (cases "rc = 0") (simp_all add: Backend_close_def Backend_closeInternal_def)
  from internalClose_Ret [OF this, of i] assms(1,2) show ?thesis by (auto simp: KSecretD_close_def)
qed

lemma close_saves:
  assumes "savable h w" and "ks_files s (b_path w) \<noteq> None" and "qmap_find (ks_wallets s) i = Some w"
  shows "\<exists>s1. KSecretD_close h i s = Ret (0, s1) \<and>
    (if key_accepted (save_key w)
     then \<forall>c. may_open w c \<longrightarrow> (\<exists>c'. Backend_openInternal h c (ks_files s1) = Ret (0, c', ks_files s1) \<and>
       b_open c' \<and> b_entries c' = b_entries w)
     else ks_files s1 = ks_files s)"
proof -
  obtain z w' where d: "Backend_deref w = (z, w')" by (cases "Backend_deref w")
  note e = deref_same [OF d]
  have sv: "savable h w'" "ks_files s (b_path w') \<noteq> None" using assms(1,2) e by simp_all
  show ?thesis
  proof (cases "key_accepted (save_key w)")
    case False
    with sync_refused [of h w' "ks_files s", OF sv] e(2) close_files [OF assms(3) d] show ?thesis by simp
  next
    case True
    then have "key_accepted (save_key w')" using e(2) by simp
    from sync_accepted [of h w' "ks_files s", OF sv this] obtain dt where
      sy: "Backend_sync h w' (ks_files s) = Ret (0, Backend_swapToNewHash w', (ks_files s)(b_path w' \<mapsto> dt))"
      and op: "\<And>c fs'. may_open w' c \<Longrightarrow> fs' (b_path w') = Some dt \<Longrightarrow>
        \<exists>c'. Backend_openInternal h c fs' = Ret (0, c', fs') \<and> b_open c' \<and> b_entries c' = b_entries w'"
      by metis
    from close_files [OF assms(3) d sy] obtain s1 where
      s1: "KSecretD_close h i s = Ret (0, s1)" "ks_files s1 (b_path w') = Some dt" by auto
    with op e(4,5) True show ?thesis by (intro exI [of _ s1]) simp
  qed
qed

lemma pamOpen_reads:
  assumes "\<forall>c. may_open w c \<longrightarrow> (\<exists>c'. Backend_openInternal h c (ks_files s') = Ret (0, c', ks_files s') \<and>
      b_open c' \<and> b_entries c' = b_entries w)"
    and "b_path w = wallet_path h name"
    and "ks_inv s'" and "\<not> ks_processing s'" and "findWallet name s' = None" and "length (ks_wallets s') \<le> 20"
    and "generateHandle h (ks_wallets s') (ks_rand s') = Some (i, n)" and "length (save_key w) \<in> {20, 40, 56}"
    and "qmap_find (ks_wallets s) handle = Some w" and "handle \<noteq> 0" and "b_open w"
  shows "\<exists>s2. KSecretD_pamOpen h name (save_key w) s' = Ret (i, s2) \<and>
     (\<forall>f k. fst (KSecretD_readEntry i f k s2) = fst (KSecretD_readEntry handle f k s))"
proof -
  have "may_open w c" if "b_path c = wallet_path h name" "b_entries c = []" "b_passhash c = save_key w"
      "b_newPassHash c = save_key w" for c
    using that assms(2) by (simp add: may_open_def save_key_def)
  with assms(1) obtain c' s2 where
    c': "KSecretD_pamOpen h name (save_key w) s' = Ret (i, s2)" "ks_wallets s2 = qmap_insert i c' (ks_wallets s')"
    "b_open c'" "b_entries c' = b_entries w"
    using pamOpen_opens [OF assms(4-6,8,7), of "b_entries w"] by auto
  have q: "qmap_find (ks_wallets s2) i = Some c'" "i \<noteq> 0"
    using c'(2) assms(3) generateHandle_fresh [OF assms(7)] by (simp_all add: ks_inv_but_def qmap_simps)
  have "fst (KSecretD_readEntry i f k s2) = fst (KSecretD_readEntry handle f k s)" for f k
    by (rule same_entries_read [OF q c'(3) assms(9-11) c'(4)])
  with c'(1) show ?thesis by blast
qed

text \<open>C2. What a wallet holds survives closing and opening: after the daemon saved and closed it, this daemon or
  another one that opens it with the same key hash (as the login does) gives every entry as it was read before.
  When the cipher refuses the key, the close changes no file.\<close>

theorem entries_survive_restart:
  assumes "savable h w" and "b_path w = wallet_path h name" and "ks_files s (b_path w) \<noteq> None"
    and "qmap_find (ks_wallets s) handle = Some w" and "handle \<noteq> 0"
    and "ks_inv s'" and "\<not> ks_processing s'" and "findWallet name s' = None" and "length (ks_wallets s') \<le> 20"
    and "generateHandle h (ks_wallets s') (ks_rand s') = Some (i, n)" and "length (save_key w) \<in> {20, 40, 56}"
  shows "\<exists>s1. KSecretD_close h handle s = Ret (0, s1) \<and>
    (if key_accepted (save_key w)
     then ks_files s' = ks_files s1 \<longrightarrow> (\<exists>s2. KSecretD_pamOpen h name (save_key w) s' = Ret (i, s2) \<and>
       (\<forall>f k. fst (KSecretD_readEntry i f k s2) = fst (KSecretD_readEntry handle f k s)))
     else ks_files s1 = ks_files s)"
proof -
  obtain s1 where s1: "KSecretD_close h handle s = Ret (0, s1)"
    "if key_accepted (save_key w)
     then \<forall>c. may_open w c \<longrightarrow> (\<exists>c'. Backend_openInternal h c (ks_files s1) = Ret (0, c', ks_files s1) \<and>
       b_open c' \<and> b_entries c' = b_entries w)
     else ks_files s1 = ks_files s"
    using close_saves [OF assms(1,3,4)] by blast
  have "\<exists>s2. KSecretD_pamOpen h name (save_key w) s' = Ret (i, s2) \<and>
     (\<forall>f k. fst (KSecretD_readEntry i f k s2) = fst (KSecretD_readEntry handle f k s))"
    if "ks_files s' = ks_files s1" "key_accepted (save_key w)"
    using pamOpen_reads [OF _ assms(2,6-11,4,5)] s1(2) that assms(1) by (simp add: savable_def)
  with s1 show ?thesis by auto
qed

definition daemon_with_wallet :: ksecretd where
  "daemon_with_wallet = fresh_daemon\<lparr>ks_wallets := [(7, open_wallet)], ks_files := [qs ''/w/w.kwl'' \<mapsto> []]\<rparr>"

lemma open_wallet_savable: "savable example_host open_wallet"
  using stored_wallet_ok stored_wallet_small stream_laws_example md5_laws_example
  by (simp add: savable_def open_wallet_def example_host_def)
    (simp add: stored_wallet_def storable_def wf_entries_def)

theorem entries_survive_restart_witness:
  "\<exists>s1. KSecretD_close example_host 7 daemon_with_wallet = Ret (0, s1) \<and>
    (if key_accepted (zeros 20)
     then \<exists>s2. KSecretD_pamOpen example_host (qs ''w'') (zeros 20) (fresh_daemon\<lparr>ks_files := ks_files s1\<rparr>) = Ret (1, s2) \<and>
       fst (KSecretD_readEntry 1 (qs ''f'') (qs ''k'') s2) = [1, 2]
     else ks_files s1 = ks_files daemon_with_wallet)"
proof -
  have w: "b_path open_wallet = wallet_path example_host (qs ''w'')" "save_key open_wallet = zeros 20"
    "ks_files daemon_with_wallet (b_path open_wallet) \<noteq> None"
    "qmap_find (ks_wallets daemon_with_wallet) 7 = Some open_wallet" "(7 :: int) \<noteq> 0"
    by (simp_all add: open_wallet_def stored_wallet_def wallet_path_def encodeWalletName_def example_host_def qs_def
        save_key_def daemon_with_wallet_def qmap_find_def)
  have f: "ks_inv (fresh_daemon\<lparr>ks_files := fs\<rparr>)" "\<not> ks_processing (fresh_daemon\<lparr>ks_files := fs\<rparr>)"
    "findWallet (qs ''w'') (fresh_daemon\<lparr>ks_files := fs\<rparr>) = None" "length (ks_wallets (fresh_daemon\<lparr>ks_files := fs\<rparr>)) \<le> 20"
    "generateHandle example_host (ks_wallets (fresh_daemon\<lparr>ks_files := fs\<rparr>)) (ks_rand (fresh_daemon\<lparr>ks_files := fs\<rparr>)) = Some (1, 1)"
    for fs
    by (simp_all add: fresh_daemon_def ks_inv_but_def handles_def dom_qmap_find kt_inv_new example_settings_def
        findWallet_def generateHandle_step taken_def qmap_contains_def example_host_def)
  have l: "length (save_key open_wallet) \<in> {20, 40, 56}" using w(2) by simp
  have r: "fst (KSecretD_readEntry 7 (qs ''f'') (qs ''k'') daemon_with_wallet) = [1, 2]"
    by (simp add: readEntry_found [OF w(4,5)] open_wallet_def stored_wallet_def lookup_entry_def content_def qmap_find_def)
  note t = entries_survive_restart [OF open_wallet_savable w(1,3,4,5) f l, unfolded w(2)]
  obtain s1 where s1: "KSecretD_close example_host 7 daemon_with_wallet = Ret (0, s1)"
    "\<not> key_accepted (zeros 20) \<Longrightarrow> ks_files s1 = ks_files daemon_with_wallet"
    using t [of Map.empty] by auto
  then show ?thesis using t [of "ks_files s1"] r by auto
qed

section \<open>Deleting a wallet\<close>

text \<open>Deleting a wallet: without a file nothing happens and the answer is -1.  With a file, a wallet that
  is not open takes the daemon through a null pointer; one that is open is closed, and then its file and its
  salt are gone and the answer is 0, whether or not it could be saved.\<close>

theorem delete_outcomes:
  assumes "ks_inv s" and "mayRemove h (wallet_path h w)" and "mayRemove h (salt_path h w)"
  shows "(ks_files s (wallet_path h w) = None \<longrightarrow> KSecretD_deleteWallet h w s = Ret (-1, s)) \<and>
    (ks_files s (wallet_path h w) \<noteq> None \<and> findWallet w s = None \<longrightarrow> KSecretD_deleteWallet h w s = UB) \<and>
    (ks_files s (wallet_path h w) \<noteq> None \<and> findWallet w s = Some (i, b) \<and>
       Backend_close h True b (ks_files s) = Ret (rc, b', fs) \<longrightarrow>
       (\<exists>s'. KSecretD_deleteWallet h w s = Ret (0, s') \<and> handles s' = handles s - {i} \<and>
         ks_files s' (wallet_path h w) = None \<and> ks_files s' (salt_path h w) = None \<and>
         (\<forall>p. p \<noteq> wallet_path h w \<and> p \<noteq> salt_path h w \<longrightarrow> ks_files s' p = fs p)))"
proof -
  have "\<exists>s'. KSecretD_deleteWallet h w s = Ret (0, s') \<and> handles s' = handles s - {i} \<and>
      ks_files s' (wallet_path h w) = None \<and> ks_files s' (salt_path h w) = None \<and>
      (\<forall>p. p \<noteq> wallet_path h w \<and> p \<noteq> salt_path h w \<longrightarrow> ks_files s' p = fs p)"
    if f: "ks_files s (wallet_path h w) \<noteq> None" "findWallet w s = Some (i, b)"
      and c: "Backend_close h True b (ks_files s) = Ret (rc, b', fs)"
  proof -
    obtain s1 where s1: "KSecretD_internalClose h b i True s = Ret (0, s1)" "ks_files s1 = fs"
      using internalClose_Ret [OF c, of i] by blast
    from ks_inv_internalClose(2) [OF assms(1) s1(1)] f s1 assms(2,3) show ?thesis
      by (auto simp: KSecretD_deleteWallet_def remove_file_def emit_def handles_def Let_def)
  qed
  then show ?thesis by (auto simp: KSecretD_deleteWallet_def)
qed

theorem delete_outcomes_witness:
  "KSecretD_deleteWallet example_host (qs ''v'') (fresh_daemon\<lparr>ks_files := [qs ''/w/v.kwl'' \<mapsto> []]\<rparr>) = UB"
proof -
  let ?s = "fresh_daemon\<lparr>ks_files := [qs ''/w/v.kwl'' \<mapsto> []]\<rparr>"
  have "ks_inv ?s" "mayRemove example_host p" for p
    by (simp_all add: fresh_daemon_def ks_inv_but_def handles_def dom_qmap_find kt_inv_new example_settings_def
        example_host_def)
  moreover have "ks_files ?s (wallet_path example_host (qs ''v'')) \<noteq> None" "findWallet (qs ''v'') ?s = None"
    by (simp_all add: wallet_path_def encodeWalletName_def example_host_def qs_def findWallet_def fresh_daemon_def)
  ultimately show ?thesis using delete_outcomes [of ?s example_host "qs ''v''"] by blast
qed

section \<open>Switching the daemon off\<close>

lemma close_all_settings: "close_all h save ws s = Ret s' \<Longrightarrow> ks_settings s' = ks_settings s"
proof (induction ws arbitrary: s)
  case (Cons x ws)
  then show ?case
    by (cases x; cases "ks_closeIdle s")
      (fastforce simp: run_bind_Ret_iff KSecretD_internalClose_def emit_def)+
qed simp

lemma reconfigure_same:
  "ks_settings (reconfigure_timers c t s) = ks_settings s" "ks_wallets (reconfigure_timers c t s) = ks_wallets s"
  by (simp_all add: reconfigure_timers_def Let_def)

text \<open>When the settings switch the daemon off, the next look at them closes every wallet, stops every timer
  and ends the program; requests to open are refused at once, without entering the queue.\<close>

theorem disabled_daemon_closes:
  assumes "ks_inv s" and "\<not> KSecretD_isEnabled s" and "KSecretD_reconfigure h s = Ret s'"
  shows "ks_wallets s' = [] \<and> kt_running (ks_closeTimers s') = Map.empty \<and> kt_running (ks_syncTimers s') = Map.empty \<and>
    last (ks_events s') = Quit \<and> KSecretD_open w wId s' = (Inl (-1), s')"
proof -
  have w: "ks_wallets s' = []" and i: "ks_inv s'"
    using ks_inv_reconfigure [OF assms(1,3)] assms(2) by auto
  have "kt_running t = Map.empty" if "kt_inv t" "kt_ids t = {}" for t
    using that by (auto simp: kt_inv_def kt_ids_def)
  moreover have "kt_ids (ks_closeTimers s') = {}" "kt_ids (ks_syncTimers s') = {}"
    using i w by (auto simp: ks_inv_but_def handles_def split: if_splits)
  moreover obtain t s1 where "close_all h True (ks_wallets s)
      (reconfigure_timers (ks_closeIdle s) (ks_idleTime s) (s\<lparr>ks_firstUse := set_firstUse (ks_settings s),
        ks_launchManager := set_launchManager (ks_settings s), ks_closeIdle := set_closeWhenIdle (ks_settings s), ks_idleTime := t\<rparr>)) = Ret s1"
    "s' = emit Quit s1"
    using assms(2,3) by (auto simp: KSecretD_reconfigure_def KSecretD_isEnabled_def run_bind_Ret_iff reconfigure_same Let_def)
  then have "ks_settings s' = ks_settings s" "last (ks_events s') = Quit"
    using close_all_settings reconfigure_same by (fastforce simp: emit_def)+
  ultimately show ?thesis
    using w i assms(2) by (simp add: KSecretD_open_def KSecretD_isEnabled_def ks_inv_but_def)
qed

theorem disabled_daemon_closes_witness:
  "\<exists>s'. KSecretD_reconfigure example_host (fresh_daemon\<lparr>ks_settings := example_settings\<lparr>set_kWalletDEnabled := False\<rparr>\<rparr>) =
     Ret s' \<and> KSecretD_open (qs ''w'') 0 s' = (Inl (-1), s')"
proof -
  let ?s = "fresh_daemon\<lparr>ks_settings := example_settings\<lparr>set_kWalletDEnabled := False\<rparr>\<rparr>"
  obtain s' where "KSecretD_reconfigure example_host ?s = Ret s'"
    by (simp add: KSecretD_reconfigure_def reconfigure_timers_def fresh_daemon_def example_settings_def
        KSecretD_isEnabled_def idle_interval_eq Let_def)
  moreover have "ks_inv ?s" "\<not> KSecretD_isEnabled ?s"
    by (simp_all add: fresh_daemon_def ks_inv_but_def handles_def dom_qmap_find kt_inv_new example_settings_def
        KSecretD_isEnabled_def)
  ultimately show ?thesis using disabled_daemon_closes by blast
qed

section \<open>The queue of requests\<close>

text \<open>What an operation may do to the queue and the log: nothing, and append.\<close>

definition later :: "ksecretd \<Rightarrow> ksecretd \<Rightarrow> bool" where
  "later s s' \<longleftrightarrow> ks_transactions s' = ks_transactions s \<and> (\<exists>es. ks_events s' = ks_events s @ es)"

lemma later_refl [simp, intro]: "later s s"
  by (simp add: later_def)

lemma later_trans [trans]: "later s s' \<Longrightarrow> later s' s'' \<Longrightarrow> later s s''"
  by (auto simp: later_def)

lemma later_updates [simp]:
  "later s (s'\<lparr>ks_files := fs\<rparr>) = later s s'" "later s (s'\<lparr>ks_wallets := ws\<rparr>) = later s s'"
  "later s (s'\<lparr>ks_closeTimers := t\<rparr>) = later s s'" "later s (s'\<lparr>ks_syncTimers := t\<rparr>) = later s s'"
  "later s (s'\<lparr>ks_failed := n\<rparr>) = later s s'" "later s (s'\<lparr>ks_rand := m\<rparr>) = later s s'"
  "later s (s'\<lparr>ks_firstUse := b\<rparr>) = later s s'" "later s (s'\<lparr>ks_settings := st\<rparr>) = later s s'"
  "later s (put_wallet i b' s') = later s s'" "later s (initiateSync i s') = later s s'"
  by (simp_all add: later_def put_wallet_def initiateSync_def)

lemma later_emit [intro]: "later s s' \<Longrightarrow> later s (emit e s')"
  by (auto simp: later_def emit_def)

lemma later_if: "later s x \<Longrightarrow> later s y \<Longrightarrow> later s (if c then x else y)"
  by simp

lemma later_createFolder: "later s s' \<Longrightarrow> later s (snd (KSecretD_createFolder h i f s'))"
  by (auto simp: KSecretD_createFolder_def KSecretD_getWallet_def count_failure_def Let_def split: prod.split option.split)

lemma later_register: "later s (register_wallet h new w i b s)"
proof -
  have a: "later s (let s = (if new then emit (WalletCreated w) s' else s') in
      if length (ks_wallets s) = 1 \<and> ks_launchManager s then emit StartManager s else s)" if "later s s'" for s'
    using that by (auto simp: Let_def)
  have c: "later s (case x of Some b \<Rightarrow> put_wallet i (snd (Backend_ref b)) s' | None \<Rightarrow> s')" if "later s s'" for s' x
    using that by (auto split: option.split)
  show ?thesis
    unfolding register_wallet_def
    by (subst Let_def, subst Let_def, subst Let_def, subst Let_def, subst Let_def)
      (intro a later_if c later_createFolder later_updates [THEN iffD2] later_refl)
qed

lemma later_doTransactionOpen:
  assumes "KSecretD_doTransactionOpen h u w s = Ret (rc, s')"
  shows "later s s'"
proof -
  have f: "later s (first_use h w s)" by (auto simp: first_use_def Let_def)
  have "later s1 s'" if "finish_open h new w res s1 = Ret (rc, s')" for new res s1
    using that
  proof (cases rule: finish_open_cases)
    case (2 b n)
    then show ?thesis using later_trans [OF _ later_register, of s1] by simp
  qed simp
  then have "later (first_use h w s) s'"
    using assms unfolding KSecretD_doTransactionOpen_def KSecretD_internalOpen_def Let_def run_bind_Ret_iff
    by (fastforce simp: later_def run_bind_Ret_iff put_wallet_def split: option.splits prod.splits if_splits)
  with f show ?thesis by (rule later_trans)
qed

lemma later_internalClose: "KSecretD_internalClose h w i save s = Ret (rc, s') \<Longrightarrow> later s s'"
  by (cases "ks_closeIdle s") (auto simp: KSecretD_internalClose_def run_bind_Ret_iff)

lemma later_changeOn:
  assumes "KSecretD_changeOn h u i w r s = Ret s'"
  shows "later s s'"
proof -
  from assms obtain w' r' s1 where c: "renew_password h u w r s = Ret (w', r', s1)"
    and e: "(if r' then run_bind (KSecretD_internalClose h w' i True (put_wallet i w' s1)) (\<lambda>(_, s). Ret s)
      else Ret (put_wallet i w' s1)) = Ret s'"
    unfolding KSecretD_changeOn_def run_bind_Ret_iff Let_def by auto
  have "later s s1"
    using c by (auto simp: renew_password_def run_bind_Ret_iff Let_def split: if_splits option.splits prod.splits)
  moreover have "later (put_wallet i w' s1) s'"
    using e later_internalClose by (auto simp: run_bind_Ret_iff split: if_splits)
  ultimately show ?thesis using later_trans [of s "put_wallet i w' s1"] by simp
qed

lemma later_doTransactionChangePassword:
  assumes "KSecretD_doTransactionChangePassword h u w s = Ret s'"
  shows "later s s'"
proof (cases "findWallet w s")
  case (Some p)
  with assms later_changeOn show ?thesis
    by (cases p) (auto simp: KSecretD_doTransactionChangePassword_def)
next
  case None
  then obtain rc s1 where o: "KSecretD_doTransactionOpen h u w s = Ret (rc, s1)"
    using assms by (auto simp: KSecretD_doTransactionChangePassword_def run_bind_Ret_iff)
  have "later s1 s'"
    using None o assms later_changeOn
    by (auto simp: KSecretD_doTransactionChangePassword_def split: if_splits option.splits)
  with later_doTransactionOpen [OF o] show ?thesis by (rule later_trans)
qed

lemma emit_each:
  "ks_events (fold (\<lambda>x. if P x then emit (E x) else id) xs s) = ks_events s @ map E (filter P xs)"
  "ks_transactions (fold (\<lambda>x. if P x then emit (E x) else id) xs s) = ks_transactions s"
  by (induction xs arbitrary: s) (simp_all add: emit_def)

lemma fail_others_log:
  "ks_events (fail_others t s) = ks_events s @ map (\<lambda>x. PromiseResult (tr_promise x) (-1))
     (filter (\<lambda>x. tr_type x = Open \<and> tr_wallet x = tr_wallet t \<and> tr_wId x = tr_wId t) (ks_transactions s))"
  "ks_transactions (fail_others t s) = ks_transactions s"
  unfolding fail_others_def by (rule emit_each)+

lemma run_transactions_log:
  "run_transactions h us ts s = Ret s' \<Longrightarrow> (ts \<noteq> [] \<longrightarrow> ks_transactions s' = []) \<and>
     (\<exists>es. ks_events s' = ks_events s @ es \<and> (\<forall>t \<in> set ts. \<exists>r. PromiseResult (tr_promise t) r \<in> set es))"
proof (induction ts arbitrary: s)
  case (Cons t ts)
  have "\<exists>s1 r. later (s\<lparr>ks_transactions := ts\<rparr>) s1 \<and> run_transactions h us ts (emit (PromiseResult (tr_promise t) r) s1) = Ret s'"
  proof (cases "tr_type t")
    case Open
    then obtain res s1 where o: "KSecretD_doTransactionOpen h (us (tr_promise t)) (tr_wallet t) (s\<lparr>ks_transactions := ts\<rparr>) = Ret (res, s1)"
      and r: "run_transactions h us ts (emit (PromiseResult (tr_promise t) res) (if res < 0 then fail_others t s1 else s1)) = Ret s'"
      using Cons.prems by (auto simp: run_bind_Ret_iff Let_def)
    have "later s1 (if res < 0 then fail_others t s1 else s1)"
      by (simp add: later_def fail_others_log)
    with later_doTransactionOpen [OF o] r show ?thesis by (blast intro: later_trans)
  next
    case ChangePassword
    then show ?thesis
      using Cons.prems later_doTransactionChangePassword by (fastforce simp: run_bind_Ret_iff Let_def)
  qed
  then obtain s1 r es1 where l: "ks_transactions s1 = ts" "ks_events s1 = ks_events s @ es1"
    and run: "run_transactions h us ts (emit (PromiseResult (tr_promise t) r) s1) = Ret s'"
    by (auto simp: later_def)
  from Cons.IH [OF run] obtain es where es: "ks_events s' = ks_events s @ es1 @ [PromiseResult (tr_promise t) r] @ es"
    "\<forall>t \<in> set ts. \<exists>r. PromiseResult (tr_promise t) r \<in> set es" "ts \<noteq> [] \<longrightarrow> ks_transactions s' = []"
    using l(2) by (auto simp: emit_def)
  have "ts = [] \<longrightarrow> ks_transactions s' = []" using run l(1) by (auto simp: emit_def)
  with es show ?case by (intro conjI impI exI [of _ "es1 @ [PromiseResult (tr_promise t) r] @ es"]) auto
qed simp

text \<open>C16. Working on the queue leaves it empty and gives every request that was in it a result, in one go: no
  request is lost, whatever the ones before it did and however they ended.\<close>

theorem queue_served:
  assumes "KSecretD_processTransactions h us s = Ret s'" and "\<not> ks_processing s"
  shows "ks_transactions s' = [] \<and> \<not> ks_processing s' \<and>
    (\<forall>t \<in> set (ks_transactions s). \<exists>r. PromiseResult (tr_promise t) r \<in> set (ks_events s'))"
proof -
  obtain s1 where r: "run_transactions h us (ks_transactions s) (s\<lparr>ks_processing := True\<rparr>) = Ret s1"
    and s': "s' = s1\<lparr>ks_processing := False\<rparr>"
    using assms by (auto simp: KSecretD_processTransactions_def run_bind_Ret_iff)
  have n: "ks_transactions s = [] \<longrightarrow> ks_transactions s1 = []" using r by auto
  from run_transactions_log [OF r] obtain es where es: "ks_events s1 = ks_events s @ es"
    "\<forall>t \<in> set (ks_transactions s). \<exists>r. PromiseResult (tr_promise t) r \<in> set es"
    "ks_transactions s \<noteq> [] \<longrightarrow> ks_transactions s1 = []"
    by auto
  from es(1) have "set es \<subseteq> set (ks_events s')" by (simp add: s')
  with es(2) have "\<forall>t \<in> set (ks_transactions s). \<exists>r. PromiseResult (tr_promise t) r \<in> set (ks_events s')" by blast
  moreover have "ks_transactions s' = []" using es(3) n by (auto simp: s')
  ultimately show ?thesis by (simp add: s')
qed

definition cancelling :: user where
  "cancelling = \<lparr>u_newWallet = None, u_passwords = [], u_newPasswords = [], u_changePassword = None\<rparr>"

definition two_requests :: ksecretd where
  "two_requests = snd (KSecretD_open (qs ''w'') 5 (snd (KSecretD_open (qs ''w'') 5 fresh_daemon)))"

lemma two_requests_run:
  "KSecretD_processTransactions example_host (\<lambda>_. cancelling) two_requests =
     Ret (fresh_daemon\<lparr>ks_promises := 2, ks_events := [ProcessTransactions, ProcessTransactions, PromiseResult 1 (-1),
       PromiseResult 0 (-1), PromiseResult 1 (-1)]\<rparr>)"
  by (simp add: two_requests_def KSecretD_open_def enqueue_def KSecretD_processTransactions_def fresh_daemon_def
      KSecretD_isEnabled_def example_settings_def emit_def KSecretD_doTransactionOpen_def KSecretD_internalOpen_def
      first_use_def findWallet_def Backend_exists_def wallet_on_disk_def open_new_def cancelling_def finish_open_def
      fail_others_def Let_def)

theorem queue_served_witness:
  "\<exists>r. PromiseResult 1 r \<in> set (ks_events
     (fresh_daemon\<lparr>ks_promises := 2, ks_events := [ProcessTransactions, ProcessTransactions, PromiseResult 1 (-1),
       PromiseResult 0 (-1), PromiseResult 1 (-1)]\<rparr>))"
proof -
  have "\<not> ks_processing two_requests"
    "\<exists>t \<in> set (ks_transactions two_requests). tr_promise t = 1"
    by (simp_all add: two_requests_def KSecretD_open_def enqueue_def KSecretD_isEnabled_def fresh_daemon_def
        example_settings_def emit_def Let_def)
  with queue_served [OF two_requests_run] show ?thesis by metis
qed

text \<open>When opening fails, the other requests of the client for the same wallet are answered -1 but stay in
  the queue: each is worked on again, with dialogs of its own, and gets a second result.\<close>

theorem duplicates_asked_again:
  assumes "tr_type t = Open" and "x \<in> set ts" and "tr_type x = Open" and "tr_wallet x = tr_wallet t" and "tr_wId x = tr_wId t"
    and "KSecretD_doTransactionOpen h (us (tr_promise t)) (tr_wallet t) (s\<lparr>ks_transactions := ts\<rparr>) = Ret (res, s1)"
    and "res < 0" and "run_transactions h us (t # ts) s = Ret s'" and "tr_promise x \<noteq> tr_promise t"
  shows "\<exists>es1 es2. ks_events s' = ks_events s @ es1 @ es2 \<and> PromiseResult (tr_promise x) (-1) \<in> set es1 \<and>
    (\<exists>r. PromiseResult (tr_promise x) r \<in> set es2) \<and> PromiseResult (tr_promise t) res \<in> set es1"
proof -
  have r: "run_transactions h us ts (emit (PromiseResult (tr_promise t) res) (fail_others t s1)) = Ret s'"
    using assms(1,6-8) by (simp add: Let_def)
  obtain es0 where l: "ks_transactions s1 = ts" "ks_events s1 = ks_events s @ es0"
    using later_doTransactionOpen [OF assms(6)] by (auto simp: later_def)
  let ?es1 = "es0 @ map (\<lambda>x. PromiseResult (tr_promise x) (-1))
    (filter (\<lambda>x. tr_type x = Open \<and> tr_wallet x = tr_wallet t \<and> tr_wId x = tr_wId t) ts) @ [PromiseResult (tr_promise t) res]"
  from run_transactions_log [OF r] obtain es2 where "ks_events s' = ks_events s @ ?es1 @ es2"
    "\<forall>t \<in> set ts. \<exists>r. PromiseResult (tr_promise t) r \<in> set es2"
    using l by (auto simp: emit_def fail_others_log)
  then show ?thesis using assms(2-5) by (intro exI [of _ ?es1] exI [of _ es2]) auto
qed

theorem duplicates_asked_again_witness:
  "\<exists>es1 es2. ks_events (fresh_daemon\<lparr>ks_promises := 2, ks_processing := True, ks_events := [ProcessTransactions,
       ProcessTransactions, PromiseResult 1 (-1), PromiseResult 0 (-1), PromiseResult 1 (-1)]\<rparr>) =
     ks_events two_requests @ es1 @ es2 \<and> PromiseResult 1 (-1) \<in> set es1 \<and> (\<exists>r. PromiseResult 1 r \<in> set es2)"
proof -
  let ?s = "two_requests\<lparr>ks_processing := True\<rparr>"
  let ?t = "\<lparr>tr_type = Open, tr_wallet = qs ''w'', tr_wId = 5, tr_modal = True, tr_promise = 0\<rparr>"
  let ?x = "\<lparr>tr_type = Open, tr_wallet = qs ''w'', tr_wId = 5, tr_modal = True, tr_promise = 1\<rparr>"
  note defs = two_requests_def KSecretD_open_def enqueue_def fresh_daemon_def KSecretD_isEnabled_def example_settings_def
    emit_def KSecretD_doTransactionOpen_def KSecretD_internalOpen_def first_use_def findWallet_def Backend_exists_def
    wallet_on_disk_def open_new_def cancelling_def finish_open_def fail_others_def Let_def
  have o: "KSecretD_doTransactionOpen example_host cancelling (qs ''w'') (?s\<lparr>ks_transactions := [?x]\<rparr>) =
      Ret (-1, ?s\<lparr>ks_transactions := [?x]\<rparr>)"
    by (simp add: defs)
  have r: "run_transactions example_host (\<lambda>_. cancelling) [?t, ?x] ?s = Ret (fresh_daemon\<lparr>ks_promises := 2,
      ks_processing := True, ks_events := [ProcessTransactions, ProcessTransactions, PromiseResult 1 (-1),
      PromiseResult 0 (-1), PromiseResult 1 (-1)]\<rparr>)"
    by (simp add: defs)
  show ?thesis
    using duplicates_asked_again [of ?t ?x "[?x]" example_host "\<lambda>_. cancelling" ?s "-1", OF _ _ _ _ _ _ _ r] o by simp blast
qed

end
