(* ===== verification/KSecretDMain.thy ===== *)
theory KSecretDMain
  imports KSecretDClaims
begin

text \<open>
  The start of the daemon (src/runtime/ksecretd/main.cpp).  The PAM module that logs the user in starts it with two file
  descriptors: from a pipe comes the hash of the password, from a socket the environment of the session.  With the hash
  the local wallet is opened without asking.  A watcher ends the daemon with its login session.

  What the operating system and the bus answer are the records \<open>os\<close> and \<open>logind\<close>.
\<close>

section \<open>The operating system\<close>

type_synonym environment = "bytes \<Rightarrow> bytes option"

record os =
  os_read :: "int \<Rightarrow> nat \<Rightarrow> bytes option"   \<comment> \<open>what there is for the read with this number from a descriptor; None: an error\<close>
  os_accept :: "int \<Rightarrow> bytes option"           \<comment> \<open>what a client sends until it disconnects; None: no connection\<close>
  os_unique :: "bool \<Rightarrow> bool"                 \<comment> \<open>the name on the bus is obtained, with the right to replace or without\<close>
  os_parsed :: "bytes option list \<Rightarrow> bool"    \<comment> \<open>the command line is accepted and asks for nothing else\<close>

text \<open>\<open>putenv\<close>: without an equals sign the variable is removed.\<close>

definition equals_sign :: byte where "equals_sign = 61"

definition putenv :: "bytes \<Rightarrow> environment \<Rightarrow> environment" where
  "putenv s env =
     (let name = takeWhile (\<lambda>c. c \<noteq> equals_sign) s
      in env(name := if equals_sign \<in> set s then Some (tl (dropWhile (\<lambda>c. c \<noteq> equals_sign) s)) else None))"

section \<open>The hash\<close>

definition KEYSIZE :: nat where "KEYSIZE = 56"   \<comment> \<open>\<open>PBKDF2_SHA512_KEYSIZE\<close>\<close>

text \<open>\<open>got\<close> is what the buffer has so far; a read stores as many bytes as are asked for at most.\<close>

function read_hash :: "(nat \<Rightarrow> bytes option) \<Rightarrow> nat \<Rightarrow> bytes \<Rightarrow> bytes option" where
  "read_hash rd attempts got =
     (if length got = KEYSIZE then Some got
      else case rd attempts of
        None \<Rightarrow> None
      | Some b \<Rightarrow> if attempts > 5 then None else read_hash rd (attempts + 1) (got @ take (KEYSIZE - length got) b))"
  by pat_completeness auto
termination
  by (relation "measure (\<lambda>(rd, attempts, got). 6 - attempts)") auto

declare read_hash.simps [simp del]

definition waitForHash :: "os \<Rightarrow> int \<Rightarrow> bytes option" where
  "waitForHash S pipefd = read_hash (os_read S pipefd) 0 []"

section \<open>The environment\<close>

definition BSIZE :: nat where "BSIZE = 1000"

definition newline :: byte where "newline = 10"

text \<open>\<open>fgets\<close> with room for \<open>n\<close> bytes and the null byte: it stops after a newline.\<close>

fun fgets :: "nat \<Rightarrow> bytes \<Rightarrow> bytes \<times> bytes" where
  "fgets 0 bs = ([], bs)"
| "fgets (Suc n) [] = ([], [])"
| "fgets (Suc n) (b # bs) = (if b = newline then ([b], bs) else let (p, r) = fgets n bs in (b # p, r))"

lemma fgets_length: "length (snd (fgets n bs)) \<le> length bs"
  by (induction n bs rule: fgets.induct) (auto split: prod.splits)

lemma fgets_shorter: "bs \<noteq> [] \<Longrightarrow> 0 < n \<Longrightarrow> length (snd (fgets n bs)) < length bs"
  using fgets_length [of "n - 1" "tl bs"] by (cases n; cases bs) (auto split: prod.splits simp: less_Suc_eq_le)

lemma fgets_rest: "(p, r) = fgets (BSIZE - Suc 0) bs \<Longrightarrow> bs \<noteq> [] \<Longrightarrow> length r < length bs"
  using fgets_shorter [of bs "BSIZE - Suc 0"] by (cases "fgets (BSIZE - Suc 0) bs") (simp add: BSIZE_def)

text \<open>For a line that begins with a null byte, the character before the array is looked at.\<close>

function read_environment :: "bytes \<Rightarrow> environment \<Rightarrow> environment run" where
  "read_environment bs env =
     (if bs = [] then Ret env
      else
        let (str, rest) = fgets (BSIZE - 1) bs; str = cstr str in
        if str = [] then UB
        else read_environment rest (putenv (if last str = newline then butlast str else str) env))"
  by pat_completeness auto
termination
  by (relation "measure (\<lambda>(bs, env). length bs)") (auto dest: fgets_rest)

declare read_environment.simps [simp del]

definition waitForEnvironment :: "os \<Rightarrow> int \<Rightarrow> environment \<Rightarrow> environment option run" where
  "waitForEnvironment S socketfd env =
     (case os_accept S socketfd of
        None \<Rightarrow> Ret None
      | Some bs \<Rightarrow> run_bind (read_environment bs env) (\<lambda>env. Ret (Some env)))"

section \<open>The arguments\<close>

text \<open>\<open>atoi\<close>: white space, a sign, digits; a number that is no \<open>int\<close> is undefined.\<close>

definition digit_value :: "byte \<Rightarrow> nat" where "digit_value c = unat (c - 48)"

definition atoi :: "bytes \<Rightarrow> int run" where
  "atoi s =
     (let s = dropWhile (\<lambda>c. c = 32 \<or> 9 \<le> c \<and> c \<le> 13) s;
          neg = (s \<noteq> [] \<and> hd s = 45);
          s = (if s \<noteq> [] \<and> (hd s = 43 \<or> hd s = 45) then tl s else s);
          n = foldl (\<lambda>n c. 10 * n + int (digit_value c)) 0 (takeWhile (\<lambda>c. 48 \<le> c \<and> c \<le> 57) s);
          n = (if neg then - n else n)
      in if - (2 ^ 31) \<le> n \<and> n < 2 ^ 31 then Ret n else UB)"

text \<open>What is before the option and what is after it.\<close>

fun pam_login :: "bytes list \<Rightarrow> (bytes list \<times> bytes list) option" where
  "pam_login [] = None"
| "pam_login (a # as) =
     (if a = ascii ''--pam-login'' then Some ([], as) else map_option (\<lambda>(b, r). (a # b, r)) (pam_login as))"

text \<open>
  The arguments that have been used become null pointers.  The test for their number is \<open>x + 1 > argc\<close> where \<open>x\<close> is the
  index of the first of them, so a single one passes it, and the null pointer at the end of \<open>argv\<close> is read as the second.
  Descriptors that were not given are 0.
\<close>

definition checkPamModule :: "os \<Rightarrow> bytes list \<Rightarrow> environment \<Rightarrow> (bytes option \<times> bytes option list \<times> environment) run" where
  "checkPamModule S argv env =
     (case pam_login (tl argv) of
        None \<Rightarrow> Ret (None, map Some argv, env)
      | Some (before, args) \<Rightarrow>
          let argv = map Some (take 1 argv @ before) @ [None] in
          case args of
            [] \<Rightarrow> Ret (None, argv, env)
          | [p] \<Rightarrow> UB
          | p # s # rest \<Rightarrow>
              run_bind (atoi p) (\<lambda>pipefd.
              run_bind (atoi s) (\<lambda>socketfd.
                let argv = argv @ [None, None] @ map Some rest in
                if pipefd = 0 \<or> socketfd = 0 then Ret (None, argv, env)
                else case waitForHash S pipefd of
                  None \<Rightarrow> Ret (None, argv, env)
                | Some hash \<Rightarrow>
                    run_bind (waitForEnvironment S socketfd env) (\<lambda>r.
                      Ret (case r of None \<Rightarrow> (None, argv, env) | Some env \<Rightarrow> (Some hash, argv, env))))))"

section \<open>The login session\<close>

record logind =
  lg_connected :: bool
  lg_byPid :: "qstring option"                \<comment> \<open>the path in the reply to GetSessionByPID; None: an error\<close>
  lg_byId :: "qstring \<Rightarrow> qstring option"
  lg_watch :: "qstring \<Rightarrow> bool"             \<comment> \<open>the signal could be connected\<close>
  lg_state :: "qstring \<Rightarrow> qstring option"   \<comment> \<open>the reply to Get, when it comes\<close>

record watcher =
  sw_sessionPath :: qstring
  sw_watching :: bool
  sw_check :: bool                            \<comment> \<open>the single shot of the timer is to come\<close>
  sw_quit :: bool

definition sessionPathFromReply :: "qstring option \<Rightarrow> qstring" where
  "sessionPathFromReply r = (case r of None \<Rightarrow> [] | Some p \<Rightarrow> p)"

definition SessionCloseWatcher_new :: "logind \<Rightarrow> qstring \<Rightarrow> watcher" where
  "SessionCloseWatcher_new L pamSessionId =
     (let idle = \<lparr>sw_sessionPath = [], sw_watching = False, sw_check = False, sw_quit = False\<rparr> in
      if \<not> lg_connected L then idle
      else
        let p = sessionPathFromReply (lg_byPid L);
            p = (if p = [] \<and> pamSessionId \<noteq> [] then sessionPathFromReply (lg_byId L pamSessionId) else p);
            w = idle\<lparr>sw_sessionPath := p\<rparr>
        in if p = [] \<or> \<not> lg_watch L p then w else w\<lparr>sw_watching := True, sw_check := True\<rparr>)"

definition checkSessionState :: "logind \<Rightarrow> watcher \<Rightarrow> watcher" where
  "checkSessionState L w =
     (let w = w\<lparr>sw_check := False\<rparr> in
      if lg_state L (sw_sessionPath w) = Some (qs ''closing'') then w\<lparr>sw_quit := True\<rparr> else w)"

definition slotPropertiesChanged :: "qstring \<Rightarrow> (qstring, qstring) qmap \<Rightarrow> watcher \<Rightarrow> watcher" where
  "slotPropertiesChanged iface changed w =
     (if iface = qs ''org.freedesktop.login1.Session'' \<and> qmap_find changed (qs ''State'') = Some (qs ''closing'')
      then w\<lparr>sw_quit := True\<rparr> else w)"

text \<open>What the event loop brings: the timer, with the answer that logind then gives, and signals of the session.\<close>

datatype watch_event = Shot logind | Changed qstring "(qstring, qstring) qmap"

fun watch :: "watch_event \<Rightarrow> watcher \<Rightarrow> watcher" where
  "watch (Shot L) w = (if sw_check w then checkSessionState L w else w)"
| "watch (Changed iface changed) w = (if sw_watching w then slotPropertiesChanged iface changed w else w)"

section \<open>The process\<close>

datatype start = NameTaken | CommandLineEnds | SwitchedOff | Running ksecretd watcher

definition environment_text :: "host \<Rightarrow> bytes \<Rightarrow> environment \<Rightarrow> qstring" where
  "environment_text h name env = (case env name of None \<Rightarrow> [] | Some v \<Rightarrow> fromUtf8 h v)"

definition settings_enabled :: "settings \<Rightarrow> bool" where
  "settings_enabled st \<longleftrightarrow> set_kSecretDEnabled st \<and> set_kWalletDEnabled st"

text \<open>A daemon that is switched off only answers for its name on the bus.\<close>

definition ksecretd_main :: "os \<Rightarrow> logind \<Rightarrow> host \<Rightarrow> settings \<Rightarrow> files \<Rightarrow> nat \<Rightarrow> bytes list \<Rightarrow> environment \<Rightarrow> (start \<times> environment) run" where
  "ksecretd_main S L h st fs n argv env =
     run_bind (if env (ascii ''PAM_KWALLET5_LOGIN'') \<noteq> None then checkPamModule S argv env
               else Ret (None, map Some argv, env)) (\<lambda>(hash, argv, env).
       if \<not> os_unique S (hash \<noteq> None) then Ret (NameTaken, env)
       else if \<not> os_parsed S argv then Ret (CommandLineEnds, env)
       else if \<not> settings_enabled st then Ret (SwitchedOff, env)
       else
         run_bind (KSecretD_new h st fs n) (\<lambda>s.
           let w = SessionCloseWatcher_new L (if hash \<noteq> None then environment_text h (ascii ''XDG_SESSION_ID'') env else []) in
           case hash of
             None \<Rightarrow> Ret (Running s w, env)
           | Some hash \<Rightarrow>
               run_bind (KSecretD_pamOpen h (localWallet (ks_settings s)) hash s) (\<lambda>(wallet, s). Ret (Running s w, env))))"

end
