(* ===== verification/KSecretDMainProps.thy ===== *)
theory KSecretDMainProps
  imports KSecretDMain
begin

text \<open>
  The start of the daemon: the hash and the environment that it receives, the wallet that is open after a login, and the
  end of the daemon with its session.
\<close>

section \<open>The hash\<close>

lemma read_hash_full: "length got = KEYSIZE \<Longrightarrow> read_hash rd k got = Some got"
  by (simp add: read_hash.simps)

lemma read_hash_late: "length got \<noteq> KEYSIZE \<Longrightarrow> 5 < k \<Longrightarrow> read_hash rd k got = None"
  by (simp add: read_hash.simps split: option.split)

lemma read_hash_length: "read_hash rd k got = Some hash \<Longrightarrow> length hash = KEYSIZE"
proof (induction rd k got rule: read_hash.induct)
  case (1 rd k got)
  show ?case
  proof (cases "length got = KEYSIZE")
    case False
    with 1 show ?thesis by (auto simp: read_hash.simps [of rd k got] split: option.splits if_splits)
  qed (use 1 in \<open>simp add: read_hash_full\<close>)
qed

lemma read_hash_chunks:
  "\<forall>i < length cs. rd (k + i) = Some (cs ! i) \<Longrightarrow> k + length cs \<le> 6 \<Longrightarrow> length (got @ concat cs) \<le> KEYSIZE \<Longrightarrow>
    read_hash rd k got = read_hash rd (k + length cs) (got @ concat cs)"
proof (induction cs arbitrary: k got)
  case (Cons c cs)
  show ?case
  proof (cases "length got = KEYSIZE")
    case True
    then have "got @ concat (c # cs) = got" using Cons.prems(3) by simp
    with True show ?thesis by (simp only: read_hash_full)
  next
    case False
    have "rd k = Some c" "\<forall>i < length cs. rd (Suc k + i) = Some (cs ! i)" using Cons.prems(1) by force+
    then have "read_hash rd k got = read_hash rd (Suc k) (got @ c)"
      using False Cons.prems(2,3) by (simp add: read_hash.simps [of rd k got])
    also have "\<dots> = read_hash rd (Suc k + length cs) ((got @ c) @ concat cs)"
      by (rule Cons.IH) (use Cons.prems \<open>\<forall>i < length cs. rd (Suc k + i) = Some (cs ! i)\<close> in simp_all)
    finally show ?thesis by simp
  qed
qed simp

text \<open>C22. The hash has 56 bytes whenever there is one.  It is what up to six reads of the pipe gave together.  When the six
  give less the rest is not waited for, and there is none; so the loop ends after seven reads even when the pipe has been
  closed.\<close>

theorem hash_received:
  assumes "\<forall>i < length cs. os_read S fd i = Some (cs ! i)"
  shows "(length cs \<le> 6 \<and> length (concat cs) = 56 \<longrightarrow> waitForHash S fd = Some (concat cs)) \<and>
    (length cs = 6 \<and> length (concat cs) < 56 \<longrightarrow> waitForHash S fd = None) \<and>
    (\<forall>hash. waitForHash S fd = Some hash \<longrightarrow> length hash = 56)"
proof (intro conjI impI allI)
  show "waitForHash S fd = Some (concat cs)" if "length cs \<le> 6 \<and> length (concat cs) = 56"
    using read_hash_chunks [of cs "os_read S fd" 0 "[]"] assms that by (simp add: waitForHash_def KEYSIZE_def read_hash_full)
  show "waitForHash S fd = None" if "length cs = 6 \<and> length (concat cs) < 56"
    using read_hash_chunks [of cs "os_read S fd" 0 "[]"] assms that by (simp add: waitForHash_def KEYSIZE_def read_hash_late)
  show "length hash = 56" if "waitForHash S fd = Some hash" for hash
    using read_hash_length that by (simp add: waitForHash_def KEYSIZE_def)
qed

section \<open>The environment\<close>

lemma fgets_line: "newline \<notin> set l \<Longrightarrow> length l < n \<Longrightarrow> fgets n (l @ newline # r) = (l @ [newline], r)"
proof (induction l arbitrary: n)
  case Nil
  then show ?case by (cases n) simp_all
next
  case (Cons b l)
  then show ?case by (cases n) auto
qed

lemma fgets_cut: "newline \<notin> set l \<Longrightarrow> n \<le> length l \<Longrightarrow> fgets n (l @ r) = (take n l, drop n l @ r)"
proof (induction l arbitrary: n)
  case (Cons b l)
  then show ?case by (cases n) auto
qed simp

lemma read_environment_line:
  assumes "newline \<notin> set l" and "0 \<notin> set l" and "length l \<le> 998"
  shows "read_environment (l @ newline # r) env = read_environment r (putenv l env)"
proof -
  have "fgets (BSIZE - 1) (l @ newline # r) = (l @ [newline], r)" using assms by (intro fgets_line) (simp_all add: BSIZE_def)
  moreover have "cstr (l @ [newline]) = l @ [newline]" using assms(2) by (intro cstr_nonzero) (simp add: newline_def)
  ultimately show ?thesis by (subst read_environment.simps) (simp add: Let_def)
qed

lemma read_environment_cut:
  assumes "newline \<notin> set l" and "0 \<notin> set l" and "999 \<le> length l"
  shows "read_environment (l @ r) env = read_environment (drop 999 l @ r) (putenv (take 999 l) env)"
proof -
  have "fgets (BSIZE - 1) (l @ r) = (take 999 l, drop 999 l @ r)" using assms by (simp add: BSIZE_def fgets_cut)
  moreover have "cstr (take 999 l) = take 999 l" using assms(2) by (intro cstr_nonzero) (auto dest: in_set_takeD)
  moreover have ne: "take 999 l \<noteq> []" "l \<noteq> []" using assms(3) by auto
  moreover have "last (take 999 l) \<noteq> newline" using last_in_set [OF ne(1)] assms(1) by (metis in_set_takeD)
  ultimately show ?thesis by (subst read_environment.simps) (simp add: Let_def)
qed

definition env_line :: "bytes \<times> bytes \<Rightarrow> bytes" where
  "env_line nv = fst nv @ equals_sign # snd nv"

definition env_setting :: "bytes \<times> bytes \<Rightarrow> bool" where
  "env_setting nv \<longleftrightarrow> equals_sign \<notin> set (fst nv) \<and> newline \<notin> set (env_line nv) \<and> 0 \<notin> set (env_line nv)"

lemma putenv_line: "env_setting nv \<Longrightarrow> putenv (env_line nv) env = env(fst nv \<mapsto> snd nv)"
  by (simp add: putenv_def env_line_def env_setting_def Let_def takeWhile_append dropWhile_append)

text \<open>C40. The environment that is sent as one line for each variable is set, provided that no line is longer than 998
  bytes.  A longer line is cut after 999 bytes, and the rest is set as a variable of its own.  A line that begins with a null
  byte makes the program read before the start of an array.\<close>

theorem environment_received:
  assumes "\<forall>nv \<in> set ps. env_setting nv" and "distinct (map fst ps)"
  shows "((\<forall>nv \<in> set ps. length (env_line nv) \<le> 998) \<longrightarrow>
      read_environment (concat (map (\<lambda>nv. env_line nv @ [newline]) ps)) env = Ret (env ++ map_of ps)) \<and>
    (\<forall>nv \<in> set ps. 999 \<le> length (env_line nv) \<longrightarrow>
      read_environment (env_line nv @ newline # r) env =
        read_environment (drop 999 (env_line nv) @ newline # r) (putenv (take 999 (env_line nv)) env)) \<and>
    read_environment (0 # r) env = UB"
proof (intro conjI impI ballI)
  assume "\<forall>nv \<in> set ps. length (env_line nv) \<le> 998"
  with assms show "read_environment (concat (map (\<lambda>nv. env_line nv @ [newline]) ps)) env = Ret (env ++ map_of ps)"
  proof (induction ps arbitrary: env)
    case Nil
    then show ?case by (simp add: read_environment.simps)
  next
    case (Cons nv ps)
    have "read_environment (concat (map (\<lambda>nv. env_line nv @ [newline]) (nv # ps))) env =
        read_environment (concat (map (\<lambda>nv. env_line nv @ [newline]) ps)) (env(fst nv \<mapsto> snd nv))"
      using Cons.prems read_environment_line [of "env_line nv"] by (simp add: putenv_line env_setting_def)
    also have "\<dots> = Ret (env(fst nv \<mapsto> snd nv) ++ map_of ps)" using Cons by simp
    also have "env(fst nv \<mapsto> snd nv) ++ map_of ps = env ++ map_of (nv # ps)"
      using Cons.prems(2) by (cases nv) (simp add: map_add_upd_left dom_map_of_conv_image_fst)
    finally show ?case .
  qed
next
  fix nv assume "nv \<in> set ps" "999 \<le> length (env_line nv)"
  then show "read_environment (env_line nv @ newline # r) env =
      read_environment (drop 999 (env_line nv) @ newline # r) (putenv (take 999 (env_line nv)) env)"
    using assms(1) by (intro read_environment_cut) (auto simp: env_setting_def)
next
  have "fgets (Suc n) (0 # r) = (0 # fst (fgets n r), snd (fgets n r))" for n
    by (simp add: newline_def split: prod.split)
  from this [of 998] have "fgets (BSIZE - 1) (0 # r) = (0 # fst (fgets 998 r), snd (fgets 998 r))" by (simp add: BSIZE_def)
  then show "read_environment (0 # r) env = UB"
    by (subst read_environment.simps) (simp add: Let_def cstr_def)
qed

theorem environment_received_witness:
  "read_environment (ascii ''A=b'' @ [newline] @ ascii ''C='' @ [newline]) Map.empty =
     Ret [ascii ''A'' \<mapsto> ascii ''b'', ascii ''C'' \<mapsto> []]"
proof -
  let ?ps = "[(ascii ''A'', ascii ''b''), (ascii ''C'', [])]"
  have "\<forall>nv \<in> set ?ps. env_setting nv" "distinct (map fst ?ps)"
    by (simp_all add: env_setting_def env_line_def ascii_def equals_sign_def newline_def)
  from environment_received [OF this, where env = Map.empty] show ?thesis
    by (simp add: env_line_def ascii_def equals_sign_def fun_upd_twist)
qed

section \<open>The wallet of the login\<close>

lemma new_enabled:
  assumes "settings_enabled st" and "KSecretD_new h st fs n = Ret s"
  shows "ks_wallets s = [] \<and> ks_rand s = n \<and> ks_settings s = st \<and> ks_files s = fs \<and> \<not> ks_processing s"
  using assms by (auto simp: KSecretD_new_def KSecretD_reconfigure_def reconfigure_timers_def KSecretD_isEnabled_def
      settings_enabled_def idle_interval_eq Let_def split: if_splits)

lemma new_defined:
  "settings_enabled st \<Longrightarrow> 0 \<le> set_idleTimeout st \<Longrightarrow> set_idleTimeout st \<le> 35791 \<Longrightarrow> \<exists>s. KSecretD_new h st fs n = Ret s"
  by (simp add: KSecretD_new_def KSecretD_reconfigure_def reconfigure_timers_def KSecretD_isEnabled_def settings_enabled_def
      idle_interval_eq Let_def)

lemma checkPam_hash_length:
  assumes "checkPamModule S argv env = Ret (Some hash, argv', env')"
  shows "length hash = KEYSIZE"
proof -
  have "waitForHash S fd = Some hash \<Longrightarrow> length hash = KEYSIZE" for fd
    by (simp add: waitForHash_def read_hash_length)
  then show ?thesis using assms
    by (auto simp: checkPamModule_def run_bind_Ret_iff Let_def split: option.splits prod.splits list.splits if_splits)
qed

text \<open>C21. A wallet that an earlier daemon has saved and closed is open after the login, when it is the local wallet and the PAM
  module sends the hash that it was saved with: the daemon that \<open>main\<close> starts gives every entry as it was read before, under
  the handle that it draws, and nobody was asked for a password.  The idle time is at most 35791 minutes; with a longer one the
  start is undefined.  When the cipher refuses the key, the close changed no file.\<close>

theorem login_opens_wallet:
  assumes "savable h w" and "b_path w = wallet_path h (localWallet st)" and "ks_files s (b_path w) \<noteq> None"
    and "qmap_find (ks_wallets s) handle = Some w" and "handle \<noteq> 0"
    and "env (ascii ''PAM_KWALLET5_LOGIN'') \<noteq> None" and "checkPamModule S argv env = Ret (Some (save_key w), argv', env')"
    and "os_unique S True" and "os_parsed S argv'" and "settings_enabled st"
    and "0 \<le> set_idleTimeout st" and "set_idleTimeout st \<le> 35791"
    and "generateHandle h [] n = Some (i, n')"
  shows "\<exists>s1. KSecretD_close h handle s = Ret (0, s1) \<and>
    (if key_accepted (save_key w)
     then \<exists>s2 sw. ksecretd_main S L h st (ks_files s1) n argv env = Ret (Running s2 sw, env') \<and>
       (\<forall>f k. fst (KSecretD_readEntry i f k s2) = fst (KSecretD_readEntry handle f k s))
     else ks_files s1 = ks_files s)"
proof (cases "key_accepted (save_key w)")
  case False
  then show ?thesis using close_saves [OF assms(1,3,4)] by auto
next
  case True
  obtain s1 where s1: "KSecretD_close h handle s = Ret (0, s1)"
    "\<forall>c. may_open w c \<longrightarrow> (\<exists>c'. Backend_openInternal h c (ks_files s1) = Ret (0, c', ks_files s1) \<and> b_open c' \<and> b_entries c' = b_entries w)"
    using close_saves [OF assms(1,3,4)] True by auto
  obtain d where d: "KSecretD_new h st (ks_files s1) n = Ret d"
    using new_defined [OF assms(10-12)] by blast
  have d': "ks_wallets d = []" "ks_rand d = n" "ks_settings d = st" "ks_files d = ks_files s1" "\<not> ks_processing d"
    using new_enabled [OF assms(10) d] by simp_all
  have "\<exists>s2. KSecretD_pamOpen h (localWallet st) (save_key w) d = Ret (i, s2) \<and>
      (\<forall>f k. fst (KSecretD_readEntry i f k s2) = fst (KSecretD_readEntry handle f k s))"
  proof (rule pamOpen_reads [OF _ assms(2) ks_inv_new [OF assms(11) d] d'(5)])
    show "generateHandle h (ks_wallets d) (ks_rand d) = Some (i, n')" using assms(13) d'(1,2) by simp
    show "length (save_key w) \<in> {20, 40, 56}" using checkPam_hash_length [OF assms(7)] by (simp add: KEYSIZE_def)
  qed (use s1(2) d' assms(1,4,5) in \<open>simp_all add: findWallet_def savable_def\<close>)
  then obtain s2 where s2: "KSecretD_pamOpen h (localWallet st) (save_key w) d = Ret (i, s2)"
    "\<forall>f k. fst (KSecretD_readEntry i f k s2) = fst (KSecretD_readEntry handle f k s)" by blast
  have "ksecretd_main S L h st (ks_files s1) n argv env =
      Ret (Running s2 (SessionCloseWatcher_new L (environment_text h (ascii ''XDG_SESSION_ID'') env')), env')"
    using assms(6-10) d d'(3) s2(1) by (simp add: ksecretd_main_def Let_def)
  with s1(1) s2(2) True show ?thesis by auto
qed

definition login_wallet :: backend where
  "login_wallet = stored_wallet\<lparr>b_newPassHash := zeros 56\<rparr>"

definition login_daemon :: ksecretd where
  "login_daemon = fresh_daemon\<lparr>ks_wallets := [(7, login_wallet)], ks_files := [qs ''/w/w.kwl'' \<mapsto> []]\<rparr>"

definition login_os :: os where
  "login_os = \<lparr>os_read = (\<lambda>fd i. if fd = 3 then Some (zeros 28) else None), os_accept = (\<lambda>fd. if fd = 4 then Some [] else None),
     os_unique = (\<lambda>_. True), os_parsed = (\<lambda>_. True)\<rparr>"

definition login_args :: "bytes list" where
  "login_args = [ascii ''ksecretd'', ascii ''--pam-login'', ascii ''3'', ascii ''4'']"

definition login_environment :: environment where
  "login_environment = [ascii ''PAM_KWALLET5_LOGIN'' \<mapsto> ascii ''1'']"

definition login_settings :: settings where
  "login_settings = example_settings\<lparr>set_defaultWallet := qs ''w''\<rparr>"

definition no_logind :: logind where
  "no_logind = \<lparr>lg_connected = False, lg_byPid = None, lg_byId = (\<lambda>_. None), lg_watch = (\<lambda>_. False), lg_state = (\<lambda>_. None)\<rparr>"

theorem hash_received_witness: "waitForHash login_os 3 = Some (zeros 56) \<and> length (zeros 56) = 56"
  using hash_received [of "[zeros 28, zeros 28]" login_os 3]
  by (simp add: login_os_def nth_Cons' zeros_def flip: replicate_add)

lemma login_hash: "waitForHash login_os 3 = Some (zeros 56)"
  using read_hash_chunks [of "[zeros 28, zeros 28]" "os_read login_os 3" 0 "[]"]
  by (simp add: waitForHash_def login_os_def nth_Cons' zeros_def read_hash_full KEYSIZE_def flip: replicate_add)

lemma login_pam:
  "checkPamModule login_os login_args env = Ret (Some (zeros 56), [Some (ascii ''ksecretd''), None, None, None], env)"
proof -
  have "atoi (ascii ''3'') = Ret 3" "atoi (ascii ''4'') = Ret 4"
    by (simp_all add: atoi_def ascii_def digit_value_def Let_def)
  moreover have "pam_login (tl login_args) = Some ([], [ascii ''3'', ascii ''4''])" by (simp add: login_args_def)
  moreover have "waitForEnvironment login_os 4 env = Ret (Some env)"
    by (simp add: waitForEnvironment_def login_os_def read_environment.simps)
  ultimately show ?thesis by (simp add: checkPamModule_def login_hash login_args_def)
qed

lemma login_wallet_savable: "savable example_host login_wallet"
  using stored_wallet_ok stored_wallet_small stream_laws_example md5_laws_example
  by (simp add: savable_def login_wallet_def example_host_def)
    (simp add: stored_wallet_def storable_def wf_entries_def)

theorem login_opens_wallet_witness:
  "\<exists>s1. KSecretD_close example_host 7 login_daemon = Ret (0, s1) \<and>
    (if key_accepted (zeros 56)
     then \<exists>s2 sw. ksecretd_main login_os no_logind example_host login_settings (ks_files s1) 0 login_args login_environment =
         Ret (Running s2 sw, login_environment) \<and> fst (KSecretD_readEntry 1 (qs ''f'') (qs ''k'') s2) = [1, 2]
     else ks_files s1 = ks_files login_daemon)"
proof -
  have w: "b_path login_wallet = wallet_path example_host (localWallet login_settings)" "save_key login_wallet = zeros 56"
    "ks_files login_daemon (b_path login_wallet) \<noteq> None"
    "qmap_find (ks_wallets login_daemon) 7 = Some login_wallet" "(7 :: int) \<noteq> 0"
    by (simp_all add: login_wallet_def stored_wallet_def wallet_path_def encodeWalletName_def example_host_def qs_def
        save_key_def login_daemon_def qmap_find_def localWallet_def login_settings_def example_settings_def)
  have o: "login_environment (ascii ''PAM_KWALLET5_LOGIN'') \<noteq> None" "os_unique login_os True"
    "os_parsed login_os [Some (ascii ''ksecretd''), None, None, None]" "settings_enabled login_settings" "0 \<le> set_idleTimeout login_settings"
    "set_idleTimeout login_settings \<le> 35791"
    by (simp_all add: login_environment_def login_os_def settings_enabled_def login_settings_def example_settings_def)
  have g: "generateHandle example_host [] 0 = Some (1, 1)"
    by (simp add: generateHandle_step taken_def qmap_contains_def example_host_def)
  have r: "fst (KSecretD_readEntry 7 (qs ''f'') (qs ''k'') login_daemon) = [1, 2]"
    by (simp add: readEntry_found [OF w(4,5)] login_wallet_def stored_wallet_def lookup_entry_def content_def qmap_find_def)
  have p: "checkPamModule login_os login_args login_environment =
      Ret (Some (save_key login_wallet), [Some (ascii ''ksecretd''), None, None, None], login_environment)"
    by (simp add: login_pam w(2))
  obtain s1 where "KSecretD_close example_host 7 login_daemon = Ret (0, s1)" "if key_accepted (zeros 56)
     then \<exists>s2 sw. ksecretd_main login_os no_logind example_host login_settings (ks_files s1) 0 login_args login_environment =
         Ret (Running s2 sw, login_environment) \<and> (\<forall>f k. fst (KSecretD_readEntry 1 f k s2) = fst (KSecretD_readEntry 7 f k login_daemon))
     else ks_files s1 = ks_files login_daemon"
    using login_opens_wallet [OF login_wallet_savable w(1,3-5) o(1) p o(2-6) g, where L = no_logind, unfolded w(2)] by (elim exE conjE)
  then show ?thesis using r by (cases "key_accepted (zeros 56)") auto
qed

section \<open>The end of the session\<close>

fun says_closing :: "watch_event \<Rightarrow> bool" where
  "says_closing (Shot L) = False"
| "says_closing (Changed iface changed) =
     (iface = qs ''org.freedesktop.login1.Session'' \<and> qmap_find changed (qs ''State'') = Some (qs ''closing''))"

fun is_shot :: "watch_event \<Rightarrow> bool" where
  "is_shot (Shot L) = True"
| "is_shot (Changed iface changed) = False"

fun answers_closing :: "qstring \<Rightarrow> watch_event \<Rightarrow> bool" where
  "answers_closing path (Shot L) = (lg_state L path = Some (qs ''closing''))"
| "answers_closing path (Changed iface changed) = False"

lemma watch_simps:
  "sw_watching (watch e w) = sw_watching w" "sw_sessionPath (watch e w) = sw_sessionPath w"
  "sw_check (watch e w) \<longleftrightarrow> sw_check w \<and> \<not> is_shot e"
  "sw_quit (watch e w) \<longleftrightarrow> sw_quit w \<or> sw_watching w \<and> says_closing e \<or> sw_check w \<and> answers_closing (sw_sessionPath w) e"
proof -
  show "sw_watching (watch e w) = sw_watching w"
    by (cases e) (simp_all add: checkSessionState_def slotPropertiesChanged_def Let_def)
  show "sw_sessionPath (watch e w) = sw_sessionPath w"
    by (cases e) (simp_all add: checkSessionState_def slotPropertiesChanged_def Let_def)
  show "sw_check (watch e w) \<longleftrightarrow> sw_check w \<and> \<not> is_shot e"
    by (cases e) (simp_all add: checkSessionState_def slotPropertiesChanged_def Let_def)
  show "sw_quit (watch e w) \<longleftrightarrow> sw_quit w \<or> sw_watching w \<and> says_closing e \<or> sw_check w \<and> answers_closing (sw_sessionPath w) e"
    by (cases e) (auto simp: checkSessionState_def slotPropertiesChanged_def Let_def)
qed

text \<open>The answer to the first check.\<close>

definition first_answer :: "qstring \<Rightarrow> watch_event list \<Rightarrow> bool" where
  "first_answer path es = (case List.find is_shot es of None \<Rightarrow> False | Some e \<Rightarrow> answers_closing path e)"

lemma watch_run:
  "sw_quit (fold watch es w) \<longleftrightarrow> sw_quit w \<or> sw_watching w \<and> list_ex says_closing es \<or> sw_check w \<and> first_answer (sw_sessionPath w) es"
proof (induction es arbitrary: w)
  case (Cons e es)
  have "says_closing e \<Longrightarrow> \<not> is_shot e" "answers_closing path e \<Longrightarrow> is_shot e" for path by (cases e, simp_all)+
  then show ?case by (auto simp: Cons.IH watch_simps first_answer_def)
qed (simp add: first_answer_def)

text \<open>A daemon that belongs to a login session quits as soon as the session is closing, whether logind says so in its answer
  to the first check or in a later signal, and for no other reason; one that is in no session never does.\<close>

theorem session_end_quits:
  "sw_quit (fold watch es (SessionCloseWatcher_new L pamSessionId)) \<longleftrightarrow>
     (let path = sw_sessionPath (SessionCloseWatcher_new L pamSessionId)
      in path \<noteq> [] \<and> lg_watch L path \<and> (list_ex says_closing es \<or> first_answer path es))"
  unfolding watch_run by (auto simp: SessionCloseWatcher_new_def Let_def split: if_splits)

end
