(* ===== verification/KSecretDVault.thy ===== *)
theory KSecretDVault
  imports KSecretDProps BackendFileProps
begin

text \<open>
  What the daemon promises its clients, as an abstract machine: a vault in which every handle in
  use names folders, every folder names keys, and every key has a type and a value.  The requests
  of a client have an outcome there that does not speak of the current folder of a wallet, of the
  digest table, of timers, files, counters or signals.  \<open>vault_of\<close> reads the vault off the state of
  the daemon; the theorem is that every sequence of requests gives the replies of the vault and
  leaves the state of the vault.

  The locale \<open>machine_refinement\<close> is the simulation argument for one request, carried to any run;
  it is interpreted on the daemon and the vault.
\<close>

section \<open>Requests and replies\<close>

datatype request = FolderList int | CreateFolder int qstring | EntryList int qstring
  | ReadEntry int qstring qstring | ReadMap int qstring qstring | ReadPassword int qstring qstring
  | WriteEntry int qstring qstring bytes entry_type | WritePassword int qstring qstring qstring
  | EntryType int qstring qstring | HasEntry int qstring qstring | RemoveEntry int qstring qstring
  | RenameEntry int qstring qstring qstring | IsOpen int | Close int | TimedOutClose int | TimedOutSync int

datatype reply = Names "qstring list" | Truth bool | Octets bytes | Words qstring | Code int | Kind entry_type | Done

abbreviation answer :: "('a \<Rightarrow> reply) \<Rightarrow> 'a \<times> ksecretd \<Rightarrow> (reply \<times> ksecretd) run" where
  "answer f p \<equiv> (case p of (x, s) \<Rightarrow> Ret (f x, s))"

fun serve :: "host \<Rightarrow> request \<Rightarrow> ksecretd \<Rightarrow> (reply \<times> ksecretd) run" where
  "serve h (FolderList i) s = answer Names (KSecretD_folderList i s)"
| "serve h (CreateFolder i f) s = answer Truth (KSecretD_createFolder h i f s)"
| "serve h (EntryList i f) s = answer Names (KSecretD_entryList i f s)"
| "serve h (ReadEntry i f k) s = answer Octets (KSecretD_readEntry i f k s)"
| "serve h (ReadMap i f k) s = answer Octets (KSecretD_readMap i f k s)"
| "serve h (ReadPassword i f k) s = answer Words (KSecretD_readPassword h i f k s)"
| "serve h (WriteEntry i f k v t) s = answer Code (KSecretD_writeEntry h i f k v t s)"
| "serve h (WritePassword i f k p) s = answer Code (KSecretD_writePassword h i f k p s)"
| "serve h (EntryType i f k) s = run_bind (KSecretD_entryType i f k s) (answer Kind)"
| "serve h (HasEntry i f k) s = answer Truth (KSecretD_hasEntry i f k s)"
| "serve h (RemoveEntry i f k) s = run_bind (KSecretD_removeEntry h i f k s) (answer Code)"
| "serve h (RenameEntry i f k k') s = answer Code (KSecretD_renameEntry h i f k k' s)"
| "serve h (IsOpen i) s = answer Truth (KSecretD_isOpen i s)"
| "serve h (Close i) s = run_bind (KSecretD_close h i s) (answer Code)"
| "serve h (TimedOutClose i) s = run_bind (KSecretD_timedOutClose h i s) (\<lambda>s. Ret (Done, s))"
| "serve h (TimedOutSync i) s = run_bind (KSecretD_timedOutSync h i s) (\<lambda>s. Ret (Done, s))"

section \<open>The vault\<close>

type_synonym item = "entry_type \<times> bytes"
type_synonym folder = "qstring \<Rightarrow> item option"
type_synonym vault = "int \<Rightarrow> (qstring \<Rightarrow> folder option) option"

text \<open>A folder that does not exist has no keys.\<close>

definition folder_at :: "vault \<Rightarrow> int \<Rightarrow> qstring \<Rightarrow> folder" where
  "folder_at v i f = (case v i of None \<Rightarrow> Map.empty | Some w \<Rightarrow> (case w f of None \<Rightarrow> Map.empty | Some m \<Rightarrow> m))"

definition put_folder :: "int \<Rightarrow> qstring \<Rightarrow> folder \<Rightarrow> vault \<Rightarrow> vault" where
  "put_folder i f m v = v(i := map_option (\<lambda>w. w(f \<mapsto> m)) (v i))"

definition in_order :: "qstring set \<Rightarrow> qstring list" where
  "in_order = sorted_list_of_set"

definition value_at :: "vault \<Rightarrow> int \<Rightarrow> qstring \<Rightarrow> qstring \<Rightarrow> (entry_type \<Rightarrow> bool) \<Rightarrow> bytes option" where
  "value_at v i f k p =
     (case folder_at v i f k of None \<Rightarrow> None | Some (t, x) \<Rightarrow> if p t then Some x else None)"

definition write_item :: "int \<Rightarrow> qstring \<Rightarrow> qstring \<Rightarrow> item \<Rightarrow> vault \<Rightarrow> reply \<times> vault" where
  "write_item i f k x v =
     (if v i = None then (Code (-1), v) else (Code 0, put_folder i f ((folder_at v i f)(k \<mapsto> x)) v))"

text \<open>
  Renaming takes the item along when the old key has one and the new one has not; the folder exists
  afterwards in any case.
\<close>

definition move_item :: "qstring \<Rightarrow> qstring \<Rightarrow> folder \<Rightarrow> int \<times> folder" where
  "move_item k k' m =
     (case m k of None \<Rightarrow> (-1, m) | Some x \<Rightarrow> if m k' = None then (0, m(k := None, k' \<mapsto> x)) else (-1, m))"

fun vault_step :: "host \<Rightarrow> request \<Rightarrow> vault \<Rightarrow> reply \<times> vault" where
  "vault_step h (FolderList i) v = (Names (case v i of None \<Rightarrow> [] | Some w \<Rightarrow> in_order (dom w)), v)"
| "vault_step h (CreateFolder i f) v =
     (case v i of None \<Rightarrow> (Truth False, v)
      | Some w \<Rightarrow> if w f = None then (Truth True, put_folder i f Map.empty v) else (Truth False, v))"
| "vault_step h (EntryList i f) v = (Names (in_order (dom (folder_at v i f))), v)"
| "vault_step h (ReadEntry i f k) v = (Octets (case value_at v i f k (\<lambda>t. True) of None \<Rightarrow> [] | Some x \<Rightarrow> x), v)"
| "vault_step h (ReadMap i f k) v = (Octets (case value_at v i f k (\<lambda>t. t = Map) of None \<Rightarrow> [] | Some x \<Rightarrow> x), v)"
| "vault_step h (ReadPassword i f k) v =
     (Words (case value_at v i f k (\<lambda>t. t = Password) of None \<Rightarrow> [] | Some x \<Rightarrow> fst (get_str h x)), v)"
| "vault_step h (WriteEntry i f k x t) v = write_item i f k (t, x) v"
| "vault_step h (WritePassword i f k p) v = write_item i f k (Password, put_str h p) v"
| "vault_step h (EntryType i f k) v = (Kind (case folder_at v i f k of None \<Rightarrow> Unknown | Some (t, x) \<Rightarrow> t), v)"
| "vault_step h (HasEntry i f k) v = (Truth (folder_at v i f k \<noteq> None), v)"
| "vault_step h (RemoveEntry i f k) v =
     (case v i of None \<Rightarrow> (Code (-1), v)
      | Some w \<Rightarrow>
          (case w f of None \<Rightarrow> (Code 0, v)
           | Some m \<Rightarrow> (Code (if m k = None then -3 else 0), put_folder i f (m(k := None)) v)))"
| "vault_step h (RenameEntry i f k k') v =
     (if v i = None then (Code (-1), v)
      else let (rc, m) = move_item k k' (folder_at v i f) in (Code rc, put_folder i f m v))"
| "vault_step h (IsOpen i) v = (Truth (v i \<noteq> None), v)"
| "vault_step h (Close i) v = (Code (if v i = None then -1 else 0), v(i := None))"
| "vault_step h (TimedOutClose i) v = (Done, v(i := None))"
| "vault_step h (TimedOutSync i) v = (Done, v)"

section \<open>Reading the vault off the daemon\<close>

definition item_of :: "entry \<Rightarrow> item" where
  "item_of e = (e_type e, e_value e)"

definition items :: "backend \<Rightarrow> qstring \<Rightarrow> folder option" where
  "items b f = map_option (\<lambda>m k. map_option item_of (m k)) (content b f)"

definition vault_of :: "ksecretd \<Rightarrow> vault" where
  "vault_of s i = map_option items (qmap_find (ks_wallets s) i)"

text \<open>Every wallet in the hash is open and its maps are in order; handle 0 is not in use.\<close>

definition served :: "ksecretd \<Rightarrow> bool" where
  "served s \<longleftrightarrow> qmap_wf (ks_wallets s) \<and>
     (\<forall>i b. qmap_find (ks_wallets s) i = Some b \<longrightarrow> i \<noteq> 0 \<and> wf_entries b \<and> b_open b)"

lemma items_content: "content b = content b' \<Longrightarrow> items b = items b'"
  by (simp add: items_def fun_eq_iff)

lemma items_update: "content b' = (content b)(f \<mapsto> m) \<Longrightarrow> items b' = (items b)(f \<mapsto> (\<lambda>k. map_option item_of (m k)))"
  by (auto simp: items_def fun_eq_iff)

lemma vault_of_frame [simp]:
  "vault_of (initiateSync i s) = vault_of s" "served (initiateSync i s) = served s"
  "vault_of (emit e s) = vault_of s" "served (emit e s) = served s"
  by (simp_all add: vault_of_def served_def emit_def fun_eq_iff)

lemma vault_of_wallets: "ks_wallets s' = ks_wallets s \<Longrightarrow> vault_of s' = vault_of s \<and> served s' = served s"
  by (simp add: vault_of_def served_def fun_eq_iff)

lemma vault_put:
  assumes "served s" and "i \<noteq> 0" and "wf_entries b" and "b_open b"
  shows "served (put_wallet i b s)" and "vault_of (put_wallet i b s) = (vault_of s)(i \<mapsto> items b)"
  using assms by (auto simp: served_def vault_of_def put_wallet_def qmap_simps fun_eq_iff)

lemma getWallet_served:
  assumes "served s" and "KSecretD_getWallet i s = (r, s')"
  shows "r = qmap_find (ks_wallets s) i" and "ks_wallets s' = ks_wallets s" and "vault_of s' = vault_of s"
    and "served s'"
proof -
  show r: "r = qmap_find (ks_wallets s) i"
    using assms by (cases "qmap_find (ks_wallets s) i") (auto simp: KSecretD_getWallet_def served_def Let_def split: if_splits)
  show w: "ks_wallets s' = ks_wallets s"
    using assms(2) by (auto simp: KSecretD_getWallet_def count_failure_def emit_def Let_def split: if_splits option.splits)
  show "vault_of s' = vault_of s" "served s'"
    using vault_of_wallets [OF w] assms(1) by simp_all
qed

lemma sorted_keys:
  assumes "qmap_wf m"
  shows "qmap_keys m = in_order (dom (qmap_find m))"
proof -
  have "in_order (set (qmap_keys m)) = qmap_keys m"
    unfolding in_order_def using qm.keys_sorted [OF assms]
    by (simp add: strict_sorted_iff sorted_list_of_set.idem_if_sorted_distinct)
  then show ?thesis by (simp add: set_qmap_keys)
qed

text \<open>
  What a wallet object answers, and what it holds afterwards, in terms of its items.  The current
  folder is set first in every request that names one.
\<close>

definition items_at :: "backend \<Rightarrow> qstring \<Rightarrow> folder" where
  "items_at b f = (case items b f of None \<Rightarrow> Map.empty | Some m \<Rightarrow> m)"

lemma items_at_find: "items_at b f k = map_option item_of (lookup_entry b f k)"
  by (auto simp: items_at_def items_def lookup_entry_def split: option.split)

lemma folder_at_vault: "qmap_find (ks_wallets s) i = Some b \<Longrightarrow> folder_at (vault_of s) i f = items_at b f"
  by (simp add: folder_at_def vault_of_def items_at_def)

lemma vault_None: "qmap_find (ks_wallets s) i = None \<Longrightarrow> vault_of s i = None \<and> folder_at (vault_of s) i f = Map.empty"
  by (simp add: folder_at_def vault_of_def)

lemma in_folder [simp]:
  "content (Backend_setFolder f b) = content b" "b_folder (Backend_setFolder f b) = f"
  "wf_entries (Backend_setFolder f b) = wf_entries b" "b_open (Backend_setFolder f b) = b_open b"
  "items (Backend_setFolder f b) = items b" "b_name (Backend_setFolder f b) = b_name b"
  by (simp_all add: Backend_setFolder_def items_def fun_eq_iff)

lemma lists_items:
  assumes "wf_entries b"
  shows "Backend_folderList b = in_order (dom (items b))"
    and "Backend_entryList (Backend_setFolder f b) = in_order (dom (items_at b f))"
proof -
  have "dom (items b) = dom (qmap_find (b_entries b))" by (auto simp: items_def content_def)
  then show "Backend_folderList b = in_order (dom (items b))"
    using assms sorted_keys [of "b_entries b"] by (simp add: Backend_folderList_def wf_entries_def)
  have "dom (items_at b f) = dom (qmap_find (current_folder (Backend_setFolder f b)))"
    by (auto simp: items_at_find find_current lookup_entry_def split: option.splits)
  then show "Backend_entryList (Backend_setFolder f b) = in_order (dom (items_at b f))"
    using wf_current [of "Backend_setFolder f b"] assms sorted_keys by (simp add: Backend_entryList_def)
qed

lemma reads_items:
  assumes "b_open b"
  shows "Backend_readEntry (Backend_setFolder f b) k = lookup_entry b f k"
    and "Backend_hasEntry (Backend_setFolder f b) k \<longleftrightarrow> items_at b f k \<noteq> None"
    and "Backend_hasFolder b f \<longleftrightarrow> items b f \<noteq> None"
  using assms
  by (simp_all add: readEntry_lookup hasEntry_lookup hasFolder_content items_at_find lookup_entry_def items_def)

lemma write_items:
  assumes "wf_entries b" and "b_open b"
  shows "items (Backend_writeEntry h e (Backend_setFolder f b)) = (items b)(f \<mapsto> (items_at b f)(e_key e \<mapsto> item_of e))"
    and "wf_entries (Backend_writeEntry h e (Backend_setFolder f b))"
    and "b_open (Backend_writeEntry h e (Backend_setFolder f b))"
proof -
  let ?b = "Backend_setFolder f b"
  have b: "wf_entries ?b" "b_open ?b" using assms by simp_all
  from content_writeEntry(1) [OF b] have c: "content (Backend_writeEntry h e ?b) =
      (content b)(f \<mapsto> (case content b f of None \<Rightarrow> Map.empty | Some m \<Rightarrow> m)(e_key e \<mapsto> e))" by simp
  show "items (Backend_writeEntry h e ?b) = (items b)(f \<mapsto> (items_at b f)(e_key e \<mapsto> item_of e))"
    using c by (auto simp: items_def items_at_def fun_eq_iff split: option.splits)
  show "wf_entries (Backend_writeEntry h e ?b)" by (rule content_writeEntry(2) [OF b])
  show "b_open (Backend_writeEntry h e ?b)" using b by (simp add: Backend_writeEntry_def)
qed

lemma create_items:
  assumes "wf_entries b" and "Backend_createFolder h f b = (rc, b')"
  shows "items b' = (if items b f = None then (items b)(f \<mapsto> Map.empty) else items b)"
    and "rc \<longleftrightarrow> items b f = None" and "wf_entries b'" and "b_open b' = b_open b"
  using content_createFolder [OF assms(1), of h f] assms(2)
  by (auto simp: items_def fun_eq_iff Backend_createFolder_def split: if_splits)

lemma remove_items:
  assumes "wf_entries b" and "b_open b" and "items b f = Some m"
  obtains b' where "Backend_removeEntry h k (Backend_setFolder f b) = Ret (m k \<noteq> None, b')"
    and "items b' = (items b)(f \<mapsto> m(k := None))" and "wf_entries b'" and "b_open b'"
proof -
  let ?b = "Backend_setFolder f b"
  have b: "wf_entries ?b" "b_open ?b" "content ?b (b_folder ?b) \<noteq> None"
    using assms by (auto simp: items_def)
  obtain ok b' where r: "Backend_removeEntry h k ?b = Ret (ok, b')"
    using removeEntry_defined [of h k ?b] b(3)
    by (cases "Backend_removeEntry h k ?b") (auto simp: Backend_removeEntry_def split: if_splits option.splits)
  note c = content_removeEntry [OF b(1) r]
  have ok: "ok \<longleftrightarrow> m k \<noteq> None"
    using c(3) b(2) assms(3) by (auto simp: lookup_entry_def items_def)
  moreover have "items b' = (items b)(f \<mapsto> m(k := None))"
  proof (cases ok)
    case True
    with c(1) assms(3) show ?thesis by (auto simp: items_def fun_eq_iff)
  next
    case False
    then have "m k = None" using ok by (cases "m k") auto
    then have "m(k := None) = m" "items b' = items b" using False c(1) by (auto intro: items_content)
    with assms(3) show ?thesis by (simp add: fun_upd_idem)
  qed
  ultimately show thesis using that [of b'] r c(2,5) b(2) by simp
qed

lemma rename_items:
  assumes "wf_entries b" and "Backend_renameEntry h k k' (Backend_setFolder f b) = (rc, b')"
  shows "items b' = (items b)(f \<mapsto> snd (move_item k k' (items_at b f)))" and "rc = fst (move_item k k' (items_at b f))"
    and "wf_entries b'" and "b_open b' = b_open b"
proof -
  let ?b = "Backend_setFolder f b"
  have b: "wf_entries ?b" using assms(1) by simp
  note c = content_renameEntry [OF b, of h k k', unfolded assms(2) in_folder fst_conv snd_conv]
  show "items b' = (items b)(f \<mapsto> snd (move_item k k' (items_at b f)))"
    using c(1) by (auto simp: items_def items_at_def move_item_def fun_eq_iff split: option.splits)
  show "rc = fst (move_item k k' (items_at b f))"
    using c(3) by (auto simp: items_def items_at_def move_item_def split: option.splits)
  show "wf_entries b'" by (rule c(2))
  show "b_open b' = b_open b"
    using assms(2) by (auto simp: Backend_renameEntry_def Let_def split: if_splits option.splits)
qed

section \<open>One request\<close>

lemma served_wallet:
  assumes "served s" and "qmap_find (ks_wallets s) i = Some b"
  shows "i \<noteq> 0" and "wf_entries b" and "b_open b" and "vault_of s i = Some (items b)"
    and "folder_at (vault_of s) i f = items_at b f"
  using assms by (auto simp: served_def vault_of_def folder_at_vault)

text \<open>The wallet is put back under its handle.\<close>

lemma put_back:
  assumes "served s" and "KSecretD_getWallet i s = (Some b, s')" and "wf_entries b'" and "b_open b'"
  shows "served (put_wallet i b' s')" and "vault_of (put_wallet i b' s') = (vault_of s)(i \<mapsto> items b')"
proof -
  note g = getWallet_served [OF assms(1,2)]
  have "i \<noteq> 0" by (rule served_wallet(1) [OF assms(1) g(1) [symmetric]])
  from vault_put [OF g(4) this assms(3,4)] g(3)
  show "served (put_wallet i b' s')" "vault_of (put_wallet i b' s') = (vault_of s)(i \<mapsto> items b')" by simp_all
qed

lemma put_same:
  assumes "served s" and "KSecretD_getWallet i s = (Some b, s')"
  shows "served (put_wallet i (Backend_setFolder f b) s')" and "vault_of (put_wallet i (Backend_setFolder f b) s') = vault_of s"
proof -
  note g = getWallet_served [OF assms]
  note w = served_wallet [OF assms(1) g(1) [symmetric]]
  show "served (put_wallet i (Backend_setFolder f b) s')" "vault_of (put_wallet i (Backend_setFolder f b) s') = vault_of s"
    using put_back [OF assms, of "Backend_setFolder f b"] w by (simp_all add: fun_upd_idem)
qed

definition agrees :: "host \<Rightarrow> request \<Rightarrow> ksecretd \<Rightarrow> reply \<times> ksecretd \<Rightarrow> bool" where
  "agrees h r s p \<longleftrightarrow> served (snd p) \<and> vault_step h r (vault_of s) = (fst p, vault_of (snd p))"

abbreviation sure :: "host \<Rightarrow> request \<Rightarrow> ksecretd \<Rightarrow> bool" where
  "sure h r s \<equiv> (case serve h r s of Ret p \<Rightarrow> agrees h r s p | _ \<Rightarrow> False)"

lemma write_to_vault:
  assumes "served s" and "write_to h i f e s = (rc, s')"
  shows "served s'" and "write_item i f (e_key e) (item_of e) (vault_of s) = (Code rc, vault_of s')"
proof -
  obtain r s1 where g: "KSecretD_getWallet i s = (r, s1)" by fastforce
  note gs = getWallet_served [OF assms(1) g]
  have "served s' \<and> write_item i f (e_key e) (item_of e) (vault_of s) = (Code rc, vault_of s')"
  proof (cases r)
    case None
    with assms(2) g gs vault_None [of s i] show ?thesis by (auto simp: write_to_def write_item_def)
  next
    case (Some b)
    note w = served_wallet [OF assms(1) gs(1) [symmetric, unfolded Some]]
    note x = write_items [OF w(2,3), of h e f]
    from put_back [OF assms(1) g [unfolded Some] x(2,3)] assms(2) Some g w x(1)
    show ?thesis by (auto simp: write_to_def write_item_def put_folder_def)
  qed
  then show "served s'" "write_item i f (e_key e) (item_of e) (vault_of s) = (Code rc, vault_of s')" by simp_all
qed

lemma sure_writes:
  assumes "served s"
  shows "sure h (WriteEntry i f k v t) s" and "sure h (WritePassword i f k p) s"
proof -
  have p: "Entry_setType Password (Entry_setValueText h p (Entry_setKey k (Entry_new Unknown))) =
      daemon_entry k (put_str h p) Password"
    by (simp add: Entry_setType_def Entry_setValueText_def Entry_setKey_def Entry_new_def daemon_entry_def zeros_def)
  show "sure h (WriteEntry i f k v t) s"
    using write_to_vault [OF assms, of h i f "daemon_entry k v t"]
    by (auto simp: agrees_def KSecretD_writeEntry_to daemon_entry_def item_of_def split: prod.split)
  show "sure h (WritePassword i f k p) s"
    using write_to_vault [OF assms, of h i f "daemon_entry k (put_str h p) Password"]
    by (auto simp: agrees_def KSecretD_writePassword_def p daemon_entry_def item_of_def split: prod.split)
qed

lemma sure_reads:
  assumes "served s"
  shows "sure h (FolderList i) s" "sure h (EntryList i f) s" "sure h (ReadEntry i f k) s" "sure h (ReadMap i f k) s"
    "sure h (ReadPassword i f k) s" "sure h (HasEntry i f k) s" "sure h (EntryType i f k) s"
proof -
  obtain r s1 where g: "KSecretD_getWallet i s = (r, s1)" by fastforce
  note gs = getWallet_served [OF assms g]
  have "sure h (FolderList i) s \<and> sure h (EntryList i f) s \<and> sure h (ReadEntry i f k) s \<and> sure h (ReadMap i f k) s \<and>
    sure h (ReadPassword i f k) s \<and> sure h (HasEntry i f k) s \<and> sure h (EntryType i f k) s"
  proof (cases r)
    case None
    with vault_None [OF gs(1) [symmetric, unfolded None], of f] gs g show ?thesis
      by (simp add: agrees_def access_defs KSecretD_entryType_def value_at_def in_order_def)
  next
    case (Some b)
    note g' = g [unfolded Some]
    note w = served_wallet [OF assms gs(1) [symmetric, unfolded Some]]
    note p = put_same [OF assms g', of f]
    note l = lists_items [OF w(2)] reads_items [OF w(3)]
    have k: "folder_at (vault_of s) i f k = map_option item_of (lookup_entry b f k)" by (simp add: w(5) items_at_find)
    have "sure h (FolderList i) s" using w gs g' l by (simp add: agrees_def access_defs)
    moreover have "sure h (EntryList i f) s" using w p g' l by (simp add: agrees_def access_defs Let_def)
    moreover have "sure h (ReadEntry i f k) s" "sure h (ReadMap i f k) s" "sure h (ReadPassword i f k) s"
      using p g' l k
      by (simp_all add: agrees_def access_defs Let_def value_at_def item_of_def Entry_password_def split: option.split)
    moreover have "sure h (HasEntry i f k) s" "sure h (EntryType i f k) s"
      using w gs p g' l k items_at_find [of b f k]
      by (cases "items b f = None"; cases "lookup_entry b f k";
          simp add: agrees_def access_defs KSecretD_entryType_def Let_def item_of_def items_at_def)+
    ultimately show ?thesis by blast
  qed
  then show "sure h (FolderList i) s" "sure h (EntryList i f) s" "sure h (ReadEntry i f k) s" "sure h (ReadMap i f k) s"
    "sure h (ReadPassword i f k) s" "sure h (HasEntry i f k) s" "sure h (EntryType i f k) s" by simp_all
qed

lemma sure_updates:
  assumes "served s"
  shows "sure h (CreateFolder i f) s" and "sure h (RemoveEntry i f k) s" and "sure h (RenameEntry i f k k') s"
proof -
  obtain r s1 where g: "KSecretD_getWallet i s = (r, s1)" by fastforce
  note gs = getWallet_served [OF assms g]
  have "sure h (CreateFolder i f) s \<and> sure h (RemoveEntry i f k) s \<and> sure h (RenameEntry i f k k') s"
  proof (cases r)
    case None
    with vault_None [OF gs(1) [symmetric, unfolded None], of f] gs g show ?thesis
      by (simp add: agrees_def access_defs KSecretD_removeEntry_def)
  next
    case (Some b)
    note g' = g [unfolded Some]
    note w = served_wallet [OF assms gs(1) [symmetric, unfolded Some]]
    note p = put_back [OF assms g']
    obtain rc b1 where c: "Backend_createFolder h f b = (rc, b1)" by fastforce
    note ci = create_items [OF w(2) c]
    have "sure h (CreateFolder i f) s"
      using p [OF ci(3)] ci w g' c by (auto simp: agrees_def access_defs put_folder_def fun_upd_idem)
    moreover obtain rc' b2 where n: "Backend_renameEntry h k k' (Backend_setFolder f b) = (rc', b2)" by fastforce
    note ni = rename_items [OF w(2) n]
    have "sure h (RenameEntry i f k k') s"
      using p [OF ni(3)] ni w g' n by (auto simp: agrees_def access_defs put_folder_def split: prod.split)
    moreover have "sure h (RemoveEntry i f k) s"
    proof (cases "items b f")
      case None
      with g' gs w reads_items(3) [OF w(3), of f] show ?thesis by (simp add: agrees_def KSecretD_removeEntry_def)
    next
      case (Some m)
      obtain b' where d: "Backend_removeEntry h k (Backend_setFolder f b) = Ret (m k \<noteq> None, b')"
        "items b' = (items b)(f \<mapsto> m(k := None))" "wf_entries b'" "b_open b'"
        by (rule remove_items [OF w(2,3) Some])
      show ?thesis using p [OF d(3,4)] d w g' Some reads_items(3) [OF w(3), of f]
        by (simp add: agrees_def KSecretD_removeEntry_def put_folder_def)
    qed
    ultimately show ?thesis by blast
  qed
  then show "sure h (CreateFolder i f) s" "sure h (RemoveEntry i f k) s" "sure h (RenameEntry i f k k') s" by simp_all
qed

lemma sure_isOpen:
  assumes "served s"
  shows "sure h (IsOpen i) s"
proof -
  have "served (count_failure s) \<and> vault_of (count_failure s) = vault_of s" "served (s\<lparr>ks_failed := 0\<rparr>) = served s"
    "vault_of (s\<lparr>ks_failed := 0\<rparr>) = vault_of s"
    using assms vault_of_wallets [of "count_failure s" s] vault_of_wallets [of "s\<lparr>ks_failed := 0\<rparr>" s]
    by (simp_all add: count_failure_def emit_def Let_def)
  moreover have "qmap_find (ks_wallets s) 0 = None"
    using assms by (cases "qmap_find (ks_wallets s) 0") (auto simp: served_def)
  then have "vault_of s i = None \<longleftrightarrow> i = 0 \<or> qmap_find (ks_wallets s) i = None"
    by (auto simp: vault_of_def)
  ultimately show ?thesis
    using assms by (cases "i = 0"; cases "qmap_find (ks_wallets s) i") (auto simp: agrees_def KSecretD_isOpen_def)
qed

text \<open>
  Closing and saving.  These write the file, and the format handler of a wallet without a cipher
  is undefined: when they return, they agree with the vault.
\<close>

lemma internalClose_vault:
  assumes "served s" and "KSecretD_internalClose h w i save s = Ret (rc, s')"
  shows "served s'" and "vault_of s' = (vault_of s)(i := None)" and "rc = 0"
proof -
  have "rc = 0 \<and> ks_wallets s' = qmap_remove i (ks_wallets s)"
    using assms(2) by (cases "ks_closeIdle s") (auto simp: KSecretD_internalClose_def emit_def run_bind_Ret_iff)
  with assms(1) show "served s'" "vault_of s' = (vault_of s)(i := None)" "rc = 0"
    by (auto simp: served_def vault_of_def qmap_simps fun_eq_iff split: if_splits)
qed

lemma agrees_saves:
  assumes "served s"
  shows "serve h (Close i) s = Ret p \<Longrightarrow> agrees h (Close i) s p"
    and "serve h (TimedOutClose i) s = Ret p \<Longrightarrow> agrees h (TimedOutClose i) s p"
    and "serve h (TimedOutSync i) s = Ret p \<Longrightarrow> agrees h (TimedOutSync i) s p"
proof -
  have n: "qmap_find (ks_wallets s) i = None \<longleftrightarrow> vault_of s i = None" by (simp add: vault_of_def)
  show "agrees h (Close i) s p" if "serve h (Close i) s = Ret p"
    using that n internalClose_vault [OF assms] assms
    by (auto simp: agrees_def KSecretD_close_def run_bind_Ret_iff fun_upd_idem Let_def split: option.splits prod.splits)
  show "agrees h (TimedOutClose i) s p" if "serve h (TimedOutClose i) s = Ret p"
    using that n internalClose_vault [OF assms] assms
    by (auto simp: agrees_def KSecretD_timedOutClose_def run_bind_Ret_iff fun_upd_idem split: option.splits)
  let ?s = "s\<lparr>ks_syncTimers := KTimeout_removeTimer i (ks_syncTimers s)\<rparr>"
  show "agrees h (TimedOutSync i) s p" if r: "serve h (TimedOutSync i) s = Ret p"
  proof (cases "qmap_find (ks_wallets s) i")
    case None
    with r vault_of_wallets [of ?s s] assms show ?thesis by (auto simp: agrees_def KSecretD_timedOutSync_def Let_def)
  next
    case (Some b)
    obtain rc b' fs where y: "Backend_sync h b (ks_files s) = Ret (rc, b', fs)"
      and q: "p = (Done, put_wallet i b' (?s\<lparr>ks_files := fs\<rparr>))"
      using r Some by (auto simp: KSecretD_timedOutSync_def Let_def run_bind_Ret_iff)
    have e: "b_entries b' = b_entries b" "b_open b' = b_open b" using sync_frame [OF y] by auto
    then have "content b' = content b" by (simp add: content_def fun_eq_iff)
    note e = e this
    note w = served_wallet [OF assms Some]
    have wf: "wf_entries b'" "b_open b'" using w(2,3) e by (simp_all add: wf_entries_def)
    have it: "items b' = items b" by (rule items_content [OF e(3)])
    have "served (?s\<lparr>ks_files := fs\<rparr>)" "vault_of (?s\<lparr>ks_files := fs\<rparr>) = vault_of s"
      using vault_of_wallets [of "?s\<lparr>ks_files := fs\<rparr>" s] assms by simp_all
    with vault_put [OF _ w(1) wf(1,2), of "?s\<lparr>ks_files := fs\<rparr>"] w(4) it show ?thesis
      by (simp add: agrees_def q fun_upd_idem)
  qed
qed

section \<open>Any run of requests\<close>

locale machine_refinement =
  fixes inv :: "'s \<Rightarrow> bool" and abs :: "'s \<Rightarrow> 'a" and step :: "'r \<Rightarrow> 's \<Rightarrow> ('o \<times> 's) run" and spec :: "'r \<Rightarrow> 'a \<Rightarrow> 'o \<times> 'a"
  assumes simulates: "inv s \<Longrightarrow> step r s = Ret (x, s') \<Longrightarrow> inv s' \<and> spec r (abs s) = (x, abs s')"

fun run_requests :: "('r \<Rightarrow> 's \<Rightarrow> ('o \<times> 's) run) \<Rightarrow> 'r list \<Rightarrow> 's \<Rightarrow> ('o list \<times> 's) run" where
  "run_requests step [] s = Ret ([], s)"
| "run_requests step (r # rs) s =
     run_bind (step r s) (\<lambda>(x, s). run_bind (run_requests step rs s) (\<lambda>(xs, s). Ret (x # xs, s)))"

fun run_spec :: "('r \<Rightarrow> 'a \<Rightarrow> 'o \<times> 'a) \<Rightarrow> 'r list \<Rightarrow> 'a \<Rightarrow> 'o list \<times> 'a" where
  "run_spec spec [] a = ([], a)"
| "run_spec spec (r # rs) a = (let (x, a) = spec r a; (xs, a) = run_spec spec rs a in (x # xs, a))"

context machine_refinement begin

lemma run_simulates:
  assumes "inv s" and "run_requests step rs s = Ret (xs, s')"
  shows "inv s' \<and> run_spec spec rs (abs s) = (xs, abs s')"
  using assms
proof (induction rs arbitrary: s xs)
  case (Cons r rs)
  from Cons.prems(2) obtain x s1 ys where r: "step r s = Ret (x, s1)" "run_requests step rs s1 = Ret (ys, s')" "xs = x # ys"
    by (auto simp: run_bind_Ret_iff)
  with simulates [OF Cons.prems(1) r(1)] Cons.IH [of s1 ys] show ?case by simp
qed simp

text \<open>A run is undefined only where a request is.\<close>

lemma run_returns:
  assumes "inv s" and "\<And>r s. r \<in> set rs \<Longrightarrow> inv s \<Longrightarrow> \<exists>x s'. step r s = Ret (x, s')"
  shows "\<exists>xs s'. run_requests step rs s = Ret (xs, s')"
  using assms
proof (induction rs arbitrary: s)
  case (Cons r rs)
  obtain x s1 where r: "step r s = Ret (x, s1)" using Cons.prems by fastforce
  then have "inv s1" using simulates [OF Cons.prems(1)] by blast
  with Cons.IH [of s1] Cons.prems(2) r show ?case by fastforce
qed simp

end

fun writes_file :: "request \<Rightarrow> bool" where
  "writes_file (Close i) = True"
| "writes_file (TimedOutClose i) = True"
| "writes_file (TimedOutSync i) = True"
| "writes_file _ = False"

lemma sure_requests: "served s \<Longrightarrow> \<not> writes_file r \<Longrightarrow> sure h r s"
  by (induct r) (simp_all del: serve.simps add: sure_reads sure_writes sure_updates sure_isOpen)

lemma serve_agrees:
  assumes "served s" and "serve h r s = Ret p"
  shows "agrees h r s p"
proof (cases "writes_file r")
  case True
  with assms(2) show ?thesis by (induct r) (simp_all del: serve.simps add: agrees_saves [OF assms(1)])
next
  case False
  from sure_requests [OF assms(1) this, of h] assms(2) show ?thesis by simp
qed

interpretation vault: machine_refinement served vault_of "serve h" "vault_step h" for h
proof unfold_locales
  fix s s' :: ksecretd and x r
  assume "served s" and "serve h r s = Ret (x, s')"
  from serve_agrees [OF this] show "served s' \<and> vault_step h r (vault_of s) = (x, vault_of s')"
    by (simp add: agrees_def)
qed

lemma requests_return:
  assumes "served s" and "\<forall>r \<in> set rs. \<not> writes_file r"
  shows "\<exists>xs s'. run_requests (serve h) rs s = Ret (xs, s')"
proof (rule vault.run_returns [OF assms(1)])
  fix r s' assume "r \<in> set rs" and "served s'"
  with sure_requests [of s' r h] assms(2) show "\<exists>x s''. serve h r s' = Ret (x, s'')"
    by (cases "serve h r s'") auto
qed

text \<open>C3. The daemon refines the vault: for every sequence of requests, of any clients and on any
  handles, valid or not, mixed with timeouts that save or close a wallet, the replies of the daemon
  are those of the vault and the daemon is left with the vault the requests lead to.  A run without
  a request that writes a file always returns.\<close>

theorem daemon_refines_vault:
  assumes "served s"
  shows "case run_requests (serve h) rs s of
      Ret (xs, s') \<Rightarrow> served s' \<and> run_spec (vault_step h) rs (vault_of s) = (xs, vault_of s')
    | _ \<Rightarrow> list_ex writes_file rs"
proof (cases "run_requests (serve h) rs s")
  case (Ret p)
  with vault.run_simulates [OF assms, of h rs "fst p" "snd p"] show ?thesis by (cases p) simp
qed (use requests_return [OF assms, of rs h] in \<open>auto simp: list_ex_iff\<close>)

definition example_requests :: "request list" where
  "example_requests = [WriteEntry 7 (qs ''f'') (qs ''old'') [1] Stream, RenameEntry 7 (qs ''f'') (qs ''old'') (qs ''new''),
     EntryList 7 (qs ''f''), ReadEntry 7 (qs ''f'') (qs ''new''), RemoveEntry 8 (qs ''f'') (qs ''new''),
     RemoveEntry 7 (qs ''g'') (qs ''new''), EntryType 7 (qs ''f'') (qs ''old'')]"

theorem daemon_refines_vault_witness:
  "\<exists>s'. run_requests (serve example_host) example_requests one_wallet =
     Ret ([Code 0, Code 0, Names [qs ''new''], Octets [1], Code (-1), Code 0, Kind Unknown], s') \<and>
     vault_of s' = [7 \<mapsto> [qs ''f'' \<mapsto> [qs ''new'' \<mapsto> (Stream, [1])]]]"
proof -
  have "served one_wallet"
    by (auto simp: served_def one_wallet_def empty_wallet_def Backend_new_def qmap_wf_def qmap_find_def wf_entries_def
        split: if_splits)
  moreover have "vault_of one_wallet = [7 \<mapsto> Map.empty]"
    by (auto simp: vault_of_def one_wallet_def empty_wallet_def Backend_new_def qmap_find_def items_def content_def fun_eq_iff)
  moreover have "\<not> list_ex writes_file example_requests" by (simp add: example_requests_def)
  moreover have "run_spec (vault_step example_host) example_requests [7 \<mapsto> Map.empty] =
      ([Code 0, Code 0, Names [qs ''new''], Octets [1], Code (-1), Code 0, Kind Unknown],
       [7 \<mapsto> [qs ''f'' \<mapsto> [qs ''new'' \<mapsto> (Stream, [1])]]])"
    by (simp add: example_requests_def write_item_def folder_at_def put_folder_def move_item_def value_at_def
        in_order_def qs_def fun_upd_twist)
  ultimately show ?thesis
    using daemon_refines_vault [of one_wallet example_host example_requests]
    by (auto split: run.splits)
qed

text \<open>C11. Nothing but the vault decides over the replies: two daemons with the same handles, folders, keys, types and values
  give the same replies to every sequence of requests that writes no file, and are left with the same vault, whatever
  their current folders, digest tables, timers, counters, settings and files are.\<close>

theorem same_vault_same_replies:
  assumes "served s" and "served t" and "vault_of s = vault_of t" and "\<not> list_ex writes_file rs"
  shows "\<exists>xs s' t'. run_requests (serve h) rs s = Ret (xs, s') \<and> run_requests (serve h) rs t = Ret (xs, t') \<and>
    vault_of s' = vault_of t'"
proof -
  have w: "\<forall>r \<in> set rs. \<not> writes_file r" using assms(4) by (auto simp: list_ex_iff)
  obtain xs s' where s: "run_requests (serve h) rs s = Ret (xs, s')" using requests_return [OF assms(1) w, of h] by blast
  obtain ys t' where t: "run_requests (serve h) rs t = Ret (ys, t')" using requests_return [OF assms(2) w, of h] by blast
  have "run_spec (vault_step h) rs (vault_of s) = (xs, vault_of s')" "run_spec (vault_step h) rs (vault_of s) = (ys, vault_of t')"
    using vault.run_simulates [OF assms(1) s] vault.run_simulates [OF assms(2) t] assms(3) by simp_all
  with s t show ?thesis by simp
qed

definition other_daemon :: ksecretd where
  "other_daemon = one_wallet\<lparr>ks_wallets := [(7, empty_wallet\<lparr>b_folder := qs ''f'', b_hashes := [[1] \<mapsto> []], b_ref := 4\<rparr>)],
     ks_failed := 5, ks_closeIdle := True\<rparr>"

theorem same_vault_same_replies_witness:
  "\<exists>xs s' t'. run_requests (serve example_host) example_requests one_wallet = Ret (xs, s') \<and>
     run_requests (serve example_host) example_requests other_daemon = Ret (xs, t') \<and> vault_of s' = vault_of t'"
proof -
  note defs = served_def other_daemon_def one_wallet_def empty_wallet_def Backend_new_def qmap_wf_def qmap_find_def
    wf_entries_def vault_of_def items_def content_def
  have "served one_wallet" "served other_daemon" by (auto simp: defs split: if_splits)
  moreover have "vault_of one_wallet = vault_of other_daemon" by (auto simp: defs fun_eq_iff)
  moreover have "\<not> list_ex writes_file example_requests" by (simp add: example_requests_def)
  ultimately show ?thesis by (rule same_vault_same_replies)
qed

end
