(* ===== verification/KSecretDDialogs.thy ===== *)
theory KSecretDDialogs
  imports KSecretD
begin

text \<open>
  The windows of the daemon (src/runtime/ksecretd/ksecretd.cpp): which dialog is the active one, how it is brought to the
  front when another request arrives, and the warning about failed accesses, which runs an event loop of its own.

  A dialog is known by a number.  Its window keeps what the program set: the window it belongs to, and on X11 the states
  given to the window manager.  The pointer to the active dialog becomes null when the dialog is deleted.
\<close>

record dialog_window =
  dw_parent :: int                       \<comment> \<open>0: none\<close>
  dw_modal :: bool
  dw_shown :: bool
  dw_keepAbove :: bool
  dw_allDesktops :: bool

record dialogs =
  dg_x11 :: bool
  dg_windows :: "nat \<Rightarrow> dialog_window option"
  dg_active :: "nat option"
  dg_front :: "nat option"               \<comment> \<open>the window that was activated by force last\<close>
  dg_showingFailure :: bool
  dg_notices :: nat                      \<comment> \<open>warnings that are open\<close>

definition set_window :: "nat \<Rightarrow> (dialog_window \<Rightarrow> dialog_window) \<Rightarrow> dialogs \<Rightarrow> dialogs" where
  "set_window i f d =
     (case dg_windows d i of None \<Rightarrow> d | Some w \<Rightarrow> d\<lparr>dg_windows := (dg_windows d)(i \<mapsto> f w)\<rparr>)"

definition setupDialog :: "nat \<Rightarrow> int \<Rightarrow> bool \<Rightarrow> dialogs \<Rightarrow> dialogs" where
  "setupDialog i wId modal d =
     (let d = (if wId \<noteq> 0 then set_window i (\<lambda>w. w\<lparr>dw_parent := wId\<rparr>) d else d);
          d = (if dg_x11 d then set_window i (\<lambda>w. w\<lparr>dw_modal := modal\<rparr>) d else d)
      in d\<lparr>dg_active := Some i\<rparr>)"

definition checkActiveDialog :: "dialogs \<Rightarrow> dialogs" where
  "checkActiveDialog d =
     (case dg_active d of
        None \<Rightarrow> d
      | Some i \<Rightarrow>
          let d = set_window i (\<lambda>w. w\<lparr>dw_shown := True\<rparr>) d
          in if dg_x11 d
             then (set_window i (\<lambda>w. w\<lparr>dw_allDesktops := True\<rparr>) (set_window i (\<lambda>w. w\<lparr>dw_keepAbove := True\<rparr>) d))\<lparr>dg_front := Some i\<rparr>
             else d)"

definition activatePasswordDialog :: "dialogs \<Rightarrow> dialogs" where
  "activatePasswordDialog d = checkActiveDialog d"

text \<open>
  The warning about failed accesses is open between these two: its message box runs the event loop, in which the daemon
  may be told of failures again.
\<close>

definition notifyFailures :: "dialogs \<Rightarrow> dialogs" where
  "notifyFailures d =
     (if \<not> dg_showingFailure d then d\<lparr>dg_showingFailure := True, dg_notices := dg_notices d + 1\<rparr> else d)"

definition notice_dismissed :: "dialogs \<Rightarrow> dialogs" where
  "notice_dismissed d =
     (if dg_notices d = 0 then d else d\<lparr>dg_notices := dg_notices d - 1, dg_showingFailure := False\<rparr>)"

section \<open>Runs\<close>

text \<open>A dialog is made, set up and shown in one go, and deleted when it has been answered.\<close>

definition new_dialog_window :: dialog_window where
  "new_dialog_window = \<lparr>dw_parent = 0, dw_modal = False, dw_shown = False, dw_keepAbove = False, dw_allDesktops = False\<rparr>"

inductive dialogs_step :: "dialogs \<Rightarrow> dialogs \<Rightarrow> bool" where
  open_dialog: "dg_windows d i = None \<Longrightarrow>
     dialogs_step d (set_window i (\<lambda>w. w\<lparr>dw_shown := True\<rparr>)
       (setupDialog i wId modal (d\<lparr>dg_windows := (dg_windows d)(i \<mapsto> new_dialog_window)\<rparr>)))"
| delete_dialog: "dialogs_step d (d\<lparr>dg_windows := (dg_windows d)(i := None),
     dg_active := if dg_active d = Some i then None else dg_active d\<rparr>)"
| request: "dialogs_step d (checkActiveDialog d)"
| activate: "dialogs_step d (activatePasswordDialog d)"
| failures: "dialogs_step d (notifyFailures d)"
| dismissed: "dialogs_step d (notice_dismissed d)"

definition dialogs_ok :: "dialogs \<Rightarrow> bool" where
  "dialogs_ok d \<longleftrightarrow> (\<forall>i. dg_active d = Some i \<longrightarrow> (\<exists>w. dg_windows d i = Some w \<and> dw_shown w)) \<and>
     dg_notices d = (if dg_showingFailure d then 1 else 0)"

lemma dialogs_step_ok: "dialogs_step d d' \<Longrightarrow> dialogs_ok d \<Longrightarrow> dialogs_ok d'"
  by (induction rule: dialogs_step.induct)
    (auto simp: dialogs_ok_def setupDialog_def set_window_def checkActiveDialog_def activatePasswordDialog_def notifyFailures_def
      notice_dismissed_def new_dialog_window_def Let_def split: option.splits if_splits)

definition no_dialogs :: "bool \<Rightarrow> dialogs" where
  "no_dialogs x11 = \<lparr>dg_x11 = x11, dg_windows = Map.empty, dg_active = None, dg_front = None, dg_showingFailure = False,
     dg_notices = 0\<rparr>"

text \<open>
  In every run the pointer to the active dialog is null or points to a dialog that is open and shown, and there is one
  warning at most.  A request that arrives while a dialog is active finds it and, on X11, puts it in front.
\<close>

lemma dialogs_run_ok: "dialogs_step\<^sup>*\<^sup>* (no_dialogs x11) d \<Longrightarrow> dialogs_ok d"
proof (induction rule: rtranclp_induct)
  case base
  show ?case by (simp add: dialogs_ok_def no_dialogs_def)
qed (auto intro: dialogs_step_ok)

lemma active_dialog_in_front:
  assumes "dialogs_step\<^sup>*\<^sup>* (no_dialogs x11) d" and "dg_active d = Some i" and "dg_x11 d"
  shows "\<exists>w. dg_windows (checkActiveDialog d) i = Some w \<and> dw_shown w \<and> dw_keepAbove w \<and> dw_allDesktops w \<and>
    dg_front (checkActiveDialog d) = Some i"
  using dialogs_run_ok [OF assms(1)] assms(2,3)
  by (auto simp: dialogs_ok_def checkActiveDialog_def set_window_def Let_def)

end
