(* ===== verification/KNewWalletDialog.thy ===== *)
theory KNewWalletDialog
  imports KSecretDOpen
begin

text \<open>
  The dialog in which the user chooses the kind of a new wallet (src/runtime/ksecretd/knewwalletdialog.cpp): an introduction
  with the choice between Blowfish and GPG, and a page with the keys of GPG.  Its result is what the model of the daemon
  has as \<open>u_newWallet\<close>.

  The keys that GpgME lists are an argument; while a page is initialised they are the same for both listings.  Of the wizard of Qt the model uses what its documentation says: a page is
  initialised whenever it is reached with Next; on Back the fields of the page get back their original values; a
  dialog can be finished on a final page that is complete.
\<close>

record gpg_key =
  gk_id :: qstring
  gk_invalid :: bool
  gk_canEncrypt :: bool
  gk_ultimate :: bool                    \<comment> \<open>the trust in its owner\<close>

record gpg_setup =
  gs_engine :: bool                      \<comment> \<open>OpenPGP is supported\<close>
  gs_context :: bool
  gs_keys :: "gpg_key list"

datatype dialog_page = IntroPage | GpgPage

record new_wallet_dialog =
  nd_page :: dialog_page
  nd_radioBlowfish :: bool
  nd_introFinal :: bool
  nd_list :: "gpg_key list"
  nd_row :: "nat option"                 \<comment> \<open>the current row, if there is one\<close>
  nd_key :: "gpg_key option"             \<comment> \<open>the field\<close>
  nd_complete :: bool
  nd_alreadyPrompted :: bool
  nd_reload :: bool                      \<comment> \<open>the button is connected\<close>
  nd_errors :: nat                       \<comment> \<open>messages shown\<close>
  nd_result :: "(bool \<times> gpg_key option) option option"   \<comment> \<open>when closed: accepted with these answers, or not\<close>

text \<open>The radio button for GPG is the one that is checked at first.\<close>

definition KNewWalletDialog_new :: new_wallet_dialog where
  "KNewWalletDialog_new = \<lparr>nd_page = IntroPage, nd_radioBlowfish = False, nd_introFinal = False, nd_list = [], nd_row = None,
     nd_key = None, nd_complete = False, nd_alreadyPrompted = False, nd_reload = False, nd_errors = 0, nd_result = None\<rparr>"

definition onBlowfishToggled :: "bool \<Rightarrow> new_wallet_dialog \<Rightarrow> new_wallet_dialog" where
  "onBlowfishToggled blowfish d = d\<lparr>nd_introFinal := blowfish\<rparr>"

definition intro_nextId :: "new_wallet_dialog \<Rightarrow> dialog_page option" where
  "intro_nextId d = (if nd_radioBlowfish d then None else Some GpgPage)"

definition usable_key :: "gpg_key \<Rightarrow> bool" where
  "usable_key k \<longleftrightarrow> \<not> gk_invalid k \<and> gk_canEncrypt k \<and> gk_ultimate k"

definition getKeys :: "gpg_key list \<Rightarrow> gpg_key list" where
  "getKeys keys = filter usable_key keys"

definition onItemSelectionChanged :: "new_wallet_dialog \<Rightarrow> new_wallet_dialog" where
  "onItemSelectionChanged d =
     (let item = (case nd_row d of None \<Rightarrow> None | Some r \<Rightarrow> if r < length (nd_list d) then Some (nd_list d ! r) else None)
      in d\<lparr>nd_complete := (item \<noteq> None), nd_key := item\<rparr>)"

definition loadKeys :: "gpg_key list \<Rightarrow> new_wallet_dialog \<Rightarrow> new_wallet_dialog" where
  "loadKeys keyring d =
     (let keys = getKeys keyring in
      onItemSelectionChanged (d\<lparr>nd_complete := False, nd_key := None, nd_list := keys,
        nd_row := if keys \<noteq> [] then Some 0 else None\<rparr>))"

definition gpg_initializePage :: "gpg_setup \<Rightarrow> new_wallet_dialog \<Rightarrow> new_wallet_dialog" where
  "gpg_initializePage g d =
     (if \<not> gs_engine g \<or> \<not> gs_context g then d\<lparr>nd_errors := nd_errors d + 1\<rparr>
      else
        let d = (if getKeys (gs_keys g) = [] \<and> \<not> nd_alreadyPrompted d
                 then d\<lparr>nd_errors := nd_errors d + 1, nd_alreadyPrompted := True\<rparr> else d)
        in loadKeys (gs_keys g) (d\<lparr>nd_reload := True\<rparr>))"

section \<open>What the user does\<close>

datatype dialog_event = Toggle bool | Next gpg_setup | Back | Select nat | Reload "gpg_key list" | Finish | Cancel

definition answers :: "new_wallet_dialog \<Rightarrow> bool \<times> gpg_key option" where
  "answers d = (nd_radioBlowfish d, nd_key d)"

fun on_intro :: "dialog_event \<Rightarrow> new_wallet_dialog \<Rightarrow> new_wallet_dialog" where
  "on_intro (Toggle b) d = (if nd_radioBlowfish d = b then d else onBlowfishToggled b (d\<lparr>nd_radioBlowfish := b\<rparr>))"
| "on_intro (Next g) d = (case intro_nextId d of None \<Rightarrow> d | Some p \<Rightarrow> (gpg_initializePage g d)\<lparr>nd_page := p\<rparr>)"
| "on_intro Finish d = (if nd_introFinal d \<or> intro_nextId d = None then d\<lparr>nd_result := Some (Some (answers d))\<rparr> else d)"
| "on_intro Cancel d = d\<lparr>nd_result := Some None\<rparr>"
| "on_intro _ d = d"

fun on_gpg :: "dialog_event \<Rightarrow> new_wallet_dialog \<Rightarrow> new_wallet_dialog" where
  "on_gpg Back d = d\<lparr>nd_page := IntroPage, nd_key := None\<rparr>"
| "on_gpg (Select r) d = (if r < length (nd_list d) then onItemSelectionChanged (d\<lparr>nd_row := Some r\<rparr>) else d)"
| "on_gpg (Reload keys) d = (if nd_reload d then loadKeys keys d else d)"
| "on_gpg Finish d = (if nd_complete d then d\<lparr>nd_result := Some (Some (answers d))\<rparr> else d)"
| "on_gpg Cancel d = d\<lparr>nd_result := Some None\<rparr>"
| "on_gpg _ d = d"

definition dialog_step :: "dialog_event \<Rightarrow> new_wallet_dialog \<Rightarrow> new_wallet_dialog" where
  "dialog_step e d = (if nd_result d \<noteq> None then d else if nd_page d = IntroPage then on_intro e d else on_gpg e d)"

text \<open>The dialog as the daemon uses it.\<close>

definition newWallet_answer :: "new_wallet_dialog \<Rightarrow> (bool \<times> qstring option) option" where
  "newWallet_answer d = (case nd_result d of Some (Some (blowfish, key)) \<Rightarrow> Some (blowfish, map_option gk_id key) | _ \<Rightarrow> None)"

section \<open>The key that is chosen\<close>

definition gpg_works :: "dialog_event \<Rightarrow> bool" where
  "gpg_works e = (case e of Next g \<Rightarrow> gs_engine g \<and> gs_context g | _ \<Rightarrow> True)"

definition offered :: "dialog_event \<Rightarrow> gpg_key list" where
  "offered e = (case e of Next g \<Rightarrow> gs_keys g | Reload keys \<Rightarrow> keys | _ \<Rightarrow> [])"

definition dialog_ok :: "gpg_key set \<Rightarrow> new_wallet_dialog \<Rightarrow> bool" where
  "dialog_ok K d \<longleftrightarrow> nd_introFinal d = nd_radioBlowfish d \<and> (\<forall>k \<in> set (nd_list d). usable_key k \<and> k \<in> K) \<and>
     (nd_page d = GpgPage \<longrightarrow> \<not> nd_radioBlowfish d \<and> (nd_complete d \<longrightarrow> (\<exists>k \<in> set (nd_list d). nd_key d = Some k))) \<and>
     (\<forall>b key. nd_result d = Some (Some (b, key)) \<longrightarrow> b \<or> (\<exists>k \<in> K. key = Some k \<and> usable_key k))"

lemma selection_ok:
  "nd_complete (onItemSelectionChanged d) \<Longrightarrow> \<exists>k \<in> set (nd_list d). nd_key (onItemSelectionChanged d) = Some k"
  by (auto simp: onItemSelectionChanged_def Let_def split: option.splits if_splits)

lemma selection_simps [simp]:
  "nd_introFinal (onItemSelectionChanged d) = nd_introFinal d" "nd_radioBlowfish (onItemSelectionChanged d) = nd_radioBlowfish d"
  "nd_list (onItemSelectionChanged d) = nd_list d" "nd_page (onItemSelectionChanged d) = nd_page d"
  "nd_result (onItemSelectionChanged d) = nd_result d"
  by (simp_all add: onItemSelectionChanged_def Let_def)

lemma loadKeys_simps [simp]:
  "nd_introFinal (loadKeys ks d) = nd_introFinal d" "nd_radioBlowfish (loadKeys ks d) = nd_radioBlowfish d"
  "nd_list (loadKeys ks d) = getKeys ks" "nd_page (loadKeys ks d) = nd_page d" "nd_result (loadKeys ks d) = nd_result d"
  by (simp_all add: loadKeys_def Let_def)

lemma loadKeys_ok: "nd_complete (loadKeys ks d) \<Longrightarrow> \<exists>k \<in> set (getKeys ks). nd_key (loadKeys ks d) = Some k"
  unfolding loadKeys_def Let_def using selection_ok by force

lemma getKeys_usable: "k \<in> set (getKeys ks) \<Longrightarrow> usable_key k \<and> k \<in> set ks"
  by (simp add: getKeys_def)

lemma dialog_ok_mono: "dialog_ok K d \<Longrightarrow> dialog_ok (K \<union> L) d"
  by (fastforce simp: dialog_ok_def)

lemma intro_ok:
  assumes "dialog_ok K d" and "gpg_works e" and "nd_page d = IntroPage" and "nd_result d = None"
  shows "dialog_ok (K \<union> set (offered e)) (on_intro e d)"
proof (cases e)
  case (Next g)
  then have "gs_engine g" "gs_context g" using assms(2) by (simp_all add: gpg_works_def)
  then show ?thesis using assms Next getKeys_usable loadKeys_ok
    by (auto simp: dialog_ok_def gpg_initializePage_def intro_nextId_def offered_def Let_def) 
next
  case (Toggle b)
  then show ?thesis using assms by (auto simp: dialog_ok_def onBlowfishToggled_def)
next
  case Finish
  then show ?thesis using assms by (auto simp: dialog_ok_def intro_nextId_def answers_def split: if_splits)
qed (use assms in \<open>auto simp: dialog_ok_def\<close>)

lemma gpg_ok:
  assumes "dialog_ok K d" and "nd_page d = GpgPage" and "nd_result d = None"
  shows "dialog_ok (K \<union> set (offered e)) (on_gpg e d)"
proof (cases e)
  case (Select r)
  then show ?thesis using assms selection_ok [of "d\<lparr>nd_row := Some r\<rparr>"] by (auto simp: dialog_ok_def)
next
  case (Reload ks)
  then show ?thesis using assms getKeys_usable loadKeys_ok [of ks d] by (auto simp: dialog_ok_def offered_def)
next
  case Finish
  then show ?thesis using assms by (auto simp: dialog_ok_def answers_def)
qed (use assms in \<open>auto simp: dialog_ok_def\<close>)

lemma dialog_ok_run:
  "dialog_ok K d \<Longrightarrow> \<forall>e \<in> set es. gpg_works e \<Longrightarrow> dialog_ok (K \<union> (\<Union>e \<in> set es. set (offered e))) (fold dialog_step es d)"
proof (induction es arbitrary: K d)
  case (Cons e es)
  have "dialog_ok (K \<union> set (offered e)) (dialog_step e d)"
    using Cons.prems dialog_ok_mono intro_ok gpg_ok by (cases "nd_page d") (simp_all add: dialog_step_def)
  from Cons.IH [OF this] Cons.prems(2) show ?case by (simp add: Un_assoc)
qed simp

text \<open>A dialog that is accepted for GPG gives a key that can be used: valid, able to encrypt, trusted, and among those that
  GpgME listed, provided that GpgME did not fail to start.  When it fails after the user went back and forth, the page is
  still complete from before, and the dialog can be accepted without a key.\<close>

theorem chosen_key:
  assumes "\<forall>e \<in> set es. gpg_works e" and "nd_result (fold dialog_step es KNewWalletDialog_new) = Some (Some (blowfish, key))"
  shows "blowfish \<or> (\<exists>k. key = Some k \<and> usable_key k \<and> (\<exists>e \<in> set es. k \<in> set (offered e)))"
proof -
  have "dialog_ok {} KNewWalletDialog_new" by (simp add: dialog_ok_def KNewWalletDialog_new_def)
  from dialog_ok_run [OF this assms(1)] assms(2) show ?thesis by (auto simp: dialog_ok_def)
qed

theorem chosen_key_witness:
  "\<exists>key k. nd_result (fold dialog_step [Next \<lparr>gs_engine = True, gs_context = True, gs_keys = [\<lparr>gk_id = qs ''K'', gk_invalid = False,
      gk_canEncrypt = True, gk_ultimate = True\<rparr>]\<rparr>, Finish] KNewWalletDialog_new) = Some (Some (False, key)) \<and> key = Some k \<and> usable_key k"
proof -
  let ?g = "\<lparr>gs_engine = True, gs_context = True, gs_keys = [\<lparr>gk_id = qs ''K'', gk_invalid = False, gk_canEncrypt = True, gk_ultimate = True\<rparr>]\<rparr>"
  have r: "\<exists>key. nd_result (fold dialog_step [Next ?g, Finish] KNewWalletDialog_new) = Some (Some (False, key))"
    by (simp add: KNewWalletDialog_new_def dialog_step_def intro_nextId_def gpg_initializePage_def loadKeys_def getKeys_def usable_key_def
        onItemSelectionChanged_def answers_def Let_def)
  have "\<forall>e \<in> set [Next ?g, Finish]. gpg_works e" by (simp add: gpg_works_def)
  from r chosen_key [OF this] show ?thesis by blast
qed

theorem accepted_without_key:
  assumes "usable_key k" and "gs_engine g" and "gs_context g" and "gs_keys g = [k]" and "\<not> gs_engine g'"
  shows "newWallet_answer (fold dialog_step [Next g, Back, Next g', Finish] KNewWalletDialog_new) = Some (False, None)"
  using assms by (simp add: KNewWalletDialog_new_def dialog_step_def intro_nextId_def gpg_initializePage_def loadKeys_def getKeys_def
      onItemSelectionChanged_def answers_def newWallet_answer_def Let_def)

theorem accepted_without_key_witness:
  "newWallet_answer (fold dialog_step [Next \<lparr>gs_engine = True, gs_context = True, gs_keys = [\<lparr>gk_id = [], gk_invalid = False,
      gk_canEncrypt = True, gk_ultimate = True\<rparr>]\<rparr>, Back, Next \<lparr>gs_engine = False, gs_context = True, gs_keys = []\<rparr>, Finish]
      KNewWalletDialog_new) = Some (False, None)"
  by (rule accepted_without_key) (simp_all add: usable_key_def)

end
