(* ===== verification/KWalletWizard.thy ===== *)
theory KWalletWizard
  imports KNewWalletDialog
begin

text \<open>
  The wizard for a first wallet (src/runtime/ksecretd/kwalletwizard.cpp), in the build with GpgME: the choice between a
  basic and an advanced setup, the page for the passwords or for GPG, the page with the keys of GPG, the options and an
  explanation.

  Of the wizard of Qt the model uses what its documentation says.  A page that does not say which page is next has the
  one with the next higher number.  Next leads there and initialises the page; Back leads to the page visited before and
  gives the fields of the page that is left their original values, which notifies the wizard of those that change.  When
  a page is reached, Next is enabled when the page is complete, and Finish when it is final too: declared so, or without
  a next page.  Declaring a page final or not sets Finish again.  The initial values are those of the \<open>.ui\<close> files.
\<close>

section \<open>State\<close>

datatype wizard_type = Basic | Advanced

definition PageIntroId :: int where "PageIntroId = 0"
definition PagePasswordId :: int where "PagePasswordId = 1"
definition PageGpgKeyId :: int where "PageGpgKeyId = 2"
definition PageOptionsId :: int where "PageOptionsId = 3"
definition PageExplanationId :: int where "PageExplanationId = 4"

lemmas page_ids = PageIntroId_def PagePasswordId_def PageGpgKeyId_def PageOptionsId_def PageExplanationId_def

datatype match_label = NoText | PasswordEmpty | PasswordsMatch | PasswordsDiffer

record wizard =
  wz_type :: wizard_type
  wz_useWallet :: bool
  wz_useBlowfish :: bool                 \<comment> \<open>the other radio button is \<open>useGPG\<close>\<close>
  wz_pass1 :: qstring
  wz_pass2 :: qstring
  wz_gpgKey :: int                       \<comment> \<open>the current index of the list of keys\<close>
  wz_closeWhenIdle :: bool
  wz_networkWallet :: bool
  wz_keys :: "gpg_key list"
  wz_errors :: nat                       \<comment> \<open>messages shown\<close>
  wz_label :: match_label
  wz_passFinal :: bool
  wz_gpgFinal :: bool
  wz_nextVisible :: bool                 \<comment> \<open>as the program set it last\<close>
  wz_nextEnabled :: bool
  wz_finishEnabled :: bool
  wz_history :: "int list"               \<comment> \<open>the pages visited, the current one first\<close>
  wz_done :: "bool option"               \<comment> \<open>accepted or rejected\<close>

definition current_page :: "wizard \<Rightarrow> int" where
  "current_page w = (case wz_history w of [] \<Rightarrow> -1 | p # ps \<Rightarrow> p)"

section \<open>The pages\<close>

text \<open>The key listing of \<open>PageGpgKey\<close>; the keys it keeps go into a combo box.\<close>

definition PageGpgKey_new :: "gpg_setup \<Rightarrow> wizard \<Rightarrow> wizard" where
  "PageGpgKey_new g w =
     (let w = (if \<not> gs_engine g then w\<lparr>wz_keys := [], wz_errors := wz_errors w + 1\<rparr>
               else if \<not> gs_context g then w\<lparr>wz_keys := [], wz_errors := wz_errors w + 1\<rparr>
               else w\<lparr>wz_keys := filter (\<lambda>k. \<not> gk_invalid k \<and> gk_canEncrypt k \<and> gk_ultimate k) (gs_keys g)\<rparr>)
      in if wz_keys w \<noteq> [] then w\<lparr>wz_gpgKey := 0\<rparr> else w\<lparr>wz_gpgKey := -1, wz_gpgFinal := True\<rparr>)"

definition userHasGpgKeys :: "wizard \<Rightarrow> bool" where
  "userHasGpgKeys w \<longleftrightarrow> wz_keys w \<noteq> []"

definition password_nextId :: "wizard \<Rightarrow> int" where
  "password_nextId w =
     (if wz_useWallet w
      then if wz_useBlowfish w then (if wz_type w = Basic then -1 else PageOptionsId) else PageGpgKeyId
      else -1)"

definition gpgKey_nextId :: "wizard \<Rightarrow> int" where
  "gpgKey_nextId w = (if wz_type w = Basic then -1 else PageOptionsId)"

definition wizard_nextId :: "int \<Rightarrow> wizard \<Rightarrow> int" where
  "wizard_nextId p w =
     (if p = PageIntroId then PagePasswordId
      else if p = PagePasswordId then password_nextId w
      else if p = PageGpgKeyId then gpgKey_nextId w
      else if p = PageOptionsId then PageExplanationId
      else -1)"

definition page_complete :: "int \<Rightarrow> wizard \<Rightarrow> bool" where
  "page_complete p w \<longleftrightarrow> (p = PageGpgKeyId \<longrightarrow> userHasGpgKeys w)"

definition page_final :: "int \<Rightarrow> wizard \<Rightarrow> bool" where
  "page_final p w \<longleftrightarrow> p = PagePasswordId \<and> wz_passFinal w \<or> p = PageGpgKeyId \<and> wz_gpgFinal w \<or> p = PageExplanationId \<or>
     wizard_nextId p w = -1"

definition chosen_gpgKey :: "wizard \<Rightarrow> gpg_key option" where
  "chosen_gpgKey w =
     (if 0 \<le> wz_gpgKey w \<and> nat (wz_gpgKey w) < length (wz_keys w) then Some (wz_keys w ! nat (wz_gpgKey w)) else None)"

definition set_buttons :: "wizard \<Rightarrow> wizard" where
  "set_buttons w =
     (let p = current_page w
      in w\<lparr>wz_nextEnabled := page_complete p w, wz_finishEnabled := page_complete p w \<and> page_final p w\<rparr>)"

definition setPassFinal :: "bool \<Rightarrow> wizard \<Rightarrow> wizard" where
  "setPassFinal b w =
     (let w = w\<lparr>wz_passFinal := b\<rparr>; p = current_page w
      in if p = PagePasswordId then w\<lparr>wz_finishEnabled := page_complete p w \<and> page_final p w\<rparr> else w)"

section \<open>The wizard\<close>

definition passwordPageUpdate :: "wizard \<Rightarrow> wizard" where
  "passwordPageUpdate w =
     (let enable = (\<lambda>complete w. if wz_type w = Basic then w\<lparr>wz_finishEnabled := complete\<rparr> else w\<lparr>wz_nextEnabled := complete\<rparr>)
      in if wz_useWallet w
         then if wz_useBlowfish w
           then let w = setPassFinal (wz_type w = Basic) w;
                    w = w\<lparr>wz_nextVisible := (wz_type w \<noteq> Basic)\<rparr>
                in if wz_pass1 w = wz_pass2 w
                   then enable True (w\<lparr>wz_label := if wz_pass1 w = [] then PasswordEmpty else PasswordsMatch\<rparr>)
                   else enable False (w\<lparr>wz_label := PasswordsDiffer\<rparr>)
           else (setPassFinal False w)\<lparr>wz_nextEnabled := True\<rparr>
         else enable True (w\<lparr>wz_label := NoText\<rparr>))"

definition wizard_initializePage :: "int \<Rightarrow> wizard \<Rightarrow> wizard" where
  "wizard_initializePage p w =
     (if p = PagePasswordId
      then let islast = (wz_type w = Basic) in (setPassFinal islast w)\<lparr>wz_nextVisible := \<not> islast\<rparr>
      else w)"

definition KWalletWizard_new :: "gpg_setup \<Rightarrow> wizard" where
  "KWalletWizard_new g = set_buttons (PageGpgKey_new g \<lparr>wz_type = Basic, wz_useWallet = True, wz_useBlowfish = False,
     wz_pass1 = [], wz_pass2 = [], wz_gpgKey = -1, wz_closeWhenIdle = False, wz_networkWallet = False, wz_keys = [],
     wz_errors = 0, wz_label = NoText, wz_passFinal = False, wz_gpgFinal = False, wz_nextVisible = True,
     wz_nextEnabled = True, wz_finishEnabled = False, wz_history = [PageIntroId], wz_done = None\<rparr>)"

section \<open>What the user does\<close>

definition set_useWallet :: "bool \<Rightarrow> wizard \<Rightarrow> wizard" where
  "set_useWallet b w = passwordPageUpdate (w\<lparr>wz_useWallet := b\<rparr>)"

definition set_useBlowfish :: "bool \<Rightarrow> wizard \<Rightarrow> wizard" where
  "set_useBlowfish b w = (if wz_useBlowfish w = b then w else passwordPageUpdate (w\<lparr>wz_useBlowfish := b\<rparr>))"

definition set_pass1 :: "qstring \<Rightarrow> wizard \<Rightarrow> wizard" where
  "set_pass1 p w = (if wz_pass1 w = p then w else passwordPageUpdate (w\<lparr>wz_pass1 := p\<rparr>))"

definition set_pass2 :: "qstring \<Rightarrow> wizard \<Rightarrow> wizard" where
  "set_pass2 p w = (if wz_pass2 w = p then w else passwordPageUpdate (w\<lparr>wz_pass2 := p\<rparr>))"

definition cleanup_page :: "int \<Rightarrow> wizard \<Rightarrow> wizard" where
  "cleanup_page p w =
     (if p = PagePasswordId then set_useBlowfish False (set_pass2 [] (set_pass1 [] (w\<lparr>wz_useWallet := True\<rparr>)))
      else if p = PageGpgKeyId then w\<lparr>wz_gpgKey := if wz_keys w \<noteq> [] then 0 else -1\<rparr>
      else if p = PageOptionsId then w\<lparr>wz_closeWhenIdle := False, wz_networkWallet := False\<rparr>
      else w)"

definition wizard_next :: "wizard \<Rightarrow> wizard" where
  "wizard_next w =
     (let n = wizard_nextId (current_page w) w
      in if wz_nextEnabled w \<and> n \<noteq> -1 then set_buttons ((wizard_initializePage n w)\<lparr>wz_history := n # wz_history w\<rparr>) else w)"

definition wizard_back :: "wizard \<Rightarrow> wizard" where
  "wizard_back w =
     (case wz_history w of
        p # q # ps \<Rightarrow> set_buttons ((cleanup_page p w)\<lparr>wz_history := q # ps\<rparr>)
      | _ \<Rightarrow> w)"

datatype wizard_event = ChooseType wizard_type | UseWallet bool | UseBlowfish bool | Pass1 qstring | Pass2 qstring
  | ChooseKey int | CloseWhenIdle bool | NetworkWallet bool | GoNext | GoBack | GoFinish | GoCancel

fun on_page :: "int \<Rightarrow> wizard_event \<Rightarrow> wizard \<Rightarrow> wizard" where
  "on_page p (ChooseType t) w = (if p = PageIntroId then w\<lparr>wz_type := t\<rparr> else w)"
| "on_page p (UseWallet b) w = (if p = PagePasswordId then set_useWallet b w else w)"
| "on_page p (UseBlowfish b) w = (if p = PagePasswordId then set_useBlowfish b w else w)"
| "on_page p (Pass1 x) w = (if p = PagePasswordId then set_pass1 x w else w)"
| "on_page p (Pass2 x) w = (if p = PagePasswordId then set_pass2 x w else w)"
| "on_page p (ChooseKey n) w =
     (if p = PageGpgKeyId \<and> 0 \<le> n \<and> n < int (length (wz_keys w)) then w\<lparr>wz_gpgKey := n\<rparr> else w)"
| "on_page p (CloseWhenIdle b) w = (if p = PageOptionsId then w\<lparr>wz_closeWhenIdle := b\<rparr> else w)"
| "on_page p (NetworkWallet b) w = (if p = PageOptionsId then w\<lparr>wz_networkWallet := b\<rparr> else w)"
| "on_page p GoNext w = wizard_next w"
| "on_page p GoBack w = wizard_back w"
| "on_page p GoFinish w = (if wz_finishEnabled w then w\<lparr>wz_done := Some True\<rparr> else w)"
| "on_page p GoCancel w = w\<lparr>wz_done := Some False\<rparr>"

definition wizard_step :: "wizard_event \<Rightarrow> wizard \<Rightarrow> wizard" where
  "wizard_step e w = (if wz_done w \<noteq> None then w else on_page (current_page w) e w)"

section \<open>What a finished wizard answers\<close>

definition same_passwords :: "wizard \<Rightarrow> bool" where
  "same_passwords w \<longleftrightarrow> (wz_useBlowfish w \<longrightarrow> wz_pass1 w = wz_pass2 w)"

definition has_key :: "wizard \<Rightarrow> bool" where
  "has_key w \<longleftrightarrow> (\<not> wz_useBlowfish w \<longrightarrow> wz_keys w \<noteq> [])"

definition keys_ok :: "gpg_setup \<Rightarrow> wizard \<Rightarrow> bool" where
  "keys_ok g w \<longleftrightarrow> (\<forall>k \<in> set (wz_keys w). usable_key k \<and> k \<in> set (gs_keys g)) \<and>
     (wz_keys w \<noteq> [] \<longrightarrow> 0 \<le> wz_gpgKey w \<and> nat (wz_gpgKey w) < length (wz_keys w))"

text \<open>One clause for each way to have come to the current page.\<close>

definition on_password :: "wizard \<Rightarrow> bool" where
  "on_password w \<longleftrightarrow>
     (wz_type w = Basic \<longrightarrow> wz_useWallet w \<longrightarrow> wz_finishEnabled w \<longrightarrow> same_passwords w) \<and>
     (wz_type w = Advanced \<longrightarrow> \<not> wz_finishEnabled w \<and> \<not> wz_passFinal w \<and>
       (wz_useWallet w \<longrightarrow> wz_nextEnabled w \<longrightarrow> same_passwords w))"

fun stage :: "int list \<Rightarrow> wizard \<Rightarrow> bool" where
  "stage [] w = False"
| "stage [p] w = (p = 0 \<and> \<not> wz_finishEnabled w \<and> wz_useWallet w \<and> \<not> wz_useBlowfish w \<and> wz_pass1 w = [] \<and> wz_pass2 w = [])"
| "stage (p # q # ps) w =
     (if ps = [] then p = 1 \<and> q = 0 \<and> on_password w
      else wz_useWallet w \<and> same_passwords w \<and> (wz_type w = Advanced \<longrightarrow> \<not> wz_passFinal w) \<and>
        (if p = 2 then q = 1 \<and> ps = [0] \<and> \<not> wz_useBlowfish w \<and> (wz_nextEnabled w \<or> wz_finishEnabled w \<longrightarrow> wz_keys w \<noteq> [])
         else wz_type w = Advanced \<and> has_key w \<and>
           (if p = 3 then q = 1 \<and> ps = [0] \<and> wz_useBlowfish w \<or> q = 2 \<and> ps = [1, 0] \<and> \<not> wz_useBlowfish w
            else p = 4 \<and> q = 3 \<and> (ps = [1, 0] \<and> wz_useBlowfish w \<or> ps = [2, 1, 0] \<and> \<not> wz_useBlowfish w))))"

definition wizard_ok :: "gpg_setup \<Rightarrow> wizard \<Rightarrow> bool" where
  "wizard_ok g w \<longleftrightarrow> keys_ok g w \<and> stage (wz_history w) w"

lemmas wizard_parts = set_buttons_def setPassFinal_def passwordPageUpdate_def current_page_def page_complete_def page_final_def
  wizard_nextId_def password_nextId_def gpgKey_nextId_def page_ids userHasGpgKeys_def Let_def

lemma update_frame [simp]:
  "wz_history (passwordPageUpdate w) = wz_history w" "wz_keys (passwordPageUpdate w) = wz_keys w"
  "wz_gpgKey (passwordPageUpdate w) = wz_gpgKey w" "wz_type (passwordPageUpdate w) = wz_type w"
  "wz_useWallet (passwordPageUpdate w) = wz_useWallet w" "wz_useBlowfish (passwordPageUpdate w) = wz_useBlowfish w"
  "wz_pass1 (passwordPageUpdate w) = wz_pass1 w" "wz_pass2 (passwordPageUpdate w) = wz_pass2 w"
  "wz_done (passwordPageUpdate w) = wz_done w"
  by (simp_all add: passwordPageUpdate_def setPassFinal_def Let_def)

lemma buttons_frame [simp]:
  "wz_history (set_buttons w) = wz_history w" "wz_keys (set_buttons w) = wz_keys w" "wz_gpgKey (set_buttons w) = wz_gpgKey w"
  "wz_type (set_buttons w) = wz_type w" "wz_useWallet (set_buttons w) = wz_useWallet w"
  "wz_useBlowfish (set_buttons w) = wz_useBlowfish w" "wz_pass1 (set_buttons w) = wz_pass1 w"
  "wz_pass2 (set_buttons w) = wz_pass2 w" "wz_passFinal (set_buttons w) = wz_passFinal w" "wz_done (set_buttons w) = wz_done w"
  by (simp_all add: set_buttons_def Let_def)

lemma update_ok:
  assumes "wz_history w = [1, 0]" and "wz_type w = Advanced \<longrightarrow> \<not> wz_finishEnabled w \<and> \<not> wz_passFinal w"
  shows "on_password (passwordPageUpdate w)"
  using assms by (cases "wz_type w") (auto simp: on_password_def same_passwords_def wizard_parts)

lemma edits_ok:
  assumes "wz_history w = [1, 0]" and "on_password w"
  shows "on_password (set_useWallet b w)" and "on_password (set_useBlowfish b w)" and "on_password (set_pass1 x w)"
    and "on_password (set_pass2 x w)"
proof -
  have a: "wz_type w = Advanced \<longrightarrow> \<not> wz_finishEnabled w \<and> \<not> wz_passFinal w" using assms(2) by (simp add: on_password_def)
  show "on_password (set_useWallet b w)" "on_password (set_useBlowfish b w)" "on_password (set_pass1 x w)"
    "on_password (set_pass2 x w)"
    using assms a
    by (auto simp: set_useWallet_def set_useBlowfish_def set_pass1_def set_pass2_def intro!: update_ok)
qed

lemma edits_frame [simp]:
  "wz_history (set_useWallet b w) = wz_history w" "wz_history (set_useBlowfish b w) = wz_history w"
  "wz_history (set_pass1 x w) = wz_history w" "wz_history (set_pass2 x w) = wz_history w"
  "keys_ok g (set_useWallet b w) = keys_ok g w" "keys_ok g (set_useBlowfish b w) = keys_ok g w"
  "keys_ok g (set_pass1 x w) = keys_ok g w" "keys_ok g (set_pass2 x w) = keys_ok g w"
  "wz_useWallet (set_useBlowfish b w) = wz_useWallet w" "wz_useWallet (set_pass1 x w) = wz_useWallet w"
  "wz_useWallet (set_pass2 x w) = wz_useWallet w" "wz_useBlowfish (set_useBlowfish b w) = b"
  "wz_useBlowfish (set_pass2 x w) = wz_useBlowfish w" "wz_useBlowfish (set_pass1 x w) = wz_useBlowfish w"
  "wz_pass1 (set_pass1 x w) = x" "wz_pass2 (set_pass2 x w) = x" "wz_pass1 (set_pass2 x w) = wz_pass1 w"
  "wz_pass1 (set_useBlowfish b w) = wz_pass1 w" "wz_pass2 (set_useBlowfish b w) = wz_pass2 w"
  by (simp_all add: keys_ok_def set_useWallet_def set_useBlowfish_def set_pass1_def set_pass2_def)

lemma keys_ok_frame [simp]:
  "keys_ok g (set_buttons w) = keys_ok g w" "keys_ok g (w\<lparr>wz_history := ps\<rparr>) = keys_ok g w"
  "keys_ok g (w\<lparr>wz_useWallet := b\<rparr>) = keys_ok g w" "keys_ok g (w\<lparr>wz_type := t\<rparr>) = keys_ok g w"
  "keys_ok g (w\<lparr>wz_closeWhenIdle := b\<rparr>) = keys_ok g w" "keys_ok g (w\<lparr>wz_networkWallet := b\<rparr>) = keys_ok g w"
  "keys_ok g (w\<lparr>wz_done := d\<rparr>) = keys_ok g w" "keys_ok g (wizard_initializePage p w) = keys_ok g w"
  by (simp_all add: keys_ok_def wizard_initializePage_def setPassFinal_def Let_def)

text \<open>The ways to have come to the current page.\<close>

lemma stage_cases:
  assumes "stage (wz_history w) w"
  obtains "wz_history w = [0]" | "wz_history w = [1, 0]" | "wz_history w = [2, 1, 0]" | "wz_history w = [3, 1, 0]"
    | "wz_history w = [3, 2, 1, 0]" | "wz_history w = [4, 3, 1, 0]" | "wz_history w = [4, 3, 2, 1, 0]"
proof (cases "wz_history w")
  case (Cons p ps)
  note c = this
  show thesis
  proof (cases ps)
    case Nil
    then show thesis using assms that(1) c by simp
  next
    case (Cons q qs)
    then show thesis using assms c that(2-7) by (cases "qs = []"; cases "p = 2"; cases "p = 3") auto
  qed
qed (use assms in simp)

lemma next_ok:
  assumes "wizard_ok g w"
  shows "wizard_ok g (wizard_next w)"
proof -
  have k: "keys_ok g w" and st: "stage (wz_history w) w" using assms by (simp_all add: wizard_ok_def)
  have "stage (wz_history (wizard_next w)) (wizard_next w)"
    using stage_cases [OF st]
  proof cases
    case 1
    with st show ?thesis
      by (cases "wz_type w") (simp_all add: wizard_next_def wizard_initializePage_def on_password_def same_passwords_def wizard_parts)
  next
    case 2
    with st show ?thesis
      by (cases "wz_type w") (simp_all add: wizard_next_def wizard_initializePage_def on_password_def same_passwords_def has_key_def
          wizard_parts)
  next
    case 3
    with st show ?thesis
      by (cases "wz_type w") (simp_all add: wizard_next_def wizard_initializePage_def same_passwords_def has_key_def wizard_parts)
  qed (use st in \<open>simp_all add: wizard_next_def wizard_initializePage_def same_passwords_def has_key_def wizard_parts\<close>)
  with k show ?thesis by (simp add: wizard_ok_def wizard_next_def Let_def)
qed

lemma back_ok:
  assumes "wizard_ok g w"
  shows "wizard_ok g (wizard_back w)"
proof -
  have k: "keys_ok g w" and st: "stage (wz_history w) w" using assms by (simp_all add: wizard_ok_def)
  have g: "keys_ok g (w\<lparr>wz_gpgKey := if wz_keys w \<noteq> [] then 0 else -1\<rparr>)" using k by (simp add: keys_ok_def)
  have "keys_ok g (cleanup_page p w)" for p using k g by (simp add: cleanup_page_def)
  then have "keys_ok g (wizard_back w)" using k by (simp add: wizard_back_def split: list.split)
  moreover have "stage (wz_history (wizard_back w)) (wizard_back w)"
    using stage_cases [OF st]
  proof cases
    case 1
    with st show ?thesis by (simp add: wizard_back_def)
  next
    case 2
    then show ?thesis by (simp add: wizard_back_def cleanup_page_def wizard_parts)
  next
    case 3
    with st show ?thesis
      by (cases "wz_type w") (simp_all add: wizard_back_def cleanup_page_def on_password_def same_passwords_def wizard_parts)
  next
    case 4
    with st show ?thesis by (simp add: wizard_back_def cleanup_page_def on_password_def same_passwords_def wizard_parts)
  qed (use st in \<open>simp_all add: wizard_back_def cleanup_page_def same_passwords_def has_key_def wizard_parts\<close>)
  ultimately show ?thesis by (simp add: wizard_ok_def)
qed

definition accepts :: "gpg_setup \<Rightarrow> wizard \<Rightarrow> bool" where
  "accepts g w \<longleftrightarrow> (wz_useWallet w \<and> wz_useBlowfish w \<longrightarrow> wz_pass1 w = wz_pass2 w) \<and>
     (wz_type w = Advanced \<longrightarrow> wz_useWallet w \<and>
       (wz_useBlowfish w \<or> (\<exists>k. chosen_gpgKey w = Some k \<and> usable_key k \<and> k \<in> set (gs_keys g))))"

lemma finish_accepts:
  assumes "wizard_ok g w" and "wz_finishEnabled w"
  shows "accepts g w"
proof -
  have k: "wz_keys w \<noteq> [] \<Longrightarrow> \<exists>k. chosen_gpgKey w = Some k \<and> usable_key k \<and> k \<in> set (gs_keys g)"
    using assms(1) by (auto simp: wizard_ok_def keys_ok_def chosen_gpgKey_def)
  have st: "stage (wz_history w) w" using assms(1) by (simp add: wizard_ok_def)
  from stage_cases [OF st] show ?thesis
  proof cases
    case 2
    with st assms(2) show ?thesis by (cases "wz_type w") (auto simp: accepts_def on_password_def same_passwords_def)
  qed (use st assms(2) k in \<open>auto simp: accepts_def same_passwords_def has_key_def\<close>)
qed

lemma step_ok:
  assumes "wizard_ok g w" and "wz_done w = None"
  shows "wizard_ok g (wizard_step e w) \<and> (wz_done (wizard_step e w) = Some True \<longrightarrow> accepts g (wizard_step e w))"
proof -
  have d: "wz_done (wizard_next w) = None" "wz_done (wizard_back w) = None"
    using assms(2)
    by (auto simp: wizard_next_def wizard_back_def wizard_initializePage_def setPassFinal_def cleanup_page_def set_useBlowfish_def
        set_pass1_def set_pass2_def Let_def split: list.split)
  have st: "stage (wz_history w) w" and k: "keys_ok g w" using assms(1) by (simp_all add: wizard_ok_def)
  note h = stage_cases [OF st]
  have edit: "current_page w = PagePasswordId \<Longrightarrow> wz_history w = [1, 0] \<and> on_password w"
    using h st by cases (simp_all add: current_page_def page_ids)
  have page: "keys_ok g w' \<Longrightarrow> wz_history w' = [1, 0] \<Longrightarrow> on_password w' \<Longrightarrow> wizard_ok g w'" for w'
    by (simp add: wizard_ok_def)
  have same: "wizard_ok g (on_page (current_page w) e w)"
  proof (cases e)
    case (ChooseType t)
    show ?thesis using h st k assms(1) ChooseType by cases (simp_all add: wizard_ok_def current_page_def page_ids)
  next
    case (ChooseKey n)
    have n: "0 \<le> n \<Longrightarrow> n < int (length (wz_keys w)) \<Longrightarrow> keys_ok g (w\<lparr>wz_gpgKey := n\<rparr>)"
      using k by (auto simp: keys_ok_def nat_less_iff)
    show ?thesis using h st k n assms(1) ChooseKey
      by cases (simp_all add: wizard_ok_def current_page_def page_ids same_passwords_def has_key_def)
  next
    case (CloseWhenIdle b)
    show ?thesis using h st k assms(1) CloseWhenIdle
      by cases (simp_all add: wizard_ok_def current_page_def page_ids same_passwords_def has_key_def on_password_def)
  next
    case (NetworkWallet b)
    show ?thesis using h st k assms(1) NetworkWallet
      by cases (simp_all add: wizard_ok_def current_page_def page_ids same_passwords_def has_key_def on_password_def)
  next
    case GoFinish
    show ?thesis using h st k assms(1) GoFinish
      by cases (auto simp: wizard_ok_def same_passwords_def has_key_def on_password_def)
  next
    case GoCancel
    show ?thesis using h st k assms(1) GoCancel
      by cases (auto simp: wizard_ok_def same_passwords_def has_key_def on_password_def)
  qed (use assms(1) edit page k edits_ok next_ok back_ok in \<open>simp_all\<close>)
  moreover have "accepts g (on_page (current_page w) e w)" if "wz_done (on_page (current_page w) e w) = Some True"
  proof -
    have "e = GoFinish \<and> wz_finishEnabled w"
      using that assms(2) d by (cases e) (auto simp: set_useWallet_def set_useBlowfish_def set_pass1_def set_pass2_def split: if_splits)
    then show ?thesis using finish_accepts [OF assms(1)] by (auto simp: accepts_def chosen_gpgKey_def split: if_splits)
  qed
  ultimately show ?thesis using assms(2) by (simp add: wizard_step_def)
qed

lemma steps_ok:
  assumes "wizard_ok g w" and "wz_done w = Some True \<longrightarrow> accepts g w"
  shows "wizard_ok g (fold wizard_step es w) \<and> (wz_done (fold wizard_step es w) = Some True \<longrightarrow> accepts g (fold wizard_step es w))"
  using assms
proof (induction es arbitrary: w)
  case (Cons e es)
  have "wizard_ok g (wizard_step e w) \<and> (wz_done (wizard_step e w) = Some True \<longrightarrow> accepts g (wizard_step e w))"
    using Cons.prems step_ok [of g w e] by (cases "wz_done w") (simp_all add: wizard_step_def)
  with Cons.IH [of "wizard_step e w"] show ?case by simp
qed simp

lemma new_wizard_ok: "wizard_ok g (KWalletWizard_new g)"
  by (simp add: KWalletWizard_new_def PageGpgKey_new_def wizard_ok_def keys_ok_def usable_key_def wizard_parts)

text \<open>C37. A wizard that is finished has the same password in both fields, if Blowfish protects the wallet.  The advanced
  setup is finished only with a wallet, and one for GPG only with a key that can be used and that GpgME listed.  This
  holds whatever the user enters, in any order and going back and forth.\<close>

theorem finished_wizard:
  assumes "wz_done (fold wizard_step es (KWalletWizard_new g)) = Some True"
  defines "w \<equiv> fold wizard_step es (KWalletWizard_new g)"
  shows "(wz_useWallet w \<and> wz_useBlowfish w \<longrightarrow> wz_pass1 w = wz_pass2 w) \<and>
    (wz_type w = Advanced \<longrightarrow> wz_useWallet w \<and>
      (wz_useBlowfish w \<or> (\<exists>k. chosen_gpgKey w = Some k \<and> usable_key k \<and> k \<in> set (gs_keys g))))"
  using steps_ok [OF new_wizard_ok, where es = es] assms(1)
  by (simp add: w_def accepts_def KWalletWizard_new_def PageGpgKey_new_def set_buttons_def Let_def)

definition example_gpg :: gpg_setup where
  "example_gpg = \<lparr>gs_engine = True, gs_context = True,
     gs_keys = [\<lparr>gk_id = qs ''K'', gk_invalid = False, gk_canEncrypt = True, gk_ultimate = True\<rparr>]\<rparr>"

definition example_clicks :: "wizard_event list" where
  "example_clicks = [ChooseType Advanced, GoNext, GoNext, GoBack, UseBlowfish True, Pass1 [1], GoNext, Pass2 [1], GoNext,
     GoNext, GoFinish]"

lemmas wizard_run_defs = KWalletWizard_new_def PageGpgKey_new_def wizard_step_def wizard_next_def wizard_back_def
  wizard_initializePage_def cleanup_page_def set_useWallet_def set_useBlowfish_def set_pass1_def set_pass2_def wizard_parts

theorem finished_wizard_witness:
  "wz_pass1 (fold wizard_step example_clicks (KWalletWizard_new example_gpg)) =
     wz_pass2 (fold wizard_step example_clicks (KWalletWizard_new example_gpg))"
proof -
  let ?w = "fold wizard_step example_clicks (KWalletWizard_new example_gpg)"
  have "wz_done ?w = Some True \<and> wz_useWallet ?w \<and> wz_useBlowfish ?w" by code_simp
  with finished_wizard [of example_clicks example_gpg] show ?thesis by simp
qed

text \<open>
  Two ways that lead nowhere.  The radio button for GPG is the one checked at first: in the basic setup the page for the
  passwords is declared final and can be finished as it is, without the page of the keys.  Who does not want a wallet at
  all cannot finish the advanced setup: there is no next page, and Finish is not enabled.
\<close>

lemma basic_finishes_with_gpg:
  "wz_done (fold wizard_step [GoNext, GoFinish] (KWalletWizard_new example_gpg)) = Some True \<and>
     wz_useWallet (fold wizard_step [GoNext, GoFinish] (KWalletWizard_new example_gpg)) \<and>
     \<not> wz_useBlowfish (fold wizard_step [GoNext, GoFinish] (KWalletWizard_new example_gpg))"
  by code_simp

lemma advanced_without_wallet:
  "fold wizard_step [GoNext, GoFinish] (fold wizard_step [ChooseType Advanced, GoNext, UseWallet False] (KWalletWizard_new example_gpg)) =
     fold wizard_step [ChooseType Advanced, GoNext, UseWallet False] (KWalletWizard_new example_gpg)"
  by code_simp

end
