(* ===== verification/FdoLabel.thy ===== *)
theory FdoLabel
  imports KSecretD
begin

text \<open>
  Names of the Secret Service side (src/runtime/ksecretd/kwalletfreedesktopservice.cpp and .h):
  an entry of a wallet is a folder and a key (\<open>EntryLocation\<close>); clients see a label and a copy
  number (\<open>FdoUniqueLabel\<close>), which one text encodes as \<open>label__n_\<close>; wallets get object paths
  made of the characters D-Bus allows.

  The regular expression for numbered names is written out as a function: its digits are the ASCII
  digits, its dot does not match a line feed, and its end matches before a final line feed, as Qt
  documents for a \<open>QRegularExpression\<close> without options.

  The locale \<open>fresh_names\<close> is what the three loops that look for an unused name rely on: a sequence
  of candidates without repetition.  It is interpreted on the candidates of each loop.
\<close>

section \<open>Decimal numbers\<close>

definition digit :: "nat \<Rightarrow> 16 word" where
  "digit d = of_nat (48 + d)"

definition is_digit :: "16 word \<Rightarrow> bool" where
  "is_digit c \<longleftrightarrow> 48 \<le> c \<and> c \<le> 57"

fun dec :: "nat \<Rightarrow> qstring" where
  "dec n = (if n < 10 then [digit n] else dec (n div 10) @ [digit (n mod 10)])"

declare dec.simps [simp del]

text \<open>\<open>QString::number\<close>\<close>

definition qnumber :: "int \<Rightarrow> qstring" where
  "qnumber n = (if n < 0 then of_char CHR ''-'' # dec (nat (- n)) else dec (nat n))"

definition dec_value :: "qstring \<Rightarrow> nat" where
  "dec_value s = foldl (\<lambda>v c. 10 * v + (unat c - 48)) 0 s"

text \<open>\<open>QString::toInt\<close> on a text of digits: no value when it does not fit 32 bits.\<close>

definition toInt :: "qstring \<Rightarrow> int option" where
  "toInt s = (if dec_value s < 2 ^ 31 then Some (int (dec_value s)) else None)"

section \<open>Labels and locations\<close>

record entry_location =
  el_folder :: qstring
  el_key :: qstring

record fdo_unique_label =
  ul_label :: qstring
  ul_copyId :: int

definition FDO_SECRETS_DEFAULT_DIR :: qstring where
  "FDO_SECRETS_DEFAULT_DIR = qs ''Secret Service''"

definition slash :: "16 word" where "slash = of_char CHR ''/''"
definition underscore :: "16 word" where "underscore = of_char (CHR 0x5F)"
definition newline :: "16 word" where "newline = 10"

text \<open>\<open>QString::indexOf\<close> of one character\<close>

definition indexOf :: "16 word \<Rightarrow> qstring \<Rightarrow> int" where
  "indexOf c s = (if c \<in> set s then int (length (takeWhile (\<lambda>x. x \<noteq> c) s)) else -1)"

definition makeName :: "qstring \<Rightarrow> int \<Rightarrow> qstring" where
  "makeName label n = (if n = -1 then label else label @ [underscore, underscore] @ qnumber n @ [underscore])"

text \<open>The match of \<open>(^.*)__(\d+)_$\<close>: the two captured texts.\<close>

definition match_numbered :: "qstring \<Rightarrow> (qstring \<times> qstring) option" where
  "match_numbered name =
     (let body = (if name \<noteq> [] \<and> last name = newline then butlast name else name) in
      if body \<noteq> [] \<and> last body = underscore
      then let r = rev (butlast body); ds = rev (takeWhile is_digit r); rest = dropWhile is_digit r in
        if ds \<noteq> [] \<and> take 2 rest = [underscore, underscore] \<and> newline \<notin> set (drop 2 rest)
        then Some (rev (drop 2 rest), ds) else None
      else None)"

definition fromName :: "qstring \<Rightarrow> fdo_unique_label" where
  "fromName name =
     (case match_numbered name of
        Some (label, strNum) \<Rightarrow>
          (case toInt strNum of
             Some n \<Rightarrow> \<lparr>ul_label = label, ul_copyId = n\<rparr>
           | None \<Rightarrow> \<lparr>ul_label = name, ul_copyId = -1\<rparr>)
      | None \<Rightarrow> \<lparr>ul_label = name, ul_copyId = -1\<rparr>)"

definition toName :: "fdo_unique_label \<Rightarrow> qstring" where
  "toName u = makeName (ul_label u) (ul_copyId u)"

definition fromUniqueLabel :: "fdo_unique_label \<Rightarrow> entry_location" where
  "fromUniqueLabel u =
     (let label = ul_label u; slashPos = indexOf slash label;
          (dir, name) = (if slashPos = -1 \<or> slashPos = int (length label) - 1
            then (FDO_SECRETS_DEFAULT_DIR, label)
            else let dir = take (nat slashPos) label in (dir, drop (length dir + 1) label))
      in \<lparr>el_folder = dir, el_key = makeName name (ul_copyId u)\<rparr>)"

definition fromEntryLocation :: "entry_location \<Rightarrow> fdo_unique_label" where
  "fromEntryLocation l =
     (let uniqLabel = fromName (el_key l) in
      if el_folder l = FDO_SECRETS_DEFAULT_DIR then uniqLabel
      else \<lparr>ul_label = el_folder l @ [slash] @ ul_label uniqLabel, ul_copyId = ul_copyId uniqLabel\<rparr>)"

section \<open>Object paths\<close>

definition hex_digit :: "byte \<Rightarrow> 16 word" where
  "hex_digit c = (map of_char ''0123456789abcdef'' :: qstring) ! unat c"

definition path_char :: "byte \<Rightarrow> bool" where
  "path_char c \<longleftrightarrow> (of_char CHR ''A'' \<le> c \<and> c \<le> of_char CHR ''Z'') \<or> (of_char CHR ''a'' \<le> c \<and> c \<le> of_char CHR ''z'')
     \<or> (of_char CHR ''0'' \<le> c \<and> c \<le> of_char CHR ''9'') \<or> c = of_char (CHR 0x5F)"

definition mangleInvalidObjectPathChars :: "host \<Rightarrow> qstring \<Rightarrow> qstring" where
  "mangleInvalidObjectPathChars h str =
     concat (map (\<lambda>c. if \<not> path_char c
       then [underscore, hex_digit (drop_bit 4 c), hex_digit (c AND 0x0F)] else [ucast c]) (toUtf8 h str))"

definition FDO_SECRETS_SERVICE_OBJECT :: qstring where
  "FDO_SECRETS_SERVICE_OBJECT = qs ''/org/freedesktop/secrets''"

definition FDO_SECRETS_COLLECTION_PATH :: qstring where
  "FDO_SECRETS_COLLECTION_PATH = FDO_SECRETS_SERVICE_OBJECT @ qs ''/collection/''"

definition FDO_ALIAS_PATH :: qstring where
  "FDO_ALIAS_PATH = FDO_SECRETS_SERVICE_OBJECT @ qs ''/aliases/''"

section \<open>Unused names\<close>

partial_function (option) first_free :: "(nat \<Rightarrow> 'a) \<Rightarrow> 'a list \<Rightarrow> nat \<Rightarrow> nat option" where
  "first_free f used n = (if f n \<in> set used then first_free f used (n + 1) else Some n)"

text \<open>The candidates of the loops: the name itself, then the numbered names.\<close>

definition nth_name :: "qstring \<Rightarrow> nat \<Rightarrow> qstring" where
  "nth_name label k = (case k of 0 \<Rightarrow> label | Suc n \<Rightarrow> makeName label (int n))"

definition nth_path :: "qstring \<Rightarrow> nat \<Rightarrow> qstring" where
  "nth_path mangled k = (case k of 0 \<Rightarrow> mangled | Suc n \<Rightarrow> mangled @ qnumber (int n))"

definition makeUniqueCollectionLabel :: "host \<Rightarrow> qstring \<Rightarrow> ksecretd \<Rightarrow> fdo_unique_label run" where
  "makeUniqueCollectionLabel h label s =
     (case first_free (nth_name label) (KSecretD_wallets h s) 0 of
        None \<Rightarrow> Diverge | Some k \<Rightarrow> Ret \<lparr>ul_label = label, ul_copyId = int k - 1\<rparr>)"

definition makeUniqueObjectPath :: "host \<Rightarrow> qstring list \<Rightarrow> qstring \<Rightarrow> qstring run" where
  "makeUniqueObjectPath h collections walletName =
     (let mangled = FDO_SECRETS_COLLECTION_PATH @ mangleInvalidObjectPathChars h walletName in
      case first_free (nth_path mangled) collections 0 of
        None \<Rightarrow> Diverge | Some k \<Rightarrow> Ret (nth_path mangled k))"

section \<open>Decimal numbers are read back\<close>

lemma unat_digit: "k < 10 \<Longrightarrow> unat (digit k) = 48 + k"
  unfolding digit_def unat_of_nat by simp

lemma is_digit_digit: "k < 10 \<Longrightarrow> is_digit (digit k)"
  by (simp add: is_digit_def word_le_nat_alt unat_digit)

lemma dec_digits: "c \<in> set (dec n) \<Longrightarrow> is_digit c"
proof (induction n rule: dec.induct)
  case (1 n)
  then show ?case
    using is_digit_digit [of n] is_digit_digit [of "n mod 10"]
    by (cases "n < 10") (auto simp: dec.simps [of n])
qed

lemma dec_nonempty [simp]: "dec n \<noteq> []"
  by (subst dec.simps) simp

lemma dec_value_dec [simp]: "dec_value (dec n) = n"
proof (induction n rule: dec.induct)
  case (1 n)
  then show ?case
    using unat_digit [of n] unat_digit [of "n mod 10"]
    by (cases "n < 10") (simp_all add: dec.simps [of n] dec_value_def)
qed

lemma dec_inj: "dec m = dec n \<longleftrightarrow> m = n"
  by (metis dec_value_dec)

lemma digit_unat: "is_digit c \<Longrightarrow> digit (unat c - 48) = c"
  by (simp add: is_digit_def digit_def word_le_nat_alt flip: of_nat_add)

lemma dec_value_snoc: "dec_value (ds @ [c]) = 10 * dec_value ds + (unat c - 48)"
  by (simp add: dec_value_def)

lemma digit_bound: "is_digit c \<Longrightarrow> unat c - 48 < 10"
  by (simp add: is_digit_def word_le_nat_alt) arith

lemma dec_value_pos:
  assumes "\<forall>c \<in> set ds. is_digit c" and "ds \<noteq> []" and "hd ds \<noteq> digit 0"
  shows "0 < dec_value ds"
  using assms
proof (induction ds rule: rev_induct)
  case (snoc c ds)
  show ?case
  proof (cases "ds = []")
    case True
    with snoc.prems digit_unat [of c] have "unat c - 48 \<noteq> 0" by auto
    with True show ?thesis by (simp add: dec_value_def)
  next
    case False
    with snoc show ?thesis by (simp add: dec_value_snoc)
  qed
qed simp

lemma dec_of_value:
  assumes "\<forall>c \<in> set ds. is_digit c" and "ds \<noteq> []" and "hd ds \<noteq> digit 0 \<or> ds = [digit 0]"
  shows "dec (dec_value ds) = ds"
  using assms
proof (induction ds rule: rev_induct)
  case (snoc c ds)
  have c: "unat c - 48 < 10" "digit (unat c - 48) = c" using snoc.prems(1) digit_bound digit_unat by simp_all
  show ?case
  proof (cases "ds = []")
    case True
    with c show ?thesis by (subst dec.simps) (simp add: dec_value_def)
  next
    case False
    with snoc.prems have h: "hd ds \<noteq> digit 0" "\<forall>c \<in> set ds. is_digit c" by auto
    then have "0 < dec_value ds" using dec_value_pos False by blast
    moreover have "dec (dec_value ds) = ds" using snoc.IH h False by blast
    ultimately show ?thesis
      using c by (subst dec.simps) (simp add: dec_value_snoc)
  qed
qed simp

lemma dec_shortest: "\<forall>c \<in> set ds. is_digit c \<Longrightarrow> ds \<noteq> [] \<Longrightarrow> length (dec (dec_value ds)) \<le> length ds"
proof (induction ds rule: rev_induct)
  case (snoc c xs)
  have c: "unat c - 48 < 10" using snoc.prems(1) digit_bound by simp
  show ?case
  proof (cases "xs = []")
    case True
    with c show ?thesis by (subst dec.simps) (simp add: dec_value_def)
  next
    case False
    with snoc c show ?thesis by (subst dec.simps) (simp add: dec_value_snoc)
  qed
qed simp

lemma dec_canonical:
  assumes "\<forall>c \<in> set ds. is_digit c" and "ds \<noteq> []"
  shows "dec (dec_value ds) = ds \<longleftrightarrow> hd ds \<noteq> digit 0 \<or> ds = [digit 0]"
proof
  assume e: "dec (dec_value ds) = ds"
  show "hd ds \<noteq> digit 0 \<or> ds = [digit 0]"
  proof (rule ccontr)
    assume n: "\<not> (hd ds \<noteq> digit 0 \<or> ds = [digit 0])"
    then obtain ds' where ds: "ds = digit 0 # ds'" "ds' \<noteq> []" using assms(2) by (cases ds) auto
    have "dec_value ds = dec_value ds'" by (simp add: ds dec_value_def unat_digit)
    moreover have "length (dec (dec_value ds')) \<le> length ds'"
      using dec_shortest [of ds'] assms(1) ds by simp
    ultimately have "length ds \<le> length ds'" using e by simp
    then show False by (simp add: ds)
  qed
qed (rule dec_of_value [OF assms])

section \<open>Numbered names\<close>

lemma special_chars [simp]: "\<not> is_digit underscore" "underscore \<noteq> newline" "slash \<noteq> underscore" "underscore \<noteq> slash"
  "\<not> is_digit slash" "newline \<noteq> underscore" "\<not> is_digit newline"
  by (simp_all add: is_digit_def underscore_def newline_def slash_def)

lemma takeWhile_digits:
  assumes "\<forall>c \<in> set ds. is_digit c"
  shows "takeWhile is_digit (rev ds @ underscore # xs) = rev ds" "dropWhile is_digit (rev ds @ underscore # xs) = underscore # xs"
  using assms takeWhile_append2 [of "rev ds" is_digit] dropWhile_append2 [of "rev ds" is_digit] by simp_all

lemma match_makes:
  assumes "newline \<notin> set label" and "\<forall>c \<in> set ds. is_digit c" and "ds \<noteq> []"
  shows "match_numbered (label @ [underscore, underscore] @ ds @ [underscore]) = Some (label, ds)"
proof -
  have "rev (label @ [underscore, underscore] @ ds) = rev ds @ underscore # underscore # rev label" by simp
  then show ?thesis
    using assms takeWhile_digits [OF assms(2), of "underscore # rev label"]
    by (simp add: match_numbered_def Let_def butlast_append)
qed

lemma match_numbered_parts:
  assumes "match_numbered name = Some (label, ds)"
  shows "name = label @ [underscore, underscore] @ ds @ [underscore] \<or>
      name = label @ [underscore, underscore] @ ds @ [underscore, newline]"
    and "\<forall>c \<in> set ds. is_digit c" and "ds \<noteq> []" and "newline \<notin> set label"
proof -
  define b where "b = (if name \<noteq> [] \<and> last name = newline then butlast name else name)"
  define r where "r = rev (butlast b)"
  have "match_numbered name = (if b \<noteq> [] \<and> last b = underscore then
      if rev (takeWhile is_digit r) \<noteq> [] \<and> take 2 (dropWhile is_digit r) = [underscore, underscore] \<and>
        newline \<notin> set (drop 2 (dropWhile is_digit r))
      then Some (rev (drop 2 (dropWhile is_digit r)), rev (takeWhile is_digit r)) else None else None)"
    unfolding match_numbered_def Let_def b_def r_def by (rule refl)
  then have m: "b \<noteq> []" "last b = underscore" "takeWhile is_digit r \<noteq> []" "take 2 (dropWhile is_digit r) = [underscore, underscore]"
    "newline \<notin> set (drop 2 (dropWhile is_digit r))" "label = rev (drop 2 (dropWhile is_digit r))"
    "ds = rev (takeWhile is_digit r)"
    using assms by (simp_all split: if_splits)
  have "r = takeWhile is_digit r @ take 2 (dropWhile is_digit r) @ drop 2 (dropWhile is_digit r)" by simp
  then have "r = rev ds @ [underscore, underscore] @ rev label" using m(4,6,7) by (metis rev_rev_ident)
  then have "rev r = rev (rev ds @ [underscore, underscore] @ rev label)" by (rule arg_cong)
  then have "butlast b = label @ [underscore, underscore] @ ds" by (simp add: r_def)
  then have b: "b = label @ [underscore, underscore] @ ds @ [underscore]"
    using m(1,2) by (metis append.assoc append_butlast_last_id)
  show "name = label @ [underscore, underscore] @ ds @ [underscore] \<or>
      name = label @ [underscore, underscore] @ ds @ [underscore, newline]"
  proof (cases "name \<noteq> [] \<and> last name = newline")
    case True
    then have "name = butlast name @ [newline]" by (metis append_butlast_last_id)
    with b True show ?thesis unfolding b_def by simp
  next
    case False
    with b show ?thesis unfolding b_def by (simp split: if_splits)
  qed
  show "\<forall>c \<in> set ds. is_digit c" using m(7) by (auto dest: set_takeWhileD)
  show "ds \<noteq> []" using m(3,7) by simp
  show "newline \<notin> set label" using m(5,6) by simp
qed

lemma qnumber_nat [simp]: "qnumber (int n) = dec n"
  by (simp add: qnumber_def)

lemma fromName_makeName:
  assumes "newline \<notin> set label" and "0 \<le> n" and "n < 2 ^ 31"
  shows "fromName (makeName label n) = \<lparr>ul_label = label, ul_copyId = n\<rparr>"
proof -
  obtain k where k: "n = int k" "k < 2 ^ 31" using assms(2,3) by (metis nonneg_int_cases of_nat_less_numeral_power_cancel_iff)
  have "match_numbered (makeName label n) = Some (label, dec k)"
    using match_makes [OF assms(1), of "dec k"] dec_digits by (simp add: makeName_def k(1))
  then show ?thesis using k by (simp add: fromName_def toInt_def)
qed

text \<open>A name whose text is the one its label and copy number make.\<close>

definition canonical :: "qstring \<Rightarrow> bool" where
  "canonical name \<longleftrightarrow> toName (fromName name) = name"

lemma toName_fromName:
  assumes "match_numbered name = Some (label, ds)" and "dec_value ds < 2 ^ 31"
  shows "toName (fromName name) = label @ [underscore, underscore] @ dec (dec_value ds) @ [underscore]"
  using assms by (simp add: fromName_def toInt_def toName_def makeName_def)

text \<open>Taking a name apart and putting it together again: a label and a copy number come back from the name
  made of them, and a name comes back from its parts exactly when it has no number, a number too big for an
  \<open>int\<close>, or a number without leading zeros that ends the name; otherwise another name comes back.\<close>

theorem name_roundtrip:
  "(newline \<notin> set label \<and> 0 \<le> n \<and> n < 2 ^ 31 \<longrightarrow> fromName (makeName label n) = \<lparr>ul_label = label, ul_copyId = n\<rparr>) \<and>
   (toName (fromName name) = name \<longleftrightarrow>
     (case match_numbered name of None \<Rightarrow> True
      | Some (label, ds) \<Rightarrow> 2 ^ 31 \<le> dec_value ds \<or> last name = underscore \<and> (hd ds \<noteq> digit 0 \<or> ds = [digit 0])))"
proof -
  have "toName (fromName name) = name \<longleftrightarrow>
     (case match_numbered name of None \<Rightarrow> True
      | Some (label, ds) \<Rightarrow> 2 ^ 31 \<le> dec_value ds \<or> last name = underscore \<and> (hd ds \<noteq> digit 0 \<or> ds = [digit 0]))"
  proof (cases "match_numbered name")
    case None
    then show ?thesis by (simp add: fromName_def toName_def makeName_def)
  next
    case (Some p)
    then obtain label ds where m: "match_numbered name = Some (label, ds)" by (cases p) simp
    note parts = match_numbered_parts [OF m]
    show ?thesis
    proof (cases "dec_value ds < 2 ^ 31")
      case False
      then have "fromName name = \<lparr>ul_label = name, ul_copyId = -1\<rparr>" using m by (simp add: fromName_def toInt_def)
      with False m show ?thesis by (simp add: toName_def makeName_def)
    next
      case True
      from parts(1) show ?thesis
        using toName_fromName [OF m True] dec_canonical [OF parts(2,3)] m True by auto
    qed
  qed
  then show ?thesis using fromName_makeName by blast
qed

theorem name_roundtrip_witness:
  "fromName (makeName (qs ''mail'') 7) = \<lparr>ul_label = qs ''mail'', ul_copyId = 7\<rparr> \<and>
   toName (fromName (qs (''mail'' @ [CHR 0x5F, CHR 0x5F] @ ''07'' @ [CHR 0x5F]))) \<noteq>
     qs (''mail'' @ [CHR 0x5F, CHR 0x5F] @ ''07'' @ [CHR 0x5F])"
proof -
  let ?n = "qs (''mail'' @ [CHR 0x5F, CHR 0x5F] @ ''07'' @ [CHR 0x5F])"
  have n: "newline \<notin> set (qs ''mail'')" "\<forall>c \<in> set (qs ''07''). is_digit c"
    by (simp_all add: qs_def newline_def is_digit_def)
  have e: "?n = qs ''mail'' @ [underscore, underscore] @ qs ''07'' @ [underscore]" by (simp add: qs_def underscore_def)
  then have m: "match_numbered ?n = Some (qs ''mail'', qs ''07'')"
    using match_makes [OF n] unfolding e by (simp add: qs_def)
  have "dec_value (qs ''07'') = 7" "hd (qs ''07'') = digit 0" "qs ''07'' \<noteq> [digit 0]"
    by (simp_all add: dec_value_def qs_def digit_def)
  then show ?thesis using name_roundtrip [of "qs ''mail''" 7 ?n] n(1) m by simp
qed

section \<open>Labels of entries\<close>

lemma indexOf_append: "c \<notin> set xs \<Longrightarrow> indexOf c (xs @ c # ys) = int (length xs)"
proof -
  assume "c \<notin> set xs"
  then have "takeWhile (\<lambda>x. x \<noteq> c) (xs @ c # ys) = xs" by (induction xs) auto
  then show ?thesis by (simp add: indexOf_def)
qed

lemma indexOf_first: "c \<in> set xs \<Longrightarrow> indexOf c (xs @ ys) = indexOf c xs \<and> indexOf c xs < int (length xs) \<and> 0 \<le> indexOf c xs"
proof -
  assume c: "c \<in> set xs"
  then obtain us vs where "xs = us @ c # vs" "c \<notin> set us" using split_list_first by metis
  then show ?thesis by (simp add: indexOf_append)
qed

lemma split_label:
  assumes "slash \<notin> set dir" and "name \<noteq> []"
  shows "fromUniqueLabel \<lparr>ul_label = dir @ slash # name, ul_copyId = n\<rparr> = \<lparr>el_folder = dir, el_key = makeName name n\<rparr>"
  using assms by (simp add: fromUniqueLabel_def indexOf_append Let_def)

lemma whole_label:
  assumes "slash \<notin> set (butlast label)"
  shows "fromUniqueLabel \<lparr>ul_label = label, ul_copyId = n\<rparr> =
    \<lparr>el_folder = FDO_SECRETS_DEFAULT_DIR, el_key = makeName label n\<rparr>"
proof (cases "slash \<in> set label")
  case True
  then have "label \<noteq> []" by auto
  then obtain xs x where "label = xs @ [x]" by (metis append_butlast_last_id)
  with True assms have "label = xs @ slash # []" "slash \<notin> set xs" by auto
  then show ?thesis by (simp add: fromUniqueLabel_def indexOf_append Let_def)
qed (simp add: fromUniqueLabel_def indexOf_def Let_def)

lemma inner_slash:
  assumes "slash \<in> set (butlast label)"
  obtains dir name where "label = dir @ slash # name" "slash \<notin> set dir" "name \<noteq> []"
proof -
  have "label \<noteq> []" using assms by auto
  then obtain xs x where x: "label = xs @ [x]" by (metis append_butlast_last_id)
  with assms obtain us vs where "xs = us @ slash # vs" "slash \<notin> set us" using split_list_first by (metis butlast_snoc)
  with x that [of us "vs @ [x]"] show ?thesis by simp
qed

lemma makeName_label_inj: "makeName a n = makeName b n \<longleftrightarrow> a = b"
  by (simp add: makeName_def)

lemma fromName_length: "length (makeName (ul_label (fromName k)) (ul_copyId (fromName k))) \<le> length k"
proof (cases "match_numbered k")
  case None
  then show ?thesis by (simp add: fromName_def makeName_def)
next
  case (Some p)
  then obtain label ds where m: "match_numbered k = Some (label, ds)" by (cases p) simp
  note parts = match_numbered_parts [OF m]
  show ?thesis
    using parts(1) dec_shortest [OF parts(2,3)] m by (auto simp: fromName_def toInt_def makeName_def split: if_splits)
qed

lemma location_default:
  assumes "fromName k = \<lparr>ul_label = lab, ul_copyId = n\<rparr>" and "l = \<lparr>el_folder = FDO_SECRETS_DEFAULT_DIR, el_key = k\<rparr>"
  shows "fromUniqueLabel (fromEntryLocation l) = l \<longleftrightarrow> canonical k \<and> slash \<notin> set (butlast lab)"
proof -
  have can: "canonical k \<longleftrightarrow> makeName lab n = k" by (simp add: canonical_def toName_def assms(1))
  have e: "fromEntryLocation l = \<lparr>ul_label = lab, ul_copyId = n\<rparr>" by (simp add: assms fromEntryLocation_def)
  show ?thesis
  proof (cases "slash \<in> set (butlast lab)")
    case False
    then show ?thesis unfolding e whole_label [OF False] by (simp add: assms(2) can)
  next
    case True
    then obtain dir name where d: "lab = dir @ slash # name" "slash \<notin> set dir" "name \<noteq> []" by (rule inner_slash)
    then have "fromUniqueLabel (fromEntryLocation l) = \<lparr>el_folder = dir, el_key = makeName name n\<rparr>"
      unfolding e d(1) by (intro split_label)
    moreover have "length (makeName name n) < length k"
      using fromName_length [of k] assms(1) d(1) by (simp add: makeName_def split: if_splits)
    ultimately show ?thesis using True by (auto simp: assms(2))
  qed
qed

lemma location_other:
  assumes "fromName k = \<lparr>ul_label = lab, ul_copyId = n\<rparr>" and "l = \<lparr>el_folder = f, el_key = k\<rparr>" and "f \<noteq> FDO_SECRETS_DEFAULT_DIR"
  shows "fromUniqueLabel (fromEntryLocation l) = l \<longleftrightarrow> canonical k \<and> slash \<notin> set f \<and> lab \<noteq> []"
proof -
  have can: "canonical k \<longleftrightarrow> makeName lab n = k" by (simp add: canonical_def toName_def assms(1))
  have e: "fromEntryLocation l = \<lparr>ul_label = f @ slash # lab, ul_copyId = n\<rparr>"
    using assms by (simp add: fromEntryLocation_def Let_def)
  consider "slash \<in> set f" | "slash \<notin> set f" "lab = []" | "slash \<notin> set f" "lab \<noteq> []" by blast
  then show ?thesis
  proof cases
    case 1
    then obtain d1 d2 where d: "f = d1 @ slash # d2" "slash \<notin> set d1" using split_list_first by metis
    then have "fromUniqueLabel (fromEntryLocation l) = \<lparr>el_folder = d1, el_key = makeName (d2 @ slash # lab) n\<rparr>"
      using split_label [of d1 "d2 @ slash # lab" n] by (simp add: e)
    with d 1 show ?thesis by (auto simp: assms(2))
  next
    case 2
    then have "fromUniqueLabel (fromEntryLocation l) = \<lparr>el_folder = FDO_SECRETS_DEFAULT_DIR, el_key = makeName (f @ [slash]) n\<rparr>"
      using whole_label [of "f @ [slash]" n] by (simp add: e)
    with 2 assms(3) show ?thesis by (simp add: assms(2))
  next
    case 3
    show ?thesis unfolding e split_label [OF 3] using 3 by (simp add: assms(2) can)
  qed
qed

text \<open>C33. The entry a label names is the entry the label was made for exactly when the key is canonical and, in
  the default folder, its label has no slash before its last character, and in any other folder the folder
  has no slash and the label of the key is not empty.\<close>

theorem location_roundtrip:
  "fromUniqueLabel (fromEntryLocation l) = l \<longleftrightarrow> canonical (el_key l) \<and>
    (if el_folder l = FDO_SECRETS_DEFAULT_DIR then slash \<notin> set (butlast (ul_label (fromName (el_key l))))
     else slash \<notin> set (el_folder l) \<and> ul_label (fromName (el_key l)) \<noteq> [])"
proof -
  obtain f k where l: "l = \<lparr>el_folder = f, el_key = k\<rparr>" by (cases l)
  obtain lab n where u: "fromName k = \<lparr>ul_label = lab, ul_copyId = n\<rparr>" by (cases "fromName k")
  show ?thesis
    using location_default [OF u] location_other [OF u l] by (cases "f = FDO_SECRETS_DEFAULT_DIR") (simp_all add: l u)
qed

section \<open>Unused names are found\<close>

lemma first_free_step: "first_free f used n = (if f n \<in> set used then first_free f used (n + 1) else Some n)"
  by (rule first_free.simps)

locale fresh_names =
  fixes name :: "nat \<Rightarrow> 'a"
  assumes distinct_names: "inj name"

context fresh_names begin

text \<open>The first candidate that is not used is found, after at most as many tries as there are used names.\<close>

lemma search:
  "name m \<notin> set used \<Longrightarrow> \<forall>j. n \<le> j \<and> j < m \<longrightarrow> name j \<in> set used \<Longrightarrow> n \<le> m \<Longrightarrow> first_free name used n = Some m"
proof (induction "m - n" arbitrary: n)
  case 0
  then show ?case by (subst first_free_step) simp
next
  case (Suc d)
  then have "first_free name used (n + 1) = Some m" by simp
  moreover have "name n \<in> set used" using Suc.prems(2) Suc.hyps(2) by simp
  ultimately show ?case by (subst first_free_step) simp
qed

lemma free_exists: "\<exists>m \<le> length used. name m \<notin> set used"
proof (rule ccontr)
  assume "\<not> ?thesis"
  then have "name ` {0..length used} \<subseteq> set used" by auto
  then have "card (name ` {0..length used}) \<le> length used"
    using card_mono [of "set used"] card_length [of used] by (meson List.finite_set le_trans)
  moreover have "card (name ` {0..length used}) = Suc (length used)"
    using distinct_names by (subst card_image) (auto intro: inj_on_subset)
  ultimately show False by simp
qed

lemma found:
  obtains m where "first_free name used 0 = Some m" and "name m \<notin> set used" and "m \<le> length used"
    and "\<And>j. j < m \<Longrightarrow> name j \<in> set used"
proof -
  define m where "m = (LEAST m. name m \<notin> set used)"
  obtain k where k: "k \<le> length used" "name k \<notin> set used" using free_exists by blast
  have m: "name m \<notin> set used" "m \<le> k" unfolding m_def using k(2) by (rule LeastI, intro Least_le)
  have l: "name j \<in> set used" if "j < m" for j using not_less_Least that unfolding m_def by blast
  show thesis using that [of m] search [of m used 0] m k(1) l by simp
qed

end

lemma nth_name_inj: "inj (nth_name label)"
proof (rule injI)
  fix j k assume e: "nth_name label j = nth_name label k"
  show "j = k"
    using e by (cases j; cases k) (auto simp: nth_name_def makeName_def dec_inj)
qed

lemma nth_path_inj: "inj (nth_path mangled)"
proof (rule injI)
  fix j k assume e: "nth_path mangled j = nth_path mangled k"
  show "j = k"
    using e by (cases j; cases k) (auto simp: nth_path_def dec_inj)
qed

interpretation wallet_names: fresh_names "nth_name label" for label
  by unfold_locales (rule nth_name_inj)

interpretation object_paths: fresh_names "nth_path mangled" for mangled
  by unfold_locales (rule nth_path_inj)

lemma nth_name_toName: "nth_name label k = toName \<lparr>ul_label = label, ul_copyId = int k - 1\<rparr>"
  by (cases k) (simp_all add: nth_name_def toName_def makeName_def)

text \<open>The label for a new wallet is always found: its name is the label itself or a numbered name of it, is
  not the name of a wallet, and the names with lower numbers are taken.\<close>

theorem new_wallet_name:
  "\<exists>k \<le> length (KSecretD_wallets h s). makeUniqueCollectionLabel h label s = Ret \<lparr>ul_label = label, ul_copyId = int k - 1\<rparr> \<and>
     nth_name label k \<notin> set (KSecretD_wallets h s) \<and>
     nth_name label k = toName \<lparr>ul_label = label, ul_copyId = int k - 1\<rparr> \<and>
     nth_name label ` {0..<k} \<subseteq> set (KSecretD_wallets h s)"
proof -
  obtain k where "first_free (nth_name label) (KSecretD_wallets h s) 0 = Some k"
    "nth_name label k \<notin> set (KSecretD_wallets h s)" "k \<le> length (KSecretD_wallets h s)"
    "\<And>j. j < k \<Longrightarrow> nth_name label j \<in> set (KSecretD_wallets h s)"
    using wallet_names.found by metis
  then show ?thesis by (intro exI [of _ k]) (auto simp: makeUniqueCollectionLabel_def nth_name_toName)
qed

text \<open>The characters of an element of a D-Bus object path.\<close>

definition path_unit :: "16 word \<Rightarrow> bool" where
  "path_unit c \<longleftrightarrow> 65 \<le> c \<and> c \<le> 90 \<or> 97 \<le> c \<and> c \<le> 122 \<or> 48 \<le> c \<and> c \<le> 57 \<or> c = 95"

lemma path_char_unit: "path_char c \<Longrightarrow> path_unit (ucast c)"
proof -
  have "unat c < 256" using unsigned_less [of c] by simp
  then have "unat (ucast c :: 16 word) = unat c" by (simp add: unsigned_ucast_eq take_bit_nat_eq_self)
  then show "path_char c \<Longrightarrow> path_unit (ucast c)"
    by (auto simp: path_char_def path_unit_def word_le_nat_alt)
qed

lemma hex_digit_unit:
  assumes "unat c < 16"
  shows "path_unit (hex_digit c)"
proof -
  have "\<forall>x \<in> set (map of_char ''0123456789abcdef'' :: qstring). path_unit x"
    by (simp add: path_unit_def)
  then show ?thesis unfolding hex_digit_def using assms by (elim bspec) (rule nth_mem, simp)
qed

lemma mangled_units: "c \<in> set (mangleInvalidObjectPathChars h str) \<Longrightarrow> path_unit c"
proof -
  have d: "unat (drop_bit 4 b) < 16" "unat (b AND 0x0F) < 16" for b :: byte
  proof -
    have "unat (drop_bit 4 b) = unat b div 16" by (simp add: drop_bit_eq_div unat_div)
    moreover have "unat b < 256" using unsigned_less [of b] by simp
    ultimately show "unat (drop_bit 4 b) < 16" by simp
    have "b AND 0x0F \<le> 0x0F" by (rule word_and_le1)
    then show "unat (b AND 0x0F) < 16" by (simp add: word_le_nat_alt)
  qed
  have "path_unit underscore" by (simp add: path_unit_def underscore_def)
  then show "c \<in> set (mangleInvalidObjectPathChars h str) \<Longrightarrow> path_unit c"
    using d hex_digit_unit path_char_unit by (auto simp: mangleInvalidObjectPathChars_def split: if_splits)
qed

lemma dec_units: "c \<in> set (dec n) \<Longrightarrow> path_unit c"
  using dec_digits [of c n] by (simp add: is_digit_def path_unit_def)

text \<open>C34. The object path for a wallet is always found, no collection has it, and its last element consists of
  the characters D-Bus allows, whatever the name of the wallet is.\<close>

theorem new_object_path:
  "\<exists>p. makeUniqueObjectPath h collections walletName = Ret p \<and> p \<notin> set collections \<and>
     take (length FDO_SECRETS_COLLECTION_PATH) p = FDO_SECRETS_COLLECTION_PATH \<and>
     set (drop (length FDO_SECRETS_COLLECTION_PATH) p) \<subseteq> {c. path_unit c}"
proof -
  let ?m = "FDO_SECRETS_COLLECTION_PATH @ mangleInvalidObjectPathChars h walletName"
  obtain k where k: "first_free (nth_path ?m) collections 0 = Some k" "nth_path ?m k \<notin> set collections"
    using object_paths.found by metis
  have "\<exists>r. nth_path ?m k = FDO_SECRETS_COLLECTION_PATH @ r \<and> set r \<subseteq> {c. path_unit c}"
    using mangled_units [of _ h walletName] dec_units by (cases k) (auto simp: nth_path_def)
  with k show ?thesis by (auto simp: makeUniqueObjectPath_def)
qed

text \<open>Two names can have the same mangled form; the number that is appended then keeps the paths apart.\<close>

lemma mangling_collides:
  "mangleInvalidObjectPathChars example_host (qs ''/'') =
     mangleInvalidObjectPathChars example_host (qs ([CHR 0x5F] @ ''2f''))"
  by (simp add: mangleInvalidObjectPathChars_def example_host_def qs_def path_char_def hex_digit_def underscore_def)

end
