(* ===== verification/FdoAttributes.thy ===== *)
theory FdoAttributes
  imports FdoLabel KSecretDOpen "HOL-Library.Countable"
begin

text \<open>
  The attributes of the items of a wallet (src/runtime/ksecretd/kwalletfreedesktopattributes.cpp):
  a JSON object in a file beside the wallet, with one member per entry, named by folder and key, and
  two members for the times of the collection.  A JSON object is an ordered dictionary, as in Qt.

  What the Secret Service side uses of its surroundings, beyond the daemon's host, is the record
  \<open>desktop\<close>: JSON texts, the directory of the files, the key exchange and the ciphers of a session.
  The time is an argument of the operations, and is the same throughout one of them.
\<close>

section \<open>Surroundings\<close>

datatype json = JNull | JBool bool | JNumber bytes | JString qstring | JArray "json list"
  | JObject "(qstring \<times> json) list"

type_synonym json_object = "(qstring, json) qmap"
type_synonym str_map = "(qstring, qstring) qmap"

record desktop =
  d_host :: host
  d_fromJson :: "bytes \<Rightarrow> json_object option"       \<comment> \<open>None: no JSON text, or its root is not an object\<close>
  d_toJson :: "json_object \<Rightarrow> bytes"
  d_dataLocation :: qstring
  d_dhGroup :: bool                                \<comment> \<open>the group of the key exchange can be created\<close>
  d_publicKey :: bytes                             \<comment> \<open>of the daemon's key pair\<close>
  d_deriveKey :: "bytes \<Rightarrow> bytes"                  \<comment> \<open>common secret with the value of a public key\<close>
  d_hkdf :: "bytes \<Rightarrow> bytes"
  d_initVector :: bytes
  d_aesEncode :: "bytes \<Rightarrow> bytes \<Rightarrow> bytes \<Rightarrow> bytes option"   \<comment> \<open>key, initial vector\<close>
  d_aesDecode :: "bytes \<Rightarrow> bytes \<Rightarrow> bytes \<Rightarrow> bytes option"
  d_validUtf8 :: "bytes \<Rightarrow> bool"
  d_jsonMap :: "bytes \<Rightarrow> str_map"                  \<comment> \<open>the members of a JSON text as texts\<close>
  d_mapJson :: "str_map \<Rightarrow> bytes"
  d_streamMap :: "str_map \<Rightarrow> bytes"
  d_unstreamMap :: "bytes \<Rightarrow> str_map"

definition json_laws :: "desktop \<Rightarrow> bool" where
  "json_laws d \<longleftrightarrow> (\<forall>p. qmap_wf p \<longrightarrow> d_fromJson d (d_toJson d p) = Some p)"

section \<open>Values\<close>

definition isObject :: "json \<Rightarrow> bool" where
  "isObject j = (case j of JObject m \<Rightarrow> True | _ \<Rightarrow> False)"

definition toObject :: "json \<Rightarrow> json_object" where
  "toObject j = (case j of JObject m \<Rightarrow> m | _ \<Rightarrow> [])"

definition json_isString :: "json \<Rightarrow> bool" where
  "json_isString j = (case j of JString m \<Rightarrow> True | _ \<Rightarrow> False)"

definition json_toString :: "json \<Rightarrow> qstring" where
  "json_toString j = (case j of JString m \<Rightarrow> m | _ \<Rightarrow> [])"

definition is_space :: "16 word \<Rightarrow> bool" where
  "is_space c \<longleftrightarrow> 9 \<le> c \<and> c \<le> 13 \<or> c = 32"

text \<open>\<open>QString::toULongLong\<close>\<close>

definition toULongLong :: "qstring \<Rightarrow> nat option" where
  "toULongLong s =
     (let t = dropWhile is_space (rev (dropWhile is_space (rev s)));
          t = (if t \<noteq> [] \<and> hd t = of_char CHR ''+'' then tl t else t)
      in if t \<noteq> [] \<and> (\<forall>c \<in> set t. is_digit c) \<and> dec_value t < 2 ^ 64 then Some (dec_value t) else None)"

definition FDO_KEY_MODIFIED :: qstring where "FDO_KEY_MODIFIED = qs ([CHR 0x24] @ ''fdo'' @ [CHR 0x5F] @ ''modified'')"
definition FDO_KEY_CREATED :: qstring where "FDO_KEY_CREATED = qs ([CHR 0x24] @ ''fdo'' @ [CHR 0x5F] @ ''created'')"
definition FDO_KEY_MIME :: qstring
  where "FDO_KEY_MIME = qs ([CHR 0x24] @ ''fdo'' @ [CHR 0x5F] @ ''mime'' @ [CHR 0x5F] @ ''type'')"
definition FDO_KEY_XDG_SCHEMA :: qstring where "FDO_KEY_XDG_SCHEMA = qs ''xdg:schema''"

definition ATTRIBUTES :: qstring where "ATTRIBUTES = qs ''attributes''"

section \<open>The attributes of a collection\<close>

record attributes =
  at_path :: qstring
  at_params :: json_object

definition attributes_path :: "desktop \<Rightarrow> qstring \<Rightarrow> qstring" where
  "attributes_path d name = d_dataLocation d @ qs ''/kwalletd/'' @ name @ qs ([CHR 0x5F] @ ''attributes.json'')"

definition Attributes_read :: "desktop \<Rightarrow> files \<Rightarrow> attributes \<Rightarrow> attributes" where
  "Attributes_read d fs a =
     (case fs (at_path a) of
        None \<Rightarrow> a
      | Some text \<Rightarrow>
          if \<not> mayRead (d_host d) (at_path a) then a
          else (case d_fromJson d text of Some p \<Rightarrow> a\<lparr>at_params := p\<rparr> | None \<Rightarrow> a\<lparr>at_params := []\<rparr>))"

definition Attributes_new :: "desktop \<Rightarrow> nat \<Rightarrow> qstring \<Rightarrow> files \<Rightarrow> attributes" where
  "Attributes_new d now walletName fs =
     (let a = Attributes_read d fs \<lparr>at_path = attributes_path d (encodeWalletName (d_host d) walletName), at_params = []\<rparr> in
      if \<not> qmap_contains (at_params a) FDO_KEY_CREATED
      then a\<lparr>at_params := qmap_insert FDO_KEY_MODIFIED (JString (dec now)) (qmap_insert FDO_KEY_CREATED (JString (dec now)) (at_params a))\<rparr>
      else a)"

definition updateLastModified :: "nat \<Rightarrow> attributes \<Rightarrow> attributes" where
  "updateLastModified now a = a\<lparr>at_params := qmap_insert FDO_KEY_MODIFIED (JString (dec now)) (at_params a)\<rparr>"

definition Attributes_write :: "desktop \<Rightarrow> nat \<Rightarrow> attributes \<times> files \<Rightarrow> attributes \<times> files" where
  "Attributes_write d now af =
     (let (a, fs) = af; h = d_host d in
      if at_params a = [] then (a, remove_file h (at_path a) fs)
      else
        let a = updateLastModified now a in
        if \<not> mayWrite h (at_path a) then (a, fs)
        else
          let (ok, sf) = sf_write h (d_toJson d (at_params a)) \<lparr>sf_path = at_path a, sf_data = []\<rparr> in
          if \<not> ok then (a, fs) else (a, snd (sf_commit h sf fs)))"

definition entryLocationToStr :: "entry_location \<Rightarrow> qstring" where
  "entryLocationToStr l = el_folder l @ slash # el_key l"

definition splitToEntryLocation :: "qstring \<Rightarrow> entry_location" where
  "splitToEntryLocation str =
     (let slashPos = indexOf slash str in
      if slashPos = -1 then \<lparr>el_folder = [], el_key = []\<rparr>
      else \<lparr>el_folder = take (nat slashPos) str, el_key = drop (nat slashPos + 1) str\<rparr>)"

text \<open>The member of an entry, when it is an object.\<close>

definition params_of :: "attributes \<Rightarrow> entry_location \<Rightarrow> json_object option" where
  "params_of a l =
     (case qmap_find (at_params a) (entryLocationToStr l) of
        None \<Rightarrow> None | Some j \<Rightarrow> if isObject j then Some (toObject j) else None)"

definition Attributes_remove :: "desktop \<Rightarrow> nat \<Rightarrow> entry_location \<Rightarrow> attributes \<times> files \<Rightarrow> attributes \<times> files" where
  "Attributes_remove d now l af =
     (let (a, fs) = af; a = a\<lparr>at_params := qmap_remove (entryLocationToStr l) (at_params a)\<rparr> in
      if at_params a = [] then (a, remove_file (d_host d) (at_path a) fs) else Attributes_write d now (a, fs))"

definition Attributes_deleteFile :: "desktop \<Rightarrow> attributes \<Rightarrow> files \<Rightarrow> files" where
  "Attributes_deleteFile d a fs = remove_file (d_host d) (at_path a) fs"

definition Attributes_renameLabel ::
    "desktop \<Rightarrow> nat \<Rightarrow> entry_location \<Rightarrow> entry_location \<Rightarrow> attributes \<times> files \<Rightarrow> attributes \<times> files" where
  "Attributes_renameLabel d now oldLocation newLocation af =
     (let (a, fs) = af in
      case params_of a oldLocation of
        None \<Rightarrow> (a, fs)
      | Some obj \<Rightarrow>
          let p = qmap_remove (entryLocationToStr oldLocation) (at_params a) in
          Attributes_write d now (a\<lparr>at_params := qmap_insert (entryLocationToStr newLocation) (JObject obj) p\<rparr>, fs))"

definition Attributes_renameWallet :: "desktop \<Rightarrow> qstring \<Rightarrow> attributes \<times> files \<Rightarrow> attributes \<times> files" where
  "Attributes_renameWallet d newName af =
     (let (a, fs) = af; newPath = attributes_path d newName
      in (a\<lparr>at_path := newPath\<rparr>, rename_file (d_host d) (at_path a) newPath fs))"

definition Attributes_newItem :: "entry_location \<Rightarrow> attributes \<Rightarrow> attributes" where
  "Attributes_newItem l a = a\<lparr>at_params := qmap_insert (entryLocationToStr l) (JObject []) (at_params a)\<rparr>"

text \<open>Every wanted attribute is there with its value.\<close>

definition attribs_match :: "json_object \<Rightarrow> str_map \<Rightarrow> bool" where
  "attribs_match itemAttribs wanted =
     list_all (\<lambda>(k, v). case qmap_find itemAttribs k of
       None \<Rightarrow> False | Some j \<Rightarrow> json_isString j \<and> json_toString j = v) wanted"

definition matchAttributes :: "attributes \<Rightarrow> str_map \<Rightarrow> entry_location list" where
  "matchAttributes a wanted =
     concat (map (\<lambda>(key, j).
       if \<not> isObject j then []
       else case qmap_find (toObject j) ATTRIBUTES of
         None \<Rightarrow> []
       | Some ja \<Rightarrow> if isObject ja \<and> attribs_match (toObject ja) wanted then [splitToEntryLocation key] else [])
     (at_params a))"

definition Attributes_setAttributes ::
    "desktop \<Rightarrow> nat \<Rightarrow> entry_location \<Rightarrow> str_map \<Rightarrow> attributes \<times> files \<Rightarrow> attributes \<times> files" where
  "Attributes_setAttributes d now l attributes af =
     (let (a, fs) = af; jsonAttrs = fold (\<lambda>(k, v) m. qmap_insert k (JString v) m) attributes [] in
      case params_of a l of
        None \<Rightarrow> (a, fs)
      | Some params \<Rightarrow>
          let params = (if jsonAttrs = [] then qmap_remove ATTRIBUTES params else qmap_insert ATTRIBUTES (JObject jsonAttrs) params)
          in Attributes_write d now (a\<lparr>at_params := qmap_insert (entryLocationToStr l) (JObject params) (at_params a)\<rparr>, fs))"

definition Attributes_getAttributes :: "attributes \<Rightarrow> entry_location \<Rightarrow> str_map" where
  "Attributes_getAttributes a l =
     (case params_of a l of
        None \<Rightarrow> []
      | Some jsonParams \<Rightarrow>
          (case qmap_find jsonParams ATTRIBUTES of
             None \<Rightarrow> []
           | Some ja \<Rightarrow>
               if \<not> isObject ja then []
               else fold (\<lambda>(k, j) m. if json_isString j then qmap_insert k (json_toString j) m else m) (toObject ja) []))"

definition getStringParam :: "attributes \<Rightarrow> entry_location \<Rightarrow> qstring \<Rightarrow> qstring \<Rightarrow> qstring" where
  "getStringParam a l paramName defaultParam =
     (case params_of a l of
        None \<Rightarrow> defaultParam
      | Some params \<Rightarrow>
          (case qmap_find params paramName of
             None \<Rightarrow> defaultParam | Some j \<Rightarrow> if json_isString j then json_toString j else defaultParam))"

definition getULongLongParam :: "attributes \<Rightarrow> entry_location \<Rightarrow> qstring \<Rightarrow> nat \<Rightarrow> nat" where
  "getULongLongParam a l paramName defaultParam =
     (case toULongLong (getStringParam a l paramName (dec defaultParam)) of Some n \<Rightarrow> n | None \<Rightarrow> defaultParam)"

definition setParam :: "desktop \<Rightarrow> nat \<Rightarrow> entry_location \<Rightarrow> qstring \<Rightarrow> qstring \<Rightarrow> attributes \<times> files \<Rightarrow> attributes \<times> files" where
  "setParam d now l paramName param af =
     (let (a, fs) = af in
      case params_of a l of
        None \<Rightarrow> (a, fs)
      | Some params \<Rightarrow>
          Attributes_write d now (a\<lparr>at_params := qmap_insert (entryLocationToStr l)
            (JObject (qmap_insert paramName (JString param) params)) (at_params a)\<rparr>, fs))"

definition setParamNumber :: "desktop \<Rightarrow> nat \<Rightarrow> entry_location \<Rightarrow> qstring \<Rightarrow> nat \<Rightarrow> attributes \<times> files \<Rightarrow> attributes \<times> files" where
  "setParamNumber d now l paramName param = setParam d now l paramName (dec param)"

definition listItems :: "attributes \<Rightarrow> entry_location list" where
  "listItems a = map (\<lambda>(key, j). splitToEntryLocation key) (filter (\<lambda>(key, j). isObject j) (at_params a))"

definition time_param :: "attributes \<Rightarrow> qstring \<Rightarrow> nat" where
  "time_param a key =
     (case qmap_find (at_params a) key of
        None \<Rightarrow> 0
      | Some j \<Rightarrow> (case toULongLong (json_toString j) of None \<Rightarrow> 0 | Some n \<Rightarrow> n))"

definition lastModified :: "attributes \<Rightarrow> nat" where
  "lastModified a = time_param a FDO_KEY_MODIFIED"

definition birthTime :: "attributes \<Rightarrow> nat" where
  "birthTime a = time_param a FDO_KEY_CREATED"

section \<open>Entries and their members\<close>

lemma split_str: "slash \<notin> set (el_folder l) \<Longrightarrow> splitToEntryLocation (entryLocationToStr l) = l"
  by (simp add: splitToEntryLocation_def entryLocationToStr_def indexOf_append Let_def)

text \<open>The name of a member gives its entry back exactly when the folder has no slash; otherwise the folder is
  cut at its first slash.\<close>

theorem member_name_roundtrip: "splitToEntryLocation (entryLocationToStr l) = l \<longleftrightarrow> slash \<notin> set (el_folder l)"
proof (cases "slash \<in> set (el_folder l)")
  case True
  then obtain us vs where f: "el_folder l = us @ slash # vs" "slash \<notin> set us" using split_list_first by metis
  then have "el_folder (splitToEntryLocation (entryLocationToStr l)) = us"
    by (simp add: splitToEntryLocation_def entryLocationToStr_def indexOf_append Let_def)
  with f True show ?thesis by (metis append_Nil2 list.simps(3) same_append_eq)
qed (simp add: split_str)

lemma params_of_insert:
  "qmap_wf (at_params a) \<Longrightarrow> params_of (a\<lparr>at_params := qmap_insert (entryLocationToStr l) (JObject p) (at_params a)\<rparr>) l' =
     (if entryLocationToStr l' = entryLocationToStr l then Some p else params_of a l')"
  by (simp add: params_of_def qmap_simps isObject_def toObject_def)

lemma modified_key: "FDO_KEY_MODIFIED \<noteq> entryLocationToStr l"
proof
  assume e: "FDO_KEY_MODIFIED = entryLocationToStr l"
  have "slash \<in> set (entryLocationToStr l)" by (simp add: entryLocationToStr_def)
  then show False unfolding e [symmetric] by (simp add: FDO_KEY_MODIFIED_def qs_def slash_def)
qed

lemma params_of_modified [simp]: "qmap_wf (at_params a) \<Longrightarrow> params_of (updateLastModified now a) l = params_of a l"
  using modified_key [of l] by (simp add: params_of_def updateLastModified_def qmap_simps)

lemma write_params:
  assumes "qmap_wf (at_params a)"
  shows "params_of (fst (Attributes_write d now (a, fs))) l = params_of a l"
    and "qmap_wf (at_params (fst (Attributes_write d now (a, fs))))"
    and "at_path (fst (Attributes_write d now (a, fs))) = at_path a"
proof -
  have "fst (Attributes_write d now (a, fs)) = (if at_params a = [] then a else updateLastModified now a)"
    by (auto simp: Attributes_write_def Let_def split: prod.split)
  with assms show "params_of (fst (Attributes_write d now (a, fs))) l = params_of a l" by simp
  show "qmap_wf (at_params (fst (Attributes_write d now (a, fs))))" "at_path (fst (Attributes_write d now (a, fs))) = at_path a"
    using assms \<open>fst _ = _\<close> by (auto simp: updateLastModified_def qmap_simps)
qed

text \<open>The attributes of an item as JSON and back.\<close>

definition json_attribs :: "str_map \<Rightarrow> json_object" where
  "json_attribs m = fold (\<lambda>(k, v) m. qmap_insert k (JString v) m) m []"

lemma sorted_fold:
  assumes "qmap_wf (xs @ m)"
  shows "fold (\<lambda>(k, v) m. qmap_insert k (g v) m) m (map (\<lambda>(k, v). (k, g v)) xs) = map (\<lambda>(k, v). (k, g v)) (xs @ m)"
  using assms
proof (induction m arbitrary: xs)
  case (Cons x m)
  obtain k v where x: "x = (k, v)" by (cases x)
  have "\<forall>k' \<in> set (map fst (map (\<lambda>(k, v). (k, g v)) xs)). k' < k"
    using Cons.prems by (auto simp: qmap_wf_def x sorted_wrt_append)
  then have "qmap_insert k (g v) (map (\<lambda>(k, v). (k, g v)) xs) = map (\<lambda>(k, v). (k, g v)) (xs @ [x])"
    by (simp add: qmap_insert_last x)
  with Cons.IH [of "xs @ [x]"] Cons.prems show ?case by (simp add: x)
qed simp

lemma json_attribs_map: "qmap_wf m \<Longrightarrow> json_attribs m = map (\<lambda>(k, v). (k, JString v)) m"
  using sorted_fold [of "[]" m JString] by (simp add: json_attribs_def)

lemma attribs_back:
  assumes "qmap_wf m"
  shows "fold (\<lambda>(k, j) m. if json_isString j then qmap_insert k (json_toString j) m else m) (json_attribs m) [] = m"
proof -
  have "fold (\<lambda>(k, j) m. if json_isString j then qmap_insert k (json_toString j) m else m) (map (\<lambda>(k, v). (k, JString v)) m) xs =
      fold (\<lambda>(k, v) m. qmap_insert k v m) m xs" for xs
    by (induction m arbitrary: xs) (auto simp: json_isString_def json_toString_def)
  moreover have "map (\<lambda>(k, v). (k, v)) xs = xs" for xs :: str_map by (induction xs) auto
  ultimately show ?thesis using sorted_fold [of "[]" m "\<lambda>v. v"] assms by (simp add: json_attribs_map)
qed

lemma json_attribs_Nil: "qmap_wf m \<Longrightarrow> json_attribs m = [] \<longleftrightarrow> m = []"
  by (simp add: json_attribs_map)

text \<open>A member whose attributes are an ordered dictionary.\<close>

definition attribs_wf :: "attributes \<Rightarrow> bool" where
  "attribs_wf a \<longleftrightarrow> qmap_wf (at_params a) \<and> (\<forall>(k, j) \<in> set (at_params a). qmap_wf (toObject j))"

lemma params_of_wf: "attribs_wf a \<Longrightarrow> params_of a l = Some p \<Longrightarrow> qmap_wf p"
  by (auto simp: attribs_wf_def params_of_def qmap_find_def dest!: map_of_SomeD split: option.splits if_splits)

text \<open>What attributes are set for an item is what is read for it, and nothing changes for the other items; an
  item that has no member keeps none.\<close>

theorem attributes_read_back:
  assumes "attribs_wf a" and "qmap_wf m"
  shows "Attributes_getAttributes (fst (Attributes_setAttributes d now l m (a, fs))) l' =
    (if entryLocationToStr l' = entryLocationToStr l \<and> params_of a l \<noteq> None then m else Attributes_getAttributes a l')"
proof (cases "params_of a l")
  case None
  then show ?thesis by (simp add: Attributes_setAttributes_def)
next
  case (Some p)
  define a' where "a' = fst (Attributes_setAttributes d now l m (a, fs))"
  let ?p = "if json_attribs m = [] then qmap_remove ATTRIBUTES p else qmap_insert ATTRIBUTES (JObject (json_attribs m)) p"
  have wf: "qmap_wf (at_params a)" "qmap_wf p" using assms(1) params_of_wf [OF assms(1) Some] by (simp_all add: attribs_wf_def)
  have "a' = fst (Attributes_write d now (a\<lparr>at_params := qmap_insert (entryLocationToStr l) (JObject ?p) (at_params a)\<rparr>, fs))"
    unfolding a'_def Attributes_setAttributes_def json_attribs_def by (simp add: Some)
  then have p: "params_of a' l' = (if entryLocationToStr l' = entryLocationToStr l then Some ?p else params_of a l')"
    using wf(1) write_params(1) params_of_insert by (simp add: qmap_simps del: if_split)
  show ?thesis
  proof (cases "entryLocationToStr l' = entryLocationToStr l")
    case True
    have "qmap_find ?p ATTRIBUTES = (if m = [] then None else Some (JObject (json_attribs m)))"
      using wf(2) json_attribs_Nil [OF assms(2)] by (simp add: qmap_simps)
    with True p Some show ?thesis
      using attribs_back [OF assms(2)] unfolding a'_def [symmetric]
      by (simp add: Attributes_getAttributes_def isObject_def toObject_def del: if_split split: if_split)
  next
    case False
    with p show ?thesis unfolding a'_def [symmetric] by (simp add: Attributes_getAttributes_def)
  qed
qed

definition example_attributes :: attributes where
  "example_attributes = \<lparr>at_path = [], at_params = [(qs ''f/k'', JObject [])]\<rparr>"

definition example_desktop :: desktop where
  "example_desktop = \<lparr>d_host = example_host, d_fromJson = (\<lambda>_. None), d_toJson = (\<lambda>_. []), d_dataLocation = qs ''/d'',
     d_dhGroup = True, d_publicKey = [1], d_deriveKey = (\<lambda>k. k), d_hkdf = take 16, d_initVector = zeros 16,
     d_aesEncode = (\<lambda>k iv b. Some (rev b)), d_aesDecode = (\<lambda>k iv b. Some (rev b)), d_validUtf8 = (\<lambda>_. True),
     d_jsonMap = (\<lambda>_. []), d_mapJson = (\<lambda>_. []), d_streamMap = (\<lambda>_. []), d_unstreamMap = (\<lambda>_. [])\<rparr>"

definition loc_fk :: entry_location where
  "loc_fk = \<lparr>el_folder = qs ''f'', el_key = qs ''k''\<rparr>"

lemma example_member: "attribs_wf example_attributes" "params_of example_attributes loc_fk = Some []"
  by (simp_all add: example_attributes_def attribs_wf_def qmap_wf_def toObject_def params_of_def loc_fk_def
      entryLocationToStr_def slash_def qs_def qmap_find_def isObject_def)

theorem attributes_read_back_witness:
  "Attributes_getAttributes (fst (Attributes_setAttributes example_desktop 5 loc_fk [(qs ''user'', qs ''me'')]
     (example_attributes, Map.empty))) loc_fk = [(qs ''user'', qs ''me'')]"
proof -
  have m: "qmap_wf [(qs ''user'', qs ''me'')]" by (simp add: qmap_wf_def)
  show ?thesis unfolding attributes_read_back [OF example_member(1) m] by (simp add: example_member(2))
qed

section \<open>Searching\<close>

lemma match_iff:
  assumes "qmap_wf (at_params a)"
  shows "l \<in> set (matchAttributes a q) \<longleftrightarrow> (\<exists>key p ja. qmap_find (at_params a) key = Some (JObject p) \<and>
    qmap_find p ATTRIBUTES = Some (JObject ja) \<and> attribs_match ja q \<and> l = splitToEntryLocation key)"
proof -
  have m: "(key, j) \<in> set (at_params a) \<longleftrightarrow> qmap_find (at_params a) key = Some j" for key j
    using assms by (simp add: qmap_find_def qmap_wf_def strict_sorted_iff)
  have o: "isObject j \<longleftrightarrow> (\<exists>p. j = JObject p)" for j by (cases j) (simp_all add: isObject_def)
  have t: "toObject (JObject p) = p" for p by (simp add: toObject_def)
  have "l \<in> set (matchAttributes a q) \<longleftrightarrow> (\<exists>key j. (key, j) \<in> set (at_params a) \<and> isObject j \<and>
      (\<exists>ja. qmap_find (toObject j) ATTRIBUTES = Some ja \<and> isObject ja \<and> attribs_match (toObject ja) q \<and> l = splitToEntryLocation key))"
    unfolding matchAttributes_def by (fastforce split: option.splits if_splits)
  also have "\<dots> \<longleftrightarrow> (\<exists>key p ja. qmap_find (at_params a) key = Some (JObject p) \<and>
      qmap_find p ATTRIBUTES = Some (JObject ja) \<and> attribs_match ja q \<and> l = splitToEntryLocation key)"
    unfolding m o by (metis t)
  finally show ?thesis .
qed

lemma attribs_match_json:
  assumes "qmap_wf m"
  shows "attribs_match (json_attribs m) q \<longleftrightarrow> (\<forall>(k, v) \<in> set q. qmap_find m k = Some v)"
proof -
  have f: "qmap_find (json_attribs m) k = map_option JString (qmap_find m k)" for k
    using map_of_map [of JString m] assms by (simp add: json_attribs_map qmap_find_def)
  show ?thesis
    unfolding attribs_match_def list_all_iff f by (auto simp: json_isString_def json_toString_def split: option.splits)
qed

lemma split_key:
  assumes "l = splitToEntryLocation key" and "el_key l \<noteq> []"
  shows "key = entryLocationToStr l"
proof (cases "slash \<in> set key")
  case True
  then obtain us vs where k: "key = us @ slash # vs" "slash \<notin> set us" using split_list_first by metis
  then have "splitToEntryLocation key = \<lparr>el_folder = us, el_key = vs\<rparr>"
    by (simp add: splitToEntryLocation_def indexOf_append Let_def)
  with assms(1) k show ?thesis by (simp add: entryLocationToStr_def)
next
  case False
  with assms show ?thesis by (simp add: splitToEntryLocation_def indexOf_def)
qed

text \<open>After attributes are set for an item, a search finds the item exactly when it wants some of them and
  nothing else; an item without attributes is never found, not even by a search that wants nothing.\<close>

theorem search_finds_supersets:
  assumes "attribs_wf a" and "qmap_wf m" and "params_of a l \<noteq> None" and "slash \<notin> set (el_folder l)" and "el_key l \<noteq> []"
  shows "l \<in> set (matchAttributes (fst (Attributes_setAttributes d now l m (a, fs))) q) \<longleftrightarrow>
    m \<noteq> [] \<and> (\<forall>(k, v) \<in> set q. qmap_find m k = Some v)"
proof -
  obtain p where p: "params_of a l = Some p" using assms(3) by auto
  let ?p = "if json_attribs m = [] then qmap_remove ATTRIBUTES p else qmap_insert ATTRIBUTES (JObject (json_attribs m)) p"
  let ?a = "a\<lparr>at_params := qmap_insert (entryLocationToStr l) (JObject ?p) (at_params a)\<rparr>"
  have wf: "qmap_wf (at_params a)" "qmap_wf p" using assms(1) params_of_wf [OF assms(1) p] by (simp_all add: attribs_wf_def)
  have s: "fst (Attributes_setAttributes d now l m (a, fs)) = fst (Attributes_write d now (?a, fs))"
    unfolding Attributes_setAttributes_def json_attribs_def by (simp add: p)
  define a' where "a' = fst (Attributes_write d now (?a, fs))"
  have a': "qmap_wf (at_params a')" "params_of a' l = Some ?p"
    unfolding a'_def using write_params(1,2) [of ?a d now fs] params_of_insert [OF wf(1), of l ?p l] wf(1)
    by (simp_all add: qmap_simps)
  have key: "key = entryLocationToStr l" if "qmap_find (at_params a') key = Some (JObject x)" "l = splitToEntryLocation key" for key x
    by (rule split_key [OF that(2) assms(5)])
  have "qmap_find (at_params a') (entryLocationToStr l) = Some (JObject ?p)"
    using a'(2) by (auto simp: params_of_def isObject_def toObject_def split: option.splits json.splits if_splits)
  then have "l \<in> set (matchAttributes a' q) \<longleftrightarrow> (\<exists>ja. qmap_find ?p ATTRIBUTES = Some (JObject ja) \<and> attribs_match ja q)"
    unfolding match_iff [OF a'(1)] using key split_str [OF assms(4)] by (metis json.inject(5) option.inject)
  also have "\<dots> \<longleftrightarrow> m \<noteq> [] \<and> attribs_match (json_attribs m) q"
    using wf(2) json_attribs_Nil [OF assms(2)] by (simp add: qmap_simps)
  finally show ?thesis unfolding s a'_def attribs_match_json [OF assms(2)] .
qed

theorem search_finds_supersets_witness:
  "loc_fk \<in> set (matchAttributes (fst (Attributes_setAttributes example_desktop 5 loc_fk
     [(qs ''server'', qs ''s''), (qs ''user'', qs ''me'')] (example_attributes, Map.empty))) [(qs ''user'', qs ''me'')])"
proof -
  have m: "qmap_wf [(qs ''server'', qs ''s''), (qs ''user'', qs ''me'')]"
    by (simp add: qmap_wf_def qs_def)
  have "slash \<notin> set (el_folder loc_fk)" "el_key loc_fk \<noteq> []" by (simp_all add: loc_fk_def slash_def qs_def)
  with search_finds_supersets [OF example_member(1) m] example_member(2) show ?thesis
    by (simp add: qmap_find_def qs_def)
qed

section \<open>The file\<close>

text \<open>What an object has that finds no file.\<close>

definition fresh_params :: "nat \<Rightarrow> json_object" where
  "fresh_params now = qmap_insert FDO_KEY_MODIFIED (JString (dec now)) (qmap_insert FDO_KEY_CREATED (JString (dec now)) [])"

lemma new_no_file:
  "fs (attributes_path d (encodeWalletName (d_host d) name)) = None \<Longrightarrow> at_params (Attributes_new d now name fs) = fresh_params now"
  by (simp add: Attributes_new_def Attributes_read_def fresh_params_def qmap_contains_def Let_def)

lemma new_file:
  assumes "json_laws d" and "qmap_wf m" and "qmap_contains m FDO_KEY_CREATED" and "path = attributes_path d (encodeWalletName (d_host d) name)"
    and "fs path = Some (d_toJson d m)" and "mayRead (d_host d) path"
  shows "Attributes_new d now name fs = \<lparr>at_path = path, at_params = m\<rparr>"
  using assms by (simp add: Attributes_new_def Attributes_read_def json_laws_def)

lemma attributes_path_inj: "attributes_path d x = attributes_path d y \<longleftrightarrow> x = y"
  by (simp add: attributes_path_def)

text \<open>C32. What is written is what a new object for the same wallet reads, when the file system allows the write.  After the
  wallet is renamed, to a name for which there is no file yet, a new object for the new name reads the same attributes if the
  file system renames the file and the new name needs no encoding; otherwise it finds no file and starts with none of
  them.  No other file is changed.\<close>

theorem attributes_survive:
  assumes "json_laws d" and "qmap_wf (at_params a)" and "qmap_contains (at_params a) FDO_KEY_CREATED"
    and "at_path a = attributes_path d (encodeWalletName (d_host d) name)"
    and "mayWrite (d_host d) (at_path a)" "\<forall>n. fullWrite (d_host d) (at_path a) n" "mayCommit (d_host d) (at_path a)"
    and "\<forall>path. mayRead (d_host d) path" and "encodeWalletName (d_host d) newName \<noteq> encodeWalletName (d_host d) name"
    and "fs (attributes_path d newName) = None" and "fs (attributes_path d (encodeWalletName (d_host d) newName)) = None"
  shows "\<exists>a' fs' a'' fs''. Attributes_write d now (a, fs) = (a', fs') \<and> Attributes_new d now' name fs' = a' \<and>
     Attributes_renameWallet d newName (a', fs') = (a'', fs'') \<and>
     at_params (Attributes_new d now'' newName fs'') =
       (if mayRename (d_host d) (at_path a) (attributes_path d newName) \<and> encodeWalletName (d_host d) newName = newName
        then at_params a' else fresh_params now'') \<and>
     (\<forall>path. path \<noteq> at_path a \<longrightarrow> path \<noteq> attributes_path d newName \<longrightarrow> fs'' path = fs path)"
proof -
  let ?a = "updateLastModified now a" and ?h = "d_host d"
  let ?fs = "fs(at_path a \<mapsto> d_toJson d (at_params ?a))" and ?new = "attributes_path d newName" and ?enc = "encodeWalletName (d_host d) newName"
  let ?fs' = "rename_file ?h (at_path a) ?new ?fs"
  have ne: "at_params a \<noteq> []" using assms(3) by (auto simp: qmap_contains_def)
  have wf: "qmap_wf (at_params ?a)" "qmap_contains (at_params ?a) FDO_KEY_CREATED" "at_path ?a = at_path a"
    using assms(2,3) by (simp_all add: updateLastModified_def qmap_simps)
  have w: "Attributes_write d now (a, fs) = (?a, ?fs)"
    using assms(5-7) ne wf(3) by (simp add: Attributes_write_def sf_write_def sf_commit_def Let_def)
  have n: "Attributes_new d now' name ?fs = ?a"
    using new_file [OF assms(1) wf(1,2) assms(4), of ?fs now'] assms(8) wf(3) by simp
  have r: "Attributes_renameWallet d newName (?a, ?fs) = (?a\<lparr>at_path := ?new\<rparr>, ?fs')"
    by (simp add: Attributes_renameWallet_def wf(3) Let_def)
  have old: "attributes_path d ?enc \<noteq> at_path a" unfolding assms(4) attributes_path_inj by (rule assms(9))
  have p: "at_params (Attributes_new d now'' newName ?fs') =
      (if mayRename ?h (at_path a) ?new \<and> ?enc = newName then at_params ?a else fresh_params now'')"
  proof (cases "mayRename ?h (at_path a) ?new \<and> ?enc = newName")
    case True
    then have "?fs' (attributes_path d ?enc) = Some (d_toJson d (at_params ?a))" using old assms(10) by (simp add: rename_file_def)
    from new_file [where fs = ?fs' and d = d and m = "at_params ?a", OF assms(1) wf(1,2) refl this] True assms(8) show ?thesis by simp
  next
    case False
    then have "attributes_path d ?enc = ?new \<Longrightarrow> \<not> mayRename ?h (at_path a) ?new" by (simp add: attributes_path_inj)
    then have "?fs' (attributes_path d ?enc) = None" using old assms(11) by (auto simp: rename_file_def)
    from new_no_file [of ?fs' d newName, OF this] False show ?thesis by auto
  qed
  have "path \<noteq> at_path a \<Longrightarrow> path \<noteq> ?new \<Longrightarrow> ?fs' path = fs path" for path by (simp add: rename_file_def)
  with w n r p show ?thesis by blast
qed

text \<open>JSON values can be numbered, so texts can stand for them: a desktop on which the laws hold.\<close>

instance word :: (len) countable
  by (rule countable_classI [of unat]) (rule word_unat_eq_iff [THEN iffD2])

instance json :: countable
  by countable_datatype

definition json_desktop :: desktop where
  "json_desktop = example_desktop\<lparr>d_toJson := \<lambda>p. zeros (to_nat p), d_fromJson := \<lambda>b. Some (from_nat (length b))\<rparr>"

lemma json_laws_example: "json_laws json_desktop"
  by (simp add: json_laws_def json_desktop_def)

theorem attributes_survive_witness:
  "\<exists>a' fs' a'' fs''. Attributes_write json_desktop 5 (Attributes_new json_desktop 3 (qs ''w'') Map.empty, Map.empty) = (a', fs') \<and>
     Attributes_new json_desktop 9 (qs ''w'') fs' = a' \<and> Attributes_renameWallet json_desktop (qs ''v'') (a', fs') = (a'', fs'') \<and>
     at_params (Attributes_new json_desktop 9 (qs ''v'') fs'') = at_params a'"
proof -
  let ?a = "Attributes_new json_desktop 3 (qs ''w'') Map.empty" and ?h = "d_host json_desktop"
  have p: "at_params ?a = fresh_params 3" "at_path ?a = attributes_path json_desktop (encodeWalletName ?h (qs ''w''))"
    by (simp_all add: Attributes_new_def Attributes_read_def qmap_contains_def fresh_params_def Let_def)
  have wf: "qmap_wf (qmap_insert FDO_KEY_CREATED (JString (dec 3)) [])" by (intro qmap_wf_insert qmap_wf_Nil)
  have a: "qmap_wf (at_params ?a)" unfolding p(1) fresh_params_def by (rule qmap_wf_insert [OF wf])
  have c: "qmap_contains (at_params ?a) FDO_KEY_CREATED"
    unfolding p(1) fresh_params_def qmap_contains_insert [OF wf] by (simp add: qmap_contains_def qmap_find_def)
  have h: "mayWrite ?h q" "\<forall>n. fullWrite ?h q n" "mayCommit ?h q" "\<forall>q. mayRead ?h q" "mayRename ?h q q'" for q q'
    by (simp_all add: json_desktop_def example_desktop_def example_host_def)
  have e: "encodeWalletName ?h (qs ''v'') = qs ''v''" "encodeWalletName ?h (qs ''v'') \<noteq> encodeWalletName ?h (qs ''w'')"
    by (simp_all add: json_desktop_def example_desktop_def example_host_def encodeWalletName_def qs_def)
  from attributes_survive [OF json_laws_example a c p(2) h(1-4) e(2), of Map.empty 5 9 9] h(5) e(1) show ?thesis by auto
qed

end
