(* ===== verification/FdoSession.thy ===== *)
theory FdoSession
  imports FdoAttributes
begin

text \<open>
  Secrets on the bus and the sessions that encode them: src/runtime/ksecretd/kwalletfreedesktopsession.cpp
  and the parts of kwalletfreedesktopservice.cpp that create and use sessions.  The arithmetic of
  the key exchange, the key derivation and AES are of QCA, parameters in the record \<open>desktop\<close>.  A message
  is known by the bus name of its sender.

  The locale \<open>session_algorithm\<close> is the contract of the virtual class \<open>KWalletFreedesktopSessionAlgorithm\<close>:
  what was encoded for a client is decoded again.  Both algorithms satisfy it, the second one where
  the cipher does.
\<close>

section \<open>Secrets and algorithms\<close>

record fdo_secret =
  se_session :: qstring
  se_parameters :: bytes
  se_value :: bytes
  se_mimeType :: qstring

definition FDO_DH_PUBLIC_KEY_SIZE :: nat where
  "FDO_DH_PUBLIC_KEY_SIZE = 128"

definition normalizeUnsignedDhValue :: "bytes \<Rightarrow> bytes" where
  "normalizeUnsignedDhValue v =
     (if length v < FDO_DH_PUBLIC_KEY_SIZE then zeros (FDO_DH_PUBLIC_KEY_SIZE - length v) @ v
      else if FDO_DH_PUBLIC_KEY_SIZE < length v then drop (length v - FDO_DH_PUBLIC_KEY_SIZE) v
      else v)"

text \<open>The two's complement bytes handed to the big integer: a leading zero keeps the value unsigned.\<close>

definition decodeUnsignedDhValue :: "bytes \<Rightarrow> bytes" where
  "decodeUnsignedDhValue v =
     (let normalized = normalizeUnsignedDhValue v in
      if normalized \<noteq> [] \<and> (hd normalized AND 0x80) \<noteq> 0 then 0 # normalized else normalized)"

datatype algorithm = AlgorithmPlain | AlgorithmDhAes bytes bytes   \<comment> \<open>public key, symmetric key\<close>

definition negotiationOutput :: "algorithm \<Rightarrow> bytes" where
  "negotiationOutput a = (case a of AlgorithmPlain \<Rightarrow> [] | AlgorithmDhAes y k \<Rightarrow> normalizeUnsignedDhValue y)"

definition algorithm_encrypt :: "desktop \<Rightarrow> algorithm \<Rightarrow> fdo_secret \<Rightarrow> bool \<times> fdo_secret" where
  "algorithm_encrypt d a s =
     (case a of
        AlgorithmPlain \<Rightarrow> (True, s\<lparr>se_parameters := []\<rparr>)
      | AlgorithmDhAes y key \<Rightarrow>
          (case d_aesEncode d key (d_initVector d) (se_value s) of
             Some r \<Rightarrow> (True, s\<lparr>se_value := r, se_parameters := d_initVector d\<rparr>)
           | None \<Rightarrow> (False, s)))"

definition algorithm_decrypt :: "desktop \<Rightarrow> algorithm \<Rightarrow> fdo_secret \<Rightarrow> bool \<times> fdo_secret" where
  "algorithm_decrypt d a s =
     (case a of
        AlgorithmPlain \<Rightarrow> (True, s)
      | AlgorithmDhAes y key \<Rightarrow>
          (case d_aesDecode d key (se_parameters s) (se_value s) of
             Some r \<Rightarrow> (True, s\<lparr>se_value := r\<rparr>) | None \<Rightarrow> (False, s)))"

definition deriveSymmetricKeyFromDhSecret :: "desktop \<Rightarrow> bytes \<Rightarrow> bytes" where
  "deriveSymmetricKeyFromDhSecret d commonSecret = d_hkdf d (normalizeUnsignedDhValue commonSecret)"

definition createSessionAlgorithmDhAes :: "desktop \<Rightarrow> bytes \<Rightarrow> algorithm option" where
  "createSessionAlgorithmDhAes d clientKey =
     (if \<not> d_dhGroup d then None
      else
        let commonSecret = d_deriveKey d (decodeUnsignedDhValue clientKey)
        in Some (AlgorithmDhAes (d_publicKey d) (deriveSymmetricKeyFromDhSecret d commonSecret)))"

section \<open>Sessions\<close>

record session =
  ss_algorithm :: algorithm
  ss_path :: qstring
  ss_busName :: qstring

type_synonym sessions = "(qstring, session) qmap"

definition FDO_SECRETS_SESSION_PATH :: qstring where
  "FDO_SECRETS_SESSION_PATH = FDO_SECRETS_SERVICE_OBJECT @ qs ''/session/''"

definition Session_encrypt :: "desktop \<Rightarrow> qstring \<Rightarrow> session \<Rightarrow> fdo_secret \<Rightarrow> bool \<times> fdo_secret" where
  "Session_encrypt d sender ses s =
     (if sender \<noteq> ss_busName ses then (False, s) else algorithm_encrypt d (ss_algorithm ses) s)"

definition Session_decrypt :: "desktop \<Rightarrow> qstring \<Rightarrow> session \<Rightarrow> fdo_secret \<Rightarrow> bool \<times> fdo_secret" where
  "Session_decrypt d sender ses s =
     (if sender \<noteq> ss_busName ses then (False, s) else algorithm_decrypt d (ss_algorithm ses) s)"

definition desecret :: "desktop \<Rightarrow> qstring \<Rightarrow> sessions \<Rightarrow> fdo_secret \<Rightarrow> bool \<times> fdo_secret" where
  "desecret d sender ses s =
     (case qmap_find ses (se_session s) of None \<Rightarrow> (False, s) | Some x \<Rightarrow> Session_decrypt d sender x s)"

definition ensecret :: "desktop \<Rightarrow> qstring \<Rightarrow> sessions \<Rightarrow> fdo_secret \<Rightarrow> bool \<times> fdo_secret" where
  "ensecret d sender ses s =
     (case qmap_find ses (se_session s) of None \<Rightarrow> (False, s) | Some x \<Rightarrow> Session_encrypt d sender x s)"

text \<open>The sessions and the counter that numbers them.\<close>

definition createSession :: "algorithm \<Rightarrow> qstring \<Rightarrow> sessions \<times> nat \<Rightarrow> qstring \<times> sessions \<times> nat" where
  "createSession a sender sc =
     (let (ses, n) = sc; n = (n + 1) mod 2 ^ 64; sessionPath = FDO_SECRETS_SESSION_PATH @ dec n
      in (sessionPath, qmap_insert sessionPath \<lparr>ss_algorithm = a, ss_path = sessionPath, ss_busName = sender\<rparr> ses, n))"

definition deleteSession :: "qstring \<Rightarrow> sessions \<Rightarrow> sessions" where
  "deleteSession path ses = qmap_remove path ses"

text \<open>Only the client that opened a session can close it; a client that leaves the bus loses its sessions.\<close>

definition Session_Close :: "qstring \<Rightarrow> session \<Rightarrow> sessions \<Rightarrow> bool \<times> sessions" where
  "Session_Close sender x ses =
     (if sender \<noteq> ss_busName x then (False, ses) else (True, deleteSession (ss_path x) ses))"

definition slotServiceOwnerChanged :: "session \<Rightarrow> sessions \<Rightarrow> sessions" where
  "slotServiceOwnerChanged x ses = deleteSession (ss_path x) ses"

text \<open>\<open>OpenSession\<close>: the path of the session and the output of the negotiation, or an error.  The input
  is None when it is not a byte array.\<close>

definition OpenSession :: "desktop \<Rightarrow> qstring \<Rightarrow> qstring \<Rightarrow> bytes option \<Rightarrow> sessions \<times> nat
    \<Rightarrow> (string + qstring \<times> bytes) \<times> sessions \<times> nat" where
  "OpenSession d sender algorithm input sc =
     (let finish = (\<lambda>a. let (path, sc') = createSession a sender sc in (Inr (path, negotiationOutput a), sc')) in
      if algorithm = qs ''plain'' then finish AlgorithmPlain
      else if algorithm = qs ''dh-ietf1024-sha256-aes128-cbc-pkcs7'' then
        (case input of
           None \<Rightarrow> (Inl ''InvalidArgs'', sc)
         | Some key \<Rightarrow>
             (case createSessionAlgorithmDhAes d key of None \<Rightarrow> (Inl ''InvalidArgs'', sc) | Some a \<Rightarrow> finish a))
      else (Inl ''NotSupported'', sc))"

section \<open>The contract of an algorithm\<close>

definition aes_laws :: "desktop \<Rightarrow> bool" where
  "aes_laws d \<longleftrightarrow> (\<forall>k iv v r. d_aesEncode d k iv v = Some r \<longrightarrow> d_aesDecode d k iv r = Some v)"

locale session_algorithm =
  fixes enc :: "'s \<Rightarrow> bool \<times> 's" and dec :: "'s \<Rightarrow> bool \<times> 's" and val :: "'s \<Rightarrow> bytes"
  assumes decodes: "enc s = (True, s') \<Longrightarrow> \<exists>t. dec s' = (True, t) \<and> val t = val s"

lemma plain_decodes:
  "algorithm_encrypt d AlgorithmPlain s = (True, s') \<Longrightarrow> \<exists>t. algorithm_decrypt d AlgorithmPlain s' = (True, t) \<and> se_value t = se_value s"
  by (auto simp: algorithm_encrypt_def algorithm_decrypt_def)

interpretation plain: session_algorithm "algorithm_encrypt d AlgorithmPlain" "algorithm_decrypt d AlgorithmPlain" se_value for d
  by unfold_locales (rule plain_decodes)

lemma aes_decodes:
  assumes "aes_laws d" and "algorithm_encrypt d a s = (True, s')"
  shows "\<exists>t. algorithm_decrypt d a s' = (True, t) \<and> se_value t = se_value s"
proof (cases a)
  case AlgorithmPlain
  with assms(2) plain.decodes show ?thesis by blast
next
  case (AlgorithmDhAes y k)
  with assms show ?thesis
    by (auto simp: algorithm_encrypt_def algorithm_decrypt_def aes_laws_def split: option.splits)
qed

section \<open>Properties\<close>

lemma length_normalized [simp]: "length (normalizeUnsignedDhValue v) = FDO_DH_PUBLIC_KEY_SIZE"
  by (auto simp: normalizeUnsignedDhValue_def FDO_DH_PUBLIC_KEY_SIZE_def)

text \<open>The number a byte string stands for, most significant byte first.\<close>

definition be_value :: "bytes \<Rightarrow> nat" where
  "be_value b = foldl (\<lambda>n c. 256 * n + unat c) 0 b"

lemma be_foldl: "foldl (\<lambda>n c. 256 * n + unat c) n b = n * 256 ^ length b + be_value (b :: bytes)"
proof (induction b arbitrary: n)
  case (Cons c b)
  show ?case using Cons.IH [of "256 * n + unat c"] Cons.IH [of "unat c"] by (simp add: be_value_def algebra_simps)
qed (simp add: be_value_def)

lemma be_value_append: "be_value (a @ b) = be_value a * 256 ^ length b + be_value b"
  by (simp add: be_value_def be_foldl [of "foldl (\<lambda>n c. 256 * n + unat c) 0 a", unfolded be_value_def])

lemma be_value_zeros [simp]: "be_value (zeros n) = 0"
  by (induction n) (simp_all add: be_value_def zeros_def)

lemma be_value_less: "be_value (b :: bytes) < 256 ^ length b"
proof (induction b rule: rev_induct)
  case (snoc c b)
  have "unat c < 256" using unsigned_less [of c] by simp
  moreover have "be_value (b @ [c]) = be_value b * 256 + unat c" by (simp add: be_value_def)
  moreover have "be_value b * 256 + 256 \<le> 256 ^ length b * 256" using snoc by simp
  ultimately show ?case by simp
qed (simp add: be_value_def)

text \<open>A public key on the bus has 128 bytes, whatever the key exchange gives: the value modulo 2 to the 1024;
  what is handed to the big integer has the same value and a clear sign bit.\<close>

theorem public_key_bytes:
  "length (negotiationOutput (AlgorithmDhAes y k)) = 128 \<and> be_value (normalizeUnsignedDhValue v) = be_value v mod 256 ^ 128 \<and>
   be_value (decodeUnsignedDhValue v) = be_value v mod 256 ^ 128 \<and> hd (decodeUnsignedDhValue v) AND 0x80 = 0"
proof -
  have n: "be_value (normalizeUnsignedDhValue v) = be_value v mod 256 ^ 128"
  proof (cases "128 < length v")
    case True
    have "v = take (length v - 128) v @ drop (length v - 128) v" by simp
    then have "be_value v = be_value (take (length v - 128) v) * 256 ^ 128 + be_value (drop (length v - 128) v)"
      using be_value_append [of "take (length v - 128) v" "drop (length v - 128) v"] True by simp
    moreover have "be_value (drop (length v - 128) v) < 256 ^ 128"
      using be_value_less [of "drop (length v - 128) v"] True by simp
    ultimately show ?thesis using True by (simp add: normalizeUnsignedDhValue_def FDO_DH_PUBLIC_KEY_SIZE_def)
  next
    case False
    then have "(256 :: nat) ^ length v \<le> 256 ^ 128" by (intro power_increasing) simp_all
    then have "be_value v < 256 ^ 128" using be_value_less [of v] by (rule less_le_trans [rotated])
    with False show ?thesis by (auto simp: normalizeUnsignedDhValue_def FDO_DH_PUBLIC_KEY_SIZE_def be_value_append)
  qed
  have z: "be_value (0 # b) = be_value b" for b by (simp add: be_value_def)
  have ne: "normalizeUnsignedDhValue v \<noteq> []"
    using length_normalized [of v] by (auto simp: FDO_DH_PUBLIC_KEY_SIZE_def simp del: length_normalized)
  show ?thesis
    using n z ne by (auto simp: negotiationOutput_def FDO_DH_PUBLIC_KEY_SIZE_def decodeUnsignedDhValue_def Let_def)
qed

lemma OpenSession_Inr:
  assumes "OpenSession d sender algorithm input (ses, n) = (Inr (p, out), ses', n')"
  shows "\<exists>a. ses' = qmap_insert p \<lparr>ss_algorithm = a, ss_path = p, ss_busName = sender\<rparr> ses \<and> out = negotiationOutput a \<and>
    n' = (n + 1) mod 2 ^ 64 \<and> p = FDO_SECRETS_SESSION_PATH @ dec n'"
  using assms by (auto simp: OpenSession_def createSession_def Let_def split: if_splits option.splits)

text \<open>C29. Through a session, what the service encodes for the client that opened it is decoded to the same value;
  for every other client both directions are refused and leave the secret alone, and the session
  cannot be closed.\<close>

theorem session_private:
  assumes "aes_laws d" and "qmap_wf ses" and "OpenSession d sender algorithm input (ses, n) = (Inr (p, out), ses', n')"
  shows "(se_session s = p \<and> ensecret d sender ses' s = (True, s') \<longrightarrow>
      (\<exists>t. desecret d sender ses' s' = (True, t) \<and> se_value t = se_value s)) \<and>
    (se_session s = p \<and> other \<noteq> sender \<longrightarrow> ensecret d other ses' s = (False, s) \<and> desecret d other ses' s = (False, s)) \<and>
    (\<exists>x. qmap_find ses' p = Some x \<and> (other \<noteq> sender \<longrightarrow> Session_Close other x ses' = (False, ses')) \<and>
      snd (Session_Close sender x ses') = qmap_remove p ses')"
proof -
  obtain a where a: "ses' = qmap_insert p \<lparr>ss_algorithm = a, ss_path = p, ss_busName = sender\<rparr> ses"
    using OpenSession_Inr [OF assms(3)] by blast
  have f: "qmap_find ses' p = Some \<lparr>ss_algorithm = a, ss_path = p, ss_busName = sender\<rparr>"
    using assms(2) by (simp add: a qmap_simps)
  have k: "se_session s' = se_session s" if "algorithm_encrypt d a s = (True, s')"
    using that by (auto simp: algorithm_encrypt_def split: algorithm.splits option.splits)
  show ?thesis
    using f k aes_decodes [OF assms(1), of a s s']
    by (auto simp: ensecret_def desecret_def Session_encrypt_def Session_decrypt_def Session_Close_def deleteSession_def)
qed

theorem session_private_witness:
  "\<exists>p ses' n'. OpenSession example_desktop (qs ''me'') (qs ''plain'') None ([], 0) = (Inr (p, []), ses', n') \<and>
     ensecret example_desktop (qs ''you'') ses' \<lparr>se_session = p, se_parameters = [], se_value = [1], se_mimeType = []\<rparr> =
       (False, \<lparr>se_session = p, se_parameters = [], se_value = [1], se_mimeType = []\<rparr>)"
proof -
  have a: "aes_laws example_desktop" by (auto simp: aes_laws_def example_desktop_def)
  obtain p ses' n' where o: "OpenSession example_desktop (qs ''me'') (qs ''plain'') None ([], 0) = (Inr (p, []), ses', n')"
    by (simp add: OpenSession_def createSession_def negotiationOutput_def Let_def)
  from session_private [OF a qmap_wf_Nil o, of "\<lparr>se_session = p, se_parameters = [], se_value = [1], se_mimeType = []\<rparr>" _ "qs ''you''"] o
  show ?thesis by (simp add: qs_def)
qed

text \<open>The sessions that can exist after \<open>n\<close> were created.\<close>

definition sessions_upto :: "sessions \<Rightarrow> nat \<Rightarrow> bool" where
  "sessions_upto ses n \<longleftrightarrow> qmap_wf ses \<and> (\<forall>p x. qmap_find ses p = Some x \<longrightarrow>
     ss_path x = p \<and> (\<exists>k. 0 < k \<and> k \<le> n \<and> p = FDO_SECRETS_SESSION_PATH @ dec k))"

text \<open>A new session never takes the place of another one: while fewer than 2 to the 64 were opened, its path is
  new, the other sessions stay as they are, and this holds again afterwards and after sessions are closed.\<close>

theorem sessions_kept_apart:
  assumes "sessions_upto ses n" and "n + 1 < 2 ^ 64"
    and "OpenSession d sender algorithm input (ses, n) = (Inr (p, out), ses', n')"
  shows "qmap_find ses p = None \<and> (\<forall>q. q \<noteq> p \<longrightarrow> qmap_find ses' q = qmap_find ses q) \<and> sessions_upto ses' n' \<and>
    sessions_upto (deleteSession q ses') n'"
proof -
  obtain a where a: "ses' = qmap_insert p \<lparr>ss_algorithm = a, ss_path = p, ss_busName = sender\<rparr> ses"
    and n: "n' = n + 1" "p = FDO_SECRETS_SESSION_PATH @ dec n'"
    using OpenSession_Inr [OF assms(3)] assms(2) by auto
  have wf: "qmap_wf ses" using assms(1) by (simp add: sessions_upto_def)
  have fresh: "qmap_find ses p = None"
  proof (rule ccontr)
    assume "qmap_find ses p \<noteq> None"
    then obtain x k where k: "k \<le> n" "p = FDO_SECRETS_SESSION_PATH @ dec k"
      using assms(1) unfolding sessions_upto_def by blast
    then have "dec k = dec n'" using n(2) by simp
    then show False using k(1) n(1) by (simp add: dec_inj)
  qed
  have f: "qmap_find ses' = (qmap_find ses)(p \<mapsto> \<lparr>ss_algorithm = a, ss_path = p, ss_busName = sender\<rparr>)"
    using wf by (simp add: a qmap_simps)
  have "sessions_upto ses' n'"
    unfolding sessions_upto_def f
  proof (intro conjI allI impI)
    show "qmap_wf ses'" using wf by (simp add: a qmap_simps)
    fix q x assume x: "((qmap_find ses)(p \<mapsto> \<lparr>ss_algorithm = a, ss_path = p, ss_busName = sender\<rparr>)) q = Some x"
    show "ss_path x = q" using x assms(1) by (auto simp: sessions_upto_def split: if_splits)
    show "\<exists>k. 0 < k \<and> k \<le> n' \<and> q = FDO_SECRETS_SESSION_PATH @ dec k"
    proof (cases "q = p")
      case True
      then show ?thesis using n by auto
    next
      case False
      then have "qmap_find ses q = Some x" using x by simp
      then obtain k where "0 < k" "k \<le> n" "q = FDO_SECRETS_SESSION_PATH @ dec k"
        using assms(1) unfolding sessions_upto_def by blast
      then show ?thesis using n(1) by (intro exI [of _ k]) simp
    qed
  qed
  moreover from this have "sessions_upto (deleteSession q ses') n'"
    by (auto simp: sessions_upto_def deleteSession_def qmap_simps)
  ultimately show ?thesis using fresh f by simp
qed

theorem sessions_kept_apart_witness:
  "\<exists>p ses' n'. OpenSession example_desktop (qs ''me'') (qs ''plain'') None ([], 0) = (Inr (p, []), ses', n') \<and>
     sessions_upto ses' n'"
proof -
  have u: "sessions_upto [] 0" by (simp add: sessions_upto_def)
  obtain p ses' n' where o: "OpenSession example_desktop (qs ''me'') (qs ''plain'') None ([], 0) = (Inr (p, []), ses', n')"
    by (simp add: OpenSession_def createSession_def negotiationOutput_def Let_def)
  from sessions_kept_apart [OF u _ o] o show ?thesis by simp
qed

end
