(* ===== verification/FdoCollection.thy ===== *)
theory FdoCollection
  imports FdoSession
begin

text \<open>
  Collections and items of the Secret Service: src/runtime/ksecretd/kwalletfreedesktopcollection.cpp
  and the operations of kwalletfreedesktopitem.cpp that stay within their collection.  A collection
  stands for a wallet, an item for an entry of it; the collection keeps the items by object path, and
  the attributes that the wallet's entries cannot hold.

  An operation works on the record \<open>cstate\<close>: the collection, the daemon behind it, and the log of the
  messages sent to the bus.  An error reply is a left value with the name of the error; what was done
  before it stays done.  The arguments \<open>d\<close> and \<open>t\<close> are the surroundings and the time in seconds.
  An item scheduled for deletion is gone at once; its last signal is not in the log.
\<close>

section \<open>State\<close>

record item =
  it_label :: fdo_unique_label

record collection =
  co_path :: qstring
  co_handle :: int
  co_label :: fdo_unique_label
  co_attribs :: attributes
  co_items :: "(qstring, item) qmap"
  co_counter :: nat

datatype message = ItemCreated qstring | ItemChanged qstring | ItemDeleted qstring
  | CollectionCreated qstring | CollectionChanged qstring | CollectionDeleted qstring
  | PropertiesChanged qstring "qstring list" | RegisterObject qstring | UnregisterObject qstring
  | Completed qstring qstring bool "qstring list" | ErrorReply string

record cstate =
  cs_coll :: collection
  cs_daemon :: ksecretd
  cs_log :: "message list"

definition say :: "message \<Rightarrow> cstate \<Rightarrow> cstate" where
  "say m s = s\<lparr>cs_log := cs_log s @ [m]\<rparr>"

text \<open>A call of the daemon, and one of the attributes with their file.\<close>

definition call :: "(ksecretd \<Rightarrow> 'a \<times> ksecretd) \<Rightarrow> cstate \<Rightarrow> 'a \<times> cstate" where
  "call f s = (let (r, k) = f (cs_daemon s) in (r, s\<lparr>cs_daemon := k\<rparr>))"

definition on_attribs :: "(attributes \<times> files \<Rightarrow> attributes \<times> files) \<Rightarrow> cstate \<Rightarrow> cstate" where
  "on_attribs f s =
     (let (a, fs) = f (co_attribs (cs_coll s), ks_files (cs_daemon s))
      in s\<lparr>cs_coll := (cs_coll s)\<lparr>co_attribs := a\<rparr>, cs_daemon := (cs_daemon s)\<lparr>ks_files := fs\<rparr>\<rparr>)"

section \<open>The items of a collection\<close>

definition co_walletName :: "collection \<Rightarrow> qstring" where
  "co_walletName c = toName (co_label c)"

definition co_listItems :: "collection \<Rightarrow> qstring list" where
  "co_listItems c = qmap_keys (co_items c)"

definition co_created :: "collection \<Rightarrow> nat" where
  "co_created c = birthTime (co_attribs c)"

definition co_modified :: "collection \<Rightarrow> nat" where
  "co_modified c = lastModified (co_attribs c)"

definition nextItemPath :: "collection \<Rightarrow> qstring \<times> collection" where
  "nextItemPath c = (co_path c @ slash # dec (co_counter c), c\<lparr>co_counter := (co_counter c + 1) mod 2 ^ 64\<rparr>)"

text \<open>The first item with the label of the entry.\<close>

definition findItemByEntryLocation :: "collection \<Rightarrow> entry_location \<Rightarrow> qstring option" where
  "findItemByEntryLocation c l =
     map_option fst (List.find (\<lambda>(p, i). it_label i = fromEntryLocation l) (co_items c))"

definition getItem :: "collection \<Rightarrow> qstring \<Rightarrow> item option" where
  "getItem c path = qmap_find (co_items c) path"

definition Collection_SearchItems :: "collection \<Rightarrow> str_map \<Rightarrow> qstring list" where
  "Collection_SearchItems c attributes =
     List.map_filter (findItemByEntryLocation c) (matchAttributes (co_attribs c) attributes)"

definition Collection_locked :: "cstate \<Rightarrow> bool \<times> cstate" where
  "Collection_locked s =
     (if co_handle (cs_coll s) < 0 then (True, s)
      else let (r, s) = call (KSecretD_isOpen (co_handle (cs_coll s))) s in (\<not> r, s))"

section \<open>Signals\<close>

definition onItemCreated :: "nat \<Rightarrow> qstring \<Rightarrow> cstate \<Rightarrow> cstate" where
  "onItemCreated t p s =
     (let s = say (ItemCreated p) (on_attribs (apfst (updateLastModified t)) s); c = cs_coll s
      in say (PropertiesChanged (co_path c) (co_listItems c)) s)"

definition onItemChanged :: "nat \<Rightarrow> qstring \<Rightarrow> cstate \<Rightarrow> cstate" where
  "onItemChanged t p s = say (ItemChanged p) (on_attribs (apfst (updateLastModified t)) s)"

text \<open>\<open>setDeleted\<close> of the item takes its attributes out of the file.\<close>

definition onItemDeleted :: "desktop \<Rightarrow> nat \<Rightarrow> qstring \<Rightarrow> cstate \<Rightarrow> cstate" where
  "onItemDeleted d t p s =
     (let s = on_attribs (apfst (updateLastModified t)) s in
      case getItem (cs_coll s) p of
        None \<Rightarrow> s
      | Some i \<Rightarrow>
          let s = on_attribs (Attributes_remove d t (fromUniqueLabel (it_label i))) s;
              c = cs_coll s; c = c\<lparr>co_items := qmap_remove p (co_items c)\<rparr>
          in say (PropertiesChanged (co_path c) (co_listItems c)) (say (ItemDeleted p) (s\<lparr>cs_coll := c\<rparr>)))"

section \<open>New items\<close>

text \<open>An item that had the path is destroyed first.\<close>

definition pushNewItem :: "nat \<Rightarrow> fdo_unique_label \<Rightarrow> qstring \<Rightarrow> cstate \<Rightarrow> cstate" where
  "pushNewItem t uniqLabel path s =
     (let c = cs_coll s;
          old = getItem c path;
          s = s\<lparr>cs_coll := c\<lparr>co_items := qmap_remove path (co_items c)\<rparr>\<rparr>;
          s = (if old = None then s
               else onItemChanged t path (say (UnregisterObject path) (say (PropertiesChanged path []) s)));
          s = say (RegisterObject path) s;
          c = cs_coll s
      in s\<lparr>cs_coll := c\<lparr>co_items := qmap_insert path \<lparr>it_label = uniqLabel\<rparr> (co_items c)\<rparr>\<rparr>)"

partial_function (option) unused_name :: "int \<Rightarrow> qstring \<Rightarrow> qstring \<Rightarrow> nat \<Rightarrow> qstring \<Rightarrow> ksecretd \<Rightarrow> (qstring \<times> ksecretd) option" where
  "unused_name handle dir name suffix resultName k =
     (let (r, k) = KSecretD_hasEntry handle dir resultName k in
      if r then unused_name handle dir name (suffix + 1) (makeName name (int suffix)) k else Some (resultName, k))"

text \<open>The folder and the name a label asks for.\<close>

definition label_place :: "qstring \<Rightarrow> qstring \<times> qstring" where
  "label_place label =
     (let slashPos = indexOf slash label in
      if slashPos = -1 \<or> slashPos = int (length label) - 1 then (FDO_SECRETS_DEFAULT_DIR, label)
      else (take (nat slashPos) label, drop (nat slashPos + 1) label))"

definition makeUniqueEntryLocation :: "qstring \<Rightarrow> cstate \<Rightarrow> (entry_location \<times> cstate) run" where
  "makeUniqueEntryLocation label s =
     (let (dir, name) = label_place label in
      case unused_name (co_handle (cs_coll s)) dir name 0 name (cs_daemon s) of
        None \<Rightarrow> Diverge
      | Some (resultName, k) \<Rightarrow> Ret (\<lparr>el_folder = dir, el_key = resultName\<rparr>, s\<lparr>cs_daemon := k\<rparr>))"

definition makeUniqueItemLabel :: "qstring \<Rightarrow> cstate \<Rightarrow> (fdo_unique_label \<times> cstate) run" where
  "makeUniqueItemLabel label s = run_bind (makeUniqueEntryLocation label s) (\<lambda>(l, s). Ret (fromEntryLocation l, s))"

section \<open>Following the wallet\<close>

definition type_text :: "entry_type \<Rightarrow> qstring" where
  "type_text et = (if et = Stream then qs ''binary'' else if et = Map then qs ''map'' else qs ''plaintext'')"

text \<open>An entry without an item gets one, with attributes made from its place in the wallet.\<close>

definition adopt_entry :: "desktop \<Rightarrow> nat \<Rightarrow> qstring \<Rightarrow> qstring \<Rightarrow> cstate \<Rightarrow> cstate run" where
  "adopt_entry d t folder entry s =
     (let l = \<lparr>el_folder = folder, el_key = entry\<rparr> in
      case findItemByEntryLocation (cs_coll s) l of
        Some p \<Rightarrow> Ret (say (ItemChanged p) s)
      | None \<Rightarrow>
          run_bind (KSecretD_entryType (co_handle (cs_coll s)) folder entry (cs_daemon s)) (\<lambda>(et, k).
            let attr = qmap_insert (qs ''type'') (type_text et)
                         (qmap_insert (qs ''user'') entry (qmap_insert (qs ''server'') folder []));
                s = on_attribs (apfst (Attributes_newItem l)) (s\<lparr>cs_daemon := k\<rparr>);
                s = on_attribs (setParamNumber d t l FDO_KEY_CREATED t) s;
                s = on_attribs (setParamNumber d t l FDO_KEY_MODIFIED t) s;
                s = on_attribs (Attributes_setAttributes d t l attr) s;
                (p, c) = nextItemPath (cs_coll s);
                s = pushNewItem t (fromEntryLocation l) p (s\<lparr>cs_coll := c\<rparr>);
                s = on_attribs (Attributes_setAttributes d t (fromUniqueLabel (fromEntryLocation l)) attr) s
            in Ret (say (ItemCreated p) s)))"

fun adopt_entries :: "desktop \<Rightarrow> nat \<Rightarrow> qstring \<Rightarrow> qstring list \<Rightarrow> cstate \<Rightarrow> cstate run" where
  "adopt_entries d t folder [] s = Ret s"
| "adopt_entries d t folder (e # es) s = run_bind (adopt_entry d t folder e s) (adopt_entries d t folder es)"

fun adopt_folders :: "desktop \<Rightarrow> nat \<Rightarrow> qstring list \<Rightarrow> cstate \<Rightarrow> cstate run" where
  "adopt_folders d t [] s = Ret s"
| "adopt_folders d t (f # fs) s =
     (let (entries, s) = call (KSecretD_entryList (co_handle (cs_coll s)) f) s
      in run_bind (adopt_entries d t f entries s) (adopt_folders d t fs))"

definition onWalletChangeState :: "desktop \<Rightarrow> nat \<Rightarrow> int \<Rightarrow> cstate \<Rightarrow> cstate run" where
  "onWalletChangeState d t handle s =
     (let old = co_handle (cs_coll s); s' = s\<lparr>cs_coll := (cs_coll s)\<lparr>co_handle := handle\<rparr>\<rparr> in
      if handle = old then Ret s
      else if 0 \<le> handle \<and> 0 \<le> old then Ret s'
      else let (folderList, s') = call (KSecretD_folderList handle) s' in adopt_folders d t folderList s')"

text \<open>
  The constructor.  The handle is stored before \<open>onWalletChangeState\<close> is called with it, which therefore
  returns at once; the items come from the file of the attributes, when the handle is -1.
\<close>

fun list_items :: "nat \<Rightarrow> entry_location list \<Rightarrow> cstate \<Rightarrow> cstate" where
  "list_items t [] s = s"
| "list_items t (l # ls) s =
     list_items t ls
       (if findItemByEntryLocation (cs_coll s) l = None
        then let (p, c) = nextItemPath (cs_coll s) in pushNewItem t (fromEntryLocation l) p (s\<lparr>cs_coll := c\<rparr>)
        else s)"

definition Collection_new :: "desktop \<Rightarrow> nat \<Rightarrow> int \<Rightarrow> qstring \<Rightarrow> qstring \<Rightarrow> qstring list \<Rightarrow> ksecretd \<Rightarrow> message list \<Rightarrow> cstate run" where
  "Collection_new d t handle walletName objectPath aliases k log =
     (let c = \<lparr>co_path = objectPath, co_handle = handle, co_label = fromName walletName,
               co_attribs = Attributes_new d t walletName (ks_files k), co_items = [], co_counter = 0\<rparr>;
          s = say (RegisterObject objectPath) \<lparr>cs_coll = c, cs_daemon = k, cs_log = log\<rparr>;
          s = fold (\<lambda>alias. say (RegisterObject (FDO_ALIAS_PATH @ alias))) aliases s
      in run_bind (onWalletChangeState d t handle s) (\<lambda>s.
           Ret (if co_handle (cs_coll s) = -1 then list_items t (listItems (co_attribs (cs_coll s))) s else s)))"

end
