(* ===== verification/FdoItem.thy ===== *)
theory FdoItem
  imports FdoCollection
begin

text \<open>
  Creating, reading and writing items: \<open>CreateItem\<close> of kwalletfreedesktopcollection.cpp and the
  operations of kwalletfreedesktopitem.cpp that call nothing back (both under src/runtime/ksecretd/).
  The sessions are an argument: encoding and decoding a secret changes none of them.

  A property of the D-Bus call is None when it is missing; a label that is there is \<open>Some None\<close> when it
  is not a text.
\<close>

section \<open>Writing a secret\<close>

text \<open>How a value is stored depends on the attributes and the content type.\<close>

definition write_map :: "desktop \<Rightarrow> entry_location \<Rightarrow> bytes \<Rightarrow> cstate \<Rightarrow> cstate" where
  "write_map d l v s =
     snd (call (KSecretD_writeEntry (d_host d) (co_handle (cs_coll s)) (el_folder l) (el_key l)
       (d_streamMap d (d_jsonMap d v)) Map) s)"

definition write_stream :: "desktop \<Rightarrow> entry_location \<Rightarrow> bytes \<Rightarrow> cstate \<Rightarrow> cstate" where
  "write_stream d l v s =
     snd (call (KSecretD_writeEntry (d_host d) (co_handle (cs_coll s)) (el_folder l) (el_key l) v Stream) s)"

definition write_text :: "desktop \<Rightarrow> entry_location \<Rightarrow> bytes \<Rightarrow> cstate \<Rightarrow> (string + unit) \<times> cstate" where
  "write_text d l v s =
     (if \<not> d_validUtf8 d v then (Inl ''InvalidArgs'', say (ErrorReply ''InvalidArgs'') s)
      else (Inr (), snd (call (KSecretD_writePassword (d_host d) (co_handle (cs_coll s)) (el_folder l) (el_key l)
        (fromUtf8 (d_host d) v)) s)))"

definition schema_of :: "str_map \<Rightarrow> qstring" where
  "schema_of attribs =
     (case qmap_find attribs FDO_KEY_XDG_SCHEMA of Some x \<Rightarrow> x | None \<Rightarrow> qs ''org.kde.KWallet.Stream'')"

definition is_text :: "str_map \<Rightarrow> qstring \<Rightarrow> bool" where
  "is_text attribs mimeType \<longleftrightarrow>
     schema_of attribs = qs ''org.kde.KWallet.Password'' \<or> take 5 mimeType = qs ''text/''"

section \<open>CreateItem\<close>

definition store_new :: "desktop \<Rightarrow> entry_location \<Rightarrow> str_map \<Rightarrow> qstring \<Rightarrow> bytes \<Rightarrow> cstate \<Rightarrow> (string + unit) \<times> cstate" where
  "store_new d l attribs mimeType v s =
     (if qmap_find attribs (qs ''type'') = Some (qs ''map'') then (Inr (), write_map d l v s)
      else if is_text attribs mimeType then write_text d l v s
      else (Inr (), write_stream d l v s))"

text \<open>The item that a replacing call writes to: the first match, when it has an item.\<close>

definition replaced :: "collection \<Rightarrow> str_map \<Rightarrow> (qstring \<times> entry_location) option" where
  "replaced c attribs =
     (case matchAttributes (co_attribs c) attribs of
        [] \<Rightarrow> None
      | l # ls \<Rightarrow> map_option (\<lambda>p. (p, l)) (findItemByEntryLocation c l))"

definition new_place :: "qstring \<Rightarrow> cstate \<Rightarrow> ((qstring \<times> entry_location) \<times> cstate) run" where
  "new_place fdoLabel s =
     run_bind (makeUniqueEntryLocation fdoLabel s) (\<lambda>(l, s).
       let (p, c) = nextItemPath (cs_coll s) in Ret ((p, l), s\<lparr>cs_coll := c\<rparr>))"

definition describe_item :: "desktop \<Rightarrow> nat \<Rightarrow> entry_location \<Rightarrow> qstring \<Rightarrow> str_map \<Rightarrow> cstate \<Rightarrow> cstate" where
  "describe_item d t l mimeType attribs s =
     (let s = on_attribs (apfst (Attributes_newItem l)) s;
          s = on_attribs (setParam d t l FDO_KEY_MIME mimeType) s;
          s = on_attribs (setParamNumber d t l FDO_KEY_CREATED t) s;
          s = on_attribs (setParamNumber d t l FDO_KEY_MODIFIED t) s
      in on_attribs (Attributes_setAttributes d t l attribs) s)"

definition fail_with :: "string \<Rightarrow> cstate \<Rightarrow> (string + 'a) \<times> cstate" where
  "fail_with e s = (Inl e, say (ErrorReply e) s)"

definition fill_item :: "desktop \<Rightarrow> nat \<Rightarrow> sessions \<Rightarrow> qstring \<Rightarrow> fdo_secret \<Rightarrow> str_map \<Rightarrow> qstring \<Rightarrow> entry_location \<Rightarrow> cstate
    \<Rightarrow> (string + qstring) \<times> cstate" where
  "fill_item d t ses sender secret attribs p l s =
     (let s = describe_item d t l (se_mimeType secret) attribs s;
          s = pushNewItem t (fromEntryLocation l) p s;
          (ok, decrypted) = desecret d sender ses secret
      in if \<not> ok then fail_with ''InvalidObjectPath'' s
         else case store_new d l attribs (se_mimeType secret) (se_value decrypted) s of
           (Inl e, s) \<Rightarrow> (Inl e, s) | (Inr _, s) \<Rightarrow> (Inr p, onItemCreated t p s))"

definition CreateItem :: "desktop \<Rightarrow> nat \<Rightarrow> sessions \<Rightarrow> qstring \<Rightarrow> qstring option option \<Rightarrow> str_map option \<Rightarrow> fdo_secret \<Rightarrow> bool
    \<Rightarrow> cstate \<Rightarrow> ((string + qstring) \<times> cstate) run" where
  "CreateItem d t ses sender labelFound attribsFound secret replace s =
     (if co_handle (cs_coll s) = -1 then Ret (fail_with ''IsLocked'' s)
      else case labelFound of
        None \<Rightarrow> Ret (fail_with ''InvalidArgs'' s)
      | Some None \<Rightarrow> Ret (fail_with ''InvalidArgs'' s)
      | Some (Some fdoLabel) \<Rightarrow>
          let attribs = (case attribsFound of None \<Rightarrow> [] | Some a \<Rightarrow> a);
              old = (if replace then replaced (cs_coll s) attribs else None)
          in run_bind (case old of
                 Some (p, l) \<Rightarrow> if el_folder l = [] \<and> el_key l = [] then new_place fdoLabel s else Ret ((p, l), s)
               | None \<Rightarrow> new_place fdoLabel s)
               (\<lambda>((p, l), s).
                 if el_key l = [] then Ret (fail_with ''InvalidArgs'' s)
                 else Ret (fill_item d t ses sender secret attribs p l s)))"

section \<open>Items\<close>

definition item_location :: "item \<Rightarrow> entry_location" where
  "item_location i = fromUniqueLabel (it_label i)"

definition Item_attributes :: "item \<Rightarrow> collection \<Rightarrow> str_map" where
  "Item_attributes i c = Attributes_getAttributes (co_attribs c) (item_location i)"

definition Item_setAttributes :: "desktop \<Rightarrow> nat \<Rightarrow> item \<Rightarrow> str_map \<Rightarrow> cstate \<Rightarrow> cstate" where
  "Item_setAttributes d t i v s = on_attribs (Attributes_setAttributes d t (item_location i) v) s"

definition Item_created :: "item \<Rightarrow> collection \<Rightarrow> nat" where
  "Item_created i c = getULongLongParam (co_attribs c) (item_location i) FDO_KEY_CREATED (co_modified c)"

definition Item_modified :: "item \<Rightarrow> collection \<Rightarrow> nat" where
  "Item_modified i c = getULongLongParam (co_attribs c) (item_location i) FDO_KEY_MODIFIED (co_modified c)"

definition Item_type :: "item \<Rightarrow> collection \<Rightarrow> qstring" where
  "Item_type i c =
     (case qmap_find (Item_attributes i c) FDO_KEY_XDG_SCHEMA of
        Some x \<Rightarrow> x | None \<Rightarrow> qs ''org.freedesktop.Secret.Generic'')"

definition Item_setType :: "desktop \<Rightarrow> nat \<Rightarrow> item \<Rightarrow> qstring \<Rightarrow> cstate \<Rightarrow> cstate" where
  "Item_setType d t i v s =
     on_attribs (Attributes_setAttributes d t (item_location i)
       (qmap_insert FDO_KEY_XDG_SCHEMA v (Item_attributes i (cs_coll s)))) s"

definition read_secret :: "desktop \<Rightarrow> entry_location \<Rightarrow> cstate \<Rightarrow> (bytes \<times> cstate) run" where
  "read_secret d l s =
     (let h = d_host d; handle = co_handle (cs_coll s) in
      run_bind (KSecretD_entryType handle (el_folder l) (el_key l) (cs_daemon s)) (\<lambda>(et, k).
        let s = s\<lparr>cs_daemon := k\<rparr> in
        if et = Password then
          let (password, s) = call (KSecretD_readPassword h handle (el_folder l) (el_key l)) s in Ret (toUtf8 h password, s)
        else if et = Map then
          let (b, s) = call (KSecretD_readMap handle (el_folder l) (el_key l)) s in Ret (d_mapJson d (d_unstreamMap d b), s)
        else Ret (call (KSecretD_readEntry handle (el_folder l) (el_key l)) s)))"

text \<open>A secret that cannot be encoded is an error reply, in place of the secret returned.\<close>

definition getSecret :: "desktop \<Rightarrow> sessions \<Rightarrow> qstring \<Rightarrow> item \<Rightarrow> qstring \<Rightarrow> cstate \<Rightarrow> ((string + fdo_secret) \<times> cstate) run" where
  "getSecret d ses sender i sessionPath s =
     (let l = item_location i;
          mimeType = getStringParam (co_attribs (cs_coll s)) l FDO_KEY_MIME (qs ''application/octet-stream'')
      in run_bind (read_secret d l s) (\<lambda>(v, s).
           let (ok, secret) = ensecret d sender ses \<lparr>se_session = sessionPath, se_parameters = [], se_value = v, se_mimeType = mimeType\<rparr>
           in if \<not> ok then Ret (fail_with ''UnknownObject'' s) else Ret (Inr secret, s)))"

definition SetSecret :: "desktop \<Rightarrow> nat \<Rightarrow> sessions \<Rightarrow> qstring \<Rightarrow> item \<Rightarrow> fdo_secret \<Rightarrow> cstate \<Rightarrow> (string + unit) \<times> cstate" where
  "SetSecret d t ses sender i secret s =
     (let l = item_location i;
          s = on_attribs (setParam d t l FDO_KEY_MIME (se_mimeType secret)) s;
          s = on_attribs (setParamNumber d t l FDO_KEY_MODIFIED t) s;
          (ok, decrypted) = desecret d sender ses secret
      in if \<not> ok then fail_with ''UnknownObject'' s
         else if is_text (Attributes_getAttributes (co_attribs (cs_coll s)) l) (se_mimeType secret)
         then write_text d l (se_value decrypted) s
         else (Inr (), write_stream d l (se_value decrypted) s))"

end
