(* ===== verification/FdoService.thy ===== *)
theory FdoService
  imports FdoItem
begin

text \<open>
  The service that stands for all wallets (src/runtime/ksecretd/kwalletfreedesktopservice.cpp) and its
  prompts (kwalletfreedesktopprompt.cpp): its state, the aliases of collections, and what it does when
  the daemon reports something.  The calls of clients are in the next theory.

  The service is called back by the daemon in the middle of the daemon's operations.  Here the daemon's
  operation runs first and leaves its events, which \<open>deliver\<close> then passes to the service in their order;
  the daemon does nothing between the events of one operation that the service's reactions would change,
  but its own file operations.  Deleting a wallet calls the service, which calls the daemon again: the
  first argument of \<open>deliver\<close> bounds this nesting, by the number of open wallets, of which each level
  closes one.

  A prompt is deleted when control returns to the event loop; until then it still receives results of
  requests it made, so it stays in the state, marked.  The aliases are the configuration group of that
  name; the alias \<open>default\<close> is the default wallet of the settings.
\<close>

section \<open>State\<close>

record collection_properties =
  cp_label :: qstring
  cp_object :: qstring
  cp_alias :: qstring

datatype prompt_type = PromptOpen | PromptCreate

record prompt =
  pr_type :: prompt_type
  pr_busName :: qstring
  pr_properties :: "collection_properties list"
  pr_transactions :: "nat list"
  pr_byTransaction :: "(nat, collection_properties) qmap"
  pr_result :: "qstring list"
  pr_deleted :: bool

record fdo =
  fd_daemon :: ksecretd
  fd_connected :: bool
  fd_collections :: "(qstring, collection) qmap"
  fd_sessions :: sessions
  fd_sessionCounter :: nat
  fd_prompts :: "(qstring, prompt) qmap"
  fd_promptCounter :: nat
  fd_transactionId :: nat
  fd_futures :: "(nat \<times> qstring \<times> nat) list"   \<comment> \<open>number of the request, prompt, transaction\<close>
  fd_aliases :: str_map
  fd_log :: "message list"
  fd_seen :: "event list"                      \<comment> \<open>all events of the daemon so far\<close>

definition send :: "message \<Rightarrow> fdo \<Rightarrow> fdo" where
  "send m s = s\<lparr>fd_log := fd_log s @ [m]\<rparr>"

definition drain :: "fdo \<Rightarrow> fdo" where
  "drain s = s\<lparr>fd_seen := fd_seen s @ ks_events (fd_daemon s), fd_daemon := (fd_daemon s)\<lparr>ks_events := []\<rparr>\<rparr>"

text \<open>An operation of one collection; a collection that is gone is not called.\<close>

definition on_coll :: "qstring \<Rightarrow> (cstate \<Rightarrow> ('a \<times> cstate) run) \<Rightarrow> fdo \<Rightarrow> ('a \<times> fdo) run" where
  "on_coll path f s =
     (case qmap_find (fd_collections s) path of
        None \<Rightarrow> UB
      | Some c \<Rightarrow>
          run_bind (f \<lparr>cs_coll = c, cs_daemon = fd_daemon s, cs_log = fd_log s\<rparr>) (\<lambda>(r, cs).
            Ret (r, drain (s\<lparr>fd_collections := qmap_insert path (cs_coll cs) (fd_collections s),
              fd_daemon := cs_daemon cs, fd_log := cs_log cs\<rparr>))))"

definition do_coll :: "qstring \<Rightarrow> (cstate \<Rightarrow> cstate run) \<Rightarrow> fdo \<Rightarrow> fdo run" where
  "do_coll path f s = run_bind (on_coll path (\<lambda>cs. run_bind (f cs) (\<lambda>cs. Ret ((), cs))) s) (\<lambda>(_, s). Ret s)"

definition collections :: "fdo \<Rightarrow> qstring list" where
  "collections s = qmap_keys (fd_collections s)"

definition getCollectionByWalletName :: "qstring \<Rightarrow> fdo \<Rightarrow> qstring option" where
  "getCollectionByWalletName name s =
     map_option fst (List.find (\<lambda>(p, c). co_walletName c = name) (fd_collections s))"

definition onCollectionCreated :: "qstring \<Rightarrow> fdo \<Rightarrow> fdo" where
  "onCollectionCreated p s = send (PropertiesChanged FDO_SECRETS_SERVICE_OBJECT (collections s)) (send (CollectionCreated p) s)"

definition onCollectionDeleted :: "desktop \<Rightarrow> qstring \<Rightarrow> fdo \<Rightarrow> fdo" where
  "onCollectionDeleted d p s =
     (case qmap_find (fd_collections s) p of
        None \<Rightarrow> s
      | Some c \<Rightarrow>
          let k = fd_daemon s;
              s = s\<lparr>fd_daemon := k\<lparr>ks_files := Attributes_deleteFile d (co_attribs c) (ks_files k)\<rparr>,
                    fd_collections := qmap_remove p (fd_collections s)\<rparr>
          in send (PropertiesChanged FDO_SECRETS_SERVICE_OBJECT (collections s)) (send (CollectionDeleted p) s))"

section \<open>Aliases\<close>

definition DEFAULT :: qstring where "DEFAULT = qs ''default''"

definition defaultWalletName :: "fdo \<Rightarrow> qstring" where
  "defaultWalletName s = set_defaultWallet (ks_settings (fd_daemon s))"

definition alias_entry :: "qstring \<Rightarrow> fdo \<Rightarrow> qstring" where
  "alias_entry alias s =
     (if alias = DEFAULT then defaultWalletName s
      else case qmap_find (fd_aliases s) alias of Some w \<Rightarrow> w | None \<Rightarrow> [])"

definition updateCollectionAlias :: "qstring \<Rightarrow> qstring \<Rightarrow> fdo \<Rightarrow> fdo" where
  "updateCollectionAlias alias walletName s =
     (if alias = DEFAULT
      then let k = fd_daemon s in s\<lparr>fd_daemon := k\<lparr>ks_settings := (ks_settings k)\<lparr>set_defaultWallet := walletName\<rparr>\<rparr>\<rparr>
      else s\<lparr>fd_aliases := qmap_insert alias walletName (fd_aliases s)\<rparr>)"

definition drop_registration :: "qstring \<Rightarrow> fdo \<Rightarrow> fdo" where
  "drop_registration alias s =
     (let prevWalletName = alias_entry alias s in
      if prevWalletName \<noteq> [] \<and> getCollectionByWalletName prevWalletName s \<noteq> None
      then send (UnregisterObject (FDO_ALIAS_PATH @ alias)) s else s)"

definition createCollectionAlias :: "qstring \<Rightarrow> qstring \<Rightarrow> fdo \<Rightarrow> fdo" where
  "createCollectionAlias alias walletName s =
     (let s = updateCollectionAlias alias walletName (drop_registration alias s) in
      if getCollectionByWalletName walletName s \<noteq> None then send (RegisterObject (FDO_ALIAS_PATH @ alias)) s else s)"

definition createCollectionAliasOf :: "qstring \<Rightarrow> collection \<Rightarrow> fdo \<Rightarrow> fdo" where
  "createCollectionAliasOf alias c s =
     send (RegisterObject (FDO_ALIAS_PATH @ alias)) (updateCollectionAlias alias (co_walletName c) (drop_registration alias s))"

definition removeAlias :: "qstring \<Rightarrow> fdo \<Rightarrow> fdo" where
  "removeAlias alias s =
     (if alias = DEFAULT then s
      else send (UnregisterObject (FDO_ALIAS_PATH @ alias)) (s\<lparr>fd_aliases := qmap_remove alias (fd_aliases s)\<rparr>))"

definition readAliasesFor :: "qstring \<Rightarrow> fdo \<Rightarrow> qstring list" where
  "readAliasesFor walletName s =
     map fst (filter (\<lambda>(a, w). w = walletName) (fd_aliases s)) @
     (if defaultWalletName s = walletName then [DEFAULT] else [])"

definition ReadAlias :: "qstring \<Rightarrow> fdo \<Rightarrow> qstring" where
  "ReadAlias name s =
     (let walletName = alias_entry name s in
      case (if walletName \<noteq> [] then getCollectionByWalletName walletName s else None) of
        Some p \<Rightarrow> p | None \<Rightarrow> [slash])"

definition SetAlias :: "qstring \<Rightarrow> qstring \<Rightarrow> fdo \<Rightarrow> fdo" where
  "SetAlias name collectionPath s =
     (case qmap_find (fd_collections s) collectionPath of
        None \<Rightarrow> s | Some c \<Rightarrow> createCollectionAliasOf name c s)"

section \<open>Opened and closed wallets\<close>

definition add_collection :: "desktop \<Rightarrow> nat \<Rightarrow> int \<Rightarrow> qstring \<Rightarrow> fdo \<Rightarrow> (qstring \<times> fdo) run" where
  "add_collection d t handle walletName s =
     run_bind (makeUniqueObjectPath (d_host d) (collections s) walletName) (\<lambda>p.
       run_bind (Collection_new d t handle walletName p (readAliasesFor walletName s) (fd_daemon s) (fd_log s)) (\<lambda>cs.
         Ret (p, drain (s\<lparr>fd_collections := qmap_insert p (cs_coll cs) (fd_collections s),
           fd_daemon := cs_daemon cs, fd_log := cs_log cs\<rparr>))))"

definition promptUnlockCollection :: "desktop \<Rightarrow> nat \<Rightarrow> qstring \<Rightarrow> int \<Rightarrow> fdo \<Rightarrow> (qstring \<times> fdo) run" where
  "promptUnlockCollection d t walletName handle s =
     (case getCollectionByWalletName walletName s of
        Some p \<Rightarrow>
          run_bind (do_coll p (onWalletChangeState d t handle) s) (\<lambda>s. Ret (p, send (CollectionChanged p) s))
      | None \<Rightarrow>
          run_bind (add_collection d t handle walletName s) (\<lambda>(p, s). Ret (p, onCollectionCreated p s)))"

definition lockCollection :: "desktop \<Rightarrow> nat \<Rightarrow> qstring \<Rightarrow> fdo \<Rightarrow> fdo run" where
  "lockCollection d t name s =
     (case getCollectionByWalletName name s of
        None \<Rightarrow> Ret s
      | Some p \<Rightarrow> run_bind (do_coll p (onWalletChangeState d t (-1)) s) (\<lambda>s. Ret (send (CollectionChanged p) s)))"

definition fdo_walletCreated :: "desktop \<Rightarrow> nat \<Rightarrow> qstring \<Rightarrow> fdo \<Rightarrow> fdo run" where
  "fdo_walletCreated d t walletName s =
     run_bind (add_collection d t (-1) walletName s) (\<lambda>(p, s). Ret (onCollectionCreated p s))"

definition fdo_entryDeleted :: "desktop \<Rightarrow> nat \<Rightarrow> qstring \<Rightarrow> qstring \<Rightarrow> qstring \<Rightarrow> fdo \<Rightarrow> fdo run" where
  "fdo_entryDeleted d t walletName folder entryName s =
     (case getCollectionByWalletName walletName s of
        None \<Rightarrow> Ret s
      | Some p \<Rightarrow>
          do_coll p (\<lambda>cs. case findItemByEntryLocation (cs_coll cs) \<lparr>el_folder = folder, el_key = entryName\<rparr> of
            None \<Rightarrow> Ret cs | Some i \<Rightarrow> Ret (onItemDeleted d t i cs)) s)"

definition setUniqueLabel :: "qstring \<Rightarrow> fdo_unique_label \<Rightarrow> cstate \<Rightarrow> cstate" where
  "setUniqueLabel p u cs =
     (let c = cs_coll cs in cs\<lparr>cs_coll := c\<lparr>co_items := qmap_insert p \<lparr>it_label = u\<rparr> (co_items c)\<rparr>\<rparr>)"

definition fdo_entryRenamed :: "desktop \<Rightarrow> nat \<Rightarrow> qstring \<Rightarrow> qstring \<Rightarrow> qstring \<Rightarrow> qstring \<Rightarrow> fdo \<Rightarrow> fdo run" where
  "fdo_entryRenamed d t walletName folder oldName newName s =
     (case getCollectionByWalletName walletName s of
        None \<Rightarrow> Ret s
      | Some p \<Rightarrow>
          let old = \<lparr>el_folder = folder, el_key = oldName\<rparr>; new = \<lparr>el_folder = folder, el_key = newName\<rparr> in
          do_coll p (\<lambda>cs. case findItemByEntryLocation (cs_coll cs) old of
            None \<Rightarrow> Ret cs
          | Some i \<Rightarrow>
              let cs = on_attribs (Attributes_renameLabel d t old new) cs
              in Ret (onItemChanged t i (setUniqueLabel i (fromEntryLocation new) cs))) s)"

section \<open>Prompts\<close>

definition deletePrompt :: "qstring \<Rightarrow> fdo \<Rightarrow> fdo" where
  "deletePrompt p s =
     (case qmap_find (fd_prompts s) p of
        None \<Rightarrow> s | Some x \<Rightarrow> s\<lparr>fd_prompts := qmap_insert p (x\<lparr>pr_deleted := True\<rparr>) (fd_prompts s)\<rparr>)"

definition Prompt_Dismiss :: "qstring \<Rightarrow> prompt \<Rightarrow> fdo \<Rightarrow> fdo" where
  "Prompt_Dismiss p x s = send (UnregisterObject p) (send (Completed (pr_busName x) p True [[slash]]) s)"

text \<open>A request of the prompt has its result.\<close>

definition complete_prompt :: "qstring \<Rightarrow> fdo \<Rightarrow> fdo" where
  "complete_prompt p s =
     (case qmap_find (fd_prompts s) p of
        None \<Rightarrow> s
      | Some x \<Rightarrow>
          if pr_transactions x \<noteq> [] then s
          else deletePrompt p (send (Completed (pr_busName x) p False
            (if pr_type x = PromptCreate \<and> pr_result x = [] then [[slash]] else pr_result x)) s))"

definition walletAsyncOpened :: "desktop \<Rightarrow> nat \<Rightarrow> qstring \<Rightarrow> nat \<Rightarrow> int \<Rightarrow> fdo \<Rightarrow> fdo run" where
  "walletAsyncOpened d t p tid walletHandle s =
     (case qmap_find (fd_prompts s) p of
        None \<Rightarrow> Ret s
      | Some x \<Rightarrow>
          if tid \<notin> set (pr_transactions x) then Ret (complete_prompt p s)
          else
            (case (if walletHandle < 0 then None else qmap_find (pr_byTransaction x) tid) of
               None \<Rightarrow> Ret (deletePrompt p (Prompt_Dismiss p x s))
             | Some pr \<Rightarrow>
                 run_bind (promptUnlockCollection d t (cp_label pr) walletHandle s) (\<lambda>(path, s).
                   Ret (complete_prompt p (s\<lparr>fd_prompts := qmap_insert p (x\<lparr>pr_transactions := removeAll tid (pr_transactions x),
                     pr_result := pr_result x @ [if cp_object pr = [slash] then path else cp_object pr]\<rparr>) (fd_prompts s)\<rparr>)))))"

text \<open>What waits for a request gets its first result.\<close>

fun resolve :: "desktop \<Rightarrow> nat \<Rightarrow> int \<Rightarrow> (nat \<times> qstring \<times> nat) list \<Rightarrow> fdo \<Rightarrow> fdo run" where
  "resolve d t v [] s = Ret s"
| "resolve d t v ((n, p, tid) # fs) s = run_bind (walletAsyncOpened d t p tid v s) (resolve d t v fs)"

definition promise_result :: "desktop \<Rightarrow> nat \<Rightarrow> nat \<Rightarrow> int \<Rightarrow> fdo \<Rightarrow> fdo run" where
  "promise_result d t n v s =
     resolve d t v (filter (\<lambda>(m, _). m = n) (fd_futures s)) (s\<lparr>fd_futures := filter (\<lambda>(m, _). m \<noteq> n) (fd_futures s)\<rparr>)"

definition event_loop :: "fdo \<Rightarrow> fdo" where
  "event_loop s = s\<lparr>fd_prompts := filter (\<lambda>(p, x). \<not> pr_deleted x) (fd_prompts s)\<rparr>"

section \<open>Deleting a wallet\<close>

text \<open>\<open>react\<close> passes on the events of the daemon.\<close>

definition with_daemon :: "(event list \<Rightarrow> fdo \<Rightarrow> fdo run) \<Rightarrow> (ksecretd \<Rightarrow> ('a \<times> ksecretd) run) \<Rightarrow> fdo \<Rightarrow> ('a \<times> fdo) run" where
  "with_daemon react f s =
     run_bind (f (fd_daemon s)) (\<lambda>(r, k).
       run_bind (react (ks_events k) (drain (s\<lparr>fd_daemon := k\<rparr>))) (\<lambda>s. Ret (r, s)))"

definition Collection_Delete :: "(event list \<Rightarrow> fdo \<Rightarrow> fdo run) \<Rightarrow> desktop \<Rightarrow> qstring \<Rightarrow> fdo \<Rightarrow> fdo run" where
  "Collection_Delete react d p s =
     (case qmap_find (fd_collections s) p of
        None \<Rightarrow> UB
      | Some c \<Rightarrow>
          let name = co_walletName c; s = fold removeAlias (readAliasesFor name s) s in
          run_bind (with_daemon react (KSecretD_deleteWallet (d_host d) name) s) (\<lambda>(_, s).
            Ret (onCollectionDeleted d p (send (UnregisterObject p) s))))"

definition fdo_walletDeleted :: "(event list \<Rightarrow> fdo \<Rightarrow> fdo run) \<Rightarrow> desktop \<Rightarrow> qstring \<Rightarrow> fdo \<Rightarrow> fdo run" where
  "fdo_walletDeleted react d walletName s =
     (case getCollectionByWalletName walletName s of
        None \<Rightarrow> Ret s | Some p \<Rightarrow> Collection_Delete react d p s)"

section \<open>Events\<close>

text \<open>The signals are connected when the daemon was enabled at the start; a closed wallet and an unlocked one
  are reported by calls.  \<open>pamOpen\<close> goes through the pointer to the collection without a test.\<close>

definition slot :: "(event list \<Rightarrow> fdo \<Rightarrow> fdo run) \<Rightarrow> desktop \<Rightarrow> nat \<Rightarrow> event \<Rightarrow> fdo \<Rightarrow> fdo run" where
  "slot react d t e s =
     (case e of
        LockCollection w \<Rightarrow> lockCollection d t w s
      | WalletChangeState w handle \<Rightarrow>
          (case getCollectionByWalletName w s of
             None \<Rightarrow> UB | Some p \<Rightarrow> do_coll p (onWalletChangeState d t handle) s)
      | PromiseResult n v \<Rightarrow> promise_result d t n v s
      | EntryDeleted w folder entry \<Rightarrow> if fd_connected s then fdo_entryDeleted d t w folder entry s else Ret s
      | EntryRenamed w folder old new \<Rightarrow> if fd_connected s then fdo_entryRenamed d t w folder old new s else Ret s
      | WalletDeleted w \<Rightarrow> if fd_connected s then fdo_walletDeleted react d w s else Ret s
      | WalletCreated w \<Rightarrow> if fd_connected s then fdo_walletCreated d t w s else Ret s
      | _ \<Rightarrow> Ret s)"

fun slots :: "(event list \<Rightarrow> fdo \<Rightarrow> fdo run) \<Rightarrow> desktop \<Rightarrow> nat \<Rightarrow> event list \<Rightarrow> fdo \<Rightarrow> fdo run" where
  "slots react d t [] s = Ret s"
| "slots react d t (e # es) s = run_bind (slot react d t e s) (slots react d t es)"

primrec deliver :: "desktop \<Rightarrow> nat \<Rightarrow> nat \<Rightarrow> event list \<Rightarrow> fdo \<Rightarrow> fdo run" where
  "deliver d t 0 es s = (if es = [] then Ret s else Diverge)"
| "deliver d t (Suc n) es s = slots (deliver d t n) d t es s"

definition react :: "desktop \<Rightarrow> nat \<Rightarrow> event list \<Rightarrow> fdo \<Rightarrow> fdo run" where
  "react d t es s = deliver d t (length (ks_wallets (fd_daemon s)) + 1) es s"

end
