(* ===== verification/FdoCalls.thy ===== *)
theory FdoCalls
  imports FdoService
begin

text \<open>
  What clients call on the bus: the methods of the service, of collections and items, and of prompts
  (src/runtime/ksecretd/kwalletfreedesktopservice.cpp, kwalletfreedesktopcollection.cpp,
  kwalletfreedesktopitem.cpp and kwalletfreedesktopprompt.cpp) that concern more than one object.
  \<open>sender\<close> is the bus name of the caller.
\<close>

section \<open>Object paths\<close>

text \<open>\<open>QString::section\<close> with the separator slash, from the first part.\<close>

fun first_parts :: "nat \<Rightarrow> qstring \<Rightarrow> qstring" where
  "first_parts n [] = []"
| "first_parts n (c # cs) =
     (if c = slash then (case n of 0 \<Rightarrow> [] | Suc m \<Rightarrow> c # first_parts m cs) else c # first_parts n cs)"

definition wrapToCollectionPath :: "qstring \<Rightarrow> qstring" where
  "wrapToCollectionPath itemPath = first_parts 5 itemPath"

definition startsWith :: "qstring \<Rightarrow> qstring \<Rightarrow> bool" where
  "startsWith pre s \<longleftrightarrow> take (length pre) s = pre"

definition fdo_error :: "string \<Rightarrow> fdo \<Rightarrow> fdo" where
  "fdo_error e s = send (ErrorReply e) s"

definition resolveIfAlias :: "qstring \<Rightarrow> fdo \<Rightarrow> qstring \<times> fdo" where
  "resolveIfAlias alias s =
     (let target = (if startsWith FDO_ALIAS_PATH alias
        then let path = ReadAlias (drop (length FDO_ALIAS_PATH) alias) s in if path \<noteq> [slash] then Some path else None
        else Some alias)
      in case target of
           None \<Rightarrow> ([], fdo_error ''InvalidArgs'' s)
         | Some path \<Rightarrow>
             if \<not> startsWith FDO_SECRETS_COLLECTION_PATH path then ([], fdo_error ''InvalidArgs'' s) else (path, s))"

definition getItemByObjectPath :: "qstring \<Rightarrow> fdo \<Rightarrow> (qstring \<times> item) option" where
  "getItemByObjectPath path s =
     (if \<not> startsWith FDO_SECRETS_COLLECTION_PATH path then None
      else
        let collectionPath = wrapToCollectionPath path in
        case qmap_find (fd_collections s) collectionPath of
          None \<Rightarrow> None | Some c \<Rightarrow> map_option (\<lambda>i. (collectionPath, i)) (getItem c path))"

section \<open>Locking and searching\<close>

fun Lock :: "desktop \<Rightarrow> nat \<Rightarrow> qstring list \<Rightarrow> fdo \<Rightarrow> (qstring list \<times> fdo) run" where
  "Lock d t [] s = Ret ([], s)"
| "Lock d t (ob # obs) s =
     (let (path, s) = resolveIfAlias ob s; collectionPath = wrapToCollectionPath path in
      case qmap_find (fd_collections s) collectionPath of
        None \<Rightarrow> Lock d t obs (fdo_error ''InvalidArgs'' s)
      | Some c \<Rightarrow>
          run_bind (with_daemon (react d t) (KSecretD_close (d_host d) (co_handle c)) s) (\<lambda>(rc, s).
            if rc = 0 then run_bind (Lock d t obs s) (\<lambda>(ps, s). Ret (collectionPath # ps, s))
            else Lock d t obs (fdo_error ''InvalidArgs'' s)))"

fun search_in :: "str_map \<Rightarrow> qstring list \<Rightarrow> fdo \<Rightarrow> ((qstring list \<times> qstring list) \<times> fdo) run" where
  "search_in attribs [] s = Ret (([], []), s)"
| "search_in attribs (p # ps) s =
     run_bind (on_coll p (\<lambda>cs. let (l, cs) = Collection_locked cs in Ret ((l, Collection_SearchItems (cs_coll cs) attribs), cs)) s)
       (\<lambda>((l, found), s). run_bind (search_in attribs ps s) (\<lambda>((unlocked, locked), s).
          Ret (if l then (unlocked, found @ locked) else (found @ unlocked, locked), s)))"

definition Service_SearchItems :: "str_map \<Rightarrow> fdo \<Rightarrow> ((qstring list \<times> qstring list) \<times> fdo) run" where
  "Service_SearchItems attribs s = search_in attribs (collections s) s"

section \<open>Prompts\<close>

definition FDO_SECRET_SERVICE_PROMPT_PATH :: qstring where
  "FDO_SECRET_SERVICE_PROMPT_PATH = FDO_SECRETS_SERVICE_OBJECT @ qs ''/prompt/''"

definition nextPromptPath :: "fdo \<Rightarrow> qstring \<times> fdo" where
  "nextPromptPath s =
     (FDO_SECRET_SERVICE_PROMPT_PATH @ qs ''p'' @ dec (fd_promptCounter s),
      s\<lparr>fd_promptCounter := (fd_promptCounter s + 1) mod 2 ^ 64\<rparr>)"

definition new_prompt :: "prompt_type \<Rightarrow> qstring \<Rightarrow> collection_properties list \<Rightarrow> fdo \<Rightarrow> qstring \<times> fdo" where
  "new_prompt ty sender prs s =
     (let (p, s) = nextPromptPath s;
          x = \<lparr>pr_type = ty, pr_busName = sender, pr_properties = prs, pr_transactions = [], pr_byTransaction = [],
               pr_result = [], pr_deleted = False\<rparr>
      in (p, send (RegisterObject p) (s\<lparr>fd_prompts := qmap_insert p x (fd_prompts s)\<rparr>)))"

text \<open>The wallets that need to be opened, or the paths of those that are open; None after an error reply.\<close>

fun unlock_objects :: "qstring list \<Rightarrow> fdo \<Rightarrow> ((qstring list \<times> collection_properties list) option \<times> fdo) run" where
  "unlock_objects [] s = Ret (Some ([], []), s)"
| "unlock_objects (ob # obs) s =
     (let (path, s) = resolveIfAlias ob s; collectionPath = wrapToCollectionPath path in
      case qmap_find (fd_collections s) collectionPath of
        None \<Rightarrow> Ret (None, fdo_error ''InvalidObjectPath'' s)
      | Some c \<Rightarrow>
          run_bind (on_coll collectionPath (\<lambda>cs. Ret (Collection_locked cs)) s) (\<lambda>(l, s).
            run_bind (unlock_objects obs s) (\<lambda>(r, s).
              Ret (map_option (\<lambda>(done, need).
                if l then (done, \<lparr>cp_label = co_walletName c, cp_object = ob, cp_alias = []\<rparr> # need)
                else (ob # done, need)) r, s))))"

definition Unlock :: "qstring \<Rightarrow> qstring list \<Rightarrow> fdo \<Rightarrow> ((qstring list \<times> qstring) \<times> fdo) run" where
  "Unlock sender obs s =
     run_bind (unlock_objects obs s) (\<lambda>(r, s).
       case r of
         None \<Rightarrow> Ret (([], [slash]), s)
       | Some (done, need) \<Rightarrow>
           if need = [] then Ret ((done, [slash]), s)
           else let (p, s) = new_prompt PromptOpen sender need s in Ret ((done, p), s))"

definition CreateCollection :: "qstring \<Rightarrow> qstring option option \<Rightarrow> qstring \<Rightarrow> fdo \<Rightarrow> qstring \<times> fdo" where
  "CreateCollection sender labelFound alias s =
     (case labelFound of
        Some (Some label) \<Rightarrow>
          new_prompt PromptCreate sender [\<lparr>cp_label = label, cp_object = [slash], cp_alias = alias\<rparr>] s
      | _ \<Rightarrow> ([slash], fdo_error ''InvalidArgs'' s))"

definition makeUniqueWalletName :: "host \<Rightarrow> qstring \<Rightarrow> ksecretd \<Rightarrow> qstring run" where
  "makeUniqueWalletName h labelPrefix k =
     run_bind (makeUniqueCollectionLabel h labelPrefix k) (\<lambda>u. Ret (toName u))"

text \<open>One wallet of a prompt.  A request the daemon refuses has its result at once.\<close>

definition request_open :: "desktop \<Rightarrow> nat \<Rightarrow> qstring \<Rightarrow> int \<Rightarrow> collection_properties \<Rightarrow> qstring \<Rightarrow> fdo \<Rightarrow> fdo run" where
  "request_open d t p wId pr walletName s =
     (let s = (if cp_alias pr \<noteq> [] then createCollectionAlias (cp_alias pr) walletName s else s);
          tid = fd_transactionId s;
          (future, k) = KSecretD_open walletName wId (fd_daemon s);
          s = drain (s\<lparr>fd_daemon := k\<rparr>)
      in case qmap_find (fd_prompts s) p of
           None \<Rightarrow> UB
         | Some x \<Rightarrow>
             let s = s\<lparr>fd_prompts := qmap_insert p (x\<lparr>pr_transactions := List.insert tid (pr_transactions x),
                         pr_byTransaction := qmap_insert tid pr (pr_byTransaction x)\<rparr>) (fd_prompts s)\<rparr>
             in run_bind (case future of
                    Inl v \<Rightarrow> walletAsyncOpened d t p tid v s
                  | Inr n \<Rightarrow> Ret (s\<lparr>fd_futures := fd_futures s @ [(n, p, tid)]\<rparr>))
                  (\<lambda>s. Ret (s\<lparr>fd_transactionId := tid + 1\<rparr>)))"

fun request_all :: "desktop \<Rightarrow> nat \<Rightarrow> qstring \<Rightarrow> int \<Rightarrow> prompt_type \<Rightarrow> collection_properties list \<Rightarrow> fdo \<Rightarrow> fdo run" where
  "request_all d t p wId ty [] s = Ret s"
| "request_all d t p wId ty (pr # prs) s =
     run_bind (if ty = PromptCreate then makeUniqueWalletName (d_host d) (cp_label pr) (fd_daemon s) else Ret (cp_label pr))
       (\<lambda>walletName. run_bind (request_open d t p wId (pr\<lparr>cp_label := walletName\<rparr>) walletName s)
         (request_all d t p wId ty prs))"

definition Prompt_Prompt :: "desktop \<Rightarrow> nat \<Rightarrow> qstring \<Rightarrow> int \<Rightarrow> fdo \<Rightarrow> fdo run" where
  "Prompt_Prompt d t p wId s =
     (case qmap_find (fd_prompts s) p of
        None \<Rightarrow> Ret s | Some x \<Rightarrow> request_all d t p wId (pr_type x) (pr_properties x) s)"

text \<open>The daemon works on its queue; then control is back in the event loop.\<close>

definition fdo_process :: "desktop \<Rightarrow> nat \<Rightarrow> (nat \<Rightarrow> user) \<Rightarrow> fdo \<Rightarrow> fdo run" where
  "fdo_process d t us s =
     run_bind (with_daemon (react d t) (\<lambda>k. run_bind (KSecretD_processTransactions (d_host d) us k) (\<lambda>k. Ret ((), k))) s)
       (\<lambda>(_, s). Ret (event_loop s))"

section \<open>Collections and items\<close>

definition fdo_OpenSession :: "desktop \<Rightarrow> qstring \<Rightarrow> qstring \<Rightarrow> bytes option \<Rightarrow> fdo \<Rightarrow> (string + qstring \<times> bytes) \<times> fdo" where
  "fdo_OpenSession d sender algorithm input s =
     (let (r, ses, n) = OpenSession d sender algorithm input (fd_sessions s, fd_sessionCounter s);
          s = s\<lparr>fd_sessions := ses, fd_sessionCounter := n\<rparr>
      in (r, case r of Inl e \<Rightarrow> fdo_error e s | Inr _ \<Rightarrow> s))"

definition fdo_CreateItem :: "desktop \<Rightarrow> nat \<Rightarrow> qstring \<Rightarrow> qstring \<Rightarrow> qstring option option \<Rightarrow> str_map option \<Rightarrow> fdo_secret
    \<Rightarrow> bool \<Rightarrow> fdo \<Rightarrow> ((string + qstring) \<times> fdo) run" where
  "fdo_CreateItem d t sender p label attribs secret replace s =
     on_coll p (CreateItem d t (fd_sessions s) sender label attribs secret replace) s"

definition Collection_setLabel :: "desktop \<Rightarrow> qstring \<Rightarrow> qstring \<Rightarrow> fdo \<Rightarrow> fdo run" where
  "Collection_setLabel d p newLabel s =
     (case qmap_find (fd_collections s) p of
        None \<Rightarrow> UB
      | Some c \<Rightarrow>
          if newLabel = ul_label (co_label c) then Ret s
          else
            let h = d_host d; oldName = toName (co_label c) in
            run_bind (makeUniqueCollectionLabel h newLabel (fd_daemon s)) (\<lambda>newUniqLabel.
              let newName = toName newUniqLabel in
              run_bind (KSecretD_renameWallet h oldName newName (fd_daemon s)) (\<lambda>(rc, k).
                let s = drain (s\<lparr>fd_daemon := k\<rparr>) in
                if rc \<noteq> 0 then Ret s
                else
                  let s' = fold (\<lambda>alias. updateCollectionAlias alias newName) (readAliasesFor oldName s) s in
                  do_coll p (\<lambda>cs. Ret (on_attribs (Attributes_renameWallet d newName)
                    (cs\<lparr>cs_coll := (cs_coll cs)\<lparr>co_label := newUniqLabel\<rparr>\<rparr>))) s')))"

text \<open>The entry of an item moves to another folder by copying, within its folder by renaming.\<close>

definition copy_entry :: "desktop \<Rightarrow> entry_location \<Rightarrow> entry_location \<Rightarrow> cstate \<Rightarrow> cstate run" where
  "copy_entry d old new cs =
     (let handle = co_handle (cs_coll cs) in
      run_bind (KSecretD_entryType handle (el_folder old) (el_key old) (cs_daemon cs)) (\<lambda>(ty, k).
        let cs = cs\<lparr>cs_daemon := k\<rparr>;
            (v, cs) = call (KSecretD_readEntry handle (el_folder old) (el_key old)) cs
        in Ret (snd (call (KSecretD_writeEntry (d_host d) handle (el_folder new) (el_key new) v ty) cs))))"

definition move_entry :: "desktop \<Rightarrow> nat \<Rightarrow> qstring \<Rightarrow> int \<Rightarrow> entry_location \<Rightarrow> entry_location \<Rightarrow> fdo \<Rightarrow> fdo run" where
  "move_entry d t p handle old new s =
     (let h = d_host d in
      if el_folder new \<noteq> el_folder old then
        run_bind (do_coll p (copy_entry d old new) s) (\<lambda>s.
          run_bind (with_daemon (react d t) (KSecretD_removeEntry h handle (el_folder old) (el_key old)) s) (\<lambda>(_, s). Ret s))
      else if el_key new \<noteq> el_key old then
        run_bind (with_daemon (react d t) (\<lambda>k. Ret (KSecretD_renameEntry h handle (el_folder old) (el_key old) (el_key new) k)) s)
          (\<lambda>(_, s). Ret s)
      else Ret s)"

definition Item_setLabel :: "desktop \<Rightarrow> nat \<Rightarrow> qstring \<Rightarrow> qstring \<Rightarrow> item \<Rightarrow> qstring \<Rightarrow> fdo \<Rightarrow> fdo run" where
  "Item_setLabel d t p ip i value s =
     (case qmap_find (fd_collections s) p of
        None \<Rightarrow> UB
      | Some c \<Rightarrow>
          let old = item_location i in
          run_bind (on_coll p (\<lambda>cs. run_bind (makeUniqueItemLabel value cs) (\<lambda>(u, cs). Ret (u, setUniqueLabel ip u cs))) s)
            (\<lambda>(u, s).
              let new = fromUniqueLabel u in
              run_bind (move_entry d t p (co_handle c) old new s)
                (do_coll p (\<lambda>cs.
                  let cs = on_attribs (setParamNumber d t old FDO_KEY_MODIFIED t) cs
                  in Ret (onItemChanged t ip (on_attribs (Attributes_renameLabel d t old new) cs))))))"

definition Item_Delete :: "desktop \<Rightarrow> nat \<Rightarrow> qstring \<Rightarrow> qstring \<Rightarrow> item \<Rightarrow> fdo \<Rightarrow> fdo run" where
  "Item_Delete d t p ip i s =
     (case qmap_find (fd_collections s) p of
        None \<Rightarrow> UB
      | Some c \<Rightarrow>
          let l = item_location i in
          run_bind (with_daemon (react d t) (KSecretD_removeEntry (d_host d) (co_handle c) (el_folder l) (el_key l)) s)
            (\<lambda>(_, s). do_coll p (\<lambda>cs. Ret (onItemDeleted d t ip cs)) (send (UnregisterObject ip) s)))"

text \<open>The secrets of several items; the first item that is not there ends the search.  The result is not
  sent when an error was.\<close>

fun GetSecrets :: "desktop \<Rightarrow> qstring \<Rightarrow> qstring \<Rightarrow> qstring list \<Rightarrow> fdo \<Rightarrow> ((bool \<times> (qstring, fdo_secret) qmap) \<times> fdo) run" where
  "GetSecrets d sender ses [] s = Ret ((True, []), s)"
| "GetSecrets d sender ses (ip # ips) s =
     (case getItemByObjectPath ip s of
        None \<Rightarrow> Ret ((False, []), fdo_error ''InvalidArgs'' s)
      | Some (p, i) \<Rightarrow>
          run_bind (on_coll p (getSecret d (fd_sessions s) sender i ses) s) (\<lambda>(r, s).
            run_bind (GetSecrets d sender ses ips s) (\<lambda>((ok, m), s).
              Ret (case r of Inl e \<Rightarrow> (False, m)
                   | Inr x \<Rightarrow> (ok, if qmap_contains m ip then m else qmap_insert ip x m), s))))"

section \<open>The service at the start\<close>

fun build_collections :: "desktop \<Rightarrow> nat \<Rightarrow> qstring list \<Rightarrow> fdo \<Rightarrow> fdo run" where
  "build_collections d t [] s = Ret s"
| "build_collections d t (w # ws) s =
     (if w = [] then build_collections d t ws s
      else run_bind (add_collection d t (-1) w s) (\<lambda>(p, s). build_collections d t ws s))"

definition Service_new :: "desktop \<Rightarrow> nat \<Rightarrow> str_map \<Rightarrow> ksecretd \<Rightarrow> fdo run" where
  "Service_new d t aliases k =
     (let s = drain \<lparr>fd_daemon = k, fd_connected = KSecretD_isEnabled k, fd_collections = [], fd_sessions = [], fd_sessionCounter = 0,
                fd_prompts = [], fd_promptCounter = 0, fd_transactionId = 0, fd_futures = [], fd_aliases = aliases,
                fd_log = [RegisterObject FDO_SECRETS_SERVICE_OBJECT], fd_seen = []\<rparr>
      in if \<not> KSecretD_isEnabled k then Ret s else build_collections d t (KSecretD_wallets (d_host d) k) s)"

end
