(* ===== verification/FdoProps.thy ===== *)
theory FdoProps
  imports FdoCalls KSecretDInv
begin

text \<open>
  Properties of collections and items: names of new items, reading back what was stored, following the
  wallet, and what happens to the items of a wallet that is not open.
\<close>

section \<open>Reading leaves the wallet alone\<close>

definition wallet_content :: "int \<Rightarrow> ksecretd \<Rightarrow> content option" where
  "wallet_content i k = map_option content (qmap_find (ks_wallets k) i)"

definition unchanged :: "int \<Rightarrow> ksecretd \<Rightarrow> ksecretd \<Rightarrow> bool" where
  "unchanged i k k' \<longleftrightarrow> usable i k' \<and> wallet_content i k' = wallet_content i k \<and> ks_files k' = ks_files k"

lemma entry_at_content:
  "entry_at i f key k = (case wallet_content i k of None \<Rightarrow> None | Some c \<Rightarrow> (case c f of None \<Rightarrow> None | Some m \<Rightarrow> m key))"
  by (simp add: entry_at_def wallet_content_def lookup_entry_def split: option.split)

lemma unchanged_refl: "usable i k \<Longrightarrow> unchanged i k k"
  by (simp add: unchanged_def)

lemma unchanged_trans: "unchanged i k k' \<Longrightarrow> unchanged i k' k'' \<Longrightarrow> unchanged i k k''"
  by (simp add: unchanged_def)

lemma unchanged_entry: "unchanged i k k' \<Longrightarrow> entry_at i f key k' = entry_at i f key k"
  by (simp add: unchanged_def entry_at_content)

lemma unchanged_usable: "unchanged i k k' \<Longrightarrow> usable i k'"
  by (simp add: unchanged_def)

lemma getWallet_reads:
  assumes "usable i k"
  obtains b k' where "KSecretD_getWallet i k = (Some b, k')" and "qmap_find (ks_wallets k) i = Some b" and "wf_entries b"
    and "b_open b" and "unchanged i k k'" and "\<And>f. unchanged i k (put_wallet i (Backend_setFolder f b) k')"
proof -
  obtain b where b: "qmap_find (ks_wallets k) i = Some b" "wf_entries b" "b_open b" "i \<noteq> 0" "qmap_wf (ks_wallets k)"
    using usableE [OF assms] by metis
  obtain k' where k': "KSecretD_getWallet i k = (Some b, k')" "ks_wallets k' = ks_wallets k" "ks_files k' = ks_files k"
    using getWallet_valid [OF b(1,4)] by metis
  have u: "unchanged i k k'" using assms k' by (simp add: unchanged_def usable_def wallet_content_def)
  have "unchanged i k (put_wallet i (Backend_setFolder f b) k')" for f
    using b k' by (simp add: unchanged_def usable_def wallet_content_def qmap_simps Backend_setFolder_def)
  with that k'(1) b(1-3) u show thesis by blast
qed

lemma lookup_setFolder: "lookup_entry (Backend_setFolder f b) g k = lookup_entry b g k" "b_folder (Backend_setFolder f b) = f"
  "b_open (Backend_setFolder f b) = b_open b"
  by (simp_all add: Backend_setFolder_def lookup_entry_def)

lemma entry_in: "qmap_find (ks_wallets k) i = Some b \<Longrightarrow> entry_at i f key k = lookup_entry b f key"
  by (simp add: entry_at_def)

lemma no_folder: "\<not> Backend_hasFolder b f \<Longrightarrow> lookup_entry b f key = None"
  by (simp add: hasFolder_content lookup_entry_def)

lemma hasEntry_at:
  assumes "usable i k"
  shows "\<exists>k'. KSecretD_hasEntry i f key k = (entry_at i f key k \<noteq> None, k') \<and> unchanged i k k'"
proof -
  obtain b k' where b: "KSecretD_getWallet i k = (Some b, k')" "qmap_find (ks_wallets k) i = Some b" "unchanged i k k'"
    "\<And>f. unchanged i k (put_wallet i (Backend_setFolder f b) k')" using getWallet_reads [OF assms] by metis
  then show ?thesis
    using no_folder by (auto simp: KSecretD_hasEntry_def Let_def entry_in hasEntry_lookup lookup_setFolder)
qed

lemma entryType_at:
  assumes "usable i k"
  shows "\<exists>k'. KSecretD_entryType i f key k = Ret (case entry_at i f key k of None \<Rightarrow> Unknown | Some e \<Rightarrow> e_type e, k') \<and> unchanged i k k'"
proof -
  obtain b k' where b: "KSecretD_getWallet i k = (Some b, k')" "qmap_find (ks_wallets k) i = Some b" "b_open b" "unchanged i k k'"
    "\<And>f. unchanged i k (put_wallet i (Backend_setFolder f b) k')" using getWallet_reads [OF assms] by metis
  then show ?thesis
    using no_folder
    by (auto simp: KSecretD_entryType_def Let_def entry_in hasEntry_lookup lookup_setFolder readEntry_lookup split: option.splits)
qed

lemma reads_at:
  assumes "usable i k"
  shows "\<exists>k'. KSecretD_readEntry i f key k = (case entry_at i f key k of None \<Rightarrow> [] | Some e \<Rightarrow> e_value e, k') \<and> unchanged i k k'"
    and "\<exists>k'. KSecretD_readPassword h i f key k = (case entry_at i f key k of None \<Rightarrow> []
      | Some e \<Rightarrow> if e_type e = Password then Entry_password h e else [], k') \<and> unchanged i k k'"
    and "\<exists>k'. KSecretD_readMap i f key k = (case entry_at i f key k of None \<Rightarrow> []
      | Some e \<Rightarrow> if e_type e = Map then e_value e else [], k') \<and> unchanged i k k'"
proof -
  obtain b k' where b: "KSecretD_getWallet i k = (Some b, k')" "qmap_find (ks_wallets k) i = Some b" "b_open b" "unchanged i k k'"
    "\<And>f. unchanged i k (put_wallet i (Backend_setFolder f b) k')" using getWallet_reads [OF assms] by metis
  then show "\<exists>k'. KSecretD_readEntry i f key k = (case entry_at i f key k of None \<Rightarrow> [] | Some e \<Rightarrow> e_value e, k') \<and> unchanged i k k'"
    by (auto simp: KSecretD_readEntry_def Let_def entry_in lookup_setFolder readEntry_lookup split: option.splits)
  show "\<exists>k'. KSecretD_readPassword h i f key k = (case entry_at i f key k of None \<Rightarrow> []
      | Some e \<Rightarrow> if e_type e = Password then Entry_password h e else [], k') \<and> unchanged i k k'"
    using b by (auto simp: KSecretD_readPassword_def Let_def entry_in lookup_setFolder readEntry_lookup split: option.splits)
  show "\<exists>k'. KSecretD_readMap i f key k = (case entry_at i f key k of None \<Rightarrow> []
      | Some e \<Rightarrow> if e_type e = Map then e_value e else [], k') \<and> unchanged i k k'"
    using b by (auto simp: KSecretD_readMap_def Let_def entry_in lookup_setFolder readEntry_lookup split: option.splits)
qed

lemma lists_at:
  assumes "usable i k"
  shows "\<exists>fs k'. KSecretD_folderList i k = (fs, k') \<and> unchanged i k k' \<and> (\<forall>f key. entry_at i f key k \<noteq> None \<longrightarrow> f \<in> set fs)"
    and "\<exists>es k'. KSecretD_entryList i f k = (es, k') \<and> unchanged i k k' \<and> distinct es \<and> set es = {key. entry_at i f key k \<noteq> None}"
proof -
  obtain b k' where b: "KSecretD_getWallet i k = (Some b, k')" "qmap_find (ks_wallets k) i = Some b" "wf_entries b" "unchanged i k k'"
    "\<And>f. unchanged i k (put_wallet i (Backend_setFolder f b) k')" using getWallet_reads [OF assms] by metis
  have "f \<in> set (Backend_folderList b)" if "lookup_entry b f key \<noteq> None" for f key
    using that folderList_content [OF b(3)] by (auto simp: lookup_entry_def split: option.splits)
  with b show "\<exists>fs k'. KSecretD_folderList i k = (fs, k') \<and> unchanged i k k' \<and> (\<forall>f key. entry_at i f key k \<noteq> None \<longrightarrow> f \<in> set fs)"
    by (auto simp: KSecretD_folderList_def entry_in)
  have "wf_entries (Backend_setFolder f b)" using b(3) by (simp add: Backend_setFolder_def)
  then have "distinct (Backend_entryList (Backend_setFolder f b))"
    using wf_current by (auto simp: Backend_entryList_def qmap_keys_def qmap_wf_def strict_sorted_iff)
  then show "\<exists>es k'. KSecretD_entryList i f k = (es, k') \<and> unchanged i k k' \<and> distinct es \<and> set es = {key. entry_at i f key k \<noteq> None}"
    using b(1,2,5) by (auto simp: KSecretD_entryList_def Let_def entry_in entryList_content lookup_setFolder)
qed

section \<open>The place of a new item\<close>

lemma unused_name_step:
  "unused_name i dir name n result k = (let (r, k) = KSecretD_hasEntry i dir result k in
     if r then unused_name i dir name (n + 1) (makeName name (int n)) k else Some (result, k))"
  by (rule unused_name.simps)

lemma unused_name_first:
  assumes "usable i k" and "n \<le> m" and "entry_at i dir (nth_name name m) k = None"
    and "\<forall>j. n \<le> j \<and> j < m \<longrightarrow> entry_at i dir (nth_name name j) k \<noteq> None"
  shows "\<exists>k'. unused_name i dir name n (nth_name name n) k = Some (nth_name name m, k') \<and> unchanged i k k'"
  using assms
proof (induction "m - n" arbitrary: n k)
  case 0
  obtain k' where "KSecretD_hasEntry i dir (nth_name name n) k = (entry_at i dir (nth_name name n) k \<noteq> None, k')" "unchanged i k k'"
    using hasEntry_at [OF 0(2)] by blast
  with 0 show ?case by (subst unused_name_step) simp
next
  case (Suc x)
  obtain k' where k': "KSecretD_hasEntry i dir (nth_name name n) k = (entry_at i dir (nth_name name n) k \<noteq> None, k')" "unchanged i k k'"
    using hasEntry_at [OF Suc.prems(1)] by blast
  have "entry_at i dir (nth_name name n) k \<noteq> None" using Suc.prems(4) Suc.hyps(2) by simp
  then have "unused_name i dir name n (nth_name name n) k = unused_name i dir name (n + 1) (nth_name name (n + 1)) k'"
    using k'(1) by (subst unused_name_step) (simp add: nth_name_def)
  moreover have "\<exists>k''. unused_name i dir name (n + 1) (nth_name name (n + 1)) k' = Some (nth_name name m, k'') \<and> unchanged i k' k''"
    using Suc.prems Suc.hyps(2) unchanged_entry [OF k'(2)] unchanged_usable [OF k'(2)] by (intro Suc.hyps(1)) auto
  ultimately show ?case using unchanged_trans [OF k'(2)] by metis
qed

lemma new_entry_place_of:
  assumes "usable (co_handle (cs_coll s)) (cs_daemon s)" and "label_place label = (dir, name)"
  shows "\<exists>m k. makeUniqueEntryLocation label s = Ret (\<lparr>el_folder = dir, el_key = nth_name name m\<rparr>, s\<lparr>cs_daemon := k\<rparr>) \<and>
    entry_at (co_handle (cs_coll s)) dir (nth_name name m) (cs_daemon s) = None \<and>
    nth_name name ` {0..<m} \<subseteq> {key. entry_at (co_handle (cs_coll s)) dir key (cs_daemon s) \<noteq> None} \<and>
    unchanged (co_handle (cs_coll s)) (cs_daemon s) k"
proof -
  let ?i = "co_handle (cs_coll s)" and ?k = "cs_daemon s"
  obtain es k' where es: "set es = {key. entry_at ?i dir key ?k \<noteq> None}" using lists_at(2) [OF assms(1)] by blast
  obtain m where m: "nth_name name m \<notin> set es" "\<And>j. j < m \<Longrightarrow> nth_name name j \<in> set es" using wallet_names.found by metis
  obtain k' where k': "unused_name ?i dir name 0 (nth_name name 0) ?k = Some (nth_name name m, k')" "unchanged ?i ?k k'"
    using unused_name_first [OF assms(1), of 0 m dir name] m es by auto
  have "makeUniqueEntryLocation label s = Ret (\<lparr>el_folder = dir, el_key = nth_name name m\<rparr>, s\<lparr>cs_daemon := k'\<rparr>)"
    using k'(1) by (simp add: makeUniqueEntryLocation_def assms(2) nth_name_def)
  with k'(2) m es show ?thesis by (intro exI [of _ m] exI [of _ k']) auto
qed

text \<open>The place of a new item in an open wallet is always found.  It is in the folder that the label names, or in
  the default folder; its key is the rest of the label or the first numbered name of it that no entry has;
  the wallet is not changed by the search.\<close>

theorem new_entry_place:
  assumes "usable (co_handle (cs_coll s)) (cs_daemon s)" and "label_place label = (dir, name)"
  shows "\<exists>m k. makeUniqueEntryLocation label s = Ret (\<lparr>el_folder = dir, el_key = nth_name name m\<rparr>, s\<lparr>cs_daemon := k\<rparr>) \<and>
    entry_at (co_handle (cs_coll s)) dir (nth_name name m) (cs_daemon s) = None \<and>
    nth_name name ` {0..<m} \<subseteq> {key. entry_at (co_handle (cs_coll s)) dir key (cs_daemon s) \<noteq> None} \<and>
    unchanged (co_handle (cs_coll s)) (cs_daemon s) k"
  using new_entry_place_of [OF assms] .

definition example_collection :: collection where
  "example_collection = \<lparr>co_path = qs ''/c'', co_handle = 7, co_label = \<lparr>ul_label = qs ''w'', ul_copyId = -1\<rparr>,
     co_attribs = \<lparr>at_path = qs ''/a'', at_params = []\<rparr>, co_items = [], co_counter = 0\<rparr>"

definition example_cstate :: cstate where
  "example_cstate = \<lparr>cs_coll = example_collection, cs_daemon = one_wallet, cs_log = []\<rparr>"

lemma example_usable: "usable (co_handle (cs_coll example_cstate)) (cs_daemon example_cstate)"
  using one_wallet_usable by (simp add: example_cstate_def example_collection_def)

lemma label_place_mail: "label_place (qs ''mail'') = (FDO_SECRETS_DEFAULT_DIR, qs ''mail'')"
  by (simp add: label_place_def indexOf_def slash_def qs_def)

lemma one_wallet_empty: "entry_at 7 f key one_wallet = None"
  by (simp add: entry_at_def one_wallet_def qmap_find_def empty_wallet_def Backend_new_def lookup_entry_def content_def)

theorem new_entry_place_witness:
  "\<exists>k. makeUniqueEntryLocation (qs ''mail'') example_cstate =
     Ret (\<lparr>el_folder = FDO_SECRETS_DEFAULT_DIR, el_key = qs ''mail''\<rparr>, example_cstate\<lparr>cs_daemon := k\<rparr>)"
proof -
  obtain m k where m: "makeUniqueEntryLocation (qs ''mail'') example_cstate =
      Ret (\<lparr>el_folder = FDO_SECRETS_DEFAULT_DIR, el_key = nth_name (qs ''mail'') m\<rparr>, example_cstate\<lparr>cs_daemon := k\<rparr>)"
    "nth_name (qs ''mail'') ` {0..<m} \<subseteq> {key. entry_at 7 FDO_SECRETS_DEFAULT_DIR key one_wallet \<noteq> None}"
    using new_entry_place [OF example_usable label_place_mail] by (auto simp: example_cstate_def example_collection_def)
  then have "m = 0" by (simp add: one_wallet_empty)
  with m(1) show ?thesis unfolding nth_name_def by (simp del: run.inject) blast
qed

section \<open>Attributes while an item is made\<close>

lemma on_attribs_simps [simp]:
  "co_handle (cs_coll (on_attribs f s)) = co_handle (cs_coll s)" "co_items (cs_coll (on_attribs f s)) = co_items (cs_coll s)"
  "co_path (cs_coll (on_attribs f s)) = co_path (cs_coll s)" "co_counter (cs_coll (on_attribs f s)) = co_counter (cs_coll s)"
  "co_label (cs_coll (on_attribs f s)) = co_label (cs_coll s)" "cs_log (on_attribs f s) = cs_log s"
  "co_attribs (cs_coll (on_attribs f s)) = fst (f (co_attribs (cs_coll s), ks_files (cs_daemon s)))"
  "cs_daemon (on_attribs f s) = (cs_daemon s)\<lparr>ks_files := snd (f (co_attribs (cs_coll s), ks_files (cs_daemon s)))\<rparr>"
  by (simp_all add: on_attribs_def split: prod.split)

lemma say_simps [simp]:
  "cs_coll (say m s) = cs_coll s" "cs_daemon (say m s) = cs_daemon s" "cs_log (say m s) = cs_log s @ [m]"
  by (simp_all add: say_def)

lemma files_frame [simp]:
  "usable i (k\<lparr>ks_files := fs\<rparr>) = usable i k" "entry_at i f key (k\<lparr>ks_files := fs\<rparr>) = entry_at i f key k"
  "wallet_content i (k\<lparr>ks_files := fs\<rparr>) = wallet_content i k"
  by (simp_all add: usable_def entry_at_def wallet_content_def)

text \<open>The member of an entry after each change.\<close>

lemma attribs_wf_find:
  "attribs_wf a \<longleftrightarrow> qmap_wf (at_params a) \<and> (\<forall>k j. qmap_find (at_params a) k = Some j \<longrightarrow> qmap_wf (toObject j))"
proof -
  have "(k, j) \<in> set (at_params a) \<longleftrightarrow> qmap_find (at_params a) k = Some j" if "qmap_wf (at_params a)" for k j
    using that by (simp add: qmap_find_def qmap_wf_def strict_sorted_iff)
  then show ?thesis unfolding attribs_wf_def by blast
qed

lemma attribs_wf_update:
  "attribs_wf a \<Longrightarrow> qmap_wf p \<Longrightarrow> attribs_wf (a\<lparr>at_params := qmap_insert key (JObject p) (at_params a)\<rparr>)"
  unfolding attribs_wf_find by (simp add: qmap_simps toObject_def)

lemma attribs_wf_modified: "attribs_wf a \<Longrightarrow> attribs_wf (updateLastModified t a)"
  unfolding attribs_wf_find by (simp add: updateLastModified_def qmap_simps toObject_def)

lemma attribs_wf_write: "attribs_wf a \<Longrightarrow> attribs_wf (fst (Attributes_write d t (a, fs)))"
proof -
  assume a: "attribs_wf a"
  have "fst (Attributes_write d t (a, fs)) = (if at_params a = [] then a else updateLastModified t a)"
    by (auto simp: Attributes_write_def Let_def split: prod.split)
  with a attribs_wf_modified show ?thesis by simp
qed

lemma setParam_member:
  assumes "attribs_wf a"
  shows "params_of (fst (setParam d t l n v (a, fs))) l = map_option (qmap_insert n (JString v)) (params_of a l)"
    and "attribs_wf (fst (setParam d t l n v (a, fs)))"
proof -
  have w: "qmap_wf (at_params a)" using assms by (simp add: attribs_wf_def)
  show "params_of (fst (setParam d t l n v (a, fs))) l = map_option (qmap_insert n (JString v)) (params_of a l)"
    using write_params(1) params_of_insert [OF w] w by (simp add: setParam_def qmap_simps split: option.split)
  show "attribs_wf (fst (setParam d t l n v (a, fs)))"
    using assms params_of_wf [OF assms, of l]
    by (auto simp: setParam_def intro!: attribs_wf_write attribs_wf_update qmap_wf_insert split: option.split)
qed

lemma setParam_keeps:
  assumes "attribs_wf a" and "\<exists>p. params_of a l = Some p \<and> qmap_find p k = Some j" and "n \<noteq> k"
  shows "\<exists>p. params_of (fst (setParam d t l n v (a, fs))) l = Some p \<and> qmap_find p k = Some j"
  using assms setParam_member(1) [OF assms(1)] params_of_wf [OF assms(1)] by (auto simp: qmap_simps)

lemma json_attribs_wf: "qmap_wf m \<Longrightarrow> qmap_wf (json_attribs m)"
  by (simp add: json_attribs_map qmap_wf_def comp_def case_prod_beta')

lemma setAttributes_member:
  assumes "attribs_wf a"
  shows "params_of (fst (Attributes_setAttributes d t l m (a, fs))) l = map_option (\<lambda>p.
      if json_attribs m = [] then qmap_remove ATTRIBUTES p else qmap_insert ATTRIBUTES (JObject (json_attribs m)) p) (params_of a l)"
    and "attribs_wf (fst (Attributes_setAttributes d t l m (a, fs)))"
proof -
  have w: "qmap_wf (at_params a)" using assms by (simp add: attribs_wf_def)
  show "params_of (fst (Attributes_setAttributes d t l m (a, fs))) l = map_option (\<lambda>p.
      if json_attribs m = [] then qmap_remove ATTRIBUTES p else qmap_insert ATTRIBUTES (JObject (json_attribs m)) p) (params_of a l)"
    using write_params(1) params_of_insert [OF w] w
    unfolding Attributes_setAttributes_def json_attribs_def
    by (cases "params_of a l") (simp_all add: Let_def qmap_simps)
  show "attribs_wf (fst (Attributes_setAttributes d t l m (a, fs)))"
    using assms params_of_wf [OF assms, of l]
    by (auto simp: Attributes_setAttributes_def Let_def intro!: attribs_wf_write attribs_wf_update qmap_wf_insert qmap_wf_remove
        split: option.split)
qed

lemma newItem_member:
  assumes "attribs_wf a"
  shows "params_of (Attributes_newItem l a) l = Some []" and "attribs_wf (Attributes_newItem l a)"
proof -
  have w: "qmap_wf (at_params a)" using assms by (simp add: attribs_wf_def)
  show "params_of (Attributes_newItem l a) l = Some []" by (simp add: Attributes_newItem_def params_of_insert [OF w])
  show "attribs_wf (Attributes_newItem l a)" unfolding Attributes_newItem_def by (intro attribs_wf_update assms qmap_wf_Nil)
qed

lemma param_keys [simp]:
  "FDO_KEY_MIME \<noteq> ATTRIBUTES" "FDO_KEY_MIME \<noteq> FDO_KEY_CREATED" "FDO_KEY_MIME \<noteq> FDO_KEY_MODIFIED"
  "ATTRIBUTES \<noteq> FDO_KEY_MIME" "FDO_KEY_CREATED \<noteq> FDO_KEY_MIME" "FDO_KEY_MODIFIED \<noteq> FDO_KEY_MIME"
  by (simp_all add: FDO_KEY_MIME_def ATTRIBUTES_def FDO_KEY_CREATED_def FDO_KEY_MODIFIED_def qs_def)

section \<open>What is stored in an item is read from it\<close>

lemma describe_item_frame [simp]:
  "co_handle (cs_coll (describe_item d t l mime m s)) = co_handle (cs_coll s)"
  "co_items (cs_coll (describe_item d t l mime m s)) = co_items (cs_coll s)"
  "usable i (cs_daemon (describe_item d t l mime m s)) = usable i (cs_daemon s)"
  "entry_at i f key (cs_daemon (describe_item d t l mime m s)) = entry_at i f key (cs_daemon s)"
  by (simp_all add: describe_item_def Let_def)

lemma describe_item_member:
  assumes "attribs_wf (co_attribs (cs_coll s))"
  shows "\<exists>p. params_of (co_attribs (cs_coll (describe_item d t l mime m s))) l = Some p \<and> qmap_find p FDO_KEY_MIME = Some (JString mime)"
    and "attribs_wf (co_attribs (cs_coll (describe_item d t l mime m s)))"
proof -
  define s1 where "s1 = on_attribs (apfst (Attributes_newItem l)) s"
  define s2 where "s2 = on_attribs (setParam d t l FDO_KEY_MIME mime) s1"
  define s3 where "s3 = on_attribs (setParamNumber d t l FDO_KEY_CREATED t) s2"
  define s4 where "s4 = on_attribs (setParamNumber d t l FDO_KEY_MODIFIED t) s3"
  have e: "describe_item d t l mime m s = on_attribs (Attributes_setAttributes d t l m) s4"
    by (simp add: describe_item_def s1_def s2_def s3_def s4_def Let_def)
  let ?a = "\<lambda>s. co_attribs (cs_coll s)"
  have 1: "params_of (?a s1) l = Some []" "attribs_wf (?a s1)" using newItem_member [OF assms] by (simp_all add: s1_def)
  have 2: "\<exists>p. params_of (?a s2) l = Some p \<and> qmap_find p FDO_KEY_MIME = Some (JString mime)" "attribs_wf (?a s2)"
    using setParam_member [OF 1(2)] 1(1) by (simp_all add: s2_def qmap_find_def)
  have 3: "\<exists>p. params_of (?a s3) l = Some p \<and> qmap_find p FDO_KEY_MIME = Some (JString mime)" "attribs_wf (?a s3)"
    using setParam_keeps [OF 2(2,1)] setParam_member(2) [OF 2(2)] by (simp_all add: s3_def setParamNumber_def)
  have 4: "\<exists>p. params_of (?a s4) l = Some p \<and> qmap_find p FDO_KEY_MIME = Some (JString mime)" "attribs_wf (?a s4)"
    using setParam_keeps [OF 3(2,1)] setParam_member(2) [OF 3(2)] by (simp_all add: s4_def setParamNumber_def)
  then obtain p4 where p4: "params_of (?a s4) l = Some p4" "qmap_find p4 FDO_KEY_MIME = Some (JString mime)" by blast
  show "\<exists>p. params_of (?a (describe_item d t l mime m s)) l = Some p \<and> qmap_find p FDO_KEY_MIME = Some (JString mime)"
    "attribs_wf (?a (describe_item d t l mime m s))"
    unfolding e using setAttributes_member [OF 4(2)] p4 params_of_wf [OF 4(2) p4(1)] by (simp_all add: qmap_simps)
qed

lemma pushNewItem_frame [simp]:
  "co_handle (cs_coll (pushNewItem t u p s)) = co_handle (cs_coll s)"
  "usable i (cs_daemon (pushNewItem t u p s)) = usable i (cs_daemon s)"
  "entry_at i f key (cs_daemon (pushNewItem t u p s)) = entry_at i f key (cs_daemon s)"
  by (simp_all add: pushNewItem_def onItemChanged_def Let_def)

lemma modified_member:
  assumes "attribs_wf a"
  shows "params_of (updateLastModified t a) l = params_of a l" and "attribs_wf (updateLastModified t a)"
  using assms attribs_wf_modified by (simp_all add: attribs_wf_def)

lemma pushNewItem_attribs:
  assumes "attribs_wf (co_attribs (cs_coll s))"
  shows "params_of (co_attribs (cs_coll (pushNewItem t u p s))) l = params_of (co_attribs (cs_coll s)) l"
    and "attribs_wf (co_attribs (cs_coll (pushNewItem t u p s)))"
  using modified_member [OF assms] assms by (simp_all add: pushNewItem_def onItemChanged_def Let_def)

lemma pushNewItem_items:
  assumes "qmap_wf (co_items (cs_coll s))"
  shows "qmap_find (co_items (cs_coll (pushNewItem t u p s))) = (qmap_find (co_items (cs_coll s)))(p \<mapsto> \<lparr>it_label = u\<rparr>)"
    and "qmap_wf (co_items (cs_coll (pushNewItem t u p s)))"
  using assms by (simp_all add: pushNewItem_def onItemChanged_def Let_def qmap_simps)

text \<open>The entry that an item's value becomes.\<close>

definition stored_entry :: "desktop \<Rightarrow> str_map \<Rightarrow> qstring \<Rightarrow> qstring \<Rightarrow> bytes \<Rightarrow> entry" where
  "stored_entry d attribs mime key v =
     (if qmap_find attribs (qs ''type'') = Some (qs ''map'') then \<lparr>e_key = key, e_value = d_streamMap d (d_jsonMap d v), e_type = Map\<rparr>
      else if is_text attribs mime then \<lparr>e_key = key, e_value = put_str (d_host d) (fromUtf8 (d_host d) v), e_type = Password\<rparr>
      else \<lparr>e_key = key, e_value = v, e_type = Stream\<rparr>)"

lemma writePassword_to:
  "KSecretD_writePassword h i f key v = write_to h i f \<lparr>e_key = key, e_value = put_str h v, e_type = Password\<rparr>"
  by (simp add: KSecretD_writePassword_def Entry_setType_def Entry_setValueText_def Entry_setKey_def Entry_new_def zeros_def)

lemma call_simps [simp]:
  "fst (call f s) = fst (f (cs_daemon s))" "cs_coll (snd (call f s)) = cs_coll s" "cs_log (snd (call f s)) = cs_log s"
  "cs_daemon (snd (call f s)) = snd (f (cs_daemon s))"
  by (simp_all add: call_def split: prod.split)

lemma store_new_to:
  assumes "store_new d l attribs mime v s = (Inr u, s')"
  shows "cs_coll s' = cs_coll s \<and> cs_daemon s' = snd (write_to (d_host d) (co_handle (cs_coll s)) (el_folder l)
      (stored_entry d attribs mime (el_key l) v) (cs_daemon s)) \<and>
    (qmap_find attribs (qs ''type'') \<noteq> Some (qs ''map'') \<and> is_text attribs mime \<longrightarrow> d_validUtf8 d v)"
  using assms
  by (auto simp: store_new_def stored_entry_def write_map_def write_stream_def write_text_def KSecretD_writeEntry_to
      writePassword_to daemon_entry_def split: if_splits)

definition value_of :: "desktop \<Rightarrow> entry \<Rightarrow> bytes" where
  "value_of d e =
     (if e_type e = Password then toUtf8 (d_host d) (Entry_password (d_host d) e)
      else if e_type e = Map then d_mapJson d (d_unstreamMap d (e_value e)) else e_value e)"

lemma unknown_type: "Unknown \<noteq> Password" "Unknown \<noteq> Map" "Password \<noteq> Map" "Stream \<noteq> Password" "Stream \<noteq> Map"
  "Map \<noteq> Password"
  by (simp_all add: entry_type_defs)

lemma read_secret_at:
  assumes "usable (co_handle (cs_coll s)) (cs_daemon s)"
  shows "\<exists>s'. read_secret d l s = Ret (case entry_at (co_handle (cs_coll s)) (el_folder l) (el_key l) (cs_daemon s) of
    None \<Rightarrow> [] | Some e \<Rightarrow> value_of d e, s')"
proof -
  let ?i = "co_handle (cs_coll s)" and ?e = "entry_at (co_handle (cs_coll s)) (el_folder l) (el_key l) (cs_daemon s)"
  obtain k where k: "KSecretD_entryType ?i (el_folder l) (el_key l) (cs_daemon s) =
      Ret (case ?e of None \<Rightarrow> Unknown | Some e \<Rightarrow> e_type e, k)" "unchanged ?i (cs_daemon s) k"
    using entryType_at [OF assms] by blast
  have u: "usable ?i k" and e: "entry_at ?i (el_folder l) (el_key l) k = ?e"
    using unchanged_usable unchanged_entry k(2) by blast+
  obtain k1 k2 k3 where "KSecretD_readEntry ?i (el_folder l) (el_key l) k = (case ?e of None \<Rightarrow> [] | Some e \<Rightarrow> e_value e, k1)"
    "KSecretD_readPassword (d_host d) ?i (el_folder l) (el_key l) k = (case ?e of None \<Rightarrow> []
      | Some e \<Rightarrow> if e_type e = Password then Entry_password (d_host d) e else [], k2)"
    "KSecretD_readMap ?i (el_folder l) (el_key l) k = (case ?e of None \<Rightarrow> [] | Some e \<Rightarrow> if e_type e = Map then e_value e else [], k3)"
    using reads_at(1) [OF u, of "el_folder l" "el_key l"] reads_at(2) [OF u, of "d_host d" "el_folder l" "el_key l"]
      reads_at(3) [OF u, of "el_folder l" "el_key l"] unfolding e by blast
  with k(1) show ?thesis
    by (cases ?e) (auto simp: read_secret_def Let_def call_def value_of_def unknown_type split: if_splits)
qed

lemma CreateItem_Inr:
  assumes "usable (co_handle (cs_coll s)) (cs_daemon s)" and "qmap_wf (co_items (cs_coll s))"
    and "CreateItem d t ses sender (Some (Some label)) attribsFound secret replace s = Ret (Inr p, s')"
  obtains l s1 where "fill_item d t ses sender secret (case attribsFound of None \<Rightarrow> [] | Some a \<Rightarrow> a) p l s1 = (Inr p, s')"
    and "unchanged (co_handle (cs_coll s)) (cs_daemon s) (cs_daemon s1)" and "co_items (cs_coll s1) = co_items (cs_coll s)"
    and "co_handle (cs_coll s1) = co_handle (cs_coll s)" and "co_attribs (cs_coll s1) = co_attribs (cs_coll s)"
    and "\<not> replace \<Longrightarrow> \<exists>x. makeUniqueEntryLocation label s = Ret (l, x)"
proof -
  let ?attribs = "case attribsFound of None \<Rightarrow> [] | Some a \<Rightarrow> a"
  define old where "old = (if replace then replaced (cs_coll s) ?attribs else None)"
  have n: "co_handle (cs_coll s) \<noteq> -1" using assms(3) by (auto simp: CreateItem_def fail_with_def)
  let ?place = "case old of Some (p, l) \<Rightarrow> if el_folder l = [] \<and> el_key l = [] then new_place label s else Ret ((p, l), s)
    | None \<Rightarrow> new_place label s"
  have "run_bind ?place (\<lambda>((p, l), s). if el_key l = [] then Ret (fail_with ''InvalidArgs'' s)
      else Ret (fill_item d t ses sender secret ?attribs p l s)) = Ret (Inr p, s')"
    using assms(3) n unfolding CreateItem_def old_def by (simp add: Let_def)
  then obtain q l s1 where q: "?place = Ret ((q, l), s1)" "fill_item d t ses sender secret ?attribs q l s1 = (Inr p, s')"
    by (auto simp: run_bind_Ret_iff fail_with_def split: if_splits)
  have p: "q = p" using q(2) by (auto simp: fill_item_def fail_with_def Let_def split: prod.splits sum.splits if_splits)
  obtain dir name where ln: "label_place label = (dir, name)" by force
  obtain k where k: "\<exists>l. makeUniqueEntryLocation label s = Ret (l, s\<lparr>cs_daemon := k\<rparr>)" "unchanged (co_handle (cs_coll s)) (cs_daemon s) k"
    using new_entry_place_of [OF assms(1) ln] by blast
  then have "\<exists>x. new_place label s = Ret (x, s\<lparr>cs_coll := snd (nextItemPath (cs_coll s)), cs_daemon := k\<rparr>)"
    by (auto simp: new_place_def nextItemPath_def)
  then have "s1 = s \<or> s1 = s\<lparr>cs_coll := snd (nextItemPath (cs_coll s)), cs_daemon := k\<rparr>"
    using q(1) by (auto split: option.splits if_splits)
  moreover have "\<exists>x. makeUniqueEntryLocation label s = Ret (l, x)" if "\<not> replace"
    using q(1) that by (auto simp: old_def new_place_def nextItemPath_def run_bind_Ret_iff)
  ultimately show thesis using that [of l s1] q(2) k(2) unchanged_refl [OF assms(1)] unfolding p by (auto simp: nextItemPath_def)
qed

lemma created_mime:
  assumes "attribs_wf (co_attribs (cs_coll s1))"
    and "a = updateLastModified t (co_attribs (cs_coll (pushNewItem t (fromEntryLocation l) p (describe_item d t l mime m s1))))"
  shows "getStringParam a l FDO_KEY_MIME x = mime"
  using describe_item_member(1) [OF assms(1), of d t l mime m]
    pushNewItem_attribs [OF describe_item_member(2) [OF assms(1)], of t "fromEntryLocation l" p d t l mime m] modified_member(1)
  unfolding assms(2) by (auto simp: getStringParam_def json_isString_def json_toString_def)

lemma created_value:
  assumes "stream_laws (d_host d)" and "\<And>v. d_validUtf8 d v \<Longrightarrow> toUtf8 (d_host d) (fromUtf8 (d_host d) v) = v"
    and "\<And>m. d_unstreamMap d (d_streamMap d m) = m" and "fits (fromUtf8 (d_host d) v)"
    and "store_new d l (case attribs of None \<Rightarrow> [] | Some a \<Rightarrow> a) mime v s = (Inr (), s')"
  shows "value_of d (stored_entry d (case attribs of None \<Rightarrow> [] | Some a \<Rightarrow> a) mime key v) =
    (if attribs \<noteq> None \<and> qmap_find (the attribs) (qs ''type'') = Some (qs ''map'') then d_mapJson d (d_jsonMap d v) else v)"
proof -
  have "Entry_password (d_host d) \<lparr>e_key = x, e_value = put_str (d_host d) (fromUtf8 (d_host d) v), e_type = Password\<rparr> =
      fromUtf8 (d_host d) v" for x
    using get_put_str [OF assms(1,4), of "[]"] by (simp add: Entry_password_def)
  then show ?thesis using store_new_to [OF assms(5)] assms(2,3)
    by (cases attribs) (auto simp: value_of_def stored_entry_def unknown_type)
qed

text \<open>C6. When an item was created in an open wallet, the daemon has an entry for it, at a place named by the item's label and
  the content of which is the value sent: the bytes themselves, or for a map the JSON text that the daemon makes of it; no
  other entry of the wallet has changed.  If the label stands for that place (see \<open>location_roundtrip\<close>: a label with a
  number that has leading zeros does not), the item gives this content with its content type through any session; if it
  does not, what the item gives is read from another place.  A call that replaces nothing makes a new entry.\<close>

theorem created_item_read:
  assumes "usable (co_handle (cs_coll s)) (cs_daemon s)" and "qmap_wf (co_items (cs_coll s))" and "attribs_wf (co_attribs (cs_coll s))"
    and "stream_laws (d_host d)" and "\<And>v. d_validUtf8 d v \<Longrightarrow> toUtf8 (d_host d) (fromUtf8 (d_host d) v) = v"
    and "\<And>m. d_unstreamMap d (d_streamMap d m) = m"
    and "CreateItem d t ses sender (Some (Some label)) attribsFound secret replace s = Ret (Inr p, s')"
    and "desecret d sender ses secret = (True, plain)" and "fits (fromUtf8 (d_host d) (se_value plain))"
  shows "\<exists>l. getItem (cs_coll s') p = Some \<lparr>it_label = fromEntryLocation l\<rparr> \<and>
    (\<not> replace \<longrightarrow> (\<exists>x. makeUniqueEntryLocation label s = Ret (l, x))) \<and>
    (fromUniqueLabel (fromEntryLocation l) = l \<longrightarrow>
      (\<exists>r s''. getSecret d ses' who \<lparr>it_label = fromEntryLocation l\<rparr> path s' = Ret (r, s'') \<and>
        (\<forall>x. r = Inr x \<longleftrightarrow> ensecret d who ses' \<lparr>se_session = path, se_parameters = [],
          se_value = (if attribsFound \<noteq> None \<and> qmap_find (the attribsFound) (qs ''type'') = Some (qs ''map'')
            then d_mapJson d (d_jsonMap d (se_value plain)) else se_value plain),
          se_mimeType = se_mimeType secret\<rparr> = (True, x)))) \<and>
    (\<exists>e. entry_at (co_handle (cs_coll s)) (el_folder l) (el_key l) (cs_daemon s') = Some e \<and> e_key e = el_key l \<and>
      value_of d e = (if attribsFound \<noteq> None \<and> qmap_find (the attribsFound) (qs ''type'') = Some (qs ''map'')
        then d_mapJson d (d_jsonMap d (se_value plain)) else se_value plain)) \<and>
    (\<forall>f key. (f, key) \<noteq> (el_folder l, el_key l) \<longrightarrow>
      entry_at (co_handle (cs_coll s)) f key (cs_daemon s') = entry_at (co_handle (cs_coll s)) f key (cs_daemon s))"
proof -
  let ?i = "co_handle (cs_coll s)" and ?m = "case attribsFound of None \<Rightarrow> [] | Some a \<Rightarrow> a"
  obtain l s1 where l: "fill_item d t ses sender secret ?m p l s1 = (Inr p, s')" "unchanged ?i (cs_daemon s) (cs_daemon s1)"
    "co_items (cs_coll s1) = co_items (cs_coll s)" "co_handle (cs_coll s1) = ?i" "co_attribs (cs_coll s1) = co_attribs (cs_coll s)"
    "\<not> replace \<Longrightarrow> \<exists>x. makeUniqueEntryLocation label s = Ret (l, x)"
    using CreateItem_Inr [OF assms(1,2,7)] by blast
  define s2 where "s2 = pushNewItem t (fromEntryLocation l) p (describe_item d t l (se_mimeType secret) ?m s1)"
  obtain s3 where s3: "store_new d l ?m (se_mimeType secret) (se_value plain) s2 = (Inr (), s3)" "s' = onItemCreated t p s3"
    using l(1) assms(8) by (auto simp: fill_item_def s2_def fail_with_def Let_def split: prod.splits sum.splits)
  let ?e = "stored_entry d ?m (se_mimeType secret) (el_key l) (se_value plain)"
  have 2: "usable ?i (cs_daemon s2)" "co_handle (cs_coll s2) = ?i" "\<And>f key. entry_at ?i f key (cs_daemon s2) = entry_at ?i f key (cs_daemon s)"
    using unchanged_usable [OF l(2)] unchanged_entry [OF l(2)] l(4) by (simp_all add: s2_def)
  have 3: "cs_coll s3 = cs_coll s2" "cs_daemon s3 = snd (write_to (d_host d) ?i (el_folder l) ?e (cs_daemon s2))"
    using store_new_to [OF s3(1)] 2(2) by simp_all
  have s': "co_handle (cs_coll s') = ?i" "co_items (cs_coll s') = co_items (cs_coll s2)"
    "usable ?i (cs_daemon s')" "co_attribs (cs_coll s') = updateLastModified t (co_attribs (cs_coll s2))"
    "\<And>f key. entry_at ?i f key (cs_daemon s') = (if f = el_folder l \<and> key = e_key ?e then Some ?e else entry_at ?i f key (cs_daemon s))"
    using write_to_store [OF 2(1)] 2(2,3) 3 unfolding s3(2) by (simp_all add: onItemCreated_def Let_def)
  have key: "e_key ?e = el_key l" by (simp add: stored_entry_def)
  have item: "getItem (cs_coll s') p = Some \<lparr>it_label = fromEntryLocation l\<rparr>"
    using pushNewItem_items(1) assms(2) l(3) unfolding getItem_def s'(2) s2_def by simp
  have mime: "getStringParam (co_attribs (cs_coll s')) l FDO_KEY_MIME x = se_mimeType secret" for x
    using created_mime [OF _ s'(4) [unfolded s2_def]] assms(3) l(5) by simp
  let ?v = "if attribsFound \<noteq> None \<and> qmap_find (the attribsFound) (qs ''type'') = Some (qs ''map'')
    then d_mapJson d (d_jsonMap d (se_value plain)) else se_value plain"
  have v: "value_of d ?e = ?v"
    by (rule created_value [OF assms(4-6,9) s3(1)])
  obtain s'' where "read_secret d l s' = Ret (?v, s'')"
    using read_secret_at [of s' d l] s'(1,3,5) by (auto simp: key v)
  then have "\<exists>r s''. getSecret d ses' who \<lparr>it_label = fromEntryLocation l\<rparr> path s' = Ret (r, s'') \<and>
      (\<forall>x. r = Inr x \<longleftrightarrow> ensecret d who ses' \<lparr>se_session = path, se_parameters = [], se_value = ?v, se_mimeType = se_mimeType secret\<rparr> = (True, x))"
    if "fromUniqueLabel (fromEntryLocation l) = l"
    using that by (simp add: getSecret_def item_location_def mime fail_with_def Let_def split: prod.splits)
  moreover have "entry_at ?i (el_folder l) (el_key l) (cs_daemon s') = Some ?e" using s'(5) key by simp
  ultimately show ?thesis using item s'(5) l(6) key v by (intro exI [of _ l] conjI) auto
qed

definition item_desktop :: desktop where
  "item_desktop = example_desktop\<lparr>d_streamMap := \<lambda>m. zeros (to_nat m), d_unstreamMap := \<lambda>b. from_nat (length b)\<rparr>"

definition my_session :: sessions where
  "my_session = [(qs ''/s'', \<lparr>ss_algorithm = AlgorithmPlain, ss_path = qs ''/s'', ss_busName = qs ''me''\<rparr>)]"

definition my_secret :: "bytes \<Rightarrow> fdo_secret" where
  "my_secret v = \<lparr>se_session = qs ''/s'', se_parameters = [], se_value = v, se_mimeType = qs ''image/png''\<rparr>"

lemma my_session_plain:
  "desecret d (qs ''me'') my_session (my_secret v) = (True, my_secret v)" "ensecret d (qs ''me'') my_session (my_secret v) = (True, my_secret v)"
  by (simp_all add: desecret_def ensecret_def my_session_def my_secret_def qmap_find_def Session_decrypt_def Session_encrypt_def
      algorithm_decrypt_def algorithm_encrypt_def)

lemma mail_label: "fromUniqueLabel (fromEntryLocation \<lparr>el_folder = FDO_SECRETS_DEFAULT_DIR, el_key = qs ''mail''\<rparr>) =
    \<lparr>el_folder = FDO_SECRETS_DEFAULT_DIR, el_key = qs ''mail''\<rparr>"
  by (simp add: fromEntryLocation_def fromName_def match_numbered_def fromUniqueLabel_def makeName_def indexOf_def Let_def
      slash_def newline_def underscore_def qs_def)

lemma mail_place: "\<exists>k. makeUniqueEntryLocation (qs ''mail'') example_cstate =
    Ret (\<lparr>el_folder = FDO_SECRETS_DEFAULT_DIR, el_key = qs ''mail''\<rparr>, example_cstate\<lparr>cs_daemon := k\<rparr>)"
proof -
  obtain m k where "makeUniqueEntryLocation (qs ''mail'') example_cstate =
      Ret (\<lparr>el_folder = FDO_SECRETS_DEFAULT_DIR, el_key = nth_name (qs ''mail'') m\<rparr>, example_cstate\<lparr>cs_daemon := k\<rparr>)" "m = 0"
    using new_entry_place_of [OF example_usable label_place_mail] by (auto simp: example_cstate_def example_collection_def one_wallet_empty)
  then show ?thesis unfolding nth_name_def by (simp del: run.inject) blast
qed

lemma byte_unit: "ucast (ucast x :: 16 word) = x" for x :: byte
  by (rule ucast_up_ucast_id) (simp add: is_up)

lemma fill_item_ok:
  assumes "desecret d sender ses secret = (True, plain)" and "qmap_wf (co_items (cs_coll s))"
    and "qmap_find attribs (qs ''type'') \<noteq> Some (qs ''map'')" and "\<not> is_text attribs (se_mimeType secret)"
  shows "\<exists>s'. fill_item d t ses sender secret attribs p l s = (Inr p, s') \<and> getItem (cs_coll s') p = Some \<lparr>it_label = fromEntryLocation l\<rparr>"
  using assms pushNewItem_items(1) [of "describe_item d t l (se_mimeType secret) attribs s"]
  by (simp add: fill_item_def store_new_def write_stream_def onItemCreated_def getItem_def Let_def)

lemma created_example:
  "\<exists>p s'. CreateItem item_desktop 5 my_session (qs ''me'') (Some (Some (qs ''mail''))) None (my_secret v) False example_cstate = Ret (Inr p, s') \<and>
     getItem (cs_coll s') p = Some \<lparr>it_label = fromEntryLocation \<lparr>el_folder = FDO_SECRETS_DEFAULT_DIR, el_key = qs ''mail''\<rparr>\<rparr>"
proof -
  let ?l = "\<lparr>el_folder = FDO_SECRETS_DEFAULT_DIR, el_key = qs ''mail''\<rparr>"
  obtain k where k: "makeUniqueEntryLocation (qs ''mail'') example_cstate = Ret (?l, example_cstate\<lparr>cs_daemon := k\<rparr>)"
    using mail_place by blast
  have t: "\<not> is_text [] (qs ''image/png'')"
    by (simp add: is_text_def schema_of_def qs_def)
  let ?s = "example_cstate\<lparr>cs_coll := snd (nextItemPath example_collection), cs_daemon := k\<rparr>"
  let ?p = "fst (nextItemPath example_collection)"
  have "CreateItem item_desktop 5 my_session (qs ''me'') (Some (Some (qs ''mail''))) None (my_secret v) False example_cstate =
      Ret (fill_item item_desktop 5 my_session (qs ''me'') (my_secret v) [] ?p ?l ?s)"
    using k by (simp add: CreateItem_def new_place_def nextItemPath_def example_cstate_def example_collection_def qs_def)
  moreover have "qmap_wf (co_items (cs_coll ?s))" "se_mimeType (my_secret v) = qs ''image/png''"
    by (simp_all add: nextItemPath_def example_collection_def my_secret_def)
  then have "\<exists>s'. fill_item item_desktop 5 my_session (qs ''me'') (my_secret v) [] ?p ?l ?s = (Inr ?p, s') \<and>
      getItem (cs_coll s') ?p = Some \<lparr>it_label = fromEntryLocation ?l\<rparr>"
    using t by (intro fill_item_ok [OF my_session_plain(1)]) simp_all
  ultimately show ?thesis by auto
qed

theorem created_item_read_witness:
  "\<exists>p s' i s''. CreateItem item_desktop 5 my_session (qs ''me'') (Some (Some (qs ''mail''))) None (my_secret [1, 2]) False example_cstate = Ret (Inr p, s') \<and>
     getItem (cs_coll s') p = Some i \<and>
     getSecret item_desktop my_session (qs ''me'') i (qs ''/s'') s' = Ret (Inr (my_secret [1, 2]), s'')"
proof -
  obtain p s' where c: "CreateItem item_desktop 5 my_session (qs ''me'') (Some (Some (qs ''mail''))) None (my_secret [1, 2]) False example_cstate =
      Ret (Inr p, s')" "getItem (cs_coll s') p = Some \<lparr>it_label = fromEntryLocation \<lparr>el_folder = FDO_SECRETS_DEFAULT_DIR, el_key = qs ''mail''\<rparr>\<rparr>"
    using created_example by blast
  have h: "d_host item_desktop = example_host" by (simp add: item_desktop_def example_desktop_def)
  have wf: "qmap_wf (co_items (cs_coll example_cstate))" "attribs_wf (co_attribs (cs_coll example_cstate))"
    by (simp_all add: example_cstate_def example_collection_def attribs_wf_def)
  have utf: "toUtf8 (d_host item_desktop) (fromUtf8 (d_host item_desktop) v) = v" for v
    using byte_unit by (simp add: h example_host_def comp_def)
  have str: "d_unstreamMap item_desktop (d_streamMap item_desktop m) = m" for m by (simp add: item_desktop_def)
  have fit: "fits (fromUtf8 (d_host item_desktop) (se_value (my_secret [1, 2])))"
    by (simp add: h example_host_def fits_def my_secret_def)
  obtain l where l: "\<exists>x. makeUniqueEntryLocation (qs ''mail'') example_cstate = Ret (l, x)"
    "fromUniqueLabel (fromEntryLocation l) = l \<longrightarrow>
      (\<exists>r s''. getSecret item_desktop my_session (qs ''me'') \<lparr>it_label = fromEntryLocation l\<rparr> (qs ''/s'') s' = Ret (r, s'') \<and>
        (\<forall>x. r = Inr x \<longleftrightarrow> ensecret item_desktop (qs ''me'') my_session (my_secret [1, 2]) = (True, x)))"
    using created_item_read [OF example_usable wf _ utf str c(1) my_session_plain(1) fit, where ses' = my_session and who = "qs ''me''"
      and path = "qs ''/s''"] stream_laws_example h by (auto simp: my_secret_def)
  have "l = \<lparr>el_folder = FDO_SECRETS_DEFAULT_DIR, el_key = qs ''mail''\<rparr>" using l(1) mail_place by auto
  with l(2) c mail_label my_session_plain(2) show ?thesis by auto
qed

end
