(* ===== verification/FdoClaims.thy ===== *)
theory FdoClaims
  imports FdoProps
begin

text \<open>
  More properties of collections and items: how a collection follows its wallet, and what calls do on
  items and collections of wallets that are not open.
\<close>

section \<open>An item whose secret was refused\<close>

lemma nth_name_nonempty: "name \<noteq> [] \<Longrightarrow> nth_name name m \<noteq> []"
  by (cases m) (simp_all add: nth_name_def makeName_def)

text \<open>When the secret of a new item cannot be decoded, the caller gets an error, but the collection has a new item for
  an entry that does not exist; the wallet is as before.\<close>

theorem item_without_entry:
  assumes "usable (co_handle (cs_coll s)) (cs_daemon s)" and "co_handle (cs_coll s) \<noteq> -1" and "qmap_wf (co_items (cs_coll s))"
    and "snd (label_place label) \<noteq> []" and "desecret d sender ses secret = (False, secret')"
  shows "\<exists>p l s'. CreateItem d t ses sender (Some (Some label)) attribsFound secret False s = Ret (Inl ''InvalidObjectPath'', s') \<and>
    getItem (cs_coll s') p = Some \<lparr>it_label = fromEntryLocation l\<rparr> \<and>
    entry_at (co_handle (cs_coll s)) (el_folder l) (el_key l) (cs_daemon s') = None \<and>
    wallet_content (co_handle (cs_coll s)) (cs_daemon s') = wallet_content (co_handle (cs_coll s)) (cs_daemon s)"
proof -
  let ?i = "co_handle (cs_coll s)" and ?m = "case attribsFound of None \<Rightarrow> [] | Some a \<Rightarrow> a"
  obtain dir name where ln: "label_place label = (dir, name)" by force
  obtain m k where k: "makeUniqueEntryLocation label s = Ret (\<lparr>el_folder = dir, el_key = nth_name name m\<rparr>, s\<lparr>cs_daemon := k\<rparr>)"
    "entry_at ?i dir (nth_name name m) (cs_daemon s) = None" "unchanged ?i (cs_daemon s) k"
    using new_entry_place_of [OF assms(1) ln] by blast
  let ?l = "\<lparr>el_folder = dir, el_key = nth_name name m\<rparr>" and ?p = "fst (nextItemPath (cs_coll s))"
  let ?s = "s\<lparr>cs_daemon := k, cs_coll := snd (nextItemPath (cs_coll s))\<rparr>"
  have ne: "nth_name name m \<noteq> []" using nth_name_nonempty assms(4) ln by simp
  let ?s' = "say (ErrorReply ''InvalidObjectPath'') (pushNewItem t (fromEntryLocation ?l) ?p
    (describe_item d t ?l (se_mimeType secret) ?m ?s))"
  have c: "CreateItem d t ses sender (Some (Some label)) attribsFound secret False s = Ret (Inl ''InvalidObjectPath'', ?s')"
    using k(1) ne assms(2,5) by (simp add: CreateItem_def new_place_def nextItemPath_def fill_item_def fail_with_def Let_def)
  have "qmap_wf (co_items (cs_coll (describe_item d t ?l (se_mimeType secret) ?m ?s)))"
    using assms(3) by (simp add: nextItemPath_def)
  then have g: "getItem (cs_coll ?s') ?p = Some \<lparr>it_label = fromEntryLocation ?l\<rparr>"
    by (simp add: getItem_def pushNewItem_items(1))
  have "wallet_content ?i (cs_daemon ?s') = wallet_content ?i k"
    by (simp add: pushNewItem_def onItemChanged_def describe_item_def Let_def)
  with c g k(2,3) show ?thesis
    by (intro exI [of _ ?p] exI [of _ ?l] exI [of _ ?s']) (simp add: unchanged_def entry_at_content)
qed

theorem item_without_entry_witness:
  "\<exists>p l s'. CreateItem example_desktop 5 [] (qs ''me'') (Some (Some (qs ''mail''))) None (my_secret [1]) False example_cstate =
     Ret (Inl ''InvalidObjectPath'', s') \<and> getItem (cs_coll s') p = Some \<lparr>it_label = fromEntryLocation l\<rparr> \<and>
     entry_at 7 (el_folder l) (el_key l) (cs_daemon s') = None"
proof -
  have "desecret example_desktop (qs ''me'') [] (my_secret [1]) = (False, my_secret [1])" by (simp add: desecret_def)
  moreover have "co_handle (cs_coll example_cstate) = 7" "qmap_wf (co_items (cs_coll example_cstate))"
    "snd (label_place (qs ''mail'')) \<noteq> []"
    using label_place_mail by (simp_all add: example_cstate_def example_collection_def qs_def)
  ultimately show ?thesis
    using item_without_entry [OF example_usable, of "qs ''mail''" example_desktop "qs ''me''" "[]" "my_secret [1]" _ 5 None] by fastforce
qed

section \<open>Locking\<close>

text \<open>When its wallet is closed, a collection keeps its items, and asks the daemon for the folders of the handle -1: a
  failed access is counted for every wallet that is closed.\<close>

theorem lock_counts_failure:
  assumes "0 \<le> co_handle (cs_coll s)" and "qmap_find (ks_wallets (cs_daemon s)) (-1) = None"
  shows "onWalletChangeState d t (-1) s =
    Ret (s\<lparr>cs_coll := (cs_coll s)\<lparr>co_handle := -1\<rparr>, cs_daemon := count_failure (cs_daemon s)\<rparr>)"
  using assms by (simp add: onWalletChangeState_def call_def KSecretD_folderList_def KSecretD_getWallet_def Let_def)

theorem lock_counts_failure_witness:
  "\<exists>s'. onWalletChangeState example_desktop 5 (-1) example_cstate = Ret s' \<and> ks_failed (cs_daemon s') = 1"
  using lock_counts_failure [of example_cstate example_desktop 5]
  by (simp add: example_cstate_def example_collection_def one_wallet_def fresh_daemon_def qmap_find_def count_failure_def Let_def)

section \<open>Unlocking\<close>

text \<open>The items were numbered by the collection's counter.\<close>

definition coll_inv :: "collection \<Rightarrow> bool" where
  "coll_inv c \<longleftrightarrow> qmap_wf (co_items c) \<and>
     (\<forall>p i. qmap_find (co_items c) p = Some i \<longrightarrow> (\<exists>n < co_counter c. p = co_path c @ slash # dec n))"

lemma find_in_map: "qmap_wf m \<Longrightarrow> (k, v) \<in> set m \<longleftrightarrow> qmap_find m k = Some v"
  by (simp add: qmap_find_def qmap_wf_def strict_sorted_iff)

lemma found_iff:
  assumes "coll_inv c"
  shows "findItemByEntryLocation c l \<noteq> None \<longleftrightarrow> (\<exists>p i. qmap_find (co_items c) p = Some i \<and> it_label i = fromEntryLocation l)"
proof -
  have w: "qmap_wf (co_items c)" using assms by (simp add: coll_inv_def)
  have "findItemByEntryLocation c l \<noteq> None \<longleftrightarrow> (\<exists>(p, i) \<in> set (co_items c). it_label i = fromEntryLocation l)"
    by (auto simp: findItemByEntryLocation_def find_None_iff)
  then show ?thesis using find_in_map [OF w] by auto
qed

text \<open>Items stay, under their paths and labels.\<close>

definition grown :: "int \<Rightarrow> nat \<Rightarrow> cstate \<Rightarrow> cstate \<Rightarrow> bool" where
  "grown i n s s' \<longleftrightarrow> coll_inv (cs_coll s') \<and> qmap_find (co_items (cs_coll s)) \<subseteq>\<^sub>m qmap_find (co_items (cs_coll s')) \<and>
     co_counter (cs_coll s') \<le> co_counter (cs_coll s) + n \<and> co_handle (cs_coll s') = co_handle (cs_coll s) \<and>
     usable i (cs_daemon s') \<and> wallet_content i (cs_daemon s') = wallet_content i (cs_daemon s)"

lemma grown_refl: "coll_inv (cs_coll s) \<Longrightarrow> usable i (cs_daemon s) \<Longrightarrow> grown i n s s"
  by (simp add: grown_def)

lemma grown_trans: "grown i m s s' \<Longrightarrow> grown i n s' s'' \<Longrightarrow> grown i (m + n) s s''"
  unfolding grown_def by (auto intro: map_le_trans)

lemma grown_found:
  assumes "coll_inv (cs_coll s)" and "grown i n s s'" and "findItemByEntryLocation (cs_coll s) l \<noteq> None"
  shows "findItemByEntryLocation (cs_coll s') l \<noteq> None"
proof -
  obtain p x where x: "qmap_find (co_items (cs_coll s)) p = Some x" "it_label x = fromEntryLocation l"
    using assms(3) found_iff [OF assms(1)] by blast
  have g: "coll_inv (cs_coll s')" "qmap_find (co_items (cs_coll s)) \<subseteq>\<^sub>m qmap_find (co_items (cs_coll s'))"
    using assms(2) by (simp_all add: grown_def)
  have "qmap_find (co_items (cs_coll s')) p = Some x" using g(2) x(1) unfolding map_le_def by (metis domI)
  with x(2) show ?thesis using found_iff [OF g(1)] by blast
qed

lemma call_unchanged:
  assumes "unchanged i (cs_daemon s) k" and "coll_inv (cs_coll s)"
  shows "grown i n s (s\<lparr>cs_daemon := k\<rparr>)"
  using assms by (simp add: grown_def unchanged_def)

lemma adopt_entry_grows:
  assumes "coll_inv (cs_coll s)" and "co_counter (cs_coll s) + 1 < 2 ^ 64" and "usable (co_handle (cs_coll s)) (cs_daemon s)"
  shows "\<exists>s'. adopt_entry d t folder entry s = Ret s' \<and> grown (co_handle (cs_coll s)) 1 s s' \<and>
    findItemByEntryLocation (cs_coll s') \<lparr>el_folder = folder, el_key = entry\<rparr> \<noteq> None"
proof -
  let ?l = "\<lparr>el_folder = folder, el_key = entry\<rparr>" and ?i = "co_handle (cs_coll s)"
  show ?thesis
  proof (cases "findItemByEntryLocation (cs_coll s) ?l")
    case (Some p)
    then show ?thesis using assms by (simp add: adopt_entry_def Let_def grown_def)
  next
    case None
    obtain et k where k: "KSecretD_entryType ?i folder entry (cs_daemon s) = Ret (et, k)" "unchanged ?i (cs_daemon s) k"
      using entryType_at [OF assms(3)] by blast
    let ?attr = "qmap_insert (qs ''type'') (type_text et) (qmap_insert (qs ''user'') entry (qmap_insert (qs ''server'') folder []))"
    define s1 where "s1 = on_attribs (Attributes_setAttributes d t ?l ?attr) (on_attribs (setParamNumber d t ?l FDO_KEY_MODIFIED t)
      (on_attribs (setParamNumber d t ?l FDO_KEY_CREATED t) (on_attribs (apfst (Attributes_newItem ?l)) (s\<lparr>cs_daemon := k\<rparr>))))"
    let ?p = "co_path (cs_coll s) @ slash # dec (co_counter (cs_coll s))"
    let ?c = "(cs_coll s1)\<lparr>co_counter := co_counter (cs_coll s) + 1\<rparr>"
    define s2 where "s2 = pushNewItem t (fromEntryLocation ?l) ?p (s1\<lparr>cs_coll := ?c\<rparr>)"
    have n: "(co_counter (cs_coll s) + 1) mod 2 ^ 64 = co_counter (cs_coll s) + 1" using assms(2) by simp
    have np: "nextItemPath (cs_coll s1) = (?p, ?c)" using n unfolding nextItemPath_def s1_def by simp
    have e: "adopt_entry d t folder entry s =
        Ret (say (ItemCreated ?p) (on_attribs (Attributes_setAttributes d t (fromUniqueLabel (fromEntryLocation ?l)) ?attr) s2))"
      unfolding adopt_entry_def Let_def None option.case k(1) run_bind.simps prod.case s1_def [symmetric] np s2_def [symmetric] ..
    have w: "qmap_wf (co_items (cs_coll s))" using assms(1) by (simp add: coll_inv_def)
    have fresh: "qmap_find (co_items (cs_coll s)) ?p = None"
    proof (rule ccontr)
      assume "qmap_find (co_items (cs_coll s)) ?p \<noteq> None"
      then obtain n where "n < co_counter (cs_coll s)" "?p = co_path (cs_coll s) @ slash # dec n"
        using assms(1) unfolding coll_inv_def by blast
      then show False by (simp add: dec_inj)
    qed
    have i2: "qmap_find (co_items (cs_coll s2)) = (qmap_find (co_items (cs_coll s)))(?p \<mapsto> \<lparr>it_label = fromEntryLocation ?l\<rparr>)"
      "qmap_wf (co_items (cs_coll s2))"
      unfolding s2_def using w pushNewItem_items [of "s1\<lparr>cs_coll := ?c\<rparr>"] by (simp_all add: s1_def)
    have f2: "co_path (cs_coll s2) = co_path (cs_coll s)" "co_counter (cs_coll s2) = co_counter (cs_coll s) + 1"
      by (simp_all add: s2_def s1_def pushNewItem_def onItemChanged_def Let_def)
    have inv: "coll_inv (cs_coll s2)"
      unfolding coll_inv_def using i2 f2 assms(1) by (auto simp: coll_inv_def less_Suc_eq)
    have u: "usable ?i (cs_daemon s2)" "wallet_content ?i (cs_daemon s2) = wallet_content ?i (cs_daemon s)"
      "co_handle (cs_coll s2) = ?i"
      using k(2) by (simp_all add: s2_def s1_def pushNewItem_def onItemChanged_def Let_def unchanged_def)
    have le: "qmap_find (co_items (cs_coll s)) \<subseteq>\<^sub>m qmap_find (co_items (cs_coll s2))"
      unfolding i2(1) using fresh by (auto simp: map_le_def)
    have "findItemByEntryLocation (cs_coll s2) ?l \<noteq> None" unfolding found_iff [OF inv] i2(1) by auto
    then have "findItemByEntryLocation (cs_coll s2 \<lparr>co_attribs := x\<rparr>) ?l \<noteq> None" for x by (simp add: findItemByEntryLocation_def)
    moreover have "grown ?i 1 s s2" unfolding grown_def using inv le f2 u by simp
    ultimately show ?thesis
      unfolding e by (simp add: grown_def coll_inv_def findItemByEntryLocation_def)
  qed
qed

lemma adopt_entries_grow:
  assumes "coll_inv (cs_coll s)" and "co_counter (cs_coll s) + length es < 2 ^ 64" and "usable (co_handle (cs_coll s)) (cs_daemon s)"
  shows "\<exists>s'. adopt_entries d t folder es s = Ret s' \<and> grown (co_handle (cs_coll s)) (length es) s s' \<and>
    (\<forall>e \<in> set es. findItemByEntryLocation (cs_coll s') \<lparr>el_folder = folder, el_key = e\<rparr> \<noteq> None)"
  using assms
proof (induction es arbitrary: s)
  case Nil
  then show ?case by (simp add: grown_refl)
next
  case (Cons e es)
  let ?i = "co_handle (cs_coll s)"
  obtain s1 where s1: "adopt_entry d t folder e s = Ret s1" "grown ?i 1 s s1"
    "findItemByEntryLocation (cs_coll s1) \<lparr>el_folder = folder, el_key = e\<rparr> \<noteq> None"
    using adopt_entry_grows [OF Cons.prems(1) _ Cons.prems(3), of d t folder e] Cons.prems(2) by auto
  have g: "coll_inv (cs_coll s1)" "co_counter (cs_coll s1) + length es < 2 ^ 64" "usable (co_handle (cs_coll s1)) (cs_daemon s1)"
    "co_handle (cs_coll s1) = ?i"
    using s1(2) Cons.prems(2) by (simp_all add: grown_def)
  then obtain s2 where s2: "adopt_entries d t folder es s1 = Ret s2" "grown ?i (length es) s1 s2"
    "\<forall>e \<in> set es. findItemByEntryLocation (cs_coll s2) \<lparr>el_folder = folder, el_key = e\<rparr> \<noteq> None"
    using Cons.IH [OF g(1-3)] by auto
  have "findItemByEntryLocation (cs_coll s2) \<lparr>el_folder = folder, el_key = e\<rparr> \<noteq> None"
    by (rule grown_found [OF g(1) s2(2) s1(3)])
  with s1(1) s2 grown_trans [OF s1(2) s2(2)] show ?case by simp
qed

text \<open>The number of entries in the given folders.\<close>

definition entry_count :: "int \<Rightarrow> qstring list \<Rightarrow> ksecretd \<Rightarrow> nat" where
  "entry_count i fs k = sum_list (map (\<lambda>f. card {key. entry_at i f key k \<noteq> None}) fs)"

lemma entry_count_content: "wallet_content i k' = wallet_content i k \<Longrightarrow> entry_count i fs k' = entry_count i fs k"
  by (simp add: entry_count_def entry_at_content)

lemma adopt_folders_grow:
  assumes "coll_inv (cs_coll s)" and "usable (co_handle (cs_coll s)) (cs_daemon s)"
    and "co_counter (cs_coll s) + entry_count (co_handle (cs_coll s)) fs (cs_daemon s) < 2 ^ 64"
  shows "\<exists>s'. adopt_folders d t fs s = Ret s' \<and> grown (co_handle (cs_coll s)) (entry_count (co_handle (cs_coll s)) fs (cs_daemon s)) s s' \<and>
    (\<forall>f \<in> set fs. \<forall>key. entry_at (co_handle (cs_coll s)) f key (cs_daemon s) \<noteq> None \<longrightarrow>
      findItemByEntryLocation (cs_coll s') \<lparr>el_folder = f, el_key = key\<rparr> \<noteq> None)"
  using assms
proof (induction fs arbitrary: s)
  case Nil
  then show ?case by (simp add: grown_refl)
next
  case (Cons f fs)
  let ?i = "co_handle (cs_coll s)"
  obtain es k where k: "KSecretD_entryList ?i f (cs_daemon s) = (es, k)" "unchanged ?i (cs_daemon s) k" "distinct es"
    "set es = {key. entry_at ?i f key (cs_daemon s) \<noteq> None}"
    using lists_at(2) [OF Cons.prems(2)] by blast
  let ?s = "s\<lparr>cs_daemon := k\<rparr>"
  have n: "entry_count ?i (f # fs) (cs_daemon s) = length es + entry_count ?i fs (cs_daemon s)"
    using distinct_card [OF k(3)] k(4) by (simp add: entry_count_def)
  have g0: "grown ?i 0 s ?s" by (rule call_unchanged [OF k(2) Cons.prems(1)])
  have p: "coll_inv (cs_coll ?s)" "co_counter (cs_coll ?s) + length es < 2 ^ 64" "usable (co_handle (cs_coll ?s)) (cs_daemon ?s)"
    using Cons.prems n unchanged_usable [OF k(2)] by simp_all
  obtain s1 where s1: "adopt_entries d t f es ?s = Ret s1" "grown ?i (length es) ?s s1"
    "\<forall>e \<in> set es. findItemByEntryLocation (cs_coll s1) \<lparr>el_folder = f, el_key = e\<rparr> \<noteq> None"
    using adopt_entries_grow [OF p, of d t f] by auto
  have g1: "grown ?i (length es) s s1" using grown_trans [OF g0 s1(2)] by simp
  then have w: "wallet_content ?i (cs_daemon s1) = wallet_content ?i (cs_daemon s)" "co_handle (cs_coll s1) = ?i"
    "coll_inv (cs_coll s1)" "usable ?i (cs_daemon s1)" "co_counter (cs_coll s1) \<le> co_counter (cs_coll s) + length es"
    by (simp_all add: grown_def)
  have c: "entry_count ?i fs (cs_daemon s1) = entry_count ?i fs (cs_daemon s)" by (rule entry_count_content [OF w(1)])
  obtain s2 where s2: "adopt_folders d t fs s1 = Ret s2" "grown ?i (entry_count ?i fs (cs_daemon s)) s1 s2"
    "\<forall>f \<in> set fs. \<forall>key. entry_at ?i f key (cs_daemon s) \<noteq> None \<longrightarrow>
      findItemByEntryLocation (cs_coll s2) \<lparr>el_folder = f, el_key = key\<rparr> \<noteq> None"
    using Cons.IH [of s1] Cons.prems(3) w c n by (auto simp: entry_at_content)
  have "findItemByEntryLocation (cs_coll s2) \<lparr>el_folder = f, el_key = e\<rparr> \<noteq> None" if "e \<in> set es" for e
    using grown_found [OF w(3) s2(2)] s1(3) that by blast
  moreover have "adopt_folders d t (f # fs) s = Ret s2" using k(1) s1(1) s2(1) by (simp add: call_def)
  ultimately show ?case using s2(3) grown_trans [OF g1 s2(2)] k(4) n by auto
qed

text \<open>C14. When its wallet is opened, a closed collection gets an item for every entry of the wallet that had none, and keeps
  the items it has, with their paths; the wallet is only read.\<close>

theorem unlocked_entries_listed:
  assumes "coll_inv (cs_coll s)" and "co_handle (cs_coll s) < 0" and "0 < handle" and "usable handle (cs_daemon s)"
    and "co_counter (cs_coll s) + entry_count handle (fst (KSecretD_folderList handle (cs_daemon s))) (cs_daemon s) < 2 ^ 64"
  shows "\<exists>s'. onWalletChangeState d t handle s = Ret s' \<and> co_handle (cs_coll s') = handle \<and> coll_inv (cs_coll s') \<and>
    (\<forall>f key. entry_at handle f key (cs_daemon s) \<noteq> None \<longrightarrow>
      findItemByEntryLocation (cs_coll s') \<lparr>el_folder = f, el_key = key\<rparr> \<noteq> None) \<and>
    qmap_find (co_items (cs_coll s)) \<subseteq>\<^sub>m qmap_find (co_items (cs_coll s')) \<and>
    wallet_content handle (cs_daemon s') = wallet_content handle (cs_daemon s)"
proof -
  obtain fs k where k: "KSecretD_folderList handle (cs_daemon s) = (fs, k)" "unchanged handle (cs_daemon s) k"
    "\<forall>f key. entry_at handle f key (cs_daemon s) \<noteq> None \<longrightarrow> f \<in> set fs"
    using lists_at(1) [OF assms(4)] by blast
  let ?s = "s\<lparr>cs_coll := (cs_coll s)\<lparr>co_handle := handle\<rparr>, cs_daemon := k\<rparr>"
  have w: "wallet_content handle k = wallet_content handle (cs_daemon s)" "usable handle k"
    using k(2) by (simp_all add: unchanged_def)
  have p: "coll_inv (cs_coll ?s)" "usable (co_handle (cs_coll ?s)) (cs_daemon ?s)"
    "co_counter (cs_coll ?s) + entry_count (co_handle (cs_coll ?s)) fs (cs_daemon ?s) < 2 ^ 64"
    using assms(1,5) k(1) w entry_count_content [OF w(1)] by (simp_all add: coll_inv_def)
  obtain s' where s': "adopt_folders d t fs ?s = Ret s'" "grown handle (entry_count handle fs k) ?s s'"
    "\<forall>f \<in> set fs. \<forall>key. entry_at handle f key k \<noteq> None \<longrightarrow> findItemByEntryLocation (cs_coll s') \<lparr>el_folder = f, el_key = key\<rparr> \<noteq> None"
    using adopt_folders_grow [OF p, of d t] by auto
  have "onWalletChangeState d t handle s = Ret s'"
    using assms(2,3) k(1) s'(1) by (simp add: onWalletChangeState_def call_def Let_def)
  moreover have "\<forall>f key. entry_at handle f key (cs_daemon s) \<noteq> None \<longrightarrow>
      findItemByEntryLocation (cs_coll s') \<lparr>el_folder = f, el_key = key\<rparr> \<noteq> None"
    using s'(3) k(3) unchanged_entry [OF k(2)] by metis
  ultimately show ?thesis using s'(2) w(1) by (intro exI [of _ s']) (simp add: grown_def)
qed

text \<open>A wallet with one entry, and a collection that was closed.\<close>

definition stored_daemon :: ksecretd where
  "stored_daemon = snd (write_to example_host 7 (qs ''f'') (daemon_entry (qs ''k'') [1] Stream) one_wallet)"

lemma stored_daemon_usable: "usable 7 stored_daemon"
  unfolding stored_daemon_def by (rule write_to_store(1) [OF one_wallet_usable])

lemma stored_daemon_entry: "entry_at 7 f key stored_daemon =
    (if f = qs ''f'' \<and> key = qs ''k'' then Some (daemon_entry (qs ''k'') [1] Stream) else None)"
  unfolding stored_daemon_def write_to_store(2) [OF one_wallet_usable] one_wallet_empty by (simp add: daemon_entry_def)

definition locked_cstate :: cstate where
  "locked_cstate = example_cstate\<lparr>cs_coll := example_collection\<lparr>co_handle := -1\<rparr>, cs_daemon := stored_daemon\<rparr>"

theorem unlocked_entries_listed_witness:
  "\<exists>s'. onWalletChangeState example_desktop 5 7 locked_cstate = Ret s' \<and>
     findItemByEntryLocation (cs_coll s') \<lparr>el_folder = qs ''f'', el_key = qs ''k''\<rparr> \<noteq> None"
proof -
  let ?fs = "fst (KSecretD_folderList 7 stored_daemon)"
  obtain k' where "KSecretD_getWallet 7 one_wallet = (Some empty_wallet, k')" "ks_wallets k' = [(7, empty_wallet)]"
    using getWallet_valid [of one_wallet 7 empty_wallet] by (auto simp: one_wallet_def qmap_find_def)
  then have "\<exists>b. qmap_find (ks_wallets stored_daemon) 7 = Some b \<and> Backend_folderList b = [qs ''f'']"
    by (simp add: stored_daemon_def write_to_def Let_def qmap_find_def Backend_writeEntry_def Backend_setFolder_def
        empty_wallet_def Backend_new_def Backend_folderList_def qmap_keys_def)
  then obtain b where b: "qmap_find (ks_wallets stored_daemon) 7 = Some b" "Backend_folderList b = [qs ''f'']" by blast
  obtain s' where "KSecretD_getWallet 7 stored_daemon = (Some b, s')" using getWallet_valid [OF b(1)] by auto
  then have "?fs = [qs ''f'']" using b(2) by (simp add: KSecretD_folderList_def)
  moreover have "{key. \<exists>y. entry_at 7 (qs ''f'') key stored_daemon = Some y} = {qs ''k''}"
    by (auto simp: stored_daemon_entry)
  ultimately have n: "entry_count 7 ?fs stored_daemon = 1" by (simp add: entry_count_def)
  have "coll_inv (cs_coll locked_cstate)" "co_handle (cs_coll locked_cstate) < 0" "co_counter (cs_coll locked_cstate) = 0"
    "cs_daemon locked_cstate = stored_daemon"
    by (simp_all add: locked_cstate_def example_collection_def coll_inv_def)
  with n stored_daemon_usable stored_daemon_entry show ?thesis
    using unlocked_entries_listed [of locked_cstate 7 example_desktop 5] by fastforce
qed

end
