(* ===== verification/FdoServiceProps.thy ===== *)
theory FdoServiceProps
  imports FdoClaims KSecretDClaims
begin

text \<open>
  Properties of the service: what calls do on collections whose wallets are closed, that the reactions to
  the daemon's events end, what the prompts answer, and the aliases.
\<close>

section \<open>Frames\<close>

lemma send_simps [simp]:
  "fd_daemon (send m s) = fd_daemon s" "fd_collections (send m s) = fd_collections s" "fd_prompts (send m s) = fd_prompts s"
  "fd_aliases (send m s) = fd_aliases s" "fd_futures (send m s) = fd_futures s" "fd_log (send m s) = fd_log s @ [m]"
  "fd_connected (send m s) = fd_connected s"
  by (simp_all add: send_def)

lemma drain_simps [simp]:
  "fd_collections (drain s) = fd_collections s" "fd_prompts (drain s) = fd_prompts s" "fd_log (drain s) = fd_log s"
  "fd_aliases (drain s) = fd_aliases s" "fd_futures (drain s) = fd_futures s" "fd_connected (drain s) = fd_connected s"
  "fd_daemon (drain s) = (fd_daemon s)\<lparr>ks_events := []\<rparr>"
  by (simp_all add: drain_def)

section \<open>Closed wallets\<close>

text \<open>Events that concern nobody here.\<close>

lemma react_ignored:
  assumes "set es \<subseteq> {NotifyFailures, ProcessTransactions, StartManager, Quit}"
  shows "react d t es s = Ret s"
proof -
  have "slots r d t es s = Ret s" for r using assms by (induction es) (auto simp: slot_def)
  then show ?thesis by (simp add: react_def)
qed

lemma count_failure_events: "\<exists>es. ks_events (count_failure k) = ks_events k @ es \<and> set es \<subseteq> {NotifyFailures}"
  by (auto simp: count_failure_def emit_def Let_def)

lemma onItemDeleted_items:
  assumes "qmap_wf (co_items (cs_coll s))"
  shows "getItem (cs_coll (onItemDeleted d t p s)) p = None"
  using assms by (auto simp: onItemDeleted_def getItem_def qmap_simps Let_def split: option.split)

lemma on_coll_Ret:
  "qmap_find (fd_collections s) p = Some c \<Longrightarrow> f \<lparr>cs_coll = c, cs_daemon = fd_daemon s, cs_log = fd_log s\<rparr> = Ret (r, cs) \<Longrightarrow>
    on_coll p f s = Ret (r, drain (s\<lparr>fd_collections := qmap_insert p (cs_coll cs) (fd_collections s),
      fd_daemon := cs_daemon cs, fd_log := cs_log cs\<rparr>))"
  by (simp add: on_coll_def)

lemma do_coll_Ret:
  "qmap_find (fd_collections s) p = Some c \<Longrightarrow> f \<lparr>cs_coll = c, cs_daemon = fd_daemon s, cs_log = fd_log s\<rparr> = Ret cs \<Longrightarrow>
    do_coll p f s = Ret (drain (s\<lparr>fd_collections := qmap_insert p (cs_coll cs) (fd_collections s),
      fd_daemon := cs_daemon cs, fd_log := cs_log cs\<rparr>))"
  by (simp add: do_coll_def on_coll_def)

text \<open>The attributes file of a collection is the only file that an operation on its attributes touches.\<close>

lemma write_files: "q \<noteq> at_path a \<Longrightarrow> snd (Attributes_write d t (a, fs)) q = fs q"
  by (auto simp: Attributes_write_def remove_file_def updateLastModified_def sf_write_def sf_commit_def Let_def split: prod.split)

lemma Attributes_remove_member:
  assumes "qmap_wf (at_params a)"
  shows "params_of (fst (Attributes_remove d t l (a, fs))) l = None"
    and "q \<noteq> at_path a \<Longrightarrow> snd (Attributes_remove d t l (a, fs)) q = fs q"
proof -
  let ?a = "a\<lparr>at_params := qmap_remove (entryLocationToStr l) (at_params a)\<rparr>"
  have "params_of ?a l = None" by (simp add: params_of_def qmap_find_remove)
  moreover have "qmap_wf (at_params ?a)" using assms by (simp add: qmap_simps)
  ultimately show "params_of (fst (Attributes_remove d t l (a, fs))) l = None"
    using write_params(1) [of ?a] by (auto simp: Attributes_remove_def Let_def params_of_def)
  show "snd (Attributes_remove d t l (a, fs)) q = fs q" if "q \<noteq> at_path a"
    using that write_files [of q ?a d t fs] by (simp add: Attributes_remove_def Let_def remove_file_def)
qed

text \<open>Deleting an item of a closed collection takes the item and its attributes away, but the entry stays: neither the
  open wallets nor any file but that of the attributes change.\<close>

theorem locked_item_deleted:
  assumes "qmap_wf (fd_collections s)" and "qmap_find (fd_collections s) p = Some c" and "co_handle c = -1" and "qmap_wf (co_items c)"
    and "qmap_wf (at_params (co_attribs c))" and "getItem c ip = Some i"
    and "qmap_find (ks_wallets (fd_daemon s)) (-1) = None" and "ks_events (fd_daemon s) = []"
  shows "\<exists>s' c'. Item_Delete d t p ip i s = Ret s' \<and> qmap_find (fd_collections s') p = Some c' \<and> getItem c' ip = None \<and>
    params_of (co_attribs c') (item_location i) = None \<and> ks_wallets (fd_daemon s') = ks_wallets (fd_daemon s) \<and>
    (\<forall>q. q \<noteq> at_path (co_attribs c) \<longrightarrow> ks_files (fd_daemon s') q = ks_files (fd_daemon s) q)"
proof -
  let ?l = "item_location i" and ?k = "count_failure (fd_daemon s)"
  have k: "KSecretD_removeEntry (d_host d) (-1) (el_folder ?l) (el_key ?l) (fd_daemon s) = Ret (-1, ?k)"
    using assms(7) by (simp add: KSecretD_removeEntry_def KSecretD_getWallet_def)
  have ev: "set (ks_events ?k) \<subseteq> {NotifyFailures, ProcessTransactions, StartManager, Quit}"
    using count_failure_events [of "fd_daemon s"] assms(8) by auto
  have fk: "ks_files ?k = ks_files (fd_daemon s)" "ks_wallets ?k = ks_wallets (fd_daemon s)"
    by (simp_all add: count_failure_def emit_def Let_def)
  define s1 where "s1 = send (UnregisterObject ip) (drain (s\<lparr>fd_daemon := ?k\<rparr>))"
  define cs where "cs = onItemDeleted d t ip \<lparr>cs_coll = c, cs_daemon = fd_daemon s1, cs_log = fd_log s1\<rparr>"
  have w: "with_daemon (react d t) (KSecretD_removeEntry (d_host d) (-1) (el_folder ?l) (el_key ?l)) s = Ret (-1, drain (s\<lparr>fd_daemon := ?k\<rparr>))"
    by (simp add: with_daemon_def k react_ignored [OF ev])
  have c1: "qmap_find (fd_collections s1) p = Some c" using assms(2) by (simp add: s1_def)
  let ?s' = "drain (s1\<lparr>fd_collections := qmap_insert p (cs_coll cs) (fd_collections s1), fd_daemon := cs_daemon cs, fd_log := cs_log cs\<rparr>)"
  have "Item_Delete d t p ip i s = Ret ?s'"
    using do_coll_Ret [OF c1, of "\<lambda>cs. Ret (onItemDeleted d t ip cs)"] w assms(2,3)
    by (simp add: Item_Delete_def Let_def s1_def [symmetric] cs_def [symmetric])
  moreover have "getItem (cs_coll cs) ip = None"
    unfolding cs_def using onItemDeleted_items assms(4) by simp
  moreover have m: "qmap_wf (at_params (updateLastModified t (co_attribs c)))"
    using assms(5) by (simp add: updateLastModified_def qmap_simps)
  have "params_of (co_attribs (cs_coll cs)) ?l = None \<and> ks_wallets (cs_daemon cs) = ks_wallets (fd_daemon s) \<and>
      (\<forall>q. q \<noteq> at_path (co_attribs c) \<longrightarrow> ks_files (cs_daemon cs) q = ks_files (fd_daemon s) q)"
    using Attributes_remove_member [OF m] assms(6) fk
    by (simp add: cs_def onItemDeleted_def getItem_def item_location_def s1_def Let_def updateLastModified_def)
  ultimately show ?thesis
    using assms(1) by (intro exI [of _ ?s'] exI [of _ "cs_coll cs"]) (simp add: qmap_simps s1_def)
qed

lemma unique_label_Ret: "\<exists>u. makeUniqueCollectionLabel h label k = Ret u"
proof -
  obtain m where "first_free (nth_name label) (KSecretD_wallets h k) 0 = Some m" by (rule wallet_names.found)
  then show ?thesis by (simp add: makeUniqueCollectionLabel_def)
qed

lemma object_path_Ret: "\<exists>q. makeUniqueObjectPath h ps name = Ret q"
proof -
  obtain m where "first_free (nth_path (FDO_SECRETS_COLLECTION_PATH @ mangleInvalidObjectPathChars h name)) ps 0 = Some m"
    by (rule object_paths.found)
  then show ?thesis by (simp add: makeUniqueObjectPath_def Let_def)
qed

definition example_fdo :: fdo where
  "example_fdo = \<lparr>fd_daemon = fresh_daemon, fd_connected = True, fd_collections = [(qs ''/c'', example_collection\<lparr>co_handle := -1\<rparr>)],
     fd_sessions = my_session, fd_sessionCounter = 0, fd_prompts = [], fd_promptCounter = 0, fd_transactionId = 0, fd_futures = [],
     fd_aliases = [], fd_log = [], fd_seen = []\<rparr>"

lemma example_fdo_coll: "qmap_find (fd_collections example_fdo) (qs ''/c'') = Some (example_collection\<lparr>co_handle := -1\<rparr>)"
  by (simp add: example_fdo_def qmap_find_def)

theorem locked_item_deleted_witness:
  "\<exists>s' c'. Item_Delete example_desktop 5 (qs ''/c'') (qs ''/c/0'') \<lparr>it_label = fromEntryLocation loc_fk\<rparr>
     (example_fdo\<lparr>fd_collections := [(qs ''/c'', example_collection\<lparr>co_handle := -1, co_items := [(qs ''/c/0'', \<lparr>it_label = fromEntryLocation loc_fk\<rparr>)]\<rparr>)]\<rparr>) =
     Ret s' \<and> qmap_find (fd_collections s') (qs ''/c'') = Some c' \<and> getItem c' (qs ''/c/0'') = None"
  (is "\<exists>s' c'. Item_Delete _ _ ?p ?ip ?i ?s = Ret s' \<and> _ s' c'")
proof -
  let ?c = "example_collection\<lparr>co_handle := -1, co_items := [(?ip, ?i)]\<rparr>"
  have "qmap_wf (fd_collections ?s)" "qmap_find (fd_collections ?s) ?p = Some ?c" "co_handle ?c = -1" "qmap_wf (co_items ?c)"
    "qmap_wf (at_params (co_attribs ?c))" "getItem ?c ?ip = Some ?i" "qmap_find (ks_wallets (fd_daemon ?s)) (-1) = None"
    "ks_events (fd_daemon ?s) = []"
    by (simp_all add: example_fdo_def example_collection_def fresh_daemon_def qmap_find_def qmap_wf_def getItem_def)
  from locked_item_deleted [OF this, of example_desktop 5] show ?thesis by blast
qed

lemma fold_removeAlias: "fd_daemon (fold removeAlias as s) = fd_daemon s" "fd_collections (fold removeAlias as s) = fd_collections s"
  by (induction as arbitrary: s) (simp_all add: removeAlias_def)

text \<open>Deleting or renaming the collection of a wallet that is not open, but has a file, is undefined: the daemon goes
  through a null pointer.\<close>

theorem closed_collection_calls:
  assumes "qmap_find (fd_collections s) p = Some c" and "findWallet (co_walletName c) (fd_daemon s) = None"
    and "ks_files (fd_daemon s) (wallet_path (d_host d) (co_walletName c)) \<noteq> None" and "newLabel \<noteq> ul_label (co_label c)"
  shows "Collection_Delete r d p s = UB \<and> Collection_setLabel d p newLabel s = UB"
proof
  show "Collection_Delete r d p s = UB"
    using assms(1-3) by (auto simp: Collection_Delete_def with_daemon_def KSecretD_deleteWallet_def fold_removeAlias Let_def)
  obtain u where "makeUniqueCollectionLabel (d_host d) newLabel (fd_daemon s) = Ret u" using unique_label_Ret by blast
  then show "Collection_setLabel d p newLabel s = UB"
    using assms(1,2,4) by (simp add: Collection_setLabel_def KSecretD_renameWallet_def co_walletName_def Let_def)
qed

theorem closed_collection_calls_witness:
  "\<exists>s. Collection_Delete (react example_desktop 5) example_desktop (qs ''/c'') s = UB \<and> co_listItems example_collection = []"
proof -
  let ?s = "example_fdo\<lparr>fd_daemon := fresh_daemon\<lparr>ks_files := \<lambda>_. Some []\<rparr>\<rparr>" and ?c = "example_collection\<lparr>co_handle := -1\<rparr>"
  have f: "qmap_find (fd_collections ?s) (qs ''/c'') = Some ?c" using example_fdo_coll by simp
  have w: "findWallet (co_walletName ?c) (fd_daemon ?s) = None"
    "ks_files (fd_daemon ?s) (wallet_path (d_host example_desktop) (co_walletName ?c)) \<noteq> None"
    by (simp_all add: findWallet_def fresh_daemon_def)
  have l: "[1] \<noteq> ul_label (co_label ?c)" by (simp add: example_collection_def qs_def)
  have "co_listItems example_collection = []" by (simp add: example_collection_def co_listItems_def qmap_keys_def)
  with closed_collection_calls [OF f w l] show ?thesis by blast
qed

section \<open>Answers of prompts\<close>

definition is_answer :: "message \<Rightarrow> bool" where
  "is_answer m = (case m of Completed _ _ _ _ \<Rightarrow> True | _ \<Rightarrow> False)"

lemma is_answer_simps [simp]:
  "is_answer (Completed b p x r)" "\<not> is_answer (ItemCreated q)" "\<not> is_answer (ItemChanged q)" "\<not> is_answer (CollectionCreated q)"
  "\<not> is_answer (CollectionChanged q)" "\<not> is_answer (PropertiesChanged q l)" "\<not> is_answer (RegisterObject q)"
  "\<not> is_answer (UnregisterObject q)"
  by (simp_all add: is_answer_def)

definition answers :: "fdo \<Rightarrow> message list" where
  "answers s = filter is_answer (fd_log s)"

text \<open>A collection answers no prompt.\<close>

definition quiet :: "cstate \<Rightarrow> cstate \<Rightarrow> bool" where
  "quiet s s' \<longleftrightarrow> filter is_answer (cs_log s') = filter is_answer (cs_log s)"

lemma quiet_refl [simp]: "quiet s s"
  by (simp add: quiet_def)

lemma quiet_trans [trans]: "quiet s s' \<Longrightarrow> quiet s' s'' \<Longrightarrow> quiet s s''"
  by (simp add: quiet_def)

lemma quiet_pushNewItem [simp]: "filter is_answer (cs_log (pushNewItem t u p s)) = filter is_answer (cs_log s)"
  by (cases "getItem (cs_coll s) p = None") (simp_all add: pushNewItem_def onItemChanged_def Let_def)

lemma quiet_adopt_entry:
  assumes "adopt_entry d t f e s = Ret s'"
  shows "quiet s s'"
proof (cases "findItemByEntryLocation (cs_coll s) \<lparr>el_folder = f, el_key = e\<rparr>")
  case None
  then show ?thesis using assms by (auto simp: adopt_entry_def quiet_def nextItemPath_def Let_def run_bind_Ret_iff)
next
  case (Some p)
  then show ?thesis using assms by (auto simp: adopt_entry_def quiet_def Let_def)
qed

lemma quiet_adopt_entries: "adopt_entries d t f es s = Ret s' \<Longrightarrow> quiet s s'"
  by (induction es arbitrary: s) (auto simp: run_bind_Ret_iff dest: quiet_adopt_entry intro: quiet_trans)

lemma quiet_adopt_folders: "adopt_folders d t fs s = Ret s' \<Longrightarrow> quiet s s'"
proof (induction fs arbitrary: s)
  case (Cons f fs)
  obtain es s1 where s1: "call (KSecretD_entryList (co_handle (cs_coll s)) f) s = (es, s1)" by force
  then have "quiet s s1" using call_simps(3) [of "KSecretD_entryList (co_handle (cs_coll s)) f" s] by (simp add: quiet_def)
  moreover obtain s2 where "adopt_entries d t f es s1 = Ret s2" "adopt_folders d t fs s2 = Ret s'"
    using Cons.prems s1 by (auto simp: run_bind_Ret_iff)
  ultimately show ?case using Cons.IH quiet_adopt_entries quiet_trans by metis
qed simp

lemma quiet_change:
  assumes "onWalletChangeState d t handle s = Ret s'"
  shows "quiet s s'"
proof -
  let ?s = "s\<lparr>cs_coll := (cs_coll s)\<lparr>co_handle := handle\<rparr>\<rparr>"
  obtain fs s1 where s1: "call (KSecretD_folderList handle) ?s = (fs, s1)" by force
  then have "quiet s s1" using call_simps(3) [of "KSecretD_folderList handle" ?s] by (simp add: quiet_def)
  moreover have "s' = s \<or> s' = ?s \<or> adopt_folders d t fs s1 = Ret s'"
    using assms s1 by (auto simp: onWalletChangeState_def Let_def split: if_splits)
  moreover have "quiet s ?s" by (simp add: quiet_def)
  ultimately show ?thesis using quiet_adopt_folders quiet_trans quiet_refl by metis
qed

lemma quiet_list_items: "quiet s (list_items t ls s)"
proof (induction ls arbitrary: s)
  case (Cons l ls)
  let ?s = "if findItemByEntryLocation (cs_coll s) l = None
    then let (p, c) = nextItemPath (cs_coll s) in pushNewItem t (fromEntryLocation l) p (s\<lparr>cs_coll := c\<rparr>) else s"
  have "quiet s ?s" by (simp add: quiet_def nextItemPath_def)
  also have "quiet ?s (list_items t ls ?s)" by (rule Cons.IH)
  finally show ?case by (simp del: if_split)
qed simp

lemma quiet_new:
  assumes "Collection_new d t handle name p as k log = Ret cs"
  shows "filter is_answer (cs_log cs) = filter is_answer log"
proof -
  have f: "filter is_answer (cs_log (fold (\<lambda>alias. say (RegisterObject (FDO_ALIAS_PATH @ alias))) as s)) = filter is_answer (cs_log s)" for s
    by (induction as arbitrary: s) simp_all
  define s0 where "s0 = fold (\<lambda>alias. say (RegisterObject (FDO_ALIAS_PATH @ alias))) as (say (RegisterObject p)
    \<lparr>cs_coll = \<lparr>co_path = p, co_handle = handle, co_label = fromName name, co_attribs = Attributes_new d t name (ks_files k),
      co_items = [], co_counter = 0\<rparr>, cs_daemon = k, cs_log = log\<rparr>)"
  have "filter is_answer (cs_log s0) = filter is_answer log" unfolding s0_def f by simp
  moreover obtain s1 where "onWalletChangeState d t handle s0 = Ret s1"
    "cs = (if co_handle (cs_coll s1) = -1 then list_items t (listItems (co_attribs (cs_coll s1))) s1 else s1)"
    using assms unfolding Collection_new_def Let_def s0_def [symmetric] by (auto simp: run_bind_Ret_iff)
  ultimately have s0: "filter is_answer (cs_log s0) = filter is_answer log" "onWalletChangeState d t handle s0 = Ret s1"
    "cs = (if co_handle (cs_coll s1) = -1 then list_items t (listItems (co_attribs (cs_coll s1))) s1 else s1)" by simp_all
  then have "quiet s1 cs" using quiet_list_items by simp
  with quiet_change [OF s0(2)] s0(1) show ?thesis by (simp add: quiet_def)
qed

lemma unlock_quiet:
  assumes "promptUnlockCollection d t name v s = Ret (path, s')"
  shows "fd_prompts s' = fd_prompts s" and "answers s' = answers s"
proof -
  have "fd_prompts s' = fd_prompts s \<and> answers s' = answers s"
  proof (cases "getCollectionByWalletName name s")
    case None
    then obtain q cs where "Collection_new d t v name q (readAliasesFor name s) (fd_daemon s) (fd_log s) = Ret cs"
      "s' = onCollectionCreated q (drain (s\<lparr>fd_collections := qmap_insert q (cs_coll cs) (fd_collections s), fd_daemon := cs_daemon cs, fd_log := cs_log cs\<rparr>))"
      using assms by (auto simp: promptUnlockCollection_def add_collection_def run_bind_Ret_iff)
    with quiet_new show ?thesis by (auto simp: onCollectionCreated_def answers_def)
  next
    case (Some q)
    with assms quiet_change show ?thesis
      by (fastforce simp: promptUnlockCollection_def do_coll_def on_coll_def run_bind_Ret_iff answers_def quiet_def split: option.splits)
  qed
  then show "fd_prompts s' = fd_prompts s" "answers s' = answers s" by simp_all
qed

text \<open>The results of a prompt's requests, one after the other.\<close>

fun results :: "desktop \<Rightarrow> nat \<Rightarrow> qstring \<Rightarrow> (nat \<times> int) list \<Rightarrow> fdo \<Rightarrow> fdo run" where
  "results d t p [] s = Ret s"
| "results d t p ((tid, v) # rs) s = run_bind (walletAsyncOpened d t p tid v s) (results d t p rs)"

lemma async_failed:
  assumes "qmap_wf (fd_prompts s)" and "qmap_find (fd_prompts s) p = Some x" and "tid \<in> set (pr_transactions x)" and "v < 0"
  shows "\<exists>s'. walletAsyncOpened d t p tid v s = Ret s' \<and> answers s' = answers s @ [Completed (pr_busName x) p True [[slash]]] \<and>
    qmap_wf (fd_prompts s') \<and> qmap_find (fd_prompts s') p = Some (x\<lparr>pr_deleted := True\<rparr>)"
  using assms by (simp add: walletAsyncOpened_def Prompt_Dismiss_def deletePrompt_def answers_def qmap_simps)

lemma async_opened:
  assumes "qmap_wf (fd_prompts s)" and "qmap_find (fd_prompts s) p = Some x" and "tid \<in> set (pr_transactions x)"
    and "qmap_find (pr_byTransaction x) tid = Some pr" and "0 \<le> v" and "walletAsyncOpened d t p tid v s = Ret s'"
  shows "\<exists>q y. (cp_object pr \<noteq> [slash] \<longrightarrow> q = cp_object pr) \<and> qmap_wf (fd_prompts s') \<and> qmap_find (fd_prompts s') p = Some y \<and>
    pr_transactions y = removeAll tid (pr_transactions x) \<and> pr_byTransaction y = pr_byTransaction x \<and>
    pr_result y = pr_result x @ [q] \<and> pr_busName y = pr_busName x \<and>
    answers s' = answers s @ (if pr_transactions y = [] then [Completed (pr_busName x) p False (pr_result x @ [q])] else [])"
proof -
  obtain path s1 where u: "promptUnlockCollection d t (cp_label pr) v s = Ret (path, s1)"
    using assms(2-6) by (auto simp: walletAsyncOpened_def run_bind_Ret_iff)
  note q = unlock_quiet [OF u]
  let ?q = "if cp_object pr = [slash] then path else cp_object pr"
  let ?x = "x\<lparr>pr_transactions := removeAll tid (pr_transactions x), pr_result := pr_result x @ [?q]\<rparr>"
  let ?s = "s1\<lparr>fd_prompts := qmap_insert p ?x (fd_prompts s1)\<rparr>"
  have s': "s' = complete_prompt p ?s" using assms(2-6) u by (simp add: walletAsyncOpened_def)
  have f: "qmap_find (fd_prompts ?s) p = Some ?x" "qmap_wf (fd_prompts ?s)" using q(1) assms(1) by (simp_all add: qmap_simps)
  have a: "answers ?s = answers s" using q(2) by (simp add: answers_def)
  show ?thesis
  proof (cases "pr_transactions ?x = []")
    case True
    then have e: "s' = deletePrompt p (send (Completed (pr_busName x) p False (pr_result x @ [?q])) ?s)"
      unfolding s' complete_prompt_def f(1) by simp
    have "answers (send m s) = answers s @ filter is_answer [m]" for m and s :: fdo by (simp add: answers_def)
    moreover have "answers (deletePrompt p s) = answers s" for s by (simp add: deletePrompt_def answers_def split: option.split)
    ultimately have "answers s' = answers s @ [Completed (pr_busName x) p False (pr_result x @ [?q])]" using a e by simp
    moreover have "qmap_find (fd_prompts s') p = Some (?x\<lparr>pr_deleted := True\<rparr>)" "qmap_wf (fd_prompts s')"
      unfolding e deletePrompt_def using f by (simp_all add: qmap_simps)
    ultimately show ?thesis using True by (intro exI [of _ ?q] exI [of _ "?x\<lparr>pr_deleted := True\<rparr>"]) simp
  next
    case False
    then have "s' = ?s" unfolding s' complete_prompt_def f(1) by simp
    then show ?thesis using False f a by (intro exI [of _ ?q] exI [of _ ?x]) simp
  qed
qed

lemma results_answers:
  assumes "qmap_wf (fd_prompts s)" and "qmap_find (fd_prompts s) p = Some x"
    and "set (pr_transactions x) = set (map fst rs) \<union> F" and "set (map fst rs) \<inter> F = {}" and "distinct (map fst rs)"
    and "\<And>tid. tid \<in> set (map fst rs) \<Longrightarrow> qmap_find (pr_byTransaction x) tid \<noteq> None"
    and "results d t p rs s = Ret s'" and "rs \<noteq> []"
  shows "if F = {} \<and> (\<forall>(tid, v) \<in> set rs. 0 \<le> v)
    then \<exists>qs. answers s' = answers s @ [Completed (pr_busName x) p False (pr_result x @ qs)] \<and>
      list_all2 (\<lambda>(tid, v) q. \<exists>pr. qmap_find (pr_byTransaction x) tid = Some pr \<and> (cp_object pr \<noteq> [slash] \<longrightarrow> q = cp_object pr)) rs qs
    else answers s' = answers s @ replicate (length (filter (\<lambda>(tid, v). v < 0) rs)) (Completed (pr_busName x) p True [[slash]])"
  using assms
proof (induction rs arbitrary: s x F)
  case (Cons r rs)
  obtain tid v where r: "r = (tid, v)" by (cases r)
  obtain s1 where s1: "walletAsyncOpened d t p tid v s = Ret s1" "results d t p rs s1 = Ret s'"
    using Cons.prems(7) by (auto simp: r run_bind_Ret_iff)
  have tid: "tid \<in> set (pr_transactions x)" using Cons.prems(3) r by simp
  obtain pr where pr: "qmap_find (pr_byTransaction x) tid = Some pr" using Cons.prems(6) [of tid] r by auto
  show ?case
  proof (cases "v < 0")
    case True
    note f = async_failed [OF Cons.prems(1,2) tid True, of d t, unfolded s1(1) run.inject]
    show ?thesis
    proof (cases "rs = []")
      case True
      with f \<open>v < 0\<close> s1(2) show ?thesis by (auto simp: r)
    next
      case False
      have "set (pr_transactions (x\<lparr>pr_deleted := True\<rparr>)) = set (map fst rs) \<union> insert tid F"
        "set (map fst rs) \<inter> insert tid F = {}"
        using Cons.prems(3-5) r by auto
      from Cons.IH [OF _ _ this _ _ s1(2) False] f Cons.prems(5,6) have
        "answers s' = answers s1 @ replicate (length (filter (\<lambda>(tid, v). v < 0) rs)) (Completed (pr_busName x) p True [[slash]])"
        by (simp add: r)
      with f \<open>v < 0\<close> show ?thesis by (simp add: r)
    qed
  next
    case False
    then have v: "0 \<le> v" by simp
    obtain q y where y: "cp_object pr \<noteq> [slash] \<longrightarrow> q = cp_object pr" "qmap_wf (fd_prompts s1)" "qmap_find (fd_prompts s1) p = Some y"
      "pr_transactions y = removeAll tid (pr_transactions x)" "pr_byTransaction y = pr_byTransaction x"
      "pr_result y = pr_result x @ [q]" "pr_busName y = pr_busName x"
      "answers s1 = answers s @ (if pr_transactions y = [] then [Completed (pr_busName x) p False (pr_result x @ [q])] else [])"
      using async_opened [OF Cons.prems(1,2) tid pr v s1(1)] by blast
    have set: "set (pr_transactions y) = set (map fst rs) \<union> F" using y(4) Cons.prems(3-5) r by auto
    show ?thesis
    proof (cases "rs = []")
      case True
      then have "pr_transactions y = [] \<longleftrightarrow> F = {}" using set by (metis list.simps(8) set_empty2 sup_bot_left)
      with True y(1,8) s1(2) False pr show ?thesis by (auto simp: r intro!: exI [of _ "[q]"])
    next
      case nonempty: False
      then have ne: "pr_transactions y \<noteq> []" using set by (cases rs) auto
      have i: "set (map fst rs) \<inter> F = {}" "distinct (map fst rs)" using Cons.prems(4,5) by auto
      have b: "\<And>tid. tid \<in> set (map fst rs) \<Longrightarrow> qmap_find (pr_byTransaction y) tid \<noteq> None" using Cons.prems(6) y(5) by auto
      note ih = Cons.IH [OF y(2,3) set i b s1(2) nonempty]
      show ?thesis
      proof (cases "F = {} \<and> (\<forall>(tid, v) \<in> set rs. 0 \<le> v)")
        case True
        then obtain qs where "answers s' = answers s1 @ [Completed (pr_busName x) p False (pr_result x @ q # qs)]"
          "list_all2 (\<lambda>(tid, v) q. \<exists>pr. qmap_find (pr_byTransaction x) tid = Some pr \<and> (cp_object pr \<noteq> [slash] \<longrightarrow> q = cp_object pr)) rs qs"
          using ih y(5-7) by auto
        with True False y(1,8) ne pr show ?thesis by (auto simp: r intro!: exI [of _ "q # qs"])
      next
        case neg: False
        then have "answers s' = answers s @ replicate (length (filter (\<lambda>(tid, v). v < 0) rs)) (Completed (pr_busName x) p True [[slash]])"
          using ih y(7,8) ne by (simp split: if_splits)
        with neg False show ?thesis by (auto simp: r)
      qed
    qed
  qed
qed simp

text \<open>C30. A prompt is answered once, with the paths in the order in which its wallets were opened, when all its requests
  succeed; a request that fails dismisses it, each one again, and then no success is ever reported.\<close>

theorem prompt_answered:
  assumes "qmap_wf (fd_prompts s)" and "qmap_find (fd_prompts s) p = Some x" and "rs \<noteq> []" and "distinct (map fst rs)"
    and "set (pr_transactions x) = set (map fst rs)" and "set (map fst rs) \<subseteq> dom (qmap_find (pr_byTransaction x))"
    and "results d t p rs s = Ret s'"
  shows "if \<forall>(tid, v) \<in> set rs. 0 \<le> v
    then \<exists>qs. answers s' = answers s @ [Completed (pr_busName x) p False (pr_result x @ qs)] \<and>
      list_all2 (\<lambda>(tid, v) q. \<exists>pr. qmap_find (pr_byTransaction x) tid = Some pr \<and> (cp_object pr \<noteq> [slash] \<longrightarrow> q = cp_object pr)) rs qs
    else answers s' = answers s @ replicate (length (filter (\<lambda>(tid, v). v < 0) rs)) (Completed (pr_busName x) p True [[slash]])"
  using results_answers [OF assms(1,2), of rs "{}" d t s'] assms(3-7) by (simp add: dom_def subset_iff)

definition prompting_fdo :: fdo where
  "prompting_fdo = example_fdo\<lparr>fd_prompts := [(qs ''/p'', \<lparr>pr_type = PromptOpen, pr_busName = qs ''me'', pr_properties = [],
     pr_transactions = [4], pr_byTransaction = [(4, \<lparr>cp_label = qs ''w'', cp_object = qs ''/c'', cp_alias = []\<rparr>)],
     pr_result = [], pr_deleted = False\<rparr>)]\<rparr>"

theorem prompt_answered_witness:
  "\<exists>s'. results example_desktop 5 (qs ''/p'') [(4, 7)] prompting_fdo = Ret s' \<and>
     answers s' = [Completed (qs ''me'') (qs ''/p'') False [qs ''/c'']]"
proof -
  have c: "getCollectionByWalletName (qs ''w'') prompting_fdo = Some (qs ''/c'')"
    by (simp add: getCollectionByWalletName_def prompting_fdo_def example_fdo_def example_collection_def co_walletName_def toName_def makeName_def)
  have "\<exists>cs. onWalletChangeState example_desktop 5 7 \<lparr>cs_coll = example_collection\<lparr>co_handle := -1\<rparr>, cs_daemon = fresh_daemon, cs_log = []\<rparr> = Ret cs"
    by (simp add: onWalletChangeState_def call_def KSecretD_folderList_def KSecretD_getWallet_def fresh_daemon_def example_collection_def)
  then obtain s1 where s1: "promptUnlockCollection example_desktop 5 (qs ''w'') 7 prompting_fdo = Ret (qs ''/c'', s1)"
    using c by (auto simp: promptUnlockCollection_def do_coll_def on_coll_def prompting_fdo_def example_fdo_def qmap_find_def)
  then obtain s' where s': "results example_desktop 5 (qs ''/p'') [(4, 7)] prompting_fdo = Ret s'"
    by (simp add: walletAsyncOpened_def prompting_fdo_def qmap_find_def)
  obtain x where x: "qmap_wf (fd_prompts prompting_fdo)" "qmap_find (fd_prompts prompting_fdo) (qs ''/p'') = Some x" "pr_transactions x = [4]"
    "pr_byTransaction x = [(4, \<lparr>cp_label = qs ''w'', cp_object = qs ''/c'', cp_alias = []\<rparr>)]" "pr_result x = []" "pr_busName x = qs ''me''"
    "answers prompting_fdo = []"
    by (simp add: prompting_fdo_def example_fdo_def qmap_wf_def qmap_find_def answers_def)
  have "qs ''/c'' \<noteq> [slash]" by (simp add: qs_def)
  moreover have "4 \<in> dom (qmap_find (pr_byTransaction x))" by (simp add: x(4) qmap_find_def dom_def)
  ultimately have "answers s' = [Completed (qs ''me'') (qs ''/p'') False [qs ''/c'']]"
    using prompt_answered [OF x(1,2) _ _ _ _ s'] x(3-7) by (auto simp: qmap_find_def list_all2_Cons1)
  with s' show ?thesis by blast
qed

section \<open>Aliases\<close>

text \<open>An alias that is set for a collection is read back as its path, and found among the aliases of its wallet, and no
  other alias changes.  Removing it ends this, except for the default alias, which stays.\<close>

theorem alias_set_and_removed:
  assumes "qmap_wf (fd_aliases s)" and "qmap_find (fd_collections s) p = Some c" and "co_walletName c \<noteq> []"
    and "getCollectionByWalletName (co_walletName c) s = Some p" and "a' \<noteq> a"
  shows "ReadAlias a (SetAlias a p s) = p \<and> a \<in> set (readAliasesFor (co_walletName c) (SetAlias a p s)) \<and>
    ReadAlias a' (SetAlias a p s) = ReadAlias a' s \<and>
    ReadAlias a (removeAlias a (SetAlias a p s)) = (if a = DEFAULT then p else [slash])"
proof -
  have w: "qmap_wf (fd_aliases (drop_registration a s))" "fd_collections (drop_registration a s) = fd_collections s"
    "fd_aliases (drop_registration a s) = fd_aliases s" "fd_daemon (drop_registration a s) = fd_daemon s"
    using assms(1) by (simp_all add: drop_registration_def Let_def)
  have g: "getCollectionByWalletName n s' = getCollectionByWalletName n s" if "fd_collections s' = fd_collections s" for n s'
    using that by (simp add: getCollectionByWalletName_def)
  define s' where "s' = SetAlias a p s"
  have s': "fd_collections s' = fd_collections s" "alias_entry a s' = co_walletName c" "alias_entry a' s' = alias_entry a' s"
    "a \<noteq> DEFAULT \<Longrightarrow> qmap_find (fd_aliases s') a = Some (co_walletName c)"
    "a = DEFAULT \<Longrightarrow> defaultWalletName s' = co_walletName c"
    using w assms(2,5) by (auto simp: s'_def SetAlias_def createCollectionAliasOf_def updateCollectionAlias_def alias_entry_def
        defaultWalletName_def qmap_simps Let_def)
  have "a \<in> set (readAliasesFor (co_walletName c) s')"
  proof (cases "a = DEFAULT")
    case True
    with s'(5) show ?thesis by (simp add: readAliasesFor_def)
  next
    case False
    with s'(4) have "(a, co_walletName c) \<in> set (fd_aliases s')" by (simp add: qmap_find_def map_of_SomeD)
    then show ?thesis by (force simp: readAliasesFor_def)
  qed
  moreover have "ReadAlias a s' = p" using assms(3,4) s'(2) g [OF s'(1)] by (simp add: ReadAlias_def)
  moreover have "ReadAlias a' s' = ReadAlias a' s" unfolding ReadAlias_def s'(3) g [OF s'(1)] ..
  moreover have "ReadAlias a (removeAlias a s') = [slash]" if "a \<noteq> DEFAULT"
    using that by (simp add: ReadAlias_def removeAlias_def alias_entry_def qmap_find_remove)
  moreover have "removeAlias DEFAULT s' = s'" by (simp add: removeAlias_def)
  ultimately show ?thesis unfolding s'_def by auto
qed

theorem alias_set_and_removed_witness:
  "ReadAlias (qs ''login'') (SetAlias (qs ''login'') (qs ''/c'') example_fdo) = qs ''/c'' \<and>
   ReadAlias DEFAULT (removeAlias DEFAULT (SetAlias DEFAULT (qs ''/c'') example_fdo)) = qs ''/c''"
proof -
  have n: "co_walletName (example_collection\<lparr>co_handle := -1\<rparr>) = qs ''w''"
    by (simp add: example_collection_def co_walletName_def toName_def makeName_def)
  have c: "qmap_wf (fd_aliases example_fdo)" "co_walletName (example_collection\<lparr>co_handle := -1\<rparr>) \<noteq> []"
    "getCollectionByWalletName (co_walletName (example_collection\<lparr>co_handle := -1\<rparr>)) example_fdo = Some (qs ''/c'')"
    unfolding n by (simp_all add: example_fdo_def getCollectionByWalletName_def n qs_def)
  have "qs ''login'' \<noteq> DEFAULT" by (simp add: DEFAULT_def qs_def)
  with alias_set_and_removed [OF c(1) example_fdo_coll c(2,3)] show ?thesis by metis
qed

end
