(* ===== verification/FdoEvents.thy ===== *)
theory FdoEvents
  imports FdoServiceProps
begin

text \<open>
  The reactions of the service to the daemon's events always end: the nesting of wallets that are deleted
  while a wallet is being deleted is bounded by the number of open wallets, so the bound that \<open>react\<close>
  gives to \<open>deliver\<close> is enough.
\<close>

section \<open>Operations that keep the number of open wallets\<close>

definition steady :: "ksecretd \<Rightarrow> ksecretd \<Rightarrow> bool" where
  "steady k k' \<longleftrightarrow> (qmap_wf (ks_wallets k) \<longrightarrow> qmap_wf (ks_wallets k') \<and> length (ks_wallets k') = length (ks_wallets k))"

lemma steady_refl [simp]: "steady k k"
  by (simp add: steady_def)

lemma steady_trans: "steady k k' \<Longrightarrow> steady k' k'' \<Longrightarrow> steady k k''"
  by (simp add: steady_def)

lemma steady_same: "ks_wallets k' = ks_wallets k \<Longrightarrow> steady k k'"
  by (simp add: steady_def)

lemma getWallet_wallets: "KSecretD_getWallet i k = (r, k') \<Longrightarrow> ks_wallets k' = ks_wallets k"
  by (auto simp: KSecretD_getWallet_def count_failure_def emit_def Let_def split: if_splits option.splits)

lemma getWallet_found: "KSecretD_getWallet i k = (Some b, k') \<Longrightarrow> qmap_find (ks_wallets k) i = Some b"
  by (auto simp: KSecretD_getWallet_def Let_def split: if_splits option.splits)

lemma steady_put:
  assumes "KSecretD_getWallet i k = (Some b, k')"
  shows "steady k (put_wallet i c k')"
  using getWallet_wallets [OF assms] getWallet_found [OF assms] by (simp add: steady_def qmap_simps length_qmap_insert)

lemma steady_folderList: "steady k (snd (KSecretD_folderList i k))"
  using getWallet_wallets [of i k] by (auto simp: KSecretD_folderList_def intro: steady_same split: prod.split option.split)

lemma steady_entryList: "steady k (snd (KSecretD_entryList i f k))"
  using getWallet_wallets [of i k] steady_put [of i k]
  by (auto simp: KSecretD_entryList_def Let_def intro: steady_same split: prod.split option.split)

lemma steady_entryType:
  "KSecretD_entryType i f e k \<noteq> Diverge" "KSecretD_entryType i f e k = Ret (ty, k') \<Longrightarrow> steady k k'"
  using getWallet_wallets [of i k] steady_put [of i k]
  by (auto simp: KSecretD_entryType_def Let_def intro: steady_same split: prod.splits option.splits if_splits)

section \<open>Collections\<close>

definition tame :: "ksecretd \<Rightarrow> cstate run \<Rightarrow> bool" where
  "tame k r \<longleftrightarrow> (case r of Ret s \<Rightarrow> steady k (cs_daemon s) | UB \<Rightarrow> True | Diverge \<Rightarrow> False)"

lemma tame_simps [simp]: "tame k (Ret s) \<longleftrightarrow> steady k (cs_daemon s)" "tame k UB" "\<not> tame k Diverge"
  by (simp_all add: tame_def)

lemma tame_bind:
  assumes "tame k r" and "\<And>s. tame (cs_daemon s) (f s)"
  shows "tame k (run_bind r f)"
proof (cases r)
  case (Ret s)
  with assms(1) assms(2) [of s] show ?thesis by (cases "f s") (auto intro: steady_trans)
qed (use assms in auto)

lemma steady_pushNewItem: "steady (cs_daemon s) (cs_daemon (pushNewItem t u p s))"
  by (rule steady_same) (simp add: pushNewItem_def onItemChanged_def Let_def)

lemma tame_adopt_entry: "tame (cs_daemon s) (adopt_entry d t f e s)"
proof (cases "findItemByEntryLocation (cs_coll s) \<lparr>el_folder = f, el_key = e\<rparr>")
  case (Some p)
  then show ?thesis by (simp add: adopt_entry_def Let_def)
next
  case None
  show ?thesis
  proof (cases "KSecretD_entryType (co_handle (cs_coll s)) f e (cs_daemon s)")
    case (Ret x)
    then obtain ty k where x: "KSecretD_entryType (co_handle (cs_coll s)) f e (cs_daemon s) = Ret (ty, k)" by (cases x) auto
    have "ks_wallets (cs_daemon (pushNewItem t u p s)) = ks_wallets (cs_daemon s)" for u p s
      by (simp add: pushNewItem_def onItemChanged_def Let_def)
    then show ?thesis
      using None x steady_entryType(2) [OF x] by (simp add: adopt_entry_def nextItemPath_def Let_def steady_def)
  next
    case UB
    with None show ?thesis by (simp add: adopt_entry_def Let_def)
  next
    case Diverge
    with steady_entryType(1) show ?thesis by blast
  qed
qed

lemma tame_adopt_entries: "tame (cs_daemon s) (adopt_entries d t f es s)"
  by (induction es arbitrary: s) (auto intro!: tame_bind tame_adopt_entry)

lemma tame_call:
  assumes "steady (cs_daemon s) (snd (f (cs_daemon s)))" and "\<And>x s. tame (cs_daemon s) (g x s)"
  shows "tame (cs_daemon s) (case call f s of (x, s) \<Rightarrow> g x s)"
proof -
  obtain x s' where c: "call f s = (x, s')" by force
  then have "steady (cs_daemon s) (cs_daemon s')" using assms(1) call_simps(4) [of f s] by simp
  with assms(2) [of s' x] c show ?thesis by (cases "g x s'") (auto intro: steady_trans)
qed

lemma tame_adopt_folders: "tame (cs_daemon s) (adopt_folders d t fs s)"
proof (induction fs arbitrary: s)
  case (Cons f fs)
  show ?case
    unfolding adopt_folders.simps Let_def
    by (rule tame_call [where f = "KSecretD_entryList (co_handle (cs_coll s)) f", OF steady_entryList])
      (intro tame_bind tame_adopt_entries Cons.IH)
qed simp

lemma tame_change: "tame (cs_daemon s) (onWalletChangeState d t handle s)"
proof -
  let ?s = "s\<lparr>cs_coll := (cs_coll s)\<lparr>co_handle := handle\<rparr>\<rparr>"
  have "tame (cs_daemon ?s) (case call (KSecretD_folderList handle) ?s of (fs, s') \<Rightarrow> adopt_folders d t fs s')"
    by (rule tame_call [where f = "KSecretD_folderList handle", OF steady_folderList]) (rule tame_adopt_folders)
  then show ?thesis by (auto simp: onWalletChangeState_def Let_def)
qed

lemma list_items_wallets: "ks_wallets (cs_daemon (list_items t ls s)) = ks_wallets (cs_daemon s)"
  by (induction ls arbitrary: s) (simp_all add: pushNewItem_def onItemChanged_def nextItemPath_def Let_def)

lemma tame_new: "tame k (Collection_new d t handle name p as k log)"
proof -
  define s0 where "s0 = fold (\<lambda>alias. say (RegisterObject (FDO_ALIAS_PATH @ alias))) as (say (RegisterObject p)
    \<lparr>cs_coll = \<lparr>co_path = p, co_handle = handle, co_label = fromName name, co_attribs = Attributes_new d t name (ks_files k),
      co_items = [], co_counter = 0\<rparr>, cs_daemon = k, cs_log = log\<rparr>)"
  have "cs_daemon (fold (\<lambda>alias. say (RegisterObject (FDO_ALIAS_PATH @ alias))) as s) = cs_daemon s" for s
    by (induction as arbitrary: s) simp_all
  then have k: "cs_daemon s0 = k" by (simp add: s0_def)
  have "tame (cs_daemon s) (Ret (if co_handle (cs_coll s) = -1 then list_items t (listItems (co_attribs (cs_coll s))) s else s))" for s
    by (auto simp: list_items_wallets intro: steady_same)
  then show ?thesis
    unfolding Collection_new_def Let_def s0_def [symmetric] using tame_bind [OF tame_change [of s0 d t handle]] k by simp
qed

section \<open>The service\<close>

definition calm :: "nat \<Rightarrow> fdo \<Rightarrow> bool" where
  "calm n s \<longleftrightarrow> qmap_wf (ks_wallets (fd_daemon s)) \<and> length (ks_wallets (fd_daemon s)) \<le> n \<and> ks_events (fd_daemon s) = []"

definition ends :: "nat \<Rightarrow> fdo run \<Rightarrow> bool" where
  "ends n r \<longleftrightarrow> (case r of Ret s \<Rightarrow> calm n s | UB \<Rightarrow> True | Diverge \<Rightarrow> False)"

lemma ends_simps [simp]: "ends n (Ret s) \<longleftrightarrow> calm n s" "ends n UB" "\<not> ends n Diverge"
  by (simp_all add: ends_def)

lemma ends_bind: "ends n r \<Longrightarrow> (\<And>s. calm n s \<Longrightarrow> ends n (f s)) \<Longrightarrow> ends n (run_bind r f)"
  by (cases r) auto

lemma calm_same [simp]:
  "calm n (send m s) = calm n s" "calm n (deletePrompt p s) = calm n s"
  "calm n (complete_prompt p s) = calm n s" "calm n (onCollectionCreated q s) = calm n s" "calm n (onCollectionDeleted d q s) = calm n s"
  "calm n (s\<lparr>fd_prompts := ps\<rparr>) = calm n s" "calm n (s\<lparr>fd_futures := fs\<rparr>) = calm n s" "calm n (Prompt_Dismiss p x s) = calm n s"
  by (auto simp: calm_def deletePrompt_def complete_prompt_def onCollectionCreated_def onCollectionDeleted_def Prompt_Dismiss_def Let_def
      split: option.split)

lemma calm_steady: "calm n s \<Longrightarrow> steady (fd_daemon s) (fd_daemon s') \<Longrightarrow> calm n (drain s')"
  by (auto simp: calm_def steady_def)

lemma ends_do_coll:
  assumes "calm n s" and "\<And>cs. tame (cs_daemon cs) (f cs)"
  shows "ends n (do_coll p f s)"
proof (cases "qmap_find (fd_collections s) p")
  case (Some c)
  let ?cs = "\<lparr>cs_coll = c, cs_daemon = fd_daemon s, cs_log = fd_log s\<rparr>"
  from assms(2) [of ?cs] show ?thesis
    using Some assms(1) by (cases "f ?cs") (auto simp: do_coll_def on_coll_def intro: calm_steady)
qed (simp add: do_coll_def on_coll_def)

lemma add_collection_ends:
  assumes "calm n s"
  shows "add_collection d t handle name s \<noteq> Diverge \<and> (\<forall>p s'. add_collection d t handle name s = Ret (p, s') \<longrightarrow> calm n s')"
proof -
  obtain q where q: "makeUniqueObjectPath (d_host d) (collections s) name = Ret q" using object_path_Ret by blast
  from tame_new [of "fd_daemon s" d t handle name q "readAliasesFor name s" "fd_log s"] show ?thesis
    using assms
    by (cases "Collection_new d t handle name q (readAliasesFor name s) (fd_daemon s) (fd_log s)")
      (auto simp: add_collection_def q intro: calm_steady)
qed

lemma promptUnlock_ends:
  assumes "calm n s"
  shows "promptUnlockCollection d t name handle s \<noteq> Diverge \<and>
    (\<forall>p s'. promptUnlockCollection d t name handle s = Ret (p, s') \<longrightarrow> calm n s')"
proof (cases "getCollectionByWalletName name s")
  case None
  with add_collection_ends [OF assms, of d t handle name] show ?thesis
    by (auto simp: promptUnlockCollection_def run_bind_Diverge_iff run_bind_Ret_iff)
next
  case (Some q)
  have "ends n (do_coll q (onWalletChangeState d t handle) s)" by (rule ends_do_coll [OF assms tame_change])
  with Some show ?thesis
    by (cases "do_coll q (onWalletChangeState d t handle) s") (auto simp: promptUnlockCollection_def)
qed

lemma async_ends:
  assumes "calm n s"
  shows "ends n (walletAsyncOpened d t p tid v s)"
proof -
  have u: "ends n (run_bind (promptUnlockCollection d t w v s) (\<lambda>(path, s). Ret (complete_prompt p (s\<lparr>fd_prompts := F path s\<rparr>))))" for w F
    using promptUnlock_ends [OF assms, of d t w v] by (cases "promptUnlockCollection d t w v s") auto
  show ?thesis
    using assms u by (auto simp: walletAsyncOpened_def split: option.split)
qed

lemma resolve_ends: "calm n s \<Longrightarrow> ends n (resolve d t v fs s)"
proof (induction fs arbitrary: s)
  case (Cons f fs)
  obtain m p tid where "f = (m, p, tid)" by (cases f)
  with Cons show ?case using ends_bind [OF async_ends [OF Cons.prems] Cons.IH] by simp
qed simp

section \<open>Deleting\<close>

lemma enc_loop_no_diverge: "rc \<noteq> Diverge \<Longrightarrow> fst (cbc_enc_loop vt bs rc c reg out) \<noteq> Diverge"
  by (induction bs arbitrary: rc c reg out) (auto split: prod.split)

lemma close_no_diverge: "Backend_close h save w fs \<noteq> Diverge"
proof -
  have c: "CBC_encrypt BlowFish_vt s b \<noteq> Diverge" for s b
  proof (cases "cbc_cipher s")
    case (Some c)
    let ?s = "CBC_initRegister BlowFish_vt c (s\<lparr>cbc_writer := True\<rparr>)"
    obtain rc c' reg out where l: "cbc_enc_loop BlowFish_vt (blocks (nat (cbc_len ?s)) b) UB c (the (cbc_register ?s)) [] = (rc, c', reg, out)"
      by (metis prod_cases4)
    then have "rc \<noteq> Diverge" using enc_loop_no_diverge [of UB BlowFish_vt "blocks (nat (cbc_len ?s)) b" c "the (cbc_register ?s)" "[]"] by simp
    with Some l show ?thesis by (simp add: CBC_encrypt_def Let_def run_bind_Diverge_iff)
  qed (simp add: CBC_encrypt_def)
  have b: "BlowfishPersist_write h wb sf v fs \<noteq> Diverge" for wb sf v
    by (auto simp: BlowfishPersist_write_def Let_def run_bind_Diverge_iff c split: prod.splits if_splits)
  have g: "GpgPersist_write h wb sf v fs \<noteq> Diverge" for wb sf v
    by (auto simp: GpgPersist_write_def Let_def split: prod.splits if_splits option.splits)
  have "handler_write x h wb sf v fs \<noteq> Diverge" for x wb sf v using b g by (cases x) auto
  moreover have "getPersistHandler c \<noteq> Diverge" for c by (cases c) (auto simp: getPersistHandler_def)
  ultimately have "Backend_sync h w fs \<noteq> Diverge"
    by (auto simp: Backend_sync_def Let_def run_bind_Diverge_iff split: prod.splits if_splits)
  then show ?thesis by (auto simp: Backend_close_def Backend_closeInternal_def run_bind_Diverge_iff split: prod.splits if_splits)
qed

lemma deleteWallet_ends:
  "KSecretD_deleteWallet h w k \<noteq> Diverge"
  "KSecretD_deleteWallet h w k = Ret (rc, k') \<Longrightarrow> qmap_wf (ks_wallets k) \<Longrightarrow> qmap_wf (ks_wallets k') \<and>
     (k' = k \<or> length (ks_wallets k') < length (ks_wallets k))"
proof -
  show "KSecretD_deleteWallet h w k \<noteq> Diverge"
    using close_no_diverge by (auto simp: KSecretD_deleteWallet_def KSecretD_internalClose_def Let_def run_bind_Diverge_iff split: option.splits prod.splits)
  assume r: "KSecretD_deleteWallet h w k = Ret (rc, k')" and wf: "qmap_wf (ks_wallets k)"
  show "qmap_wf (ks_wallets k') \<and> (k' = k \<or> length (ks_wallets k') < length (ks_wallets k))"
  proof (cases "findWallet w k")
    case None
    with r wf show ?thesis by (auto simp: KSecretD_deleteWallet_def split: if_splits)
  next
    case (Some x)
    obtain n where "n < length (ks_wallets k)" "ks_wallets k ! n = x"
      using Some by (auto simp: findWallet_def find_Some_iff)
    then obtain i b where x: "x = (i, b)" "(i, b) \<in> set (ks_wallets k)" by (cases x) (metis nth_mem)
    have "length (filter (\<lambda>p. fst p \<noteq> i) (ks_wallets k)) < length (ks_wallets k)"
      using x(2) by (rule length_filter_less) simp
    then have "k' = k \<or> ks_wallets k' = qmap_remove i (ks_wallets k)" "length (qmap_remove i (ks_wallets k)) < length (ks_wallets k)"
      using r Some x(1)
      by (auto simp: KSecretD_deleteWallet_def KSecretD_internalClose_def Let_def run_bind_Ret_iff emit_def qmap_remove_def split: if_splits)
    with wf show ?thesis by (auto simp: qmap_simps)
  qed
qed

section \<open>Events\<close>

text \<open>\<open>r\<close> passes on events whenever fewer than \<open>m\<close> wallets are open.\<close>

definition copes :: "nat \<Rightarrow> (event list \<Rightarrow> fdo \<Rightarrow> fdo run) \<Rightarrow> bool" where
  "copes m r \<longleftrightarrow> (\<forall>n es s. calm n s \<and> n < m \<longrightarrow> ends n (r es s)) \<and> (\<forall>s. r [] s = Ret s)"

lemma Collection_Delete_ends:
  assumes "copes m r" and "calm n s" and "n < Suc m"
  shows "ends n (Collection_Delete r d p s)"
proof (cases "qmap_find (fd_collections s) p")
  case None
  then show ?thesis by (simp add: Collection_Delete_def)
next
  case (Some c)
  let ?w = "co_walletName c" let ?s = "fold removeAlias (readAliasesFor ?w s) s"
  have calm: "calm n ?s" "fd_daemon ?s = fd_daemon s" using assms(2) by (simp_all add: calm_def fold_removeAlias)
  have wf: "qmap_wf (ks_wallets (fd_daemon s))" "length (ks_wallets (fd_daemon s)) \<le> n" "ks_events (fd_daemon s) = []" using assms(2) by (simp_all add: calm_def)
  show ?thesis
  proof (cases "KSecretD_deleteWallet (d_host d) ?w (fd_daemon s)")
    case (Ret x)
    then obtain rc k where x: "KSecretD_deleteWallet (d_host d) ?w (fd_daemon s) = Ret (rc, k)" by (cases x) auto
    let ?s1 = "drain (?s\<lparr>fd_daemon := k\<rparr>)"
    have e: "ends n (r (ks_events k) ?s1)"
    proof (cases "k = fd_daemon s")
      case True
      with assms(1) calm wf show ?thesis by (simp add: copes_def calm_def)
    next
      case False
      then have k: "qmap_wf (ks_wallets k)" "length (ks_wallets k) < length (ks_wallets (fd_daemon s))"
        using deleteWallet_ends(2) [OF x wf(1)] by auto
      then have "calm (n - 1) ?s1" "n - 1 < m" using wf(2) assms(3) by (auto simp: calm_def)
      then have "ends (n - 1) (r (ks_events k) ?s1)" using assms(1) by (simp add: copes_def)
      then show ?thesis by (cases "r (ks_events k) ?s1") (auto simp: calm_def)
    qed
    then show ?thesis
      using Some calm(2) x by (cases "r (ks_events k) ?s1") (simp_all add: Collection_Delete_def with_daemon_def Let_def)
  qed (use Some calm(2) deleteWallet_ends(1) in \<open>auto simp: Collection_Delete_def with_daemon_def Let_def\<close>)
qed

lemma fdo_entryDeleted_ends: "calm n s \<Longrightarrow> ends n (fdo_entryDeleted d t w f e s)"
proof -
  have "tame (cs_daemon cs) (case x of None \<Rightarrow> Ret cs | Some i \<Rightarrow> Ret (onItemDeleted d t i cs))" for cs x
    by (auto simp: onItemDeleted_def Let_def intro!: steady_same split: option.split)
  then show "calm n s \<Longrightarrow> ends n (fdo_entryDeleted d t w f e s)"
    by (auto simp: fdo_entryDeleted_def intro!: ends_do_coll split: option.split)
qed

lemma fdo_entryRenamed_ends: "calm n s \<Longrightarrow> ends n (fdo_entryRenamed d t w f e e' s)"
proof -
  have "tame (cs_daemon cs) (case x of None \<Rightarrow> Ret cs | Some i \<Rightarrow> Ret (onItemChanged t i (setUniqueLabel i u (on_attribs g cs))))" for cs x g u
    by (auto simp: onItemChanged_def setUniqueLabel_def Let_def intro!: steady_same split: option.split)
  then show "calm n s \<Longrightarrow> ends n (fdo_entryRenamed d t w f e e' s)"
    unfolding fdo_entryRenamed_def Let_def by (auto intro!: ends_do_coll split: option.split)
qed

lemma slot_ends:
  assumes "copes m r" and "calm n s" and "n < Suc m"
  shows "ends n (slot r d t e s)"
proof -
  have lock: "ends n (lockCollection d t w s)" for w
    using ends_bind [OF ends_do_coll [OF assms(2) tame_change]] assms(2) by (auto simp: lockCollection_def split: option.split)
  have change: "ends n (do_coll p (onWalletChangeState d t h) s)" for p h
    by (rule ends_do_coll [OF assms(2) tame_change])
  have created: "ends n (fdo_walletCreated d t w s)" for w
    using add_collection_ends [OF assms(2), of d t "-1" w]
    by (cases "add_collection d t (-1) w s") (auto simp: fdo_walletCreated_def)
  have promise: "ends n (promise_result d t k v s)" for k v
    using assms(2) by (simp add: promise_result_def resolve_ends)
  have deleted: "ends n (fdo_walletDeleted r d w s)" for w
    using Collection_Delete_ends [OF assms] assms(2) by (auto simp: fdo_walletDeleted_def split: option.split)
  show ?thesis
    using assms(2) lock change created promise deleted fdo_entryDeleted_ends fdo_entryRenamed_ends
    by (cases e) (auto simp: slot_def split: option.split)
qed

lemma slots_end: "copes m r \<Longrightarrow> n < Suc m \<Longrightarrow> calm n s \<Longrightarrow> ends n (slots r d t es s)"
proof (induction es arbitrary: s)
  case (Cons e es)
  show ?case using ends_bind [OF slot_ends [OF Cons.prems(1,3,2)] Cons.IH [OF Cons.prems(1,2)]] by simp
qed simp

lemma deliver_copes: "copes m (deliver d t m)"
proof (induction m)
  case 0
  show ?case by (simp add: copes_def)
next
  case (Suc m)
  then show ?case using slots_end unfolding copes_def deliver.simps by auto
qed

text \<open>C15. Whatever the daemon reports, the reactions of the service come to an end: they return, with no more wallets
  open than before, or are undefined, but they do not run forever.\<close>

theorem reactions_end:
  assumes "qmap_wf (ks_wallets (fd_daemon s))" and "ks_events (fd_daemon s) = []"
  shows "react d t es s = UB \<or> (\<exists>s'. react d t es s = Ret s' \<and>
    length (ks_wallets (fd_daemon s')) \<le> length (ks_wallets (fd_daemon s)) \<and> qmap_wf (ks_wallets (fd_daemon s')))"
proof -
  let ?n = "length (ks_wallets (fd_daemon s))"
  have "ends ?n (react d t es s)"
    using deliver_copes [of "?n + 1" d t] assms unfolding react_def copes_def by (simp add: calm_def)
  then show ?thesis by (cases "react d t es s") (auto simp: calm_def)
qed

theorem reactions_end_witness:
  "react example_desktop 5 [WalletDeleted (qs ''w''), LockCollection (qs ''w'')] example_fdo \<in> range Ret \<union> {UB}"
proof -
  have "qmap_wf (ks_wallets (fd_daemon example_fdo))" "ks_events (fd_daemon example_fdo) = []"
    by (simp_all add: example_fdo_def fresh_daemon_def)
  from reactions_end [OF this] show ?thesis by blast
qed

end
