(* ===== verification/FdoMarshal.thy ===== *)
theory FdoMarshal
  imports FdoProps
begin

text \<open>
  The types of the Secret Service on the bus and in data streams: the operators \<open><<\<close> and \<open>>>\<close> of
  src/runtime/ksecretd/kwalletfreedesktopservice.cpp, and how \<open>CreateItem\<close> of kwalletfreedesktopcollection.cpp takes the
  properties of a call apart.

  \<open>QDBusArgument\<close> and \<open>QVariant\<close> belong to Qt: they are the type variables \<open>'q\<close> and \<open>'v\<close>, with their operations in the
  record \<open>wire\<close>.  What their documentation promises is \<open>wire_laws\<close>: writing appends an item to the content of an
  argument, and reading takes the item in front.  The content is the field \<open>dq_content\<close>, which no operation of the code
  uses.
\<close>

section \<open>Arguments\<close>

datatype 'v wire_item = WireText qstring | WireBytes bytes | WirePath qstring | WireVariant 'v | WireMap str_map
  | BeginStructure | EndStructure | BeginMap | EndMap | BeginEntry | EndEntry

record ('q, 'v) wire =
  dq_content :: "'q \<Rightarrow> 'v wire_item list"
  dq_put :: "'v wire_item \<Rightarrow> 'q \<Rightarrow> 'q"          \<comment> \<open>\<open>operator<<\<close>, \<open>beginStructure\<close> and the others, by item\<close>
  dq_text :: "'q \<Rightarrow> qstring \<times> 'q"             \<comment> \<open>\<open>operator>>\<close>, by type\<close>
  dq_bytes :: "'q \<Rightarrow> bytes \<times> 'q"
  dq_path :: "'q \<Rightarrow> qstring \<times> 'q"
  dq_variant :: "'q \<Rightarrow> 'v \<times> 'q"
  dq_map :: "'q \<Rightarrow> str_map \<times> 'q"
  dq_enter :: "'q \<Rightarrow> 'q"                      \<comment> \<open>\<open>beginStructure\<close>, \<open>endMap\<close> and the others, when reading\<close>
  dq_atEnd :: "'q \<Rightarrow> bool"
  dv_isArgument :: "'v \<Rightarrow> bool"               \<comment> \<open>\<open>canConvert<QDBusArgument>\<close>\<close>
  dv_argument :: "'v \<Rightarrow> 'q"
  dv_ofMap :: "str_map \<Rightarrow> 'v"
  dv_text :: "'v \<Rightarrow> qstring option"           \<comment> \<open>\<open>canConvert<QString>\<close> and \<open>toString\<close>\<close>
  dv_map :: "'v \<Rightarrow> str_map option"

definition wire_laws :: "('q, 'v) wire \<Rightarrow> bool" where
  "wire_laws W \<longleftrightarrow>
     (\<forall>i q. dq_content W (dq_put W i q) = dq_content W q @ [i]) \<and>
     (\<forall>q x r. dq_content W q = WireText x # r \<longrightarrow> (\<exists>q'. dq_text W q = (x, q') \<and> dq_content W q' = r)) \<and>
     (\<forall>q x r. dq_content W q = WireBytes x # r \<longrightarrow> (\<exists>q'. dq_bytes W q = (x, q') \<and> dq_content W q' = r)) \<and>
     (\<forall>q x r. dq_content W q = WirePath x # r \<longrightarrow> (\<exists>q'. dq_path W q = (x, q') \<and> dq_content W q' = r)) \<and>
     (\<forall>q x r. dq_content W q = WireVariant x # r \<longrightarrow> (\<exists>q'. dq_variant W q = (x, q') \<and> dq_content W q' = r)) \<and>
     (\<forall>q x r. dq_content W q = WireMap x # r \<longrightarrow> (\<exists>q'. dq_map W q = (x, q') \<and> dq_content W q' = r)) \<and>
     (\<forall>q i r. i \<in> {BeginStructure, EndStructure, BeginMap, EndMap, BeginEntry, EndEntry} \<longrightarrow>
        dq_content W q = i # r \<longrightarrow> dq_content W (dq_enter W q) = r) \<and>
     (\<forall>q r. dq_content W q = EndMap # r \<longrightarrow> dq_atEnd W q) \<and>
     (\<forall>q r. dq_content W q = BeginEntry # r \<longrightarrow> \<not> dq_atEnd W q) \<and>
     (\<forall>m. dv_map W (dv_ofMap W m) = Some m)"

section \<open>Secrets\<close>

definition explicit_zero_mem :: "bytes \<Rightarrow> bytes" where
  "explicit_zero_mem data = zeros (length data)"

text \<open>Each operator goes through a byte array of its own and erases it; the second result is what is left of it.\<close>

definition put_secure :: "('q, 'v) wire \<Rightarrow> bytes \<Rightarrow> 'q \<Rightarrow> 'q \<times> bytes" where
  "put_secure W v q = (let b = v; q = dq_put W (WireBytes b) q in (q, explicit_zero_mem b))"

definition get_secure :: "('q, 'v) wire \<Rightarrow> 'q \<Rightarrow> (bytes \<times> 'q) \<times> bytes" where
  "get_secure W q = (let (b, q) = dq_bytes W q; v = b in ((v, q), explicit_zero_mem b))"

definition put_secure_stream :: "host \<Rightarrow> bytes \<Rightarrow> bytes \<Rightarrow> bytes \<times> bytes" where
  "put_secure_stream h v stream = (let b = v; stream = stream @ put_ba h b in (stream, explicit_zero_mem b))"

definition get_secure_stream :: "host \<Rightarrow> bytes \<Rightarrow> (bytes \<times> bytes) \<times> bytes" where
  "get_secure_stream h stream = (let (b, stream) = get_ba h stream; v = b in ((v, stream), explicit_zero_mem b))"

definition put_object_path :: "host \<Rightarrow> qstring \<Rightarrow> bytes \<Rightarrow> bytes" where
  "put_object_path h p stream = stream @ put_str h p"

definition get_object_path :: "host \<Rightarrow> bytes \<Rightarrow> qstring \<times> bytes" where
  "get_object_path h stream = (let (str, stream) = get_str h stream in (str, stream))"

definition put_secret :: "('q, 'v) wire \<Rightarrow> fdo_secret \<Rightarrow> 'q \<Rightarrow> 'q" where
  "put_secret W secret q =
     (let q = dq_put W BeginStructure q;
          q = dq_put W (WirePath (se_session secret)) q;
          q = dq_put W (WireBytes (se_parameters secret)) q;
          (q, left) = put_secure W (se_value secret) q;
          q = dq_put W (WireText (se_mimeType secret)) q
      in dq_put W EndStructure q)"

definition get_secret :: "('q, 'v) wire \<Rightarrow> 'q \<Rightarrow> fdo_secret \<times> 'q" where
  "get_secret W q =
     (let q = dq_enter W q;
          (session, q) = dq_path W q;
          (parameters, q) = dq_bytes W q;
          ((v, q), left) = get_secure W q;
          (mime, q) = dq_text W q;
          q = dq_enter W q
      in (\<lparr>se_session = session, se_parameters = parameters, se_value = v, se_mimeType = mime\<rparr>, q))"

section \<open>Properties\<close>

text \<open>
  A value that is an argument itself is read as a map of texts, whatever it holds.  The loop goes on until the argument
  says that it is at its end.
\<close>

definition property_value :: "('q, 'v) wire \<Rightarrow> 'v \<Rightarrow> 'v" where
  "property_value W val =
     (if dv_isArgument W val then let (metaMap, _) = dq_map W (dv_argument W val) in dv_ofMap W metaMap else val)"

partial_function (option) read_entries_of :: "('q, 'v) wire \<Rightarrow> (qstring, 'v) qmap \<Rightarrow> 'q \<Rightarrow> ((qstring, 'v) qmap \<times> 'q) option" where
  "read_entries_of W m q =
     (if dq_atEnd W q then Some (m, q)
      else
        let q = dq_enter W q; (key, q) = dq_text W q; (val, q) = dq_variant W q
        in read_entries_of W (qmap_insert key (property_value W val) m) (dq_enter W q))"

definition get_properties :: "('q, 'v) wire \<Rightarrow> 'q \<Rightarrow> ((qstring, 'v) qmap \<times> 'q) option" where
  "get_properties W q =
     (case read_entries_of W [] (dq_enter W q) of None \<Rightarrow> None | Some (m, q) \<Rightarrow> Some (m, dq_enter W q))"

text \<open>What \<open>CreateItem\<close> looks for in the properties.\<close>

definition labelFound :: "('q, 'v) wire \<Rightarrow> (qstring, 'v) qmap \<Rightarrow> qstring option option" where
  "labelFound W m =
     (case qmap_find m (qs ''org.freedesktop.Secret.Item.Label'') of None \<Rightarrow> None | Some v \<Rightarrow> Some (dv_text W v))"

definition attribsFound :: "('q, 'v) wire \<Rightarrow> (qstring, 'v) qmap \<Rightarrow> str_map option" where
  "attribsFound W m =
     (case qmap_find m (qs ''org.freedesktop.Secret.Item.Attributes'') of None \<Rightarrow> None | Some v \<Rightarrow> dv_map W v)"

text \<open>A call as it comes from the bus: each parameter is an argument of its own.\<close>

definition CreateItem_call :: "('q, 'v) wire \<Rightarrow> desktop \<Rightarrow> nat \<Rightarrow> sessions \<Rightarrow> qstring \<Rightarrow> 'q \<Rightarrow> 'q \<Rightarrow> bool \<Rightarrow> cstate \<Rightarrow>
    ((string + qstring) \<times> cstate) run" where
  "CreateItem_call W d t ses sender qp qsec replace s =
     (case get_properties W qp of
        None \<Rightarrow> Diverge
      | Some (m, _) \<Rightarrow>
          CreateItem d t ses sender (labelFound W m) (attribsFound W m) (fst (get_secret W qsec)) replace s)"

section \<open>What is written is read\<close>

lemma wire_content [simp]:
  assumes "wire_laws W"
  shows "dq_content W (dq_put W i q) = dq_content W q @ [i]"
  using assms by (simp add: wire_laws_def)

lemma wire_reads:
  assumes "wire_laws W"
  shows "dq_content W q = WireText x # r \<Longrightarrow> \<exists>q'. dq_text W q = (x, q') \<and> dq_content W q' = r"
    and "dq_content W q = WireBytes b # r \<Longrightarrow> \<exists>q'. dq_bytes W q = (b, q') \<and> dq_content W q' = r"
    and "dq_content W q = WirePath x # r \<Longrightarrow> \<exists>q'. dq_path W q = (x, q') \<and> dq_content W q' = r"
    and "dq_content W q = WireVariant v # r \<Longrightarrow> \<exists>q'. dq_variant W q = (v, q') \<and> dq_content W q' = r"
    and "dq_content W q = WireMap m # r \<Longrightarrow> \<exists>q'. dq_map W q = (m, q') \<and> dq_content W q' = r"
  using assms by (simp_all add: wire_laws_def)

lemma wire_enters:
  assumes "wire_laws W"
  shows "dq_content W q = BeginStructure # r \<Longrightarrow> dq_content W (dq_enter W q) = r"
    and "dq_content W q = EndStructure # r \<Longrightarrow> dq_content W (dq_enter W q) = r"
    and "dq_content W q = BeginMap # r \<Longrightarrow> dq_content W (dq_enter W q) = r"
    and "dq_content W q = EndMap # r \<Longrightarrow> dq_content W (dq_enter W q) = r \<and> dq_atEnd W q"
    and "dq_content W q = BeginEntry # r \<Longrightarrow> dq_content W (dq_enter W q) = r \<and> \<not> dq_atEnd W q"
    and "dq_content W q = EndEntry # r \<Longrightarrow> dq_content W (dq_enter W q) = r"
proof -
  have e: "i \<in> {BeginStructure, EndStructure, BeginMap, EndMap, BeginEntry, EndEntry} \<Longrightarrow> dq_content W q = i # r \<Longrightarrow>
      dq_content W (dq_enter W q) = r" for i
    using assms by (simp only: wire_laws_def)
  have a: "dq_content W q = EndMap # r \<Longrightarrow> dq_atEnd W q" "dq_content W q = BeginEntry # r \<Longrightarrow> \<not> dq_atEnd W q"
    using assms unfolding wire_laws_def by blast+
  show "dq_content W q = BeginStructure # r \<Longrightarrow> dq_content W (dq_enter W q) = r" by (rule e) simp_all
  show "dq_content W q = EndStructure # r \<Longrightarrow> dq_content W (dq_enter W q) = r" by (rule e) simp_all
  show "dq_content W q = BeginMap # r \<Longrightarrow> dq_content W (dq_enter W q) = r" by (rule e) simp_all
  show "dq_content W q = EndMap # r \<Longrightarrow> dq_content W (dq_enter W q) = r \<and> dq_atEnd W q" using a(1) e by simp
  show "dq_content W q = BeginEntry # r \<Longrightarrow> dq_content W (dq_enter W q) = r \<and> \<not> dq_atEnd W q" using a(2) e by simp
  show "dq_content W q = EndEntry # r \<Longrightarrow> dq_content W (dq_enter W q) = r" by (rule e) simp_all
qed

lemma secret_read:
  assumes "wire_laws W" and "dq_content W q = [] " and "dq_content W q' = dq_content W (put_secret W secret q) @ r"
  shows "\<exists>q''. get_secret W q' = (secret, q'') \<and> dq_content W q'' = r"
proof -
  have c: "dq_content W q' = BeginStructure # WirePath (se_session secret) # WireBytes (se_parameters secret) #
      WireBytes (se_value secret) # WireText (se_mimeType secret) # EndStructure # r"
    using assms by (simp add: put_secret_def put_secure_def Let_def)
  let ?q1 = "dq_enter W q'"
  from wire_enters(1) [OF assms(1) c] obtain q2 where q2: "dq_path W ?q1 = (se_session secret, q2)"
    "dq_content W q2 = WireBytes (se_parameters secret) # WireBytes (se_value secret) # WireText (se_mimeType secret) # EndStructure # r"
    using wire_reads(3) [OF assms(1)] by blast
  from q2(2) obtain q3 where q3: "dq_bytes W q2 = (se_parameters secret, q3)"
    "dq_content W q3 = WireBytes (se_value secret) # WireText (se_mimeType secret) # EndStructure # r"
    using wire_reads(2) [OF assms(1)] by blast
  from q3(2) obtain q4 where q4: "dq_bytes W q3 = (se_value secret, q4)"
    "dq_content W q4 = WireText (se_mimeType secret) # EndStructure # r"
    using wire_reads(2) [OF assms(1)] by blast
  from q4(2) obtain q5 where q5: "dq_text W q4 = (se_mimeType secret, q5)" "dq_content W q5 = EndStructure # r"
    using wire_reads(1) [OF assms(1)] by blast
  from wire_enters(2) [OF assms(1) q5(2)] q2(1) q3(1) q4(1) q5(1) show ?thesis
    by (simp add: get_secret_def get_secure_def Let_def)
qed

definition wire_entries :: "(qstring \<times> 'v) list \<Rightarrow> 'v wire_item list" where
  "wire_entries es = concat (map (\<lambda>(k, v). [BeginEntry, WireText k, WireVariant v, EndEntry]) es)"

lemma entries_read:
  assumes "wire_laws W" and "dq_content W q = wire_entries es @ EndMap # r"
  shows "\<exists>q'. read_entries_of W m q = Some (fold (\<lambda>(k, v). qmap_insert k (property_value W v)) es m, q') \<and>
    dq_content W q' = EndMap # r"
  using assms(2)
proof (induction es arbitrary: q m)
  case Nil
  then have "dq_atEnd W q" using wire_enters(4) [OF assms(1)] by (simp add: wire_entries_def)
  with Nil show ?case by (simp add: read_entries_of.simps wire_entries_def)
next
  case (Cons e es)
  obtain k v where e: "e = (k, v)" by fastforce
  have c: "dq_content W q = BeginEntry # WireText k # WireVariant v # EndEntry # wire_entries es @ EndMap # r"
    using Cons.prems by (simp add: wire_entries_def e)
  let ?q1 = "dq_enter W q"
  have q1: "dq_content W ?q1 = WireText k # WireVariant v # EndEntry # wire_entries es @ EndMap # r" "\<not> dq_atEnd W q"
    using wire_enters(5) [OF assms(1) c] by simp_all
  then obtain q2 where q2: "dq_text W ?q1 = (k, q2)" "dq_content W q2 = WireVariant v # EndEntry # wire_entries es @ EndMap # r"
    using wire_reads(1) [OF assms(1)] by blast
  then obtain q3 where q3: "dq_variant W q2 = (v, q3)" "dq_content W q3 = EndEntry # wire_entries es @ EndMap # r"
    using wire_reads(4) [OF assms(1)] by blast
  from Cons.IH [OF wire_enters(6) [OF assms(1) q3(2)]] q1(2) q2(1) q3(1) show ?case
    by (subst read_entries_of.simps) (simp add: e)
qed

lemma fold_insert_find:
  assumes "qmap_wf m" and "distinct (map fst es)"
  shows "qmap_find (fold (\<lambda>(k, v). qmap_insert k (f v)) es m) k =
    (case map_of es k of None \<Rightarrow> qmap_find m k | Some v \<Rightarrow> Some (f v))"
  using assms
proof (induction es arbitrary: m)
  case (Cons e es)
  obtain k' v' where e: "e = (k', v')" by fastforce
  have w: "qmap_wf (qmap_insert k' (f v') m)" using Cons.prems by (simp add: qmap_simps)
  have "map_of es k' = None" using Cons.prems by (auto simp: e map_of_eq_None_iff)
  with Cons.IH [OF w] Cons.prems show ?case by (auto simp: e qmap_simps split: option.split)
qed simp

lemma properties_read:
  assumes "wire_laws W" and "dq_content W q = BeginMap # wire_entries es @ EndMap # r"
  obtains m q' where "get_properties W q = Some (m, q')" and "dq_content W q' = r"
    and "distinct (map fst es) \<Longrightarrow> qmap_find m k = map_option (property_value W) (map_of es k)"
proof -
  let ?m = "fold (\<lambda>(k, v). qmap_insert k (property_value W v)) es []"
  obtain q1 where q1: "read_entries_of W [] (dq_enter W q) = Some (?m, q1)" "dq_content W q1 = EndMap # r"
    using entries_read [OF assms(1) wire_enters(3) [OF assms(1,2)]] by blast
  show thesis
    using that [of ?m "dq_enter W q1"] q1 wire_enters(4) [OF assms(1) q1(2)] fold_insert_find [of "[]" es "property_value W" k]
    by (simp add: get_properties_def split: option.split)
qed

text \<open>A map of texts that a client sends as a value of its own.\<close>

lemma nested_map_read:
  assumes "wire_laws W" and "dv_isArgument W v" and "dq_content W (dv_argument W v) = WireMap a # r"
  shows "dv_map W (property_value W v) = Some a"
proof -
  obtain q' where "dq_map W (dv_argument W v) = (a, q')" using wire_reads(5) [OF assms(1,3)] by blast
  then show ?thesis using assms(1,2) by (simp add: property_value_def wire_laws_def)
qed

abbreviation LABEL_PROPERTY :: qstring where
  "LABEL_PROPERTY \<equiv> qs ''org.freedesktop.Secret.Item.Label''"

abbreviation ATTRIBUTES_PROPERTY :: qstring where
  "ATTRIBUTES_PROPERTY \<equiv> qs ''org.freedesktop.Secret.Item.Attributes''"

text \<open>C28. A call of \<open>CreateItem\<close> that a client sends over the bus, with properties in any order, reaches the collection
  with the label, the attributes and the secret that were sent, whatever other properties it has: the loop over the
  properties ends, and the attributes, which arrive as an argument of their own, are taken out of it.\<close>

theorem call_received:
  assumes "wire_laws W"
    and "dq_content W qp = BeginMap # wire_entries es @ EndMap # r" and "distinct (map fst es)"
    and "map_of es LABEL_PROPERTY = Some vl" and "\<not> dv_isArgument W vl" and "dv_text W vl = Some label"
    and "case map_of es ATTRIBUTES_PROPERTY of None \<Rightarrow> attribs = None
      | Some va \<Rightarrow> dv_isArgument W va \<and> (\<exists>a x. dq_content W (dv_argument W va) = WireMap a # x \<and> attribs = Some a)"
    and "dq_content W start = []" and "dq_content W qsec = dq_content W (put_secret W secret start)"
  shows "CreateItem_call W d t ses sender qp qsec replace s =
    CreateItem d t ses sender (Some (Some label)) attribs secret replace s"
proof -
  obtain m q' where m: "get_properties W qp = Some (m, q')"
    "\<And>k. qmap_find m k = map_option (property_value W) (map_of es k)"
    using properties_read [OF assms(1,2)] assms(3) by (metis (no_types, lifting) option.inject prod.inject)
  have "labelFound W m = Some (Some label)"
    using assms(4-6) by (simp add: labelFound_def m(2) property_value_def)
  moreover have "attribsFound W m = attribs"
    using assms(7) nested_map_read [OF assms(1)]
    by (auto simp: attribsFound_def m(2) split: option.splits)
  moreover have "fst (get_secret W qsec) = secret"
    using secret_read [OF assms(1,8), of qsec secret "[]"] assms(9) by auto
  ultimately show ?thesis by (simp add: CreateItem_call_def m(1))
qed

text \<open>The arguments as lists of their items; a value is a text or an argument with a map.\<close>

datatype example_value = ExampleText qstring | ExampleArgument str_map | ExampleMap str_map

definition list_wire :: "(example_value wire_item list, example_value) wire" where
  "list_wire = \<lparr>dq_content = (\<lambda>q. q), dq_put = (\<lambda>i q. q @ [i]),
     dq_text = (\<lambda>q. case q of WireText x # r \<Rightarrow> (x, r) | _ \<Rightarrow> ([], q)),
     dq_bytes = (\<lambda>q. case q of WireBytes x # r \<Rightarrow> (x, r) | _ \<Rightarrow> ([], q)),
     dq_path = (\<lambda>q. case q of WirePath x # r \<Rightarrow> (x, r) | _ \<Rightarrow> ([], q)),
     dq_variant = (\<lambda>q. case q of WireVariant x # r \<Rightarrow> (x, r) | _ \<Rightarrow> (ExampleText [], q)),
     dq_map = (\<lambda>q. case q of WireMap x # r \<Rightarrow> (x, r) | _ \<Rightarrow> ([], q)),
     dq_enter = tl, dq_atEnd = (\<lambda>q. case q of EndMap # r \<Rightarrow> True | _ \<Rightarrow> False),
     dv_isArgument = (\<lambda>v. case v of ExampleArgument m \<Rightarrow> True | _ \<Rightarrow> False),
     dv_argument = (\<lambda>v. case v of ExampleArgument m \<Rightarrow> [WireMap m] | _ \<Rightarrow> []), dv_ofMap = ExampleMap,
     dv_text = (\<lambda>v. case v of ExampleText x \<Rightarrow> Some x | _ \<Rightarrow> None),
     dv_map = (\<lambda>v. case v of ExampleMap m \<Rightarrow> Some m | _ \<Rightarrow> None)\<rparr>"

lemma list_wire_laws: "wire_laws list_wire"
  by (auto simp: wire_laws_def list_wire_def)

definition example_properties :: "(qstring \<times> example_value) list" where
  "example_properties = [(ATTRIBUTES_PROPERTY, ExampleArgument [(qs ''user'', qs ''me'')]), (LABEL_PROPERTY, ExampleText (qs ''mail''))]"

theorem call_received_witness:
  "CreateItem_call list_wire item_desktop 5 my_session (qs ''me'') (BeginMap # wire_entries example_properties @ [EndMap])
     (put_secret list_wire (my_secret [1, 2]) []) False example_cstate =
   CreateItem item_desktop 5 my_session (qs ''me'') (Some (Some (qs ''mail''))) (Some [(qs ''user'', qs ''me'')])
     (my_secret [1, 2]) False example_cstate"
proof (rule call_received [OF list_wire_laws, where es = example_properties and r = "[]" and start = "[]"])
  have n: "ATTRIBUTES_PROPERTY \<noteq> LABEL_PROPERTY" by (simp add: qs_def)
  show "dq_content list_wire (BeginMap # wire_entries example_properties @ [EndMap]) =
      BeginMap # wire_entries example_properties @ EndMap # []" by (simp add: list_wire_def)
  show "distinct (map fst example_properties)" using n by (simp add: example_properties_def)
  show "map_of example_properties LABEL_PROPERTY = Some (ExampleText (qs ''mail''))"
    using n by (simp add: example_properties_def)
  show "case map_of example_properties ATTRIBUTES_PROPERTY of None \<Rightarrow> Some [(qs ''user'', qs ''me'')] = None
      | Some va \<Rightarrow> dv_isArgument list_wire va \<and>
          (\<exists>a x. dq_content list_wire (dv_argument list_wire va) = WireMap a # x \<and> Some [(qs ''user'', qs ''me'')] = Some a)"
    by (simp add: example_properties_def list_wire_def)
qed (simp_all add: list_wire_def)

text \<open>The data streams; the byte arrays that held a secret are zero afterwards.\<close>

lemma secure_stream_roundtrip:
  assumes "stream_laws h" and "fits v"
  shows "fst (get_secure_stream h (fst (put_secure_stream h v []) @ r)) = (v, r)"
    and "set (snd (put_secure_stream h v stream)) \<subseteq> {0}" and "set (snd (get_secure_stream h stream)) \<subseteq> {0}"
  using get_put_ba [OF assms]
  by (auto simp: put_secure_stream_def get_secure_stream_def explicit_zero_mem_def Let_def zeros_def split: prod.split)

lemma object_path_roundtrip:
  assumes "stream_laws h" and "fits p"
  shows "get_object_path h (put_object_path h p [] @ r) = (p, r)"
  using get_put_str [OF assms] by (simp add: put_object_path_def get_object_path_def)

end
