(* ===== verification/PortalSecrets.thy ===== *)
theory PortalSecrets
  imports KSecretDProps
begin

text \<open>
  The portal for secrets (src/runtime/ksecretd/kwalletportalsecrets.cpp): sandboxed applications get one secret each, which
  is kept in the network wallet of the daemon and made at the first request.  The numbers of the generator are a function
  of how many have been drawn.  What is written to the file descriptor of a request, and the replies over the bus, are a
  log; the outcome of writing to the descriptor is not looked at.
\<close>

record portal_request =
  pr_message :: nat
  pr_fd :: nat
  pr_appId :: qstring

datatype portal_output = PortalWrote nat bytes | PortalReplied nat u32

record portal =
  pt_daemon :: ksecretd
  pt_pending :: "(nat \<times> portal_request) list"     \<comment> \<open>promises of the daemon and the requests that wait for them\<close>
  pt_drawn :: nat
  pt_log :: "portal_output list"

definition portal_folder :: qstring where
  "portal_folder = qs ''xdg-desktop-portal''"

definition secretSize :: nat where "secretSize = 64"

text \<open>Each number of 32 bits is converted to a byte.\<close>

definition generateSecret :: "(nat \<Rightarrow> u32) \<Rightarrow> portal \<Rightarrow> bytes \<times> portal" where
  "generateSecret rnd p =
     (map (\<lambda>i. ucast (rnd (pt_drawn p + i))) [0..<secretSize], p\<lparr>pt_drawn := pt_drawn p + secretSize\<rparr>)"

definition portal_walletOpened :: "host \<Rightarrow> (nat \<Rightarrow> u32) \<Rightarrow> portal_request \<Rightarrow> int \<Rightarrow> portal \<Rightarrow> portal" where
  "portal_walletOpened h rnd req walletHandle p =
     (if walletHandle = -1 then p\<lparr>pt_log := pt_log p @ [PortalReplied (pr_message req) 2]\<rparr>
      else
        let (ex, k) = KSecretD_hasEntry walletHandle portal_folder (pr_appId req) (pt_daemon p);
            p = p\<lparr>pt_daemon := k\<rparr>;
            (secret, p) =
              (if ex
               then let (b, k) = KSecretD_readEntry walletHandle portal_folder (pr_appId req) (pt_daemon p)
                    in (b, p\<lparr>pt_daemon := k\<rparr>)
               else
                 let (b, p) = generateSecret rnd p;
                     (_, k) = KSecretD_writeEntry h walletHandle portal_folder (pr_appId req) b Stream (pt_daemon p)
                 in (b, p\<lparr>pt_daemon := k\<rparr>))
        in p\<lparr>pt_log := pt_log p @ [PortalWrote (pr_fd req) secret, PortalReplied (pr_message req) 0]\<rparr>)"

text \<open>The reply is delayed until the wallet has been opened; a daemon that is disabled refuses at once.\<close>

definition RetrieveSecret :: "host \<Rightarrow> (nat \<Rightarrow> u32) \<Rightarrow> portal_request \<Rightarrow> portal \<Rightarrow> portal" where
  "RetrieveSecret h rnd req p =
     (case KSecretD_open (networkWallet (ks_settings (pt_daemon p))) 0 (pt_daemon p) of
        (Inl res, k) \<Rightarrow> portal_walletOpened h rnd req res (p\<lparr>pt_daemon := k\<rparr>)
      | (Inr n, k) \<Rightarrow> p\<lparr>pt_daemon := k, pt_pending := pt_pending p @ [(n, req)]\<rparr>)"

definition portal_promise :: "host \<Rightarrow> (nat \<Rightarrow> u32) \<Rightarrow> nat \<Rightarrow> int \<Rightarrow> portal \<Rightarrow> portal" where
  "portal_promise h rnd n res p =
     fold (\<lambda>(_, req). portal_walletOpened h rnd req res) (filter (\<lambda>x. fst x = n) (pt_pending p))
       (p\<lparr>pt_pending := filter (\<lambda>x. fst x \<noteq> n) (pt_pending p)\<rparr>)"

section \<open>Looking at an entry\<close>

lemma readEntry_keeps:
  assumes "usable handle s"
  shows "usable handle (snd (KSecretD_readEntry handle f k s))"
    and "entry_at handle g key (snd (KSecretD_readEntry handle f k s)) = entry_at handle g key s"
proof -
  obtain b where b: "qmap_find (ks_wallets s) handle = Some b" "wf_entries b" "b_open b" "handle \<noteq> 0" "qmap_wf (ks_wallets s)"
    using assms by (rule usableE)
  obtain s' where s': "KSecretD_getWallet handle s = (Some b, s')" "ks_wallets s' = ks_wallets s"
    using getWallet_valid [OF b(1,4)] by metis
  have w: "ks_wallets (snd (KSecretD_readEntry handle f k s)) = qmap_insert handle (Backend_setFolder f b) (ks_wallets s)"
    using s' by (simp add: KSecretD_readEntry_def Let_def split: option.split)
  have c: "wf_entries (Backend_setFolder f b)" "b_open (Backend_setFolder f b)" "lookup_entry (Backend_setFolder f b) g key = lookup_entry b g key"
    using b(2,3) by (simp_all add: Backend_setFolder_def lookup_entry_def)
  show "usable handle (snd (KSecretD_readEntry handle f k s))"
    using b(4,5) c(1,2) by (simp add: usable_def w qmap_simps)
  show "entry_at handle g key (snd (KSecretD_readEntry handle f k s)) = entry_at handle g key s"
    using b(1,5) c(3) by (simp add: entry_at_def w qmap_simps)
qed

lemma portal_hasEntry_at:
  assumes "usable handle s"
  shows "fst (KSecretD_hasEntry handle f k s) \<longleftrightarrow> entry_at handle f k s \<noteq> None"
    and "usable handle (snd (KSecretD_hasEntry handle f k s))"
    and "entry_at handle g key (snd (KSecretD_hasEntry handle f k s)) = entry_at handle g key s"
proof -
  obtain b where b: "qmap_find (ks_wallets s) handle = Some b" "wf_entries b" "b_open b" "handle \<noteq> 0" "qmap_wf (ks_wallets s)"
    using assms by (rule usableE)
  obtain s' where s': "KSecretD_getWallet handle s = (Some b, s')" "ks_wallets s' = ks_wallets s"
    using getWallet_valid [OF b(1,4)] by metis
  have c: "wf_entries (Backend_setFolder f b)" "b_open (Backend_setFolder f b)" "lookup_entry (Backend_setFolder f b) g key = lookup_entry b g key"
    for g key using b(2,3) by (simp_all add: Backend_setFolder_def lookup_entry_def)
  have h: "Backend_hasEntry (Backend_setFolder f b) k \<longleftrightarrow> lookup_entry b f k \<noteq> None" if "Backend_hasFolder b f"
    using that by (auto simp: Backend_hasEntry_def Backend_hasFolder_def Backend_setFolder_def lookup_entry_def content_def
        current_folder_def qmap_contains_def split: option.split)
  have n: "lookup_entry b f k = None" if "\<not> Backend_hasFolder b f"
    using that by (simp add: lookup_entry_def hasFolder_content)
  show "fst (KSecretD_hasEntry handle f k s) \<longleftrightarrow> entry_at handle f k s \<noteq> None"
    using s'(1) b(1) h n by (cases "Backend_hasFolder b f") (simp_all add: KSecretD_hasEntry_def entry_at_def Let_def)
  have w: "ks_wallets (snd (KSecretD_hasEntry handle f k s)) \<in> {ks_wallets s, qmap_insert handle (Backend_setFolder f b) (ks_wallets s)}"
    using s' by (simp add: KSecretD_hasEntry_def Let_def)
  then show "usable handle (snd (KSecretD_hasEntry handle f k s))"
    using b c(1,2) by (auto simp: usable_def qmap_simps)
  from w show "entry_at handle g key (snd (KSecretD_hasEntry handle f k s)) = entry_at handle g key s"
    using b(1,5) c(3) by (auto simp: entry_at_def qmap_simps)
qed

section \<open>The secret of an application\<close>

definition portal_secret :: "(nat \<Rightarrow> u32) \<Rightarrow> int \<Rightarrow> qstring \<Rightarrow> portal \<Rightarrow> bytes" where
  "portal_secret rnd handle app p =
     (case entry_at handle portal_folder app (pt_daemon p) of Some e \<Rightarrow> e_value e | None \<Rightarrow> fst (generateSecret rnd p))"

lemma portal_opened:
  assumes "usable handle (pt_daemon p)" and "handle \<noteq> -1"
  shows "pt_log (portal_walletOpened h rnd req handle p) =
      pt_log p @ [PortalWrote (pr_fd req) (portal_secret rnd handle (pr_appId req) p), PortalReplied (pr_message req) 0]"
    and "usable handle (pt_daemon (portal_walletOpened h rnd req handle p))"
    and "entry_at handle g key (pt_daemon (portal_walletOpened h rnd req handle p)) =
      (if entry_at handle portal_folder (pr_appId req) (pt_daemon p) = None \<and> g = portal_folder \<and> key = pr_appId req
       then Some (daemon_entry (pr_appId req) (portal_secret rnd handle (pr_appId req) p) Stream)
       else entry_at handle g key (pt_daemon p))"
proof -
  let ?app = "pr_appId req" and ?s = "pt_daemon p"
  obtain ex k where ek: "KSecretD_hasEntry handle portal_folder ?app ?s = (ex, k)" by fastforce
  have k: "ex \<longleftrightarrow> entry_at handle portal_folder ?app ?s \<noteq> None" "usable handle k" "\<And>g key. entry_at handle g key k = entry_at handle g key ?s"
    using portal_hasEntry_at(1,2) [OF assms(1), of portal_folder ?app] portal_hasEntry_at(3) [OF assms(1), where f = portal_folder and k = ?app] ek
    by (simp_all add: prod_eq_iff)
  obtain b k1 where r: "KSecretD_readEntry handle portal_folder ?app k = (b, k1)" by fastforce
  have r1: "b = (case entry_at handle portal_folder ?app ?s of None \<Rightarrow> [] | Some e \<Rightarrow> e_value e)" "usable handle k1"
    "entry_at handle g key k1 = entry_at handle g key ?s"
    using readEntry_at [OF k(2), of portal_folder ?app] readEntry_keeps(1) [OF k(2), of portal_folder ?app]
      readEntry_keeps(2) [OF k(2), where f = portal_folder and k = ?app and g = g and key = key] r k(3) by (simp_all add: prod_eq_iff)
  let ?sec = "fst (generateSecret rnd p)"
  obtain n k2 where w: "write_to h handle portal_folder (daemon_entry ?app ?sec Stream) k = (n, k2)" by fastforce
  have w1: "usable handle k2" "entry_at handle g key k2 = (if g = portal_folder \<and> key = ?app then Some (daemon_entry ?app ?sec Stream) else entry_at handle g key ?s)"
    using write_to_store [OF k(2), where h = h and f = portal_folder and e = "daemon_entry ?app ?sec Stream"] w k(3) by (simp_all add: daemon_entry_def)
  have g: "generateSecret rnd (p\<lparr>pt_daemon := k\<rparr>) = (?sec, (snd (generateSecret rnd p))\<lparr>pt_daemon := k\<rparr>)"
    "pt_daemon (snd (generateSecret rnd p)) = ?s" "pt_log (snd (generateSecret rnd p)) = pt_log p"
    by (simp_all add: generateSecret_def)
  show "pt_log (portal_walletOpened h rnd req handle p) =
      pt_log p @ [PortalWrote (pr_fd req) (portal_secret rnd handle ?app p), PortalReplied (pr_message req) 0]"
    using assms(2) ek r w k(1) r1(1)
    by (auto simp: portal_walletOpened_def portal_secret_def KSecretD_writeEntry_to g split: option.split)
  show "usable handle (pt_daemon (portal_walletOpened h rnd req handle p))"
    using assms(2) ek r w r1(2) w1(1) by (cases ex) (simp_all add: portal_walletOpened_def KSecretD_writeEntry_to g Let_def)
  show "entry_at handle g key (pt_daemon (portal_walletOpened h rnd req handle p)) =
      (if entry_at handle portal_folder ?app ?s = None \<and> g = portal_folder \<and> key = ?app
       then Some (daemon_entry ?app (portal_secret rnd handle ?app p) Stream) else entry_at handle g key ?s)"
    using assms(2) ek r w k(1) r1(3) w1(2)
    by (auto simp: portal_walletOpened_def portal_secret_def KSecretD_writeEntry_to g split: option.split)
qed

text \<open>C20. A request is answered with one secret of the application, which is 64 new bytes when there was none, and touches no
  other entry.  As long as the entry is not changed by others, every later request of the application gets the same
  secret, whatever handle the wallet then has; the daemon may have been busy with anything in between.\<close>

theorem portal_secret_stable:
  assumes "usable handle (pt_daemon p)" and "handle \<noteq> -1" and "p1 = portal_walletOpened h rnd req handle p"
  shows "\<exists>secret. pt_log p1 = pt_log p @ [PortalWrote (pr_fd req) secret, PortalReplied (pr_message req) 0] \<and>
    (entry_at handle portal_folder (pr_appId req) (pt_daemon p) = None \<longrightarrow>
      secret = map (\<lambda>i. ucast (rnd (pt_drawn p + i))) [0..<64] \<and> pt_drawn p1 = pt_drawn p + 64) \<and>
    (\<forall>g key. (g, key) \<noteq> (portal_folder, pr_appId req) \<longrightarrow> entry_at handle g key (pt_daemon p1) = entry_at handle g key (pt_daemon p)) \<and>
    (\<forall>req' handle' p2. pr_appId req' = pr_appId req \<and> usable handle' (pt_daemon p2) \<and> handle' \<noteq> -1 \<and>
        entry_at handle' portal_folder (pr_appId req) (pt_daemon p2) = entry_at handle portal_folder (pr_appId req) (pt_daemon p1) \<longrightarrow>
      pt_log (portal_walletOpened h rnd req' handle' p2) =
        pt_log p2 @ [PortalWrote (pr_fd req') secret, PortalReplied (pr_message req') 0])"
proof -
  let ?app = "pr_appId req" and ?secret = "portal_secret rnd handle (pr_appId req) p"
  note o = portal_opened [OF assms(1,2), where h = h and rnd = rnd and req = req, folded assms(3)]
  have v: "\<exists>e. entry_at handle portal_folder ?app (pt_daemon p1) = Some e \<and> e_value e = ?secret"
    using o(3) [of portal_folder ?app]
    by (cases "entry_at handle portal_folder ?app (pt_daemon p)") (simp_all add: daemon_entry_def portal_secret_def)
  have n: "?secret = map (\<lambda>i. ucast (rnd (pt_drawn p + i))) [0..<64] \<and> pt_drawn p1 = pt_drawn p + 64"
    if "entry_at handle portal_folder ?app (pt_daemon p) = None"
  proof -
    have "\<not> fst (KSecretD_hasEntry handle portal_folder ?app (pt_daemon p))"
      using that by (simp add: portal_hasEntry_at(1) [OF assms(1)])
    then obtain k where "KSecretD_hasEntry handle portal_folder ?app (pt_daemon p) = (False, k)"
      by (cases "KSecretD_hasEntry handle portal_folder ?app (pt_daemon p)") simp
    moreover obtain n k' where "KSecretD_writeEntry h handle portal_folder ?app (fst (generateSecret rnd p)) Stream k = (n, k')"
      by fastforce
    moreover have "generateSecret rnd (p\<lparr>pt_daemon := k\<rparr>) = (fst (generateSecret rnd p), p\<lparr>pt_daemon := k, pt_drawn := pt_drawn p + secretSize\<rparr>)"
      by (simp add: generateSecret_def)
    ultimately have "pt_drawn (portal_walletOpened h rnd req handle p) = pt_drawn p + secretSize"
      using assms(2) by (simp add: portal_walletOpened_def Let_def)
    moreover have "?secret = map (\<lambda>i. ucast (rnd (pt_drawn p + i))) [0..<secretSize]"
      using that by (simp add: portal_secret_def generateSecret_def)
    ultimately show ?thesis unfolding assms(3) secretSize_def by (rule conjI [rotated])
  qed
  have l: "pt_log (portal_walletOpened h rnd req' handle' p2) = pt_log p2 @ [PortalWrote (pr_fd req') ?secret, PortalReplied (pr_message req') 0]"
    if "pr_appId req' = ?app" "usable handle' (pt_daemon p2)" "handle' \<noteq> -1"
      "entry_at handle' portal_folder ?app (pt_daemon p2) = entry_at handle portal_folder ?app (pt_daemon p1)" for req' handle' p2
    using portal_opened(1) [OF that(2,3), where h = h and rnd = rnd and req = req'] that(1,4) v by (auto simp: portal_secret_def)
  show ?thesis using o(1,3) n l by (intro exI [of _ ?secret]) auto
qed

text \<open>When the wallet is no longer open as the answer arrives, a new secret is made for every request and handed out
  with a reply of success, but it is not kept.\<close>

theorem portal_secret_lost:
  assumes "handle \<noteq> -1" and "handle \<noteq> 0" and "qmap_find (ks_wallets (pt_daemon p)) handle = None"
  shows "pt_log (portal_walletOpened h rnd req handle p) =
      pt_log p @ [PortalWrote (pr_fd req) (map (\<lambda>i. ucast (rnd (pt_drawn p + i))) [0..<64]), PortalReplied (pr_message req) 0] \<and>
    ks_wallets (pt_daemon (portal_walletOpened h rnd req handle p)) = ks_wallets (pt_daemon p) \<and>
    pt_drawn (portal_walletOpened h rnd req handle p) = pt_drawn p + 64"
proof -
  have g: "KSecretD_getWallet handle s = (None, count_failure s) \<and> ks_wallets (count_failure s) = ks_wallets (pt_daemon p)"
    if "ks_wallets s = ks_wallets (pt_daemon p)" for s
    using assms(2,3) that by (simp add: KSecretD_getWallet_def count_failure_def emit_def Let_def)
  show ?thesis using assms(1) g [of "pt_daemon p"] g [of "count_failure (pt_daemon p)"]
    by (simp add: portal_walletOpened_def KSecretD_hasEntry_def KSecretD_writeEntry_def write_to_def generateSecret_def secretSize_def
      del: upt_rec_numeral)
qed

definition example_portal :: portal where
  "example_portal = \<lparr>pt_daemon = one_wallet, pt_pending = [], pt_drawn = 0, pt_log = []\<rparr>"

definition example_request :: "nat \<Rightarrow> portal_request" where
  "example_request n = \<lparr>pr_message = n, pr_fd = n, pr_appId = qs ''org.app''\<rparr>"

theorem portal_secret_stable_witness:
  "\<exists>secret. pt_log (portal_walletOpened example_host of_nat (example_request 2) 7 (portal_walletOpened example_host of_nat (example_request 1) 7 example_portal)) =
     [PortalWrote 1 secret, PortalReplied 1 0, PortalWrote 2 secret, PortalReplied 2 0] \<and> length secret = 64"
proof -
  let ?p1 = "portal_walletOpened example_host of_nat (example_request 1) 7 example_portal"
  have u: "usable 7 (pt_daemon example_portal)" using one_wallet_usable by (simp add: example_portal_def)
  have u1: "usable 7 (pt_daemon ?p1)" by (rule portal_opened(2) [OF u]) simp
  have "entry_at 7 portal_folder (qs ''org.app'') (pt_daemon example_portal) = None"
    by (simp add: example_portal_def one_wallet_def entry_at_def qmap_find_def lookup_entry_def content_def empty_wallet_def Backend_new_def)
  moreover have l0: "pt_log example_portal = []" "pr_appId (example_request n) = qs ''org.app''" "pr_fd (example_request n) = n"
    "pr_message (example_request n) = n" for n by (simp_all add: example_portal_def example_request_def)
  moreover have m: "(7 :: int) \<noteq> -1" by simp
  obtain secret where p: "pt_log ?p1 = pt_log example_portal @ [PortalWrote (pr_fd (example_request 1)) secret, PortalReplied (pr_message (example_request 1)) 0]"
    "entry_at 7 portal_folder (pr_appId (example_request 1)) (pt_daemon example_portal) = None \<longrightarrow>
      secret = map (\<lambda>i. ucast (of_nat (pt_drawn example_portal + i) :: u32)) [0..<64] \<and> pt_drawn ?p1 = pt_drawn example_portal + 64"
    "\<forall>req' handle' p2. pr_appId req' = pr_appId (example_request 1) \<and> usable handle' (pt_daemon p2) \<and> handle' \<noteq> -1 \<and>
        entry_at handle' portal_folder (pr_appId (example_request 1)) (pt_daemon p2) = entry_at 7 portal_folder (pr_appId (example_request 1)) (pt_daemon ?p1) \<longrightarrow>
      pt_log (portal_walletOpened example_host of_nat req' handle' p2) =
        pt_log p2 @ [PortalWrote (pr_fd req') secret, PortalReplied (pr_message req') 0]"
    using portal_secret_stable [OF u m refl, where h = example_host and rnd = of_nat and req = "example_request 1"] by (elim exE conjE)
  ultimately have s: "length secret = 64" "pt_log ?p1 = [PortalWrote 1 secret, PortalReplied 1 0]" by (simp_all del: upt_rec_numeral)
  have "pt_log (portal_walletOpened example_host of_nat (example_request 2) 7 ?p1) =
      pt_log ?p1 @ [PortalWrote 2 secret, PortalReplied 2 0]"
    using p(3) [rule_format, of "example_request 2" 7 ?p1] u1 by (simp add: l0)
  with s(1,2) show ?thesis by auto
qed

theorem portal_secret_lost_witness:
  "pt_log (portal_walletOpened example_host of_nat (example_request 1) 9 example_portal) =
     [PortalWrote 1 (map (\<lambda>i. ucast (of_nat i :: u32)) [0..<64]), PortalReplied 1 0]"
  using portal_secret_lost [of 9 example_portal example_host of_nat "example_request 1"]
  by (simp add: example_portal_def one_wallet_def fresh_daemon_def qmap_find_def example_request_def del: upt_rec_numeral)

end
