(* ===== verification/PortalEvents.thy ===== *)
theory PortalEvents
  imports PortalSecrets KSecretDClaims
begin

text \<open>
  The portal for secrets together with the daemon: requests queue up behind the promises of the daemon, the daemon works
  on its queue, and its results reach the portal in the event loop.  Every request gets one reply.
\<close>

text \<open>The results that the daemon gives while it works on the queue; the portal reacts to them afterwards, in their order.\<close>

fun portal_deliver :: "host \<Rightarrow> (nat \<Rightarrow> u32) \<Rightarrow> event list \<Rightarrow> portal \<Rightarrow> portal" where
  "portal_deliver h rnd [] p = p"
| "portal_deliver h rnd (e # es) p =
     portal_deliver h rnd es (case e of PromiseResult n res \<Rightarrow> portal_promise h rnd n res p | _ \<Rightarrow> p)"

definition portal_event_loop :: "host \<Rightarrow> (nat \<Rightarrow> user) \<Rightarrow> (nat \<Rightarrow> u32) \<Rightarrow> portal \<Rightarrow> portal run" where
  "portal_event_loop h us rnd p =
     run_bind (KSecretD_processTransactions h us (pt_daemon p)) (\<lambda>k.
       Ret (portal_deliver h rnd (drop (length (ks_events (pt_daemon p))) (ks_events k)) (p\<lparr>pt_daemon := k\<rparr>)))"

section \<open>Replies and waiting requests\<close>

definition replies :: "nat \<Rightarrow> portal_output list \<Rightarrow> nat" where
  "replies m log = length (filter (\<lambda>x. case x of PortalReplied n c \<Rightarrow> n = m | _ \<Rightarrow> False) log)"

definition waiting :: "nat \<Rightarrow> (nat \<times> portal_request) list \<Rightarrow> nat" where
  "waiting m ps = length (filter (\<lambda>x. pr_message (snd x) = m) ps)"

lemma replies_simps [simp]:
  "replies m [] = 0" "replies m (xs @ ys) = replies m xs + replies m ys"
  "replies m (PortalReplied n c # xs) = (if n = m then 1 else 0) + replies m xs" "replies m (PortalWrote fd b # xs) = replies m xs"
  by (simp_all add: replies_def)

lemma waiting_simps [simp]:
  "waiting m [] = 0" "waiting m (x # ps) = (if pr_message (snd x) = m then 1 else 0) + waiting m ps"
  "waiting m (ps @ ps2) = waiting m ps + waiting m ps2"
  by (simp_all add: waiting_def)

lemma waiting_split: "waiting m ps = waiting m (filter P ps) + waiting m (filter (\<lambda>x. \<not> P x) ps)"
  by (induction ps) auto

lemma generateSecret_frame [simp]:
  "pt_log (snd (generateSecret rnd p)) = pt_log p" "pt_pending (snd (generateSecret rnd p)) = pt_pending p"
  by (simp_all add: generateSecret_def)

lemma opened_replies:
  "replies m (pt_log (portal_walletOpened h rnd req i p)) = replies m (pt_log p) + (if pr_message req = m then 1 else 0)"
  "pt_pending (portal_walletOpened h rnd req i p) = pt_pending p"
proof -
  obtain x p1 where g: "\<And>k. generateSecret rnd (p\<lparr>pt_daemon := k\<rparr>) = (x, p1\<lparr>pt_daemon := k\<rparr>)" "pt_log p1 = pt_log p" "pt_pending p1 = pt_pending p"
    by (rule that [of "fst (generateSecret rnd p)" "snd (generateSecret rnd p)"]) (simp_all add: generateSecret_def)
  show "replies m (pt_log (portal_walletOpened h rnd req i p)) = replies m (pt_log p) + (if pr_message req = m then 1 else 0)"
    "pt_pending (portal_walletOpened h rnd req i p) = pt_pending p"
    using g by (simp_all add: portal_walletOpened_def Let_def split: prod.split)
qed

lemma opened_all:
  "replies m (pt_log (fold (\<lambda>(_, req). portal_walletOpened h rnd req res) xs p)) = replies m (pt_log p) + waiting m xs"
  "pt_pending (fold (\<lambda>(_, req). portal_walletOpened h rnd req res) xs p) = pt_pending p"
  by (induction xs arbitrary: p) (auto simp: opened_replies)

lemma promise_replies:
  "replies m (pt_log (portal_promise h rnd n res p)) + waiting m (pt_pending (portal_promise h rnd n res p)) =
     replies m (pt_log p) + waiting m (pt_pending p)"
  "pt_pending (portal_promise h rnd n res p) = filter (\<lambda>x. fst x \<noteq> n) (pt_pending p)"
  using waiting_split [of m "pt_pending p" "\<lambda>x. fst x = n"]
  by (simp_all add: portal_promise_def opened_all)

lemma deliver_replies:
  "replies m (pt_log (portal_deliver h rnd es p)) + waiting m (pt_pending (portal_deliver h rnd es p)) =
     replies m (pt_log p) + waiting m (pt_pending p)"
  "set (pt_pending (portal_deliver h rnd es p)) = {x \<in> set (pt_pending p). \<forall>r. PromiseResult (fst x) r \<notin> set es}"
proof (induction es arbitrary: p)
  case (Cons e es)
  case 1
  show ?case using Cons(1) promise_replies(1) by (simp split: event.split)
  case 2
  show ?case using Cons(2) by (auto simp: promise_replies(2) split: event.split)
qed simp_all

lemma RetrieveSecret_replies:
  assumes "p1 = RetrieveSecret h rnd req p"
  shows "replies m (pt_log p1) + waiting m (pt_pending p1) =
      replies m (pt_log p) + waiting m (pt_pending p) + (if pr_message req = m then 1 else 0)"
    and "ks_processing (pt_daemon p1) = ks_processing (pt_daemon p)"
    and "fst ` set (pt_pending p) \<subseteq> tr_promise ` set (ks_transactions (pt_daemon p)) \<Longrightarrow>
      fst ` set (pt_pending p1) \<subseteq> tr_promise ` set (ks_transactions (pt_daemon p1))"
  using assms
  by (auto simp: RetrieveSecret_def KSecretD_open_def enqueue_def emit_def Let_def opened_replies portal_walletOpened_def)

lemma requests_replies:
  "replies m (pt_log (fold (RetrieveSecret h rnd) reqs p)) + waiting m (pt_pending (fold (RetrieveSecret h rnd) reqs p)) =
     replies m (pt_log p) + waiting m (pt_pending p) + length (filter (\<lambda>r. pr_message r = m) reqs)"
  "ks_processing (pt_daemon (fold (RetrieveSecret h rnd) reqs p)) = ks_processing (pt_daemon p)"
  "fst ` set (pt_pending p) \<subseteq> tr_promise ` set (ks_transactions (pt_daemon p)) \<Longrightarrow>
     fst ` set (pt_pending (fold (RetrieveSecret h rnd) reqs p)) \<subseteq>
       tr_promise ` set (ks_transactions (pt_daemon (fold (RetrieveSecret h rnd) reqs p)))"
  by (induction reqs arbitrary: p) (simp_all add: RetrieveSecret_replies [OF refl])

text \<open>C19. Every request of an application to the portal is answered, and answered once: when requests have come in, in any
  number, and the daemon has worked on its queue, no request waits any more, and each message has got as many replies as
  there were requests with it, whatever the user did and whether or not the wallet could be opened.\<close>

theorem portal_requests_answered:
  assumes "pt_pending p = []" and "\<not> ks_processing (pt_daemon p)"
    and "portal_event_loop h us rnd (fold (RetrieveSecret h rnd) reqs p) = Ret p2"
  shows "pt_pending p2 = [] \<and>
    (\<forall>m. replies m (pt_log p2) = replies m (pt_log p) + length (filter (\<lambda>r. pr_message r = m) reqs))"
proof -
  let ?p1 = "fold (RetrieveSecret h rnd) reqs p"
  let ?k = "pt_daemon ?p1"
  obtain k where k: "KSecretD_processTransactions h us ?k = Ret k"
    and p2: "p2 = portal_deliver h rnd (drop (length (ks_events ?k)) (ks_events k)) (?p1\<lparr>pt_daemon := k\<rparr>)"
    using assms(3) by (auto simp: portal_event_loop_def run_bind_Ret_iff)
  note r = requests_replies(1) [of _ h rnd reqs p] requests_replies(2) [of h rnd reqs p] requests_replies(3) [of p h rnd reqs]
  have "\<not> ks_processing ?k" using r(2) assms(2) by simp
  then obtain s1 where s1: "run_transactions h us (ks_transactions ?k) (?k\<lparr>ks_processing := True\<rparr>) = Ret s1" "ks_events k = ks_events s1"
    using k by (auto simp: KSecretD_processTransactions_def run_bind_Ret_iff)
  from run_transactions_log [OF s1(1)] obtain es where es: "ks_events k = ks_events ?k @ es"
    "\<forall>t \<in> set (ks_transactions ?k). \<exists>r. PromiseResult (tr_promise t) r \<in> set es"
    by (auto simp: s1(2))
  have sub: "fst ` set (pt_pending ?p1) \<subseteq> tr_promise ` set (ks_transactions ?k)" using r(3) assms(1) by simp
  have a: "\<exists>r. PromiseResult (fst x) r \<in> set es" if "x \<in> set (pt_pending ?p1)" for x
  proof -
    from that sub have "fst x \<in> tr_promise ` set (ks_transactions ?k)" by blast
    then obtain t where "t \<in> set (ks_transactions ?k)" "fst x = tr_promise t" by auto
    with es(2) show ?thesis by simp
  qed
  have p2: "p2 = portal_deliver h rnd es (?p1\<lparr>pt_daemon := k\<rparr>)" using p2 es(1) by simp
  have "set (pt_pending p2) = {}"
    unfolding p2 deliver_replies(2) using a by auto
  then have n: "pt_pending p2 = []" by simp
  moreover have "replies m (pt_log p2) = replies m (pt_log p) + length (filter (\<lambda>r. pr_message r = m) reqs)" for m
    using deliver_replies(1) [of m h rnd es "?p1\<lparr>pt_daemon := k\<rparr>"] r(1) [of m] assms(1) n by (simp add: p2)
  ultimately show ?thesis by blast
qed

definition waiting_portal :: portal where
  "waiting_portal = example_portal\<lparr>pt_daemon := fresh_daemon\<rparr>"

lemma waiting_portal_loop:
  "\<exists>p2. portal_event_loop example_host (\<lambda>_. cancelling) of_nat
     (fold (RetrieveSecret example_host of_nat) [example_request 1, example_request 2] waiting_portal) = Ret p2"
  by (simp add: portal_event_loop_def RetrieveSecret_def waiting_portal_def example_portal_def fresh_daemon_def networkWallet_def
      KSecretD_open_def enqueue_def KSecretD_processTransactions_def KSecretD_isEnabled_def example_settings_def emit_def
      KSecretD_doTransactionOpen_def KSecretD_internalOpen_def first_use_def findWallet_def Backend_exists_def
      wallet_on_disk_def open_new_def cancelling_def finish_open_def fail_others_def Let_def)

theorem portal_requests_answered_witness:
  "\<exists>p2. portal_event_loop example_host (\<lambda>_. cancelling) of_nat
     (fold (RetrieveSecret example_host of_nat) [example_request 1, example_request 2] waiting_portal) = Ret p2 \<and>
     pt_pending p2 = [] \<and> replies 1 (pt_log p2) = 1 \<and> replies 2 (pt_log p2) = 1 \<and> replies 3 (pt_log p2) = 0"
proof -
  obtain p2 where p2: "portal_event_loop example_host (\<lambda>_. cancelling) of_nat
      (fold (RetrieveSecret example_host of_nat) [example_request 1, example_request 2] waiting_portal) = Ret p2"
    using waiting_portal_loop by blast
  have p: "pt_pending waiting_portal = []" "\<not> ks_processing (pt_daemon waiting_portal)" "pt_log waiting_portal = []"
    "pr_message (example_request n) = n" for n
    by (simp_all add: waiting_portal_def example_portal_def fresh_daemon_def example_request_def)
  from portal_requests_answered [OF p(1,2) p2] p2 show ?thesis by (simp add: p(3,4))
qed

end
