(* ===== verification/SecretService.thy ===== *)
theory SecretService
  imports FdoAttributes
begin

text \<open>
  The client of the Secret Service in \<open>kwalletd\<close> (src/runtime/kwalletd/secretserviceclient.cpp): the class
  \<open>SecretServiceClient\<close>.  It talks to any Secret Service, not only to the one of this repository, through the library
  libsecret and in a few places over D-Bus directly; both are the record \<open>libsecret\<close>, over a type of states of the
  service that is left open.  Collections and items are known by their object paths, which stand for libsecret's proxy
  objects; a null pointer is \<open>None\<close>.  A call of libsecret gives \<open>True\<close> or \<open>Some\<close> when it leaves no error.
\<close>

section \<open>Surroundings\<close>

type_synonym attribute_table = "(bytes \<times> bytes) list"   \<comment> \<open>GHashTable of C strings\<close>
type_synonym secret_value = "bytes \<times> bytes"             \<comment> \<open>SecretValue: data and content type\<close>

record 's libsecret =
  ls_get :: "'s \<Rightarrow> bool \<times> 's"                         \<comment> \<open>secret\_service\_get\_sync\<close>
  ls_load :: "'s \<Rightarrow> bool \<times> 's"                        \<comment> \<open>secret\_service\_load\_collections\_sync\<close>
  ls_collections :: "'s \<Rightarrow> qstring list"             \<comment> \<open>as loaded before, so maybe stale\<close>
  ls_label :: "'s \<Rightarrow> qstring \<Rightarrow> bytes"
  ls_items :: "'s \<Rightarrow> qstring \<Rightarrow> qstring list"
  ls_search :: "'s \<Rightarrow> qstring option \<Rightarrow> attribute_table \<Rightarrow> qstring list option"
  ls_attributes :: "'s \<Rightarrow> qstring \<Rightarrow> attribute_table option"
  ls_secret :: "'s \<Rightarrow> qstring \<Rightarrow> secret_value option"
  ls_text :: "secret_value \<Rightarrow> bytes option"          \<comment> \<open>secret\_value\_get\_text\<close>
  ls_collectionLocked :: "'s \<Rightarrow> qstring \<Rightarrow> bool"
  ls_itemLocked :: "'s \<Rightarrow> qstring \<Rightarrow> bool"
  ls_unlock :: "qstring \<Rightarrow> 's \<Rightarrow> (bool \<times> bool) \<times> 's" \<comment> \<open>success, no error\<close>
  ls_loadSecret :: "qstring \<Rightarrow> 's \<Rightarrow> bool \<times> 's"
  ls_createItem :: "qstring option \<Rightarrow> attribute_table \<Rightarrow> bytes \<Rightarrow> secret_value \<Rightarrow> 's \<Rightarrow> bool \<times> 's"
  ls_deleteItem :: "qstring \<Rightarrow> 's \<Rightarrow> bool \<times> 's"
  ls_createCollection :: "bytes \<Rightarrow> 's \<Rightarrow> bool \<times> 's"
  ls_deleteCollection :: "qstring option \<Rightarrow> 's \<Rightarrow> (bool \<times> bool) \<times> 's"
  ls_setAlias :: "bytes \<Rightarrow> qstring option \<Rightarrow> 's \<Rightarrow> (bool \<times> bool) \<times> 's"
  ls_busLabel :: "'s \<Rightarrow> qstring \<Rightarrow> qstring option"   \<comment> \<open>the D-Bus property, None when it cannot be read\<close>
  ls_busLocked :: "'s \<Rightarrow> qstring \<Rightarrow> bool option"
  ls_readAlias :: "'s \<Rightarrow> qstring option"             \<comment> \<open>the D-Bus call for the default alias\<close>
  ls_toBase64 :: "bytes \<Rightarrow> bytes"
  ls_fromBase64 :: "bytes \<Rightarrow> bytes"
  ls_random :: "nat \<Rightarrow> u32"                         \<comment> \<open>QRandomGenerator::generate\<close>

section \<open>State\<close>

datatype value_type = PlainText | Base64 | Binary | MapText | UnknownText

datatype client_signal = SigServiceChanged | SigPromptClosed bool | SigCollectionListDirty | SigCollectionDirty qstring
  | SigCollectionCreated qstring | SigCollectionDeleted qstring | SigCollectionLockedChanged qstring bool

record 's client =
  sc_world :: 's
  sc_service :: bool                       \<comment> \<open>m\_service is not null\<close>
  sc_openCollections :: "(qstring, qstring) qmap"
  sc_watchedCollections :: "qstring list"
  sc_dirtyCollections :: "qstring list"
  sc_dirtyTimer :: bool                    \<comment> \<open>m\_collectionDirtyTimer runs\<close>
  sc_serviceBusName :: qstring
  sc_useKSecretBackend :: bool
  sc_updateInProgress :: bool
  sc_signals :: "client_signal list"

definition sc_emit :: "client_signal \<Rightarrow> 's client \<Rightarrow> 's client" where
  "sc_emit x c = c\<lparr>sc_signals := sc_signals c @ [x]\<rparr>"

definition on_world :: "('s \<Rightarrow> 'a \<times> 's) \<Rightarrow> 's client \<Rightarrow> 'a \<times> 's client" where
  "on_world f c = (let (r, w) = f (sc_world c) in (r, c\<lparr>sc_world := w\<rparr>))"

fun typeToString :: "value_type \<Rightarrow> qstring" where
  "typeToString Base64 = qs ''base64''"
| "typeToString Binary = qs ''binary''"
| "typeToString MapText = qs ''map''"
| "typeToString _ = qs ''plaintext''"

definition stringToType :: "qstring \<Rightarrow> value_type" where
  "stringToType n =
     (if n = qs ''binary'' then Binary else if n = qs ''base64'' then Base64 else if n = qs ''map'' then MapText else PlainText)"

section \<open>The connection\<close>

definition attemptConnection :: "'s libsecret \<Rightarrow> 's client \<Rightarrow> bool \<times> 's client" where
  "attemptConnection L c =
     (if sc_service c then (True, c)
      else let (ok, c) = on_world (ls_get L) c in (ok, c\<lparr>sc_service := ok\<rparr>))"

definition collectionLabelForPath :: "'s libsecret \<Rightarrow> qstring \<Rightarrow> 's client \<Rightarrow> qstring \<times> 's client" where
  "collectionLabelForPath L path c =
     (let (ok, c) = attemptConnection L c in
      if \<not> ok then ([], c)
      else (case ls_busLabel L (sc_world c) path of None \<Rightarrow> [] | Some label \<Rightarrow> label, c))"

text \<open>The loop over the collections that libsecret knows stops at the first that has the label.\<close>

definition labelled :: "host \<Rightarrow> 's libsecret \<Rightarrow> qstring \<Rightarrow> 's \<Rightarrow> qstring option" where
  "labelled h L name w = List.find (\<lambda>p. fromUtf8 h (cstr (ls_label L w p)) = name) (ls_collections L w)"

definition retrieveCollection :: "host \<Rightarrow> 's libsecret \<Rightarrow> qstring \<Rightarrow> 's client \<Rightarrow> qstring option \<times> 's client" where
  "retrieveCollection h L name c =
     (let (ok, c) = attemptConnection L c in
      if \<not> ok then (None, c)
      else case qmap_find (sc_openCollections c) name of
        Some p \<Rightarrow> (Some p, c)
      | None \<Rightarrow>
          let (ok, c) = on_world (ls_load L) c in
          if \<not> ok then (None, c)
          else case labelled h L name (sc_world c) of
            None \<Rightarrow> (None, c)
          | Some p \<Rightarrow> (Some p, c\<lparr>sc_openCollections := qmap_insert name p (sc_openCollections c)\<rparr>))"

section \<open>Finding items\<close>

definition c_string :: "host \<Rightarrow> qstring \<Rightarrow> bytes" where
  "c_string h s = cstr (toUtf8 h s)"

definition folder_query :: "host \<Rightarrow> qstring \<Rightarrow> attribute_table" where
  "folder_query h folder = [(ascii ''server'', c_string h folder)]"

definition item_query :: "host \<Rightarrow> qstring \<Rightarrow> value_type \<Rightarrow> qstring \<Rightarrow> attribute_table" where
  "item_query h key type folder =
     [(ascii ''server'', c_string h folder), (ascii ''user'', c_string h key)] @
     (if type = UnknownText then [] else [(ascii ''type'', c_string h (typeToString type))])"

text \<open>
  The first item found.  A missing collection is passed on as a null pointer.  The results are the item and
  whether there was one and no error.
\<close>

definition retrieveItem :: "host \<Rightarrow> 's libsecret \<Rightarrow> qstring \<Rightarrow> value_type \<Rightarrow> qstring \<Rightarrow> qstring \<Rightarrow> 's client \<Rightarrow>
    (qstring option \<times> bool) \<times> 's client" where
  "retrieveItem h L key type folder collectionName c =
     (let (collection, c) = retrieveCollection h L collectionName c in
      case ls_search L (sc_world c) collection (item_query h key type folder) of
        None \<Rightarrow> ((None, False), c)
      | Some [] \<Rightarrow> ((None, False), c)
      | Some (item # _) \<Rightarrow> ((Some item, True), c))"

section \<open>Collections\<close>

definition watchCollection :: "host \<Rightarrow> 's libsecret \<Rightarrow> qstring \<Rightarrow> 's client \<Rightarrow> bool \<times> 's client" where
  "watchCollection h L collectionName c =
     (if collectionName \<in> set (sc_watchedCollections c) then (True, c)
      else
        let (collection, c) = retrieveCollection h L collectionName c in
        case collection of
          None \<Rightarrow> (False, c)
        | Some path \<Rightarrow>
            if path = [] then (False, c)
            else (True, c\<lparr>sc_watchedCollections := collectionName # sc_watchedCollections c\<rparr>))"

definition unlockCollection :: "host \<Rightarrow> 's libsecret \<Rightarrow> qstring \<Rightarrow> 's client \<Rightarrow> (bool \<times> bool) \<times> 's client" where
  "unlockCollection h L collectionName c =
     (let (ok, c) = attemptConnection L c in
      if \<not> ok then ((False, False), c)
      else
        let (collection, c) = retrieveCollection h L collectionName c in
        case collection of
          None \<Rightarrow> ((False, False), c)
        | Some p \<Rightarrow>
            let (ok, c) = watchCollection h L collectionName c in
            if ls_collectionLocked L (sc_world c) p then on_world (ls_unlock L p) c else ((True, ok), c))"

definition defaultCollection :: "'s libsecret \<Rightarrow> 's client \<Rightarrow> (qstring \<times> bool) \<times> 's client" where
  "defaultCollection L c =
     (let (ok, c) = attemptConnection L c in
      if \<not> ok then (([], False), c)
      else case ls_readAlias L (sc_world c) of
        None \<Rightarrow> ((qs ''kdewallet'', False), c)
      | Some path \<Rightarrow>
          let (label, c) = collectionLabelForPath L path c in
          if label = [] then ((qs ''kdewallet'', False), c) else ((label, True), c))"

definition setDefaultCollection :: "host \<Rightarrow> 's libsecret \<Rightarrow> qstring \<Rightarrow> 's client \<Rightarrow> bool \<times> 's client" where
  "setDefaultCollection h L collectionName c =
     (let (ok, c) = attemptConnection L c in
      if \<not> ok then (False, c)
      else
        let (collection, c) = retrieveCollection h L collectionName c;
            ((done, noError), c) = on_world (ls_setAlias L (ascii ''default'') collection) c
        in (done \<and> noError, c))"

definition listCollections :: "host \<Rightarrow> 's libsecret \<Rightarrow> 's client \<Rightarrow> (qstring list \<times> bool) \<times> 's client" where
  "listCollections h L c =
     (let (ok, c) = attemptConnection L c in
      if \<not> ok then (([], False), c)
      else
        let (ok, c) = on_world (ls_load L) c in
        if \<not> ok then (([], False), c)
        else ((filter (\<lambda>l. l \<noteq> []) (map (\<lambda>p. fromUtf8 h (cstr (ls_label L (sc_world c) p))) (ls_collections L (sc_world c))), True), c))"

definition createCollection :: "host \<Rightarrow> 's libsecret \<Rightarrow> qstring \<Rightarrow> 's client \<Rightarrow> bool \<times> 's client" where
  "createCollection h L collectionName c =
     (let (ok, c) = attemptConnection L c in
      if \<not> ok then (False, c) else on_world (ls_createCollection L (c_string h collectionName)) c)"

text \<open>The signal is sent whatever the outcome: the test is one of the pointer \<open>ok\<close>.\<close>

definition deleteCollection :: "host \<Rightarrow> 's libsecret \<Rightarrow> qstring \<Rightarrow> 's client \<Rightarrow> bool \<times> 's client" where
  "deleteCollection h L collectionName c =
     (let (ok, c) = attemptConnection L c in
      if \<not> ok then (False, c)
      else
        let (collection, c) = retrieveCollection h L collectionName c;
            ((done, noError), c) = on_world (ls_deleteCollection L collection) c;
            c = c\<lparr>sc_openCollections := qmap_remove collectionName (sc_openCollections c),
                  sc_watchedCollections := removeAll collectionName (sc_watchedCollections c)\<rparr>
        in (done \<and> noError, sc_emit (SigCollectionDeleted collectionName) c))"

section \<open>Folders and entries\<close>

text \<open>The values of an attribute among some items, each one once.\<close>

definition attribute_values :: "host \<Rightarrow> 's libsecret \<Rightarrow> 's \<Rightarrow> bytes \<Rightarrow> qstring list \<Rightarrow> qstring list" where
  "attribute_values h L w name items =
     remdups (List.map_filter
       (\<lambda>i. case ls_attributes L w i of None \<Rightarrow> None | Some a \<Rightarrow> map_option (fromUtf8 h) (map_of a name)) items)"

definition listFolders :: "host \<Rightarrow> 's libsecret \<Rightarrow> qstring \<Rightarrow> 's client \<Rightarrow> (qstring list \<times> bool) \<times> 's client" where
  "listFolders h L collectionName c =
     (let (ok, c) = attemptConnection L c in
      if \<not> ok then (([], False), c)
      else
        let (collection, c) = retrieveCollection h L collectionName c in
        case collection of
          None \<Rightarrow> (([], False), c)
        | Some p \<Rightarrow>
            ((attribute_values h L (sc_world c) (ascii ''server'') (ls_items L (sc_world c) p), True), c))"

definition listEntries :: "host \<Rightarrow> 's libsecret \<Rightarrow> qstring \<Rightarrow> qstring \<Rightarrow> 's client \<Rightarrow> (qstring list \<times> bool) \<times> 's client" where
  "listEntries h L folder collectionName c =
     (let (ok, c) = attemptConnection L c in
      if \<not> ok then (([], False), c)
      else
        let (collection, c) = retrieveCollection h L collectionName c in
        case collection of
          None \<Rightarrow> (([], False), c)
        | Some p \<Rightarrow>
            (case ls_search L (sc_world c) (Some p) (folder_query h folder) of
               None \<Rightarrow> (([], False), c)
             | Some items \<Rightarrow> ((attribute_values h L (sc_world c) (ascii ''user'') items, True), c)))"

definition readMetadata :: "host \<Rightarrow> 's libsecret \<Rightarrow> qstring \<Rightarrow> qstring \<Rightarrow> qstring \<Rightarrow> 's client \<Rightarrow>
    ((qstring \<Rightarrow> qstring option) \<times> bool) \<times> 's client" where
  "readMetadata h L key folder collectionName c =
     (let (ok, c) = attemptConnection L c in
      if \<not> ok then ((Map.empty, False), c)
      else
        let ((item, ok), c) = retrieveItem h L key UnknownText folder collectionName c in
        case item of
          None \<Rightarrow> ((Map.empty, ok), c)
        | Some i \<Rightarrow>
            ((case ls_attributes L (sc_world c) i of
                None \<Rightarrow> Map.empty
              | Some a \<Rightarrow> map_of (rev (map (\<lambda>(k, v). (fromUtf8 h k, fromUtf8 h v)) a)), ok), c))"

text \<open>The items of the folder are deleted one by one; the last one decides the outcome.\<close>

fun delete_items :: "'s libsecret \<Rightarrow> qstring list \<Rightarrow> bool \<Rightarrow> 's client \<Rightarrow> bool \<times> 's client" where
  "delete_items L [] ok c = (ok, c)"
| "delete_items L (i # is) ok c =
     (let (ok, c) = on_world (ls_deleteItem L i) (c\<lparr>sc_updateInProgress := True\<rparr>) in delete_items L is ok c)"

definition deleteFolder :: "host \<Rightarrow> 's libsecret \<Rightarrow> qstring \<Rightarrow> qstring \<Rightarrow> 's client \<Rightarrow> bool \<times> 's client" where
  "deleteFolder h L folder collectionName c =
     (let (ok, c) = attemptConnection L c in
      if \<not> ok then (False, c)
      else
        let (collection, c) = retrieveCollection h L collectionName c in
        case ls_search L (sc_world c) collection (folder_query h folder) of
          None \<Rightarrow> (False, c)
        | Some items \<Rightarrow> delete_items L items True c)"

text \<open>
  The value of an item for a wanted type.  Only a binary value is read with its length; any other is a C string,
  and a value that is not a text reads as the empty one.
\<close>

definition value_as :: "'s libsecret \<Rightarrow> value_type \<Rightarrow> secret_value option \<Rightarrow> bytes" where
  "value_as L type v =
     (case v of
        None \<Rightarrow> []
      | Some v \<Rightarrow>
          if type = Binary then fst v
          else let password = (case ls_text L v of None \<Rightarrow> [] | Some t \<Rightarrow> cstr t) in
               if type = Base64 then ls_fromBase64 L password else password)"

text \<open>An item that is locked is unlocked and loaded; a failure of the first step is not noticed.\<close>

definition client_readEntry :: "host \<Rightarrow> 's libsecret \<Rightarrow> qstring \<Rightarrow> value_type \<Rightarrow> qstring \<Rightarrow> qstring \<Rightarrow> 's client \<Rightarrow>
    (bytes \<times> bool) \<times> 's client" where
  "client_readEntry h L key type folder collectionName c =
     (let (ok, c) = attemptConnection L c in
      if \<not> ok then (([], False), c)
      else
        let ((item, ok), c) = retrieveItem h L key type folder collectionName c in
        case item of
          None \<Rightarrow> (([], ok), c)
        | Some i \<Rightarrow>
            let (ok, c) =
              (if ls_itemLocked L (sc_world c) i
               then let (_, c) = on_world (ls_unlock L i) c in on_world (ls_loadSecret L i) c
               else (ok, c))
            in ((value_as L type (ls_secret L (sc_world c) i), ok), c))"

definition client_writeEntry :: "host \<Rightarrow> 's libsecret \<Rightarrow> qstring \<Rightarrow> qstring \<Rightarrow> bytes \<Rightarrow> value_type \<Rightarrow> qstring \<Rightarrow> qstring \<Rightarrow>
    's client \<Rightarrow> bool \<times> 's client" where
  "client_writeEntry h L display_name key val type folder collectionName c =
     (let (ok, c) = attemptConnection L c in
      if \<not> ok then (False, c)
      else
        let (collection, c) = retrieveCollection h L collectionName c;
            data = (if type = Base64 then ls_toBase64 L val else val);
            mimeType = (if type = Binary then ascii ''application/octet-stream'' else ascii ''text/plain'');
            attributes = [(ascii ''user'', c_string h key), (ascii ''type'', c_string h (typeToString type)),
                          (ascii ''server'', c_string h folder)]
        in on_world (ls_createItem L collection attributes (c_string h display_name) (cstr data, mimeType))
             (c\<lparr>sc_updateInProgress := True\<rparr>))"

definition client_deleteEntry :: "host \<Rightarrow> 's libsecret \<Rightarrow> qstring \<Rightarrow> qstring \<Rightarrow> qstring \<Rightarrow> 's client \<Rightarrow> bool \<times> 's client" where
  "client_deleteEntry h L key folder collectionName c =
     (let (ok, c) = attemptConnection L c in
      if \<not> ok then (False, c)
      else
        let ((item, ok), c) = retrieveItem h L key UnknownText folder collectionName c in
        case item of
          None \<Rightarrow> (False, c)
        | Some i \<Rightarrow> on_world (ls_deleteItem L i) (c\<lparr>sc_updateInProgress := True\<rparr>))"

text \<open>
  Renaming deletes the entry and writes it again under the new key.  The type \<open>Base64\<close> is written with its text,
  which is the encoded value; the text of a \<open>Binary\<close> value is decoded.
\<close>

definition client_renameEntry :: "host \<Rightarrow> 's libsecret \<Rightarrow> qstring \<Rightarrow> qstring \<Rightarrow> qstring \<Rightarrow> qstring \<Rightarrow> qstring \<Rightarrow>
    's client \<Rightarrow> bool \<times> 's client" where
  "client_renameEntry h L display_name oldKey newKey folder collectionName c =
     (let ((item, ok), c) = retrieveItem h L oldKey UnknownText folder collectionName c in
      case item of
        None \<Rightarrow> (False, c)
      | Some i \<Rightarrow>
          let ((existing, _), c) = retrieveItem h L newKey UnknownText folder collectionName c in
          if existing \<noteq> None then (False, c)
          else case ls_attributes L (sc_world c) i of
            None \<Rightarrow> (False, c)
          | Some a \<Rightarrow>
              let type = (case map_of a (ascii ''type'') of None \<Rightarrow> PlainText | Some v \<Rightarrow> stringToType (fromUtf8 h v)) in
              case ls_secret L (sc_world c) i of
                None \<Rightarrow> (False, c)
              | Some v \<Rightarrow>
                  let password = (case ls_text L v of None \<Rightarrow> [] | Some t \<Rightarrow> cstr t);
                      data = (if type = Binary then ls_fromBase64 L password else password);
                      (ok, c) = client_deleteEntry h L oldKey folder collectionName c
                  in if \<not> ok then (False, c) else client_writeEntry h L display_name newKey data type folder collectionName c)"

section \<open>Signals of the service\<close>

definition onServiceOwnerChanged :: "'s libsecret \<Rightarrow> qstring \<Rightarrow> 's client \<Rightarrow> 's client" where
  "onServiceOwnerChanged L newOwner c =
     (let available = (newOwner \<noteq> []); c = c\<lparr>sc_openCollections := []\<rparr>;
          (available, c) =
            (if available \<and> \<not> sc_service c
             then let (ok, c) = on_world (ls_get L) c in (ok, c\<lparr>sc_service := ok\<rparr>) else (available, c));
          c = (if \<not> available then c\<lparr>sc_service := False\<rparr> else c)
      in sc_emit SigServiceChanged c)"

definition client_onCollectionCreated :: "'s libsecret \<Rightarrow> qstring \<Rightarrow> 's client \<Rightarrow> 's client" where
  "client_onCollectionCreated L path c =
     (let (label, c) = collectionLabelForPath L path c in
      if label = [] then c else sc_emit SigCollectionListDirty (sc_emit (SigCollectionCreated label) c))"

definition client_onCollectionDeleted :: "'s libsecret \<Rightarrow> 's client \<Rightarrow> 's client" where
  "client_onCollectionDeleted L c =
     (let (ok, c) = attemptConnection L c in if \<not> ok then c else sc_emit SigCollectionListDirty c)"

definition client_onCollectionChanged :: "'s libsecret \<Rightarrow> qstring \<Rightarrow> 's client \<Rightarrow> 's client" where
  "client_onCollectionChanged L path c =
     (let (label, c) = collectionLabelForPath L path c in
      if label = [] then c
      else let (ok, c) = attemptConnection L c in
      if \<not> ok then c
      else case ls_busLocked L (sc_world c) path of
        None \<Rightarrow> c
      | Some locked \<Rightarrow> sc_emit (SigCollectionLockedChanged label locked) c)"

text \<open>
  A change the client made itself is passed over, once.  The collection of any other changed item is told from the path
  of the item, and reported when the timer fires.
\<close>

definition path_pieces :: "qstring \<Rightarrow> qstring list" where
  "path_pieces p = filter (\<lambda>x. x \<noteq> []) (foldr (\<lambda>ch ps. if ch = slash then [] # ps else (ch # hd ps) # tl ps) p [[]])"

definition onSecretItemChanged :: "'s libsecret \<Rightarrow> qstring \<Rightarrow> 's client \<Rightarrow> 's client" where
  "onSecretItemChanged L path c =
     (let (ok, c) = attemptConnection L c in
      if \<not> ok then c
      else if sc_updateInProgress c then c\<lparr>sc_updateInProgress := False\<rparr>
      else let pieces = path_pieces path in
      if length pieces \<noteq> 6 then sc_emit SigCollectionListDirty c
      else
        let (label, c) = collectionLabelForPath L (concat (map (\<lambda>x. slash # x) (butlast pieces))) c in
        if label = [] then c
        else c\<lparr>sc_dirtyCollections := List.insert label (sc_dirtyCollections c), sc_dirtyTimer := True\<rparr>)"

definition dirty_timeout :: "'s client \<Rightarrow> 's client" where
  "dirty_timeout c = (fold (\<lambda>n. sc_emit (SigCollectionDirty n)) (sc_dirtyCollections c) c)\<lparr>sc_dirtyCollections := [], sc_dirtyTimer := False\<rparr>"

definition handlePrompt :: "bool \<Rightarrow> 's client \<Rightarrow> 's client" where
  "handlePrompt dismissed c = sc_emit (SigPromptClosed (\<not> dismissed)) c"

section \<open>The constructor\<close>

fun watch_all :: "host \<Rightarrow> 's libsecret \<Rightarrow> qstring list \<Rightarrow> 's client \<Rightarrow> 's client" where
  "watch_all h L [] c = c"
| "watch_all h L (n # ns) c = watch_all h L ns (snd (watchCollection h L n c))"

definition SecretServiceClient_new :: "host \<Rightarrow> 's libsecret \<Rightarrow> bool \<Rightarrow> 's \<Rightarrow> 's client" where
  "SecretServiceClient_new h L kSecretDEnabled w =
     (let c = \<lparr>sc_world = w, sc_service = False, sc_openCollections = [], sc_watchedCollections = [], sc_dirtyCollections = [],
           sc_dirtyTimer = False,
           sc_serviceBusName = (if kSecretDEnabled then qs ''org.kde.secretservicecompat'' else qs ''org.freedesktop.secrets''),
           sc_useKSecretBackend = kSecretDEnabled, sc_updateInProgress = False, sc_signals = []\<rparr>;
          (ok, c) = attemptConnection L c
      in if \<not> ok then c else let ((names, _), c) = listCollections h L c in watch_all h L names c)"

definition isAvailable :: "'s client \<Rightarrow> bool" where
  "isAvailable c = sc_service c"

end
