(* ===== verification/KWalletD.thy ===== *)
theory KWalletD
  imports SecretService "HOL-Library.Product_Lexorder"
begin

text \<open>
  The compatibility daemon: the class \<open>KWalletD\<close> of src/runtime/kwalletd/kwalletd.cpp, which offers the KWallet
  interface on top of a Secret Service.  A wallet is a collection, a folder the attribute \<open>server\<close> of its items, a key
  their attribute \<open>user\<close>.  Folders without entries exist only in \<open>m_structure\<close>, a hash with several values per
  key, here a list with the newest member first.  Wallets that applications have opened are kept by handle and
  application, in the order of the keys; the order in which Qt walks the hash is not specified.

  Signals, D-Bus calls and error replies are a log.  The migration of old wallets opens their files with the wallet
  object of \<open>kwalletbackend\<close>; what a user answers to its password dialog is an argument.
\<close>

section \<open>State\<close>

datatype kwalletd_signal = KwAsyncOpened int int | KwListDirty | KwCreated qstring | KwOpened qstring | KwDeleted qstring
  | KwClosed qstring | KwClosedHandle int | KwClosedId int | KwAllClosed | KwFolderListUpdated qstring
  | KwFolderUpdated qstring qstring | KwEntryUpdated qstring qstring qstring | KwEntryDeleted qstring qstring qstring
  | KwDisconnected qstring qstring | KwErrorReply | KwCallChangePassword qstring int qstring

record migration_settings = settings +
  set_migrateTo3rdParty :: bool
  set_walletsMigrated :: "qstring list"

record async_open =
  ao_wallet :: qstring
  ao_wId :: int
  ao_appId :: qstring
  ao_tid :: int

record 's kwalletd =
  kw_backend :: "'s client"
  kw_structure :: "(qstring \<times> qstring) list"
  kw_openWallets :: "(int \<times> qstring, qstring) qmap"
  kw_enabled :: bool
  kw_lastTransaction :: int
  kw_pending :: "async_open list"           \<comment> \<open>calls of single-shot timers\<close>
  kw_random :: nat                          \<comment> \<open>random numbers drawn so far\<close>
  kw_settings :: migration_settings
  kw_files :: files
  kw_signals :: "kwalletd_signal list"

definition kw_emit :: "kwalletd_signal \<Rightarrow> 's kwalletd \<Rightarrow> 's kwalletd" where
  "kw_emit x s = s\<lparr>kw_signals := kw_signals s @ [x]\<rparr>"

definition ask :: "('s client \<Rightarrow> 'a \<times> 's client) \<Rightarrow> 's kwalletd \<Rightarrow> 'a \<times> 's kwalletd" where
  "ask f s = (let (r, c) = f (kw_backend s) in (r, s\<lparr>kw_backend := c\<rparr>))"

definition structure_values :: "qstring \<Rightarrow> 's kwalletd \<Rightarrow> qstring list" where
  "structure_values wallet s = map snd (filter (\<lambda>p. fst p = wallet) (kw_structure s))"

definition structure_insert :: "qstring \<Rightarrow> qstring \<Rightarrow> 's kwalletd \<Rightarrow> 's kwalletd" where
  "structure_insert wallet folder s = s\<lparr>kw_structure := (wallet, folder) # kw_structure s\<rparr>"

definition structure_insert_all :: "qstring \<Rightarrow> qstring list \<Rightarrow> 's kwalletd \<Rightarrow> 's kwalletd" where
  "structure_insert_all wallet folders s = fold (structure_insert wallet) folders s"

definition structure_remove :: "qstring \<Rightarrow> qstring \<Rightarrow> 's kwalletd \<Rightarrow> 's kwalletd" where
  "structure_remove wallet folder s = s\<lparr>kw_structure := removeAll (wallet, folder) (kw_structure s)\<rparr>"

definition walletForHandle :: "int \<Rightarrow> qstring \<Rightarrow> 's kwalletd \<Rightarrow> qstring" where
  "walletForHandle handle appId s =
     (case qmap_find (kw_openWallets s) (handle, appId) of None \<Rightarrow> [] | Some w \<Rightarrow> w)"

definition folderPath :: "qstring \<Rightarrow> qstring \<Rightarrow> qstring" where
  "folderPath folder key = folder @ slash # key"

section \<open>Values\<close>

definition keyType :: "host \<Rightarrow> 's libsecret \<Rightarrow> qstring \<Rightarrow> qstring \<Rightarrow> qstring \<Rightarrow> 's kwalletd \<Rightarrow> entry_type \<times> 's kwalletd" where
  "keyType h L wallet folder key s =
     (let ((hash, ok), s) = ask (readMetadata h L key folder wallet) s;
          typeStr = (case hash (qs ''type'') of None \<Rightarrow> [] | Some t \<Rightarrow> t)
      in (if \<not> ok then Unknown
          else if typeStr = qs ''map'' then Map
          else if typeStr = qs ''base64'' \<or> typeStr = qs ''binary'' then Stream
          else Password, s))"

definition readString :: "host \<Rightarrow> 's libsecret \<Rightarrow> qstring \<Rightarrow> qstring \<Rightarrow> qstring \<Rightarrow> 's kwalletd \<Rightarrow> (qstring \<times> bool) \<times> 's kwalletd" where
  "readString h L key folder wallet s =
     (let ((b, ok), s) = ask (client_readEntry h L key PlainText folder wallet) s in ((fromUtf8 h b, ok), s))"

definition readRawJson :: "host \<Rightarrow> 's libsecret \<Rightarrow> qstring \<Rightarrow> qstring \<Rightarrow> qstring \<Rightarrow> 's kwalletd \<Rightarrow> (bytes \<times> bool) \<times> 's kwalletd" where
  "readRawJson h L key folder wallet = ask (client_readEntry h L key MapText folder wallet)"

text \<open>The test of \<open>ok\<close> is one of the pointer, so only an empty value makes the second attempt.\<close>

definition readBinary :: "host \<Rightarrow> 's libsecret \<Rightarrow> qstring \<Rightarrow> qstring \<Rightarrow> qstring \<Rightarrow> 's kwalletd \<Rightarrow> (bytes \<times> bool) \<times> 's kwalletd" where
  "readBinary h L key folder wallet s =
     (let ((ret, ok), s) = ask (client_readEntry h L key Base64 folder wallet) s in
      if ret = [] then ask (client_readEntry h L key Binary folder wallet) s else ((ret, ok), s))"

definition writeString :: "host \<Rightarrow> 's libsecret \<Rightarrow> qstring \<Rightarrow> qstring \<Rightarrow> qstring \<Rightarrow> qstring \<Rightarrow> 's kwalletd \<Rightarrow> bool \<times> 's kwalletd" where
  "writeString h L key val folder wallet =
     ask (client_writeEntry h L (folderPath folder key) key (toUtf8 h val) PlainText folder wallet)"

definition writeBinary :: "host \<Rightarrow> 's libsecret \<Rightarrow> qstring \<Rightarrow> bytes \<Rightarrow> qstring \<Rightarrow> qstring \<Rightarrow> 's kwalletd \<Rightarrow> bool \<times> 's kwalletd" where
  "writeBinary h L key val folder wallet =
     ask (client_writeEntry h L (folderPath folder key) key val Base64 folder wallet)"

definition writeRawJson :: "host \<Rightarrow> 's libsecret \<Rightarrow> qstring \<Rightarrow> bytes \<Rightarrow> qstring \<Rightarrow> qstring \<Rightarrow> 's kwalletd \<Rightarrow> bool \<times> 's kwalletd" where
  "writeRawJson h L key val folder wallet =
     ask (client_writeEntry h L (folderPath folder key) key val MapText folder wallet)"

definition removeItem :: "host \<Rightarrow> 's libsecret \<Rightarrow> qstring \<Rightarrow> qstring \<Rightarrow> qstring \<Rightarrow> 's kwalletd \<Rightarrow> bool \<times> 's kwalletd" where
  "removeItem h L key folder wallet = ask (client_deleteEntry h L key folder wallet)"

section \<open>Migration\<close>

text \<open>The password dialog is shown until the wallet is open or the user cancels.\<close>

fun migrate_open :: "host \<Rightarrow> bytes list \<Rightarrow> backend \<Rightarrow> files \<Rightarrow> (bool \<times> backend \<times> files) run" where
  "migrate_open h [] b fs = Ret (b_open b, b, fs)"
| "migrate_open h (pw # pws) b fs =
     (if b_open b then Ret (True, b, fs)
      else run_bind (Backend_open h pw b fs) (\<lambda>(_, b, fs). migrate_open h pws b fs))"

definition migrate_entry :: "desktop \<Rightarrow> 's libsecret \<Rightarrow> qstring \<Rightarrow> qstring \<Rightarrow> entry \<Rightarrow> 's kwalletd \<Rightarrow> 's kwalletd" where
  "migrate_entry d L folder destWallet e s =
     (if e_type e = Password then snd (writeString (d_host d) L (e_key e) (Entry_password (d_host d) e) folder destWallet s)
      else if e_type e = Stream then snd (writeBinary (d_host d) L (e_key e) (e_value e) folder destWallet s)
      else if e_type e = Map \<and> e_value e \<noteq> []
        then snd (writeRawJson (d_host d) L (e_key e) (d_mapJson d (d_unstreamMap d (e_value e))) folder destWallet s)
      else s)"

fun migrate_folders :: "desktop \<Rightarrow> 's libsecret \<Rightarrow> qstring \<Rightarrow> qstring list \<Rightarrow> backend \<Rightarrow> 's kwalletd \<Rightarrow> 's kwalletd" where
  "migrate_folders d L destWallet [] b s = s"
| "migrate_folders d L destWallet (folder # folders) b s =
     (let b = Backend_setFolder folder b in
      migrate_folders d L destWallet folders b (fold (migrate_entry d L folder destWallet) (Backend_entriesList b) s))"

definition migrateWallet :: "desktop \<Rightarrow> 's libsecret \<Rightarrow> (qstring \<Rightarrow> bytes list) \<Rightarrow> qstring \<Rightarrow> qstring \<Rightarrow> 's kwalletd \<Rightarrow>
    (bool \<times> 's kwalletd) run" where
  "migrateWallet d L answers sourceWallet destWallet s =
     run_bind (Backend_open (d_host d) [] (Backend_new (d_host d) sourceWallet) (kw_files s)) (\<lambda>(_, b, fs).
     run_bind (migrate_open (d_host d) (answers sourceWallet) b fs) (\<lambda>(opened, b, fs). Ret (
       let s = s\<lparr>kw_files := fs\<rparr> in
       if \<not> opened then (False, s)
       else
         let ((allDestWallets, ok), s) = ask (listCollections (d_host d) L) s in
         if \<not> ok then (False, s)
         else
           let (ok, s) = (if destWallet \<notin> set allDestWallets then ask (createCollection (d_host d) L destWallet) s else (ok, s)) in
           if \<not> ok then (False, s)
           else
             let ((unlocked, ok), s) = ask (unlockCollection (d_host d) L destWallet) s in
             if \<not> ok \<or> \<not> unlocked then (False, s)
             else (True, migrate_folders d L destWallet (Backend_folderList b) b s))))"

definition wallet_files :: "host \<Rightarrow> files \<Rightarrow> qstring list" where
  "wallet_files h fs =
     map (\<lambda>fn. decodeWalletName h (if drop (length fn - 4) fn = qs ''.kwl'' then take (length fn - 4) fn else fn)) (dirEntries h fs)"

fun migrate_all :: "desktop \<Rightarrow> 's libsecret \<Rightarrow> (qstring \<Rightarrow> bytes list) \<Rightarrow> qstring list \<Rightarrow> qstring list \<Rightarrow> 's kwalletd \<Rightarrow>
    (qstring list \<times> 's kwalletd) run" where
  "migrate_all d L answers [] walletsMigrated s = Ret (walletsMigrated, s)"
| "migrate_all d L answers (sourceWallet # ws) walletsMigrated s =
     (let (destWallet, s) =
        (if sourceWallet = set_defaultWallet (kw_settings s)
         then let ((w, _), s) = ask (defaultCollection L) s in (w, s) else (sourceWallet, s))
      in if sourceWallet \<in> set walletsMigrated then migrate_all d L answers ws walletsMigrated s
         else run_bind (migrateWallet d L answers sourceWallet destWallet s) (\<lambda>(done, s).
           migrate_all d L answers ws (if done then walletsMigrated @ [sourceWallet] else walletsMigrated) s))"

definition migrateData :: "desktop \<Rightarrow> 's libsecret \<Rightarrow> (qstring \<Rightarrow> bytes list) \<Rightarrow> 's kwalletd \<Rightarrow> 's kwalletd run" where
  "migrateData d L answers s =
     (if \<not> isAvailable (kw_backend s) \<or> sc_useKSecretBackend (kw_backend s) then Ret s
      else if \<not> set_migrateTo3rdParty (kw_settings s) then Ret s
      else
        run_bind (migrate_all d L answers (wallet_files (d_host d) (kw_files s)) (set_walletsMigrated (kw_settings s)) s)
          (\<lambda>(walletsMigrated, s). Ret (s\<lparr>kw_settings := (kw_settings s)\<lparr>set_walletsMigrated := walletsMigrated\<rparr>\<rparr>)))"

section \<open>The structure\<close>

fun kw_read_folders :: "host \<Rightarrow> 's libsecret \<Rightarrow> qstring list \<Rightarrow> 's kwalletd \<Rightarrow> 's kwalletd" where
  "kw_read_folders h L [] s = s"
| "kw_read_folders h L (wallet # ws) s =
     (let ((folders, _), s) = ask (listFolders h L wallet) s in kw_read_folders h L ws (structure_insert_all wallet folders s))"

text \<open>The default wallet is read for the debug output.\<close>

definition readStructure :: "desktop \<Rightarrow> 's libsecret \<Rightarrow> (qstring \<Rightarrow> bytes list) \<Rightarrow> 's kwalletd \<Rightarrow> 's kwalletd run" where
  "readStructure d L answers s =
     (let ((wallets, _), s) = ask (listCollections (d_host d) L) s;
          s = kw_read_folders (d_host d) L wallets s;
          (_, s) = ask (defaultCollection L) s
      in migrateData d L answers s)"

section \<open>Opening\<close>

definition KWalletD_isEnabled :: "'s kwalletd \<Rightarrow> bool" where
  "KWalletD_isEnabled s \<longleftrightarrow> kw_enabled s \<and> isAvailable (kw_backend s)"

text \<open>The absolute value of the smallest \<open>int\<close> is undefined.  A handle that the application has is given again.\<close>

definition kw_newHandle :: "'s libsecret \<Rightarrow> qstring \<Rightarrow> qstring \<Rightarrow> 's kwalletd \<Rightarrow> (int \<times> 's kwalletd) run" where
  "kw_newHandle L wallet appId s =
     (let r = sint (ls_random L (kw_random s)) in
      if r = - (2 ^ 31) then UB
      else Ret (abs r, s\<lparr>kw_random := kw_random s + 1, kw_openWallets := qmap_insert (abs r, appId) wallet (kw_openWallets s)\<rparr>))"

definition openInternal :: "host \<Rightarrow> 's libsecret \<Rightarrow> qstring \<Rightarrow> int \<Rightarrow> qstring \<Rightarrow> 's kwalletd \<Rightarrow> (int \<times> 's kwalletd) run" where
  "openInternal h L wallet wId appId s =
     (if wId < 0 then Ret (-1, s)
      else
        let ((wallets, ok), s) = ask (listCollections h L) s in
        if \<not> ok then Ret (-1, s)
        else
          let (ok, s) = (if wallet \<notin> set wallets then ask (createCollection h L wallet) s else (ok, s)) in
          if \<not> ok then Ret (-1, s)
          else
            let ((unlocked, ok), s) = ask (unlockCollection h L wallet) s in
            if \<not> ok \<or> \<not> unlocked then Ret (-1, s)
            else
              let ((folders, _), s) = ask (listFolders h L wallet) s in
              kw_newHandle L wallet appId (structure_insert_all wallet folders s))"

definition KWalletD_open :: "host \<Rightarrow> 's libsecret \<Rightarrow> qstring \<Rightarrow> int \<Rightarrow> qstring \<Rightarrow> 's kwalletd \<Rightarrow> (int \<times> 's kwalletd) run" where
  "KWalletD_open h L wallet wId appId s =
     run_bind (openInternal h L wallet wId appId s) (\<lambda>(rnd, s).
       if rnd < 0 then Ret (-1, s) else Ret (rnd, kw_emit (KwOpened wallet) s))"

definition KWalletD_openAsync :: "qstring \<Rightarrow> int \<Rightarrow> qstring \<Rightarrow> 's kwalletd \<Rightarrow> (int \<times> 's kwalletd) run" where
  "KWalletD_openAsync wallet wId appId s =
     (if wId < 0 then Ret (-1, s)
      else
        run_bind (c_int (kw_lastTransaction s + 1)) (\<lambda>tid.
          Ret (tid, s\<lparr>kw_lastTransaction := tid,
            kw_pending := kw_pending s @ [\<lparr>ao_wallet = wallet, ao_wId = wId, ao_appId = appId, ao_tid = tid\<rparr>]\<rparr>)))"

text \<open>A timer fires; nothing is reported when the wallet cannot be opened.\<close>

definition async_timeout :: "host \<Rightarrow> 's libsecret \<Rightarrow> 's kwalletd \<Rightarrow> 's kwalletd run" where
  "async_timeout h L s =
     (case kw_pending s of
        [] \<Rightarrow> Ret s
      | a # as \<Rightarrow>
          run_bind (openInternal h L (ao_wallet a) (ao_wId a) (ao_appId a) (s\<lparr>kw_pending := as\<rparr>)) (\<lambda>(rnd, s).
            if rnd < 0 then Ret s else Ret (kw_emit (KwAsyncOpened (ao_tid a) rnd) s)))"

section \<open>Closing\<close>

definition kw_users :: "'s kwalletd \<Rightarrow> qstring list" where
  "kw_users s = remdups (map (snd \<circ> fst) (kw_openWallets s))"

definition emit_if_none_open :: "'s kwalletd \<Rightarrow> 's kwalletd" where
  "emit_if_none_open s = (if kw_openWallets s = [] then kw_emit KwAllClosed s else s)"

definition emit_disconnected :: "qstring \<Rightarrow> qstring list \<Rightarrow> 's kwalletd \<Rightarrow> 's kwalletd" where
  "emit_disconnected wallet apps s = fold (\<lambda>a. kw_emit (KwDisconnected wallet a)) apps s"

definition KWalletD_close :: "qstring \<Rightarrow> bool \<Rightarrow> 's kwalletd \<Rightarrow> int \<times> 's kwalletd" where
  "KWalletD_close wallet force s =
     (let mine = filter (\<lambda>p. snd p = wallet) (kw_openWallets s) in
      if mine \<noteq> [] \<and> \<not> force then (1, s)
      else
        let apps = remdups (map (snd \<circ> fst) mine);
            s = s\<lparr>kw_openWallets := filter (\<lambda>p. snd p \<noteq> wallet) (kw_openWallets s)\<rparr>;
            s = emit_if_none_open (kw_emit (KwClosed wallet) s)
        in (0, emit_disconnected wallet (filter (\<lambda>a. a \<notin> set (kw_users s)) apps) s))"

definition KWalletD_closeHandle :: "int \<Rightarrow> bool \<Rightarrow> qstring \<Rightarrow> 's kwalletd \<Rightarrow> int \<times> 's kwalletd" where
  "KWalletD_closeHandle handle force appId s =
     (let wallet = walletForHandle handle appId s in
      if wallet = [] then (1, s)
      else if \<not> force then (1, s)
      else
        let s = s\<lparr>kw_openWallets := qmap_remove (handle, appId) (kw_openWallets s)\<rparr>;
            s = emit_if_none_open (kw_emit (KwClosedId handle) (kw_emit (KwClosedHandle handle) s))
        in (0, if appId \<in> set (kw_users s) then s else kw_emit (KwDisconnected wallet appId) s))"

definition closeAllWallets :: "'s kwalletd \<Rightarrow> 's kwalletd" where
  "closeAllWallets s =
     (let openWallets = remdups (map snd (kw_openWallets s));
          apps = remdups (map (\<lambda>p. (snd p, snd (fst p))) (kw_openWallets s));
          s = fold (\<lambda>(w, a). kw_emit (KwDisconnected w a)) apps (s\<lparr>kw_openWallets := []\<rparr>)
      in kw_emit KwAllClosed (fold (\<lambda>w. kw_emit (KwClosed w)) openWallets s))"

text \<open>The result is always false.\<close>

definition disconnectApplication :: "qstring \<Rightarrow> qstring \<Rightarrow> 's kwalletd \<Rightarrow> bool \<times> 's kwalletd" where
  "disconnectApplication wallet application s =
     (let hit = (\<lambda>p. snd (fst p) = application \<and> snd p = wallet) in
      if \<not> list_ex hit (kw_openWallets s) then (False, s)
      else
        let s = s\<lparr>kw_openWallets := filter (\<lambda>p. \<not> hit p) (kw_openWallets s)\<rparr>
        in (False, kw_emit (KwDisconnected wallet application) (emit_if_none_open (kw_emit (KwClosed wallet) s))))"

definition KWalletD_isOpen :: "qstring \<Rightarrow> 's kwalletd \<Rightarrow> bool" where
  "KWalletD_isOpen wallet s \<longleftrightarrow> wallet \<in> set (map snd (kw_openWallets s))"

definition KWalletD_isOpenHandle :: "int \<Rightarrow> 's kwalletd \<Rightarrow> bool" where
  "KWalletD_isOpenHandle handle s \<longleftrightarrow> handle \<in> set (map (fst \<circ> fst) (kw_openWallets s))"

definition KWalletD_users :: "qstring \<Rightarrow> 's kwalletd \<Rightarrow> qstring list" where
  "KWalletD_users wallet s = remdups (map (snd \<circ> fst) (filter (\<lambda>p. snd p = wallet) (kw_openWallets s)))"

end
