(* ===== verification/KWalletDCalls.thy ===== *)
theory KWalletDCalls
  imports KWalletD "HOL-Library.Sublist"
begin

text \<open>
  The rest of \<open>KWalletD\<close>: its reactions to the signals of the client of the Secret Service, and the calls of
  applications on folders and entries.  The signals that an operation of the client leaves are passed on by \<open>forward\<close>
  in their order.
\<close>

section \<open>Signals of the backend\<close>

text \<open>
  After a change of a collection the whole structure is read again.  The two arguments of the signal for a folder are
  given in the wrong order.
\<close>

definition on_collectionDirty :: "desktop \<Rightarrow> 's libsecret \<Rightarrow> (qstring \<Rightarrow> bytes list) \<Rightarrow> qstring \<Rightarrow> 's kwalletd \<Rightarrow> 's kwalletd run" where
  "on_collectionDirty d L answers wallet s =
     (let (_, s) = ask (listFolders (d_host d) L wallet) s in
      run_bind (readStructure d L answers (s\<lparr>kw_structure := []\<rparr>)) (\<lambda>s.
        Ret (fold (\<lambda>folder. kw_emit (KwFolderUpdated folder wallet)) (structure_values wallet s)
               (kw_emit (KwFolderListUpdated wallet) s))))"

definition on_lockedChanged :: "qstring \<Rightarrow> bool \<Rightarrow> 's kwalletd \<Rightarrow> 's kwalletd" where
  "on_lockedChanged collection locked s =
     (if KWalletD_isOpen collection s \<and> locked then snd (KWalletD_close collection True s)
      else if \<not> KWalletD_isOpen collection s \<and> \<not> locked then kw_emit (KwOpened collection) s
      else s)"

fun backend_slot :: "desktop \<Rightarrow> 's libsecret \<Rightarrow> (qstring \<Rightarrow> bytes list) \<Rightarrow> client_signal \<Rightarrow> 's kwalletd \<Rightarrow> 's kwalletd run" where
  "backend_slot d L answers SigServiceChanged s =
     (if isAvailable (kw_backend s) then run_bind (readStructure d L answers s) (\<lambda>s. Ret (kw_emit KwListDirty s))
      else Ret (closeAllWallets s))"
| "backend_slot d L answers (SigCollectionDirty w) s = on_collectionDirty d L answers w s"
| "backend_slot d L answers (SigCollectionCreated w) s = Ret (kw_emit (KwCreated w) s)"
| "backend_slot d L answers (SigCollectionDeleted w) s = Ret (kw_emit (KwDeleted w) s)"
| "backend_slot d L answers SigCollectionListDirty s = Ret (kw_emit KwListDirty s)"
| "backend_slot d L answers (SigCollectionLockedChanged w locked) s = Ret (on_lockedChanged w locked s)"
| "backend_slot d L answers (SigPromptClosed _) s = Ret s"

fun backend_slots :: "desktop \<Rightarrow> 's libsecret \<Rightarrow> (qstring \<Rightarrow> bytes list) \<Rightarrow> client_signal list \<Rightarrow> 's kwalletd \<Rightarrow> 's kwalletd run" where
  "backend_slots d L answers [] s = Ret s"
| "backend_slots d L answers (x # xs) s = run_bind (backend_slot d L answers x s) (backend_slots d L answers xs)"

definition forward :: "desktop \<Rightarrow> 's libsecret \<Rightarrow> (qstring \<Rightarrow> bytes list) \<Rightarrow> 's kwalletd \<Rightarrow> 's kwalletd run" where
  "forward d L answers s =
     backend_slots d L answers (sc_signals (kw_backend s)) (s\<lparr>kw_backend := (kw_backend s)\<lparr>sc_signals := []\<rparr>\<rparr>)"

text \<open>An event of the bus, which the client handles first.\<close>

definition bus_event :: "desktop \<Rightarrow> 's libsecret \<Rightarrow> (qstring \<Rightarrow> bytes list) \<Rightarrow> ('s client \<Rightarrow> 's client) \<Rightarrow> 's kwalletd \<Rightarrow> 's kwalletd run" where
  "bus_event d L answers f s = forward d L answers (s\<lparr>kw_backend := f (kw_backend s)\<rparr>)"

section \<open>Settings and the constructor\<close>

definition KWalletD_reconfigure :: "'s kwalletd \<Rightarrow> 's kwalletd" where
  "KWalletD_reconfigure s =
     (let wasEnabled = kw_enabled s; s = s\<lparr>kw_enabled := set_kWalletDEnabled (kw_settings s)\<rparr> in
      if wasEnabled \<noteq> kw_enabled s
      then (if KWalletD_isEnabled s then kw_emit KwListDirty s else closeAllWallets s)
      else s)"

definition KWalletD_new :: "desktop \<Rightarrow> 's libsecret \<Rightarrow> (qstring \<Rightarrow> bytes list) \<Rightarrow> migration_settings \<Rightarrow> files \<Rightarrow> 's \<Rightarrow> 's kwalletd run" where
  "KWalletD_new d L answers st fs w =
     run_bind (readStructure d L answers
       \<lparr>kw_backend = SecretServiceClient_new (d_host d) L (set_kSecretDEnabled st) w, kw_structure = [], kw_openWallets = [],
        kw_enabled = True, kw_lastTransaction = 0, kw_pending = [], kw_random = 0, kw_settings = st, kw_files = fs,
        kw_signals = []\<rparr>) (\<lambda>s. Ret (KWalletD_reconfigure s))"

text \<open>
  The process (main.cpp): whether the command line asks for a run, and whether the name on the bus was free, are
  arguments.  The name is only asked for when the settings allow the daemon.
\<close>

datatype 's kwalletd_start = CommandLineOnly | KWalletDDisabled int | InstanceRunning | KWalletDRunning "'s kwalletd"

definition kwalletd_main :: "bool \<Rightarrow> bool \<Rightarrow> desktop \<Rightarrow> 's libsecret \<Rightarrow> (qstring \<Rightarrow> bytes list) \<Rightarrow> migration_settings \<Rightarrow> files \<Rightarrow> 's \<Rightarrow>
    's kwalletd_start run" where
  "kwalletd_main parsed unique d L answers st fs w =
     (if \<not> parsed then Ret CommandLineOnly
      else if \<not> set_kWalletDEnabled st then Ret (KWalletDDisabled (-1))
      else if \<not> unique then Ret InstanceRunning
      else run_bind (KWalletD_new d L answers st fs w) (\<lambda>s. Ret (KWalletDRunning s)))"

section \<open>Wallets\<close>

definition KWalletD_deleteWallet :: "desktop \<Rightarrow> 's libsecret \<Rightarrow> (qstring \<Rightarrow> bytes list) \<Rightarrow> qstring \<Rightarrow> 's kwalletd \<Rightarrow> (int \<times> 's kwalletd) run" where
  "KWalletD_deleteWallet d L answers wallet s =
     (let (ok, s) = ask (deleteCollection (d_host d) L wallet) s in
      run_bind (forward d L answers s) (\<lambda>s.
        if ok then Ret (0, s\<lparr>kw_structure := filter (\<lambda>p. fst p \<noteq> wallet) (kw_structure s)\<rparr>) else Ret (-1, s)))"

definition KWalletD_changePassword :: "bool \<Rightarrow> qstring \<Rightarrow> int \<Rightarrow> qstring \<Rightarrow> 's kwalletd \<Rightarrow> 's kwalletd" where
  "KWalletD_changePassword interfaceValid wallet wId appId s =
     (if \<not> sc_useKSecretBackend (kw_backend s) then s
      else if \<not> interfaceValid then s
      else kw_emit (KwCallChangePassword wallet wId appId) s)"

definition KWalletD_sync :: "int \<Rightarrow> qstring \<Rightarrow> 's kwalletd \<Rightarrow> 's kwalletd" where
  "KWalletD_sync handle appId s = s"

definition KWalletD_wallets :: "host \<Rightarrow> 's libsecret \<Rightarrow> 's kwalletd \<Rightarrow> qstring list \<times> 's kwalletd" where
  "KWalletD_wallets h L s = (let ((ws, _), s) = ask (listCollections h L) s in (ws, s))"

definition KWalletD_networkWallet :: "'s libsecret \<Rightarrow> 's kwalletd \<Rightarrow> qstring \<times> 's kwalletd" where
  "KWalletD_networkWallet L s =
     (let ((defaultWallet, ok), s) = ask (defaultCollection L) s in
      if \<not> ok then ([], kw_emit KwErrorReply s) else (defaultWallet, s))"

definition KWalletD_localWallet :: "'s libsecret \<Rightarrow> 's kwalletd \<Rightarrow> qstring \<times> 's kwalletd" where
  "KWalletD_localWallet L s =
     (if set_kSecretDEnabled (kw_settings s) then (localWallet (settings.truncate (kw_settings s)), s)
      else
        let ((defaultWallet, ok), s) = ask (defaultCollection L) s in
        if \<not> ok then ([], kw_emit KwErrorReply s) else (defaultWallet, s))"

section \<open>Folders\<close>

definition KWalletD_folderList :: "int \<Rightarrow> qstring \<Rightarrow> 's kwalletd \<Rightarrow> qstring list" where
  "KWalletD_folderList handle appId s =
     (let wallet = walletForHandle handle appId s in if wallet = [] then [] else structure_values wallet s)"

text \<open>The folders of all wallets are looked at, and a part of their name is enough.\<close>

definition KWalletD_hasFolder :: "int \<Rightarrow> qstring \<Rightarrow> qstring \<Rightarrow> 's kwalletd \<Rightarrow> bool" where
  "KWalletD_hasFolder handle folder appId s =
     (let wallet = walletForHandle handle appId s in
      if wallet = [] then False
      else if list_ex (\<lambda>p. sublist folder (snd p)) (kw_structure s) then True
      else folder \<in> set (map fst (kw_structure s)))"

definition KWalletD_createFolder :: "int \<Rightarrow> qstring \<Rightarrow> qstring \<Rightarrow> 's kwalletd \<Rightarrow> bool \<times> 's kwalletd" where
  "KWalletD_createFolder handle folder appId s =
     (let wallet = walletForHandle handle appId s in
      if wallet = [] then (False, s) else (True, structure_insert wallet folder s))"

definition KWalletD_removeFolder :: "host \<Rightarrow> 's libsecret \<Rightarrow> int \<Rightarrow> qstring \<Rightarrow> qstring \<Rightarrow> 's kwalletd \<Rightarrow> bool \<times> 's kwalletd" where
  "KWalletD_removeFolder h L handle folder appId s =
     (let wallet = walletForHandle handle appId s in
      if wallet = [] then (False, s)
      else
        let (ok, s) = ask (deleteFolder h L folder wallet) s
        in (ok, if ok then structure_remove wallet folder s else s))"

definition KWalletD_folderDoesNotExist :: "host \<Rightarrow> 's libsecret \<Rightarrow> qstring \<Rightarrow> qstring \<Rightarrow> 's kwalletd \<Rightarrow> bool \<times> 's kwalletd" where
  "KWalletD_folderDoesNotExist h L wallet folder s =
     (let ((entries, ok), s) = ask (listFolders h L wallet) s in (if \<not> ok then True else folder \<notin> set entries, s))"

section \<open>Reading\<close>

definition KWalletD_entryList :: "host \<Rightarrow> 's libsecret \<Rightarrow> int \<Rightarrow> qstring \<Rightarrow> qstring \<Rightarrow> 's kwalletd \<Rightarrow> qstring list \<times> 's kwalletd" where
  "KWalletD_entryList h L handle folder appId s =
     (let wallet = walletForHandle handle appId s in
      if wallet = [] then ([], s)
      else let ((keys, _), s) = ask (listEntries h L folder wallet) s in (keys, s))"

definition KWalletD_readMap :: "desktop \<Rightarrow> 's libsecret \<Rightarrow> int \<Rightarrow> qstring \<Rightarrow> qstring \<Rightarrow> qstring \<Rightarrow> 's kwalletd \<Rightarrow> bytes \<times> 's kwalletd" where
  "KWalletD_readMap d L handle folder key appId s =
     (let wallet = walletForHandle handle appId s in
      if wallet = [] then ([], s)
      else
        let ((b, ok), s) = ask (client_readEntry (d_host d) L key MapText folder wallet) s
        in (if \<not> ok then [] else d_streamMap d (d_jsonMap d b), s))"

definition KWalletD_readPassword :: "host \<Rightarrow> 's libsecret \<Rightarrow> int \<Rightarrow> qstring \<Rightarrow> qstring \<Rightarrow> qstring \<Rightarrow> 's kwalletd \<Rightarrow> qstring \<times> 's kwalletd" where
  "KWalletD_readPassword h L handle folder key appId s =
     (let wallet = walletForHandle handle appId s in
      if wallet = [] then ([], s) else let ((t, _), s) = readString h L key folder wallet s in (t, s))"

text \<open>A value of an entry by its type, with whether it was read; a map leaves the outcome of the step before.\<close>

definition read_typed :: "desktop \<Rightarrow> 's libsecret \<Rightarrow> int \<Rightarrow> qstring \<Rightarrow> qstring \<Rightarrow> qstring \<Rightarrow> qstring \<Rightarrow> bool \<Rightarrow> 's kwalletd \<Rightarrow>
    (bytes \<times> bool) \<times> 's kwalletd" where
  "read_typed d L handle wallet folder key appId ok s =
     (let (type, s) = keyType (d_host d) L wallet folder key s in
      if type = Stream then readBinary (d_host d) L key folder wallet s
      else if type = Map then (let (b, s) = KWalletD_readMap d L handle folder key appId s in ((b, ok), s))
      else (let ((t, ok), s) = readString (d_host d) L key folder wallet s in ((toUtf8 (d_host d) t, ok), s)))"

definition KWalletD_readEntry :: "desktop \<Rightarrow> 's libsecret \<Rightarrow> int \<Rightarrow> qstring \<Rightarrow> qstring \<Rightarrow> qstring \<Rightarrow> 's kwalletd \<Rightarrow> bytes \<times> 's kwalletd" where
  "KWalletD_readEntry d L handle folder key appId s =
     (let wallet = walletForHandle handle appId s in
      if wallet = [] then ([], s)
      else let ((b, _), s) = read_typed d L handle wallet folder key appId True s in (b, s))"

datatype variant = VBytes bytes | VText qstring | VMap "(qstring \<times> variant) list"

type_synonym variant_map = "(qstring, variant) qmap"

definition text_variants :: "str_map \<Rightarrow> variant_map" where
  "text_variants m = fold (\<lambda>(k, v). qmap_insert k (VText v)) m []"

definition KWalletD_readMapList :: "desktop \<Rightarrow> 's libsecret \<Rightarrow> int \<Rightarrow> qstring \<Rightarrow> qstring \<Rightarrow> qstring \<Rightarrow> 's kwalletd \<Rightarrow> variant_map \<times> 's kwalletd" where
  "KWalletD_readMapList d L handle folder key appId s =
     (let wallet = walletForHandle handle appId s in
      if wallet = [] then ([], s)
      else
        let (type, s) = keyType (d_host d) L wallet folder key s in
        if type \<noteq> Map then ([], s)
        else
          let ((b, ok), s) = readRawJson (d_host d) L key folder wallet s
          in (if \<not> ok then [] else text_variants (d_jsonMap d b), s))"

definition KWalletD_readEntryList :: "desktop \<Rightarrow> 's libsecret \<Rightarrow> int \<Rightarrow> qstring \<Rightarrow> qstring \<Rightarrow> qstring \<Rightarrow> 's kwalletd \<Rightarrow> variant_map \<times> 's kwalletd" where
  "KWalletD_readEntryList d L handle folder key appId s =
     (let wallet = walletForHandle handle appId s in
      if wallet = [] then ([], s)
      else
        let (type, s) = keyType (d_host d) L wallet folder key s in
        if type = Stream then (let ((b, _), s) = readBinary (d_host d) L key folder wallet s in ([(key, VBytes b)], s))
        else if type = Map then (let (m, s) = KWalletD_readMapList d L handle folder key appId s in ([(key, VMap m)], s))
        else (let ((t, _), s) = readString (d_host d) L key folder wallet s in ([(key, VBytes (toUtf8 (d_host d) t))], s)))"

text \<open>The loops over the keys of a folder; a value that cannot be read makes the result empty.\<close>

fun read_entries_list :: "desktop \<Rightarrow> 's libsecret \<Rightarrow> int \<Rightarrow> qstring \<Rightarrow> qstring \<Rightarrow> qstring \<Rightarrow> qstring list \<Rightarrow> variant_map \<Rightarrow> bool \<Rightarrow>
    's kwalletd \<Rightarrow> variant_map \<times> 's kwalletd" where
  "read_entries_list d L handle wallet folder appId [] m ok s = (m, s)"
| "read_entries_list d L handle wallet folder appId (key # ks) m ok s =
     (let ((b, ok), s) = read_typed d L handle wallet folder key appId ok s in
      if \<not> ok then ([], s)
      else read_entries_list d L handle wallet folder appId ks (qmap_insert key (VBytes b) m) ok s)"

definition KWalletD_entriesList :: "desktop \<Rightarrow> 's libsecret \<Rightarrow> int \<Rightarrow> qstring \<Rightarrow> qstring \<Rightarrow> 's kwalletd \<Rightarrow> variant_map \<times> 's kwalletd" where
  "KWalletD_entriesList d L handle folder appId s =
     (let wallet = walletForHandle handle appId s in
      if wallet = [] then ([], s)
      else
        let ((keys, ok), s) = ask (listEntries (d_host d) L folder wallet) s in
        if \<not> ok then ([], s) else read_entries_list d L handle wallet folder appId keys [] ok s)"

fun read_maps :: "desktop \<Rightarrow> 's libsecret \<Rightarrow> int \<Rightarrow> qstring \<Rightarrow> qstring \<Rightarrow> qstring \<Rightarrow> qstring list \<Rightarrow> variant_map \<Rightarrow>
    's kwalletd \<Rightarrow> variant_map \<times> 's kwalletd" where
  "read_maps d L handle wallet folder appId [] m s = (m, s)"
| "read_maps d L handle wallet folder appId (key # ks) m s =
     (let (type, s) = keyType (d_host d) L wallet folder key s in
      if type = Map
      then (let (b, s) = KWalletD_readMap d L handle folder key appId s
            in read_maps d L handle wallet folder appId ks (qmap_insert key (VBytes b) m) s)
      else read_maps d L handle wallet folder appId ks m s)"

definition KWalletD_mapList :: "desktop \<Rightarrow> 's libsecret \<Rightarrow> int \<Rightarrow> qstring \<Rightarrow> qstring \<Rightarrow> 's kwalletd \<Rightarrow> variant_map \<times> 's kwalletd" where
  "KWalletD_mapList d L handle folder appId s =
     (let wallet = walletForHandle handle appId s in
      if wallet = [] then ([], s)
      else
        let ((keys, ok), s) = ask (listEntries (d_host d) L folder wallet) s in
        if \<not> ok then ([], s) else read_maps d L handle wallet folder appId keys [] s)"

fun read_passwords :: "host \<Rightarrow> 's libsecret \<Rightarrow> qstring \<Rightarrow> qstring \<Rightarrow> qstring list \<Rightarrow> variant_map \<Rightarrow> 's kwalletd \<Rightarrow> variant_map \<times> 's kwalletd" where
  "read_passwords h L wallet folder [] m s = (m, s)"
| "read_passwords h L wallet folder (key # ks) m s =
     (let (type, s) = keyType h L wallet folder key s in
      if type = Password
      then (let ((t, ok), s) = readString h L key folder wallet s in
            if \<not> ok then ([], s) else read_passwords h L wallet folder ks (qmap_insert key (VText t) m) s)
      else read_passwords h L wallet folder ks m s)"

definition KWalletD_readPasswordList :: "host \<Rightarrow> 's libsecret \<Rightarrow> int \<Rightarrow> qstring \<Rightarrow> qstring \<Rightarrow> qstring \<Rightarrow> 's kwalletd \<Rightarrow> variant_map \<times> 's kwalletd" where
  "KWalletD_readPasswordList h L handle folder key appId s =
     (let wallet = walletForHandle handle appId s in
      if wallet = [] then ([], s) else read_passwords h L wallet folder [key] [] s)"

definition KWalletD_passwordList :: "host \<Rightarrow> 's libsecret \<Rightarrow> int \<Rightarrow> qstring \<Rightarrow> qstring \<Rightarrow> 's kwalletd \<Rightarrow> variant_map \<times> 's kwalletd" where
  "KWalletD_passwordList h L handle folder appId s =
     (let wallet = walletForHandle handle appId s in
      if wallet = [] then ([], s)
      else
        let ((keys, ok), s) = ask (listEntries h L folder wallet) s in
        if \<not> ok then ([], s) else read_passwords h L wallet folder keys [] s)"

definition KWalletD_hasEntry :: "host \<Rightarrow> 's libsecret \<Rightarrow> int \<Rightarrow> qstring \<Rightarrow> qstring \<Rightarrow> qstring \<Rightarrow> 's kwalletd \<Rightarrow> bool \<times> 's kwalletd" where
  "KWalletD_hasEntry h L handle folder key appId s =
     (let wallet = walletForHandle handle appId s in
      if wallet = [] then (False, s)
      else
        let ((entries, ok), s) = ask (listEntries h L folder wallet) s
        in (if \<not> ok then False else key \<in> set entries, s))"

definition KWalletD_entryType :: "host \<Rightarrow> 's libsecret \<Rightarrow> int \<Rightarrow> qstring \<Rightarrow> qstring \<Rightarrow> qstring \<Rightarrow> 's kwalletd \<Rightarrow> entry_type \<times> 's kwalletd" where
  "KWalletD_entryType h L handle folder key appId s =
     (let wallet = walletForHandle handle appId s in
      if wallet = [] then (Unknown, s) else keyType h L wallet folder key s)"

definition KWalletD_keyDoesNotExist :: "host \<Rightarrow> 's libsecret \<Rightarrow> qstring \<Rightarrow> qstring \<Rightarrow> qstring \<Rightarrow> 's kwalletd \<Rightarrow> bool \<times> 's kwalletd" where
  "KWalletD_keyDoesNotExist h L wallet folder key s =
     (let ((entries, ok), s) = ask (listEntries h L folder wallet) s in (if \<not> ok then True else key \<notin> set entries, s))"

section \<open>Writing\<close>

definition KWalletD_renameEntry :: "host \<Rightarrow> 's libsecret \<Rightarrow> int \<Rightarrow> qstring \<Rightarrow> qstring \<Rightarrow> qstring \<Rightarrow> qstring \<Rightarrow> 's kwalletd \<Rightarrow> int \<times> 's kwalletd" where
  "KWalletD_renameEntry h L handle folder oldName newName appId s =
     (let wallet = walletForHandle handle appId s in
      if wallet = [] then (-1, s)
      else
        let (ok, s) = ask (client_renameEntry h L (folderPath folder newName) oldName newName folder wallet) s
        in (if \<not> ok then -1 else 0, s))"

definition write_typed :: "desktop \<Rightarrow> 's libsecret \<Rightarrow> qstring \<Rightarrow> bytes \<Rightarrow> entry_type \<Rightarrow> qstring \<Rightarrow> qstring \<Rightarrow> 's kwalletd \<Rightarrow>
    bool option \<times> 's kwalletd" where
  "write_typed d L key val type folder wallet s =
     (if type = Password then (let (ok, s) = writeString (d_host d) L key (fromUtf8 (d_host d) val) folder wallet s in (Some ok, s))
      else if type = Stream then (let (ok, s) = writeBinary (d_host d) L key val folder wallet s in (Some ok, s))
      else if type = Map
        then (let (ok, s) = writeRawJson (d_host d) L key (d_mapJson d (d_unstreamMap d val)) folder wallet s in (Some ok, s))
      else (None, s))"

text \<open>The entries before the write are asked for with the folder and the wallet exchanged.\<close>

definition KWalletD_writeEntry :: "desktop \<Rightarrow> 's libsecret \<Rightarrow> int \<Rightarrow> qstring \<Rightarrow> qstring \<Rightarrow> bytes \<Rightarrow> entry_type \<Rightarrow> qstring \<Rightarrow>
    's kwalletd \<Rightarrow> int \<times> 's kwalletd" where
  "KWalletD_writeEntry d L handle folder key val type appId s =
     (let wallet = walletForHandle handle appId s in
      if wallet = [] then (-1, s)
      else
        let ((oldFolders, _), s) = ask (listFolders (d_host d) L wallet) s;
            ((oldEntries, _), s) = ask (listEntries (d_host d) L wallet folder) s;
            (ok, s) = write_typed d L key val type folder wallet s
        in if ok \<noteq> Some True then (-1, s)
           else
             let s = (if folder \<notin> set oldFolders
                      then kw_emit (KwFolderListUpdated wallet) (structure_insert wallet folder s) else s)
             in (0, if key \<notin> set oldEntries then kw_emit (KwFolderUpdated wallet folder) s
                    else kw_emit (KwEntryUpdated wallet folder key) s))"

definition KWalletD_writeEntryStream :: "desktop \<Rightarrow> 's libsecret \<Rightarrow> int \<Rightarrow> qstring \<Rightarrow> qstring \<Rightarrow> bytes \<Rightarrow> qstring \<Rightarrow> 's kwalletd \<Rightarrow> int \<times> 's kwalletd" where
  "KWalletD_writeEntryStream d L handle folder key val = KWalletD_writeEntry d L handle folder key val Stream"

definition KWalletD_writeMap :: "desktop \<Rightarrow> 's libsecret \<Rightarrow> int \<Rightarrow> qstring \<Rightarrow> qstring \<Rightarrow> bytes \<Rightarrow> qstring \<Rightarrow> 's kwalletd \<Rightarrow> int \<times> 's kwalletd" where
  "KWalletD_writeMap d L handle folder key val = KWalletD_writeEntry d L handle folder key val Map"

definition KWalletD_writePassword :: "desktop \<Rightarrow> 's libsecret \<Rightarrow> int \<Rightarrow> qstring \<Rightarrow> qstring \<Rightarrow> qstring \<Rightarrow> qstring \<Rightarrow> 's kwalletd \<Rightarrow> int \<times> 's kwalletd" where
  "KWalletD_writePassword d L handle folder key val = KWalletD_writeEntry d L handle folder key (toUtf8 (d_host d) val) Password"

definition KWalletD_removeEntry :: "host \<Rightarrow> 's libsecret \<Rightarrow> int \<Rightarrow> qstring \<Rightarrow> qstring \<Rightarrow> qstring \<Rightarrow> 's kwalletd \<Rightarrow> int \<times> 's kwalletd" where
  "KWalletD_removeEntry h L handle folder key appId s =
     (let wallet = walletForHandle handle appId s in
      if wallet = [] then (-1, s)
      else
        let (ok, s) = removeItem h L key folder wallet s in
        if \<not> ok then (-1, s)
        else
          let ((folders, ok), s) = ask (listFolders h L wallet) s;
              s = (if ok \<and> folder \<notin> set folders
                   then kw_emit (KwFolderListUpdated wallet) (structure_remove wallet folder s) else s)
          in (0, kw_emit (KwEntryDeleted wallet folder key) s))"

end
