(* ===== verification/KWalletLib.thy ===== *)
theory KWalletLib
  imports KWalletDCalls
begin

text \<open>
  The client library: the class \<open>Wallet\<close> of src/api/KWallet/kwallet.cpp, in the process of one application, over the
  model of \<open>kwalletd\<close>.  A call over D-Bus waits for its reply; the record \<open>bus\<close> says of every call, by its number,
  whether it reaches the daemon and whether its reply comes back, and whether the bus can start a daemon that is not
  running.  The signals of the daemon reach the objects later, in the event loop.

  The connections of the class of D-Bus proxies and the watcher for the service are those of every object.  In
  \<open>walletAsyncOpened\<close> the call of \<open>disconnect\<close> with \<open>this\<close> as its first argument is the one for signals of the object
  itself, so it ends no connection with the daemon.
\<close>

section \<open>The bus\<close>

datatype delivery = Answered | ReplyLost | NotSent

record 's bus =
  bus_desktop :: desktop
  bus_libsecret :: "'s libsecret"
  bus_answers :: "qstring \<Rightarrow> bytes list"     \<comment> \<open>to the password dialogs of the daemon\<close>
  bus_appId :: qstring
  bus_delivery :: "nat \<Rightarrow> delivery"
  bus_starts :: "nat \<Rightarrow> bool"               \<comment> \<open>startService makes the daemon run\<close>

record 's library =
  lb_walletEnabled :: bool
  lb_running :: bool                       \<comment> \<open>the name of the daemon is registered\<close>
  lb_calls :: nat
  lb_daemon :: "'s kwalletd"
  lb_seen :: nat                           \<comment> \<open>signals of the daemon that have reached the objects\<close>

definition KWalletDLauncher_new :: "bool \<Rightarrow> 's kwalletd \<Rightarrow> 's library" where
  "KWalletDLauncher_new running k =
     \<lparr>lb_walletEnabled = set_kWalletDEnabled (kw_settings k), lb_running = running, lb_calls = 0, lb_daemon = k,
      lb_seen = length (kw_signals k)\<rparr>"

text \<open>Without an interface, which is so when wallets are disabled, the reference is to a null pointer.\<close>

definition getInterface :: "'s bus \<Rightarrow> 's library \<Rightarrow> 's library run" where
  "getInterface B l =
     (if \<not> lb_walletEnabled l then UB
      else if lb_running l \<or> \<not> bus_starts B (lb_calls l) then Ret l
      else
        run_bind (KWalletD_new (bus_desktop B) (bus_libsecret B) (bus_answers B) (kw_settings (lb_daemon l))
          (kw_files (lb_daemon l)) (sc_world (kw_backend (lb_daemon l))))
        (\<lambda>k. Ret (l\<lparr>lb_running := True, lb_daemon := k, lb_seen := 0\<rparr>)))"

text \<open>The reply is an error when the daemon sends one.\<close>

definition error_sent :: "'s kwalletd \<Rightarrow> 's kwalletd \<Rightarrow> bool" where
  "error_sent k k' \<longleftrightarrow> KwErrorReply \<in> set (drop (length (kw_signals k)) (kw_signals k'))"

definition bus_call :: "'s bus \<Rightarrow> ('s kwalletd \<Rightarrow> ('a \<times> 's kwalletd) run) \<Rightarrow> 's library \<Rightarrow> ('a option \<times> 's library) run" where
  "bus_call B f l =
     run_bind (getInterface B l) (\<lambda>l.
       let sent = bus_delivery B (lb_calls l); l = l\<lparr>lb_calls := lb_calls l + 1\<rparr>; k = lb_daemon l in
       if \<not> lb_running l \<or> sent = NotSent then Ret (None, l)
       else
         run_bind (f k) (\<lambda>(r, k').
           Ret (if sent = ReplyLost \<or> error_sent k k' then None else Some r, l\<lparr>lb_daemon := k'\<rparr>)))"

definition replied :: "'a \<Rightarrow> 'a option \<Rightarrow> 'a" where
  "replied d r = (case r of None \<Rightarrow> d | Some x \<Rightarrow> x)"

section \<open>Wallet objects\<close>

datatype wallet_signal = ApiOpened bool | ApiClosed | ApiFolderUpdated qstring | ApiFolderListUpdated

record wallet =
  w_name :: qstring
  w_folder :: qstring
  w_handle :: int
  w_transactionId :: "int option"          \<comment> \<open>None before it has been set\<close>
  w_errors :: nat                          \<comment> \<open>single-shot timers for emitWalletAsyncOpenError\<close>
  w_signals :: "wallet_signal list"

definition w_emit :: "wallet_signal \<Rightarrow> wallet \<Rightarrow> wallet" where
  "w_emit x w = w\<lparr>w_signals := w_signals w @ [x]\<rparr>"

definition Wallet_new :: "'s bus \<Rightarrow> int \<Rightarrow> qstring \<Rightarrow> 's library \<Rightarrow> (wallet \<times> 's library) run" where
  "Wallet_new B handle name l =
     run_bind (getInterface B l) (\<lambda>l.
       let w = \<lparr>w_name = name, w_folder = [], w_handle = handle, w_transactionId = None, w_errors = 0, w_signals = []\<rparr> in
       if handle \<noteq> -1
       then run_bind (bus_call B (\<lambda>k. Ret (KWalletD_isOpenHandle handle k, k)) l) (\<lambda>(r, l).
              Ret (if r = Some False then w\<lparr>w_handle := -1, w_name := []\<rparr> else w, l))
       else Ret (w, l))"

definition Wallet_delete :: "'s bus \<Rightarrow> wallet \<Rightarrow> 's library \<Rightarrow> 's library run" where
  "Wallet_delete B w l =
     (if w_handle w \<noteq> -1
      then run_bind (bus_call B (\<lambda>k. Ret (KWalletD_closeHandle (w_handle w) False (bus_appId B) k)) l) (\<lambda>(_, l). Ret l)
      else Ret l)"

text \<open>A call that the object makes only when it is open.\<close>

definition object_call :: "'s bus \<Rightarrow> wallet \<Rightarrow> 'a \<Rightarrow> ('s kwalletd \<Rightarrow> ('a \<times> 's kwalletd) run) \<Rightarrow> 's library \<Rightarrow> ('a \<times> 's library) run" where
  "object_call B w d f l =
     (if w_handle w = -1 then Ret (d, l) else run_bind (bus_call B f l) (\<lambda>(r, l). Ret (replied d r, l)))"

text \<open>A call of the class, for which wallets have to be enabled.\<close>

definition class_call :: "'s bus \<Rightarrow> 'a \<Rightarrow> 'a \<Rightarrow> ('s kwalletd \<Rightarrow> ('a \<times> 's kwalletd) run) \<Rightarrow> 's library \<Rightarrow> ('a \<times> 's library) run" where
  "class_call B off invalid f l =
     (if lb_walletEnabled l then run_bind (bus_call B f l) (\<lambda>(r, l). Ret (replied invalid r, l)) else Ret (off, l))"

section \<open>Calls of the class\<close>

definition Wallet_LocalWallet :: "'s bus \<Rightarrow> 's library \<Rightarrow> (qstring \<times> 's library) run" where
  "Wallet_LocalWallet B = class_call B [] [] (\<lambda>k. Ret (KWalletD_localWallet (bus_libsecret B) k))"

definition Wallet_NetworkWallet :: "'s bus \<Rightarrow> 's library \<Rightarrow> (qstring \<times> 's library) run" where
  "Wallet_NetworkWallet B = class_call B [] [] (\<lambda>k. Ret (KWalletD_networkWallet (bus_libsecret B) k))"

definition PasswordFolder :: qstring where "PasswordFolder = qs ''Passwords''"

definition FormDataFolder :: qstring where "FormDataFolder = qs ''Form Data''"

definition Wallet_walletList :: "'s bus \<Rightarrow> 's library \<Rightarrow> (qstring list \<times> 's library) run" where
  "Wallet_walletList B = class_call B [] [] (\<lambda>k. Ret (KWalletD_wallets (d_host (bus_desktop B)) (bus_libsecret B) k))"

definition Wallet_changePassword :: "'s bus \<Rightarrow> bool \<Rightarrow> qstring \<Rightarrow> int \<Rightarrow> 's library \<Rightarrow> (unit \<times> 's library) run" where
  "Wallet_changePassword B interfaceValid name w =
     class_call B () () (\<lambda>k. Ret ((), KWalletD_changePassword interfaceValid name w (bus_appId B) k))"

definition Wallet_isEnabled :: "'s library \<Rightarrow> bool" where
  "Wallet_isEnabled l = lb_walletEnabled l"

definition Wallet_isOpenName :: "'s bus \<Rightarrow> qstring \<Rightarrow> 's library \<Rightarrow> (bool \<times> 's library) run" where
  "Wallet_isOpenName B name = class_call B False False (\<lambda>k. Ret (KWalletD_isOpen name k, k))"

definition Wallet_closeWallet :: "'s bus \<Rightarrow> qstring \<Rightarrow> bool \<Rightarrow> 's library \<Rightarrow> (int \<times> 's library) run" where
  "Wallet_closeWallet B name force = class_call B (-1) (-1) (\<lambda>k. Ret (KWalletD_close name force k))"

definition Wallet_deleteWallet :: "'s bus \<Rightarrow> qstring \<Rightarrow> 's library \<Rightarrow> (int \<times> 's library) run" where
  "Wallet_deleteWallet B name =
     class_call B (-1) (-1) (KWalletD_deleteWallet (bus_desktop B) (bus_libsecret B) (bus_answers B) name)"

definition Wallet_disconnectApplication :: "'s bus \<Rightarrow> qstring \<Rightarrow> qstring \<Rightarrow> 's library \<Rightarrow> (bool \<times> 's library) run" where
  "Wallet_disconnectApplication B name app = class_call B True False (\<lambda>k. Ret (disconnectApplication name app k))"

definition Wallet_users :: "'s bus \<Rightarrow> qstring \<Rightarrow> 's library \<Rightarrow> (qstring list \<times> 's library) run" where
  "Wallet_users B name = class_call B [] [] (\<lambda>k. Ret (KWalletD_users name k, k))"

definition Wallet_folderDoesNotExist :: "'s bus \<Rightarrow> qstring \<Rightarrow> qstring \<Rightarrow> 's library \<Rightarrow> (bool \<times> 's library) run" where
  "Wallet_folderDoesNotExist B name folder =
     class_call B False False (\<lambda>k. Ret (KWalletD_folderDoesNotExist (d_host (bus_desktop B)) (bus_libsecret B) name folder k))"

definition Wallet_keyDoesNotExist :: "'s bus \<Rightarrow> qstring \<Rightarrow> qstring \<Rightarrow> qstring \<Rightarrow> 's library \<Rightarrow> (bool \<times> 's library) run" where
  "Wallet_keyDoesNotExist B name folder key =
     class_call B False False (\<lambda>k. Ret (KWalletD_keyDoesNotExist (d_host (bus_desktop B)) (bus_libsecret B) name folder key k))"

section \<open>Opening\<close>

datatype open_type = Synchronous | Asynchronous | PathType | OpenTypeUnused

text \<open>The kind \<open>Path\<close> is refused like any unknown one, before the test that would treat it as synchronous.\<close>

definition Wallet_openWallet :: "'s bus \<Rightarrow> qstring \<Rightarrow> int \<Rightarrow> open_type \<Rightarrow> 's library \<Rightarrow> (wallet option \<times> 's library) run" where
  "Wallet_openWallet B name w ot l =
     (if \<not> lb_walletEnabled l then Ret (None, l)
      else
        run_bind (Wallet_new B (-1) name l) (\<lambda>(wallet, l).
        run_bind (getInterface B l) (\<lambda>l.
          let refused = (\<lambda>l. run_bind (Wallet_delete B wallet l) (\<lambda>l. Ret (None, l))) in
          if ot = Synchronous
          then
            run_bind (bus_call B (KWalletD_open (d_host (bus_desktop B)) (bus_libsecret B) name w (bus_appId B)) l) (\<lambda>(r, l).
              case r of
                None \<Rightarrow> refused l
              | Some t \<Rightarrow>
                  if t < 0 then refused l else Ret (Some (wallet\<lparr>w_transactionId := Some t, w_handle := t\<rparr>), l))
          else if ot = Asynchronous
          then
            run_bind (bus_call B (KWalletD_openAsync name w (bus_appId B)) l) (\<lambda>(r, l).
              case r of
                None \<Rightarrow> refused l
              | Some t \<Rightarrow>
                  Ret (Some (wallet\<lparr>w_transactionId := Some t, w_errors := (if t < 0 then 1 else 0)\<rparr>), l))
          else refused l)))"

section \<open>Slots\<close>

definition slotWalletClosed :: "int \<Rightarrow> wallet \<Rightarrow> wallet" where
  "slotWalletClosed handle w =
     (if w_handle w = handle then w_emit ApiClosed (w\<lparr>w_handle := -1, w_folder := [], w_name := []\<rparr>) else w)"

definition walletServiceUnregistered :: "wallet \<Rightarrow> wallet" where
  "walletServiceUnregistered w = (if 0 \<le> w_handle w then slotWalletClosed (w_handle w) w else w)"

definition slotFolderUpdated :: "qstring \<Rightarrow> qstring \<Rightarrow> wallet \<Rightarrow> wallet" where
  "slotFolderUpdated wallet folder w = (if w_name w = wallet then w_emit (ApiFolderUpdated folder) w else w)"

definition slotFolderListUpdated :: "qstring \<Rightarrow> wallet \<Rightarrow> wallet" where
  "slotFolderListUpdated wallet w = (if w_name w = wallet then w_emit ApiFolderListUpdated w else w)"

definition slotApplicationDisconnected :: "qstring \<Rightarrow> qstring \<Rightarrow> qstring \<Rightarrow> wallet \<Rightarrow> wallet" where
  "slotApplicationDisconnected appId wallet application w =
     (if 0 \<le> w_handle w \<and> w_name w = wallet \<and> application = appId then slotWalletClosed (w_handle w) w else w)"

definition Wallet_walletAsyncOpened :: "int \<Rightarrow> int \<Rightarrow> wallet \<Rightarrow> wallet" where
  "Wallet_walletAsyncOpened tId handle w =
     (if w_transactionId w \<noteq> Some tId \<or> w_handle w \<noteq> -1 then w
      else w_emit (ApiOpened (handle > 0)) (w\<lparr>w_handle := handle\<rparr>))"

definition emitWalletAsyncOpenError :: "wallet \<Rightarrow> wallet" where
  "emitWalletAsyncOpenError w = (if w_errors w = 0 then w else w_emit (ApiOpened False) (w\<lparr>w_errors := w_errors w - 1\<rparr>))"

text \<open>A signal of the daemon at one object.\<close>

fun wallet_slot :: "qstring \<Rightarrow> kwalletd_signal \<Rightarrow> wallet \<Rightarrow> wallet" where
  "wallet_slot appId (KwClosedId handle) w = slotWalletClosed handle w"
| "wallet_slot appId (KwFolderListUpdated wallet) w = slotFolderListUpdated wallet w"
| "wallet_slot appId (KwFolderUpdated wallet folder) w = slotFolderUpdated wallet folder w"
| "wallet_slot appId (KwDisconnected wallet application) w = slotApplicationDisconnected appId wallet application w"
| "wallet_slot appId (KwAsyncOpened tId handle) w = Wallet_walletAsyncOpened tId handle w"
| "wallet_slot appId _ w = w"

text \<open>
  The event loop brings the signals to all objects.  When the daemon ends, the objects get the signals that it had sent
  and then hear of its end; this is before the next call that they make.
\<close>

definition unseen :: "'s library \<Rightarrow> kwalletd_signal list" where
  "unseen l = drop (lb_seen l) (kw_signals (lb_daemon l))"

definition api_event_loop :: "'s bus \<Rightarrow> wallet list \<times> 's library \<Rightarrow> wallet list \<times> 's library" where
  "api_event_loop B s =
     (let (ws, l) = s in (map (fold (wallet_slot (bus_appId B)) (unseen l)) ws, l\<lparr>lb_seen := length (kw_signals (lb_daemon l))\<rparr>))"

definition daemon_ends :: "'s bus \<Rightarrow> wallet list \<times> 's library \<Rightarrow> wallet list \<times> 's library" where
  "daemon_ends B s = (let (ws, l) = api_event_loop B s in (map walletServiceUnregistered ws, l\<lparr>lb_running := False\<rparr>))"

end
