(* ===== verification/KWalletLibCalls.thy ===== *)
theory KWalletLibCalls
  imports KWalletLib
begin

text \<open>
  The calls of an object of the class \<open>Wallet\<close> on its wallet, its folders and its entries.  What a call writes to an
  argument by reference is part of its result, as is the flag that three of them set through a pointer.
\<close>

section \<open>The wallet\<close>

text \<open>The reply to the call of \<open>sync\<close> is not waited for.\<close>

definition Wallet_sync :: "'s bus \<Rightarrow> wallet \<Rightarrow> 's library \<Rightarrow> (int \<times> 's library) run" where
  "Wallet_sync B w l =
     (if w_handle w = -1 then Ret (-1, l)
      else run_bind (bus_call B (\<lambda>k. Ret ((), KWalletD_sync (w_handle w) (bus_appId B) k)) l) (\<lambda>(_, l). Ret (0, l)))"

definition Wallet_lockWallet :: "'s bus \<Rightarrow> wallet \<Rightarrow> 's library \<Rightarrow> (int \<times> wallet \<times> 's library) run" where
  "Wallet_lockWallet B w l =
     (if w_handle w = -1 then Ret (-1, w, l)
      else
        run_bind (bus_call B (\<lambda>k. Ret (KWalletD_closeHandle (w_handle w) True (bus_appId B) k)) l) (\<lambda>(r, l).
          Ret (replied (-1) r, w\<lparr>w_handle := -1, w_folder := [], w_name := []\<rparr>, l)))"

definition Wallet_walletName :: "wallet \<Rightarrow> qstring" where
  "Wallet_walletName w = w_name w"

definition Wallet_isOpen :: "wallet \<Rightarrow> bool" where
  "Wallet_isOpen w \<longleftrightarrow> w_handle w \<noteq> -1"

definition Wallet_requestChangePassword :: "'s bus \<Rightarrow> bool \<Rightarrow> int \<Rightarrow> wallet \<Rightarrow> 's library \<Rightarrow> (unit \<times> 's library) run" where
  "Wallet_requestChangePassword B interfaceValid wId w =
     object_call B w () (\<lambda>k. Ret ((), KWalletD_changePassword interfaceValid (w_name w) wId (bus_appId B) k))"

section \<open>Folders\<close>

definition Wallet_folderList :: "'s bus \<Rightarrow> wallet \<Rightarrow> 's library \<Rightarrow> (qstring list \<times> 's library) run" where
  "Wallet_folderList B w = object_call B w [] (\<lambda>k. Ret (KWalletD_folderList (w_handle w) (bus_appId B) k, k))"

definition Wallet_entryList :: "'s bus \<Rightarrow> wallet \<Rightarrow> 's library \<Rightarrow> (qstring list \<times> 's library) run" where
  "Wallet_entryList B w =
     object_call B w [] (\<lambda>k. Ret (KWalletD_entryList (d_host (bus_desktop B)) (bus_libsecret B) (w_handle w) (w_folder w) (bus_appId B) k))"

definition Wallet_hasFolder :: "'s bus \<Rightarrow> wallet \<Rightarrow> qstring \<Rightarrow> 's library \<Rightarrow> (bool \<times> 's library) run" where
  "Wallet_hasFolder B w f = object_call B w False (\<lambda>k. Ret (KWalletD_hasFolder (w_handle w) f (bus_appId B) k, k))"

definition Wallet_createFolder :: "'s bus \<Rightarrow> wallet \<Rightarrow> qstring \<Rightarrow> 's library \<Rightarrow> (bool \<times> 's library) run" where
  "Wallet_createFolder B w f l =
     (if w_handle w = -1 then Ret (False, l)
      else
        run_bind (Wallet_hasFolder B w f l) (\<lambda>(has, l).
          if \<not> has
          then run_bind (bus_call B (\<lambda>k. Ret (KWalletD_createFolder (w_handle w) f (bus_appId B) k)) l) (\<lambda>(r, l). Ret (replied False r, l))
          else Ret (True, l)))"

definition Wallet_setFolder :: "'s bus \<Rightarrow> wallet \<Rightarrow> qstring \<Rightarrow> 's library \<Rightarrow> (bool \<times> wallet \<times> 's library) run" where
  "Wallet_setFolder B w f l =
     (if w_handle w = -1 then Ret (False, w, l)
      else
        run_bind (Wallet_hasFolder B w f l) (\<lambda>(has, l).
          if has then Ret (True, w\<lparr>w_folder := f\<rparr>, l) else Ret (False, w, l)))"

definition Wallet_removeFolder :: "'s bus \<Rightarrow> wallet \<Rightarrow> qstring \<Rightarrow> 's library \<Rightarrow> (bool \<times> wallet \<times> 's library) run" where
  "Wallet_removeFolder B w f l =
     (if w_handle w = -1 then Ret (False, w, l)
      else
        run_bind (bus_call B (\<lambda>k. Ret (KWalletD_removeFolder (d_host (bus_desktop B)) (bus_libsecret B) (w_handle w) f (bus_appId B) k)) l) (\<lambda>(r, l).
        run_bind (if w_folder w = f then Wallet_setFolder B w [] l else Ret (False, w, l)) (\<lambda>(_, w, l).
          Ret (replied False r, w, l))))"

definition Wallet_currentFolder :: "wallet \<Rightarrow> qstring" where
  "Wallet_currentFolder w = w_folder w"

section \<open>Reading\<close>

text \<open>The number is 0 when there was a reply; otherwise the value stays what it was.\<close>

definition value_call :: "'s bus \<Rightarrow> wallet \<Rightarrow> ('s kwalletd \<Rightarrow> 'a \<times> 's kwalletd) \<Rightarrow> ('a \<Rightarrow> 'b) \<Rightarrow> 'b \<Rightarrow> 's library \<Rightarrow> ((int \<times> 'b) \<times> 's library) run" where
  "value_call B w f g val l =
     (if w_handle w = -1 then Ret ((-1, val), l)
      else run_bind (bus_call B (\<lambda>k. Ret (f k)) l) (\<lambda>(r, l).
        Ret (case r of None \<Rightarrow> (-1, val) | Some x \<Rightarrow> (0, g x), l)))"

definition Wallet_readEntry :: "'s bus \<Rightarrow> wallet \<Rightarrow> qstring \<Rightarrow> bytes \<Rightarrow> 's library \<Rightarrow> ((int \<times> bytes) \<times> 's library) run" where
  "Wallet_readEntry B w key val =
     value_call B w (KWalletD_readEntry (bus_desktop B) (bus_libsecret B) (w_handle w) (w_folder w) key (bus_appId B)) id val"

definition Wallet_readMap :: "'s bus \<Rightarrow> wallet \<Rightarrow> qstring \<Rightarrow> str_map \<Rightarrow> 's library \<Rightarrow> ((int \<times> str_map) \<times> 's library) run" where
  "Wallet_readMap B w key val =
     value_call B w (KWalletD_readMap (bus_desktop B) (bus_libsecret B) (w_handle w) (w_folder w) key (bus_appId B))
       (\<lambda>v. if v \<noteq> [] then d_unstreamMap (bus_desktop B) v else val) val"

definition Wallet_readPassword :: "'s bus \<Rightarrow> wallet \<Rightarrow> qstring \<Rightarrow> qstring \<Rightarrow> 's library \<Rightarrow> ((int \<times> qstring) \<times> 's library) run" where
  "Wallet_readPassword B w key val =
     value_call B w (KWalletD_readPassword (d_host (bus_desktop B)) (bus_libsecret B) (w_handle w) (w_folder w) key (bus_appId B)) id val"

definition toByteArray :: "host \<Rightarrow> variant \<Rightarrow> bytes" where
  "toByteArray h v = (case v of VBytes b \<Rightarrow> b | VText t \<Rightarrow> toUtf8 h t | VMap m \<Rightarrow> [])"

definition variant_text :: "host \<Rightarrow> variant \<Rightarrow> qstring" where
  "variant_text h v = (case v of VBytes b \<Rightarrow> fromUtf8 h b | VText t \<Rightarrow> t | VMap m \<Rightarrow> [])"

text \<open>
  The flag is \<open>None\<close> for a null pointer.  It is set to false by an object that is not open, and left alone when the call
  has no reply.
\<close>

definition list_call :: "'s bus \<Rightarrow> wallet \<Rightarrow> ('s kwalletd \<Rightarrow> variant_map \<times> 's kwalletd) \<Rightarrow>
    (qstring \<times> variant \<Rightarrow> (qstring, 'b) qmap \<Rightarrow> (qstring, 'b) qmap) \<Rightarrow> bool option \<Rightarrow> 's library \<Rightarrow>
    (((qstring, 'b) qmap \<times> bool option) \<times> 's library) run" where
  "list_call B w f add ok l =
     (if w_handle w = -1 then Ret (([], map_option (\<lambda>_. False) ok), l)
      else run_bind (bus_call B (\<lambda>k. Ret (f k)) l) (\<lambda>(r, l).
        Ret (case r of None \<Rightarrow> ([], ok) | Some m \<Rightarrow> (fold add m [], map_option (\<lambda>_. True) ok), l)))"

definition Wallet_entriesList :: "'s bus \<Rightarrow> wallet \<Rightarrow> bool option \<Rightarrow> 's library \<Rightarrow> (((qstring, bytes) qmap \<times> bool option) \<times> 's library) run" where
  "Wallet_entriesList B w =
     list_call B w (KWalletD_entriesList (bus_desktop B) (bus_libsecret B) (w_handle w) (w_folder w) (bus_appId B))
       (\<lambda>(key, v). qmap_insert key (toByteArray (d_host (bus_desktop B)) v))"

definition Wallet_mapList :: "'s bus \<Rightarrow> wallet \<Rightarrow> bool option \<Rightarrow> 's library \<Rightarrow> (((qstring, str_map) qmap \<times> bool option) \<times> 's library) run" where
  "Wallet_mapList B w =
     list_call B w (KWalletD_mapList (bus_desktop B) (bus_libsecret B) (w_handle w) (w_folder w) (bus_appId B))
       (\<lambda>(key, v) m. let mapData = toByteArray (d_host (bus_desktop B)) v in
          if mapData \<noteq> [] then qmap_insert key (d_unstreamMap (bus_desktop B) mapData) m else m)"

definition Wallet_passwordList :: "'s bus \<Rightarrow> wallet \<Rightarrow> bool option \<Rightarrow> 's library \<Rightarrow> (((qstring, qstring) qmap \<times> bool option) \<times> 's library) run" where
  "Wallet_passwordList B w =
     list_call B w (KWalletD_passwordList (d_host (bus_desktop B)) (bus_libsecret B) (w_handle w) (w_folder w) (bus_appId B))
       (\<lambda>(key, v). qmap_insert key (variant_text (d_host (bus_desktop B)) v))"

section \<open>Writing\<close>

definition Wallet_renameEntry :: "'s bus \<Rightarrow> wallet \<Rightarrow> qstring \<Rightarrow> qstring \<Rightarrow> 's library \<Rightarrow> (int \<times> 's library) run" where
  "Wallet_renameEntry B w oldName newName =
     object_call B w (-1) (\<lambda>k. Ret (KWalletD_renameEntry (d_host (bus_desktop B)) (bus_libsecret B) (w_handle w) (w_folder w) oldName newName (bus_appId B) k))"

definition Wallet_writeEntry :: "'s bus \<Rightarrow> wallet \<Rightarrow> qstring \<Rightarrow> bytes \<Rightarrow> entry_type \<Rightarrow> 's library \<Rightarrow> (int \<times> 's library) run" where
  "Wallet_writeEntry B w key val type =
     object_call B w (-1) (\<lambda>k. Ret (KWalletD_writeEntry (bus_desktop B) (bus_libsecret B) (w_handle w) (w_folder w) key val type (bus_appId B) k))"

definition Wallet_writeEntryStream :: "'s bus \<Rightarrow> wallet \<Rightarrow> qstring \<Rightarrow> bytes \<Rightarrow> 's library \<Rightarrow> (int \<times> 's library) run" where
  "Wallet_writeEntryStream B w key val =
     object_call B w (-1) (\<lambda>k. Ret (KWalletD_writeEntryStream (bus_desktop B) (bus_libsecret B) (w_handle w) (w_folder w) key val (bus_appId B) k))"

definition Wallet_writeMap :: "'s bus \<Rightarrow> wallet \<Rightarrow> qstring \<Rightarrow> str_map \<Rightarrow> 's library \<Rightarrow> (int \<times> 's library) run" where
  "Wallet_writeMap B w key val =
     object_call B w (-1) (\<lambda>k. Ret (KWalletD_writeMap (bus_desktop B) (bus_libsecret B) (w_handle w) (w_folder w) key
       (d_streamMap (bus_desktop B) val) (bus_appId B) k))"

definition Wallet_writePassword :: "'s bus \<Rightarrow> wallet \<Rightarrow> qstring \<Rightarrow> qstring \<Rightarrow> 's library \<Rightarrow> (int \<times> 's library) run" where
  "Wallet_writePassword B w key val =
     object_call B w (-1) (\<lambda>k. Ret (KWalletD_writePassword (bus_desktop B) (bus_libsecret B) (w_handle w) (w_folder w) key val (bus_appId B) k))"

definition Wallet_hasEntry :: "'s bus \<Rightarrow> wallet \<Rightarrow> qstring \<Rightarrow> 's library \<Rightarrow> (bool \<times> 's library) run" where
  "Wallet_hasEntry B w key =
     object_call B w False (\<lambda>k. Ret (KWalletD_hasEntry (d_host (bus_desktop B)) (bus_libsecret B) (w_handle w) (w_folder w) key (bus_appId B) k))"

definition Wallet_removeEntry :: "'s bus \<Rightarrow> wallet \<Rightarrow> qstring \<Rightarrow> 's library \<Rightarrow> (int \<times> 's library) run" where
  "Wallet_removeEntry B w key =
     object_call B w (-1) (\<lambda>k. Ret (KWalletD_removeEntry (d_host (bus_desktop B)) (bus_libsecret B) (w_handle w) (w_folder w) key (bus_appId B) k))"

definition Wallet_entryType :: "'s bus \<Rightarrow> wallet \<Rightarrow> qstring \<Rightarrow> 's library \<Rightarrow> (entry_type \<times> 's library) run" where
  "Wallet_entryType B w key =
     object_call B w Unknown (\<lambda>k. Ret (KWalletD_entryType (d_host (bus_desktop B)) (bus_libsecret B) (w_handle w) (w_folder w) key (bus_appId B) k))"

end
