(* ===== verification/KWalletQuery.thy ===== *)
theory KWalletQuery
  imports KWalletLibCalls
begin

text \<open>
  The command line tool \<open>kwallet-query\<close> (querydriver.cpp and main.cpp in src/runtime/kwallet-query): one run asks the
  client library for the entries of a wallet, the value of one entry, or writes one from the standard input.  What it
  prints is a log; a text is printed as a C string, the translated messages are the constructors of \<open>query_line\<close>.

  \<open>exit\<close> and \<open>quit\<close> only tell the event loop to end, with the last code given.  \<open>Q_ASSERT\<close> evaluates its argument in
  builds with assertions only, in which it ends the program when it fails.
\<close>

section \<open>State\<close>

datatype query_mode = ListEntries | ReadEntry | WriteEntry

datatype query_line = OutText bytes | OutEntry bytes | OutNotFound qstring | OutOpenFailed qstring | OutNoFolder qstring
  | OutReadFailed qstring qstring | OutWriteFailed qstring qstring | OutNotJson qstring | OutUnsupported qstring
  | OutMissingArgument | OutTooManyArguments | OutOneMode | OutNoMode

record console =
  co_stdin :: bytes
  co_asserts :: bool                            \<comment> \<open>built with assertions\<close>
  co_parseJson :: "bytes \<Rightarrow> json option"        \<comment> \<open>a document; None when it is null\<close>

record query =
  q_walletName :: qstring
  q_theWallet :: "wallet option"
  q_mode :: query_mode
  q_entryName :: qstring
  q_entryFolder :: qstring
  q_out :: "query_line list"
  q_exit :: "int option"
  q_aborted :: bool

definition QueryDriver_new :: "query_mode \<Rightarrow> query" where
  "QueryDriver_new mode = \<lparr>q_walletName = [], q_theWallet = None, q_mode = mode, q_entryName = [], q_entryFolder = qs ''Passwords'',
     q_out = [], q_exit = None, q_aborted = False\<rparr>"

definition put :: "query_line \<Rightarrow> query \<Rightarrow> query" where
  "put x q = q\<lparr>q_out := q_out q @ [x]\<rparr>"

definition printed :: "host \<Rightarrow> qstring \<Rightarrow> bytes" where
  "printed h t = cstr (toUtf8 h t)"

definition exit_with :: "int \<Rightarrow> query \<Rightarrow> query" where
  "exit_with n q = q\<lparr>q_exit := Some n\<rparr>"

text \<open>The wallet that the methods use; calling a method of a null pointer is undefined.\<close>

definition the_wallet :: "query \<Rightarrow> wallet run" where
  "the_wallet q = (case q_theWallet q of None \<Rightarrow> UB | Some w \<Rightarrow> Ret w)"

definition set_wallet :: "wallet \<Rightarrow> query \<Rightarrow> query" where
  "set_wallet w q = q\<lparr>q_theWallet := Some w\<rparr>"

section \<open>Listing\<close>

fun list_folders :: "'s bus \<Rightarrow> console \<Rightarrow> qstring list \<Rightarrow> wallet \<Rightarrow> query \<Rightarrow> 's library \<Rightarrow> (query \<times> 's library) run" where
  "list_folders B co [] w q l = Ret (set_wallet w q, l)"
| "list_folders B co (f # fs) w q l =
     (let q = put (OutText (printed (d_host (bus_desktop B)) f)) q in
      run_bind (if co_asserts co then Wallet_setFolder B w f l else Ret (True, w, l)) (\<lambda>(ok, w, l).
        if \<not> ok then Ret ((set_wallet w q)\<lparr>q_aborted := True\<rparr>, l)
        else
          run_bind (Wallet_entryList B w l) (\<lambda>(el, l).
            list_folders B co fs w (fold (\<lambda>e. put (OutEntry (printed (d_host (bus_desktop B)) e))) el q) l)))"

definition readEntries :: "'s bus \<Rightarrow> console \<Rightarrow> query \<Rightarrow> 's library \<Rightarrow> (query \<times> 's library) run" where
  "readEntries B co q l =
     run_bind (Wallet_openWallet B (q_walletName q) 0 Synchronous l) (\<lambda>(r, l).
       let q = q\<lparr>q_theWallet := r\<rparr> in
       run_bind (the_wallet q) (\<lambda>w.
         if q_entryFolder q = []
         then
           run_bind (Wallet_folderList B w l) (\<lambda>(fl, l).
           run_bind (list_folders B co fl w q l) (\<lambda>(q, l).
             Ret (if q_aborted q then q else exit_with 0 q, l)))
         else
           run_bind (Wallet_setFolder B w (q_entryFolder q) l) (\<lambda>(ok, w, l).
             let q = set_wallet w q in
             if \<not> ok then Ret (exit_with 4 (put (OutNoFolder (q_entryFolder q)) q), l)
             else
               run_bind (Wallet_entryList B w l) (\<lambda>(el, l).
                 Ret (exit_with 0 (fold (\<lambda>e. put (OutText (printed (d_host (bus_desktop B)) e))) el q), l)))))"

section \<open>Reading\<close>

definition readMapValue :: "'s bus \<Rightarrow> wallet \<Rightarrow> query \<Rightarrow> 's library \<Rightarrow> (query \<times> 's library) run" where
  "readMapValue B w q l =
     run_bind (Wallet_readMap B w (q_entryName q) [] l) (\<lambda>((rc, m), l).
       if rc \<noteq> 0 then Ret (exit_with 4 (put (OutReadFailed (q_entryName q) (q_walletName q)) q), l)
       else
         let json = fold (\<lambda>(k, v). qmap_insert k (JString v)) m []
         in Ret (exit_with 0 (put (OutText (cstr (d_toJson (bus_desktop B) json))) q), l))"

text \<open>\<open>QString::split\<close> at line feeds, without the empty parts.\<close>

definition line_feed :: "16 word" where "line_feed = 10"

fun parts :: "qstring \<Rightarrow> qstring \<Rightarrow> qstring list" where
  "parts acc [] = [acc]"
| "parts acc (c # t) = (if c = line_feed then acc # parts [] t else parts (acc @ [c]) t)"

definition split_lines :: "qstring \<Rightarrow> qstring list" where
  "split_lines t = filter (\<lambda>p. p \<noteq> []) (parts [] t)"

definition readPasswordValue :: "'s bus \<Rightarrow> wallet \<Rightarrow> query \<Rightarrow> 's library \<Rightarrow> (query \<times> 's library) run" where
  "readPasswordValue B w q l =
     run_bind (Wallet_readPassword B w (q_entryName q) [] l) (\<lambda>((rc, t), l).
       if rc \<noteq> 0 then Ret (exit_with 4 (put (OutReadFailed (q_entryName q) (q_walletName q)) q), l)
       else Ret (exit_with 0 (fold (\<lambda>e. put (OutText (printed (d_host (bus_desktop B)) e))) (split_lines t) q), l))"

definition readValue :: "'s bus \<Rightarrow> query \<Rightarrow> 's library \<Rightarrow> (query \<times> 's library) run" where
  "readValue B q l =
     run_bind (the_wallet q) (\<lambda>w.
     run_bind (Wallet_setFolder B w (q_entryFolder q) l) (\<lambda>(ok, w, l).
       let q = set_wallet w q in
       if \<not> ok then Ret (exit_with 4 (put (OutNoFolder (q_entryFolder q)) q), l)
       else
         run_bind (Wallet_entryType B w (q_entryName q) l) (\<lambda>(kind, l).
           if kind = Password then readPasswordValue B w q l
           else if kind = Map then readMapValue B w q l
           else Ret (exit_with 4 (put (OutReadFailed (q_entryName q) (q_walletName q)) q), l))))"

section \<open>Writing\<close>

text \<open>The lines of the standard input as \<open>std::getline\<close> gives them: what follows the last line feed is a line if there is
  anything.\<close>

fun stdin_lines :: "bytes \<Rightarrow> bytes \<Rightarrow> bytes list" where
  "stdin_lines acc [] = (if acc = [] then [] else [acc])"
| "stdin_lines acc (b # r) = (if b = 10 then acc # stdin_lines [] r else stdin_lines (acc @ [b]) r)"

definition joined :: "host \<Rightarrow> bytes list \<Rightarrow> qstring" where
  "joined h ls = fold (\<lambda>line t. (if t \<noteq> [] then t @ [line_feed] else t) @ fromUtf8 h line) ls []"

definition toLatin1 :: "qstring \<Rightarrow> bytes" where
  "toLatin1 t = map (\<lambda>c. if c < 256 then ucast c else 63) t"

definition json_texts :: "json \<Rightarrow> str_map" where
  "json_texts j = fold (\<lambda>(k, v). qmap_insert k (json_toString v)) (toObject j) []"

definition writeValue :: "'s bus \<Rightarrow> console \<Rightarrow> query \<Rightarrow> 's library \<Rightarrow> (query \<times> 's library) run" where
  "writeValue B co q l =
     run_bind (the_wallet q) (\<lambda>w.
     run_bind (Wallet_hasFolder B w (q_entryFolder q) l) (\<lambda>(has, l).
     run_bind (if has then Ret (True, l) else Wallet_createFolder B w (q_entryFolder q) l) (\<lambda>(_, l).
     run_bind (Wallet_setFolder B w (q_entryFolder q) l) (\<lambda>(ok, w, l).
       let q = set_wallet w q in
       if \<not> ok then Ret (exit_with 4 (put (OutNoFolder (q_entryFolder q)) q), l)
       else
         let passwordContents = joined (d_host (bus_desktop B)) (stdin_lines [] (co_stdin co));
             failed = exit_with 4 (put (OutWriteFailed (q_entryName q) (q_walletName q)) q)
         in
         run_bind (Wallet_entryType B w (q_entryName q) l) (\<lambda>(kind, l).
           if kind = Unknown \<or> kind = Password
           then
             run_bind (Wallet_writePassword B w (q_entryName q) passwordContents l) (\<lambda>(rc, l).
               Ret (if rc \<noteq> 0 then failed else exit_with 0 q, l))
           else if kind = Map
           then
             (case co_parseJson co (toLatin1 passwordContents) of
                None \<Rightarrow> Ret (exit_with 1 (put (OutNotJson (q_entryName q)) q), l)
              | Some j \<Rightarrow>
                  run_bind (Wallet_writeMap B w (q_entryName q) (json_texts j) l) (\<lambda>(rc, l).
                    Ret (if rc \<noteq> 0 then failed else exit_with 0 q, l)))
           else Ret (exit_with 1 (put (OutUnsupported (q_entryName q)) q), l))))))"

section \<open>The run\<close>

definition QueryDriver_walletOpened :: "'s bus \<Rightarrow> console \<Rightarrow> bool \<Rightarrow> query \<Rightarrow> 's library \<Rightarrow> (query \<times> 's library) run" where
  "QueryDriver_walletOpened B co success q l =
     (if \<not> success then Ret (exit_with 2 (put (OutOpenFailed (q_walletName q)) q), l)
      else case q_mode q of
        ListEntries \<Rightarrow> readEntries B co q l
      | ReadEntry \<Rightarrow> readValue B q l
      | WriteEntry \<Rightarrow> writeValue B co q l)"

text \<open>The timer event that the constructor posts.\<close>

definition QueryDriver_timerEvent :: "'s bus \<Rightarrow> query \<Rightarrow> 's library \<Rightarrow> (query \<times> 's library) run" where
  "QueryDriver_timerEvent B q l =
     run_bind (Wallet_walletList B l) (\<lambda>(wl, l).
       if q_walletName q \<notin> set wl then Ret (exit_with 1 (put (OutNotFound (q_walletName q)) q), l)
       else
         run_bind (Wallet_openWallet B (q_walletName q) 0 Asynchronous l) (\<lambda>(r, l). Ret (q\<lparr>q_theWallet := r\<rparr>, l)))"

text \<open>The options of the command line as the parser of Qt gives them, each with its value when it is set.\<close>

record command_line =
  cl_args :: "qstring list"
  cl_list :: bool
  cl_read :: "qstring option"
  cl_write :: "qstring option"
  cl_folder :: "qstring option"

definition query_main :: "command_line \<Rightarrow> query_line + query" where
  "query_main c =
     (if cl_args c = [] then Inl OutMissingArgument
      else if length (cl_args c) > 1 then Inl OutTooManyArguments
      else if cl_list c \<and> cl_read c \<noteq> None \<and> cl_write c \<noteq> None then Inl OutOneMode
      else if \<not> cl_list c \<and> cl_read c = None \<and> cl_write c = None then Inl OutNoMode
      else
        let q = (QueryDriver_new ListEntries)\<lparr>q_walletName := hd (cl_args c)\<rparr>;
            q = (case cl_read c of None \<Rightarrow> q | Some e \<Rightarrow> q\<lparr>q_entryName := e, q_mode := ReadEntry\<rparr>);
            q = (case cl_write c of None \<Rightarrow> q | Some e \<Rightarrow> q\<lparr>q_entryName := e, q_mode := WriteEntry\<rparr>)
        in Inr (case cl_folder c of None \<Rightarrow> q | Some f \<Rightarrow> q\<lparr>q_entryFolder := f\<rparr>))"

end
