(* ===== verification/SecretProps.thy ===== *)
theory SecretProps
  imports KWalletDCalls
begin

text \<open>
  What the code relies on in a Secret Service, stated over a view of its items, and what follows for the operations of
  the client on a collection that it has found.
\<close>

section \<open>Documented behaviour of the Secret Service\<close>

text \<open>
  The view gives for a collection and an item its attributes and its secret, where the secret can be read.  A search
  gives the items that have the attributes wanted; an item that is created replaces one with the same attributes, if
  there is one, and has besides the given attributes at most the name of its schema.  Loading the list of the collections
  and looking for items changes no item.
\<close>

type_synonym 's view = "'s \<Rightarrow> qstring \<Rightarrow> qstring \<Rightarrow> ((bytes \<Rightarrow> bytes option) \<times> secret_value option) option"

definition same_attributes :: "attribute_table \<Rightarrow> (bytes \<Rightarrow> bytes option) \<Rightarrow> bool" where
  "same_attributes q a \<longleftrightarrow> map_of q \<subseteq>\<^sub>m a \<and> dom a \<subseteq> insert (ascii ''xdg:schema'') (fst ` set q)"

definition search_law :: "'s libsecret \<Rightarrow> 's view \<Rightarrow> bool" where
  "search_law L view \<longleftrightarrow> (\<forall>w p q is. ls_search L w (Some p) q = Some is \<longrightarrow>
     distinct is \<and> set is = {i. \<exists>a v. view w p i = Some (a, v) \<and> map_of q \<subseteq>\<^sub>m a})"

definition item_law :: "'s libsecret \<Rightarrow> 's view \<Rightarrow> bool" where
  "item_law L view \<longleftrightarrow> (\<forall>w p i a v. view w p i = Some (a, v) \<longrightarrow>
     (\<exists>l. ls_attributes L w i = Some l \<and> distinct (map fst l) \<and> map_of l = a) \<and>
     (case v of Some x \<Rightarrow> \<not> ls_itemLocked L w i \<and> ls_secret L w i = Some x | None \<Rightarrow> True))"

definition create_law :: "'s libsecret \<Rightarrow> 's view \<Rightarrow> bool" where
  "create_law L view \<longleftrightarrow> (\<forall>w w' p q l v. ls_createItem L (Some p) q l v w = (True, w') \<longrightarrow>
     (\<exists>i a. view w' = (view w)(p := (view w p)(i \<mapsto> (a, Some v))) \<and> same_attributes q a \<and>
       (if \<exists>j b u. view w p j = Some (b, u) \<and> same_attributes q b
        then \<exists>b u. view w p i = Some (b, u) \<and> same_attributes q b else view w p i = None)))"

definition delete_law :: "'s libsecret \<Rightarrow> 's view \<Rightarrow> bool" where
  "delete_law L view \<longleftrightarrow> (\<forall>w w' p i. ls_deleteItem L i w = (True, w') \<and> view w p i \<noteq> None \<longrightarrow>
     view w' p = (view w p)(i := None))"

definition quiet_law :: "'s libsecret \<Rightarrow> 's view \<Rightarrow> bool" where
  "quiet_law L view \<longleftrightarrow> (\<forall>w. view (snd (ls_load L w)) = view w)"

definition codec_law :: "host \<Rightarrow> 's libsecret \<Rightarrow> bool" where
  "codec_law h L \<longleftrightarrow>
     (\<forall>s. set s \<subseteq> {c. of_char c < (128 :: nat)} \<longrightarrow> fromUtf8 h (ascii s) = qs s \<and> toUtf8 h (qs s) = ascii s) \<and>
     (\<forall>b. ls_fromBase64 L (ls_toBase64 L b) = b \<and> 0 \<notin> set (ls_toBase64 L b)) \<and>
     (\<forall>t. ls_text L (t, ascii ''text/plain'') = Some t)"

definition secret_laws :: "host \<Rightarrow> 's libsecret \<Rightarrow> 's view \<Rightarrow> bool" where
  "secret_laws h L view \<longleftrightarrow> search_law L view \<and> item_law L view \<and> create_law L view \<and> delete_law L view \<and>
     quiet_law L view \<and> codec_law h L"

text \<open>A service that answers every search without an error.\<close>

definition searches_answered :: "'s libsecret \<Rightarrow> bool" where
  "searches_answered L \<longleftrightarrow> (\<forall>w p q. ls_search L w (Some p) q \<noteq> None)"

section \<open>Texts\<close>

lemma ascii_neq [simp]: "ascii ''server'' \<noteq> ascii ''user''" "ascii ''user'' \<noteq> ascii ''server''"
  "ascii ''server'' \<noteq> ascii ''type''" "ascii ''type'' \<noteq> ascii ''server''" "ascii ''user'' \<noteq> ascii ''type''"
  "ascii ''type'' \<noteq> ascii ''user''" "ascii ''xdg:schema'' \<noteq> ascii ''type''" "ascii ''type'' \<noteq> ascii ''xdg:schema''"
  "ascii ''xdg:schema'' \<noteq> ascii ''user''" "ascii ''user'' \<noteq> ascii ''xdg:schema''"
  "ascii ''xdg:schema'' \<noteq> ascii ''server''" "ascii ''server'' \<noteq> ascii ''xdg:schema''"
  by (simp_all add: ascii_def)

definition type_name :: "value_type \<Rightarrow> string" where
  "type_name type = (case type of Base64 \<Rightarrow> ''base64'' | Binary \<Rightarrow> ''binary'' | MapText \<Rightarrow> ''map'' | _ \<Rightarrow> ''plaintext'')"

lemma typeToString_name: "typeToString type = qs (type_name type)"
  by (cases type) (simp_all add: type_name_def)

definition type_attribute :: "value_type \<Rightarrow> bytes" where
  "type_attribute type = ascii (type_name type)"

lemma type_attribute_inj: "type \<noteq> UnknownText \<Longrightarrow> type' \<noteq> UnknownText \<Longrightarrow> type_attribute type = type_attribute type' \<longleftrightarrow> type = type'"
  by (cases type; cases type') (simp_all add: type_attribute_def type_name_def ascii_def)

lemma c_string_type: "codec_law h L \<Longrightarrow> c_string h (typeToString type) = type_attribute type"
proof -
  assume "codec_law h L"
  then have "toUtf8 h (qs (type_name type)) = ascii (type_name type)"
    by (cases type) (auto simp: codec_law_def type_name_def)
  moreover have "cstr (ascii (type_name type)) = ascii (type_name type)"
    by (cases type) (simp_all add: type_name_def cstr_def ascii_def)
  ultimately show ?thesis by (simp add: c_string_def typeToString_name type_attribute_def)
qed

lemma fromUtf8_ascii:
  assumes "codec_law h L"
  shows "fromUtf8 h (ascii ''server'') = qs ''server''" "fromUtf8 h (ascii ''user'') = qs ''user''"
    "fromUtf8 h (ascii ''type'') = qs ''type''" "fromUtf8 h (ascii ''xdg:schema'') = qs ''xdg:schema''"
    "fromUtf8 h (type_attribute type) = qs (type_name type)"
proof -
  have e: "fromUtf8 h (ascii s) = qs s" if "set s \<subseteq> {c. of_char c < (128 :: nat)}" for s
    using assms that by (simp add: codec_law_def)
  show "fromUtf8 h (ascii ''server'') = qs ''server''" "fromUtf8 h (ascii ''user'') = qs ''user''"
    "fromUtf8 h (ascii ''type'') = qs ''type''" "fromUtf8 h (ascii ''xdg:schema'') = qs ''xdg:schema''"
    by (rule e, simp)+
  show "fromUtf8 h (type_attribute type) = qs (type_name type)"
    unfolding type_attribute_def by (rule e) (cases type; simp add: type_name_def)
qed

section \<open>The items of the client\<close>

text \<open>
  The items of a collection are the client's: each has the three attributes, at most the schema besides, and a text that
  can be read, and no two are for the same folder and key.
\<close>

definition client_item :: "(bytes \<Rightarrow> bytes option) \<times> secret_value option \<Rightarrow> bool" where
  "client_item x \<longleftrightarrow> dom (fst x) \<subseteq> {ascii ''server'', ascii ''user'', ascii ''type'', ascii ''xdg:schema''} \<and>
     fst x (ascii ''server'') \<noteq> None \<and> fst x (ascii ''user'') \<noteq> None \<and>
     fst x (ascii ''type'') \<in> Some ` {type_attribute PlainText, type_attribute Base64, type_attribute MapText} \<and>
     (\<exists>t. snd x = Some (t, ascii ''text/plain''))"

definition tidy :: "(qstring \<Rightarrow> ((bytes \<Rightarrow> bytes option) \<times> secret_value option) option) \<Rightarrow> bool" where
  "tidy items \<longleftrightarrow> (\<forall>i x. items i = Some x \<longrightarrow> client_item x) \<and>
     (\<forall>i j x y. items i = Some x \<and> items j = Some y \<and> fst x (ascii ''server'') = fst y (ascii ''server'') \<and>
        fst x (ascii ''user'') = fst y (ascii ''user'') \<longrightarrow> i = j)"

text \<open>The item for a folder and a key, given as C strings, with its type and text.\<close>

definition holds :: "(qstring \<Rightarrow> ((bytes \<Rightarrow> bytes option) \<times> secret_value option) option) \<Rightarrow> qstring \<Rightarrow> bytes \<Rightarrow> bytes \<Rightarrow> value_type \<Rightarrow> bytes \<Rightarrow> bool" where
  "holds items i f k type t \<longleftrightarrow> (\<exists>a. items i = Some (a, Some (t, ascii ''text/plain'')) \<and> a (ascii ''server'') = Some f \<and>
     a (ascii ''user'') = Some k \<and> a (ascii ''type'') = Some (type_attribute type)) \<and> type \<in> {PlainText, Base64, MapText}"

lemma tidy_cases:
  assumes "tidy items" and "items i = Some (a, v)"
  obtains f k type t where "holds items i f k type t" and "a (ascii ''server'') = Some f" and "a (ascii ''user'') = Some k"
    and "v = Some (t, ascii ''text/plain'')"
proof -
  have c: "client_item (a, v)" using assms by (simp add: tidy_def)
  then obtain f k type t where x: "a (ascii ''server'') = Some f" "a (ascii ''user'') = Some k" "v = Some (t, ascii ''text/plain'')"
    "a (ascii ''type'') = Some (type_attribute type)" "type \<in> {PlainText, Base64, MapText}"
    unfolding client_item_def by auto
  show thesis by (rule that [OF _ x(1,2,3)]) (use assms(2) x in \<open>auto simp: holds_def\<close>)
qed

lemma holds_unique:
  assumes "tidy items" and "holds items i f k type t" and "holds items j f k type' t'"
  shows "j = i \<and> type' = type \<and> t' = t"
proof -
  have "j = i" using assms unfolding tidy_def holds_def by fastforce
  with assms(2,3) show ?thesis by (auto simp: holds_def type_attribute_inj)
qed

definition linked :: "qstring \<Rightarrow> qstring \<Rightarrow> 's client \<Rightarrow> bool" where
  "linked wallet p c \<longleftrightarrow> sc_service c \<and> qmap_wf (sc_openCollections c) \<and> qmap_find (sc_openCollections c) wallet = Some p"

lemma linked_service: "linked wallet p c \<Longrightarrow> attemptConnection L c = (True, c)"
  by (simp add: linked_def attemptConnection_def)

lemma linked_collection: "linked wallet p c \<Longrightarrow> retrieveCollection h L wallet c = (Some p, c)"
  by (simp add: retrieveCollection_def linked_service) (simp add: linked_def)

lemmas linked_simps = linked_service linked_collection

text \<open>Looking for another collection may load the list, and changes nothing else that matters.\<close>

definition calm_client :: "'s view \<Rightarrow> 's client \<Rightarrow> 's client \<Rightarrow> bool" where
  "calm_client view c c' \<longleftrightarrow> view (sc_world c') = view (sc_world c) \<and> (\<forall>wallet p. linked wallet p c \<longrightarrow> linked wallet p c') \<and>
     sc_signals c' = sc_signals c"

lemma calm_client_refl [simp]: "calm_client view c c"
  by (simp add: calm_client_def)

lemma retrieve_calm:
  assumes "quiet_law L view" and "sc_service c"
  shows "calm_client view c (snd (retrieveCollection h L n c))"
proof -
  have "view (snd (ls_load L (sc_world c))) = view (sc_world c)" using assms(1) by (simp add: quiet_law_def)
  then show ?thesis using assms(2)
    by (auto simp: retrieveCollection_def attemptConnection_def on_world_def calm_client_def linked_def qmap_simps Let_def
        split: option.splits prod.splits)
qed

lemma listEntries_calm:
  assumes "quiet_law L view" and "sc_service c"
  shows "calm_client view c (snd (listEntries h L folder n c))"
  using retrieve_calm [OF assms, of h n] assms(2)
  by (auto simp: listEntries_def attemptConnection_def Let_def split: option.splits prod.splits)

lemma listFolders_linked: "linked wallet p c \<Longrightarrow> snd (listFolders h L wallet c) = c"
  by (simp add: listFolders_def linked_simps)

section \<open>Reading an item\<close>

lemma search_items:
  assumes "secret_laws h L view" and "searches_answered L" and "tidy (view w p)"
  obtains js where "ls_search L w (Some p) (item_query h key want folder) = Some js" and "distinct js"
    and "\<And>j. j \<in> set js \<longleftrightarrow>
      (\<exists>type t. holds (view w p) j (c_string h folder) (c_string h key) type t \<and> (want = UnknownText \<or> want = type))"
proof -
  let ?q = "item_query h key want folder"
  have cl: "codec_law h L" "search_law L view" using assms(1) by (simp_all add: secret_laws_def)
  obtain js where js: "ls_search L w (Some p) ?q = Some js" using assms(2) unfolding searches_answered_def by blast
  then have s: "distinct js" "set js = {j. \<exists>a v. view w p j = Some (a, v) \<and> map_of ?q \<subseteq>\<^sub>m a}"
    using cl(2) unfolding search_law_def by blast+
  have "(\<exists>a v. view w p j = Some (a, v) \<and> map_of ?q \<subseteq>\<^sub>m a) \<longleftrightarrow>
      (\<exists>type t. holds (view w p) j (c_string h folder) (c_string h key) type t \<and> (want = UnknownText \<or> want = type))" for j
  proof
    assume "\<exists>a v. view w p j = Some (a, v) \<and> map_of ?q \<subseteq>\<^sub>m a"
    then obtain a v where a: "view w p j = Some (a, v)" "map_of ?q \<subseteq>\<^sub>m a" by blast
    then have q: "a (ascii ''server'') = Some (c_string h folder)" "a (ascii ''user'') = Some (c_string h key)"
      "want = UnknownText \<or> a (ascii ''type'') = Some (type_attribute want)"
      by (auto simp: item_query_def map_le_def dom_def c_string_type [OF cl(1)] split: if_splits)
    obtain f k type t where t: "holds (view w p) j f k type t" "a (ascii ''server'') = Some f" "a (ascii ''user'') = Some k"
      using tidy_cases [OF assms(3) a(1)] by metis
    with a(1) q(3) have "want = UnknownText \<or> want = type"
      by (cases "want = UnknownText") (auto simp: holds_def type_attribute_inj)
    with t q show "\<exists>type t. holds (view w p) j (c_string h folder) (c_string h key) type t \<and> (want = UnknownText \<or> want = type)"
      by auto
  next
    assume "\<exists>type t. holds (view w p) j (c_string h folder) (c_string h key) type t \<and> (want = UnknownText \<or> want = type)"
    then show "\<exists>a v. view w p j = Some (a, v) \<and> map_of ?q \<subseteq>\<^sub>m a"
      by (auto simp: holds_def item_query_def map_le_def c_string_type [OF cl(1)])
  qed
  with s js that show thesis by auto
qed

lemma search_holds:
  assumes "secret_laws h L view" and "searches_answered L" and "tidy (view w p)"
    and "holds (view w p) i (c_string h folder) (c_string h key) type t"
  shows "ls_search L w (Some p) (item_query h key want folder) = Some (if want = UnknownText \<or> want = type then [i] else [])"
proof -
  obtain js where js: "ls_search L w (Some p) (item_query h key want folder) = Some js" "distinct js"
    "\<And>j. j \<in> set js \<longleftrightarrow>
      (\<exists>type t. holds (view w p) j (c_string h folder) (c_string h key) type t \<and> (want = UnknownText \<or> want = type))"
    using search_items [OF assms(1-3)] by metis
  have m: "j \<in> set js \<longleftrightarrow> j = i \<and> (want = UnknownText \<or> want = type)" for j
    unfolding js(3) using assms(4) holds_unique [OF assms(3,4), of j] by blast
  have "set js = (if want = UnknownText \<or> want = type then {i} else {})" by (rule set_eqI) (simp add: m)
  with js(1,2) show ?thesis by (cases js; cases "tl js") (auto simp del: insert_iff split: if_splits dest: singleton_insert_inj_eq' [THEN iffD1])
qed

lemma search_absent:
  assumes "secret_laws h L view" and "searches_answered L" and "tidy (view w p)"
    and "\<And>i type t. \<not> holds (view w p) i (c_string h folder) (c_string h key) type t"
  shows "ls_search L w (Some p) (item_query h key want folder) = Some []"
proof -
  obtain js where "ls_search L w (Some p) (item_query h key want folder) = Some js" "\<And>j. j \<notin> set js"
    using search_items [OF assms(1-3), of key want folder] assms(4) by metis
  then show ?thesis by (cases js) auto
qed

lemma read_holds:
  assumes "secret_laws h L view" and "searches_answered L" and "tidy (view (sc_world c) p)" and "linked wallet p c"
    and "holds (view (sc_world c) p) i (c_string h folder) (c_string h key) type t" and "want \<noteq> UnknownText"
  shows "client_readEntry h L key want folder wallet c =
    ((if want = type then (value_as L type (Some (t, ascii ''text/plain'')), True) else ([], False)), c)"
proof -
  have "\<not> ls_itemLocked L (sc_world c) i \<and> ls_secret L (sc_world c) i = Some (t, ascii ''text/plain'')"
    using assms(1,5) unfolding secret_laws_def item_law_def holds_def by fastforce
  then show ?thesis
    using search_holds [OF assms(1-3,5), of want] assms(6)
    by (simp add: client_readEntry_def retrieveItem_def linked_simps [OF assms(4)])
qed

lemma read_absent:
  assumes "secret_laws h L view" and "searches_answered L" and "tidy (view (sc_world c) p)" and "linked wallet p c"
    and "\<And>i type t. \<not> holds (view (sc_world c) p) i (c_string h folder) (c_string h key) type t"
  shows "client_readEntry h L key want folder wallet c = (([], False), c)"
  using search_absent [OF assms(1-3,5), of want]
  by (simp add: client_readEntry_def retrieveItem_def linked_simps [OF assms(4)])

lemma map_of_rev_distinct: "distinct (map fst l) \<Longrightarrow> map_of (rev l) = map_of l"
proof (induction l)
  case (Cons x l)
  then show ?case using map_of_eq_None_iff [of l "fst x"]
    by (cases x) (auto simp: fun_eq_iff map_add_def split: option.splits)
qed simp

text \<open>The type of an entry is read from its attribute.\<close>

lemma metadata_type:
  assumes "codec_law h L" and "distinct (map fst l)" and "fst ` set l \<subseteq> {ascii ''server'', ascii ''user'', ascii ''type'', ascii ''xdg:schema''}"
    and "map_of l (ascii ''type'') = Some (type_attribute type)"
  shows "map_of (rev (map (\<lambda>(k, v). (fromUtf8 h k, fromUtf8 h v)) l)) (qs ''type'') = Some (qs (type_name type))"
proof -
  let ?m = "map (\<lambda>(k, v). (fromUtf8 h k, fromUtf8 h v)) l"
  note u = fromUtf8_ascii [OF assms(1)]
  have q: "qs ''server'' \<noteq> qs ''user''" "qs ''server'' \<noteq> qs ''type''" "qs ''server'' \<noteq> qs ''xdg:schema''" "qs ''user'' \<noteq> qs ''type''"
    "qs ''user'' \<noteq> qs ''xdg:schema''" "qs ''type'' \<noteq> qs ''xdg:schema''" by (simp_all add: qs_def)
  have inj: "inj_on (fromUtf8 h) {ascii ''server'', ascii ''user'', ascii ''type'', ascii ''xdg:schema''}"
    using q by (auto simp: inj_on_def u)
  have "map fst ?m = map (fromUtf8 h) (map fst l)" by (simp add: comp_def case_prod_beta)
  then have d: "distinct (map fst ?m)"
    using assms(2,3) inj_on_subset [OF inj, of "set (map fst l)"] unfolding \<open>map fst ?m = _\<close> distinct_map [of "fromUtf8 h"] by simp
  have "(ascii ''type'', type_attribute type) \<in> set l" using assms(4) by (rule map_of_SomeD)
  then have "(\<lambda>(k, v). (fromUtf8 h k, fromUtf8 h v)) (ascii ''type'', type_attribute type) \<in> set ?m" unfolding set_map by (rule imageI)
  then have "(qs ''type'', qs (type_name type)) \<in> set ?m" by (simp add: u)
  then have "map_of ?m (qs ''type'') = Some (qs (type_name type))" using d by simp
  with map_of_rev_distinct [OF d] show ?thesis by simp
qed

definition entry_type_of :: "value_type \<Rightarrow> entry_type" where
  "entry_type_of type = (case type of Base64 \<Rightarrow> Stream | Binary \<Rightarrow> Stream | MapText \<Rightarrow> Map | _ \<Rightarrow> Password)"

lemma readMetadata_holds:
  assumes "secret_laws h L view" and "searches_answered L" and "tidy (view (sc_world c) p)" and "linked wallet p c"
    and "holds (view (sc_world c) p) i (c_string h folder) (c_string h key) type t"
  shows "\<exists>m. readMetadata h L key folder wallet c = ((m, True), c) \<and> m (qs ''type'') = Some (qs (type_name type))"
proof -
  obtain a where a: "view (sc_world c) p i = Some (a, Some (t, ascii ''text/plain''))" "a (ascii ''type'') = Some (type_attribute type)"
    using assms(5) unfolding holds_def by blast
  obtain l where l: "ls_attributes L (sc_world c) i = Some l" "distinct (map fst l)" "map_of l = a"
    using assms(1) a(1) unfolding secret_laws_def item_law_def by blast
  have "dom a \<subseteq> {ascii ''server'', ascii ''user'', ascii ''type'', ascii ''xdg:schema''}"
    using assms(3) a(1) unfolding tidy_def client_item_def by fastforce
  then have "fst ` set l \<subseteq> {ascii ''server'', ascii ''user'', ascii ''type'', ascii ''xdg:schema''}"
    using l(3) by (simp add: dom_map_of_conv_image_fst [symmetric])
  moreover have "codec_law h L" using assms(1) by (simp add: secret_laws_def)
  ultimately have "map_of (rev (map (\<lambda>(k, v). (fromUtf8 h k, fromUtf8 h v)) l)) (qs ''type'') = Some (qs (type_name type))"
    using metadata_type l(2,3) a(2) by blast
  then show ?thesis
    using search_holds [OF assms(1-3,5), of UnknownText] l(1)
    by (simp add: readMetadata_def retrieveItem_def linked_simps [OF assms(4)])
qed

section \<open>Writing an item\<close>

definition write_query :: "bytes \<Rightarrow> bytes \<Rightarrow> value_type \<Rightarrow> attribute_table" where
  "write_query f k type = [(ascii ''user'', k), (ascii ''type'', type_attribute type), (ascii ''server'', f)]"

lemma same_attributes_write:
  "same_attributes (write_query f k type) a \<longleftrightarrow> a (ascii ''server'') = Some f \<and> a (ascii ''user'') = Some k \<and>
     a (ascii ''type'') = Some (type_attribute type) \<and>
     dom a \<subseteq> {ascii ''server'', ascii ''user'', ascii ''type'', ascii ''xdg:schema''}"
  by (auto simp: same_attributes_def write_query_def map_le_def)

lemma holds_same_attributes:
  assumes "tidy items" and "holds items i f k type t"
  shows "\<exists>b u. items i = Some (b, u) \<and> same_attributes (write_query f k type) b"
proof -
  obtain a where a: "items i = Some (a, Some (t, ascii ''text/plain''))" "a (ascii ''server'') = Some f"
    "a (ascii ''user'') = Some k" "a (ascii ''type'') = Some (type_attribute type)"
    using assms(2) unfolding holds_def by blast
  then have "client_item (a, Some (t, ascii ''text/plain''))" using assms(1) by (simp add: tidy_def)
  with a show ?thesis by (simp add: same_attributes_write client_item_def)
qed

text \<open>Whatever item the service creates or replaces, the client's items stay tidy, and one entry has changed.\<close>

lemma put_item:
  assumes "tidy items" and "same_attributes (write_query f k type) a" and "type \<in> {PlainText, Base64, MapText}"
    and "\<forall>j type' t'. holds items j f k type' t' \<longrightarrow> type' = type"
    and "if \<exists>j b u. items j = Some (b, u) \<and> same_attributes (write_query f k type) b
      then \<exists>b u. items i = Some (b, u) \<and> same_attributes (write_query f k type) b else items i = None"
    and items': "items' = items(i \<mapsto> (a, Some (t, ascii ''text/plain'')))"
  shows "holds items' i f k type t" and "tidy items'"
    and "(f', k') \<noteq> (f, k) \<Longrightarrow> holds items' j f' k' type' t' \<longleftrightarrow> holds items j f' k' type' t'"
proof -
  have a: "a (ascii ''server'') = Some f" "a (ascii ''user'') = Some k" "a (ascii ''type'') = Some (type_attribute type)"
    "dom a \<subseteq> {ascii ''server'', ascii ''user'', ascii ''type'', ascii ''xdg:schema''}"
    using assms(2) by (simp_all add: same_attributes_write)
  show "holds items' i f k type t" using a assms(3) by (simp add: holds_def items')
  have old: "j = i" if b: "items j = Some (b, v)" "b (ascii ''server'') = Some f" "b (ascii ''user'') = Some k" for j b v
  proof -
    obtain f' k' ty u where h: "holds items j f' k' ty u" "b (ascii ''server'') = Some f'" "b (ascii ''user'') = Some k'"
      using tidy_cases [OF assms(1) b(1)] by metis
    with b have h: "holds items j f k ty u" by simp
    with assms(4) have h: "holds items j f k type u" by blast
    then have "\<exists>j b u. items j = Some (b, u) \<and> same_attributes (write_query f k type) b"
      using holds_same_attributes [OF assms(1)] by blast
    then obtain c x where c: "items i = Some (c, x)" "same_attributes (write_query f k type) c" using assms(5) by auto
    then have "c (ascii ''server'') = Some f" "c (ascii ''user'') = Some k" by (simp_all add: same_attributes_write)
    with c(1) b assms(1) show "j = i" unfolding tidy_def by (metis fst_conv)
  qed
  have own: "i' = i" if "items i' = Some (b, v)" "i' = i \<or> b (ascii ''server'') = a (ascii ''server'') \<and> b (ascii ''user'') = a (ascii ''user'')" for i' b v
    using old [OF that(1)] that(2) a by auto
  have ci: "client_item (a, Some (t, ascii ''text/plain''))" using a assms(3) by (auto simp: client_item_def)
  show "tidy items'"
    unfolding tidy_def
  proof (intro conjI allI impI)
    fix j x assume "items' j = Some x"
    with ci assms(1) show "client_item x" unfolding items' tidy_def by (metis fun_upd_apply option.inject)
  next
    fix m n x y assume x: "items' m = Some x \<and> items' n = Some y \<and> fst x (ascii ''server'') = fst y (ascii ''server'') \<and>
      fst x (ascii ''user'') = fst y (ascii ''user'')"
    show "m = n"
    proof (cases "m = i \<or> n = i")
      case True
      with x own [of m "fst x" "snd x"] own [of n "fst y" "snd y"] show ?thesis
        by (auto simp: items' split: if_splits)
    next
      case False
      with x assms(1) show ?thesis unfolding tidy_def items' by (metis fun_upd_other)
    qed
  qed
  assume "(f', k') \<noteq> (f, k)"
  moreover have "\<not> holds items i f' k' type' t'" if "(f', k') \<noteq> (f, k)"
    using that assms(5) by (auto simp: holds_def same_attributes_write split: if_splits)
  ultimately show "holds items' j f' k' type' t' \<longleftrightarrow> holds items j f' k' type' t'"
    using a by (auto simp: holds_def items')
qed

definition encoded :: "'s libsecret \<Rightarrow> value_type \<Rightarrow> bytes \<Rightarrow> bytes" where
  "encoded L type val = cstr (if type = Base64 then ls_toBase64 L val else val)"

lemma write_holds:
  assumes "secret_laws h L view" and "tidy (view (sc_world c) p)" and "linked wallet p c" and "type \<in> {PlainText, Base64, MapText}"
    and "\<forall>j type' t'. holds (view (sc_world c) p) j (c_string h folder) (c_string h key) type' t' \<longrightarrow> type' = type"
    and "client_writeEntry h L name key val type folder wallet c = (True, c')"
  shows "\<exists>i. holds (view (sc_world c') p) i (c_string h folder) (c_string h key) type (encoded L type val)"
    and "tidy (view (sc_world c') p)" and "linked wallet p c'" and "sc_signals c' = sc_signals c"
    and "(f', k') \<noteq> (c_string h folder, c_string h key) \<Longrightarrow>
      holds (view (sc_world c') p) j f' k' type' t' \<longleftrightarrow> holds (view (sc_world c) p) j f' k' type' t'"
proof -
  let ?q = "write_query (c_string h folder) (c_string h key) type" and ?w = "sc_world c"
  have cl: "codec_law h L" "create_law L view" using assms(1) by (simp_all add: secret_laws_def)
  obtain w' where w: "ls_createItem L (Some p) ?q (c_string h name) (encoded L type val, ascii ''text/plain'') ?w = (True, w')"
    and c': "c' = c\<lparr>sc_updateInProgress := True, sc_world := w'\<rparr>"
    using assms(4,6)
    by (auto simp: client_writeEntry_def linked_simps [OF assms(3)] on_world_def Let_def encoded_def write_query_def
        c_string_type [OF cl(1)] split: prod.splits)
  obtain i a where i: "view w' = (view ?w)(p := (view ?w p)(i \<mapsto> (a, Some (encoded L type val, ascii ''text/plain''))))"
    "same_attributes ?q a" "if \<exists>j b u. view ?w p j = Some (b, u) \<and> same_attributes ?q b
      then \<exists>b u. view ?w p i = Some (b, u) \<and> same_attributes ?q b else view ?w p i = None"
    using cl(2) w unfolding create_law_def by blast
  note put = put_item [OF assms(2) i(2) assms(4) assms(5) i(3) refl, where t = "encoded L type val"]
  have v: "view (sc_world c') p = (view ?w p)(i \<mapsto> (a, Some (encoded L type val, ascii ''text/plain'')))"
    by (simp add: c' i(1))
  show "\<exists>i. holds (view (sc_world c') p) i (c_string h folder) (c_string h key) type (encoded L type val)"
    unfolding v using put(1) by blast
  show "tidy (view (sc_world c') p)" unfolding v using put(2) by blast
  show "linked wallet p c'" "sc_signals c' = sc_signals c" using assms(3) by (simp_all add: c' linked_def)
  show "holds (view (sc_world c') p) j f' k' type' t' \<longleftrightarrow> holds (view (sc_world c) p) j f' k' type' t'"
    if "(f', k') \<noteq> (c_string h folder, c_string h key)"
    unfolding v using put(3) [OF that] by blast
qed

section \<open>Deleting and renaming\<close>

lemma delete_holds:
  assumes "secret_laws h L view" and "searches_answered L" and "tidy (view (sc_world c) p)" and "linked wallet p c"
    and "holds (view (sc_world c) p) i (c_string h folder) (c_string h key) type t"
    and "client_deleteEntry h L key folder wallet c = (True, c')"
  shows "view (sc_world c') p = (view (sc_world c) p)(i := None)" and "linked wallet p c'" and "sc_signals c' = sc_signals c"
    and "tidy (view (sc_world c') p)"
proof -
  have "ls_search L (sc_world c) (Some p) (item_query h key UnknownText folder) = Some [i]"
    using search_holds [OF assms(1-3,5), of UnknownText] by simp
  then obtain w' where w: "ls_deleteItem L i (sc_world c) = (True, w')" and c': "c' = c\<lparr>sc_updateInProgress := True, sc_world := w'\<rparr>"
    using assms(6)
    by (auto simp: client_deleteEntry_def retrieveItem_def linked_simps [OF assms(4)] on_world_def Let_def split: prod.splits)
  have "view (sc_world c) p i \<noteq> None" using assms(5) by (auto simp: holds_def)
  with w assms(1) have v: "view w' p = (view (sc_world c) p)(i := None)" unfolding secret_laws_def delete_law_def by blast
  then show "view (sc_world c') p = (view (sc_world c) p)(i := None)" by (simp add: c')
  show "linked wallet p c'" "sc_signals c' = sc_signals c" using assms(4) by (simp_all add: c' linked_def)
  have "tidy ((view (sc_world c) p)(i := None))"
    using assms(3) unfolding tidy_def by (auto split: if_splits)
  then show "tidy (view (sc_world c') p)" by (simp add: c' v)
qed

lemma holds_without: "holds (items(i := None)) j f k type t \<longleftrightarrow> j \<noteq> i \<and> holds items j f k type t"
  by (auto simp: holds_def)

text \<open>The text of an entry that is renamed is encoded as if it were the value.\<close>

lemma rename_holds:
  assumes "secret_laws h L view" and "searches_answered L" and "tidy (view (sc_world c) p)" and "linked wallet p c"
    and "holds (view (sc_world c) p) i (c_string h folder) (c_string h old) type t"
    and "client_renameEntry h L name old new folder wallet c = (True, c')"
  shows "\<exists>i. holds (view (sc_world c') p) i (c_string h folder) (c_string h new) type (encoded L type (cstr t))"
    and "\<And>j type' t'. \<not> holds (view (sc_world c') p) j (c_string h folder) (c_string h old) type' t'"
    and "linked wallet p c'" and "tidy (view (sc_world c') p)"
proof -
  let ?w = "sc_world c" and ?f = "c_string h folder"
  have cl: "codec_law h L" "item_law L view" using assms(1) by (simp_all add: secret_laws_def)
  obtain a where a: "view ?w p i = Some (a, Some (t, ascii ''text/plain''))" "a (ascii ''type'') = Some (type_attribute type)"
    "type \<in> {PlainText, Base64, MapText}" using assms(5) unfolding holds_def by blast
  obtain l where l: "ls_attributes L ?w i = Some l" "map_of l = a" "ls_secret L ?w i = Some (t, ascii ''text/plain'')"
    using cl(2) a(1) unfolding item_law_def by fastforce
  have ty: "stringToType (fromUtf8 h (type_attribute type)) = type"
    using a(3) by (auto simp: fromUtf8_ascii(5) [OF cl(1)] stringToType_def type_name_def qs_def)
  have tx: "ls_text L (t, ascii ''text/plain'') = Some t" using cl(1) by (simp add: codec_law_def)
  have so: "ls_search L ?w (Some p) (item_query h old UnknownText folder) = Some [i]"
    using search_holds [OF assms(1-3,5), of UnknownText] by simp
  obtain js where js: "ls_search L ?w (Some p) (item_query h new UnknownText folder) = Some js"
    "\<And>j. j \<in> set js \<longleftrightarrow> (\<exists>type t. holds (view ?w p) j ?f (c_string h new) type t)"
    using search_items [OF assms(1-3), of new UnknownText folder] by metis
  obtain c1 where c1: "js = []" "client_deleteEntry h L old folder wallet c = (True, c1)"
    "client_writeEntry h L name new (cstr t) type folder wallet c1 = (True, c')"
    using assms(6) a(3) l(3)
    by (cases js) (auto simp: client_renameEntry_def retrieveItem_def linked_simps [OF assms(4)] so js(1) l(1,2) a(2) ty tx Let_def
        split: prod.splits if_splits)
  note del = delete_holds [OF assms(1-5) c1(2)]
  have none: "\<not> holds (view (sc_world c1) p) j ?f (c_string h new) type' t'" for j type' t'
    using js(2) [of j] c1(1) by (auto simp: del(1) holds_without)
  then have ok: "\<forall>j type' t'. holds (view (sc_world c1) p) j ?f (c_string h new) type' t' \<longrightarrow> type' = type" by blast
  note wr = write_holds [OF assms(1) del(4,2) a(3) ok c1(3)]
  show "\<exists>i. holds (view (sc_world c') p) i ?f (c_string h new) type (encoded L type (cstr t))" by (rule wr(1))
  show "linked wallet p c'" "tidy (view (sc_world c') p)" using wr by blast+
  have "c_string h old \<noteq> c_string h new" using assms(5) js(2) [of i] c1(1) by auto
  then have "holds (view (sc_world c') p) j ?f (c_string h old) type' t' \<longleftrightarrow> holds (view (sc_world c1) p) j ?f (c_string h old) type' t'" for j type' t'
    by (intro wr(5)) simp
  then show "\<not> holds (view (sc_world c') p) j ?f (c_string h old) type' t'" for j type' t'
    using holds_unique [OF assms(3,5)] by (auto simp: del(1) holds_without)
qed

end
