(* ===== verification/SecretExample.thy ===== *)
theory SecretExample
  imports SecretProps "HOL-Library.AList"
begin

text \<open>
  A service on which the laws hold, for closed examples: its state is the list of the items ever made, with \<open>None\<close> for
  those that were deleted; an item's path has as many characters as there are older items.  There is one collection,
  labelled \<open>w\<close>, and nothing is locked.
\<close>

type_synonym shelf = "(qstring \<times> attribute_table \<times> secret_value) option list"

definition shelf_at :: "shelf \<Rightarrow> qstring \<Rightarrow> (qstring \<times> attribute_table \<times> secret_value) option" where
  "shelf_at w i = (if i = replicate (length i) slash \<and> length i < length w then w ! length i else None)"

definition shelf_view :: "shelf view" where
  "shelf_view w p i = (case shelf_at w i of None \<Rightarrow> None | Some (q, a, v) \<Rightarrow> if q = p then Some (map_of a, Some v) else None)"

definition shelf_find :: "shelf \<Rightarrow> qstring \<Rightarrow> ((bytes \<Rightarrow> bytes option) \<Rightarrow> bool) \<Rightarrow> qstring list" where
  "shelf_find w p P =
     filter (\<lambda>i. case shelf_view w p i of None \<Rightarrow> False | Some (a, v) \<Rightarrow> P a) (map (\<lambda>n. replicate n slash) [0..<length w])"

definition shelf_create :: "qstring option \<Rightarrow> attribute_table \<Rightarrow> bytes \<Rightarrow> secret_value \<Rightarrow> shelf \<Rightarrow> bool \<times> shelf" where
  "shelf_create c q label v w =
     (case c of
        None \<Rightarrow> (True, w)
      | Some p \<Rightarrow>
          (case shelf_find w p (same_attributes q) of
             [] \<Rightarrow> (True, w @ [Some (p, q, v)])
           | i # _ \<Rightarrow> (True, w[length i := Some (p, q, v)])))"

definition doubled :: "bytes \<Rightarrow> bytes" where
  "doubled b = concat (map (\<lambda>x. if x = 0 then [1, 1] else [2, x]) b)"

fun undoubled :: "bytes \<Rightarrow> bytes" where
  "undoubled (x # y # r) = (if x = 1 then 0 else y) # undoubled r"
| "undoubled _ = []"

definition shelf_service :: "shelf libsecret" where
  "shelf_service =
     \<lparr>ls_get = Pair True, ls_load = Pair True, ls_collections = (\<lambda>w. [qs ''/c'']), ls_label = (\<lambda>w p. ascii ''w''),
      ls_items = (\<lambda>w p. shelf_find w p (\<lambda>_. True)),
      ls_search = (\<lambda>w p q. Some (case p of None \<Rightarrow> [] | Some p \<Rightarrow> shelf_find w p (\<lambda>a. map_of q \<subseteq>\<^sub>m a))),
      ls_attributes = (\<lambda>w i. map_option (\<lambda>(p, a, v). AList.clearjunk a) (shelf_at w i)),
      ls_secret = (\<lambda>w i. map_option (\<lambda>(p, a, v). v) (shelf_at w i)),
      ls_text = (\<lambda>v. if snd v = ascii ''text/plain'' then Some (fst v) else None),
      ls_collectionLocked = (\<lambda>w p. False), ls_itemLocked = (\<lambda>w i. False),
      ls_unlock = (\<lambda>p. Pair (True, True)), ls_loadSecret = (\<lambda>i. Pair True),
      ls_createItem = shelf_create, ls_deleteItem = (\<lambda>i w. (True, w[length i := None])),
      ls_createCollection = (\<lambda>n. Pair True), ls_deleteCollection = (\<lambda>p. Pair (True, True)),
      ls_setAlias = (\<lambda>n p. Pair (True, True)),
      ls_busLabel = (\<lambda>w p. Some (qs ''w'')), ls_busLocked = (\<lambda>w p. Some False), ls_readAlias = (\<lambda>w. Some (qs ''/c'')),
      ls_toBase64 = doubled, ls_fromBase64 = undoubled, ls_random = (\<lambda>n. of_nat n + 1)\<rparr>"

lemma shelf_view_path: "shelf_view w p i = Some x \<Longrightarrow> i = replicate (length i) slash \<and> length i < length w"
  by (auto simp: shelf_view_def shelf_at_def split: if_splits option.splits)

lemma shelf_find:
  shows "set (shelf_find w p P) = {i. \<exists>a v. shelf_view w p i = Some (a, v) \<and> P a}" and "distinct (shelf_find w p P)"
proof -
  have "i \<in> set (map (\<lambda>n. replicate n slash) [0..<length w])" if "shelf_view w p i = Some x" for i x
    using shelf_view_path [OF that] by (metis (no_types, lifting) atLeast0LessThan imageI lessThan_iff list.set_map set_upt)
  then show "set (shelf_find w p P) = {i. \<exists>a v. shelf_view w p i = Some (a, v) \<and> P a}"
    unfolding shelf_find_def by (auto split: option.splits)
  have "inj_on (\<lambda>n. replicate n slash) A" for A :: "nat set" by (rule inj_onI) (metis length_replicate)
  then show "distinct (shelf_find w p P)" unfolding shelf_find_def by (auto simp: distinct_map intro: distinct_filter)
qed

lemma shelf_update:
  assumes "i = replicate (length i) slash" and "length i < length w"
  shows "shelf_view (w[length i := x]) p = (shelf_view w p)(i := case x of None \<Rightarrow> None | Some (q, a, v) \<Rightarrow> if q = p then Some (map_of a, Some v) else None)"
proof
  fix j
  have "j = i" if "j = replicate (length j) slash" "length j = length i" using that assms(1) by metis
  then show "shelf_view (w[length i := x]) p j =
      ((shelf_view w p)(i := case x of None \<Rightarrow> None | Some (q, a, v) \<Rightarrow> if q = p then Some (map_of a, Some v) else None)) j"
    using assms by (cases "j = i") (auto simp: shelf_view_def shelf_at_def nth_list_update)
qed

lemma shelf_append:
  "shelf_view (w @ [Some (q, a, v)]) p = (if q = p then (shelf_view w p)(replicate (length w) slash \<mapsto> (map_of a, Some v)) else shelf_view w p)"
proof
  fix j
  have m: "j = replicate (length j) slash \<Longrightarrow> length j < Suc (length w) \<Longrightarrow> j \<noteq> replicate (length w) slash \<Longrightarrow> length j < length w"
    by (metis less_Suc_eq)
  show "shelf_view (w @ [Some (q, a, v)]) p j =
      (if q = p then (shelf_view w p)(replicate (length w) slash \<mapsto> (map_of a, Some v)) else shelf_view w p) j"
  proof (cases "j = replicate (length w) slash")
    case True
    then show ?thesis by (simp add: shelf_view_def shelf_at_def)
  next
    case False
    then have "shelf_at (w @ [Some (q, a, v)]) j = shelf_at w j"
      using m by (auto simp: shelf_at_def nth_append)
    with False show ?thesis by (simp add: shelf_view_def)
  qed
qed

lemma undoubled_doubled [simp]: "undoubled (doubled b) = b"
  by (induction b) (auto simp: doubled_def)

lemma doubled_nonzero: "0 \<notin> set (doubled b)"
  by (induction b) (auto simp: doubled_def)

lemma shelf_one_place: "shelf_view w p i = Some x \<Longrightarrow> q \<noteq> p \<Longrightarrow> shelf_view w q i = None"
  by (auto simp: shelf_view_def split: option.splits if_splits)

lemma shelf_create_law: "create_law shelf_service shelf_view"
  unfolding create_law_def
proof (intro allI impI)
  fix w w' p q l v
  assume "ls_createItem shelf_service (Some p) q l v w = (True, w')"
  then have c: "shelf_create (Some p) q l v w = (True, w')" by (simp add: shelf_service_def)
  have q: "same_attributes q (map_of q)" by (auto simp: same_attributes_def dom_map_of_conv_image_fst)
  note s = shelf_find(1) [of w p "same_attributes q"]
  show "\<exists>i a. shelf_view w' = (shelf_view w)(p := (shelf_view w p)(i \<mapsto> (a, Some v))) \<and> same_attributes q a \<and>
       (if \<exists>j b u. shelf_view w p j = Some (b, u) \<and> same_attributes q b
        then \<exists>b u. shelf_view w p i = Some (b, u) \<and> same_attributes q b else shelf_view w p i = None)"
  proof (cases "shelf_find w p (same_attributes q)")
    case Nil
    have "shelf_view w p (replicate (length w) slash) = None" by (auto simp: shelf_view_def shelf_at_def)
    moreover have "\<not> (\<exists>j b u. shelf_view w p j = Some (b, u) \<and> same_attributes q b)" using s Nil by auto
    moreover have "shelf_view w' = (shelf_view w)(p := (shelf_view w p)(replicate (length w) slash \<mapsto> (map_of q, Some v)))"
      using c Nil by (auto simp: shelf_create_def fun_eq_iff shelf_append)
    ultimately show ?thesis using q by (intro exI [of _ "replicate (length w) slash"] exI [of _ "map_of q"]) simp
  next
    case (Cons i js)
    then have "i \<in> set (shelf_find w p (same_attributes q))" by simp
    then obtain b u where i: "shelf_view w p i = Some (b, u)" "same_attributes q b" unfolding s by blast
    note path = shelf_view_path [OF i(1)]
    have "w' = w[length i := Some (p, q, v)]" using c Cons by (simp add: shelf_create_def)
    then have "shelf_view w' = (shelf_view w)(p := (shelf_view w p)(i \<mapsto> (map_of q, Some v)))"
      using shelf_one_place [OF i(1)] shelf_update [OF conjunct1 [OF path] conjunct2 [OF path]] by (auto simp: fun_eq_iff)
    with q i show ?thesis by (intro exI [of _ i] exI [of _ "map_of q"]) auto
  qed
qed

lemma shelf_codec: "codec_law example_host shelf_service"
proof -
  have "ucast (of_char c :: byte) = (of_char c :: 16 word)" "ucast (of_char c :: 16 word) = (of_char c :: byte)" for c
    by (cases c; simp add: of_char_def)+
  then have "fromUtf8 example_host (ascii s) = qs s" "toUtf8 example_host (qs s) = ascii s" for s
    by (simp_all add: example_host_def ascii_def qs_def comp_def)
  then show ?thesis by (simp add: codec_law_def shelf_service_def doubled_nonzero)
qed

lemma shelf_laws: "secret_laws example_host shelf_service shelf_view"
proof -
  have "search_law shelf_service shelf_view"
    by (auto simp: search_law_def shelf_service_def shelf_find)
  moreover have "item_law shelf_service shelf_view"
    by (auto simp: item_law_def shelf_service_def shelf_view_def distinct_clearjunk map_of_clearjunk split: option.splits if_splits)
  moreover have "delete_law shelf_service shelf_view"
    using shelf_view_path shelf_update [where x = None] by (fastforce simp: delete_law_def shelf_service_def)
  moreover have "quiet_law shelf_service shelf_view" by (simp add: quiet_law_def shelf_service_def)
  ultimately show ?thesis by (simp add: secret_laws_def shelf_create_law shelf_codec)
qed

lemma shelf_answers: "searches_answered shelf_service"
  by (simp add: searches_answered_def shelf_service_def)

end
