(* ===== verification/KWalletDProps.thy ===== *)
theory KWalletDProps
  imports SecretExample
begin

text \<open>
  What the calls of \<open>KWalletD\<close> on entries do, over any Secret Service that keeps its promises: what was written is read,
  no other entry changes, and the errors of renaming.
\<close>

section \<open>A wallet that an application has opened\<close>

definition kw_items :: "'s view \<Rightarrow> qstring \<Rightarrow> 's kwalletd \<Rightarrow> qstring \<Rightarrow> ((bytes \<Rightarrow> bytes option) \<times> secret_value option) option" where
  "kw_items view p s = view (sc_world (kw_backend s)) p"

definition served :: "'s view \<Rightarrow> qstring \<Rightarrow> qstring \<Rightarrow> int \<Rightarrow> qstring \<Rightarrow> 's kwalletd \<Rightarrow> bool" where
  "served view wallet p handle appId s \<longleftrightarrow> wallet \<noteq> [] \<and> walletForHandle handle appId s = wallet \<and>
     linked wallet p (kw_backend s) \<and> tidy (kw_items view p s)"

definition entry_in :: "host \<Rightarrow> 's view \<Rightarrow> qstring \<Rightarrow> 's kwalletd \<Rightarrow> qstring \<Rightarrow> qstring \<Rightarrow> value_type \<Rightarrow> bytes \<Rightarrow> bool" where
  "entry_in h view p s folder key type t \<longleftrightarrow> (\<exists>i. holds (kw_items view p s) i (c_string h folder) (c_string h key) type t)"

lemma served_parts:
  assumes "served view wallet p handle appId s"
  shows "wallet \<noteq> []" "walletForHandle handle appId s = wallet" "linked wallet p (kw_backend s)"
    "tidy (view (sc_world (kw_backend s)) p)"
  using assms by (simp_all add: served_def kw_items_def)

lemma entry_in_unique:
  assumes "tidy (kw_items view p s)" and "entry_in h view p s folder key type t" and "entry_in h view p s folder key type' t'"
  shows "type' = type \<and> t' = t"
  using holds_unique [OF assms(1)] assms(2,3) unfolding entry_in_def by blast

lemma ask_eq: "ask f s = (fst (f (kw_backend s)), s\<lparr>kw_backend := snd (f (kw_backend s))\<rparr>)"
  by (simp add: ask_def case_prod_beta)

section \<open>Reading\<close>

definition shown :: "desktop \<Rightarrow> 's libsecret \<Rightarrow> value_type \<Rightarrow> bytes \<Rightarrow> bytes" where
  "shown d L type t =
     (case type of
        Base64 \<Rightarrow> ls_fromBase64 L (cstr t)
      | MapText \<Rightarrow> d_streamMap d (d_jsonMap d (cstr t))
      | _ \<Rightarrow> toUtf8 (d_host d) (fromUtf8 (d_host d) (cstr t)))"

lemma keyType_holds:
  assumes "secret_laws h L view" and "searches_answered L" and "tidy (kw_items view p s)" and "linked wallet p (kw_backend s)"
    and "entry_in h view p s folder key type t"
  shows "keyType h L wallet folder key s = (entry_type_of type, s)"
proof -
  obtain i where i: "holds (view (sc_world (kw_backend s)) p) i (c_string h folder) (c_string h key) type t"
    using assms(5) unfolding entry_in_def kw_items_def by blast
  obtain m where m: "readMetadata h L key folder wallet (kw_backend s) = ((m, True), kw_backend s)"
    "m (qs ''type'') = Some (qs (type_name type))"
    using readMetadata_holds [OF assms(1,2) _ assms(4) i] assms(3) unfolding kw_items_def by blast
  have "type \<in> {PlainText, Base64, MapText}" using i by (simp add: holds_def)
  with m show ?thesis
    by (auto simp: keyType_def ask_def entry_type_of_def type_name_def qs_def)
qed

lemma keyType_absent:
  assumes "secret_laws h L view" and "searches_answered L" and "tidy (kw_items view p s)" and "linked wallet p (kw_backend s)"
    and "\<And>type t. \<not> entry_in h view p s folder key type t"
  shows "keyType h L wallet folder key s = (Unknown, s)"
proof -
  have "ls_search L (sc_world (kw_backend s)) (Some p) (item_query h key UnknownText folder) = Some []"
    using search_absent [OF assms(1,2)] assms(3,5) unfolding entry_in_def kw_items_def by blast
  then show ?thesis
    by (simp add: keyType_def ask_def readMetadata_def retrieveItem_def linked_simps [OF assms(4)])
qed

lemma readEntry_holds:
  assumes "secret_laws (d_host d) L view" and "searches_answered L" and "served view wallet p handle appId s"
    and "entry_in (d_host d) view p s folder key type t"
  shows "KWalletD_readEntry d L handle folder key appId s = (shown d L type t, s)"
proof -
  note sv = served_parts [OF assms(3)]
  obtain i where i: "holds (view (sc_world (kw_backend s)) p) i (c_string (d_host d) folder) (c_string (d_host d) key) type t"
    using assms(4) unfolding entry_in_def kw_items_def by blast
  have k: "keyType (d_host d) L wallet folder key s = (entry_type_of type, s)"
    using keyType_holds [OF assms(1,2) _ sv(3) assms(4)] sv(4) by (simp add: kw_items_def)
  have r: "client_readEntry (d_host d) L key want folder wallet (kw_backend s) =
      ((if want = type then (value_as L type (Some (t, ascii ''text/plain'')), True) else ([], False)), kw_backend s)"
    if "want \<noteq> UnknownText" for want
    using read_holds [OF assms(1,2) sv(4,3) i that] .
  have t: "ls_text L (t, ascii ''text/plain'') = Some t" using assms(1) by (simp add: secret_laws_def codec_law_def)
  have "type \<in> {PlainText, Base64, MapText}" using i by (simp add: holds_def)
  then show ?thesis
    using sv(1,2) k
    by (auto simp: KWalletD_readEntry_def read_typed_def KWalletD_readMap_def readBinary_def readString_def ask_def r t shown_def
        value_as_def entry_type_of_def entry_type_defs Let_def)
qed

lemma readEntry_absent:
  assumes "secret_laws (d_host d) L view" and "searches_answered L" and "served view wallet p handle appId s"
    and "\<And>type t. \<not> entry_in (d_host d) view p s folder key type t"
  shows "KWalletD_readEntry d L handle folder key appId s = (toUtf8 (d_host d) (fromUtf8 (d_host d) []), s)"
proof -
  note sv = served_parts [OF assms(3)]
  have k: "keyType (d_host d) L wallet folder key s = (Unknown, s)"
    using keyType_absent [OF assms(1,2) _ sv(3)] sv(4) assms(4) by (simp add: kw_items_def)
  have "client_readEntry (d_host d) L key PlainText folder wallet (kw_backend s) = (([], False), kw_backend s)"
    using read_absent [OF assms(1,2) sv(4,3)] assms(4) unfolding entry_in_def kw_items_def by blast
  then show ?thesis
    using sv(1,2) k by (simp add: KWalletD_readEntry_def read_typed_def readString_def ask_def entry_type_defs)
qed

section \<open>Writing\<close>

definition value_type_of :: "entry_type \<Rightarrow> value_type" where
  "value_type_of type = (if type = Stream then Base64 else if type = Map then MapText else PlainText)"

definition given :: "desktop \<Rightarrow> entry_type \<Rightarrow> bytes \<Rightarrow> bytes" where
  "given d type val =
     (if type = Stream then val else if type = Map then d_mapJson d (d_unstreamMap d val)
      else toUtf8 (d_host d) (fromUtf8 (d_host d) val))"

lemma value_type_of_cases: "value_type_of type \<in> {PlainText, Base64, MapText}"
  by (simp add: value_type_of_def)

lemma write_typed_holds:
  assumes "secret_laws (d_host d) L view" and "tidy (kw_items view p s)" and "linked wallet p (kw_backend s)"
    and "\<forall>type' t'. entry_in (d_host d) view p s folder key type' t' \<longrightarrow> type' = value_type_of type"
    and "write_typed d L key val type folder wallet s = (Some True, s')"
  shows "entry_in (d_host d) view p s' folder key (value_type_of type) (encoded L (value_type_of type) (given d type val))"
    and "tidy (kw_items view p s')" and "linked wallet p (kw_backend s')"
    and "(c_string (d_host d) f', c_string (d_host d) k') \<noteq> (c_string (d_host d) folder, c_string (d_host d) key) \<Longrightarrow>
      entry_in (d_host d) view p s' f' k' type' t' \<longleftrightarrow> entry_in (d_host d) view p s f' k' type' t'"
    and "\<exists>c'. s' = s\<lparr>kw_backend := c'\<rparr>"
proof -
  obtain c' where c': "client_writeEntry (d_host d) L (folderPath folder key) key (given d type val) (value_type_of type) folder wallet (kw_backend s) = (True, c')"
    "s' = s\<lparr>kw_backend := c'\<rparr>"
    using assms(5) by (auto simp: write_typed_def writeString_def writeBinary_def writeRawJson_def ask_def given_def
        value_type_of_def entry_type_defs split: if_splits prod.splits)
  note w = write_holds [OF assms(1) _ assms(3) value_type_of_cases _ c'(1)]
  have t: "tidy (view (sc_world (kw_backend s)) p)" using assms(2) by (simp add: kw_items_def)
  have o: "\<forall>j type' t'. holds (view (sc_world (kw_backend s)) p) j (c_string (d_host d) folder) (c_string (d_host d) key) type' t' \<longrightarrow>
      type' = value_type_of type"
    using assms(4) unfolding entry_in_def kw_items_def by blast
  show "entry_in (d_host d) view p s' folder key (value_type_of type) (encoded L (value_type_of type) (given d type val))"
    using w(1) [OF t o] by (simp add: entry_in_def kw_items_def c'(2))
  show "tidy (kw_items view p s')" "linked wallet p (kw_backend s')"
    using w(2,3) [OF t o] by (simp_all add: kw_items_def c'(2))
  show "entry_in (d_host d) view p s' f' k' type' t' \<longleftrightarrow> entry_in (d_host d) view p s f' k' type' t'"
    if "(c_string (d_host d) f', c_string (d_host d) k') \<noteq> (c_string (d_host d) folder, c_string (d_host d) key)"
    using w(5) [OF t o that] by (simp add: entry_in_def kw_items_def c'(2))
  show "\<exists>c'. s' = s\<lparr>kw_backend := c'\<rparr>" using c'(2) by blast
qed

text \<open>The lists that are asked for before the write change nothing.\<close>

definition same_wallets :: "'s view \<Rightarrow> 's kwalletd \<Rightarrow> 's kwalletd \<Rightarrow> bool" where
  "same_wallets view s s' \<longleftrightarrow> view (sc_world (kw_backend s')) = view (sc_world (kw_backend s)) \<and>
     kw_openWallets s' = kw_openWallets s \<and> (\<forall>wallet p. linked wallet p (kw_backend s) \<longrightarrow> linked wallet p (kw_backend s'))"

lemma ask_listEntries_same:
  assumes "secret_laws h L view" and "sc_service (kw_backend s)"
  shows "same_wallets view s (snd (ask (listEntries h L folder n) s))"
proof -
  have "calm_client view (kw_backend s) (snd (listEntries h L folder n (kw_backend s)))"
    using listEntries_calm assms unfolding secret_laws_def by blast
  then show ?thesis by (simp add: same_wallets_def calm_client_def ask_eq)
qed

lemma served_same: "same_wallets view s s' \<Longrightarrow> served view wallet p handle appId s \<Longrightarrow> served view wallet p handle appId s'"
  by (simp add: same_wallets_def served_def kw_items_def walletForHandle_def)

lemma entry_in_same: "same_wallets view s s' \<Longrightarrow> entry_in h view p s' = entry_in h view p s"
  by (simp add: same_wallets_def entry_in_def kw_items_def fun_eq_iff)

lemma writeEntry_steps:
  assumes "secret_laws (d_host d) L view" and "served view wallet p handle appId s"
    and "KWalletD_writeEntry d L handle folder key val type appId s = (0, s')"
  obtains s1 s2 where "same_wallets view s s1" and "write_typed d L key val type folder wallet s1 = (Some True, s2)"
    and "kw_backend s' = kw_backend s2" and "kw_openWallets s' = kw_openWallets s2"
proof -
  note sv = served_parts [OF assms(2)]
  have f: "snd (ask (listFolders (d_host d) L wallet) s) = s"
    using listFolders_linked [OF sv(3)] by (simp add: ask_eq)
  obtain e s1 where e: "ask (listEntries (d_host d) L wallet folder) s = (e, s1)" by fastforce
  have "sc_service (kw_backend s)" using sv(3) by (simp add: linked_def)
  then have s1: "same_wallets view s s1" using ask_listEntries_same [OF assms(1)] e by (metis snd_conv)
  obtain x s2 where w: "write_typed d L key val type folder wallet s1 = (x, s2)" by fastforce
  obtain y where y: "ask (listFolders (d_host d) L wallet) s = (y, s)" using f by (cases "ask (listFolders (d_host d) L wallet) s") auto
  have "x = Some True \<and> kw_backend s' = kw_backend s2 \<and> kw_openWallets s' = kw_openWallets s2"
    using assms(3) sv(1,2) y e w
    by (auto simp: KWalletD_writeEntry_def Let_def kw_emit_def structure_insert_def split: if_splits prod.splits)
  with that s1 w show thesis by blast
qed

end
