(* ===== verification/KWalletDClaims.thy ===== *)
theory KWalletDClaims
  imports KWalletDProps
begin

text \<open>
  The entries of applications behind \<open>KWalletD\<close>: what is written is read, and what renaming makes of it.
\<close>

section \<open>Written and read\<close>

text \<open>A value that can be kept: any bytes as such, a text without null characters, or a map that its JSON text gives back.\<close>

definition keepable :: "desktop \<Rightarrow> entry_type \<Rightarrow> bytes \<Rightarrow> bool" where
  "keepable d type val \<longleftrightarrow>
     type = Stream \<or>
     type = Password \<and> 0 \<notin> set val \<and> toUtf8 (d_host d) (fromUtf8 (d_host d) val) = val \<or>
     type = Map \<and> 0 \<notin> set (d_mapJson d (d_unstreamMap d val)) \<and>
       d_jsonMap d (d_mapJson d (d_unstreamMap d val)) = d_unstreamMap d val \<and> d_streamMap d (d_unstreamMap d val) = val"

lemma shown_given:
  assumes "secret_laws (d_host d) L view" and "keepable d type val"
  shows "shown d L (value_type_of type) (encoded L (value_type_of type) (given d type val)) = val"
proof -
  have "ls_fromBase64 L (ls_toBase64 L val) = val" "0 \<notin> set (ls_toBase64 L val)"
    using assms(1) by (simp_all add: secret_laws_def codec_law_def)
  with assms(2) show ?thesis
    by (auto simp: keepable_def shown_def encoded_def given_def value_type_of_def cstr_nonzero entry_type_defs)
qed

lemma writeEntry_holds:
  assumes "secret_laws (d_host d) L view" and "served view wallet p handle appId s"
    and "\<forall>type' t'. entry_in (d_host d) view p s folder key type' t' \<longrightarrow> type' = value_type_of type"
    and "KWalletD_writeEntry d L handle folder key val type appId s = (0, s')"
  shows "served view wallet p handle appId s'"
    and "entry_in (d_host d) view p s' folder key (value_type_of type) (encoded L (value_type_of type) (given d type val))"
    and "(c_string (d_host d) f', c_string (d_host d) k') \<noteq> (c_string (d_host d) folder, c_string (d_host d) key) \<Longrightarrow>
      entry_in (d_host d) view p s' f' k' type' t' \<longleftrightarrow> entry_in (d_host d) view p s f' k' type' t'"
proof -
  obtain s1 s2 where s: "same_wallets view s s1" "write_typed d L key val type folder wallet s1 = (Some True, s2)"
    "kw_backend s' = kw_backend s2" "kw_openWallets s' = kw_openWallets s2"
    by (rule writeEntry_steps [OF assms(1,2,4)])
  have s1: "served view wallet p handle appId s1" using served_same [OF s(1) assms(2)] .
  have t1: "tidy (kw_items view p s1)" and l1: "linked wallet p (kw_backend s1)" using s1 by (simp_all add: served_def)
  note w = write_typed_holds [OF assms(1) t1 l1 _ s(2)]
  have o: "\<forall>type' t'. entry_in (d_host d) view p s1 folder key type' t' \<longrightarrow> type' = value_type_of type"
    using assms(3) by (simp add: entry_in_same [OF s(1)])
  have e: "entry_in (d_host d) view p s' = entry_in (d_host d) view p s2" by (simp add: entry_in_def kw_items_def s(3) fun_eq_iff)
  show "served view wallet p handle appId s'"
    using s1 w(2,3,5) [OF o] s(3,4) by (auto simp: served_def kw_items_def walletForHandle_def)
  show "entry_in (d_host d) view p s' folder key (value_type_of type) (encoded L (value_type_of type) (given d type val))"
    unfolding e by (rule w(1) [OF o])
  show "entry_in (d_host d) view p s' f' k' type' t' \<longleftrightarrow> entry_in (d_host d) view p s f' k' type' t'"
    if "(c_string (d_host d) f', c_string (d_host d) k') \<noteq> (c_string (d_host d) folder, c_string (d_host d) key)"
    unfolding e w(4) [OF o that] by (simp add: entry_in_same [OF s(1)])
qed

text \<open>Reading depends only on what the entry holds.\<close>

lemma readEntry_same:
  assumes "secret_laws (d_host d) L view" and "searches_answered L" and "served view wallet p handle appId s"
    and "served view wallet p handle appId s'"
    and "\<And>type t. entry_in (d_host d) view p s' f k type t \<longleftrightarrow> entry_in (d_host d) view p s f k type t"
  shows "fst (KWalletD_readEntry d L handle f k appId s') = fst (KWalletD_readEntry d L handle f k appId s)"
proof (cases "\<exists>type t. entry_in (d_host d) view p s f k type t")
  case True
  then obtain type t where e: "entry_in (d_host d) view p s f k type t" by blast
  with assms(5) have "entry_in (d_host d) view p s' f k type t" by blast
  with e show ?thesis using readEntry_holds [OF assms(1,2)] assms(3,4) by (metis fst_conv)
next
  case False
  with assms(5) have "\<And>type t. \<not> entry_in (d_host d) view p s' f k type t" by blast
  with False show ?thesis using readEntry_absent [OF assms(1,2)] assms(3,4) by (metis fst_conv)
qed

text \<open>C7. An entry that an application writes through a handle it has, and that had no entry of another type before,
  is read back, by type: bytes as they are, a password and a map when they have no null bytes and their text stands for
  them; every entry with another folder or key reads as before.\<close>

theorem kwalletd_write_read:
  assumes "secret_laws (d_host d) L view" and "searches_answered L" and "served view wallet p handle appId s"
    and "\<forall>type' t'. entry_in (d_host d) view p s folder key type' t' \<longrightarrow> type' = value_type_of type"
    and "KWalletD_writeEntry d L handle folder key val type appId s = (0, s')" and "keepable d type val"
  shows "fst (KWalletD_readEntry d L handle folder key appId s') = val \<and> served view wallet p handle appId s' \<and>
    (\<forall>f k. (c_string (d_host d) f, c_string (d_host d) k) \<noteq> (c_string (d_host d) folder, c_string (d_host d) key) \<longrightarrow>
      fst (KWalletD_readEntry d L handle f k appId s') = fst (KWalletD_readEntry d L handle f k appId s))"
proof -
  note w = writeEntry_holds [OF assms(1,3,4,5)]
  have "fst (KWalletD_readEntry d L handle folder key appId s') = val"
    using readEntry_holds [OF assms(1,2) w(1,2)] shown_given [OF assms(1,6)] by simp
  moreover have "fst (KWalletD_readEntry d L handle f k appId s') = fst (KWalletD_readEntry d L handle f k appId s)"
    if "(c_string (d_host d) f, c_string (d_host d) k) \<noteq> (c_string (d_host d) folder, c_string (d_host d) key)" for f k
    using readEntry_same [OF assms(1,2,3) w(1)] w(3) [OF that] by blast
  ultimately show ?thesis using w(1) by blast
qed

definition shelf_client :: "shelf client" where
  "shelf_client = \<lparr>sc_world = [], sc_service = True, sc_openCollections = [(qs ''w'', qs ''/c'')], sc_watchedCollections = [],
     sc_dirtyCollections = [], sc_dirtyTimer = False, sc_serviceBusName = [], sc_useKSecretBackend = False,
     sc_updateInProgress = False, sc_signals = []\<rparr>"

definition shelf_settings :: migration_settings where
  "shelf_settings = \<lparr>set_firstUse = False, set_launchManager = False, set_closeWhenIdle = False, set_idleTimeout = 10,
     set_kSecretDEnabled = False, set_kWalletDEnabled = True, set_useOneWallet = True, set_defaultWallet = qs ''w'',
     set_localWallet = qs ''w'', set_migrateTo3rdParty = False, set_walletsMigrated = []\<rparr>"

definition shelf_daemon :: "shelf kwalletd" where
  "shelf_daemon = \<lparr>kw_backend = shelf_client, kw_structure = [], kw_openWallets = [((5, qs ''app''), qs ''w'')], kw_enabled = True,
     kw_lastTransaction = 0, kw_pending = [], kw_random = 0, kw_settings = shelf_settings, kw_files = Map.empty, kw_signals = []\<rparr>"

lemma shelf_served: "served shelf_view (qs ''w'') (qs ''/c'') 5 (qs ''app'') shelf_daemon"
  and shelf_empty: "\<not> entry_in h shelf_view (qs ''/c'') shelf_daemon f k type t"
proof -
  have v: "shelf_view [] p i = None" for p i by (simp add: shelf_view_def shelf_at_def)
  then show "\<not> entry_in h shelf_view (qs ''/c'') shelf_daemon f k type t"
    by (simp add: entry_in_def kw_items_def holds_def shelf_daemon_def shelf_client_def)
  show "served shelf_view (qs ''w'') (qs ''/c'') 5 (qs ''app'') shelf_daemon"
    by (simp add: served_def shelf_daemon_def shelf_client_def walletForHandle_def qmap_find_def linked_def tidy_def kw_items_def v qs_def
        qmap_wf_def)
qed

lemma example_desktop_host [simp]: "d_host example_desktop = example_host"
  by (simp add: example_desktop_def)

lemma shelf_write:
  "\<exists>s'. KWalletD_writeEntry example_desktop shelf_service 5 (qs ''f'') (qs ''k'') val Stream (qs ''app'') shelf_daemon = (0, s')"
proof -
  have w: "walletForHandle 5 (qs ''app'') shelf_daemon = qs ''w''" "linked (qs ''w'') (qs ''/c'') (kw_backend shelf_daemon)" "qs ''w'' \<noteq> []"
    using served_parts [OF shelf_served] by simp_all
  have f: "snd (listFolders example_host shelf_service (qs ''w'') (kw_backend shelf_daemon)) = kw_backend shelf_daemon"
    using listFolders_linked [OF w(2)] .
  have s: "sc_service (kw_backend shelf_daemon)" using w(2) by (simp add: linked_def)
  let ?c = "snd (listEntries example_host shelf_service (qs ''w'') (qs ''f'') (kw_backend shelf_daemon))"
  have "calm_client shelf_view (kw_backend shelf_daemon) ?c"
    using listEntries_calm s shelf_laws unfolding secret_laws_def by blast
  then have l: "linked (qs ''w'') (qs ''/c'') ?c" using w(2) by (simp add: calm_client_def)
  have "fst (ls_createItem shelf_service (Some q) a n v x)" for q a n v x
    by (simp add: shelf_service_def shelf_create_def split: list.splits)
  then have "fst (client_writeEntry example_host shelf_service (folderPath (qs ''f'') (qs ''k'')) (qs ''k'') val Base64 (qs ''f'') (qs ''w'') ?c)"
    by (simp add: client_writeEntry_def linked_simps [OF l] on_world_def case_prod_beta Let_def)
  then show ?thesis
    by (simp add: KWalletD_writeEntry_def w(1,3) ask_eq write_typed_def writeBinary_def entry_type_defs f case_prod_beta Let_def)
qed

theorem kwalletd_write_read_witness:
  "\<exists>s'. KWalletD_writeEntry example_desktop shelf_service 5 (qs ''f'') (qs ''k'') [0, 255] Stream (qs ''app'') shelf_daemon = (0, s') \<and>
     fst (KWalletD_readEntry example_desktop shelf_service 5 (qs ''f'') (qs ''k'') (qs ''app'') s') = [0, 255]"
proof -
  obtain s' where s': "KWalletD_writeEntry example_desktop shelf_service 5 (qs ''f'') (qs ''k'') [0, 255] Stream (qs ''app'') shelf_daemon = (0, s')"
    using shelf_write by blast
  have "keepable example_desktop Stream [0, 255]" by (simp add: keepable_def)
  moreover have "secret_laws (d_host example_desktop) shelf_service shelf_view" by (simp add: shelf_laws)
  ultimately show ?thesis
    using kwalletd_write_read [OF _ shelf_answers shelf_served _ s'] shelf_empty s' by blast
qed

section \<open>Renaming\<close>

text \<open>A service that carries out every call.\<close>

definition obliging :: "'s libsecret \<Rightarrow> bool" where
  "obliging L \<longleftrightarrow> searches_answered L \<and> (\<forall>p q l v w. fst (ls_createItem L (Some p) q l v w)) \<and> (\<forall>i w. fst (ls_deleteItem L i w))"

lemma obliging_write:
  assumes "obliging L" and "linked wallet p c"
  shows "fst (client_writeEntry h L name key val type folder wallet c)"
  using assms(1) by (simp add: client_writeEntry_def linked_simps [OF assms(2)] on_world_def case_prod_beta Let_def obliging_def)

lemma obliging_delete:
  assumes "obliging L" and "secret_laws h L view" and "tidy (view (sc_world c) p)" and "linked wallet p c"
    and "holds (view (sc_world c) p) i (c_string h folder) (c_string h key) type t"
  shows "fst (client_deleteEntry h L key folder wallet c)"
proof -
  have "searches_answered L" using assms(1) by (simp add: obliging_def)
  from search_holds [OF assms(2) this assms(3,5), of UnknownText] assms(1) show ?thesis
    by (simp add: client_deleteEntry_def retrieveItem_def linked_simps [OF assms(4)] on_world_def case_prod_beta obliging_def)
qed

lemma obliging_rename:
  assumes "obliging L" and "secret_laws h L view" and "tidy (view (sc_world c) p)" and "linked wallet p c"
    and "holds (view (sc_world c) p) i (c_string h folder) (c_string h old) type t"
    and "\<And>j type' t'. \<not> holds (view (sc_world c) p) j (c_string h folder) (c_string h new) type' t'"
  shows "fst (client_renameEntry h L name old new folder wallet c)"
proof -
  have sa: "searches_answered L" using assms(1) by (simp add: obliging_def)
  obtain a where a: "view (sc_world c) p i = Some (a, Some (t, ascii ''text/plain''))" using assms(5) unfolding holds_def by blast
  obtain l where l: "ls_attributes L (sc_world c) i = Some l" "ls_secret L (sc_world c) i = Some (t, ascii ''text/plain'')"
    using assms(2) a unfolding secret_laws_def item_law_def by fastforce
  have s: "ls_search L (sc_world c) (Some p) (item_query h old UnknownText folder) = Some [i]"
    "ls_search L (sc_world c) (Some p) (item_query h new UnknownText folder) = Some []"
    using search_holds [OF assms(2) sa assms(3,5), of UnknownText] search_absent [OF assms(2) sa assms(3,6)] by simp_all
  have d: "fst (client_deleteEntry h L old folder wallet c)" by (rule obliging_delete [OF assms(1-5)])
  have "linked wallet p (snd (client_deleteEntry h L old folder wallet c))"
    by (rule delete_holds(2) [OF assms(2) sa assms(3-5)]) (use d in \<open>simp add: prod_eq_iff\<close>)
  from obliging_write [OF assms(1) this] show ?thesis
    by (simp add: client_renameEntry_def retrieveItem_def linked_simps [OF assms(4)] s l case_prod_beta d Let_def)
qed

text \<open>C36. Renaming an entry to a free key moves it: the old key has none, and a password or a map reads as before under
  the new one.  An entry of bytes does not: what is read is the base64 text of the bytes, since the kept text is encoded
  a second time.\<close>

theorem kwalletd_rename:
  assumes "secret_laws (d_host d) L view" and "obliging L" and "served view wallet p handle appId s"
    and "entry_in (d_host d) view p s folder old (value_type_of type) (encoded L (value_type_of type) (given d type val))"
    and "\<And>type t. \<not> entry_in (d_host d) view p s folder new type t"
  shows "\<exists>s'. KWalletD_renameEntry (d_host d) L handle folder old new appId s = (0, s') \<and> served view wallet p handle appId s' \<and>
    (\<forall>type t. \<not> entry_in (d_host d) view p s' folder old type t) \<and>
    fst (KWalletD_readEntry d L handle folder new appId s') =
      (if type = Stream then ls_toBase64 L val else fst (KWalletD_readEntry d L handle folder old appId s))"
proof -
  let ?h = "d_host d" and ?c = "kw_backend s" and ?ty = "value_type_of type" and ?t = "encoded L (value_type_of type) (given d type val)"
  note sv = served_parts [OF assms(3)]
  have sa: "searches_answered L" using assms(2) by (simp add: obliging_def)
  obtain i where i: "holds (view (sc_world ?c) p) i (c_string ?h folder) (c_string ?h old) ?ty ?t"
    using assms(4) unfolding entry_in_def kw_items_def by blast
  have n: "\<not> holds (view (sc_world ?c) p) j (c_string ?h folder) (c_string ?h new) ty t" for j ty t
    using assms(5) unfolding entry_in_def kw_items_def by blast
  let ?r = "client_renameEntry ?h L (folderPath folder new) old new folder wallet ?c"
  define s' where "s' = s\<lparr>kw_backend := snd ?r\<rparr>"
  have ok: "fst ?r" by (rule obliging_rename [OF assms(2,1) sv(4,3) i n])
  then have r: "?r = (True, snd ?r)" by (simp add: prod_eq_iff)
  note m = rename_holds [OF assms(1) sa sv(4,3) i r]
  have e: "entry_in ?h view p s' folder new ?ty (encoded L ?ty (cstr ?t))"
    using m(1) by (simp add: entry_in_def kw_items_def s'_def)
  have s': "served view wallet p handle appId s'"
    using m(3,4) assms(3) by (simp add: served_def kw_items_def walletForHandle_def s'_def)
  have "KWalletD_renameEntry ?h L handle folder old new appId s = (0, s')"
    using sv(1,2) ok by (simp add: KWalletD_renameEntry_def ask_eq s'_def case_prod_beta Let_def)
  moreover have "\<not> entry_in ?h view p s' folder old ty t" for ty t
    using m(2) by (simp add: entry_in_def kw_items_def s'_def)
  moreover have b: "ls_fromBase64 L (ls_toBase64 L b) = b" "0 \<notin> set (ls_toBase64 L b)" for b
    using assms(1) by (simp_all add: secret_laws_def codec_law_def)
  have "shown d L ?ty (encoded L ?ty (cstr ?t)) = (if type = Stream then ls_toBase64 L val else shown d L ?ty ?t)"
    by (simp add: shown_def encoded_def value_type_of_def given_def b cstr_nonzero entry_type_defs)
  then have "fst (KWalletD_readEntry d L handle folder new appId s') =
      (if type = Stream then ls_toBase64 L val else fst (KWalletD_readEntry d L handle folder old appId s))"
    using readEntry_holds [OF assms(1) sa s' e] readEntry_holds [OF assms(1) sa assms(3,4)] by simp
  ultimately show ?thesis using s' by blast
qed

lemma shelf_obliging: "obliging shelf_service"
  unfolding obliging_def using shelf_answers
  by (simp add: shelf_service_def shelf_create_def split: list.splits)

theorem kwalletd_rename_witness:
  "\<exists>s s'. KWalletD_renameEntry example_host shelf_service 5 (qs ''f'') (qs ''k'') (qs ''m'') (qs ''app'') s = (0, s') \<and>
     fst (KWalletD_readEntry example_desktop shelf_service 5 (qs ''f'') (qs ''m'') (qs ''app'') s') = doubled [0, 255]"
proof -
  have l: "secret_laws (d_host example_desktop) shelf_service shelf_view" by (simp add: shelf_laws)
  obtain s where s: "KWalletD_writeEntry example_desktop shelf_service 5 (qs ''f'') (qs ''k'') [0, 255] Stream (qs ''app'') shelf_daemon = (0, s)"
    using shelf_write by blast
  have o: "\<forall>type' t'. entry_in (d_host example_desktop) shelf_view (qs ''/c'') shelf_daemon (qs ''f'') (qs ''k'') type' t' \<longrightarrow>
      type' = value_type_of Stream" using shelf_empty by blast
  note w = writeEntry_holds [OF l shelf_served o s]
  have "c_string example_host (qs ''m'') \<noteq> c_string example_host (qs ''k'')"
    by (simp add: c_string_def cstr_def example_host_def qs_def)
  then have n: "\<not> entry_in (d_host example_desktop) shelf_view (qs ''/c'') s (qs ''f'') (qs ''m'') ty t" for ty t
    using w(3) [of "qs ''f''" "qs ''m''" ty t] shelf_empty by auto
  have "ls_toBase64 shelf_service [0, 255] = doubled [0, 255]" by (simp add: shelf_service_def)
  with kwalletd_rename [OF l shelf_obliging w(1,2) n] show ?thesis by fastforce
qed

end
