(* ===== verification/KWalletDSessions.thy ===== *)
theory KWalletDSessions
  imports KWalletDClaims
begin

text \<open>
  Which applications have which wallets open behind \<open>KWalletD\<close>: opening, closing and the signals they send; and the
  calls through a handle that an application does not have.
\<close>

section \<open>Closing\<close>

lemma fold_emit_signals: "kw_signals (fold (\<lambda>a. kw_emit (f a)) xs s) = kw_signals s @ map f xs"
  by (induction xs arbitrary: s) (simp_all add: kw_emit_def)

lemma fold_emit_wallets: "kw_openWallets (fold (\<lambda>a. kw_emit (f a)) xs s) = kw_openWallets s"
  by (induction xs arbitrary: s) (simp_all add: kw_emit_def)

text \<open>Closing a wallet by force answers 0, closes it for every application and leaves the other wallets as they are.
  Its signals are that the wallet was closed, that no wallet is open when this is so, and once for each application that
  had the wallet open and has no wallet left, that it was disconnected.  Without force a wallet in use stays open.\<close>

theorem close_signals:
  "\<exists>s' apps. KWalletD_close wallet True s = (0, s') \<and> \<not> KWalletD_isOpen wallet s' \<and>
     kw_openWallets s' = filter (\<lambda>p. snd p \<noteq> wallet) (kw_openWallets s) \<and>
     kw_signals s' = kw_signals s @ [KwClosed wallet] @ (if kw_openWallets s' = [] then [KwAllClosed] else []) @
       map (KwDisconnected wallet) apps \<and>
     distinct apps \<and> set apps = set (KWalletD_users wallet s) - set (kw_users s') \<and>
     (KWalletD_close wallet False s = (if KWalletD_isOpen wallet s then (1, s) else (0, s')))"
proof -
  define os where "os = filter (\<lambda>p. snd p \<noteq> wallet) (kw_openWallets s)"
  define s1 where "s1 = emit_if_none_open (kw_emit (KwClosed wallet) (s\<lparr>kw_openWallets := os\<rparr>))"
  define apps where "apps = filter (\<lambda>a. a \<notin> set (kw_users s1)) (KWalletD_users wallet s)"
  define s' where "s' = emit_disconnected wallet apps s1"
  have s1: "kw_openWallets s1 = os" "kw_signals s1 = kw_signals s @ [KwClosed wallet] @ (if os = [] then [KwAllClosed] else [])"
    by (simp_all add: s1_def emit_if_none_open_def kw_emit_def)
  have s': "kw_openWallets s' = os" "kw_signals s' = kw_signals s1 @ map (KwDisconnected wallet) apps"
    by (simp_all add: s'_def emit_disconnected_def fold_emit_wallets fold_emit_signals s1(1))
  have n: "filter (\<lambda>p. snd p = wallet) (kw_openWallets s) = [] \<longleftrightarrow> \<not> KWalletD_isOpen wallet s"
    by (auto simp: KWalletD_isOpen_def filter_empty_conv)
  have c: "KWalletD_close wallet True s = (0, s')"
    "KWalletD_close wallet False s = (if KWalletD_isOpen wallet s then (1, s) else (0, s'))"
    by (simp_all add: KWalletD_close_def Let_def KWalletD_users_def n s'_def apps_def s1_def os_def)
  have "kw_users s1 = kw_users s'" by (simp add: kw_users_def s1(1) s'(1))
  then have "set apps = set (KWalletD_users wallet s) - set (kw_users s')" by (auto simp: apps_def)
  moreover have "distinct apps" by (simp add: KWalletD_users_def apps_def)
  moreover have "\<not> KWalletD_isOpen wallet s'" by (auto simp: KWalletD_isOpen_def s'(1) os_def)
  ultimately show ?thesis using c s1(2) s' by (intro exI [of _ s'] exI [of _ apps]) (simp add: os_def [symmetric])
qed

section \<open>Opening\<close>

lemma walletForHandle_insert:
  assumes "qmap_wf (kw_openWallets s)"
  shows "walletForHandle r a (s\<lparr>kw_openWallets := qmap_insert (r', a') w (kw_openWallets s)\<rparr>) =
    (if (r, a) = (r', a') then w else walletForHandle r a s)"
  using assms by (simp add: walletForHandle_def qmap_simps)

lemma structure_insert_all_values:
  "structure_values wallet (structure_insert_all wallet folders s) = rev folders @ structure_values wallet s"
proof (induction folders arbitrary: s)
  case (Cons f fs)
  have "structure_values wallet (structure_insert wallet f s) = f # structure_values wallet s"
    by (simp add: structure_values_def structure_insert_def)
  with Cons [of "structure_insert wallet f s"] show ?case by (simp add: structure_insert_all_def)
qed (simp add: structure_insert_all_def)

lemma structure_insert_all_other: "kw_openWallets (structure_insert_all wallet folders s) = kw_openWallets s"
  "kw_signals (structure_insert_all wallet folders s) = kw_signals s" "kw_backend (structure_insert_all wallet folders s) = kw_backend s"
proof -
  have "kw_openWallets (fold (structure_insert wallet) folders s) = kw_openWallets s \<and>
      kw_signals (fold (structure_insert wallet) folders s) = kw_signals s \<and>
      kw_backend (fold (structure_insert wallet) folders s) = kw_backend s"
    by (induction folders arbitrary: s) (simp_all add: structure_insert_def)
  then show "kw_openWallets (structure_insert_all wallet folders s) = kw_openWallets s"
    "kw_signals (structure_insert_all wallet folders s) = kw_signals s" "kw_backend (structure_insert_all wallet folders s) = kw_backend s"
    by (simp_all add: structure_insert_all_def)
qed

lemma structure_pending: "kw_pending (structure_insert_all wallet folders s) = kw_pending s"
  unfolding structure_insert_all_def by (induction folders arbitrary: s) (simp_all add: structure_insert_def)

lemma openInternal_frame:
  assumes "openInternal h L name wId appId s = Ret (r, s')"
  shows "kw_signals s' = kw_signals s" and "kw_pending s' = kw_pending s"
    and "qmap_wf (kw_openWallets s) \<Longrightarrow> qmap_wf (kw_openWallets s')"
    and "r < 0 \<Longrightarrow> kw_openWallets s' = kw_openWallets s"
    and "0 \<le> r \<Longrightarrow> kw_openWallets s' = qmap_insert (r, appId) name (kw_openWallets s)"
  using assms
  by (auto simp: openInternal_def ask_eq case_prod_beta kw_newHandle_def structure_insert_all_other structure_pending qmap_simps Let_def
      split: if_splits)

lemma openInternal_handle:
  assumes "openInternal h L wallet wId appId s = Ret (r, s')" and "0 \<le> r"
  obtains s1 folders where "s' = s1\<lparr>kw_random := kw_random s1 + 1, kw_openWallets := qmap_insert (r, appId) wallet (kw_openWallets s1)\<rparr>"
    and "kw_openWallets s1 = kw_openWallets s" and "kw_signals s1 = kw_signals s"
    and "structure_values wallet s1 = rev folders @ structure_values wallet s"
proof -
  obtain c folders where c: "kw_newHandle L wallet appId (structure_insert_all wallet folders (s\<lparr>kw_backend := c\<rparr>)) = Ret (r, s')"
    using assms by (auto simp: openInternal_def ask_eq case_prod_beta Let_def split: if_splits)
  let ?s1 = "structure_insert_all wallet folders (s\<lparr>kw_backend := c\<rparr>)"
  show thesis
  proof (rule that)
    show "s' = ?s1\<lparr>kw_random := kw_random ?s1 + 1, kw_openWallets := qmap_insert (r, appId) wallet (kw_openWallets ?s1)\<rparr>"
      using c by (auto simp: kw_newHandle_def Let_def split: if_splits)
    show "kw_openWallets ?s1 = kw_openWallets s" "kw_signals ?s1 = kw_signals s" by (simp_all add: structure_insert_all_other)
    show "structure_values wallet ?s1 = rev folders @ structure_values wallet s"
      by (simp add: structure_insert_all_values) (simp add: structure_values_def)
  qed
qed

text \<open>Opening a wallet gives the application a handle for it and changes no handle of any other application, nor any
  other handle of the same one, and reports that the wallet is open.  The folders listed through the handle are those
  that were found now and, once more, those that were known before.\<close>

theorem open_gives_handle:
  assumes "qmap_wf (kw_openWallets s)" and "KWalletD_open h L wallet wId appId s = Ret (r, s')" and "0 \<le> r"
  shows "walletForHandle r appId s' = wallet \<and>
    (\<forall>r' a. (r', a) \<noteq> (r, appId) \<longrightarrow> walletForHandle r' a s' = walletForHandle r' a s) \<and>
    kw_signals s' = kw_signals s @ [KwOpened wallet] \<and> qmap_wf (kw_openWallets s') \<and>
    (wallet \<noteq> [] \<longrightarrow> (\<exists>folders. KWalletD_folderList r appId s' = rev folders @ structure_values wallet s))"
proof -
  obtain s0 where o: "openInternal h L wallet wId appId s = Ret (r, s0)" "s' = kw_emit (KwOpened wallet) s0"
    using assms(2,3) by (auto simp: KWalletD_open_def run_bind_Ret_iff split: if_splits)
  obtain s1 folders where s1: "s0 = s1\<lparr>kw_random := kw_random s1 + 1, kw_openWallets := qmap_insert (r, appId) wallet (kw_openWallets s1)\<rparr>"
    "kw_openWallets s1 = kw_openWallets s" "kw_signals s1 = kw_signals s" "structure_values wallet s1 = rev folders @ structure_values wallet s"
    by (rule openInternal_handle [OF o(1) assms(3)])
  have w: "walletForHandle r' a s' = (if (r', a) = (r, appId) then wallet else walletForHandle r' a s)" for r' a
    using assms(1) by (simp add: o(2) s1(1,2) walletForHandle_def kw_emit_def qmap_simps)
  moreover have "structure_values wallet s' = rev folders @ structure_values wallet s"
    using s1(4) by (simp add: o(2) s1(1) structure_values_def kw_emit_def)
  moreover have "kw_signals s' = kw_signals s @ [KwOpened wallet]" "qmap_wf (kw_openWallets s')"
    using assms(1) by (simp_all add: o(2) s1(1-3) kw_emit_def qmap_simps)
  ultimately show ?thesis by (auto simp: KWalletD_folderList_def w)
qed

lemma shelf_openInternal:
  assumes "kw_backend s = shelf_client" and "kw_random s = 0"
  shows "\<exists>s'. openInternal example_host shelf_service (qs ''w'') 1 app s = Ret (1, s')"
proof -
  have "labelled example_host shelf_service (qs ''w'') x = Some (qs ''/c'')" for x
    by (simp add: labelled_def shelf_service_def example_host_def ascii_def cstr_def qs_def)
  moreover have "map ucast (cstr (ascii ''w'')) = qs ''w''" by (simp add: ascii_def cstr_def qs_def)
  ultimately show ?thesis using assms
    by (simp add: openInternal_def ask_eq listCollections_def unlockCollection_def watchCollection_def
        attemptConnection_def shelf_client_def on_world_def retrieveCollection_def qmap_find_def shelf_service_def
        kw_newHandle_def listFolders_def example_host_def qs_def Let_def structure_insert_all_def attribute_values_def shelf_find_def)
qed

lemma shelf_open: "\<exists>s'. KWalletD_open example_host shelf_service (qs ''w'') 1 (qs ''other'') shelf_daemon = Ret (1, s')"
proof -
  have "kw_backend shelf_daemon = shelf_client" "kw_random shelf_daemon = 0" by (simp_all add: shelf_daemon_def)
  then obtain s' where "openInternal example_host shelf_service (qs ''w'') 1 (qs ''other'') shelf_daemon = Ret (1, s')"
    using shelf_openInternal by blast
  then show ?thesis by (simp add: KWalletD_open_def)
qed

theorem open_gives_handle_witness:
  "\<exists>s'. KWalletD_open example_host shelf_service (qs ''w'') 1 (qs ''other'') shelf_daemon = Ret (1, s') \<and>
     walletForHandle 1 (qs ''other'') s' = qs ''w'' \<and> walletForHandle 5 (qs ''app'') s' = qs ''w'' \<and> walletForHandle 5 (qs ''other'') s' = []"
proof -
  obtain s' where s': "KWalletD_open example_host shelf_service (qs ''w'') 1 (qs ''other'') shelf_daemon = Ret (1, s')"
    using shelf_open by blast
  have "qmap_wf (kw_openWallets shelf_daemon)" by (simp add: shelf_daemon_def qmap_wf_def)
  from open_gives_handle [OF this s'] s' show ?thesis
    by (auto simp: walletForHandle_def shelf_daemon_def qmap_find_def qs_def)
qed

section \<open>Handles of others\<close>

text \<open>
  What the daemon has done since nobody had a wallet open, as one application sees it: \<open>H\<close> are the handles that were
  given to it, as the result of its calls of \<open>open\<close> or in the answers to its calls of \<open>openAsync\<close>.  Opening for any
  application and closing are the operations of the daemon; everything else leaves the table of the handles as it is.
\<close>

inductive session_run :: "host \<Rightarrow> 's libsecret \<Rightarrow> qstring \<Rightarrow> int set \<Rightarrow> 's kwalletd \<Rightarrow> bool" for h L appId where
  session_start: "kw_openWallets s = [] \<Longrightarrow> session_run h L appId {} s"
| session_open: "session_run h L appId H s \<Longrightarrow> KWalletD_open h L wallet wId app s = Ret (r, s') \<Longrightarrow>
    session_run h L appId (if app = appId \<and> 0 \<le> r then insert r H else H) s'"
| session_answer: "session_run h L appId H s \<Longrightarrow> kw_pending s = a # as \<Longrightarrow> async_timeout h L s = Ret s' \<Longrightarrow>
    session_run h L appId (if ao_appId a = appId then {r. kw_signals s' = kw_signals s @ [KwAsyncOpened (ao_tid a) r]} \<union> H else H) s'"
| session_close: "session_run h L appId H s \<Longrightarrow> session_run h L appId H (snd (KWalletD_close wallet force s))"
| session_closeHandle: "session_run h L appId H s \<Longrightarrow> session_run h L appId H (snd (KWalletD_closeHandle handle force app s))"
| session_closeAll: "session_run h L appId H s \<Longrightarrow> session_run h L appId H (closeAllWallets s)"
| session_disconnect: "session_run h L appId H s \<Longrightarrow> session_run h L appId H (snd (disconnectApplication wallet app s))"
| session_other: "session_run h L appId H s \<Longrightarrow> kw_openWallets s' = kw_openWallets s \<Longrightarrow> session_run h L appId H s'"

definition holders :: "'s kwalletd \<Rightarrow> (int \<times> qstring) set" where
  "holders s = set (map fst (kw_openWallets s))"

lemma holders_shrink:
  "holders (snd (KWalletD_close wallet force s)) \<subseteq> holders s" "holders (snd (KWalletD_closeHandle handle force app s)) \<subseteq> holders s"
  "holders (closeAllWallets s) \<subseteq> holders s" "holders (snd (disconnectApplication wallet app s)) \<subseteq> holders s"
proof -
  have e: "kw_openWallets (kw_emit x s) = kw_openWallets s" "kw_openWallets (emit_if_none_open s) = kw_openWallets s" for x and s :: "'s kwalletd"
    by (simp_all add: kw_emit_def emit_if_none_open_def)
  have f: "kw_openWallets (fold (\<lambda>(w, a). kw_emit (KwDisconnected w a)) xs s) = kw_openWallets s" for xs and s :: "'s kwalletd"
    by (induction xs arbitrary: s) (auto simp: kw_emit_def)
  show "holders (snd (KWalletD_close wallet force s)) \<subseteq> holders s"
    by (auto simp: holders_def KWalletD_close_def Let_def emit_disconnected_def fold_emit_wallets e)
  show "holders (snd (KWalletD_closeHandle handle force app s)) \<subseteq> holders s"
    by (auto simp: holders_def KWalletD_closeHandle_def Let_def e qmap_remove_def)
  show "holders (closeAllWallets s) \<subseteq> holders s"
    by (auto simp: holders_def closeAllWallets_def Let_def fold_emit_wallets f e)
  show "holders (snd (disconnectApplication wallet app s)) \<subseteq> holders s"
    by (auto simp: holders_def disconnectApplication_def Let_def e)
qed

lemma holders_open:
  assumes "openInternal h L wallet wId app s = Ret (r, s')"
  shows "holders s' = (if 0 \<le> r then insert (r, app) (holders s) else holders s)"
  using openInternal_frame(4,5) [OF assms] fst_qmap_insert [of "(r, app)" wallet "kw_openWallets s"] by (auto simp: holders_def)

lemma session_holders: "session_run h L appId H s \<Longrightarrow> (r, appId) \<in> holders s \<Longrightarrow> r \<in> H"
proof (induction rule: session_run.induct)
  case (session_open H s wallet wId app t s')
  then obtain q s0 where o: "openInternal h L wallet wId app s = Ret (q, s0)" "t = (if q < 0 then -1 else q)" "holders s' = holders s0"
    by (auto simp: KWalletD_open_def run_bind_Ret_iff holders_def kw_emit_def split: if_splits)
  with holders_open [OF o(1)] session_open.IH session_open.prems show ?case by (auto split: if_splits)
next
  case (session_answer H s a as s')
  then obtain q s0 where o: "openInternal h L (ao_wallet a) (ao_wId a) (ao_appId a) (s\<lparr>kw_pending := as\<rparr>) = Ret (q, s0)"
    "s' = (if q < 0 then s0 else kw_emit (KwAsyncOpened (ao_tid a) q) s0)"
    by (auto simp: async_timeout_def run_bind_Ret_iff split: if_splits)
  have "holders s' = (if 0 \<le> q then insert (q, ao_appId a) (holders s) else holders s)"
    using holders_open [OF o(1)] o(2) by (simp add: holders_def kw_emit_def)
  moreover have "0 \<le> q \<Longrightarrow> kw_signals s' = kw_signals s @ [KwAsyncOpened (ao_tid a) q]"
    using openInternal_frame(1) [OF o(1)] o(2) by (simp add: kw_emit_def)
  ultimately show ?case using session_answer by (auto split: if_splits)
next
  case (session_other H s s')
  then show ?case by (simp add: holders_def)
next
  case (session_start s)
  then show ?case by (simp add: holders_def)
qed (blast dest: holders_shrink [THEN subsetD])+

lemma foreign_none: "(handle, appId) \<notin> holders s \<Longrightarrow> walletForHandle handle appId s = []"
  by (simp add: walletForHandle_def qmap_find_def holders_def image_iff map_of_eq_None_iff split: option.split)
    (metis fst_conv map_of_SomeD)

text \<open>C31. An application reaches a wallet only through a handle that was given to it.  However applications open wallets,
  wait for them and close them: with any other handle, also one that another application holds and that is valid, every
  call that takes a handle and an application answers as for a wallet that does not exist, and changes nothing.  (Only
  \<open>isOpen\<close> with a handle takes no application: it tells anyone whether the handle is in use.)\<close>

theorem foreign_handle:
  assumes "session_run h' L' appId H s" and "handle \<notin> H"
  shows "KWalletD_closeHandle handle force appId s = (1, s) \<and> KWalletD_folderList handle appId s = [] \<and>
    \<not> KWalletD_hasFolder handle folder appId s \<and> KWalletD_createFolder handle folder appId s = (False, s) \<and>
    KWalletD_removeFolder h L handle folder appId s = (False, s) \<and> KWalletD_entryList h L handle folder appId s = ([], s) \<and>
    KWalletD_readEntry d L handle folder key appId s = ([], s) \<and> KWalletD_readMap d L handle folder key appId s = ([], s) \<and>
    KWalletD_readPassword h L handle folder key appId s = ([], s) \<and>
    KWalletD_entriesList d L handle folder appId s = ([], s) \<and> KWalletD_mapList d L handle folder appId s = ([], s) \<and>
    KWalletD_passwordList h L handle folder appId s = ([], s) \<and> KWalletD_readEntryList d L handle folder key appId s = ([], s) \<and>
    KWalletD_readMapList d L handle folder key appId s = ([], s) \<and> KWalletD_readPasswordList h L handle folder key appId s = ([], s) \<and>
    KWalletD_hasEntry h L handle folder key appId s = (False, s) \<and> KWalletD_entryType h L handle folder key appId s = (Unknown, s) \<and>
    KWalletD_writeEntry d L handle folder key val type appId s = (-1, s) \<and>
    KWalletD_renameEntry h L handle folder key newName appId s = (-1, s) \<and> KWalletD_removeEntry h L handle folder key appId s = (-1, s)"
proof -
  have "walletForHandle handle appId s = []" using session_holders [OF assms(1)] assms(2) by (intro foreign_none) blast
  then show ?thesis
    by (simp add: KWalletD_closeHandle_def KWalletD_folderList_def KWalletD_hasFolder_def KWalletD_createFolder_def
        KWalletD_removeFolder_def KWalletD_entryList_def KWalletD_readEntry_def KWalletD_readMap_def KWalletD_readPassword_def
        KWalletD_entriesList_def KWalletD_mapList_def KWalletD_passwordList_def KWalletD_readEntryList_def KWalletD_readMapList_def
        KWalletD_readPasswordList_def KWalletD_hasEntry_def KWalletD_entryType_def KWalletD_writeEntry_def KWalletD_renameEntry_def
        KWalletD_removeEntry_def)
qed

text \<open>A wallet that another application has just opened.\<close>

theorem foreign_handle_witness:
  "\<exists>s. KWalletD_open example_host shelf_service (qs ''w'') 1 (qs ''app'') (shelf_daemon\<lparr>kw_openWallets := []\<rparr>) = Ret (1, s) \<and>
     walletForHandle 1 (qs ''app'') s = qs ''w'' \<and>
     KWalletD_readEntry example_desktop shelf_service 1 (qs ''f'') (qs ''k'') (qs ''other'') s = ([], s)"
proof -
  let ?s = "shelf_daemon\<lparr>kw_openWallets := []\<rparr>"
  have "kw_backend ?s = shelf_client" "kw_random ?s = 0" "qmap_wf (kw_openWallets ?s)" by (simp_all add: shelf_daemon_def qmap_wf_def)
  then obtain s where s: "KWalletD_open example_host shelf_service (qs ''w'') 1 (qs ''app'') ?s = Ret (1, s)" "qmap_wf (kw_openWallets ?s)"
    using shelf_openInternal [of ?s "qs ''app''"] by (auto simp: KWalletD_open_def)
  have n: "qs ''app'' \<noteq> qs ''other''" by (simp add: qs_def)
  have "session_run example_host shelf_service (qs ''other'') {} ?s" by (rule session_start) simp
  from session_open [OF this s(1)] n have "session_run example_host shelf_service (qs ''other'') {} s" by simp
  from foreign_handle [OF this, of 1] s(1) open_gives_handle [OF s(2,1)] show ?thesis by auto
qed

end
