(* ===== verification/KWalletLibProps.thy ===== *)
theory KWalletLibProps
  imports KWalletLibCalls KWalletDSessions
begin

text \<open>
  What an application sees through the library: objects that are not open refuse every call; over a bus that carries
  every call, an object opened with \<open>openWallet\<close> reads what it wrote.
\<close>

section \<open>Calls over a reliable bus\<close>

definition reliable :: "'s bus \<Rightarrow> 's library \<Rightarrow> bool" where
  "reliable B l \<longleftrightarrow> lb_walletEnabled l \<and> lb_running l \<and> (\<forall>n \<ge> lb_calls l. bus_delivery B n = Answered)"

definition after_call :: "'s library \<Rightarrow> 's kwalletd \<Rightarrow> 's library" where
  "after_call l k = l\<lparr>lb_calls := lb_calls l + 1, lb_daemon := k\<rparr>"

lemma after_call_simps [simp]:
  "lb_daemon (after_call l k) = k" "lb_calls (after_call l k) = lb_calls l + 1" "lb_seen (after_call l k) = lb_seen l"
  "reliable B l \<Longrightarrow> reliable B (after_call l k)"
  by (simp_all add: after_call_def reliable_def)

lemma getInterface_reliable [simp]: "reliable B l \<Longrightarrow> getInterface B l = Ret l"
  by (simp add: getInterface_def reliable_def)

lemma call_reliable:
  assumes "reliable B l" and "f (lb_daemon l) = Ret (r, k')" and "\<not> error_sent (lb_daemon l) k'"
  shows "bus_call B f l = Ret (Some r, after_call l k')"
  using assms by (simp add: bus_call_def Let_def after_call_def) (simp add: reliable_def)

lemma call_reliable_Ret:
  assumes "reliable B l" and "bus_call B f l = Ret (r, l')"
  obtains x k' where "f (lb_daemon l) = Ret (x, k')" and "r = (if error_sent (lb_daemon l) k' then None else Some x)"
    and "l' = after_call l k'"
  using assms by (auto simp: bus_call_def run_bind_Ret_iff Let_def after_call_def reliable_def split: if_splits)

lemma no_error_sent: "kw_signals k' = kw_signals k @ xs \<Longrightarrow> KwErrorReply \<notin> set xs \<Longrightarrow> \<not> error_sent k k'"
  by (simp add: error_sent_def)

lemma no_error_same: "kw_signals k' = kw_signals k \<Longrightarrow> \<not> error_sent k k'"
  by (simp add: error_sent_def)

lemma ask_signals [simp]: "kw_signals (snd (ask f s)) = kw_signals s"
  by (simp add: ask_eq)

lemma write_typed_signals: "kw_signals (snd (write_typed d L key val type folder wallet s)) = kw_signals s"
  by (simp add: write_typed_def writeString_def writeBinary_def writeRawJson_def case_prod_beta Let_def)

lemma writeEntry_no_error: "\<not> error_sent k (snd (KWalletD_writeEntry d L handle folder key val type appId k))"
proof -
  have "\<exists>xs. kw_signals (snd (KWalletD_writeEntry d L handle folder key val type appId k)) = kw_signals k @ xs \<and> KwErrorReply \<notin> set xs"
    by (auto simp: KWalletD_writeEntry_def case_prod_beta Let_def kw_emit_def structure_insert_def write_typed_signals)
  then show ?thesis using no_error_sent by blast
qed

section \<open>Objects that are not open\<close>

text \<open>An object that is not open answers every call with its error value, makes no call over the bus and changes nothing.\<close>

theorem closed_object_refuses:
  assumes "w_handle w = -1"
  shows "Wallet_sync B w l = Ret (-1, l) \<and> Wallet_lockWallet B w l = Ret (-1, w, l) \<and> Wallet_folderList B w l = Ret ([], l) \<and>
    Wallet_entryList B w l = Ret ([], l) \<and> Wallet_hasFolder B w f l = Ret (False, l) \<and> Wallet_createFolder B w f l = Ret (False, l) \<and>
    Wallet_setFolder B w f l = Ret (False, w, l) \<and> Wallet_removeFolder B w f l = Ret (False, w, l) \<and>
    Wallet_readEntry B w key b l = Ret ((-1, b), l) \<and> Wallet_readMap B w key m l = Ret ((-1, m), l) \<and>
    Wallet_readPassword B w key t l = Ret ((-1, t), l) \<and>
    Wallet_entriesList B w (Some ok) l = Ret (([], Some False), l) \<and> Wallet_mapList B w (Some ok) l = Ret (([], Some False), l) \<and>
    Wallet_passwordList B w (Some ok) l = Ret (([], Some False), l) \<and>
    Wallet_renameEntry B w key key' l = Ret (-1, l) \<and> Wallet_writeEntry B w key b type l = Ret (-1, l) \<and>
    Wallet_writeEntryStream B w key b l = Ret (-1, l) \<and> Wallet_writeMap B w key m l = Ret (-1, l) \<and>
    Wallet_writePassword B w key t l = Ret (-1, l) \<and> Wallet_hasEntry B w key l = Ret (False, l) \<and>
    Wallet_removeEntry B w key l = Ret (-1, l) \<and> Wallet_entryType B w key l = Ret (Unknown, l) \<and>
    Wallet_requestChangePassword B iv wId w l = Ret ((), l) \<and> Wallet_delete B w l = Ret l"
  by (simp add: assms Wallet_sync_def Wallet_lockWallet_def Wallet_folderList_def Wallet_entryList_def Wallet_hasFolder_def
      Wallet_createFolder_def Wallet_setFolder_def Wallet_removeFolder_def Wallet_readEntry_def Wallet_readMap_def
      Wallet_readPassword_def Wallet_entriesList_def Wallet_mapList_def Wallet_passwordList_def Wallet_renameEntry_def
      Wallet_writeEntry_def Wallet_writeEntryStream_def Wallet_writeMap_def Wallet_writePassword_def Wallet_hasEntry_def
      Wallet_removeEntry_def Wallet_entryType_def Wallet_requestChangePassword_def Wallet_delete_def object_call_def
      value_call_def list_call_def)

section \<open>Written and read\<close>

lemma object_call_reliable:
  assumes "reliable B l" and "w_handle w \<noteq> -1" and "f (lb_daemon l) = Ret (r, k')" and "\<not> error_sent (lb_daemon l) k'"
  shows "object_call B w d f l = Ret (r, after_call l k')"
  using call_reliable [of B l f r k', OF assms(1,3,4)] assms(2) by (simp add: object_call_def replied_def)

lemma value_call_reliable:
  assumes "reliable B l" and "w_handle w \<noteq> -1" and "f (lb_daemon l) = (r, k')" and "\<not> error_sent (lb_daemon l) k'"
  shows "value_call B w f g val l = Ret ((0, g r), after_call l k')"
  using call_reliable [of B l "\<lambda>k. Ret (f k)" r k'] assms by (simp add: value_call_def)

lemma object_write:
  assumes "reliable B l" and "w_handle w \<noteq> -1"
    and "object_call B w (-1) (\<lambda>k. Ret (KWalletD_writeEntry d L (w_handle w) (w_folder w) key val type appId k)) l = Ret (r, l')"
  obtains k' where "KWalletD_writeEntry d L (w_handle w) (w_folder w) key val type appId (lb_daemon l) = (r, k')" and "l' = after_call l k'"
proof -
  obtain r0 k' where w: "KWalletD_writeEntry d L (w_handle w) (w_folder w) key val type appId (lb_daemon l) = (r0, k')" by fastforce
  have "\<not> error_sent (lb_daemon l) k'" using writeEntry_no_error [of "lb_daemon l" d L "w_handle w" "w_folder w" key val type appId] w by simp
  with object_call_reliable [of B l w "\<lambda>k. Ret (KWalletD_writeEntry d L (w_handle w) (w_folder w) key val type appId k)" r0 k' "-1"]
  show thesis using assms w that by simp
qed

text \<open>The readers of one type find what the entry of that type holds.\<close>

lemma readPassword_holds:
  assumes "secret_laws (d_host d) L view" and "searches_answered L" and "served view wallet p handle appId s"
    and "entry_in (d_host d) view p s folder key PlainText t"
  shows "KWalletD_readPassword (d_host d) L handle folder key appId s = (fromUtf8 (d_host d) (cstr t), s)"
proof -
  note sv = served_parts [OF assms(3)]
  obtain i where i: "holds (view (sc_world (kw_backend s)) p) i (c_string (d_host d) folder) (c_string (d_host d) key) PlainText t"
    using assms(4) unfolding entry_in_def kw_items_def by blast
  have t: "ls_text L (t, ascii ''text/plain'') = Some t" using assms(1) by (simp add: secret_laws_def codec_law_def)
  show ?thesis using sv(1,2) read_holds [OF assms(1,2) sv(4,3) i, of PlainText] t
    by (simp add: KWalletD_readPassword_def readString_def ask_def value_as_def)
qed

lemma readMap_holds:
  assumes "secret_laws (d_host d) L view" and "searches_answered L" and "served view wallet p handle appId s"
    and "entry_in (d_host d) view p s folder key MapText t"
  shows "KWalletD_readMap d L handle folder key appId s = (d_streamMap d (d_jsonMap d (cstr t)), s)"
proof -
  note sv = served_parts [OF assms(3)]
  obtain i where i: "holds (view (sc_world (kw_backend s)) p) i (c_string (d_host d) folder) (c_string (d_host d) key) MapText t"
    using assms(4) unfolding entry_in_def kw_items_def by blast
  have t: "ls_text L (t, ascii ''text/plain'') = Some t" using assms(1) by (simp add: secret_laws_def codec_law_def)
  show ?thesis using sv(1,2) read_holds [OF assms(1,2) sv(4,3) i, of MapText] t
    by (simp add: KWalletD_readMap_def ask_def value_as_def)
qed

definition only_type :: "host \<Rightarrow> 's view \<Rightarrow> qstring \<Rightarrow> 's kwalletd \<Rightarrow> qstring \<Rightarrow> qstring \<Rightarrow> value_type \<Rightarrow> bool" where
  "only_type h view p k folder key type \<longleftrightarrow> (\<forall>type' t'. entry_in h view p k folder key type' t' \<longrightarrow> type' = type)"

lemma library_write:
  assumes "secret_laws (d_host d) L view" and "reliable B l" and "w_handle w \<noteq> -1"
    and "served view wallet p (w_handle w) appId (lb_daemon l)"
    and "only_type (d_host d) view p (lb_daemon l) (w_folder w) key (value_type_of type)"
    and "object_call B w (-1) (\<lambda>k. Ret (KWalletD_writeEntry d L (w_handle w) (w_folder w) key val type appId k)) l = Ret (0, l')"
  shows "reliable B l'" and "served view wallet p (w_handle w) appId (lb_daemon l')"
    and "entry_in (d_host d) view p (lb_daemon l') (w_folder w) key (value_type_of type) (encoded L (value_type_of type) (given d type val))"
proof -
  obtain k' where k': "KWalletD_writeEntry d L (w_handle w) (w_folder w) key val type appId (lb_daemon l) = (0, k')" "l' = after_call l k'"
    by (rule object_write [OF assms(2,3,6)])
  note w = writeEntry_holds [OF assms(1,4) assms(5) [unfolded only_type_def] k'(1)]
  show "reliable B l'" using assms(2) by (simp add: k'(2))
  show "served view wallet p (w_handle w) appId (lb_daemon l')" using w(1) by (simp add: k'(2))
  show "entry_in (d_host d) view p (lb_daemon l') (w_folder w) key (value_type_of type) (encoded L (value_type_of type) (given d type val))"
    using w(2) by (simp add: k'(2))
qed

text \<open>C8. Over a bus that carries every call, an application reads back what it wrote in the folder of its object: bytes as
  they are, a password that has no null character and stands for its text in UTF-8, and a map that its stream and its
  JSON text give back; provided the key had no entry of another type.\<close>

theorem library_write_read:
  assumes "secret_laws (d_host (bus_desktop B)) (bus_libsecret B) view" and "searches_answered (bus_libsecret B)"
    and "reliable B l" and "w_handle w \<noteq> -1" and "served view wallet p (w_handle w) (bus_appId B) (lb_daemon l)"
  shows "(only_type (d_host (bus_desktop B)) view p (lb_daemon l) (w_folder w) key Base64 \<and>
      Wallet_writeEntryStream B w key b l = Ret (0, l1) \<longrightarrow> (\<exists>l'. Wallet_readEntry B w key b0 l1 = Ret ((0, b), l'))) \<and>
    (only_type (d_host (bus_desktop B)) view p (lb_daemon l) (w_folder w) key PlainText \<and>
      0 \<notin> set (toUtf8 (d_host (bus_desktop B)) t) \<and> fromUtf8 (d_host (bus_desktop B)) (toUtf8 (d_host (bus_desktop B)) t) = t \<and>
      Wallet_writePassword B w key t l = Ret (0, l2) \<longrightarrow> (\<exists>l'. Wallet_readPassword B w key t0 l2 = Ret ((0, t), l'))) \<and>
    (only_type (d_host (bus_desktop B)) view p (lb_daemon l) (w_folder w) key MapText \<and>
      d_unstreamMap (bus_desktop B) (d_streamMap (bus_desktop B) m) = m \<and> d_streamMap (bus_desktop B) m \<noteq> [] \<and>
      keepable (bus_desktop B) Map (d_streamMap (bus_desktop B) m) \<and>
      Wallet_writeMap B w key m l = Ret (0, l3) \<longrightarrow> (\<exists>l'. Wallet_readMap B w key m0 l3 = Ret ((0, m), l')))"
proof (intro conjI impI; elim conjE)
  let ?d = "bus_desktop B" and ?L = "bus_libsecret B" and ?a = "bus_appId B"
  note wr = library_write [OF assms(1,3,4,5)]
  have b64: "ls_fromBase64 ?L (ls_toBase64 ?L b) = b" "0 \<notin> set (ls_toBase64 ?L b)" for b
    using assms(1) by (simp_all add: secret_laws_def codec_law_def)
  { assume o: "only_type (d_host ?d) view p (lb_daemon l) (w_folder w) key Base64"
      and w: "Wallet_writeEntryStream B w key b l = Ret (0, l1)"
    have v: "value_type_of Stream = Base64" "given ?d Stream b = b" by (simp_all add: value_type_of_def given_def)
    note h = wr [where type = Stream, unfolded v, OF o w [unfolded Wallet_writeEntryStream_def KWalletD_writeEntryStream_def]]
    have "KWalletD_readEntry ?d ?L (w_handle w) (w_folder w) key ?a (lb_daemon l1) = (b, lb_daemon l1)"
      using readEntry_holds [OF assms(1,2) h(2,3)] by (simp add: shown_def encoded_def cstr_nonzero b64 v)
    then show "\<exists>l'. Wallet_readEntry B w key b0 l1 = Ret ((0, b), l')"
      unfolding Wallet_readEntry_def using value_call_reliable [OF h(1) assms(4)] no_error_same by (metis id_apply) }
  { assume o: "only_type (d_host ?d) view p (lb_daemon l) (w_folder w) key PlainText"
      and t: "0 \<notin> set (toUtf8 (d_host ?d) t)" "fromUtf8 (d_host ?d) (toUtf8 (d_host ?d) t) = t"
      and w: "Wallet_writePassword B w key t l = Ret (0, l2)"
    have v: "value_type_of Password = PlainText" by (simp add: value_type_of_def entry_type_defs)
    note h = wr [where type = Password, unfolded v, OF o w [unfolded Wallet_writePassword_def KWalletD_writePassword_def]]
    have "KWalletD_readPassword (d_host ?d) ?L (w_handle w) (w_folder w) key ?a (lb_daemon l2) = (t, lb_daemon l2)"
      using readPassword_holds [OF assms(1,2) h(2,3)] t
      by (simp add: encoded_def given_def cstr_nonzero entry_type_defs)
    then show "\<exists>l'. Wallet_readPassword B w key t0 l2 = Ret ((0, t), l')"
      unfolding Wallet_readPassword_def using value_call_reliable [OF h(1) assms(4)] no_error_same by (metis id_apply) }
  { assume o: "only_type (d_host ?d) view p (lb_daemon l) (w_folder w) key MapText"
      and m: "d_unstreamMap ?d (d_streamMap ?d m) = m" "d_streamMap ?d m \<noteq> []" "keepable ?d Map (d_streamMap ?d m)"
      and w: "Wallet_writeMap B w key m l = Ret (0, l3)"
    have v: "value_type_of Map = MapText" by (simp add: value_type_of_def entry_type_defs)
    note h = wr [where type = Map, unfolded v, OF o w [unfolded Wallet_writeMap_def KWalletD_writeMap_def]]
    have "KWalletD_readMap ?d ?L (w_handle w) (w_folder w) key ?a (lb_daemon l3) = (d_streamMap ?d m, lb_daemon l3)"
      using readMap_holds [OF assms(1,2) h(2,3)] m
      by (simp add: encoded_def given_def keepable_def cstr_nonzero entry_type_defs)
    then show "\<exists>l'. Wallet_readMap B w key m0 l3 = Ret ((0, m), l')"
      unfolding Wallet_readMap_def
      by (simp add: value_call_reliable [OF h(1) assms(4) _ no_error_same] m(1,2)) }
qed

end
