(* ===== verification/KWalletDMigrate.thy ===== *)
theory KWalletDMigrate
  imports KWalletDSessions BackendProps
begin

text \<open>
  The migration of a wallet file to a Secret Service by \<open>KWalletD::migrateWallet\<close>: the entries that are copied are read
  back by an application; and what an empty value does to the list of a folder.
\<close>

section \<open>Writes in a row\<close>

type_synonym item_write = "qstring \<times> qstring \<times> value_type \<times> bytes"   \<comment> \<open>folder, key, type, value\<close>

definition write_item :: "host \<Rightarrow> 's libsecret \<Rightarrow> qstring \<Rightarrow> item_write \<Rightarrow> 's kwalletd \<Rightarrow> 's kwalletd" where
  "write_item h L wallet w s =
     (case w of (folder, key, type, val) \<Rightarrow> snd (ask (client_writeEntry h L (folderPath folder key) key val type folder wallet) s))"

definition write_place :: "host \<Rightarrow> item_write \<Rightarrow> bytes \<times> bytes" where
  "write_place h w = (c_string h (fst w), c_string h (fst (snd w)))"

lemma write_item_holds:
  assumes "secret_laws h L view" and "obliging L" and "served view wallet p handle appId s"
    and "type \<in> {PlainText, Base64, MapText}" and "\<And>type t. \<not> entry_in h view p s folder key type t"
  shows "served view wallet p handle appId (write_item h L wallet (folder, key, type, val) s)"
    and "entry_in h view p (write_item h L wallet (folder, key, type, val) s) folder key type (encoded L type val)"
    and "(c_string h f', c_string h k') \<noteq> write_place h (folder, key, type, val) \<Longrightarrow>
      entry_in h view p (write_item h L wallet (folder, key, type, val) s) f' k' type' t' \<longleftrightarrow> entry_in h view p s f' k' type' t'"
proof -
  note sv = served_parts [OF assms(3)]
  let ?r = "client_writeEntry h L (folderPath folder key) key val type folder wallet (kw_backend s)"
  have s': "write_item h L wallet (folder, key, type, val) s = s\<lparr>kw_backend := snd ?r\<rparr>" by (simp add: write_item_def ask_eq)
  have r: "?r = (True, snd ?r)" using obliging_write [OF assms(2) sv(3)] by (simp add: prod_eq_iff)
  have o: "\<forall>j type' t'. holds (view (sc_world (kw_backend s)) p) j (c_string h folder) (c_string h key) type' t' \<longrightarrow> type' = type"
    using assms(5) unfolding entry_in_def kw_items_def by blast
  note w = write_holds [OF assms(1) sv(4,3) assms(4) o r]
  show "served view wallet p handle appId (write_item h L wallet (folder, key, type, val) s)"
    using w(2,3) assms(3) by (simp add: s' served_def kw_items_def walletForHandle_def)
  show "entry_in h view p (write_item h L wallet (folder, key, type, val) s) folder key type (encoded L type val)"
    using w(1) by (simp add: s' entry_in_def kw_items_def)
  show "entry_in h view p (write_item h L wallet (folder, key, type, val) s) f' k' type' t' \<longleftrightarrow> entry_in h view p s f' k' type' t'"
    if "(c_string h f', c_string h k') \<noteq> write_place h (folder, key, type, val)"
    using w(5) that by (simp add: s' entry_in_def kw_items_def write_place_def)
qed

lemma write_items_hold:
  assumes "secret_laws h L view" and "obliging L" and "served view wallet p handle appId s"
    and "distinct (map (write_place h) ws)" and "\<forall>(f, k, type, v) \<in> set ws. type \<in> {PlainText, Base64, MapText}"
    and "\<And>f k type v type' t. (f, k, type, v) \<in> set ws \<Longrightarrow> \<not> entry_in h view p s f k type' t"
  shows "served view wallet p handle appId (fold (write_item h L wallet) ws s) \<and>
    (\<forall>(f, k, type, v) \<in> set ws. entry_in h view p (fold (write_item h L wallet) ws s) f k type (encoded L type v)) \<and>
    (\<forall>f k. (c_string h f, c_string h k) \<notin> write_place h ` set ws \<longrightarrow>
      entry_in h view p (fold (write_item h L wallet) ws s) f k = entry_in h view p s f k)"
  using assms(3-6)
proof (induction ws arbitrary: s)
  case (Cons w ws)
  obtain f k type v where w: "w = (f, k, type, v)" by (cases w)
  let ?s = "write_item h L wallet w s"
  have n: "\<And>type t. \<not> entry_in h view p s f k type t" using Cons.prems(4) [of f k type v] by (simp add: w)
  have ty: "type \<in> {PlainText, Base64, MapText}" using Cons.prems(3) by (simp add: w)
  note h = write_item_holds [OF assms(1,2) Cons.prems(1) ty n, where val = v, folded w]
  have other: "entry_in h view p ?s f' k' = entry_in h view p s f' k'" if "(c_string h f', c_string h k') \<noteq> write_place h w" for f' k'
    using h(3) that by (intro ext) blast
  have rest: "\<not> entry_in h view p ?s f' k' ty' t" if "(f', k', ty, v') \<in> set ws" for f' k' ty v' ty' t
  proof -
    have "write_place h (f', k', ty, v') \<in> write_place h ` set ws" using that by (rule imageI)
    moreover have "write_place h w \<notin> write_place h ` set ws" using Cons.prems(2) by simp
    moreover have "write_place h (f', k', ty, v') = (c_string h f', c_string h k')" by (simp add: write_place_def)
    ultimately have "(c_string h f', c_string h k') \<noteq> write_place h w" by metis
    then show ?thesis using Cons.prems(4) [of f' k' ty v'] that other by simp
  qed
  have d: "distinct (map (write_place h) ws)" "\<forall>(f, k, type, v) \<in> set ws. type \<in> {PlainText, Base64, MapText}"
    using Cons.prems(2,3) by simp_all
  note IH = Cons.IH [OF h(1) d rest]
  have "(c_string h f, c_string h k) \<notin> write_place h ` set ws" using Cons.prems(2) by (simp add: w write_place_def)
  then have "entry_in h view p (fold (write_item h L wallet) ws ?s) f k type (encoded L type v)" using IH h(2) by simp
  with IH other show ?case by (auto simp: w)
qed simp

section \<open>Copying a wallet\<close>

text \<open>What is written for an entry; other types, and maps without a value, are left out.\<close>

definition migrate_write :: "desktop \<Rightarrow> qstring \<Rightarrow> entry \<Rightarrow> item_write option" where
  "migrate_write d f e =
     (if e_type e = Password then Some (f, e_key e, PlainText, toUtf8 (d_host d) (Entry_password (d_host d) e))
      else if e_type e = Stream then Some (f, e_key e, Base64, e_value e)
      else if e_type e = Map \<and> e_value e \<noteq> [] then Some (f, e_key e, MapText, d_mapJson d (d_unstreamMap d (e_value e)))
      else None)"

definition folder_writes :: "desktop \<Rightarrow> backend \<Rightarrow> qstring \<Rightarrow> item_write list" where
  "folder_writes d b f = List.map_filter (migrate_write d f) (Backend_entriesList (Backend_setFolder f b))"

lemma migrate_entry_write:
  "migrate_entry d L f wallet e s = (case migrate_write d f e of None \<Rightarrow> s | Some w \<Rightarrow> write_item (d_host d) L wallet w s)"
  by (simp add: migrate_entry_def migrate_write_def write_item_def writeString_def writeBinary_def writeRawJson_def)

lemma migrate_folder_writes:
  "fold (migrate_entry d L f wallet) es s = fold (write_item (d_host d) L wallet) (List.map_filter (migrate_write d f) es) s"
  by (induction es arbitrary: s) (simp_all add: migrate_entry_write List.map_filter_simps split: option.split)

lemma migrate_folders_writes:
  "migrate_folders d L wallet fs b s = fold (write_item (d_host d) L wallet) (concat (map (folder_writes d b) fs)) s"
proof (induction fs arbitrary: b s)
  case (Cons f fs)
  have "folder_writes d (Backend_setFolder f b) = folder_writes d b" by (simp add: folder_writes_def Backend_setFolder_def fun_eq_iff)
  moreover have "migrate_folders d L wallet (f # fs) b s =
      migrate_folders d L wallet fs (Backend_setFolder f b) (fold (write_item (d_host d) L wallet) (folder_writes d b f) s)"
    by (simp add: Let_def folder_writes_def migrate_folder_writes)
  ultimately show ?case using Cons by simp
qed simp

lemma entriesList_lookup:
  assumes "wf_entries b" and "b_open b"
  shows "e \<in> set (Backend_entriesList (Backend_setFolder f b)) \<longleftrightarrow> (\<exists>k. lookup_entry b f k = Some e)"
    and "Backend_entriesList (Backend_setFolder f b) = map snd (current_folder (Backend_setFolder f b))"
proof -
  show l: "Backend_entriesList (Backend_setFolder f b) = map snd (current_folder (Backend_setFolder f b))"
    using assms(2) by (simp add: Backend_entriesList_def Backend_setFolder_def)
  have "qmap_wf (current_folder (Backend_setFolder f b))" using wf_current [of "Backend_setFolder f b"] assms(1) by (simp add: Backend_setFolder_def)
  then have "(k, e) \<in> set (current_folder (Backend_setFolder f b)) \<longleftrightarrow> qmap_find (current_folder (Backend_setFolder f b)) k = Some e" for k
    by (simp add: qmap_find_def qmap_wf_def strict_sorted_iff distinct_map)
  moreover have "qmap_find (current_folder (Backend_setFolder f b)) k = lookup_entry b f k" for k
    by (auto simp: find_current lookup_entry_def Backend_setFolder_def split: option.splits)
  ultimately show "e \<in> set (Backend_entriesList (Backend_setFolder f b)) \<longleftrightarrow> (\<exists>k. lookup_entry b f k = Some e)"
    unfolding l by force
qed

lemma in_map_filter: "w \<in> set (List.map_filter m es) \<longleftrightarrow> (\<exists>e \<in> set es. m e = Some w)"
  by (induction es) (auto simp: List.map_filter_simps split: option.split)

lemma distinct_map_filter:
  assumes "distinct (map key es)" and "\<And>e w. m e = Some w \<Longrightarrow> place w = key e"
  shows "distinct (map place (List.map_filter m es))"
  using assms(1)
proof (induction es)
  case (Cons e es)
  have "key e \<notin> place ` set (List.map_filter m es)" using Cons.prems assms(2) by (force simp: in_map_filter)
  with Cons assms(2) [of e] show ?case by (simp add: List.map_filter_simps split: option.split)
qed (simp add: List.map_filter_simps)

lemma distinct_concat_places:
  assumes "distinct fs" and "\<And>f. distinct (map place (g f))" and "\<And>f w. w \<in> set (g f) \<Longrightarrow> fst (place w) = f"
  shows "distinct (map place (concat (map g fs)))"
  using assms(1)
proof (induction fs)
  case (Cons f fs)
  have "fst (place w) \<in> set fs" if "w \<in> set (concat (map g fs))" for w using that assms(3) by auto
  then have "place ` set (g f) \<inter> place ` set (concat (map g fs)) = {}" using assms(3) Cons.prems by fastforce
  with Cons assms(2) show ?case by simp
qed simp

definition keyed :: "backend \<Rightarrow> bool" where
  "keyed b \<longleftrightarrow> (\<forall>f k e. lookup_entry b f k = Some e \<longrightarrow> e_key e = k)"

lemma migrate_write_place: "migrate_write d f e = Some w \<Longrightarrow> fst w = f \<and> fst (snd w) = e_key e"
  by (auto simp: migrate_write_def split: if_splits)

lemma writes_places:
  assumes "wf_entries b" and "b_open b" and "keyed b"
  shows "w \<in> set (concat (map (folder_writes d b) (Backend_folderList b))) \<longleftrightarrow>
      (\<exists>f k e. lookup_entry b f k = Some e \<and> migrate_write d f e = Some w)"
    and "distinct (map (\<lambda>w. (fst w, fst (snd w))) (concat (map (folder_writes d b) (Backend_folderList b))))"
proof -
  have mem: "w \<in> set (folder_writes d b f) \<longleftrightarrow> (\<exists>k e. lookup_entry b f k = Some e \<and> migrate_write d f e = Some w)" for w f
    unfolding folder_writes_def in_map_filter using entriesList_lookup(1) [OF assms(1,2)] by force
  have fl: "f \<in> set (Backend_folderList b)" if "lookup_entry b f k = Some e" for f k e
    using that unfolding folderList_content [OF assms(1)] by (auto simp: lookup_entry_def split: option.splits)
  show "w \<in> set (concat (map (folder_writes d b) (Backend_folderList b))) \<longleftrightarrow>
      (\<exists>f k e. lookup_entry b f k = Some e \<and> migrate_write d f e = Some w)"
    using fl by (auto simp: mem)
  show "distinct (map (\<lambda>w. (fst w, fst (snd w))) (concat (map (folder_writes d b) (Backend_folderList b))))"
  proof (rule distinct_concat_places)
    show "distinct (Backend_folderList b)"
      using qm.keys_sorted [of "b_entries b"] assms(1) by (simp add: Backend_folderList_def wf_entries_def strict_sorted_iff)
    show "fst (fst w, fst (snd w)) = f" if "w \<in> set (folder_writes d b f)" for f w
      using that unfolding mem by (auto dest: migrate_write_place)
    fix f
    let ?c = "current_folder (Backend_setFolder f b)"
    have wf: "qmap_wf ?c" using wf_current [of "Backend_setFolder f b"] assms(1) by (simp add: Backend_setFolder_def)
    have "e_key e = k" if "(k, e) \<in> set ?c" for k e
    proof -
      have "qmap_find ?c k = Some e" using that wf by (simp add: qmap_find_def qmap_wf_def strict_sorted_iff)
      then have "lookup_entry b f k = Some e" by (auto simp: find_current lookup_entry_def Backend_setFolder_def split: option.splits)
      then show ?thesis using assms(3) by (simp add: keyed_def)
    qed
    then have "map e_key (Backend_entriesList (Backend_setFolder f b)) = map fst ?c"
      unfolding entriesList_lookup(2) [OF assms(1,2)] by (auto simp: prod.case_eq_if)
    then have "distinct (map e_key (Backend_entriesList (Backend_setFolder f b)))"
      using wf by (simp only: qmap_wf_def strict_sorted_iff)
    then have "distinct (map (Pair f) (map e_key (Backend_entriesList (Backend_setFolder f b))))"
      unfolding distinct_map [of "Pair f"] by (simp add: inj_on_def)
    then have "distinct (map (\<lambda>e. (f, e_key e)) (Backend_entriesList (Backend_setFolder f b)))" by (simp add: comp_def)
    then show "distinct (map (\<lambda>w. (fst w, fst (snd w))) (folder_writes d b f))"
      unfolding folder_writes_def by (rule distinct_map_filter) (auto dest: migrate_write_place)
  qed
qed

lemma writes_lookup:
  assumes "keyed b" and "w \<in> set (concat (map (folder_writes d b) (Backend_folderList b)))" and "wf_entries b" and "b_open b"
  obtains e where "lookup_entry b (fst w) (fst (snd w)) = Some e" and "migrate_write d (fst w) e = Some w"
proof -
  obtain f k e where e: "lookup_entry b f k = Some e" "migrate_write d f e = Some w"
    using assms(2) unfolding writes_places(1) [OF assms(3,4,1)] by blast
  with assms(1) have "e_key e = k" by (simp add: keyed_def)
  with e migrate_write_place [OF e(2)] that show thesis by auto
qed

definition distinct_names :: "host \<Rightarrow> backend \<Rightarrow> bool" where
  "distinct_names h b \<longleftrightarrow> inj_on (\<lambda>(f, k). (c_string h f, c_string h k)) {(f, k). lookup_entry b f k \<noteq> None}"

lemma writes_distinct:
  assumes "wf_entries b" and "b_open b" and "keyed b" and "distinct_names h b"
  shows "distinct (map (write_place h) (concat (map (folder_writes d b) (Backend_folderList b))))"
proof -
  let ?ws = "concat (map (folder_writes d b) (Backend_folderList b))" and ?fk = "\<lambda>w :: item_write. (fst w, fst (snd w))"
  have "set (map ?fk ?ws) \<subseteq> {(f, k). lookup_entry b f k \<noteq> None}"
  proof
    fix x assume "x \<in> set (map ?fk ?ws)"
    then obtain w where w: "w \<in> set ?ws" "x = ?fk w" unfolding set_map by blast
    with writes_lookup [OF assms(3) w(1) assms(1,2)] show "x \<in> {(f, k). lookup_entry b f k \<noteq> None}" by auto
  qed
  then have "distinct (map (\<lambda>(f, k). (c_string h f, c_string h k)) (map ?fk ?ws))"
    unfolding distinct_map [of "\<lambda>(f, k). (c_string h f, c_string h k)"]
    using writes_places(2) [OF assms(1-3)] assms(4) unfolding distinct_names_def by (blast intro: inj_on_subset)
  then show ?thesis by (simp add: write_place_def [abs_def] comp_def)
qed

lemma not_written:
  assumes "wf_entries b" and "b_open b" and "keyed b" and "distinct_names h b"
    and "lookup_entry b f k = Some e" and "migrate_write d f e = None"
  shows "(c_string h f, c_string h k) \<notin> write_place h ` set (concat (map (folder_writes d b) (Backend_folderList b)))"
proof
  assume "(c_string h f, c_string h k) \<in> write_place h ` set (concat (map (folder_writes d b) (Backend_folderList b)))"
  then obtain w where w: "(c_string h f, c_string h k) = write_place h w"
    "w \<in> set (concat (map (folder_writes d b) (Backend_folderList b)))" by (rule imageE)
  obtain e' where e': "lookup_entry b (fst w) (fst (snd w)) = Some e'" "migrate_write d (fst w) e' = Some w"
    by (rule writes_lookup [OF assms(3) w(2) assms(1,2)])
  have "(fst w, fst (snd w)) = (f, k)"
    using inj_onD [OF assms(4) [unfolded distinct_names_def], of "(fst w, fst (snd w))" "(f, k)"] e'(1) assms(5) w(1)
    by (simp add: write_place_def)
  with e' assms(5,6) show False by simp
qed

lemma migrate_holds:
  assumes "secret_laws (d_host d) L view" and "obliging L" and "served view wallet p handle appId s"
    and "\<And>f k type t. \<not> entry_in (d_host d) view p s f k type t"
    and "wf_entries b" and "b_open b" and "keyed b" and "distinct_names (d_host d) b"
  defines "s' \<equiv> migrate_folders d L wallet (Backend_folderList b) b s"
  shows "served view wallet p handle appId s'"
    and "lookup_entry b f k = Some e \<Longrightarrow> migrate_write d f e = Some (f, k, type, v) \<Longrightarrow>
      entry_in (d_host d) view p s' f k type (encoded L type v)"
    and "lookup_entry b f k = Some e \<Longrightarrow> migrate_write d f e = None \<Longrightarrow> \<not> entry_in (d_host d) view p s' f k type t"
proof -
  let ?ws = "concat (map (folder_writes d b) (Backend_folderList b))" and ?h = "d_host d"
  note mem = writes_places(1) [OF assms(5-7), of _ d]
  have t: "\<forall>(f, k, type, v) \<in> set ?ws. type \<in> {PlainText, Base64, MapText}"
  proof
    fix w assume "w \<in> set ?ws"
    then obtain f k e where "migrate_write d f e = Some w" unfolding mem by blast
    then show "case w of (f, k, type, v) \<Rightarrow> type \<in> {PlainText, Base64, MapText}" by (auto simp: migrate_write_def split: if_splits)
  qed
  have r: "served view wallet p handle appId s' \<and>
      (\<forall>(f, k, type, v) \<in> set ?ws. entry_in ?h view p s' f k type (encoded L type v)) \<and>
      (\<forall>f k. (c_string ?h f, c_string ?h k) \<notin> write_place ?h ` set ?ws \<longrightarrow> entry_in ?h view p s' f k = entry_in ?h view p s f k)"
    unfolding s'_def migrate_folders_writes
    by (rule write_items_hold [OF assms(1-3) writes_distinct [OF assms(5-8)] t]) (rule assms(4))
  then show "served view wallet p handle appId s'" by blast
  show "entry_in ?h view p s' f k type (encoded L type v)"
    if "lookup_entry b f k = Some e" "migrate_write d f e = Some (f, k, type, v)"
  proof -
    have "(f, k, type, v) \<in> set ?ws" unfolding mem using that by blast
    then show ?thesis using r by blast
  qed
  show "\<not> entry_in ?h view p s' f k type t" if "lookup_entry b f k = Some e" "migrate_write d f e = None"
    using not_written [OF assms(5-8) that] r assms(4) by simp
qed

text \<open>C12. When the wallet the entries go to has none and the service carries out every call, every entry of the migrated
  wallet is read back through a handle for the new one: bytes as they are, passwords and maps when their texts stand for
  them and have no null bytes.  Entries of other types, and maps without a value, are left out.\<close>

theorem migrated_entries_read:
  assumes "secret_laws (d_host d) L view" and "obliging L" and "served view wallet p handle appId s"
    and "\<And>f k type t. \<not> entry_in (d_host d) view p s f k type t"
    and "wf_entries b" and "b_open b" and "keyed b" and "distinct_names (d_host d) b" and "lookup_entry b f k = Some e"
  shows "let s' = migrate_folders d L wallet (Backend_folderList b) b s; r = fst (KWalletD_readEntry d L handle f k appId s') in
    served view wallet p handle appId s' \<and>
    (e_type e = Stream \<or> e_type e = Map \<and> keepable d Map (e_value e) \<and> e_value e \<noteq> [] \<longrightarrow> r = e_value e) \<and>
    (e_type e = Password \<and> keepable d Password (toUtf8 (d_host d) (Entry_password (d_host d) e)) \<longrightarrow>
      r = toUtf8 (d_host d) (Entry_password (d_host d) e)) \<and>
    (e_type e \<notin> {Password, Stream, Map} \<longrightarrow> (\<forall>type t. \<not> entry_in (d_host d) view p s' f k type t))"
proof -
  let ?s' = "migrate_folders d L wallet (Backend_folderList b) b s" and ?h = "d_host d"
  have sa: "searches_answered L" using assms(2) by (simp add: obliging_def)
  note m = migrate_holds [OF assms(1-8)]
  have key: "e_key e = k" using assms(7,9) by (simp add: keyed_def)
  have read: "fst (KWalletD_readEntry d L handle f k appId ?s') = shown d L type (encoded L type v)"
    if "migrate_write d f e = Some (f, k, type, v)" for type v
    using readEntry_holds [OF assms(1) sa m(1,2)] assms(9) that by simp
  have give: "shown d L (value_type_of type) (encoded L (value_type_of type) (given d type v)) = v" if "keepable d type v" for type v
    by (rule shown_given [OF assms(1) that])
  have A: "e_type e = Stream \<longrightarrow> fst (KWalletD_readEntry d L handle f k appId ?s') = e_value e"
    using read [of Base64 "e_value e"] give [of Stream "e_value e"] key
    by (simp add: migrate_write_def value_type_of_def given_def keepable_def entry_type_defs)
  have B: "e_type e = Map \<and> keepable d Map (e_value e) \<and> e_value e \<noteq> [] \<longrightarrow>
      fst (KWalletD_readEntry d L handle f k appId ?s') = e_value e"
    using read [of MapText "d_mapJson d (d_unstreamMap d (e_value e))"] give [of Map "e_value e"] key
    by (simp add: migrate_write_def value_type_of_def given_def entry_type_defs)
  have C: "e_type e = Password \<and> keepable d Password (toUtf8 ?h (Entry_password ?h e)) \<longrightarrow>
      fst (KWalletD_readEntry d L handle f k appId ?s') = toUtf8 ?h (Entry_password ?h e)"
    using read [of PlainText "toUtf8 ?h (Entry_password ?h e)"] give [of Password "toUtf8 ?h (Entry_password ?h e)"] key
    by (auto simp: migrate_write_def value_type_of_def given_def keepable_def entry_type_defs)
  have D: "\<not> entry_in ?h view p ?s' f k type t" if "e_type e \<notin> {Password, Stream, Map}" for type t
    using m(3) [OF assms(9)] that by (simp add: migrate_write_def)
  show ?thesis unfolding Let_def by (intro conjI) (use m(1) A B C D in blast)+
qed

theorem migrated_entries_read_witness:
  "fst (KWalletD_readEntry example_desktop shelf_service 5 (qs ''f'') (qs ''k'') (qs ''app'')
     (migrate_folders example_desktop shelf_service (qs ''w'') [qs ''f''] (one_entry\<lparr>b_entries := [(qs ''f'', [(qs ''k'', (text_entry ''k'')\<lparr>e_type := Stream, e_value := [0, 7]\<rparr>)])]\<rparr>) shelf_daemon)) = [0, 7]"
proof -
  let ?e = "(text_entry ''k'')\<lparr>e_type := Stream, e_value := [0, 7]\<rparr>"
  let ?b = "one_entry\<lparr>b_entries := [(qs ''f'', [(qs ''k'', ?e)])]\<rparr>"
  have l: "secret_laws (d_host example_desktop) shelf_service shelf_view" by (simp add: shelf_laws)
  have look: "lookup_entry ?b f k = (if f = qs ''f'' \<and> k = qs ''k'' then Some ?e else None)" for f k
    by (simp add: lookup_entry_def content_def qmap_find_def)
  have b: "wf_entries ?b" "b_open ?b" using one_entry_simps(1) by (simp_all add: wf_entries_def qmap_wf_def qmap_find_def)
  have k: "keyed ?b" unfolding keyed_def look by (simp add: text_entry_def)
  have i: "distinct_names (d_host example_desktop) ?b"
    unfolding distinct_names_def by (rule inj_onI) (auto simp: look split: if_splits)
  have "lookup_entry ?b (qs ''f'') (qs ''k'') = Some ?e" by (simp add: look)
  from migrated_entries_read [OF l shelf_obliging shelf_served shelf_empty b k i this]
  show ?thesis by (simp add: Let_def Backend_folderList_def qmap_keys_def)
qed

end
