(* ===== verification/KWalletDErrors.thy ===== *)
theory KWalletDErrors
  imports KWalletDMigrate
begin

text \<open>
  What goes wrong behind \<open>KWalletD\<close>: a list of a folder with an empty value, and a wallet that cannot be opened in the background.
\<close>

section \<open>An empty value\<close>

text \<open>Reading an entry of any kind leaves the daemon as it is; an empty value of bytes counts as a failure.\<close>

lemma read_typed_holds:
  assumes "secret_laws (d_host d) L view" and "searches_answered L" and "served view wallet p handle appId s"
    and "entry_in (d_host d) view p s folder key type t"
  shows "read_typed d L handle wallet folder key appId ok s =
    ((shown d L type t, if type = Base64 then ls_fromBase64 L (cstr t) \<noteq> [] else type = MapText \<longrightarrow> ok), s)"
proof -
  note sv = served_parts [OF assms(3)]
  obtain i where i: "holds (view (sc_world (kw_backend s)) p) i (c_string (d_host d) folder) (c_string (d_host d) key) type t"
    using assms(4) unfolding entry_in_def kw_items_def by blast
  have k: "keyType (d_host d) L wallet folder key s = (entry_type_of type, s)"
    using keyType_holds [OF assms(1,2) _ sv(3) assms(4)] sv(4) by (simp add: kw_items_def)
  have r: "client_readEntry (d_host d) L key want folder wallet (kw_backend s) =
      ((if want = type then (value_as L type (Some (t, ascii ''text/plain'')), True) else ([], False)), kw_backend s)"
    if "want \<noteq> UnknownText" for want
    using read_holds [OF assms(1,2) sv(4,3) i that] .
  have t: "ls_text L (t, ascii ''text/plain'') = Some t" using assms(1) by (simp add: secret_laws_def codec_law_def)
  have "type \<in> {PlainText, Base64, MapText}" using i by (simp add: holds_def)
  then show ?thesis
    using sv(1,2) k
    by (auto simp: read_typed_def KWalletD_readMap_def readBinary_def readString_def ask_def r t shown_def
        value_as_def entry_type_of_def entry_type_defs Let_def)
qed

lemma read_typed_absent:
  assumes "secret_laws (d_host d) L view" and "searches_answered L" and "served view wallet p handle appId s"
    and "\<And>type t. \<not> entry_in (d_host d) view p s folder key type t"
  shows "\<exists>b. read_typed d L handle wallet folder key appId ok s = ((b, False), s)"
proof -
  note sv = served_parts [OF assms(3)]
  have k: "keyType (d_host d) L wallet folder key s = (Unknown, s)"
    using keyType_absent [OF assms(1,2) _ sv(3)] sv(4) assms(4) by (simp add: kw_items_def)
  have "client_readEntry (d_host d) L key PlainText folder wallet (kw_backend s) = (([], False), kw_backend s)"
    using read_absent [OF assms(1,2) sv(4,3)] assms(4) unfolding entry_in_def kw_items_def by blast
  then show ?thesis using k by (simp add: read_typed_def readString_def ask_def entry_type_defs)
qed

lemma read_typed_same:
  assumes "secret_laws (d_host d) L view" and "searches_answered L" and "served view wallet p handle appId s"
  shows "\<exists>b ok'. read_typed d L handle wallet folder key appId ok s = ((b, ok'), s)"
  using read_typed_holds [OF assms] read_typed_absent [OF assms] by (cases "\<exists>type t. entry_in (d_host d) view p s folder key type t") metis+

lemma empty_value_stops:
  assumes "secret_laws (d_host d) L view" and "searches_answered L" and "served view wallet p handle appId s"
    and "entry_in (d_host d) view p s folder key Base64 t" and "ls_fromBase64 L (cstr t) = []" and "key \<in> set keys"
  shows "read_entries_list d L handle wallet folder appId keys m ok s = ([], s)"
  using assms(6)
proof (induction keys arbitrary: m ok)
  case (Cons x ks)
  obtain b ok' where r: "read_typed d L handle wallet folder x appId ok s = ((b, ok'), s)"
    using read_typed_same [OF assms(1-3)] by blast
  show ?case
  proof (cases "x = key")
    case True
    then show ?thesis using read_typed_holds [OF assms(1-4)] assms(5) by simp
  next
    case False
    with Cons.prems have "key \<in> set ks" by simp
    with Cons.IH r show ?thesis by simp
  qed
qed simp

lemma listEntries_key:
  assumes "secret_laws h L view" and "searches_answered L" and "tidy (view (sc_world c) p)" and "linked wallet p c"
    and "holds (view (sc_world c) p) i (c_string h folder) (c_string h key) type t" and "fromUtf8 h (c_string h key) = key"
  shows "\<exists>keys. listEntries h L folder wallet c = ((keys, True), c) \<and> key \<in> set keys"
proof -
  obtain a where a: "view (sc_world c) p i = Some (a, Some (t, ascii ''text/plain''))" "a (ascii ''server'') = Some (c_string h folder)"
    "a (ascii ''user'') = Some (c_string h key)" using assms(5) unfolding holds_def by blast
  obtain l where l: "ls_attributes L (sc_world c) i = Some l" "map_of l = a"
    using assms(1) a(1) unfolding secret_laws_def item_law_def by blast
  obtain js where js: "ls_search L (sc_world c) (Some p) (folder_query h folder) = Some js"
    using assms(2) unfolding searches_answered_def by blast
  then have "set js = {i. \<exists>a v. view (sc_world c) p i = Some (a, v) \<and> map_of (folder_query h folder) \<subseteq>\<^sub>m a}"
    using assms(1) unfolding secret_laws_def search_law_def by blast
  then have "i \<in> set js" using a by (auto simp: folder_query_def map_le_def)
  then have "key \<in> set (attribute_values h L (sc_world c) (ascii ''user'') js)"
    using l a(3) assms(6) by (auto simp: attribute_values_def in_map_filter intro!: bexI [of _ i])
  then show ?thesis by (simp add: listEntries_def linked_simps [OF assms(4)] js)
qed

text \<open>C39. A folder in which one entry of bytes is empty is listed without any entry: the empty value is taken for one that
  could not be read, and the whole result is dropped, although every entry can be read alone.\<close>

theorem empty_value_hides_folder:
  assumes "secret_laws (d_host d) L view" and "searches_answered L" and "served view wallet p handle appId s"
    and "entry_in (d_host d) view p s folder key Base64 t" and "ls_fromBase64 L (cstr t) = []"
    and "fromUtf8 (d_host d) (c_string (d_host d) key) = key" and "entry_in (d_host d) view p s folder other type u"
  shows "KWalletD_entriesList d L handle folder appId s = ([], s) \<and>
    KWalletD_readEntry d L handle folder other appId s = (shown d L type u, s)"
proof -
  note sv = served_parts [OF assms(3)]
  obtain i where i: "holds (view (sc_world (kw_backend s)) p) i (c_string (d_host d) folder) (c_string (d_host d) key) Base64 t"
    using assms(4) unfolding entry_in_def kw_items_def by blast
  obtain keys where k: "listEntries (d_host d) L folder wallet (kw_backend s) = ((keys, True), kw_backend s)" "key \<in> set keys"
    using listEntries_key [OF assms(1,2) sv(4,3) i assms(6)] by blast
  then show ?thesis
    using sv(1,2) empty_value_stops [OF assms(1-5) k(2)] readEntry_holds [OF assms(1-3,7)]
    by (simp add: KWalletD_entriesList_def ask_def)
qed

theorem empty_value_hides_folder_witness:
  "\<exists>s. KWalletD_readEntry example_desktop shelf_service 5 (qs ''f'') (qs ''m'') (qs ''app'') s = ([9], s) \<and>
     KWalletD_entriesList example_desktop shelf_service 5 (qs ''f'') (qs ''app'') s = ([], s)"
proof -
  let ?w1 = "(qs ''f'', qs ''k'', Base64, [] :: bytes)" and ?w2 = "(qs ''f'', qs ''m'', Base64, [9 :: byte])"
  let ?s = "fold (write_item example_host shelf_service (qs ''w'')) [?w1, ?w2] shelf_daemon"
  have l: "secret_laws (d_host example_desktop) shelf_service shelf_view" by (simp add: shelf_laws)
  have c: "c_string example_host (qs ''k'') = ascii ''k''" "c_string example_host (qs ''m'') = ascii ''m''"
    by (simp_all add: c_string_def cstr_def example_host_def qs_def ascii_def)
  then have d: "distinct (map (write_place example_host) [?w1, ?w2])" by (simp add: write_place_def ascii_def)
  have n: "\<not> entry_in example_host shelf_view (qs ''/c'') shelf_daemon f k ty t" for f k ty t by (rule shelf_empty)
  have "served shelf_view (qs ''w'') (qs ''/c'') 5 (qs ''app'') ?s \<and>
      entry_in example_host shelf_view (qs ''/c'') ?s (qs ''f'') (qs ''k'') Base64 (encoded shelf_service Base64 []) \<and>
      entry_in example_host shelf_view (qs ''/c'') ?s (qs ''f'') (qs ''m'') Base64 (encoded shelf_service Base64 [9])"
    using write_items_hold [OF shelf_laws shelf_obliging shelf_served d _ n] by auto
  moreover have e: "encoded shelf_service Base64 b = doubled b" for b
    by (simp add: encoded_def shelf_service_def cstr_nonzero doubled_nonzero)
  moreover have "fromUtf8 example_host (c_string example_host (qs ''k'')) = qs ''k''"
    unfolding c by (simp add: example_host_def ascii_def qs_def)
  moreover have "shown example_desktop shelf_service Base64 (doubled b) = b" "ls_fromBase64 shelf_service (cstr (doubled b)) = b" for b
    by (simp_all add: shown_def cstr_nonzero doubled_nonzero shelf_service_def)
  ultimately show ?thesis
    using empty_value_hides_folder [OF l shelf_answers, of "qs ''w''" "qs ''/c''" 5 "qs ''app''" ?s "qs ''f''" "qs ''k''" "doubled []" "qs ''m''" Base64 "doubled [9]"]
    by (intro exI [of _ ?s]) simp
qed

section \<open>Opening in the background\<close>

text \<open>A wallet that was asked for in the background is tried once, and the application hears of it only when it is
  open: when it cannot be opened no signal is sent, and the request is forgotten.\<close>

theorem async_open_outcome:
  assumes "kw_pending s = a # as" and "qmap_wf (kw_openWallets s)" and "async_timeout h L s = Ret s'"
  shows "(\<exists>s1. openInternal h L (ao_wallet a) (ao_wId a) (ao_appId a) (s\<lparr>kw_pending := as\<rparr>) = Ret (-1, s1) \<and> s' = s1 \<and>
      kw_openWallets s' = kw_openWallets s \<and> kw_signals s' = kw_signals s) \<or>
    (\<exists>r \<ge> 0. walletForHandle r (ao_appId a) s' = ao_wallet a \<and> kw_signals s' = kw_signals s @ [KwAsyncOpened (ao_tid a) r])"
proof -
  obtain r s1 where o: "openInternal h L (ao_wallet a) (ao_wId a) (ao_appId a) (s\<lparr>kw_pending := as\<rparr>) = Ret (r, s1)"
    "s' = (if r < 0 then s1 else kw_emit (KwAsyncOpened (ao_tid a) r) s1)"
    using assms(1,3) by (auto simp: async_timeout_def run_bind_Ret_iff split: if_splits)
  show ?thesis
  proof (cases "r < 0")
    case True
    then have "r = -1 \<and> kw_openWallets s1 = kw_openWallets s \<and> kw_signals s1 = kw_signals s"
      using o(1) by (auto simp: openInternal_def ask_eq case_prod_beta kw_newHandle_def Let_def split: if_splits)
    with o True show ?thesis by auto
  next
    case False
    then have "0 \<le> r" by simp
    then obtain s2 where "s1 = s2\<lparr>kw_random := kw_random s2 + 1, kw_openWallets := qmap_insert (r, ao_appId a) (ao_wallet a) (kw_openWallets s2)\<rparr>"
      "kw_openWallets s2 = kw_openWallets s" "kw_signals s2 = kw_signals s"
      using openInternal_handle [OF o(1)] by (metis kwalletd.select_convs(3,10) kwalletd.surjective kwalletd.update_convs(6))
    with False o(2) assms(2) show ?thesis
      by (intro disjI2 exI [of _ r]) (simp add: walletForHandle_def kw_emit_def qmap_simps)
  qed
qed

theorem async_open_outcome_witness:
  "\<exists>s' r. async_timeout example_host shelf_service
       (shelf_daemon\<lparr>kw_pending := [\<lparr>ao_wallet = qs ''w'', ao_wId = 1, ao_appId = qs ''app'', ao_tid = 3\<rparr>]\<rparr>) = Ret s' \<and>
     kw_signals s' = [KwAsyncOpened 3 r]"
proof -
  let ?a = "\<lparr>ao_wallet = qs ''w'', ao_wId = 1, ao_appId = qs ''app'', ao_tid = 3\<rparr>"
  let ?s = "shelf_daemon\<lparr>kw_pending := [?a]\<rparr>"
  have "kw_backend (?s\<lparr>kw_pending := []\<rparr>) = shelf_client" "kw_random (?s\<lparr>kw_pending := []\<rparr>) = 0"
    by (simp_all add: shelf_daemon_def)
  then obtain s1 where o: "openInternal example_host shelf_service (qs ''w'') 1 (qs ''app'') (?s\<lparr>kw_pending := []\<rparr>) = Ret (1, s1)"
    using shelf_openInternal by blast
  then have t: "async_timeout example_host shelf_service ?s = Ret (kw_emit (KwAsyncOpened 3 1) s1)" by (simp add: async_timeout_def)
  have p: "kw_pending ?s = ?a # []" "qmap_wf (kw_openWallets ?s)" by (simp_all add: shelf_daemon_def qmap_wf_def)
  have "kw_signals ?s = []" by (simp add: shelf_daemon_def)
  with async_open_outcome [OF p t] o t show ?thesis by auto
qed

end
