(* ===== verification/KWalletLibSessions.thy ===== *)
theory KWalletLibSessions
  imports KWalletLibProps KWalletDErrors
begin

text \<open>
  How long an object of the library is open: opening it in the two ways, the signals that close it, its end, and the
  invariant of the objects of an application in all its runs.
\<close>

section \<open>Opening\<close>

definition collections_wf :: "'s kwalletd \<Rightarrow> bool" where
  "collections_wf k \<longleftrightarrow> qmap_wf (sc_openCollections (kw_backend k))"

lemma retrieve_linked:
  assumes "qmap_wf (sc_openCollections c)" and "retrieveCollection h L name c = (Some p, c')"
  shows "linked name p c'"
  using assms
  by (auto simp: retrieveCollection_def attemptConnection_def on_world_def linked_def qmap_simps Let_def split: if_splits option.splits prod.splits)

lemma list_create_wf:
  assumes "qmap_wf (sc_openCollections c)"
  shows "qmap_wf (sc_openCollections (snd (listCollections h L c)))" and "qmap_wf (sc_openCollections (snd (createCollection h L name c)))"
  using assms by (auto simp: listCollections_def createCollection_def attemptConnection_def on_world_def Let_def split: prod.splits)

lemma unlock_linked:
  assumes "qmap_wf (sc_openCollections c)" and "unlockCollection h L name c = ((True, True), c')"
  shows "\<exists>p. linked name p c'"
proof -
  obtain c1 where c1: "attemptConnection L c = (True, c1)" "qmap_wf (sc_openCollections c1)"
    using assms by (auto simp: unlockCollection_def attemptConnection_def on_world_def Let_def split: if_splits prod.splits)
  obtain r c2 where c2: "retrieveCollection h L name c1 = (r, c2)" by fastforce
  with assms(2) c1(1) obtain p where p: "r = Some p" by (cases r) (auto simp: unlockCollection_def)
  have l: "linked name p c2" using retrieve_linked [OF c1(2)] c2 p by simp
  have "linked name p (snd (watchCollection h L name c2))"
    using l by (auto simp: watchCollection_def linked_simps [OF l] linked_def Let_def)
  then have "linked name p c'"
    using assms(2) c1(1) c2 p
    by (auto simp: unlockCollection_def on_world_def linked_def Let_def split: if_splits prod.splits)
  then show ?thesis by blast
qed

lemma openInternal_linked:
  assumes "collections_wf s" and "openInternal h L name wId appId s = Ret (r, s')" and "0 \<le> r"
  shows "\<exists>p. linked name p (kw_backend s')"
proof -
  obtain ws ok c1 where c1: "listCollections h L (kw_backend s) = ((ws, ok), c1)" by (metis prod.collapse)
  obtain ok' c2 where c2: "(if name \<notin> set ws then createCollection h L name c1 else (ok, c1)) = (ok', c2)" by fastforce
  obtain u ok2 c3 where c3: "unlockCollection h L name c2 = ((u, ok2), c3)" by (metis prod.collapse)
  have w: "qmap_wf (sc_openCollections c2)"
    using assms(1) list_create_wf(1) [of "kw_backend s" h L] list_create_wf(2) [of c1 h L name] c1 c2
    by (auto simp: collections_wf_def split: if_splits)
  have a: "u \<and> ok2 \<and> kw_backend s' = snd (listFolders h L name c3)"
    using assms(2,3) c1 c2 c3
    by (auto simp: openInternal_def ask_eq Let_def case_prod_beta kw_newHandle_def structure_insert_all_other split: if_splits)
  with c3 have "unlockCollection h L name c2 = ((True, True), c3)" by simp
  then obtain p where "linked name p c3" using unlock_linked [OF w] by blast
  with a listFolders_linked [OF this] show ?thesis by auto
qed

definition new_wallet :: "qstring \<Rightarrow> wallet" where
  "new_wallet name = \<lparr>w_name = name, w_folder = [], w_handle = -1, w_transactionId = None, w_errors = 0, w_signals = []\<rparr>"

lemma openWallet_sync:
  assumes "reliable B l"
  shows "Wallet_openWallet B name wId Synchronous l =
    run_bind (bus_call B (KWalletD_open (d_host (bus_desktop B)) (bus_libsecret B) name wId (bus_appId B)) l) (\<lambda>(r, l).
      case r of
        None \<Rightarrow> Ret (None, l)
      | Some t \<Rightarrow>
          if t < 0 then Ret (None, l) else Ret (Some ((new_wallet name)\<lparr>w_transactionId := Some t, w_handle := t\<rparr>), l))"
  using assms
  by (simp add: Wallet_openWallet_def Wallet_new_def Wallet_delete_def new_wallet_def reliable_def cong: option.case_cong if_cong)

text \<open>An object from a synchronous \<open>openWallet\<close> is open on the wallet of its name, with no folder chosen, and the
  daemon serves its handle to the application and knows the collection behind it.\<close>

theorem opened_object_served:
  assumes "reliable B l" and "qmap_wf (kw_openWallets (lb_daemon l))" and "collections_wf (lb_daemon l)"
    and "Wallet_openWallet B name wId Synchronous l = Ret (Some w, l')"
  shows "Wallet_isOpen w \<and> 0 \<le> w_handle w \<and> Wallet_walletName w = name \<and> Wallet_currentFolder w = [] \<and> reliable B l' \<and>
    walletForHandle (w_handle w) (bus_appId B) (lb_daemon l') = name \<and> (\<exists>p. linked name p (kw_backend (lb_daemon l')))"
proof -
  let ?f = "KWalletD_open (d_host (bus_desktop B)) (bus_libsecret B) name wId (bus_appId B)"
  let ?w = "new_wallet name"
  obtain r l1 where c: "bus_call B ?f l = Ret (r, l1)"
    "(case r of None \<Rightarrow> Ret (None, l1) | Some t \<Rightarrow> if t < 0 then Ret (None, l1) else Ret (Some (?w\<lparr>w_transactionId := Some t, w_handle := t\<rparr>), l1)) =
       Ret (Some w, l')"
    using assms(4) by (auto simp: openWallet_sync [OF assms(1)] run_bind_Ret_iff)
  then have r: "bus_call B ?f l = Ret (r, l')" "r \<noteq> None" "0 \<le> the r" "w = ?w\<lparr>w_transactionId := r, w_handle := the r\<rparr>"
    by (auto split: option.splits if_splits)
  then obtain t k' where k: "?f (lb_daemon l) = Ret (t, k')" "r = Some t" "l' = after_call l k'" "0 \<le> t"
    by (elim call_reliable_Ret [OF assms(1)]) (auto split: if_splits)
  obtain s0 where o: "openInternal (d_host (bus_desktop B)) (bus_libsecret B) name wId (bus_appId B) (lb_daemon l) = Ret (t, s0)"
    "k' = kw_emit (KwOpened name) s0"
    using k(1,4) by (auto simp: KWalletD_open_def run_bind_Ret_iff split: if_splits)
  obtain s1 folders where s1: "s0 = s1\<lparr>kw_random := kw_random s1 + 1, kw_openWallets := qmap_insert (t, bus_appId B) name (kw_openWallets s1)\<rparr>"
    "kw_openWallets s1 = kw_openWallets (lb_daemon l)"
    by (rule openInternal_handle [OF o(1) k(4)])
  have "walletForHandle t (bus_appId B) k' = name"
    using assms(2) by (simp add: o(2) s1 walletForHandle_def kw_emit_def qmap_simps)
  moreover have "\<exists>p. linked name p (kw_backend k')"
    using openInternal_linked [OF assms(3) o(1) k(4)] by (simp add: o(2) kw_emit_def)
  ultimately show ?thesis
    using assms(1) k r(4) by (simp add: new_wallet_def Wallet_isOpen_def Wallet_walletName_def Wallet_currentFolder_def)
qed

lemma openWallet_async:
  assumes "reliable B l"
  shows "Wallet_openWallet B name wId Asynchronous l =
    run_bind (KWalletD_openAsync name wId (bus_appId B) (lb_daemon l)) (\<lambda>(t, k).
      Ret (Some ((new_wallet name)\<lparr>w_transactionId := Some t, w_errors := (if t < 0 then 1 else 0)\<rparr>), after_call l k))"
proof -
  have "bus_call B (KWalletD_openAsync name wId (bus_appId B)) l =
      run_bind (KWalletD_openAsync name wId (bus_appId B) (lb_daemon l)) (\<lambda>(t, k). Ret (Some t, after_call l k))"
  proof (cases "KWalletD_openAsync name wId (bus_appId B) (lb_daemon l)")
    case (Ret x)
    obtain t k where x: "x = (t, k)" by fastforce
    with Ret have "\<not> error_sent (lb_daemon l) k"
      by (intro no_error_same) (auto simp: KWalletD_openAsync_def run_bind_Ret_iff split: if_splits)
    then show ?thesis using call_reliable [of B l "KWalletD_openAsync name wId (bus_appId B)" t k] assms Ret x by simp
  qed (use assms in \<open>simp_all add: bus_call_def reliable_def Let_def\<close>)
  then show ?thesis using assms
    by (cases "KWalletD_openAsync name wId (bus_appId B) (lb_daemon l)")
      (simp_all add: Wallet_openWallet_def Wallet_new_def new_wallet_def reliable_def split: prod.split)
qed

definition requested :: "'s kwalletd \<Rightarrow> qstring \<Rightarrow> wallet" where
  "requested k name =
     (let t = kw_lastTransaction k + 1
      in (new_wallet name)\<lparr>w_transactionId := Some t, w_errors := (if t < 0 then 1 else 0)\<rparr>)"

text \<open>The timers of several requests fire one after the other, in the order of the requests.\<close>

primrec async_timeouts :: "host \<Rightarrow> 's libsecret \<Rightarrow> nat \<Rightarrow> 's kwalletd \<Rightarrow> 's kwalletd run" where
  "async_timeouts h L 0 s = Ret s"
| "async_timeouts h L (Suc n) s = run_bind (async_timeout h L s) (async_timeouts h L n)"

lemma pending_served:
  assumes "kw_pending s = as @ bs" and "async_timeouts h L (length as) s = Ret s'"
  shows "kw_pending s' = bs \<and> (qmap_wf (kw_openWallets s) \<longrightarrow> qmap_wf (kw_openWallets s')) \<and>
    (\<exists>xs. kw_signals s' = kw_signals s @ xs \<and> (\<forall>x \<in> set xs. \<exists>a \<in> set as. \<exists>r. x = KwAsyncOpened (ao_tid a) r))"
  using assms
proof (induction as arbitrary: s)
  case (Cons a as)
  obtain r s1 where o: "openInternal h L (ao_wallet a) (ao_wId a) (ao_appId a) (s\<lparr>kw_pending := as @ bs\<rparr>) = Ret (r, s1)"
    and s': "async_timeouts h L (length as) (if r < 0 then s1 else kw_emit (KwAsyncOpened (ao_tid a) r) s1) = Ret s'"
    using Cons.prems by (auto simp: async_timeout_def run_bind_Ret_iff split: if_splits)
  let ?s = "if r < 0 then s1 else kw_emit (KwAsyncOpened (ao_tid a) r) s1" and ?x = "if r < 0 then [] else [KwAsyncOpened (ao_tid a) r]"
  note f = openInternal_frame(1-3) [OF o]
  have p: "kw_pending ?s = as @ bs" "kw_signals ?s = kw_signals s @ ?x" "kw_openWallets ?s = kw_openWallets s1"
    using f(1,2) by (simp_all add: kw_emit_def)
  from Cons.IH [OF p(1) s'] obtain xs where xs: "kw_pending s' = bs" "qmap_wf (kw_openWallets s1) \<longrightarrow> qmap_wf (kw_openWallets s')"
    "kw_signals s' = (kw_signals s @ ?x) @ xs" "\<forall>x \<in> set xs. \<exists>a \<in> set as. \<exists>r. x = KwAsyncOpened (ao_tid a) r"
    unfolding p(2,3) by blast
  have "\<forall>x \<in> set (?x @ xs). \<exists>b \<in> set (a # as). \<exists>r. x = KwAsyncOpened (ao_tid b) r" using xs(4) by auto
  moreover have "kw_signals s' = kw_signals s @ (?x @ xs)" using xs(3) by simp
  ultimately show ?case using xs(1,2) f(3) by auto
qed simp

lemma async_request_served:
  assumes "reliable B l" and "0 \<le> wId"
    and "Wallet_openWallet B name wId Asynchronous l = Ret (r, l1)"
    and "async_timeouts (d_host (bus_desktop B)) (bus_libsecret B) (length (kw_pending (lb_daemon l))) (lb_daemon l1) = Ret k1"
    and "async_timeout (d_host (bus_desktop B)) (bus_libsecret B) k1 = Ret k"
  obtains handle k0 xs where "r = Some (requested (lb_daemon l) name)" and "lb_seen l1 = lb_seen l"
    and "openInternal (d_host (bus_desktop B)) (bus_libsecret B) name wId (bus_appId B) (k1\<lparr>kw_pending := []\<rparr>) = Ret (handle, k0)"
    and "kw_signals k1 = kw_signals (lb_daemon l) @ xs"
    and "\<forall>x \<in> set xs. \<exists>a \<in> set (kw_pending (lb_daemon l)). \<exists>r. x = KwAsyncOpened (ao_tid a) r"
    and "kw_signals k = kw_signals k1 @ (if handle < 0 then [] else [KwAsyncOpened (kw_lastTransaction (lb_daemon l) + 1) handle])"
    and "kw_openWallets k = (if handle < 0 then kw_openWallets k1 else qmap_insert (handle, bus_appId B) name (kw_openWallets k1))"
    and "qmap_wf (kw_openWallets (lb_daemon l)) \<Longrightarrow> qmap_wf (kw_openWallets k1)"
    and "kw_openWallets (lb_daemon l1) = kw_openWallets (lb_daemon l)"
proof -
  let ?h = "d_host (bus_desktop B)" and ?L = "bus_libsecret B" and ?a = "bus_appId B"
  let ?n = "kw_lastTransaction (lb_daemon l) + 1"
  let ?ao = "\<lparr>ao_wallet = name, ao_wId = wId, ao_appId = ?a, ao_tid = ?n\<rparr>"
  let ?k = "(lb_daemon l)\<lparr>kw_lastTransaction := ?n, kw_pending := kw_pending (lb_daemon l) @ [?ao]\<rparr>"
  have r: "r = Some (requested (lb_daemon l) name)" "l1 = after_call l ?k"
    using assms(2,3)
    by (auto simp: openWallet_async [OF assms(1)] KWalletD_openAsync_def c_int_def requested_def run_bind_Ret_iff Let_def split: if_splits)
  have "kw_pending (lb_daemon l1) = kw_pending (lb_daemon l) @ [?ao]" using r(2) by simp
  from pending_served [OF this assms(4)] obtain xs where xs: "kw_pending k1 = [?ao]"
    "qmap_wf (kw_openWallets (lb_daemon l)) \<longrightarrow> qmap_wf (kw_openWallets k1)" "kw_signals k1 = kw_signals (lb_daemon l) @ xs"
    "\<forall>x \<in> set xs. \<exists>a \<in> set (kw_pending (lb_daemon l)). \<exists>r. x = KwAsyncOpened (ao_tid a) r"
    using r(2) by auto
  obtain handle k0 where o: "openInternal ?h ?L name wId ?a (k1\<lparr>kw_pending := []\<rparr>) = Ret (handle, k0)"
    "k = (if handle < 0 then k0 else kw_emit (KwAsyncOpened ?n handle) k0)"
    using assms(5) xs(1) by (auto simp: async_timeout_def run_bind_Ret_iff split: if_splits)
  note f = openInternal_frame [OF o(1)]
  have k: "kw_signals k = kw_signals k1 @ (if handle < 0 then [] else [KwAsyncOpened ?n handle])"
    "kw_openWallets k = (if handle < 0 then kw_openWallets k1 else qmap_insert (handle, ?a) name (kw_openWallets k1))"
    using o(2) f(1,4,5) by (simp_all add: kw_emit_def)
  show thesis by (rule that [OF r(1) _ o(1) xs(3,4) k]) (use r(2) xs(2) in simp_all)
qed

text \<open>A request that is the only one.\<close>

lemma async_request_alone:
  assumes "reliable B l" and "kw_pending (lb_daemon l) = []" and "0 \<le> wId"
    and "Wallet_openWallet B name wId Asynchronous l = Ret (r, l1)"
    and "async_timeout (d_host (bus_desktop B)) (bus_libsecret B) (lb_daemon l1) = Ret k"
  obtains handle k0 where "r = Some (requested (lb_daemon l) name)" and "lb_seen l1 = lb_seen l"
    and "openInternal (d_host (bus_desktop B)) (bus_libsecret B) name wId (bus_appId B) ((lb_daemon l1)\<lparr>kw_pending := []\<rparr>) = Ret (handle, k0)"
    and "kw_signals k = kw_signals (lb_daemon l) @ (if handle < 0 then [] else [KwAsyncOpened (kw_lastTransaction (lb_daemon l) + 1) handle])"
    and "kw_openWallets k = (if handle < 0 then kw_openWallets (lb_daemon l) else qmap_insert (handle, bus_appId B) name (kw_openWallets (lb_daemon l)))"
proof -
  have "async_timeouts (d_host (bus_desktop B)) (bus_libsecret B) (length (kw_pending (lb_daemon l))) (lb_daemon l1) = Ret (lb_daemon l1)"
    using assms(2) by simp
  note served = async_request_served [OF assms(1,3,4) this assms(5)]
  obtain handle k0 xs where a: "r = Some (requested (lb_daemon l) name)" "lb_seen l1 = lb_seen l"
    "openInternal (d_host (bus_desktop B)) (bus_libsecret B) name wId (bus_appId B) ((lb_daemon l1)\<lparr>kw_pending := []\<rparr>) = Ret (handle, k0)"
    "kw_signals (lb_daemon l1) = kw_signals (lb_daemon l) @ xs" "\<forall>x \<in> set xs. \<exists>a \<in> set (kw_pending (lb_daemon l)). \<exists>r. x = KwAsyncOpened (ao_tid a) r"
    "kw_signals k = kw_signals (lb_daemon l1) @ (if handle < 0 then [] else [KwAsyncOpened (kw_lastTransaction (lb_daemon l) + 1) handle])"
    "kw_openWallets k = (if handle < 0 then kw_openWallets (lb_daemon l1) else qmap_insert (handle, bus_appId B) name (kw_openWallets (lb_daemon l1)))"
    "kw_openWallets (lb_daemon l1) = kw_openWallets (lb_daemon l)" by (rule served)
  then have "xs = []" using assms(2) by (cases xs) auto
  with a show thesis by (intro that [of handle k0]) simp_all
qed

lemma others_ignored:
  assumes "w_transactionId w = Some t" and "\<forall>x \<in> set xs. \<exists>u r. x = KwAsyncOpened u r \<and> u \<noteq> t"
  shows "fold (wallet_slot appId) xs w = w"
  using assms(2) by (induction xs) (auto simp: Wallet_walletAsyncOpened_def assms(1))

text \<open>C18. An object from an asynchronous \<open>openWallet\<close> is not open at first, and the answers to the requests that were
  made before it, by this application or others and under other numbers, leave it as it is, however many there are.  When
  the daemon has then worked on its own request, it is open on the wallet if the daemon could open it, under the handle of
  this request, and has emitted \<open>walletOpened\<close> once; the signal says false for the handle 0 although the object is open.  If
  the wallet could not be opened the object emits nothing and stays as it is, so that the application waits for ever.  No
  answer to a later request changes it.\<close>

theorem async_open_answered:
  assumes "reliable B l" and "lb_seen l = length (kw_signals (lb_daemon l))"
    and "\<forall>a \<in> set (kw_pending (lb_daemon l)). ao_tid a \<noteq> kw_lastTransaction (lb_daemon l) + 1"
    and "qmap_wf (kw_openWallets (lb_daemon l))" and "0 \<le> wId"
    and "Wallet_openWallet B name wId Asynchronous l = Ret (r, l1)"
    and "async_timeouts (d_host (bus_desktop B)) (bus_libsecret B) (length (kw_pending (lb_daemon l))) (lb_daemon l1) = Ret k1"
    and "async_timeout (d_host (bus_desktop B)) (bus_libsecret B) k1 = Ret k"
  shows "\<exists>w w' handle k0. r = Some w \<and> \<not> Wallet_isOpen w \<and>
    fst (api_event_loop B ([w], l1\<lparr>lb_daemon := k1\<rparr>)) = [w] \<and> fst (api_event_loop B ([w], l1\<lparr>lb_daemon := k\<rparr>)) = [w'] \<and>
    openInternal (d_host (bus_desktop B)) (bus_libsecret B) name wId (bus_appId B) (k1\<lparr>kw_pending := []\<rparr>) = Ret (handle, k0) \<and>
    (if handle < 0 then w' = w \<and> w_signals w' = [] \<and> kw_openWallets k = kw_openWallets k1
     else w_handle w' = handle \<and> Wallet_isOpen w' \<and> walletForHandle handle (bus_appId B) k = name \<and> w_signals w' = [ApiOpened (handle \<noteq> 0)]) \<and>
    (\<forall>tId handle'. tId \<noteq> kw_lastTransaction (lb_daemon l) + 1 \<longrightarrow> Wallet_walletAsyncOpened tId handle' w' = w')"
proof -
  let ?w = "requested (lb_daemon l) name" and ?n = "kw_lastTransaction (lb_daemon l) + 1"
  obtain handle k0 xs where o: "r = Some ?w" "lb_seen l1 = lb_seen l"
    "openInternal (d_host (bus_desktop B)) (bus_libsecret B) name wId (bus_appId B) (k1\<lparr>kw_pending := []\<rparr>) = Ret (handle, k0)"
    "kw_signals k1 = kw_signals (lb_daemon l) @ xs"
    "\<forall>x \<in> set xs. \<exists>a \<in> set (kw_pending (lb_daemon l)). \<exists>r. x = KwAsyncOpened (ao_tid a) r"
    "kw_signals k = kw_signals k1 @ (if handle < 0 then [] else [KwAsyncOpened ?n handle])"
    "kw_openWallets k = (if handle < 0 then kw_openWallets k1 else qmap_insert (handle, bus_appId B) name (kw_openWallets k1))"
    "qmap_wf (kw_openWallets k1)"
    by (rule async_request_served [OF assms(1,5-8)]) (use assms(4) in blast)
  let ?w' = "if handle < 0 then ?w else w_emit (ApiOpened (handle > 0)) (?w\<lparr>w_handle := handle\<rparr>)"
  have w: "w_handle ?w = -1" "w_transactionId ?w = Some ?n" "w_signals ?w = []"
    by (simp_all add: requested_def new_wallet_def Let_def)
  have "\<forall>x \<in> set xs. \<exists>u r. x = KwAsyncOpened u r \<and> u \<noteq> ?n" using o(5) assms(3) by fastforce
  then have xs: "fold (wallet_slot (bus_appId B)) xs ?w = ?w" by (rule others_ignored [OF w(2)])
  then have "fst (api_event_loop B ([?w], l1\<lparr>lb_daemon := k1\<rparr>)) = [?w]"
    using o(2,4) assms(2) by (simp add: api_event_loop_def unseen_def)
  moreover have "fst (api_event_loop B ([?w], l1\<lparr>lb_daemon := k\<rparr>)) = [?w']"
    using o(2,4,6) w xs assms(2) by (simp add: api_event_loop_def unseen_def Wallet_walletAsyncOpened_def)
  moreover have "\<not> handle < 0 \<Longrightarrow> walletForHandle handle (bus_appId B) k = name"
    using o(7,8) by (simp add: walletForHandle_def qmap_simps)
  moreover have "\<not> Wallet_isOpen ?w" using w(1) by (simp add: Wallet_isOpen_def)
  moreover have "\<not> handle < 0 \<Longrightarrow> w_handle ?w' = handle \<and> Wallet_isOpen ?w' \<and> w_signals ?w' = [ApiOpened (handle \<noteq> 0)]"
    using w(3) by (auto simp: Wallet_isOpen_def w_emit_def)
  moreover have "Wallet_walletAsyncOpened tId handle' ?w' = ?w'" if "tId \<noteq> ?n" for tId handle'
    using that w(2) by (auto simp: Wallet_walletAsyncOpened_def w_emit_def)
  ultimately show ?thesis using o(1,3,7) w(3)
    by (intro exI [of _ ?w] exI [of _ ?w'] exI [of _ handle] exI [of _ k0]) simp
qed

section \<open>Closing\<close>

lemma disconnected_ignored: "w_name w \<noteq> wallet \<or> w_handle w < 0 \<Longrightarrow> fold (wallet_slot appId) (map (KwDisconnected wallet) apps) w = w"
  by (induction apps) (auto simp: slotApplicationDisconnected_def)

lemma disconnected_reach:
  assumes "w_name w = wallet" and "0 \<le> w_handle w" and "wallet \<noteq> []"
  shows "fold (wallet_slot appId) (map (KwDisconnected wallet) apps) w =
    (if appId \<in> set apps then w_emit ApiClosed (w\<lparr>w_handle := -1, w_folder := [], w_name := []\<rparr>) else w)"
proof (induction apps)
  case (Cons a apps)
  have "fold (wallet_slot appId) (map (KwDisconnected wallet) apps) (w_emit ApiClosed (w\<lparr>w_handle := -1, w_folder := [], w_name := []\<rparr>)) =
      w_emit ApiClosed (w\<lparr>w_handle := -1, w_folder := [], w_name := []\<rparr>)"
    by (rule disconnected_ignored) (simp add: w_emit_def)
  with Cons show ?case using assms by (auto simp: slotApplicationDisconnected_def slotWalletClosed_def)
qed simp

lemma close_reaches:
  assumes "kw_signals k' = kw_signals k @ [KwClosed wallet] @ (if P then [KwAllClosed] else []) @ map (KwDisconnected wallet) apps"
    and "w_name w = wallet" and "0 \<le> w_handle w" and "wallet \<noteq> []"
  shows "fold (wallet_slot appId) (drop (length (kw_signals k)) (kw_signals k')) w =
    (if appId \<in> set apps then w_emit ApiClosed (w\<lparr>w_handle := -1, w_folder := [], w_name := []\<rparr>) else w)"
  using disconnected_reach [OF assms(2-4), of appId apps] by (simp add: assms(1))

lemma walletForHandle_filter:
  "walletForHandle r a (k\<lparr>kw_openWallets := filter (\<lambda>p. snd p \<noteq> wallet) m\<rparr>) \<noteq> wallet \<or> wallet = []"
  by (auto simp: walletForHandle_def qmap_find_def dest!: map_of_SomeD split: option.splits)

text \<open>C17. When a wallet is closed by force, an object that the application has open on it is closed and emits
  \<open>walletClosed\<close> in the event loop, provided the application has no other wallet open.  If it has one, the object hears
  nothing: it stays open although its handle is no longer valid.\<close>

theorem forced_close_reaches:
  assumes "reliable B l" and "lb_seen l = length (kw_signals (lb_daemon l))" and "wallet \<noteq> []"
    and "w_name w = wallet" and "0 \<le> w_handle w" and "walletForHandle (w_handle w) (bus_appId B) (lb_daemon l) = wallet"
  shows "\<exists>l' w'. Wallet_closeWallet B wallet True l = Ret (0, l') \<and> fst (api_event_loop B ([w], l')) = [w'] \<and>
    walletForHandle (w_handle w) (bus_appId B) (lb_daemon l') \<noteq> wallet \<and>
    (if bus_appId B \<in> snd ` fst ` {p \<in> set (kw_openWallets (lb_daemon l)). snd p \<noteq> wallet} then w' = w
     else \<not> Wallet_isOpen w' \<and> w_name w' = [] \<and> w_folder w' = [] \<and> w_signals w' = w_signals w @ [ApiClosed])"
proof -
  let ?k = "lb_daemon l" and ?a = "bus_appId B"
  obtain k' apps where c: "KWalletD_close wallet True ?k = (0, k')"
    "kw_openWallets k' = filter (\<lambda>p. snd p \<noteq> wallet) (kw_openWallets ?k)"
    "kw_signals k' = kw_signals ?k @ [KwClosed wallet] @ (if kw_openWallets k' = [] then [KwAllClosed] else []) @ map (KwDisconnected wallet) apps"
    "set apps = set (KWalletD_users wallet ?k) - set (kw_users k')"
    using close_signals [of wallet ?k] by blast
  have "\<not> error_sent ?k k'" by (rule no_error_sent [OF c(3)]) auto
  then have w: "Wallet_closeWallet B wallet True l = Ret (0, after_call l k')"
    using call_reliable [of B l "\<lambda>k. Ret (KWalletD_close wallet True k)" 0 k'] assms(1) c(1)
    by (simp add: Wallet_closeWallet_def class_call_def replied_def) (simp add: reliable_def)
  have e: "fst (api_event_loop B ([w], after_call l k')) =
      [if ?a \<in> set apps then w_emit ApiClosed (w\<lparr>w_handle := -1, w_folder := [], w_name := []\<rparr>) else w]"
    using close_reaches [OF c(3) assms(4,5,3)] assms(2) by (simp add: api_event_loop_def unseen_def)
  have "((w_handle w, ?a), wallet) \<in> set (kw_openWallets ?k)"
    using assms(3,6) by (auto simp: walletForHandle_def qmap_find_def dest: map_of_SomeD split: option.splits)
  then have "?a \<in> set (KWalletD_users wallet ?k)" by (force simp: KWalletD_users_def)
  then have "?a \<in> set apps \<longleftrightarrow> ?a \<notin> snd ` fst ` {p \<in> set (kw_openWallets ?k). snd p \<noteq> wallet}"
    by (auto simp: c(2,4) kw_users_def image_image)
  moreover have "walletForHandle (w_handle w) ?a k' \<noteq> wallet"
    using walletForHandle_filter [where r = "w_handle w" and a = ?a and wallet = wallet and m = "kw_openWallets ?k"] assms(3) c(2) by (simp add: walletForHandle_def)
  ultimately show ?thesis using w e by (auto simp: w_emit_def Wallet_isOpen_def)
qed

end
