(* ===== verification/KWalletLibRuns.thy ===== *)
theory KWalletLibRuns
  imports KWalletLibSessions
begin

text \<open>
  The objects of one application in all its runs: opening, choosing and removing folders, locking, deleting, any other
  call, the work of the daemon for others, its end and its start, and the signals.  What a daemon that has just been
  started holds, and what becomes of an object when the daemon is started again.
\<close>

section \<open>A daemon that has just been started\<close>

definition same_sessions :: "'s kwalletd \<Rightarrow> 's kwalletd \<Rightarrow> bool" where
  "same_sessions s s' \<longleftrightarrow> kw_openWallets s' = kw_openWallets s \<and> kw_signals s' = kw_signals s \<and> kw_pending s' = kw_pending s \<and>
     kw_lastTransaction s' = kw_lastTransaction s"

lemma same_sessions_refl [simp]: "same_sessions s s"
  by (simp add: same_sessions_def)

lemma same_sessions_trans: "same_sessions s s' \<Longrightarrow> same_sessions s' s'' \<Longrightarrow> same_sessions s s''"
  by (simp add: same_sessions_def)

lemma same_sessions_fields [simp]:
  "same_sessions s (s'\<lparr>kw_files := fs\<rparr>) = same_sessions s s'" "same_sessions s (s'\<lparr>kw_settings := st\<rparr>) = same_sessions s s'"
  "same_sessions s (s'\<lparr>kw_structure := m\<rparr>) = same_sessions s s'" "same_sessions (s\<lparr>kw_files := fs\<rparr>) s' = same_sessions s s'"
  by (simp_all add: same_sessions_def)

lemma same_sessions_ask [simp]: "same_sessions s (snd (ask f s'))  = same_sessions s s'"
  by (simp add: same_sessions_def ask_eq)

lemma ask_same: "ask f s = (r, s') \<Longrightarrow> same_sessions s s'"
  by (auto simp: same_sessions_def ask_eq)

lemma migrate_entry_same: "same_sessions s (migrate_entry d L folder dest e s)"
  by (simp add: migrate_entry_def writeString_def writeBinary_def writeRawJson_def)

lemma fold_same:
  assumes "\<And>x s. same_sessions s (f x s)"
  shows "same_sessions s (fold f xs s)"
proof (induction xs arbitrary: s)
  case (Cons x xs)
  from same_sessions_trans [OF assms Cons] show ?case by simp
qed simp

lemma migrate_folders_same: "same_sessions s (migrate_folders d L dest fs b s)"
proof (induction fs arbitrary: b s)
  case (Cons f fs)
  show ?case using same_sessions_trans [OF fold_same [of "migrate_entry d L f dest", OF migrate_entry_same] Cons] by (simp add: Let_def)
qed simp

lemma migrateWallet_same:
  assumes "migrateWallet d L answers src dest s = Ret (r, s')"
  shows "same_sessions s s'"
proof -
  define T where "T = (\<lambda>opened b fs.
       let s = s\<lparr>kw_files := fs\<rparr> in
       if \<not> opened then (False, s)
       else
         let ((allDestWallets, ok), s) = ask (listCollections (d_host d) L) s in
         if \<not> ok then (False, s)
         else
           let (ok, s) = (if dest \<notin> set allDestWallets then ask (createCollection (d_host d) L dest) s else (ok, s)) in
           if \<not> ok then (False, s)
           else
             let ((unlocked, ok), s) = ask (unlockCollection (d_host d) L dest) s in
             if \<not> ok \<or> \<not> unlocked then (False, s)
             else (True, migrate_folders d L dest (Backend_folderList b) b s))"
  obtain opened b fs where "T opened b fs = (r, s')"
    using assms unfolding migrateWallet_def
    by (simp only: T_def run_bind_Ret_iff split_paired_Ex case_prod_conv run.inject) blast
  moreover have "same_sessions s (snd (T opened b fs))" for opened b fs
    by (auto simp: T_def Let_def case_prod_beta intro: same_sessions_trans [OF _ migrate_folders_same])
  ultimately show ?thesis by (metis snd_conv)
qed

lemma migrate_all_same: "migrate_all d L answers ws done s = Ret (r, s') \<Longrightarrow> same_sessions s s'"
proof (induction ws arbitrary: "done" s)
  case (Cons w ws)
  obtain dest s1 where s1: "(if w = set_defaultWallet (kw_settings s)
         then let ((w, _), s) = ask (defaultCollection L) s in (w, s) else (w, s)) = (dest, s1)" by fastforce
  then have t: "same_sessions s s1"
    by (auto simp: case_prod_beta split: if_splits prod.splits dest: ask_same)
  show ?case
  proof (cases "w \<in> set done")
    case True
    with Cons s1 t show ?thesis by (auto intro: same_sessions_trans)
  next
    case False
    with Cons(2) s1 obtain x s2 where "migrateWallet d L answers w dest s1 = Ret (x, s2)"
      "migrate_all d L answers ws (if x then done @ [w] else done) s2 = Ret (r, s')"
      by (auto simp: run_bind_Ret_iff)
    with Cons(1) migrateWallet_same t show ?thesis by (meson same_sessions_trans)
  qed
qed simp

lemma readStructure_same:
  assumes "readStructure d L answers s = Ret s'"
  shows "same_sessions s s'"
proof -
  have r: "same_sessions s (kw_read_folders (d_host d) L ws s)" for ws s
  proof (induction ws arbitrary: s)
    case (Cons w ws)
    have "same_sessions s (structure_insert_all w fs (snd (ask f s)))" for fs and f :: "'a client \<Rightarrow> 'b \<times> 'a client"
      unfolding structure_insert_all_def
      by (rule same_sessions_trans [OF _ fold_same]) (simp_all add: structure_insert_def)
    from same_sessions_trans [OF this Cons] show ?case by (simp add: case_prod_beta Let_def)
  qed simp
  have m: "same_sessions s s'" if "migrateData d L answers s = Ret s'" for s s'
    using that by (auto simp: migrateData_def run_bind_Ret_iff split: if_splits dest: migrate_all_same)
  let ?s1 = "snd (ask (listCollections (d_host d) L) s)"
  let ?s2 = "kw_read_folders (d_host d) L (fst (fst (ask (listCollections (d_host d) L) s))) ?s1"
  have "migrateData d L answers (snd (ask (defaultCollection L) ?s2)) = Ret s'"
    using assms by (simp add: readStructure_def case_prod_beta Let_def)
  then have "same_sessions (snd (ask (defaultCollection L) ?s2)) s'" by (rule m)
  moreover have "same_sessions ?s1 ?s2" by (rule r)
  moreover have "same_sessions s ?s1" "same_sessions ?s2 (snd (ask (defaultCollection L) ?s2))" by simp_all
  ultimately show ?thesis by (blast intro: same_sessions_trans)
qed

lemma KWalletD_new_fresh:
  assumes "KWalletD_new d L answers st fs w = Ret k"
  shows "kw_openWallets k = []" and "kw_pending k = []" and "kw_lastTransaction k = 0" and "set (kw_signals k) \<subseteq> {KwListDirty, KwAllClosed}"
proof -
  obtain s0 s where s: "same_sessions s0 s" "k = KWalletD_reconfigure s" "kw_openWallets s0 = []" "kw_pending s0 = []"
    "kw_lastTransaction s0 = 0" "kw_signals s0 = []"
    using assms readStructure_same by (fastforce simp: KWalletD_new_def run_bind_Ret_iff)
  then show "kw_openWallets k = []" "kw_pending k = []" "kw_lastTransaction k = 0" "set (kw_signals k) \<subseteq> {KwListDirty, KwAllClosed}"
    by (auto simp: KWalletD_reconfigure_def closeAllWallets_def kw_emit_def same_sessions_def Let_def)
qed

section \<open>The steps of an application\<close>

text \<open>What the daemon does adds signals; a handle that it reports is not negative.\<close>

definition signal_ok :: "kwalletd_signal \<Rightarrow> bool" where
  "signal_ok x = (case x of KwAsyncOpened _ r \<Rightarrow> 0 \<le> r | KwClosedId r \<Rightarrow> 0 \<le> r | _ \<Rightarrow> True)"

definition sane :: "'s kwalletd \<Rightarrow> 's kwalletd \<Rightarrow> bool" where
  "sane k k' \<longleftrightarrow> (\<exists>xs. kw_signals k' = kw_signals k @ xs \<and> list_all signal_ok xs)"

text \<open>
  An object stands in the run together with the number of times that it has been opened: by the call that made it, or by
  a slot that took it from the handle -1 to another one.
\<close>

type_synonym counted = "nat \<times> wallet"

definition follow :: "(wallet \<Rightarrow> wallet) \<Rightarrow> counted \<Rightarrow> counted" where
  "follow f o1 = (let (n, w) = o1 in (if w_handle w = -1 \<and> w_handle (f w) \<noteq> -1 then n + 1 else n, f w))"

definition made :: "wallet option \<Rightarrow> counted list" where
  "made r = (case r of None \<Rightarrow> [] | Some w \<Rightarrow> [(if w_handle w = -1 then 0 else 1, w)])"

definition signals_reach :: "'s bus \<Rightarrow> counted list \<times> 's library \<Rightarrow> counted list \<times> 's library" where
  "signals_reach B s =
     (let (os, l) = s in (map (fold (\<lambda>x. follow (wallet_slot (bus_appId B) x)) (unseen l)) os, l\<lparr>lb_seen := length (kw_signals (lb_daemon l))\<rparr>))"

definition end_reaches :: "'s bus \<Rightarrow> counted list \<times> 's library \<Rightarrow> counted list \<times> 's library" where
  "end_reaches B s = (let (os, l) = signals_reach B s in (map (follow walletServiceUnregistered) os, l\<lparr>lb_running := False\<rparr>))"

text \<open>The objects are those of the event loop of the library; counting does not change them.\<close>

lemma follow_snd [simp]: "snd (follow f o1) = f (snd o1)"
  by (simp add: follow_def case_prod_beta Let_def)

lemma follow_slots [simp]: "snd (fold (\<lambda>x. follow (g x)) xs o1) = fold g xs (snd o1)"
  by (induction xs arbitrary: o1) simp_all

lemma signals_reach_objects: "api_event_loop B (map snd os, l) = (map snd (fst (signals_reach B (os, l))), snd (signals_reach B (os, l)))"
  by (simp add: api_event_loop_def signals_reach_def)

lemma end_reaches_objects: "daemon_ends B (map snd os, l) = (map snd (fst (end_reaches B (os, l))), snd (end_reaches B (os, l)))"
  by (simp add: daemon_ends_def end_reaches_def case_prod_beta signals_reach_objects Let_def)

inductive app_step :: "'s bus \<Rightarrow> counted list \<times> 's library \<Rightarrow> counted list \<times> 's library \<Rightarrow> bool" for B where
  opens: "Wallet_openWallet B name wId ot l = Ret (r, l') \<Longrightarrow> app_step B (os, l) (os @ made r, l')"
| sets_folder: "i < length os \<Longrightarrow> Wallet_setFolder B (snd (os ! i)) f l = Ret (ok, w, l') \<Longrightarrow>
    app_step B (os, l) (os[i := follow (\<lambda>_. w) (os ! i)], l')"
| removes_folder: "i < length os \<Longrightarrow> Wallet_removeFolder B (snd (os ! i)) f l = Ret (ok, w, l') \<Longrightarrow>
    app_step B (os, l) (os[i := follow (\<lambda>_. w) (os ! i)], l')"
| locks: "i < length os \<Longrightarrow> Wallet_lockWallet B (snd (os ! i)) l = Ret (n, w, l') \<Longrightarrow>
    app_step B (os, l) (os[i := follow (\<lambda>_. w) (os ! i)], l')"
| deletes: "i < length os \<Longrightarrow> Wallet_delete B (snd (os ! i)) l = Ret l' \<Longrightarrow> app_step B (os, l) (take i os @ drop (Suc i) os, l')"
| calls: "\<forall>k k'. f k = Ret ((), k') \<longrightarrow> sane k k' \<Longrightarrow> bus_call B f l = Ret (u, l') \<Longrightarrow> app_step B (os, l) (os, l')"
| daemon_works: "sane (lb_daemon l) k \<Longrightarrow> app_step B (os, l) (os, l\<lparr>lb_daemon := k\<rparr>)"
| signals_come: "app_step B s (signals_reach B s)"
| ends: "app_step B s (end_reaches B s)"
| error_timer: "i < length os \<Longrightarrow> app_step B (os, l) (os[i := follow emitWalletAsyncOpenError (os ! i)], l)"

abbreviation app_run :: "'s bus \<Rightarrow> counted list \<times> 's library \<Rightarrow> counted list \<times> 's library \<Rightarrow> bool" where
  "app_run B \<equiv> (app_step B)\<^sup>*\<^sup>*"

section \<open>Signals that have not come yet\<close>

definition queue_ok :: "'s library \<Rightarrow> bool" where
  "queue_ok l \<longleftrightarrow> lb_seen l \<le> length (kw_signals (lb_daemon l)) \<and> list_all signal_ok (unseen l)"

lemma sane_same: "kw_signals k' = kw_signals k \<Longrightarrow> sane k k'"
  by (simp add: sane_def)

lemma queue_sane: "queue_ok l \<Longrightarrow> sane (lb_daemon l) k \<Longrightarrow> queue_ok (l\<lparr>lb_daemon := k\<rparr>)"
  by (auto simp: queue_ok_def unseen_def sane_def)

lemma new_signals_ok: "KWalletD_new d L answers st fs w = Ret k \<Longrightarrow> list_all signal_ok (kw_signals k)"
  using KWalletD_new_fresh(4) by (fastforce simp: list_all_iff signal_ok_def)

lemma queue_interface: "queue_ok l \<Longrightarrow> getInterface B l = Ret l' \<Longrightarrow> queue_ok l'"
  by (auto simp: getInterface_def queue_ok_def unseen_def run_bind_Ret_iff new_signals_ok split: if_splits)

lemma queue_call:
  assumes "queue_ok l" and "\<And>k r k'. f k = Ret (r, k') \<Longrightarrow> sane k k'" and "bus_call B f l = Ret (r, l')"
  shows "queue_ok l'"
proof -
  obtain l0 where l0: "getInterface B l = Ret l0" using assms(3) by (auto simp: bus_call_def run_bind_Ret_iff)
  note q = queue_interface [OF assms(1) l0]
  have c: "queue_ok (l0\<lparr>lb_calls := n\<rparr>) = queue_ok l0" for n by (simp add: queue_ok_def unseen_def)
  from assms(3) l0 consider "l' = l0\<lparr>lb_calls := lb_calls l0 + 1\<rparr>"
    | x k' where "f (lb_daemon l0) = Ret (x, k')" "l' = l0\<lparr>lb_calls := lb_calls l0 + 1, lb_daemon := k'\<rparr>"
    by (auto simp: bus_call_def run_bind_Ret_iff Let_def split: if_splits)
  then show ?thesis
  proof cases
    case 1
    then show ?thesis using q c by simp
  next
    case (2 x k')
    with queue_sane [of "l0\<lparr>lb_calls := lb_calls l0 + 1\<rparr>" k'] q c assms(2) show ?thesis by simp
  qed
qed

lemma open_sane: "KWalletD_open h L name wId appId k = Ret (r, k') \<Longrightarrow> sane k k'"
  by (auto simp: KWalletD_open_def run_bind_Ret_iff sane_def signal_ok_def kw_emit_def split: if_splits dest: openInternal_frame(1))

lemma openAsync_sane: "KWalletD_openAsync name wId appId k = Ret (r, k') \<Longrightarrow> sane k k'"
  by (auto simp: KWalletD_openAsync_def run_bind_Ret_iff sane_def split: if_splits)

lemma closeHandle_sane: "0 \<le> handle \<Longrightarrow> KWalletD_closeHandle handle force appId k = (r, k') \<Longrightarrow> sane k k'"
  by (auto simp: KWalletD_closeHandle_def Let_def sane_def signal_ok_def kw_emit_def emit_if_none_open_def split: if_splits)

lemma removeFolder_sane: "KWalletD_removeFolder h L handle f appId k = (r, k') \<Longrightarrow> sane k k'"
  by (auto simp: KWalletD_removeFolder_def case_prod_beta structure_remove_def Let_def intro!: sane_same split: if_splits)

section \<open>The invariant\<close>

definition closings :: "wallet \<Rightarrow> nat" where
  "closings w = length (filter (\<lambda>x. x = ApiClosed) (w_signals w))"

definition object_ok :: "counted \<Rightarrow> bool" where
  "object_ok o1 \<longleftrightarrow> (let (n, w) = o1 in
     (w_handle w = -1 \<or> 0 \<le> w_handle w) \<and> (w_handle w = -1 \<longrightarrow> w_folder w = []) \<and> w_transactionId w \<noteq> None \<and>
     closings w + (if w_handle w = -1 then 0 else 1) \<le> n)"

lemmas object_defs = object_ok_def closings_def w_emit_def follow_def

lemma slot_ok:
  assumes "object_ok o1" and "signal_ok x"
  shows "object_ok (follow (wallet_slot appId x) o1)"
  using assms
  by (cases x) (auto simp: object_defs slotWalletClosed_def slotFolderListUpdated_def slotFolderUpdated_def slotApplicationDisconnected_def
      Wallet_walletAsyncOpened_def signal_ok_def Let_def split: if_splits)

lemma slots_ok: "object_ok o1 \<Longrightarrow> list_all signal_ok xs \<Longrightarrow> object_ok (fold (\<lambda>x. follow (wallet_slot appId x)) xs o1)"
  by (induction xs arbitrary: o1) (simp_all add: slot_ok)

lemma unregistered_ok: "object_ok o1 \<Longrightarrow> object_ok (follow walletServiceUnregistered o1)"
  by (auto simp: object_defs walletServiceUnregistered_def slotWalletClosed_def Let_def)

lemma error_ok: "object_ok o1 \<Longrightarrow> object_ok (follow emitWalletAsyncOpenError o1)"
  by (auto simp: object_defs emitWalletAsyncOpenError_def Let_def split: if_splits)

lemma new_wallet_ok: "0 \<le> t \<Longrightarrow> list_all object_ok (made (Some ((new_wallet name)\<lparr>w_transactionId := Some t, w_handle := t\<rparr>)))"
  "list_all object_ok (made (Some ((new_wallet name)\<lparr>w_transactionId := Some t, w_errors := n\<rparr>)))" "list_all object_ok (made None)"
  by (auto simp: object_defs new_wallet_def made_def)

lemma kept_ok: "object_ok o1 \<Longrightarrow> w = snd o1 \<Longrightarrow> object_ok (follow (\<lambda>_. w) o1)"
  by (auto simp: object_defs Let_def)

lemma folder_ok: "object_ok o1 \<Longrightarrow> w_handle (snd o1) \<noteq> -1 \<Longrightarrow> object_ok (follow (\<lambda>_. (snd o1)\<lparr>w_folder := f\<rparr>) o1)"
  by (auto simp: object_defs Let_def)

lemma locked_ok: "object_ok o1 \<Longrightarrow> object_ok (follow (\<lambda>_. (snd o1)\<lparr>w_handle := -1, w_folder := [], w_name := []\<rparr>) o1)"
  by (auto simp: object_defs Let_def)

lemma openWallet_eq:
  "Wallet_openWallet B name wId ot l =
    (if \<not> lb_walletEnabled l then Ret (None, l)
     else run_bind (getInterface B l) (\<lambda>l. run_bind (getInterface B l) (\<lambda>l.
       if ot = Synchronous then
         run_bind (bus_call B (KWalletD_open (d_host (bus_desktop B)) (bus_libsecret B) name wId (bus_appId B)) l) (\<lambda>(r, l).
           case r of None \<Rightarrow> Ret (None, l)
           | Some t \<Rightarrow> if t < 0 then Ret (None, l) else Ret (Some ((new_wallet name)\<lparr>w_transactionId := Some t, w_handle := t\<rparr>), l))
       else if ot = Asynchronous then
         run_bind (bus_call B (KWalletD_openAsync name wId (bus_appId B)) l) (\<lambda>(r, l).
           case r of None \<Rightarrow> Ret (None, l)
           | Some t \<Rightarrow> Ret (Some ((new_wallet name)\<lparr>w_transactionId := Some t, w_errors := (if t < 0 then 1 else 0)\<rparr>), l))
       else Ret (None, l))))"
  by (cases "getInterface B l")
    (simp_all add: Wallet_openWallet_def Wallet_new_def Wallet_delete_def new_wallet_def cong: option.case_cong if_cong)

lemma openWallet_ok:
  assumes "queue_ok l" and "Wallet_openWallet B name wId ot l = Ret (r, l')"
  shows "queue_ok l' \<and> list_all object_ok (made r)"
proof (cases "lb_walletEnabled l")
  case True
  then obtain l1 l2 where g: "getInterface B l = Ret l1" "getInterface B l1 = Ret l2"
    using assms(2) by (auto simp: openWallet_eq run_bind_Ret_iff)
  then have q: "queue_ok l2" using queue_interface assms(1) by blast
  consider "ot = Synchronous" | "ot = Asynchronous" | "ot \<noteq> Synchronous" "ot \<noteq> Asynchronous" by blast
  then show ?thesis
  proof cases
    case 1
    then obtain x where x: "bus_call B (KWalletD_open (d_host (bus_desktop B)) (bus_libsecret B) name wId (bus_appId B)) l2 = Ret (x, l')"
      "(case x of None \<Rightarrow> None | Some t \<Rightarrow> if t < 0 then None else Some ((new_wallet name)\<lparr>w_transactionId := Some t, w_handle := t\<rparr>)) = r"
      using assms(2) True g by (auto simp: openWallet_eq run_bind_Ret_iff split: option.splits if_splits)
    have "list_all object_ok (made r)" unfolding x(2) [symmetric] using new_wallet_ok(1,3) by (simp split: option.split)
    with queue_call [OF q open_sane x(1)] show ?thesis by simp
  next
    case 2
    then obtain x where x: "bus_call B (KWalletD_openAsync name wId (bus_appId B)) l2 = Ret (x, l')"
      "map_option (\<lambda>t. (new_wallet name)\<lparr>w_transactionId := Some t, w_errors := (if t < 0 then 1 else 0)\<rparr>) x = r"
      using assms(2) True g by (auto simp: openWallet_eq run_bind_Ret_iff split: option.splits)
    have "list_all object_ok (made r)" unfolding x(2) [symmetric] using new_wallet_ok(2,3) by (cases x) simp_all
    with queue_call [OF q openAsync_sane x(1)] show ?thesis by simp
  next
    case 3
    with assms(2) True g q new_wallet_ok(3) show ?thesis by (simp add: openWallet_eq)
  qed
qed (use assms new_wallet_ok(3) in \<open>simp add: openWallet_eq\<close>)

lemma hasFolder_queue:
  assumes "queue_ok l" and "Wallet_hasFolder B w f l = Ret (r, l')"
  shows "queue_ok l'"
proof (cases "w_handle w = -1")
  case False
  then obtain x where "bus_call B (\<lambda>k. Ret (KWalletD_hasFolder (w_handle w) f (bus_appId B) k, k)) l = Ret (x, l')"
    using assms(2) by (auto simp: Wallet_hasFolder_def object_call_def run_bind_Ret_iff)
  then show ?thesis by (rule queue_call [OF assms(1), rotated]) (simp add: sane_same)
qed (use assms in \<open>simp add: Wallet_hasFolder_def object_call_def\<close>)

lemma setFolder_ok:
  assumes "queue_ok l" and "object_ok o1" and "Wallet_setFolder B (snd o1) f l = Ret (r, w', l')"
  shows "queue_ok l' \<and> object_ok (follow (\<lambda>_. w') o1)"
proof (cases "w_handle (snd o1) = -1")
  case False
  then obtain has where h: "Wallet_hasFolder B (snd o1) f l = Ret (has, l')" "w' = (if has then (snd o1)\<lparr>w_folder := f\<rparr> else snd o1)"
    using assms(3) by (auto simp: Wallet_setFolder_def run_bind_Ret_iff split: if_splits)
  then show ?thesis using hasFolder_queue [OF assms(1) h(1)] folder_ok [OF assms(2) False] kept_ok [OF assms(2)] by simp
qed (use assms in \<open>auto simp: Wallet_setFolder_def intro: kept_ok\<close>)

lemma removeFolder_ok:
  assumes "queue_ok l" and "object_ok o1" and "Wallet_removeFolder B (snd o1) f l = Ret (r, w', l')"
  shows "queue_ok l' \<and> object_ok (follow (\<lambda>_. w') o1)"
proof (cases "w_handle (snd o1) = -1")
  case False
  then obtain x l1 where c: "bus_call B (\<lambda>k. Ret (KWalletD_removeFolder (d_host (bus_desktop B)) (bus_libsecret B) (w_handle (snd o1)) f (bus_appId B) k)) l = Ret (x, l1)"
    "(if w_folder (snd o1) = f then (\<exists>y. Wallet_setFolder B (snd o1) [] l1 = Ret (y, w', l')) else w' = snd o1 \<and> l' = l1)"
    using assms(3) by (auto simp: Wallet_removeFolder_def run_bind_Ret_iff split: if_splits)
  have "queue_ok l1" by (rule queue_call [OF assms(1) _ c(1)]) (simp add: removeFolder_sane)
  with c(2) setFolder_ok [of l1 o1 B "[]" _ w' l'] assms(2) kept_ok [OF assms(2)] show ?thesis
    by (cases "w_folder (snd o1) = f") auto
qed (use assms in \<open>auto simp: Wallet_removeFolder_def intro: kept_ok\<close>)

lemma closeHandle_queue:
  assumes "queue_ok l" and "object_ok o1" and "w_handle (snd o1) \<noteq> -1"
    and "bus_call B (\<lambda>k. Ret (KWalletD_closeHandle (w_handle (snd o1)) force (bus_appId B) k)) l = Ret (r, l')"
  shows "queue_ok l'"
proof (rule queue_call [OF assms(1) _ assms(4)])
  have "0 \<le> w_handle (snd o1)" using assms(2,3) by (auto simp: object_ok_def)
  then show "Ret (KWalletD_closeHandle (w_handle (snd o1)) force (bus_appId B) k) = Ret (r, k') \<Longrightarrow> sane k k'" for k r k'
    using closeHandle_sane by auto
qed

lemma lock_delete_ok:
  assumes "queue_ok l" and "object_ok o1"
  shows "Wallet_lockWallet B (snd o1) l = Ret (n, w', l') \<Longrightarrow> queue_ok l' \<and> object_ok (follow (\<lambda>_. w') o1)"
    and "Wallet_delete B (snd o1) l = Ret l' \<Longrightarrow> queue_ok l'"
  using closeHandle_queue [OF assms] assms locked_ok [OF assms(2)] kept_ok [OF assms(2)]
  by (fastforce simp: Wallet_lockWallet_def Wallet_delete_def run_bind_Ret_iff split: if_splits)+

lemma signals_ok:
  assumes "queue_ok l" and "list_all object_ok os" and "signals_reach B (os, l) = (os', l')"
  shows "queue_ok l' \<and> list_all object_ok os'"
  using assms slots_ok by (auto simp: signals_reach_def queue_ok_def unseen_def list_all_iff)

lemma replaced_ok: "list_all object_ok os \<Longrightarrow> object_ok o1 \<Longrightarrow> list_all object_ok (os[i := o1])"
  using set_update_subset_insert [of os i o1] by (auto simp: list_all_iff)

lemma nth_ok: "list_all object_ok os \<Longrightarrow> i < length os \<Longrightarrow> object_ok (os ! i)"
  by (simp add: list_all_length)

lemma app_step_ok:
  assumes "app_step B s s'" and "queue_ok (snd s)" and "list_all object_ok (fst s)"
  shows "queue_ok (snd s') \<and> list_all object_ok (fst s')"
  using assms
proof (induction rule: app_step.induct)
  case (opens name wId ot l r l' os)
  then show ?case using openWallet_ok [of l B name wId ot r l'] by simp
next
  case (sets_folder i os f l ok w l')
  then show ?case using setFolder_ok [of l "os ! i" B f ok w l'] by (simp add: replaced_ok nth_ok)
next
  case (removes_folder i os f l ok w l')
  then show ?case using removeFolder_ok [of l "os ! i" B f ok w l'] by (simp add: replaced_ok nth_ok)
next
  case (locks i os l n w l')
  then show ?case using lock_delete_ok(1) [of l "os ! i" B n w l'] by (simp add: replaced_ok nth_ok)
next
  case (deletes i os l l')
  then show ?case using lock_delete_ok(2) [of l "os ! i" B l'] by (auto simp: list_all_iff dest: in_set_takeD in_set_dropD)
next
  case (calls f l u l' os)
  then show ?case using queue_call [of l f B u l'] by auto
next
  case (daemon_works l k os)
  then show ?case using queue_sane by simp
next
  case (signals_come s)
  then show ?case using signals_ok [of "snd s" "fst s" B] by (cases "signals_reach B s") simp
next
  case (ends s)
  obtain os l where e: "signals_reach B s = (os, l)" by fastforce
  with ends have "queue_ok l \<and> list_all object_ok os" using signals_ok [of "snd s" "fst s" B os l] by simp
  moreover have "queue_ok (l\<lparr>lb_running := False\<rparr>) = queue_ok l" by (simp add: queue_ok_def unseen_def)
  ultimately show ?case using unregistered_ok by (auto simp: end_reaches_def e list_all_iff)
next
  case (error_timer i os l)
  then show ?case using error_ok [of "os ! i"] by (simp add: replaced_ok nth_ok)
qed

text \<open>C9. In every run of an application, whatever the bus, the daemon and its other users do: an object has the handle
  -1 or one that is not negative, an object that is not open has no folder, no object takes its transaction number for
  set before it is, and \<open>walletClosed\<close> is emitted at most once for each time that the object has been opened: no more
  often than it was opened, and less often while it is open.  A failed asynchronous opening counts for nothing.\<close>

theorem objects_consistent:
  assumes "app_run B ([], KWalletDLauncher_new running k) (os, l)"
  shows "\<forall>(n, w) \<in> set os. (w_handle w = -1 \<or> 0 \<le> w_handle w) \<and> (w_handle w = -1 \<longrightarrow> w_folder w = []) \<and> w_transactionId w \<noteq> None \<and>
    closings w + (if w_handle w = -1 then 0 else 1) \<le> n"
proof -
  have "queue_ok (KWalletDLauncher_new running k)" by (simp add: queue_ok_def unseen_def KWalletDLauncher_new_def)
  moreover have "queue_ok (snd s) \<Longrightarrow> list_all object_ok (fst s) \<Longrightarrow> queue_ok (snd s') \<and> list_all object_ok (fst s')"
    if "app_run B s s'" for s s' using that app_step_ok by induction blast+
  from this [OF assms] have "list_all object_ok os" using calculation by simp
  then show ?thesis by (auto simp: object_ok_def list_all_iff)
qed

end
