(* ===== verification/KWalletLibClaims.thy ===== *)
theory KWalletLibClaims
  imports KWalletLibRuns
begin

text \<open>
  How an object ends, what a daemon that was started again does to the objects of its predecessor, folders whose name is
  part of another; and the applications of the theorems on the library to a daemon over a small Secret Service.
\<close>

section \<open>The end of an object\<close>

text \<open>Deleting an object that is open changes nothing in the daemon: its handle stays valid.  Only \<open>lockWallet\<close> ends it:
  it answers 0, the object is closed, its handle is no longer valid and every other one is as before.\<close>

theorem object_end:
  assumes "reliable B l" and "0 \<le> w_handle w" and "walletForHandle (w_handle w) (bus_appId B) (lb_daemon l) \<noteq> []"
    and "qmap_wf (kw_openWallets (lb_daemon l))"
  shows "(\<exists>l'. Wallet_delete B w l = Ret l' \<and> lb_daemon l' = lb_daemon l) \<and>
    (\<exists>w' l'. Wallet_lockWallet B w l = Ret (0, w', l') \<and> \<not> Wallet_isOpen w' \<and>
       walletForHandle (w_handle w) (bus_appId B) (lb_daemon l') = [] \<and>
       (\<forall>r a. (r, a) \<noteq> (w_handle w, bus_appId B) \<longrightarrow> walletForHandle r a (lb_daemon l') = walletForHandle r a (lb_daemon l)))"
proof (intro conjI)
  let ?k = "lb_daemon l" and ?a = "bus_appId B" and ?r = "w_handle w"
  have c: "bus_call B (\<lambda>k. Ret (KWalletD_closeHandle ?r force ?a k)) l = Ret (Some n, after_call l k')"
    if "KWalletD_closeHandle ?r force ?a ?k = (n, k')" and "\<not> error_sent ?k k'" for force n k'
    using call_reliable [of B l "\<lambda>k. Ret (KWalletD_closeHandle ?r force ?a k)" n k'] assms(1) that by simp
  have "KWalletD_closeHandle ?r False ?a ?k = (1, ?k)" by (simp add: KWalletD_closeHandle_def Let_def)
  then show "\<exists>l'. Wallet_delete B w l = Ret l' \<and> lb_daemon l' = ?k"
    using assms(2) c [OF _ no_error_same] by (simp add: Wallet_delete_def)
  obtain k' where k': "KWalletD_closeHandle ?r True ?a ?k = (0, k')" "kw_openWallets k' = qmap_remove (?r, ?a) (kw_openWallets ?k)"
    "\<not> error_sent ?k k'"
    using assms(3) by (auto simp: KWalletD_closeHandle_def Let_def kw_emit_def emit_if_none_open_def error_sent_def)
  have "walletForHandle r a k' = (if (r, a) = (?r, ?a) then [] else walletForHandle r a ?k)" for r a
    using assms(4) by (simp add: walletForHandle_def k'(2) qmap_simps)
  then show "\<exists>w' l'. Wallet_lockWallet B w l = Ret (0, w', l') \<and> \<not> Wallet_isOpen w' \<and> walletForHandle ?r ?a (lb_daemon l') = [] \<and>
       (\<forall>r a. (r, a) \<noteq> (?r, ?a) \<longrightarrow> walletForHandle r a (lb_daemon l') = walletForHandle r a ?k)"
    using assms(2) c [OF k'(1,3)] by (auto simp: Wallet_lockWallet_def replied_def Wallet_isOpen_def)
qed

section \<open>A daemon that was started again\<close>

lemma harmless_signals: "set xs \<subseteq> {KwListDirty, KwAllClosed} \<Longrightarrow> fold (wallet_slot appId) xs w = w"
  by (induction xs) auto

text \<open>The daemon numbers the requests from 1 again when it has been started again, and \<open>walletAsyncOpened\<close> stays
  connected.  So an object that was opened by the first request, and was closed when the daemon ended, is opened again by
  the answer to the first request of anyone to the new daemon: it has the handle of that request, and no name.\<close>

theorem closed_object_reopens:
  assumes "lb_seen l0 = length (kw_signals (lb_daemon l0))" and "0 \<le> w_handle v" and "w_transactionId v = Some 1"
    and "daemon_ends B ([v], l0) = ([w], l1)" and "getInterface B l1 = Ret l" and "reliable B l" and "0 \<le> wId"
    and "Wallet_openWallet B name wId Asynchronous l = Ret (Some u, l2)"
    and "async_timeout (d_host (bus_desktop B)) (bus_libsecret B) (lb_daemon l2) = Ret k" and "kw_openWallets k \<noteq> []"
  shows "\<not> Wallet_isOpen w \<and> (\<exists>handle w' u'. fst (api_event_loop B ([w, u], l2\<lparr>lb_daemon := k\<rparr>)) = [w', u'] \<and>
    w_handle u' = handle \<and> w_handle w' = handle \<and> 0 \<le> handle \<and> Wallet_walletName u' = name \<and> Wallet_walletName w' = [] \<and>
    w_signals w' = w_signals v @ [ApiClosed, ApiOpened (handle \<noteq> 0)])"
proof -
  have w: "w = w_emit ApiClosed (v\<lparr>w_handle := -1, w_folder := [], w_name := []\<rparr>)" "lb_running l1 = False" "lb_daemon l1 = lb_daemon l0"
    using assms(1,2,4) by (auto simp: daemon_ends_def api_event_loop_def unseen_def walletServiceUnregistered_def slotWalletClosed_def)
  obtain d L answers st fs w0 where n: "KWalletD_new d L answers st fs w0 = Ret (lb_daemon l)" "lb_seen l = 0"
    using assms(5,6) w(2) by (auto simp: getInterface_def reliable_def run_bind_Ret_iff split: if_splits)
  note f = KWalletD_new_fresh [OF n(1)]
  obtain handle where o: "Some u = Some (requested (lb_daemon l) name)" "lb_seen l2 = lb_seen l"
    "kw_signals k = kw_signals (lb_daemon l) @ (if handle < 0 then [] else [KwAsyncOpened (kw_lastTransaction (lb_daemon l) + 1) handle])"
    "kw_openWallets k = (if handle < 0 then kw_openWallets (lb_daemon l) else qmap_insert (handle, bus_appId B) name (kw_openWallets (lb_daemon l)))"
    by (rule async_request_alone [OF assms(6) f(2) assms(7-9)])
  have h: "0 \<le> handle" using o(4) f(1) assms(10) by (auto split: if_splits)
  have s: "drop (lb_seen l2) (kw_signals k) = kw_signals (lb_daemon l) @ [KwAsyncOpened 1 handle]"
    using o(2,3) n(2) h f(3) by simp
  have u: "w_handle u = -1" "w_transactionId u = Some 1" "w_name u = name"
    using o(1) f(3) by (simp_all add: requested_def new_wallet_def Let_def)
  have "fst (api_event_loop B ([w, u], l2\<lparr>lb_daemon := k\<rparr>)) =
      [w_emit (ApiOpened (handle > 0)) (w\<lparr>w_handle := handle\<rparr>), w_emit (ApiOpened (handle > 0)) (u\<lparr>w_handle := handle\<rparr>)]"
    using s u assms(3) by (simp add: api_event_loop_def unseen_def harmless_signals [OF f(4)] Wallet_walletAsyncOpened_def w(1) w_emit_def)
  then show ?thesis using h u by (auto simp: w(1) Wallet_isOpen_def Wallet_walletName_def w_emit_def)
qed

section \<open>Folders\<close>

text \<open>\<open>createFolder\<close> does nothing and answers true for a folder whose name is part of the name of a folder of any
  wallet; \<open>setFolder\<close> then chooses it, while \<open>folderList\<close> does not name it.\<close>

theorem part_of_folder_name:
  assumes "reliable B l" and "w_handle w \<noteq> -1" and "walletForHandle (w_handle w) (bus_appId B) (lb_daemon l) = wallet" and "wallet \<noteq> []"
    and "(other, folder) \<in> set (kw_structure (lb_daemon l))" and "sublist f folder" and "f \<notin> set (structure_values wallet (lb_daemon l))"
  shows "\<exists>l' l''. Wallet_createFolder B w f l = Ret (True, l') \<and> lb_daemon l' = lb_daemon l \<and>
    Wallet_setFolder B w f l' = Ret (True, w\<lparr>w_folder := f\<rparr>, l'') \<and>
    (\<exists>fs l3. Wallet_folderList B w l'' = Ret (fs, l3) \<and> f \<notin> set fs)"
proof -
  let ?k = "lb_daemon l"
  have h: "KWalletD_hasFolder (w_handle w) f (bus_appId B) ?k"
    using assms(3-6) by (auto simp: KWalletD_hasFolder_def list_ex_iff)
  have has: "Wallet_hasFolder B w f m = Ret (True, after_call m ?k)" if "reliable B m" "lb_daemon m = ?k" for m
    using object_call_reliable [of B m w "\<lambda>k. Ret (KWalletD_hasFolder (w_handle w) f (bus_appId B) k, k)" True ?k False] that assms(2) h
    by (simp add: Wallet_hasFolder_def no_error_same)
  have ls: "Wallet_folderList B w m = Ret (structure_values wallet ?k, after_call m ?k)" if "reliable B m" "lb_daemon m = ?k" for m
    using object_call_reliable [of B m w "\<lambda>k. Ret (KWalletD_folderList (w_handle w) (bus_appId B) k, k)" "structure_values wallet ?k" ?k "[]"]
      that assms(2-4) by (simp add: Wallet_folderList_def KWalletD_folderList_def no_error_same)
  show ?thesis using assms(1,2,7) has [of l] has [of "after_call l ?k"] ls [of "after_call (after_call l ?k) ?k"]
    by (simp add: Wallet_createFolder_def Wallet_setFolder_def)
qed

end
