(* ===== verification/KWalletLibExamples.thy ===== *)
theory KWalletLibExamples
  imports KWalletLibClaims
begin

text \<open>
  The library over the daemon of \<open>KWalletDClaims\<close> and its small Secret Service: closed examples in which the theorems on
  the library apply.
\<close>

definition shelf_bus :: "shelf bus" where
  "shelf_bus = \<lparr>bus_desktop = example_desktop, bus_libsecret = shelf_service, bus_answers = (\<lambda>_. []), bus_appId = qs ''app'',
     bus_delivery = (\<lambda>_. Answered), bus_starts = (\<lambda>_. True)\<rparr>"

definition shelf_library :: "shelf library" where
  "shelf_library = \<lparr>lb_walletEnabled = True, lb_running = True, lb_calls = 0, lb_daemon = shelf_daemon, lb_seen = 0\<rparr>"

definition shelf_object :: wallet where
  "shelf_object = \<lparr>w_name = qs ''w'', w_folder = qs ''f'', w_handle = 5, w_transactionId = Some 1, w_errors = 0, w_signals = []\<rparr>"

lemma shelf_bus_simps [simp]: "bus_desktop shelf_bus = example_desktop" "bus_libsecret shelf_bus = shelf_service"
  "bus_answers shelf_bus = (\<lambda>_. [])" "bus_appId shelf_bus = qs ''app''" "bus_delivery shelf_bus n = Answered" "bus_starts shelf_bus n"
  by (simp_all add: shelf_bus_def)

lemma shelf_library_simps [simp]: "reliable shelf_bus shelf_library" "lb_daemon shelf_library = shelf_daemon" "lb_seen shelf_library = 0"
  by (simp_all add: shelf_library_def reliable_def)

lemma shelf_daemon_simps [simp]: "kw_signals shelf_daemon = []" "kw_pending shelf_daemon = []" "kw_lastTransaction shelf_daemon = 0"
  "kw_structure shelf_daemon = []" "qmap_wf (kw_openWallets shelf_daemon)" "walletForHandle 5 (qs ''app'') shelf_daemon = qs ''w''"
  by (simp_all add: shelf_daemon_def qmap_wf_def walletForHandle_def qmap_find_def)

lemma shelf_object_simps [simp]: "w_handle shelf_object = 5" "w_name shelf_object = qs ''w''" "w_folder shelf_object = qs ''f''"
  "w_signals shelf_object = []" "w_transactionId shelf_object = Some 1" "qs ''w'' \<noteq> []" "qs ''/c'' \<noteq> []"
  by (simp_all add: shelf_object_def qs_def)

theorem closed_object_refuses_witness:
  "Wallet_readPassword shelf_bus (shelf_object\<lparr>w_handle := -1\<rparr>) (qs ''k'') (qs ''old'') shelf_library = Ret ((-1, qs ''old''), shelf_library)"
  using closed_object_refuses [of "shelf_object\<lparr>w_handle := -1\<rparr>" shelf_bus shelf_library] by simp

theorem library_write_read_witness:
  "\<exists>l1 l2. Wallet_writeEntryStream shelf_bus shelf_object (qs ''k'') [0, 255] shelf_library = Ret (0, l1) \<and>
     Wallet_readEntry shelf_bus shelf_object (qs ''k'') [] l1 = Ret ((0, [0, 255]), l2)"
proof -
  obtain s' where s': "KWalletD_writeEntry example_desktop shelf_service 5 (qs ''f'') (qs ''k'') [0, 255] Stream (qs ''app'') shelf_daemon = (0, s')"
    using shelf_write by blast
  then have "\<not> error_sent shelf_daemon s'" using writeEntry_no_error by (metis snd_conv)
  with object_call_reliable [of shelf_bus shelf_library shelf_object
    "\<lambda>k. Ret (KWalletD_writeEntry example_desktop shelf_service 5 (qs ''f'') (qs ''k'') [0, 255] Stream (qs ''app'') k)" 0 s' "-1"] s'
  have w: "Wallet_writeEntryStream shelf_bus shelf_object (qs ''k'') [0, 255] shelf_library = Ret (0, after_call shelf_library s')"
    by (simp add: Wallet_writeEntryStream_def KWalletD_writeEntryStream_def shelf_object_def)
  have "secret_laws (d_host (bus_desktop shelf_bus)) (bus_libsecret shelf_bus) shelf_view" by (simp add: shelf_laws)
  moreover have "served shelf_view (qs ''w'') (qs ''/c'') (w_handle shelf_object) (bus_appId shelf_bus) (lb_daemon shelf_library)"
    using shelf_served by (simp add: shelf_object_def)
  moreover have "only_type (d_host (bus_desktop shelf_bus)) shelf_view (qs ''/c'') (lb_daemon shelf_library) (w_folder shelf_object) (qs ''k'') Base64"
    using shelf_empty by (simp add: only_type_def)
  ultimately show ?thesis
    using library_write_read [of shelf_bus shelf_view shelf_library shelf_object "qs ''w''" "qs ''/c''" "qs ''k''" "[0, 255]"] w shelf_answers
    by (simp add: shelf_object_def)
qed

lemma shelf_service_simps [simp]: "ls_load shelf_service = Pair True" "ls_collections shelf_service w = [qs ''/c'']"
  "ls_label shelf_service w p = ascii ''w''" "\<not> ls_collectionLocked shelf_service w p" "ls_random shelf_service n = of_nat n + 1"
  by (simp_all add: shelf_service_def)

lemma shelf_connection [simp]: "attemptConnection shelf_service c = (True, c\<lparr>sc_service := True\<rparr>)"
  by (cases "sc_service c") (simp_all add: attemptConnection_def on_world_def shelf_service_def)

lemma shelf_labels: "fromUtf8 example_host (cstr (ascii ''w'')) = qs ''w''" "labelled example_host shelf_service (qs ''w'') x = Some (qs ''/c'')"
  by (simp_all add: labelled_def example_host_def ascii_def cstr_def qs_def)

lemma shelf_collections: "listCollections example_host shelf_service c = (([qs ''w''], True), c\<lparr>sc_service := True\<rparr>)"
  by (simp add: listCollections_def on_world_def shelf_labels)

definition at_shelf :: "shelf client \<Rightarrow> shelf client" where
  "at_shelf c = c\<lparr>sc_service := True, sc_openCollections := [(qs ''w'', qs ''/c'')]\<rparr>"

definition shelf_like :: "shelf client \<Rightarrow> bool" where
  "shelf_like c \<longleftrightarrow> sc_openCollections c \<in> {[], [(qs ''w'', qs ''/c'')]}"

lemma shelf_retrieve: "shelf_like c \<Longrightarrow> retrieveCollection example_host shelf_service (qs ''w'') c = (Some (qs ''/c''), at_shelf c)"
  by (auto simp: retrieveCollection_def shelf_like_def at_shelf_def shelf_labels qmap_find_def on_world_def)

lemma shelf_at_shelf [simp]: "shelf_like (at_shelf c)" "shelf_like (c\<lparr>sc_service := b\<rparr>) = shelf_like c" "at_shelf (at_shelf c) = at_shelf c"
  "at_shelf (c\<lparr>sc_service := b\<rparr>) = at_shelf c" "(at_shelf c)\<lparr>sc_service := True\<rparr> = at_shelf c" "sc_watchedCollections (at_shelf c) = sc_watchedCollections c"
  "at_shelf (c\<lparr>sc_watchedCollections := ws\<rparr>) = (at_shelf c)\<lparr>sc_watchedCollections := ws\<rparr>"
  "shelf_like (c\<lparr>sc_watchedCollections := ws\<rparr>) = shelf_like c"
  by (simp_all add: at_shelf_def shelf_like_def)

lemma shelf_watch: "shelf_like c \<Longrightarrow>
    watchCollection example_host shelf_service (qs ''w'') (at_shelf c) = (True, (at_shelf c)\<lparr>sc_watchedCollections := List.insert (qs ''w'') (sc_watchedCollections c)\<rparr>)"
  by (simp add: watchCollection_def shelf_retrieve List.insert_def)

lemma shelf_unlock: "shelf_like c \<Longrightarrow>
    unlockCollection example_host shelf_service (qs ''w'') c =
      ((True, True), (at_shelf c)\<lparr>sc_watchedCollections := List.insert (qs ''w'') (sc_watchedCollections c)\<rparr>)"
  by (simp add: unlockCollection_def shelf_retrieve shelf_watch)

lemma shelf_openInternal_next:
  assumes "shelf_like (kw_backend s)" and "kw_random s \<in> {0, 1}"
  shows "\<exists>s'. openInternal example_host shelf_service (qs ''w'') 1 app s = Ret (int (kw_random s) + 1, s') \<and>
    shelf_like (kw_backend s') \<and> kw_random s' = kw_random s + 1"
proof -
  let ?c = "(at_shelf (kw_backend s))\<lparr>sc_watchedCollections := List.insert (qs ''w'') (sc_watchedCollections (kw_backend s))\<rparr>"
  obtain fs where l: "listFolders example_host shelf_service (qs ''w'') ?c = (fs, ?c)"
    using listFolders_linked [of "qs ''w''" "qs ''/c''" ?c example_host shelf_service]
    by (cases "listFolders example_host shelf_service (qs ''w'') ?c") (simp add: linked_def at_shelf_def qmap_wf_def qmap_find_def)
  have r: "kw_random (structure_insert_all w xs k) = kw_random k" for w xs and k :: "shelf kwalletd"
    unfolding structure_insert_all_def by (induction xs arbitrary: k) (simp_all add: structure_insert_def)
  obtain x ok where fs: "fs = (x, ok)" by fastforce
  then have "openInternal example_host shelf_service (qs ''w'') 1 app s =
      kw_newHandle shelf_service (qs ''w'') app (structure_insert_all (qs ''w'') x (s\<lparr>kw_backend := ?c\<rparr>))"
    using assms(1) l by (simp add: openInternal_def ask_eq shelf_collections shelf_unlock)
  also have "\<dots> = Ret (int (kw_random s) + 1, (structure_insert_all (qs ''w'') x (s\<lparr>kw_backend := ?c\<rparr>))\<lparr>kw_random := kw_random s + 1,
      kw_openWallets := qmap_insert (int (kw_random s) + 1, app) (qs ''w'') (kw_openWallets s)\<rparr>)"
    using assms(2) by (auto simp: kw_newHandle_def r structure_insert_all_other)
  finally show ?thesis by (simp add: structure_insert_all_other)
qed

lemma shelf_openInternal_any:
  assumes "shelf_like (kw_backend s)" and "kw_random s = 0"
  shows "\<exists>s'. openInternal example_host shelf_service (qs ''w'') 1 app s = Ret (1, s')"
  using shelf_openInternal_next [of s app] assms by auto

lemma shelf_open_any:
  assumes "shelf_like (kw_backend s)" and "kw_random s = 0"
  shows "\<exists>s'. KWalletD_open example_host shelf_service (qs ''w'') 1 app s = Ret (1, s') \<and> \<not> error_sent s s'"
proof -
  obtain s0 where o: "openInternal example_host shelf_service (qs ''w'') 1 app s = Ret (1, s0)" using shelf_openInternal_any [OF assms] by blast
  then have "kw_signals (kw_emit (KwOpened (qs ''w'')) s0) = kw_signals s @ [KwOpened (qs ''w'')]"
    by (simp add: kw_emit_def openInternal_frame(1) [OF o])
  then have "\<not> error_sent s (kw_emit (KwOpened (qs ''w'')) s0)" by (rule no_error_sent) simp
  with o show ?thesis by (simp add: KWalletD_open_def)
qed

lemma shelf_like_daemon [simp]: "shelf_like (kw_backend shelf_daemon)" "kw_random shelf_daemon = 0" "collections_wf shelf_daemon"
  by (simp_all add: shelf_like_def shelf_daemon_def shelf_client_def collections_wf_def qmap_wf_def)

lemma shelf_sync:
  "\<exists>l'. Wallet_openWallet shelf_bus (qs ''w'') 1 Synchronous shelf_library = Ret (Some ((new_wallet (qs ''w''))\<lparr>w_transactionId := Some 1, w_handle := 1\<rparr>), l')"
proof -
  obtain s' where s': "KWalletD_open example_host shelf_service (qs ''w'') 1 (qs ''app'') shelf_daemon = Ret (1, s')" "\<not> error_sent shelf_daemon s'"
    using shelf_open_any [of shelf_daemon] by auto
  with call_reliable [of shelf_bus shelf_library "KWalletD_open example_host shelf_service (qs ''w'') 1 (qs ''app'')" 1 s'] show ?thesis
    by (simp add: openWallet_sync)
qed

theorem opened_object_served_witness:
  "\<exists>w l'. Wallet_openWallet shelf_bus (qs ''w'') 1 Synchronous shelf_library = Ret (Some w, l') \<and> Wallet_isOpen w \<and>
     walletForHandle 1 (qs ''app'') (lb_daemon l') = qs ''w''"
proof -
  let ?w = "(new_wallet (qs ''w''))\<lparr>w_transactionId := Some 1, w_handle := 1\<rparr>"
  obtain l' where l': "Wallet_openWallet shelf_bus (qs ''w'') 1 Synchronous shelf_library = Ret (Some ?w, l')"
    using shelf_sync by blast
  with opened_object_served [OF _ _ _ l'] show ?thesis by simp
qed

theorem objects_consistent_witness:
  "\<exists>w l. app_run shelf_bus ([], KWalletDLauncher_new True shelf_daemon) ([(1, w)], l) \<and> w_handle w = 1 \<and> closings w = 0"
proof -
  let ?w = "(new_wallet (qs ''w''))\<lparr>w_transactionId := Some 1, w_handle := 1\<rparr>"
  have "KWalletDLauncher_new True shelf_daemon = shelf_library"
    by (simp add: KWalletDLauncher_new_def shelf_library_def shelf_daemon_def shelf_settings_def)
  moreover obtain l' where "Wallet_openWallet shelf_bus (qs ''w'') 1 Synchronous shelf_library = Ret (Some ?w, l')"
    using shelf_sync by blast
  ultimately have r: "app_run shelf_bus ([], KWalletDLauncher_new True shelf_daemon) ([(1, ?w)], l')"
    using app_step.opens [of shelf_bus "qs ''w''" 1 Synchronous shelf_library "Some ?w" l' "[]"] by (simp add: r_into_rtranclp made_def)
  from objects_consistent [OF r] r show ?thesis by (intro exI [of _ ?w] exI [of _ l']) simp
qed

lemma shelf_async:
  assumes "reliable shelf_bus l" and "kw_pending (lb_daemon l) = []" and "shelf_like (kw_backend (lb_daemon l))" and "kw_random (lb_daemon l) = 0"
    and "kw_lastTransaction (lb_daemon l) = 0"
  shows "\<exists>w l1 k. Wallet_openWallet shelf_bus (qs ''w'') 1 Asynchronous l = Ret (Some w, l1) \<and>
    async_timeout example_host shelf_service (lb_daemon l1) = Ret k \<and>
    (\<exists>k0. openInternal example_host shelf_service (qs ''w'') 1 (qs ''app'') ((lb_daemon l1)\<lparr>kw_pending := []\<rparr>) = Ret (1, k0))"
proof -
  let ?n = "kw_lastTransaction (lb_daemon l) + 1"
  let ?ao = "\<lparr>ao_wallet = qs ''w'', ao_wId = 1, ao_appId = qs ''app'', ao_tid = ?n\<rparr>"
  let ?k1 = "(lb_daemon l)\<lparr>kw_lastTransaction := ?n, kw_pending := [?ao]\<rparr>"
  have o: "Wallet_openWallet shelf_bus (qs ''w'') 1 Asynchronous l = Ret (Some (requested (lb_daemon l) (qs ''w'')), after_call l ?k1)"
    using assms(2,5) by (simp add: openWallet_async [OF assms(1)] KWalletD_openAsync_def c_int_def requested_def Let_def)
  obtain k0 where k0: "openInternal example_host shelf_service (qs ''w'') 1 (qs ''app'') (?k1\<lparr>kw_pending := []\<rparr>) = Ret (1, k0)"
    using shelf_openInternal_any [of "?k1\<lparr>kw_pending := []\<rparr>"] assms(3,4) by auto
  then have "async_timeout example_host shelf_service ?k1 = Ret (kw_emit (KwAsyncOpened ?n 1) k0)"
    by (simp add: async_timeout_def)
  then have "async_timeout example_host shelf_service (lb_daemon (after_call l ?k1)) = Ret (kw_emit (KwAsyncOpened ?n 1) k0)"
    by simp
  moreover have "openInternal example_host shelf_service (qs ''w'') 1 (qs ''app'') ((lb_daemon (after_call l ?k1))\<lparr>kw_pending := []\<rparr>) = Ret (1, k0)"
    using k0 by simp
  ultimately show ?thesis using o by blast
qed

text \<open>Another application has made a request before, which the daemon has not worked on yet.\<close>

definition busy_library :: "shelf library" where
  "busy_library = shelf_library\<lparr>lb_daemon := shelf_daemon\<lparr>kw_lastTransaction := 1,
     kw_pending := [\<lparr>ao_wallet = qs ''w'', ao_wId = 1, ao_appId = qs ''other'', ao_tid = 1\<rparr>]\<rparr>\<rparr>"

theorem async_open_answered_witness:
  "\<exists>w l1 k w'. Wallet_openWallet shelf_bus (qs ''w'') 1 Asynchronous busy_library = Ret (Some w, l1) \<and>
     fst (api_event_loop shelf_bus ([w], l1\<lparr>lb_daemon := k\<rparr>)) = [w'] \<and> w_handle w' = 2 \<and> w_signals w' = [ApiOpened True]"
proof -
  let ?d = "lb_daemon busy_library"
  let ?ao = "\<lparr>ao_wallet = qs ''w'', ao_wId = 1, ao_appId = qs ''app'', ao_tid = 2\<rparr>"
  let ?k = "?d\<lparr>kw_lastTransaction := 2, kw_pending := kw_pending ?d @ [?ao]\<rparr>"
  have d: "kw_lastTransaction ?d = 1" "kw_pending ?d = [\<lparr>ao_wallet = qs ''w'', ao_wId = 1, ao_appId = qs ''other'', ao_tid = 1\<rparr>]"
    "shelf_like (kw_backend ?d)" "kw_random ?d = 0" "kw_signals ?d = []" "lb_seen busy_library = 0" "qmap_wf (kw_openWallets ?d)"
    by (simp_all add: busy_library_def shelf_library_def)
  have r: "reliable shelf_bus busy_library" by (simp add: busy_library_def reliable_def shelf_library_def shelf_daemon_def shelf_client_def)
  have o: "Wallet_openWallet shelf_bus (qs ''w'') 1 Asynchronous busy_library = Ret (Some (requested ?d (qs ''w'')), after_call busy_library ?k)"
    by (simp add: openWallet_async [OF r] KWalletD_openAsync_def c_int_def requested_def d(1))
  obtain s1 where s1: "openInternal example_host shelf_service (qs ''w'') 1 (qs ''other'') (?k\<lparr>kw_pending := [?ao]\<rparr>) = Ret (1, s1)"
    "shelf_like (kw_backend s1)" "kw_random s1 = 1"
    using shelf_openInternal_next [of "?k\<lparr>kw_pending := [?ao]\<rparr>" "qs ''other''"] d(3,4) by auto
  let ?k1 = "kw_emit (KwAsyncOpened 1 1) s1"
  obtain s2 where s2: "openInternal example_host shelf_service (qs ''w'') 1 (qs ''app'') (?k1\<lparr>kw_pending := []\<rparr>) = Ret (2, s2)"
    using shelf_openInternal_next [of "?k1\<lparr>kw_pending := []\<rparr>" "qs ''app''"] s1(2,3) by (auto simp: kw_emit_def)
  let ?k2 = "kw_emit (KwAsyncOpened 2 2) s2"
  have t: "async_timeouts (d_host (bus_desktop shelf_bus)) (bus_libsecret shelf_bus) (length (kw_pending ?d)) (lb_daemon (after_call busy_library ?k)) = Ret ?k1"
    using s1(1) d(2) by (simp add: async_timeout_def)
  have "kw_pending s1 = [?ao]" using openInternal_frame(2) [OF s1(1)] by simp
  then have "async_timeout (d_host (bus_desktop shelf_bus)) (bus_libsecret shelf_bus) ?k1 = Ret ?k2"
    using s2 by (simp add: async_timeout_def kw_emit_def)
  from async_open_answered [OF r _ _ d(7) _ o t this] d s2
  have "\<exists>w'. fst (api_event_loop shelf_bus ([requested ?d (qs ''w'')], (after_call busy_library ?k)\<lparr>lb_daemon := ?k2\<rparr>)) = [w'] \<and>
      w_handle w' = 2 \<and> w_signals w' = [ApiOpened True]" by auto
  with o show ?thesis by blast
qed

theorem forced_close_reaches_witness:
  "\<exists>l' w'. Wallet_closeWallet shelf_bus (qs ''w'') True shelf_library = Ret (0, l') \<and> fst (api_event_loop shelf_bus ([shelf_object], l')) = [w'] \<and>
     w_signals w' = [ApiClosed]"
proof -
  have n: "qs ''app'' \<notin> snd ` fst ` {p \<in> set (kw_openWallets shelf_daemon). snd p \<noteq> qs ''w''}" by (auto simp: shelf_daemon_def)
  have "reliable shelf_bus shelf_library" "lb_seen shelf_library = length (kw_signals (lb_daemon shelf_library))"
    "walletForHandle (w_handle shelf_object) (bus_appId shelf_bus) (lb_daemon shelf_library) = qs ''w''" by simp_all
  from forced_close_reaches [OF this(1,2) _ _ _ this(3)] n show ?thesis by fastforce
qed

theorem object_end_witness:
  "\<exists>l1 w' l2. Wallet_delete shelf_bus shelf_object shelf_library = Ret l1 \<and> walletForHandle 5 (qs ''app'') (lb_daemon l1) = qs ''w'' \<and>
     Wallet_lockWallet shelf_bus shelf_object shelf_library = Ret (0, w', l2) \<and> walletForHandle 5 (qs ''app'') (lb_daemon l2) = []"
  using object_end [of shelf_bus shelf_library shelf_object] by fastforce

theorem part_of_folder_name_witness:
  "\<exists>l'. Wallet_createFolder shelf_bus shelf_object (qs ''Pass'') (shelf_library\<lparr>lb_daemon := shelf_daemon\<lparr>kw_structure := [(qs ''w'', qs ''Passwords'')]\<rparr>\<rparr>)
     = Ret (True, l') \<and> kw_structure (lb_daemon l') = [(qs ''w'', qs ''Passwords'')]"
proof -
  let ?l = "shelf_library\<lparr>lb_daemon := shelf_daemon\<lparr>kw_structure := [(qs ''w'', qs ''Passwords'')]\<rparr>\<rparr>"
  have "reliable shelf_bus ?l" by (simp add: reliable_def shelf_library_def)
  moreover have "walletForHandle (w_handle shelf_object) (bus_appId shelf_bus) (lb_daemon ?l) = qs ''w''"
    by (simp add: walletForHandle_def shelf_daemon_def qmap_find_def)
  moreover have "sublist (qs ''Pass'') (qs ''Passwords'')"
    unfolding sublist_def by (intro exI [of _ "[]"] exI [of _ "qs ''words''"]) (simp add: qs_def)
  moreover have "qs ''Pass'' \<notin> set (structure_values (qs ''w'') (lb_daemon ?l))" "(qs ''w'', qs ''Passwords'') \<in> set (kw_structure (lb_daemon ?l))"
    by (simp_all add: structure_values_def qs_def)
  ultimately show ?thesis
    using part_of_folder_name [of shelf_bus ?l shelf_object "qs ''w''" "qs ''w''" "qs ''Passwords''" "qs ''Pass''"]
    by fastforce
qed

section \<open>A second daemon\<close>

lemma shelf_default: "\<exists>r. defaultCollection shelf_service (c\<lparr>sc_service := True\<rparr>) = (r, c\<lparr>sc_service := True\<rparr>)"
  by (auto simp: defaultCollection_def collectionLabelForPath_def split: option.split)

lemma shelf_folders: "shelf_like c \<Longrightarrow> \<exists>r. listFolders example_host shelf_service (qs ''w'') c = (r, at_shelf c)"
  by (auto simp: listFolders_def shelf_retrieve)

lemma shelf_new:
  "\<exists>k. KWalletD_new example_desktop shelf_service (\<lambda>_. []) shelf_settings fs [] = Ret k \<and> shelf_like (kw_backend k) \<and>
     kw_random k = 0 \<and> kw_settings k = shelf_settings"
proof -
  define c0 where "c0 = SecretServiceClient_new example_host shelf_service False []"
  have c0: "shelf_like c0" "sc_service c0"
    by (simp_all add: c0_def SecretServiceClient_new_def shelf_collections watchCollection_def shelf_retrieve shelf_like_def at_shelf_def)
  define k0 where "k0 = \<lparr>kw_backend = c0, kw_structure = [], kw_openWallets = [], kw_enabled = True, kw_lastTransaction = 0,
    kw_pending = [], kw_random = 0, kw_settings = shelf_settings, kw_files = fs, kw_signals = []\<rparr>"
  have st: "set_kSecretDEnabled shelf_settings = False" "set_migrateTo3rdParty shelf_settings = False" "set_kWalletDEnabled shelf_settings"
    by (simp_all add: shelf_settings_def)
  obtain r where r: "listFolders example_host shelf_service (qs ''w'') (c0\<lparr>sc_service := True\<rparr>) = (r, at_shelf c0)"
    using shelf_folders [of "c0\<lparr>sc_service := True\<rparr>"] c0(1) by auto
  define k1 where "k1 = structure_insert_all (qs ''w'') (fst r) (k0\<lparr>kw_backend := at_shelf c0\<rparr>)"
  have k1: "kw_backend k1 = at_shelf c0" "kw_random k1 = 0" "kw_settings k1 = shelf_settings" "kw_enabled k1"
  proof -
    have "kw_backend (fold (structure_insert w) xs k) = kw_backend k \<and> kw_random (fold (structure_insert w) xs k) = kw_random k \<and>
        kw_settings (fold (structure_insert w) xs k) = kw_settings k \<and> kw_enabled (fold (structure_insert w) xs k) = kw_enabled k"
      for w xs and k :: "shelf kwalletd"
      by (induction xs arbitrary: k) (simp_all add: structure_insert_def)
    then show "kw_backend k1 = at_shelf c0" "kw_random k1 = 0" "kw_settings k1 = shelf_settings" "kw_enabled k1"
      by (simp_all add: k1_def structure_insert_all_def k0_def)
  qed
  obtain r' where r': "defaultCollection shelf_service (at_shelf c0) = (r', at_shelf c0)"
    using shelf_default [of "at_shelf c0"] by auto
  have f: "kw_read_folders example_host shelf_service [qs ''w''] (k0\<lparr>kw_backend := c0\<lparr>sc_service := True\<rparr>\<rparr>) = k1"
    using r by (simp add: ask_eq k1_def case_prod_beta Let_def)
  have "readStructure example_desktop shelf_service (\<lambda>_. []) k0 = Ret (k1\<lparr>kw_backend := at_shelf c0\<rparr>)"
    using f r' k1 st by (simp add: readStructure_def ask_eq shelf_collections k0_def migrateData_def)
  moreover have "KWalletD_new example_desktop shelf_service (\<lambda>_. []) shelf_settings fs [] =
      run_bind (readStructure example_desktop shelf_service (\<lambda>_. []) k0) (\<lambda>s. Ret (KWalletD_reconfigure s))"
    by (simp add: KWalletD_new_def k0_def c0_def st)
  ultimately show ?thesis using k1 st c0(1) by (simp add: KWalletD_reconfigure_def)
qed

theorem closed_object_reopens_witness:
  "\<exists>w l1 l u l2 k w' u'. daemon_ends shelf_bus ([shelf_object], shelf_library) = ([w], l1) \<and> getInterface shelf_bus l1 = Ret l \<and>
     Wallet_openWallet shelf_bus (qs ''w'') 1 Asynchronous l = Ret (Some u, l2) \<and>
     fst (api_event_loop shelf_bus ([w, u], l2\<lparr>lb_daemon := k\<rparr>)) = [w', u'] \<and> w_handle w' = w_handle u' \<and> w_name w' = []"
proof -
  let ?w = "walletServiceUnregistered shelf_object" and ?l1 = "shelf_library\<lparr>lb_running := False\<rparr>"
  have e: "daemon_ends shelf_bus ([shelf_object], shelf_library) = ([?w], ?l1)"
    by (simp add: daemon_ends_def api_event_loop_def unseen_def shelf_library_def)
  obtain k0 where k0: "KWalletD_new example_desktop shelf_service (\<lambda>_. []) shelf_settings Map.empty [] = Ret k0"
    "shelf_like (kw_backend k0)" "kw_random k0 = 0"
    using shelf_new by blast
  define l where "l = ?l1\<lparr>lb_running := True, lb_daemon := k0, lb_seen := 0\<rparr>"
  have g: "getInterface shelf_bus ?l1 = Ret l" "reliable shelf_bus l" "lb_daemon l = k0"
    using k0(1) by (simp_all add: getInterface_def reliable_def l_def shelf_library_def shelf_daemon_def shelf_client_def)
  have p: "kw_pending (lb_daemon l) = []" using KWalletD_new_fresh(2) [OF k0(1)] g(3) by simp
  obtain u l2 k k2 where a: "Wallet_openWallet shelf_bus (qs ''w'') 1 Asynchronous l = Ret (Some u, l2)"
    "async_timeout example_host shelf_service (lb_daemon l2) = Ret k"
    "openInternal example_host shelf_service (qs ''w'') 1 (qs ''app'') ((lb_daemon l2)\<lparr>kw_pending := []\<rparr>) = Ret (1, k2)"
    using shelf_async [OF g(2) p] k0(2,3) g(3) KWalletD_new_fresh(3) [OF k0(1)] by auto
  have t: "async_timeout (d_host (bus_desktop shelf_bus)) (bus_libsecret shelf_bus) (lb_daemon l2) = Ret k" using a(2) by simp
  obtain handle k3 where o: "openInternal (d_host (bus_desktop shelf_bus)) (bus_libsecret shelf_bus) (qs ''w'') 1 (bus_appId shelf_bus) ((lb_daemon l2)\<lparr>kw_pending := []\<rparr>) = Ret (handle, k3)"
    "kw_openWallets k = (if handle < 0 then kw_openWallets (lb_daemon l) else qmap_insert (handle, bus_appId shelf_bus) (qs ''w'') (kw_openWallets (lb_daemon l)))"
    by (rule async_request_alone [OF g(2) p _ a(1) t]) simp
  then have "handle = 1" using a(3) by simp
  then have "kw_openWallets k \<noteq> []" using o(2) KWalletD_new_fresh(1) [OF k0(1)] g(3) by simp
  with closed_object_reopens [OF _ _ _ e g(1,2) _ a(1) t] obtain handle w' u' where
    "fst (api_event_loop shelf_bus ([?w, u], l2\<lparr>lb_daemon := k\<rparr>)) = [w', u']" "w_handle u' = handle" "w_handle w' = handle" "Wallet_walletName w' = []"
    by auto
  with e g(1) a(1) show ?thesis by (auto simp: Wallet_walletName_def)
qed

end
