(* ===== verification/KWalletQueryProps.thy ===== *)
theory KWalletQueryProps
  imports KWalletQuery KWalletLibExamples
begin

text \<open>
  \<open>kwallet-query\<close> over the client library and \<open>kwalletd\<close>: what it writes from its input is what it prints, but for empty
  lines; how its modes are chosen; and what the assertion in its listing does.
\<close>

section \<open>Calls on folders over a reliable bus\<close>

lemma hasFolder_reliable:
  assumes "reliable B l" and "w_handle w \<noteq> -1"
  shows "Wallet_hasFolder B w f l = Ret (KWalletD_hasFolder (w_handle w) f (bus_appId B) (lb_daemon l), after_call l (lb_daemon l))"
  unfolding Wallet_hasFolder_def by (rule object_call_reliable [OF assms]) (simp_all add: no_error_same)

lemma setFolder_reliable:
  assumes "reliable B l" and "w_handle w \<noteq> -1"
  shows "Wallet_setFolder B w f l =
    (let has = KWalletD_hasFolder (w_handle w) f (bus_appId B) (lb_daemon l)
     in Ret (has, if has then w\<lparr>w_folder := f\<rparr> else w, after_call l (lb_daemon l)))"
  using assms by (simp add: Wallet_setFolder_def hasFolder_reliable Let_def)

lemma createFolder_reliable:
  assumes "reliable B l" and "w_handle w \<noteq> -1" and "\<not> KWalletD_hasFolder (w_handle w) f (bus_appId B) (lb_daemon l)"
    and "walletForHandle (w_handle w) (bus_appId B) (lb_daemon l) = wallet" and "wallet \<noteq> []"
  shows "Wallet_createFolder B w f l = Ret (True, after_call (after_call l (lb_daemon l)) (structure_insert wallet f (lb_daemon l)))"
proof -
  let ?l = "after_call l (lb_daemon l)"
  have "bus_call B (\<lambda>k. Ret (KWalletD_createFolder (w_handle w) f (bus_appId B) k)) ?l = Ret (Some True, after_call ?l (structure_insert wallet f (lb_daemon l)))"
    using assms(1,4,5) by (intro call_reliable) (simp_all add: KWalletD_createFolder_def no_error_same structure_insert_def)
  then show ?thesis using assms by (simp add: Wallet_createFolder_def hasFolder_reliable replied_def)
qed

lemma writeEntry_structure:
  "set (kw_structure k) \<subseteq> set (kw_structure (snd (KWalletD_writeEntry d L handle folder key val type appId k)))"
proof -
  have a: "kw_structure (snd (ask f k)) = kw_structure k" for f :: "'a client \<Rightarrow> 'b \<times> 'a client" and k by (simp add: ask_eq)
  have "kw_structure (snd (write_typed d L key val type folder wallet k)) = kw_structure k" for wallet k
    by (simp add: write_typed_def writeString_def writeBinary_def writeRawJson_def case_prod_beta Let_def a)
  then show ?thesis
    by (auto simp: KWalletD_writeEntry_def case_prod_beta Let_def kw_emit_def structure_insert_def a ask_eq)
qed

lemma hasFolder_mono:
  assumes "KWalletD_hasFolder handle f appId k" and "set (kw_structure k) \<subseteq> set (kw_structure k')"
    and "walletForHandle handle appId k = wallet" and "walletForHandle handle appId k' = wallet"
  shows "KWalletD_hasFolder handle f appId k'"
  using assms by (auto simp: KWalletD_hasFolder_def list_ex_iff Let_def split: if_splits)

lemma served_structure: "served view wallet p handle appId (structure_insert w f s) = served view wallet p handle appId s"
  and entry_in_structure: "entry_in h view p (structure_insert w f s) = entry_in h view p s"
  by (simp_all add: served_def entry_in_def kw_items_def walletForHandle_def structure_insert_def fun_eq_iff)

lemma entryType_reliable:
  assumes "secret_laws (d_host (bus_desktop B)) (bus_libsecret B) view" and "searches_answered (bus_libsecret B)" and "reliable B l"
    and "w_handle w \<noteq> -1" and "served view wallet p (w_handle w) (bus_appId B) (lb_daemon l)"
    and "only_type (d_host (bus_desktop B)) view p (lb_daemon l) (w_folder w) key PlainText"
  obtains kind where "Wallet_entryType B w key l = Ret (kind, after_call l (lb_daemon l))"
    and "kind = (if \<exists>t. entry_in (d_host (bus_desktop B)) view p (lb_daemon l) (w_folder w) key PlainText t then Password else Unknown)"
proof -
  let ?h = "d_host (bus_desktop B)" and ?k = "lb_daemon l"
  note sv = served_parts [OF assms(5)]
  have t: "tidy (kw_items view p ?k)" using sv(4) by (simp add: kw_items_def)
  let ?kind = "if \<exists>t. entry_in ?h view p ?k (w_folder w) key PlainText t then Password else Unknown"
  have "keyType ?h (bus_libsecret B) wallet (w_folder w) key ?k = (?kind, ?k)"
  proof (cases "\<exists>t. entry_in ?h view p ?k (w_folder w) key PlainText t")
    case True
    with keyType_holds [OF assms(1,2) t sv(3)] show ?thesis by (auto simp: entry_type_of_def)
  next
    case False
    with assms(6) have "\<not> entry_in ?h view p ?k (w_folder w) key type t" for type t by (auto simp: only_type_def)
    with keyType_absent [OF assms(1,2) t sv(3)] False show ?thesis by simp
  qed
  then have "KWalletD_entryType ?h (bus_libsecret B) (w_handle w) (w_folder w) key (bus_appId B) ?k = (?kind, ?k)"
    using sv(1,2) by (simp add: KWalletD_entryType_def)
  then have "Wallet_entryType B w key l = Ret (?kind, after_call l ?k)"
    unfolding Wallet_entryType_def by (intro object_call_reliable [OF assms(3,4)]) (simp_all add: no_error_same)
  then show thesis by (rule that) simp
qed

lemma entryType_found:
  assumes "secret_laws (d_host (bus_desktop B)) (bus_libsecret B) view" and "searches_answered (bus_libsecret B)" and "reliable B l"
    and "w_handle w \<noteq> -1" and "served view wallet p (w_handle w) (bus_appId B) (lb_daemon l)"
    and "entry_in (d_host (bus_desktop B)) view p (lb_daemon l) (w_folder w) key type t"
  shows "Wallet_entryType B w key l = Ret (entry_type_of type, after_call l (lb_daemon l))"
proof -
  note sv = served_parts [OF assms(5)]
  have "tidy (kw_items view p (lb_daemon l))" using sv(4) by (simp add: kw_items_def)
  from keyType_holds [OF assms(1,2) this sv(3) assms(6)] show ?thesis
    unfolding Wallet_entryType_def using sv(1,2)
    by (intro object_call_reliable [OF assms(3,4)]) (simp_all add: KWalletD_entryType_def no_error_same)
qed

section \<open>Lines\<close>

lemma parts_append: "line_feed \<notin> set t \<Longrightarrow> parts acc (t @ line_feed # r) = (acc @ t) # parts [] r"
  by (induction t arbitrary: acc) auto

lemma parts_plain: "line_feed \<notin> set t \<Longrightarrow> parts acc t = [acc @ t]"
  by (induction t arbitrary: acc) auto

lemma parts_last: "\<exists>ps. parts acc t = ps @ [last (parts acc t)] \<and> (\<forall>u. line_feed \<notin> set u \<longrightarrow> parts acc (t @ u) = ps @ [last (parts acc t) @ u] \<and>
    parts acc (t @ line_feed # u) = ps @ [last (parts acc t), u])"
proof (induction t arbitrary: acc)
  case Nil
  show ?case using parts_plain parts_append [of "[]"] by auto
next
  case (Cons c t)
  show ?case
  proof (cases "c = line_feed")
    case True
    obtain ps where "parts [] t = ps @ [last (parts [] t)]" "\<forall>u. line_feed \<notin> set u \<longrightarrow> parts [] (t @ u) = ps @ [last (parts [] t) @ u] \<and>
      parts [] (t @ line_feed # u) = ps @ [last (parts [] t), u]" using Cons [of "[]"] by blast
    with True show ?thesis by (intro exI [of _ "acc # ps"]) (auto simp: last_ConsR)
  next
    case False
    then show ?thesis using Cons [of "acc @ [c]"] by simp
  qed
qed

lemma split_joined:
  assumes "\<forall>t \<in> set ts. line_feed \<notin> set t"
  shows "split_lines (fold (\<lambda>line t. (if t \<noteq> [] then t @ [line_feed] else t) @ line) ts acc) = split_lines acc @ filter (\<lambda>t. t \<noteq> []) ts"
  using assms
proof (induction ts arbitrary: acc)
  case (Cons t ts)
  then have t: "line_feed \<notin> set t" by simp
  have "split_lines ((if acc \<noteq> [] then acc @ [line_feed] else acc) @ t) = split_lines acc @ filter (\<lambda>t. t \<noteq> []) [t]"
  proof (cases "acc = []")
    case True
    then show ?thesis using parts_plain [OF t] by (simp add: split_lines_def)
  next
    case False
    obtain ps where "parts [] acc = ps @ [last (parts [] acc)]" "parts [] (acc @ line_feed # t) = ps @ [last (parts [] acc), t]"
      using parts_last [of "[]" acc] t by blast
    moreover from this(1) have "filter P (parts [] acc) = filter P ps @ filter P [last (parts [] acc)]" for P
      by (metis filter_append)
    ultimately show ?thesis using False by (simp add: split_lines_def)
  qed
  with Cons show ?case by simp
qed simp

lemma joined_lines: "joined h ls = fold (\<lambda>line t. (if t \<noteq> [] then t @ [line_feed] else t) @ line) (map (fromUtf8 h) ls) []"
  by (simp add: joined_def fold_map comp_def)

lemma split_printed:
  assumes "\<forall>b \<in> set ls. toUtf8 h (fromUtf8 h b) = b \<and> 0 \<notin> set b \<and> line_feed \<notin> set (fromUtf8 h b)" and "fromUtf8 h [] = []" and "toUtf8 h [] = []"
  shows "map (printed h) (split_lines (joined h ls)) = filter (\<lambda>b. b \<noteq> []) ls"
proof -
  have "split_lines (joined h ls) = filter (\<lambda>t. t \<noteq> []) (map (fromUtf8 h) ls)"
    using split_joined [of "map (fromUtf8 h) ls" "[]"] assms(1) by (simp add: joined_lines split_lines_def)
  moreover have "map (printed h) (filter (\<lambda>t. t \<noteq> []) (map (fromUtf8 h) ls)) = filter (\<lambda>b. b \<noteq> []) ls"
    using assms
  proof (induction ls)
    case (Cons b ls)
    then have "toUtf8 h (fromUtf8 h b) = b" "0 \<notin> set b" by auto
    then have "fromUtf8 h b = [] \<longleftrightarrow> b = []" "printed h (fromUtf8 h b) = b"
      using assms(2,3) by (auto simp: printed_def cstr_nonzero)
    with Cons show ?case by simp
  qed simp
  ultimately show ?thesis by simp
qed

lemma fold_put: "fold (\<lambda>e. put (f e)) es q = q\<lparr>q_out := q_out q @ map f es\<rparr>"
  by (induction es arbitrary: q) (simp_all add: put_def)

section \<open>Written and read\<close>

definition usable_input :: "host \<Rightarrow> bytes list \<Rightarrow> bool" where
  "usable_input h ls \<longleftrightarrow> fromUtf8 h [] = [] \<and> toUtf8 h [] = [] \<and>
     (\<forall>b \<in> set ls. toUtf8 h (fromUtf8 h b) = b \<and> 0 \<notin> set b \<and> line_feed \<notin> set (fromUtf8 h b)) \<and>
     0 \<notin> set (toUtf8 h (joined h ls)) \<and> fromUtf8 h (toUtf8 h (joined h ls)) = joined h ls"

lemma set_wallet_simps [simp]: "q_entryName (set_wallet w q) = q_entryName q" "q_walletName (set_wallet w q) = q_walletName q"
  "q_entryFolder (set_wallet w q) = q_entryFolder q" "q_out (set_wallet w q) = q_out q"
  by (simp_all add: set_wallet_def)

text \<open>Writing chooses the folder, creating it when needed; then the kind of the entry decides what is written.\<close>

definition write_contents :: "'s bus \<Rightarrow> console \<Rightarrow> query \<Rightarrow> wallet \<Rightarrow> 's library \<Rightarrow> (query \<times> 's library) run" where
  "write_contents B co q w l =
     (let passwordContents = joined (d_host (bus_desktop B)) (stdin_lines [] (co_stdin co));
          failed = exit_with 4 (put (OutWriteFailed (q_entryName q) (q_walletName q)) q)
      in run_bind (Wallet_entryType B w (q_entryName q) l) (\<lambda>(kind, l).
           if kind = Unknown \<or> kind = Password
           then
             run_bind (Wallet_writePassword B w (q_entryName q) passwordContents l) (\<lambda>(rc, l).
               Ret (if rc \<noteq> 0 then failed else exit_with 0 q, l))
           else if kind = Map
           then
             (case co_parseJson co (toLatin1 passwordContents) of
                None \<Rightarrow> Ret (exit_with 1 (put (OutNotJson (q_entryName q)) q), l)
              | Some j \<Rightarrow>
                  run_bind (Wallet_writeMap B w (q_entryName q) (json_texts j) l) (\<lambda>(rc, l).
                    Ret (if rc \<noteq> 0 then failed else exit_with 0 q, l)))
           else Ret (exit_with 1 (put (OutUnsupported (q_entryName q)) q), l)))"

lemma writeValue_folder:
  assumes "reliable B l" and "q_theWallet q = Some w" and "w_handle w \<noteq> -1" and "served view wallet p (w_handle w) (bus_appId B) (lb_daemon l)"
  obtains m where "reliable B m" and "served view wallet p (w_handle w) (bus_appId B) (lb_daemon m)"
    and "entry_in h view p (lb_daemon m) = entry_in h view p (lb_daemon l)"
    and "writeValue B co q l = write_contents B co (set_wallet (w\<lparr>w_folder := q_entryFolder q\<rparr>) q) (w\<lparr>w_folder := q_entryFolder q\<rparr>) m"
proof -
  let ?a = "bus_appId B" and ?f = "q_entryFolder q" and ?r = "w_handle w"
  note sv = served_parts [OF assms(4)]
  let ?has = "KWalletD_hasFolder ?r ?f ?a (lb_daemon l)" and ?l = "after_call l (lb_daemon l)"
  define k where "k = (if ?has then lb_daemon l else structure_insert wallet ?f (lb_daemon l))"
  let ?m = "if ?has then ?l else after_call (after_call ?l (lb_daemon ?l)) k"
  have b: "run_bind (Wallet_hasFolder B w ?f l) (\<lambda>(has, l). run_bind (if has then Ret (True, l) else Wallet_createFolder B w ?f l) g) = g (True, ?m)" for g :: "bool \<times> 'a library \<Rightarrow> (query \<times> 'a library) run"
    using createFolder_reliable [of B ?l w ?f wallet] assms(1,3) sv(1,2) by (simp add: hasFolder_reliable k_def)
  have m: "reliable B ?m" "lb_daemon ?m = k" using assms(1) by (simp_all add: k_def)
  have hk: "KWalletD_hasFolder ?r ?f ?a k"
    using sv(1,2) by (auto simp: k_def KWalletD_hasFolder_def structure_insert_def walletForHandle_def Let_def)
  show thesis
  proof (rule that)
    show "reliable B (after_call ?m k)" using m(1) by simp
    show "served view wallet p ?r ?a (lb_daemon (after_call ?m k))" using assms(4) by (simp add: k_def served_structure)
    show "entry_in h view p (lb_daemon (after_call ?m k)) = entry_in h view p (lb_daemon l)" by (simp add: k_def entry_in_structure)
    show "writeValue B co q l = write_contents B co (set_wallet (w\<lparr>w_folder := ?f\<rparr>) q) (w\<lparr>w_folder := ?f\<rparr>) (after_call ?m k)"
      unfolding writeValue_def the_wallet_def assms(2) option.case run_bind.simps b
      using setFolder_reliable [OF m(1) assms(3), of ?f] m(2) hk by (simp add: write_contents_def Let_def)
  qed
qed

text \<open>What the entry holds when the program has ended with the code 0.\<close>

lemma writeValue_writes:
  assumes "secret_laws (d_host (bus_desktop B)) (bus_libsecret B) view" and "searches_answered (bus_libsecret B)" and "reliable B l"
    and "q_theWallet q = Some w" and "w_handle w \<noteq> -1" and "served view wallet p (w_handle w) (bus_appId B) (lb_daemon l)"
    and "writeValue B co q l = Ret (q1, l1)" and "q_exit q1 = Some 0"
  defines "t \<equiv> joined (d_host (bus_desktop B)) (stdin_lines [] (co_stdin co))"
  shows "only_type (d_host (bus_desktop B)) view p (lb_daemon l) (q_entryFolder q) (q_entryName q) PlainText \<Longrightarrow>
      entry_in (d_host (bus_desktop B)) view p (lb_daemon l1) (q_entryFolder q) (q_entryName q) PlainText
        (encoded (bus_libsecret B) PlainText (given (bus_desktop B) Password (toUtf8 (d_host (bus_desktop B)) t)))"
    and "entry_in (d_host (bus_desktop B)) view p (lb_daemon l) (q_entryFolder q) (q_entryName q) MapText v \<Longrightarrow>
      \<exists>j. co_parseJson co (toLatin1 t) = Some j \<and>
        entry_in (d_host (bus_desktop B)) view p (lb_daemon l1) (q_entryFolder q) (q_entryName q) MapText
          (encoded (bus_libsecret B) MapText (given (bus_desktop B) Map (d_streamMap (bus_desktop B) (json_texts j))))"
proof -
  let ?d = "bus_desktop B" and ?h = "d_host (bus_desktop B)" and ?L = "bus_libsecret B" and ?f = "q_entryFolder q" and ?key = "q_entryName q"
  let ?w = "w\<lparr>w_folder := ?f\<rparr>" and ?q = "set_wallet (w\<lparr>w_folder := q_entryFolder q\<rparr>) q"
  obtain m where m: "reliable B m" "served view wallet p (w_handle w) (bus_appId B) (lb_daemon m)"
    "entry_in ?h view p (lb_daemon m) = entry_in ?h view p (lb_daemon l)" "writeValue B co q l = write_contents B co ?q ?w m"
    by (rule writeValue_folder [OF assms(3-6)])
  have wh: "w_handle ?w \<noteq> -1" and sv: "served view wallet p (w_handle ?w) (bus_appId B) (lb_daemon m)" using assms(5) m(2) by simp_all
  have after: "reliable B (after_call m (lb_daemon m))" "served view wallet p (w_handle ?w) (bus_appId B) (lb_daemon (after_call m (lb_daemon m)))"
    using m(1) sv by simp_all
  note wr = library_write [OF assms(1) after(1) wh after(2)]
  have v: "value_type_of Password = PlainText" "value_type_of Map = MapText" by (simp_all add: value_type_of_def entry_type_defs)
  have run: "write_contents B co ?q ?w m = Ret (q1, l1)" using assms(7) m(4) by simp
  { assume o: "only_type ?h view p (lb_daemon l) ?f ?key PlainText"
    then have om: "only_type ?h view p (lb_daemon m) (w_folder ?w) ?key PlainText" by (simp add: only_type_def m(3))
    obtain kind where kind: "Wallet_entryType B ?w ?key m = Ret (kind, after_call m (lb_daemon m))" "kind = Unknown \<or> kind = Password"
      using entryType_reliable [OF assms(1,2) m(1) wh sv om] by (metis (full_types))
    have "Wallet_writePassword B ?w ?key t (after_call m (lb_daemon m)) = Ret (0, l1)"
      using run assms(8) kind unfolding write_contents_def t_def [symmetric]
      by (cases "Wallet_writePassword B ?w ?key t (after_call m (lb_daemon m))") (auto simp: exit_with_def Let_def split: if_splits)
    from wr(3) [where type = Password, unfolded v, OF _ this [unfolded Wallet_writePassword_def KWalletD_writePassword_def]] om
    show "entry_in ?h view p (lb_daemon l1) ?f ?key PlainText (encoded ?L PlainText (given ?d Password (toUtf8 ?h t)))" by simp }
  { assume e: "entry_in ?h view p (lb_daemon l) ?f ?key MapText v"
    then have em: "entry_in ?h view p (lb_daemon m) (w_folder ?w) ?key MapText v" by (simp add: m(3))
    have "tidy (kw_items view p (lb_daemon m))" using served_parts(4) [OF sv] by (simp add: kw_items_def)
    then have om: "only_type ?h view p (lb_daemon (after_call m (lb_daemon m))) (w_folder ?w) ?key MapText"
      using entry_in_unique em by (fastforce simp: only_type_def)
    have kind: "Wallet_entryType B ?w ?key m = Ret (Map, after_call m (lb_daemon m))"
      using entryType_found [OF assms(1,2) m(1) wh sv em] by (simp add: entry_type_of_def)
    obtain j where j: "co_parseJson co (toLatin1 t) = Some j" "Wallet_writeMap B ?w ?key (json_texts j) (after_call m (lb_daemon m)) = Ret (0, l1)"
      using run assms(8) kind unfolding write_contents_def t_def [symmetric]
      by (auto simp: exit_with_def entry_type_defs run_bind_Ret_iff Let_def split: if_splits option.splits)
    from wr(3) [where type = Map, unfolded v, OF om j(2) [unfolded Wallet_writeMap_def KWalletD_writeMap_def]] j(1)
    show "\<exists>j. co_parseJson co (toLatin1 t) = Some j \<and> entry_in ?h view p (lb_daemon l1) ?f ?key MapText
        (encoded ?L MapText (given ?d Map (d_streamMap ?d (json_texts j))))" by auto }
qed

lemma readValue_password:
  assumes "secret_laws (d_host (bus_desktop B)) (bus_libsecret B) view" and "searches_answered (bus_libsecret B)" and "reliable B l"
    and "q_theWallet q = Some w" and "w_handle w \<noteq> -1" and "served view wallet p (w_handle w) (bus_appId B) (lb_daemon l)"
    and "KWalletD_hasFolder (w_handle w) (q_entryFolder q) (bus_appId B) (lb_daemon l)"
    and "entry_in (d_host (bus_desktop B)) view p (lb_daemon l) (q_entryFolder q) (q_entryName q) PlainText v" and "0 \<notin> set v"
  shows "\<exists>l2. readValue B q l = Ret (exit_with 0 ((set_wallet (w\<lparr>w_folder := q_entryFolder q\<rparr>) q)\<lparr>q_out := q_out q @
    map (\<lambda>e. OutText (printed (d_host (bus_desktop B)) e)) (split_lines (fromUtf8 (d_host (bus_desktop B)) v))\<rparr>), l2)"
proof -
  let ?h = "d_host (bus_desktop B)" and ?a = "bus_appId B" and ?f = "q_entryFolder q" and ?key = "q_entryName q" and ?k = "lb_daemon l"
  let ?w = "w\<lparr>w_folder := ?f\<rparr>" and ?t = "fromUtf8 (d_host (bus_desktop B)) v"
  have ot: "only_type ?h view p ?k ?f ?key PlainText"
    using entry_in_unique [OF _ assms(8)] served_parts(4) [OF assms(6)] by (auto simp: only_type_def kw_items_def)
  have wh: "w_handle ?w \<noteq> -1" using assms(5) by simp
  let ?l2 = "after_call l ?k"
  have r2: "reliable B ?l2" using assms(3) by simp
  obtain kind where kind: "Wallet_entryType B ?w ?key ?l2 = Ret (kind, after_call ?l2 ?k)"
    "kind = (if \<exists>t. entry_in ?h view p ?k ?f ?key PlainText t then Password else Unknown)"
    using entryType_reliable [OF assms(1,2) r2 wh, of wallet p ?key] assms(6) ot by auto
  then have kind: "Wallet_entryType B ?w ?key ?l2 = Ret (Password, after_call ?l2 ?k)" using assms(8) by auto
  have "KWalletD_readPassword ?h (bus_libsecret B) (w_handle w) ?f ?key ?a ?k = (?t, ?k)"
    using readPassword_holds [OF assms(1,2,6,8)] assms(9) by (simp add: cstr_nonzero)
  then have rd: "Wallet_readPassword B ?w ?key [] (after_call ?l2 ?k) = Ret ((0, ?t), after_call (after_call ?l2 ?k) ?k)"
    unfolding Wallet_readPassword_def using value_call_reliable [of B "after_call ?l2 ?k" ?w _ ?t ?k id "[]"] r2 wh
    by (simp add: no_error_same)
  show ?thesis
    using assms(3-5,7) wh kind rd
    by (simp add: readValue_def the_wallet_def set_wallet_def exit_with_def setFolder_reliable readPasswordValue_def fold_put)
qed

lemma readValue_map:
  assumes "secret_laws (d_host (bus_desktop B)) (bus_libsecret B) view" and "searches_answered (bus_libsecret B)" and "reliable B l"
    and "q_theWallet q = Some w" and "w_handle w \<noteq> -1" and "served view wallet p (w_handle w) (bus_appId B) (lb_daemon l)"
    and "KWalletD_hasFolder (w_handle w) (q_entryFolder q) (bus_appId B) (lb_daemon l)"
    and "entry_in (d_host (bus_desktop B)) view p (lb_daemon l) (q_entryFolder q) (q_entryName q) MapText v"
    and "d_streamMap (bus_desktop B) (d_jsonMap (bus_desktop B) (cstr v)) = b" and "b \<noteq> []"
  shows "\<exists>l2. readValue B q l = Ret (exit_with 0 ((set_wallet (w\<lparr>w_folder := q_entryFolder q\<rparr>) q)\<lparr>q_out := q_out q @
    [OutText (cstr (d_toJson (bus_desktop B) (fold (\<lambda>(k, v). qmap_insert k (JString v)) (d_unstreamMap (bus_desktop B) b) [])))]\<rparr>), l2)"
proof -
  let ?w = "w\<lparr>w_folder := q_entryFolder q\<rparr>" and ?k = "lb_daemon l" and ?l2 = "after_call l (lb_daemon l)"
  have wh: "w_handle ?w \<noteq> -1" and r2: "reliable B ?l2" using assms(3,5) by simp_all
  have kind: "Wallet_entryType B ?w (q_entryName q) ?l2 = Ret (Map, after_call ?l2 ?k)"
    using entryType_found [OF assms(1,2) r2 wh, of wallet p "q_entryName q" MapText v] assms(6,8) by (simp add: entry_type_of_def)
  have "KWalletD_readMap (bus_desktop B) (bus_libsecret B) (w_handle w) (q_entryFolder q) (q_entryName q) (bus_appId B) ?k = (b, ?k)"
    using readMap_holds [OF assms(1,2,6,8)] assms(9) by simp
  moreover have r3: "reliable B (after_call ?l2 ?k)" using r2 by simp
  ultimately have "Wallet_readMap B ?w (q_entryName q) [] (after_call ?l2 ?k) =
      Ret ((0, d_unstreamMap (bus_desktop B) b), after_call (after_call ?l2 ?k) ?k)"
    unfolding Wallet_readMap_def
    by (simp add: value_call_reliable [OF r3 wh _ no_error_same] assms(10))
  with assms(3-5,7) kind show ?thesis
    by (simp add: readValue_def the_wallet_def set_wallet_def exit_with_def setFolder_reliable readMapValue_def put_def entry_type_defs Let_def)
qed

text \<open>C13. What \<open>kwallet-query -w\<close> has written from its standard input when it ends with the code 0, a \<open>kwallet-query -r\<close>
  prints that comes later, from another process with its own object and handle, in any state of the daemon in which the
  entry is as it was written; it ends with the code 0, too.  When the key held a password or nothing: the lines of the
  input in their order without the empty ones, provided they are UTF-8 texts without null characters.  When it held a map:
  the input was a JSON document (read as Latin-1), and the text printed is that of the object with its members, each as a
  text, provided this map is not empty in its stream form and its stream and its JSON text stand for it.\<close>

theorem query_write_read:
  assumes "secret_laws (d_host (bus_desktop B)) (bus_libsecret B) view" and "searches_answered (bus_libsecret B)" and "reliable B l"
    and "q_theWallet q = Some w" and "w_handle w \<noteq> -1" and "served view wallet p (w_handle w) (bus_appId B) (lb_daemon l)"
    and "writeValue B co q l = Ret (q1, l1)" and "q_exit q1 = Some 0"
    and "bus_desktop C = bus_desktop B" and "bus_libsecret C = bus_libsecret B" and "reliable C m"
    and "q_theWallet r = Some v" and "w_handle v \<noteq> -1" and "served view wallet p (w_handle v) (bus_appId C) (lb_daemon m)"
    and "q_entryFolder r = q_entryFolder q" and "q_entryName r = q_entryName q" and "q_out r = []"
    and "KWalletD_hasFolder (w_handle v) (q_entryFolder q) (bus_appId C) (lb_daemon m)"
    and "\<forall>type t. entry_in (d_host (bus_desktop B)) view p (lb_daemon l1) (q_entryFolder q) (q_entryName q) type t \<longrightarrow>
      entry_in (d_host (bus_desktop B)) view p (lb_daemon m) (q_entryFolder q) (q_entryName q) type t"
  shows "(only_type (d_host (bus_desktop B)) view p (lb_daemon l) (q_entryFolder q) (q_entryName q) PlainText \<and>
      usable_input (d_host (bus_desktop B)) (stdin_lines [] (co_stdin co)) \<longrightarrow>
      (\<exists>r2 m2. readValue C r m = Ret (r2, m2) \<and> q_exit r2 = Some 0 \<and>
        q_out r2 = map OutText (filter (\<lambda>b. b \<noteq> []) (stdin_lines [] (co_stdin co))))) \<and>
    (entry_in (d_host (bus_desktop B)) view p (lb_daemon l) (q_entryFolder q) (q_entryName q) MapText old \<longrightarrow>
      (\<exists>j. co_parseJson co (toLatin1 (joined (d_host (bus_desktop B)) (stdin_lines [] (co_stdin co)))) = Some j \<and>
        (keepable (bus_desktop B) Map (d_streamMap (bus_desktop B) (json_texts j)) \<and> d_streamMap (bus_desktop B) (json_texts j) \<noteq> [] \<and>
          d_unstreamMap (bus_desktop B) (d_streamMap (bus_desktop B) (json_texts j)) = json_texts j \<longrightarrow>
          (\<exists>r2 m2. readValue C r m = Ret (r2, m2) \<and> q_exit r2 = Some 0 \<and>
            q_out r2 = [OutText (cstr (d_toJson (bus_desktop B) (fold (\<lambda>(k, v). qmap_insert k (JString v)) (json_texts j) [])))]))))"
proof (intro conjI impI; (elim conjE)?)
  let ?d = "bus_desktop B" and ?h = "d_host (bus_desktop B)" and ?L = "bus_libsecret B" and ?f = "q_entryFolder q" and ?key = "q_entryName q"
  let ?ls = "stdin_lines [] (co_stdin co)" and ?v = "v\<lparr>w_folder := q_entryFolder q\<rparr>"
  let ?t = "joined ?h ?ls"
  note written = writeValue_writes [OF assms(1-8)]
  { assume o: "only_type ?h view p (lb_daemon l) ?f ?key PlainText" and use: "usable_input ?h ?ls"
    then have u: "fromUtf8 ?h [] = []" "toUtf8 ?h [] = []" "\<forall>b \<in> set ?ls. toUtf8 ?h (fromUtf8 ?h b) = b \<and> 0 \<notin> set b \<and> line_feed \<notin> set (fromUtf8 ?h b)"
      "0 \<notin> set (toUtf8 ?h ?t)" "fromUtf8 ?h (toUtf8 ?h ?t) = ?t"
      by (simp_all add: usable_input_def)
    have "encoded ?L PlainText (given ?d Password (toUtf8 ?h ?t)) = toUtf8 ?h ?t"
      by (simp add: encoded_def given_def cstr_nonzero u(4,5) entry_type_defs)
    then have "entry_in ?h view p (lb_daemon m) ?f ?key PlainText (toUtf8 ?h ?t)" using written(1) [OF o] assms(19) by simp
    then obtain m2 where "readValue C r m = Ret (exit_with 0 ((set_wallet ?v r)\<lparr>q_out := map (\<lambda>e. OutText (printed ?h e)) (split_lines ?t)\<rparr>), m2)"
      using readValue_password [of C view m r v wallet p "toUtf8 ?h ?t"] assms(1,2,9-18) u(4,5) by auto
    moreover have "map (\<lambda>e. OutText (printed ?h e)) (split_lines ?t) = map OutText (filter (\<lambda>b. b \<noteq> []) ?ls)"
      unfolding split_printed [OF u(3,1,2), symmetric] by simp
    ultimately show "\<exists>r2 m2. readValue C r m = Ret (r2, m2) \<and> q_exit r2 = Some 0 \<and> q_out r2 = map OutText (filter (\<lambda>b. b \<noteq> []) ?ls)"
      by (simp add: exit_with_def) }
  { assume e: "entry_in ?h view p (lb_daemon l) ?f ?key MapText old"
    obtain j where j: "co_parseJson co (toLatin1 ?t) = Some j"
      "entry_in ?h view p (lb_daemon l1) ?f ?key MapText (encoded ?L MapText (given ?d Map (d_streamMap ?d (json_texts j))))"
      using written(2) [OF e] by blast
    let ?b = "d_streamMap ?d (json_texts j)" and ?e = "encoded ?L MapText (given ?d Map (d_streamMap ?d (json_texts j)))"
    have "\<exists>r2 m2. readValue C r m = Ret (r2, m2) \<and> q_exit r2 = Some 0 \<and>
        q_out r2 = [OutText (cstr (d_toJson ?d (fold (\<lambda>(k, v). qmap_insert k (JString v)) (json_texts j) [])))]"
      if m: "keepable ?d Map ?b" "?b \<noteq> []" "d_unstreamMap ?d ?b = json_texts j"
    proof -
      have b: "d_streamMap ?d (d_jsonMap ?d (cstr ?e)) = ?b"
        using m(1,3) by (simp add: encoded_def given_def keepable_def cstr_nonzero entry_type_defs)
      have "entry_in ?h view p (lb_daemon m) ?f ?key MapText ?e" using j(2) assms(19) by blast
      then have "\<exists>m2. readValue C r m = Ret (exit_with 0 ((set_wallet ?v r)\<lparr>q_out :=
          [OutText (cstr (d_toJson ?d (fold (\<lambda>(k, v). qmap_insert k (JString v)) (d_unstreamMap ?d ?b) [])))]\<rparr>), m2)"
        using readValue_map [of C view m r v wallet p ?e ?b] b m(2) assms(1,2,9-18) by simp
      then show ?thesis unfolding m(3) by (auto simp: exit_with_def)
    qed
    with j(1) show "\<exists>j. co_parseJson co (toLatin1 ?t) = Some j \<and> (keepable ?d Map (d_streamMap ?d (json_texts j)) \<and>
        d_streamMap ?d (json_texts j) \<noteq> [] \<and> d_unstreamMap ?d (d_streamMap ?d (json_texts j)) = json_texts j \<longrightarrow>
        (\<exists>r2 m2. readValue C r m = Ret (r2, m2) \<and> q_exit r2 = Some 0 \<and>
          q_out r2 = [OutText (cstr (d_toJson ?d (fold (\<lambda>(k, v). qmap_insert k (JString v)) (json_texts j) [])))]))" by blast }
qed

lemma shelf_write_password:
  assumes "kw_backend s = shelf_client" and "walletForHandle 5 (qs ''app'') s = qs ''w''"
  shows "\<exists>s'. KWalletD_writeEntry example_desktop shelf_service 5 (qs ''f'') (qs ''k'') val Password (qs ''app'') s = (0, s')"
proof -
  have l0: "linked (qs ''w'') (qs ''/c'') (kw_backend s)"
    by (simp add: assms(1) linked_def shelf_client_def qmap_wf_def qmap_find_def)
  have f: "snd (listFolders example_host shelf_service (qs ''w'') (kw_backend s)) = kw_backend s" using listFolders_linked [OF l0] .
  have sc: "sc_service (kw_backend s)" using l0 by (simp add: linked_def)
  let ?c = "snd (listEntries example_host shelf_service (qs ''w'') (qs ''f'') (kw_backend s))"
  have "calm_client shelf_view (kw_backend s) ?c" using listEntries_calm sc shelf_laws unfolding secret_laws_def by blast
  then have l: "linked (qs ''w'') (qs ''/c'') ?c" using l0 by (simp add: calm_client_def)
  have "fst (client_writeEntry example_host shelf_service (folderPath (qs ''f'') (qs ''k'')) (qs ''k'') b PlainText (qs ''f'') (qs ''w'') ?c)" for b
    by (rule obliging_write [OF shelf_obliging l])
  then show ?thesis
    by (simp add: KWalletD_writeEntry_def assms(2) ask_eq write_typed_def writeString_def entry_type_defs f case_prod_beta Let_def)
qed

definition shelf_query :: query where
  "shelf_query = (QueryDriver_new WriteEntry)\<lparr>q_walletName := qs ''w'', q_theWallet := Some shelf_object, q_entryName := qs ''k'', q_entryFolder := qs ''f''\<rparr>"

definition shelf_console :: console where
  "shelf_console = \<lparr>co_stdin = [97, 10, 10, 98], co_asserts = False, co_parseJson = (\<lambda>_. None)\<rparr>"

lemma shelf_query_written:
  "\<exists>q1 l1. writeValue shelf_bus shelf_console shelf_query shelf_library = Ret (q1, l1) \<and> q_exit q1 = Some 0 \<and> reliable shelf_bus l1 \<and>
     served shelf_view (qs ''w'') (qs ''/c'') 5 (qs ''app'') (lb_daemon l1) \<and> (qs ''w'', qs ''f'') \<in> set (kw_structure (lb_daemon l1))"
proof -
  let ?w = "shelf_object" and ?k = "structure_insert (qs ''w'') (qs ''f'') shelf_daemon"
  let ?t = "joined example_host (stdin_lines [] (co_stdin shelf_console))"
  have n: "\<not> KWalletD_hasFolder 5 (qs ''f'') (qs ''app'') shelf_daemon" by (simp add: KWalletD_hasFolder_def)
  have y: "KWalletD_hasFolder 5 (qs ''f'') (qs ''app'') ?k"
    by (simp add: KWalletD_hasFolder_def structure_insert_def walletForHandle_def shelf_daemon_def qmap_find_def)
  let ?l1 = "after_call shelf_library shelf_daemon"
  let ?l2 = "after_call (after_call ?l1 shelf_daemon) ?k"
  have c: "Wallet_createFolder shelf_bus ?w (qs ''f'') ?l1 = Ret (True, ?l2)"
    using createFolder_reliable [of shelf_bus ?l1 ?w "qs ''f''" "qs ''w''"] n by simp
  have sv: "served shelf_view (qs ''w'') (qs ''/c'') 5 (qs ''app'') ?k" using shelf_served by (simp add: served_structure)
  have ot: "only_type example_host shelf_view (qs ''/c'') ?k (qs ''f'') (qs ''k'') PlainText"
    using shelf_empty by (simp add: only_type_def entry_in_structure)
  have laws: "secret_laws (d_host (bus_desktop shelf_bus)) (bus_libsecret shelf_bus) shelf_view" "searches_answered (bus_libsecret shelf_bus)"
    by (simp_all add: shelf_laws shelf_answers)
  let ?w' = "?w\<lparr>w_folder := qs ''f''\<rparr>" and ?l3 = "after_call ?l2 ?k"
  have r3: "reliable shelf_bus ?l3" by simp
  have wh: "w_handle ?w' \<noteq> -1" by simp
  have sv': "served shelf_view (qs ''w'') (qs ''/c'') (w_handle ?w') (bus_appId shelf_bus) (lb_daemon ?l3)" using sv by simp
  have ot': "only_type (d_host (bus_desktop shelf_bus)) shelf_view (qs ''/c'') (lb_daemon ?l3) (w_folder ?w') (qs ''k'') PlainText" using ot by simp
  obtain kind where kind0: "Wallet_entryType shelf_bus ?w' (qs ''k'') ?l3 = Ret (kind, after_call ?l3 (lb_daemon ?l3))"
    "kind = (if \<exists>t. entry_in (d_host (bus_desktop shelf_bus)) shelf_view (qs ''/c'') (lb_daemon ?l3) (w_folder ?w') (qs ''k'') PlainText t then Password else Unknown)"
    by (rule entryType_reliable [OF laws r3 wh sv' ot'])
  have kind: "Wallet_entryType shelf_bus ?w' (qs ''k'') ?l3 = Ret (kind, after_call ?l3 ?k)" "kind = Unknown \<or> kind = Password"
    using kind0(1) by simp (use kind0(2) in presburger)
  obtain s' where s': "KWalletD_writeEntry example_desktop shelf_service 5 (qs ''f'') (qs ''k'') (toUtf8 example_host ?t) Password (qs ''app'') ?k = (0, s')"
    using shelf_write_password [of ?k] by (auto simp: structure_insert_def shelf_daemon_def walletForHandle_def qmap_find_def)
  have "\<not> error_sent ?k s'"
    using writeEntry_no_error [of ?k example_desktop shelf_service 5 "qs ''f''" "qs ''k''" "toUtf8 example_host ?t" Password "qs ''app''"] s' by simp
  then have wp: "Wallet_writePassword shelf_bus ?w' (qs ''k'') ?t (after_call ?l3 ?k) = Ret (0, after_call (after_call ?l3 ?k) s')"
    using object_call_reliable [of shelf_bus "after_call ?l3 ?k" ?w' "\<lambda>k. Ret (KWalletD_writePassword example_desktop shelf_service 5 (qs ''f'') (qs ''k'') ?t (qs ''app'') k)" 0 s' "-1"] s'
    by (simp add: Wallet_writePassword_def KWalletD_writePassword_def)
  have q: "q_theWallet shelf_query = Some ?w" "q_entryFolder shelf_query = qs ''f''" "q_entryName shelf_query = qs ''k''"
    by (simp_all add: shelf_query_def QueryDriver_new_def)
  have "writeValue shelf_bus shelf_console shelf_query shelf_library = Ret (exit_with 0 (set_wallet ?w' shelf_query), after_call (after_call ?l3 ?k) s')"
  proof -
    have a1: "Wallet_hasFolder shelf_bus ?w (qs ''f'') shelf_library = Ret (False, ?l1)"
      using hasFolder_reliable [of shelf_bus shelf_library ?w "qs ''f''"] n by simp
    have a2: "Wallet_setFolder shelf_bus ?w (qs ''f'') ?l2 = Ret (True, ?w', ?l3)"
      using setFolder_reliable [of shelf_bus ?l2 ?w "qs ''f''"] y by simp
    have h: "d_host (bus_desktop shelf_bus) = example_host" by simp
    have k2: "(kind = Unknown \<or> kind = Password) = True" using kind(2) by blast
    show ?thesis
      by (simp only: writeValue_def the_wallet_def q option.case run_bind.simps a1 a2 c kind(1) k2 wp h case_prod_conv Let_def
          set_wallet_simps if_False if_True simp_thms)
  qed
  moreover have "served shelf_view (qs ''w'') (qs ''/c'') 5 (qs ''app'') s'"
    using writeEntry_holds(1) [of example_desktop shelf_service shelf_view "qs ''w''" "qs ''/c''" 5 "qs ''app''" ?k "qs ''f''" "qs ''k''" Password]
      s' shelf_laws sv ot by (simp add: only_type_def value_type_of_def entry_type_defs)
  moreover have "(qs ''w'', qs ''f'') \<in> set (kw_structure s')"
    using writeEntry_structure [of ?k example_desktop shelf_service 5 "qs ''f''" "qs ''k''" "toUtf8 example_host ?t" Password "qs ''app''"] s'
    by (auto simp: structure_insert_def)
  ultimately show ?thesis using r3 by (simp add: exit_with_def)
qed

text \<open>The reader is another process, which has a handle of its own.\<close>

definition reader_bus :: "shelf bus" where
  "reader_bus = shelf_bus\<lparr>bus_appId := qs ''reader''\<rparr>"

definition reader_query :: query where
  "reader_query = (QueryDriver_new ReadEntry)\<lparr>q_walletName := qs ''w'', q_theWallet := Some (shelf_object\<lparr>w_handle := 9, w_folder := []\<rparr>),
     q_entryName := qs ''k'', q_entryFolder := qs ''f''\<rparr>"

theorem query_write_read_witness:
  "\<exists>q1 l1 m q2 l2. writeValue shelf_bus shelf_console shelf_query shelf_library = Ret (q1, l1) \<and>
     kw_backend (lb_daemon m) = kw_backend (lb_daemon l1) \<and> readValue reader_bus reader_query m = Ret (q2, l2) \<and>
     q_out q2 = [OutText [97], OutText [98]]"
proof -
  obtain q1 l1 where w: "writeValue shelf_bus shelf_console shelf_query shelf_library = Ret (q1, l1)" "q_exit q1 = Some 0"
    "reliable shelf_bus l1" "served shelf_view (qs ''w'') (qs ''/c'') 5 (qs ''app'') (lb_daemon l1)" "(qs ''w'', qs ''f'') \<in> set (kw_structure (lb_daemon l1))"
    using shelf_query_written by blast
  let ?k = "(lb_daemon l1)\<lparr>kw_openWallets := [((9, qs ''reader''), qs ''w'')]\<rparr>" and ?v = "shelf_object\<lparr>w_handle := 9, w_folder := []\<rparr>"
  let ?m = "l1\<lparr>lb_daemon := ?k\<rparr>"
  have ls: "stdin_lines [] (co_stdin shelf_console) = [[97], [], [98]]" by (simp add: shelf_console_def)
  have u: "usable_input (d_host (bus_desktop shelf_bus)) (stdin_lines [] (co_stdin shelf_console))"
    by (simp add: ls usable_input_def joined_def example_host_def line_feed_def)
  have laws: "secret_laws (d_host (bus_desktop shelf_bus)) (bus_libsecret shelf_bus) shelf_view" "searches_answered (bus_libsecret shelf_bus)"
    by (simp_all add: shelf_laws shelf_answers)
  have q: "q_theWallet shelf_query = Some shelf_object" "q_entryFolder shelf_query = qs ''f''" "q_entryName shelf_query = qs ''k''"
    by (simp_all add: shelf_query_def QueryDriver_new_def)
  have sv: "served shelf_view (qs ''w'') (qs ''/c'') (w_handle shelf_object) (bus_appId shelf_bus) (lb_daemon shelf_library)"
    using shelf_served by simp
  have ot: "only_type (d_host (bus_desktop shelf_bus)) shelf_view (qs ''/c'') (lb_daemon shelf_library) (q_entryFolder shelf_query) (q_entryName shelf_query) PlainText"
    using shelf_empty by (simp add: only_type_def q)
  have wh: "w_handle shelf_object \<noteq> -1" "w_handle ?v \<noteq> -1" by simp_all
  have C: "bus_desktop reader_bus = bus_desktop shelf_bus" "bus_libsecret reader_bus = bus_libsecret shelf_bus" "bus_appId reader_bus = qs ''reader''"
    by (simp_all add: reader_bus_def)
  have rm: "reliable reader_bus ?m" using w(3) by (simp add: reliable_def reader_bus_def shelf_bus_def)
  have rq: "q_theWallet reader_query = Some ?v" "q_entryFolder reader_query = q_entryFolder shelf_query"
    "q_entryName reader_query = q_entryName shelf_query" "q_out reader_query = []"
    by (simp_all add: reader_query_def QueryDriver_new_def q)
  have wk: "walletForHandle 9 (qs ''reader'') ?k = qs ''w''" by (simp add: walletForHandle_def qmap_find_def)
  then have svr: "served shelf_view (qs ''w'') (qs ''/c'') (w_handle ?v) (bus_appId reader_bus) (lb_daemon ?m)"
    using w(4) C(3) by (simp add: served_def kw_items_def)
  have hf: "KWalletD_hasFolder (w_handle ?v) (q_entryFolder shelf_query) (bus_appId reader_bus) (lb_daemon ?m)"
    using wk w(5) C(3) by (auto simp: KWalletD_hasFolder_def q list_ex_iff)
  have same: "\<forall>type t. entry_in (d_host (bus_desktop shelf_bus)) shelf_view (qs ''/c'') (lb_daemon l1) (q_entryFolder shelf_query) (q_entryName shelf_query) type t \<longrightarrow>
      entry_in (d_host (bus_desktop shelf_bus)) shelf_view (qs ''/c'') (lb_daemon ?m) (q_entryFolder shelf_query) (q_entryName shelf_query) type t"
    by (simp add: entry_in_def kw_items_def)
  note written = query_write_read [OF laws shelf_library_simps(1) q(1) wh(1) sv w(1,2) C(1,2) rm rq(1) wh(2) svr rq(2-4) hf same]
  obtain q2 l2 where "readValue reader_bus reader_query ?m = Ret (q2, l2)" "q_out q2 = [OutText [97], OutText [98]]"
    using written [THEN conjunct1, THEN mp, OF conjI [OF ot u]] by (auto simp: ls)
  with w(1) show ?thesis by (intro exI [of _ q1] exI [of _ l1] exI [of _ ?m] exI [of _ q2] exI [of _ l2]) simp
qed

section \<open>Listing\<close>

text \<open>In a build without assertions the listing of all folders never chooses a folder, since this is done in the
  argument of \<open>Q_ASSERT\<close>: every folder is printed with the entries of the folder that was chosen before, which is the one
  with the empty name for a new object.\<close>

theorem unasserted_listing:
  assumes "reliable B l" and "w_handle w \<noteq> -1" and "\<not> co_asserts co"
    and "KWalletD_entryList (d_host (bus_desktop B)) (bus_libsecret B) (w_handle w) (w_folder w) (bus_appId B) (lb_daemon l) = (el, lb_daemon l)"
  shows "\<exists>l'. list_folders B co fs w q l = Ret ((set_wallet w q)\<lparr>q_out := q_out q @
    concat (map (\<lambda>f. OutText (printed (d_host (bus_desktop B)) f) # map (\<lambda>e. OutEntry (printed (d_host (bus_desktop B)) e)) el) fs)\<rparr>, l')"
  using assms(1,4)
proof (induction fs arbitrary: q l)
  case Nil
  show ?case by (simp add: set_wallet_def)
next
  case (Cons f fs)
  have e: "Wallet_entryList B w l = Ret (el, after_call l (lb_daemon l))"
    unfolding Wallet_entryList_def by (rule object_call_reliable [OF Cons(2) assms(2)]) (simp_all add: Cons(3) no_error_same)
  have r: "reliable B (after_call l (lb_daemon l))" using Cons(2) by simp
  let ?q = "q\<lparr>q_out := q_out q @ OutText (printed (d_host (bus_desktop B)) f) # map (\<lambda>e. OutEntry (printed (d_host (bus_desktop B)) e)) el\<rparr>"
  have "list_folders B co (f # fs) w q l = list_folders B co fs w ?q (after_call l (lb_daemon l))"
    using assms(3) by (simp add: e fold_put) (simp add: put_def)
  moreover obtain l' where "list_folders B co fs w ?q (after_call l (lb_daemon l)) = Ret ((set_wallet w ?q)\<lparr>q_out := q_out ?q @
    concat (map (\<lambda>f. OutText (printed (d_host (bus_desktop B)) f) # map (\<lambda>e. OutEntry (printed (d_host (bus_desktop B)) e)) el) fs)\<rparr>, l')"
    using Cons(1) [OF r, of ?q] Cons(3) by auto
  ultimately show ?case by (simp add: set_wallet_def)
qed

theorem unasserted_listing_witness:
  "\<exists>l'. list_folders shelf_bus shelf_console [qs ''f''] shelf_object (QueryDriver_new ListEntries) shelf_library =
     Ret ((set_wallet shelf_object (QueryDriver_new ListEntries))\<lparr>q_out := [OutText [102]]\<rparr>, l')"
proof -
  have l: "linked (qs ''w'') (qs ''/c'') (kw_backend shelf_daemon)" using served_parts(3) [OF shelf_served] .
  have "ask (listEntries example_host shelf_service (qs ''f'') (qs ''w'')) shelf_daemon = (([], True), shelf_daemon)"
    using l by (simp add: ask_def listEntries_def retrieveCollection_def linked_def)
      (simp add: shelf_service_def shelf_daemon_def shelf_client_def shelf_find_def attribute_values_def)
  then have "KWalletD_entryList (d_host (bus_desktop shelf_bus)) (bus_libsecret shelf_bus) (w_handle shelf_object) (w_folder shelf_object)
      (bus_appId shelf_bus) (lb_daemon shelf_library) = ([], lb_daemon shelf_library)"
    by (simp add: KWalletD_entryList_def)
  from unasserted_listing [OF _ _ _ this, of shelf_console "[qs ''f'']" "QueryDriver_new ListEntries"]
  show ?thesis by (auto simp: shelf_console_def QueryDriver_new_def printed_def cstr_def example_host_def qs_def)
qed

end
