(* ===== verification/KWalletMac.thy ===== *)
theory KWalletMac
  imports KWalletLib
begin

text \<open>
  The client library over the keychain of macOS (src/api/KWallet/kwallet_mac.cpp, built with \<open>MAC_USE_OSXKEYCHAIN\<close> and
  without \<open>OSX_KEYCHAIN_PORT_DISABLED\<close>): a wallet is a service of the keychain and a key is an account.  There are no
  folders, and nothing is ever closed.

  The calls of the keychain are the record \<open>keychain\<close> over a state that the model leaves open.  Messages that are only
  logged are not modelled.
\<close>

section \<open>The keychain\<close>

type_synonym os_status = "32 word"

definition errSecDuplicateItem :: os_status where "errSecDuplicateItem = - 25299"

definition errSecItemNotFound :: os_status where "errSecItemNotFound = - 25300"

text \<open>Finding gives a status, the data and a reference to the item, the latter two if the status is 0.\<close>

record 'k keychain =
  kc_find :: "bytes \<Rightarrow> bytes \<Rightarrow> 'k \<Rightarrow> os_status \<times> bytes \<times> nat"
  kc_add :: "bytes \<Rightarrow> bytes \<Rightarrow> bytes \<Rightarrow> 'k \<Rightarrow> os_status \<times> 'k"
  kc_delete :: "nat \<Rightarrow> 'k \<Rightarrow> os_status \<times> 'k"

definition removeEntryImplementation :: "host \<Rightarrow> 'k keychain \<Rightarrow> qstring \<Rightarrow> qstring \<Rightarrow> 'k \<Rightarrow> os_status \<times> 'k" where
  "removeEntryImplementation h K walletName key k =
     (let (result, _, itemRef) = kc_find K (toUtf8 h walletName) (toUtf8 h key) k in
      if result \<noteq> 0 then (result, k) else kc_delete K itemRef k)"

text \<open>After a duplicate has been removed the status is that of the removal, and nothing is added.\<close>

definition writeEntryImplementation :: "host \<Rightarrow> 'k keychain \<Rightarrow> qstring \<Rightarrow> qstring \<Rightarrow> bytes \<Rightarrow> 'k \<Rightarrow> os_status \<times> 'k" where
  "writeEntryImplementation h K walletName key val k =
     (let (err, k) = kc_add K (toUtf8 h walletName) (toUtf8 h key) val k in
      if err = errSecDuplicateItem then removeEntryImplementation h K walletName key k else (err, k))"

section \<open>The class\<close>

definition Mac_LocalWallet :: "settings \<Rightarrow> qstring" where
  "Mac_LocalWallet st =
     (if \<not> set_useOneWallet st
      then if set_localWallet st = [] then qs ''localwallet'' else set_localWallet st
      else if set_defaultWallet st = [] then qs ''kdewallet'' else set_defaultWallet st)"

definition Mac_NetworkWallet :: "settings \<Rightarrow> qstring" where
  "Mac_NetworkWallet st = (if set_defaultWallet st = [] then qs ''kdewallet'' else set_defaultWallet st)"

record mac_wallet =
  mw_name :: qstring
  mw_folder :: qstring
  mw_handle :: int
  mw_opening :: nat                        \<comment> \<open>calls of \<open>emitWalletOpened\<close> that are queued\<close>
  mw_signals :: "wallet_signal list"

definition mac_emit :: "wallet_signal \<Rightarrow> mac_wallet \<Rightarrow> mac_wallet" where
  "mac_emit x w = w\<lparr>mw_signals := mw_signals w @ [x]\<rparr>"

definition Mac_openWallet :: "qstring \<Rightarrow> mac_wallet" where
  "Mac_openWallet name = \<lparr>mw_name = name, mw_folder = [], mw_handle = -1, mw_opening = 1, mw_signals = []\<rparr>"

definition Mac_emitWalletOpened :: "mac_wallet \<Rightarrow> mac_wallet" where
  "Mac_emitWalletOpened w = (if mw_opening w = 0 then w else mac_emit (ApiOpened True) (w\<lparr>mw_opening := mw_opening w - 1\<rparr>))"

definition Mac_walletList :: "qstring list" where "Mac_walletList = []"

definition Mac_isEnabled :: bool where "Mac_isEnabled = True"

definition Mac_isOpenName :: "qstring \<Rightarrow> bool" where "Mac_isOpenName name = True"

definition Mac_closeWallet :: "qstring \<Rightarrow> bool \<Rightarrow> int" where "Mac_closeWallet name force = 0"

definition Mac_deleteWallet :: "qstring \<Rightarrow> int" where "Mac_deleteWallet name = -1"

definition Mac_disconnectApplication :: "qstring \<Rightarrow> qstring \<Rightarrow> bool" where "Mac_disconnectApplication name app = True"

definition Mac_users :: "qstring \<Rightarrow> qstring list" where "Mac_users name = []"

definition Mac_sync :: "mac_wallet \<Rightarrow> int" where "Mac_sync w = 0"

definition Mac_lockWallet :: "mac_wallet \<Rightarrow> int \<times> mac_wallet" where "Mac_lockWallet w = (-1, w)"

definition Mac_walletName :: "mac_wallet \<Rightarrow> qstring" where "Mac_walletName w = mw_name w"

definition Mac_isOpen :: "mac_wallet \<Rightarrow> bool" where "Mac_isOpen w = True"

definition Mac_folderList :: "mac_wallet \<Rightarrow> qstring list" where "Mac_folderList w = []"

definition Mac_entryList :: "mac_wallet \<Rightarrow> qstring list" where "Mac_entryList w = []"

definition Mac_hasFolder :: "mac_wallet \<Rightarrow> qstring \<Rightarrow> bool" where "Mac_hasFolder w f = True"

definition Mac_createFolder :: "mac_wallet \<Rightarrow> qstring \<Rightarrow> bool" where "Mac_createFolder w f = True"

definition Mac_setFolder :: "mac_wallet \<Rightarrow> qstring \<Rightarrow> bool \<times> mac_wallet" where "Mac_setFolder w f = (True, w)"

definition Mac_removeFolder :: "mac_wallet \<Rightarrow> qstring \<Rightarrow> bool \<times> mac_wallet" where "Mac_removeFolder w f = (True, w)"

definition Mac_currentFolder :: "mac_wallet \<Rightarrow> qstring" where "Mac_currentFolder w = mw_folder w"

section \<open>Entries\<close>

definition Mac_readEntry :: "host \<Rightarrow> 'k keychain \<Rightarrow> mac_wallet \<Rightarrow> qstring \<Rightarrow> bytes \<Rightarrow> 'k \<Rightarrow> int \<times> bytes" where
  "Mac_readEntry h K w key val k =
     (let (status, passwordData, _) = kc_find K (toUtf8 h (Mac_walletName w)) (toUtf8 h key) k
      in if status \<noteq> 0 then (-1, val) else (0, passwordData))"

definition Mac_renameEntry :: "mac_wallet \<Rightarrow> qstring \<Rightarrow> qstring \<Rightarrow> int" where "Mac_renameEntry w oldName newName = -1"

definition Mac_readMap :: "desktop \<Rightarrow> 'k keychain \<Rightarrow> mac_wallet \<Rightarrow> qstring \<Rightarrow> str_map \<Rightarrow> 'k \<Rightarrow> int \<times> str_map" where
  "Mac_readMap d K w key val k =
     (let (ret, v) = Mac_readEntry (d_host d) K w key [] k in
      if ret \<noteq> 0 then (ret, val) else if v \<noteq> [] then (0, d_unstreamMap d v) else (0, val))"

definition Mac_readPassword :: "host \<Rightarrow> 'k keychain \<Rightarrow> mac_wallet \<Rightarrow> qstring \<Rightarrow> qstring \<Rightarrow> 'k \<Rightarrow> int \<times> qstring" where
  "Mac_readPassword h K w key val k =
     (let (ret, ba) = Mac_readEntry h K w key [] k in (ret, if ret = 0 then fromUtf8 h (cstr ba) else val))"

text \<open>The results are the status as an \<open>int\<close>.\<close>

definition Mac_writeEntry :: "host \<Rightarrow> 'k keychain \<Rightarrow> mac_wallet \<Rightarrow> qstring \<Rightarrow> bytes \<Rightarrow> entry_type \<Rightarrow> 'k \<Rightarrow> int \<times> 'k" where
  "Mac_writeEntry h K w key password entryType k =
     (let (err, k) = writeEntryImplementation h K (Mac_walletName w) key password k in (sint err, k))"

definition Mac_writeEntryStream :: "host \<Rightarrow> 'k keychain \<Rightarrow> mac_wallet \<Rightarrow> qstring \<Rightarrow> bytes \<Rightarrow> 'k \<Rightarrow> int \<times> 'k" where
  "Mac_writeEntryStream h K w key val k =
     (let (err, k) = writeEntryImplementation h K (Mac_walletName w) key val k in (sint err, k))"

definition Mac_writeMap :: "desktop \<Rightarrow> 'k keychain \<Rightarrow> mac_wallet \<Rightarrow> qstring \<Rightarrow> str_map \<Rightarrow> 'k \<Rightarrow> int \<times> 'k" where
  "Mac_writeMap d K w key val k = Mac_writeEntryStream (d_host d) K w key (d_streamMap d val) k"

definition Mac_writePassword :: "host \<Rightarrow> 'k keychain \<Rightarrow> mac_wallet \<Rightarrow> qstring \<Rightarrow> qstring \<Rightarrow> 'k \<Rightarrow> int \<times> 'k" where
  "Mac_writePassword h K w key val k = Mac_writeEntryStream h K w key (toUtf8 h val) k"

definition Mac_hasEntry :: "host \<Rightarrow> 'k keychain \<Rightarrow> mac_wallet \<Rightarrow> qstring \<Rightarrow> 'k \<Rightarrow> bool" where
  "Mac_hasEntry h K w key k = (fst (kc_find K (toUtf8 h (Mac_walletName w)) (toUtf8 h key) k) = 0)"

definition Mac_removeEntry :: "host \<Rightarrow> 'k keychain \<Rightarrow> mac_wallet \<Rightarrow> qstring \<Rightarrow> 'k \<Rightarrow> int \<times> 'k" where
  "Mac_removeEntry h K w key k =
     (let (err, k) = removeEntryImplementation h K (Mac_walletName w) key k in (sint err, k))"

definition Mac_entryType :: "mac_wallet \<Rightarrow> qstring \<Rightarrow> entry_type" where "Mac_entryType w key = Unknown"

definition Mac_folderDoesNotExist :: "qstring \<Rightarrow> qstring \<Rightarrow> bool" where "Mac_folderDoesNotExist wallet folder = False"

definition Mac_keyDoesNotExist :: "qstring \<Rightarrow> qstring \<Rightarrow> qstring \<Rightarrow> bool" where "Mac_keyDoesNotExist wallet folder key = False"

section \<open>Slots\<close>

definition Mac_slotFolderUpdated :: "qstring \<Rightarrow> qstring \<Rightarrow> mac_wallet \<Rightarrow> mac_wallet" where
  "Mac_slotFolderUpdated wallet folder w = (if mw_name w = wallet then mac_emit (ApiFolderUpdated folder) w else w)"

definition Mac_slotFolderListUpdated :: "qstring \<Rightarrow> mac_wallet \<Rightarrow> mac_wallet" where
  "Mac_slotFolderListUpdated wallet w = (if mw_name w = wallet then mac_emit ApiFolderListUpdated w else w)"

definition Mac_emitWalletAsyncOpenError :: "mac_wallet \<Rightarrow> mac_wallet" where
  "Mac_emitWalletAsyncOpenError w = mac_emit (ApiOpened False) w"

definition Mac_slotCollectionDeleted :: "mac_wallet \<Rightarrow> mac_wallet" where
  "Mac_slotCollectionDeleted w = mac_emit ApiClosed (w\<lparr>mw_folder := [], mw_name := []\<rparr>)"

section \<open>What a keychain does\<close>

text \<open>
  The documented behaviour of an unlocked keychain, in terms of the data that it has for a service and an account: what is
  there is found, and its item can be deleted; adding works when there is nothing yet and says so otherwise.
\<close>

definition keychain_laws :: "'k keychain \<Rightarrow> ('k \<Rightarrow> bytes \<times> bytes \<Rightarrow> bytes option) \<Rightarrow> bool" where
  "keychain_laws K view \<longleftrightarrow>
     (\<forall>k s a v. view k (s, a) = Some v \<longrightarrow>
        (\<exists>i k'. kc_find K s a k = (0, v, i) \<and> kc_delete K i k = (0, k') \<and> view k' = (view k)((s, a) := None))) \<and>
     (\<forall>k s a. view k (s, a) = None \<longrightarrow> fst (kc_find K s a k) = errSecItemNotFound) \<and>
     (\<forall>k s a v. view k (s, a) = None \<longrightarrow> (\<exists>k'. kc_add K s a v k = (0, k') \<and> view k' = (view k)((s, a) \<mapsto> v))) \<and>
     (\<forall>k s a v. view k (s, a) \<noteq> None \<longrightarrow> kc_add K s a v k = (errSecDuplicateItem, k))"

text \<open>A keychain over a list of items.\<close>

definition item_index :: "'a \<Rightarrow> ('a \<times> 'b) list \<Rightarrow> nat" where
  "item_index p k = length (takeWhile (\<lambda>x. fst x \<noteq> p) k)"

definition list_keychain :: "((bytes \<times> bytes) \<times> bytes) list keychain" where
  "list_keychain =
     \<lparr>kc_find = (\<lambda>s a k. let i = item_index (s, a) k in
        if i < length k then (0, snd (k ! i), i) else (errSecItemNotFound, [], 0)),
      kc_add = (\<lambda>s a v k. if item_index (s, a) k < length k then (errSecDuplicateItem, k) else (0, ((s, a), v) # k)),
      kc_delete = (\<lambda>i k. (0, filter (\<lambda>x. fst x \<noteq> fst (k ! i)) k))\<rparr>"

lemma item_index:
  "map_of k p = (if item_index p k < length k then Some (snd (k ! item_index p k)) else None)"
  "item_index p k < length k \<Longrightarrow> fst (k ! item_index p k) = p"
  by (induction k) (auto simp: item_index_def)

lemma list_keychain_laws: "keychain_laws list_keychain map_of"
proof -
  have "map_of (filter (\<lambda>x. fst x \<noteq> p) k) = (map_of k)(p := None)" for p and k :: "((bytes \<times> bytes) \<times> bytes) list"
    by (induction k) auto
  then show ?thesis
    by (auto simp: keychain_laws_def list_keychain_def item_index Let_def split: if_splits)
qed

section \<open>Writing\<close>

text \<open>C38. The first write under a key stores the value, for whatever folder: it is read back, as bytes or as a password without
  null characters, and no other entry changes.  The second write, of any value, answers 0 as well, but it only
  removes what was there: the key has no entry any more.\<close>

theorem second_write_removes:
  assumes "keychain_laws K view" and "view k (toUtf8 h (mw_name w), toUtf8 h key) = None"
  shows "\<exists>k1 k2. Mac_writeEntryStream h K w key v k = (0, k1) \<and>
    view k1 = (view k)((toUtf8 h (mw_name w), toUtf8 h key) \<mapsto> v) \<and>
    Mac_readEntry h K (w\<lparr>mw_folder := f\<rparr>) key old k1 = (0, v) \<and>
    (0 \<notin> set v \<longrightarrow> Mac_readPassword h K w key t k1 = (0, fromUtf8 h v)) \<and>
    Mac_writeEntryStream h K w key v' k1 = (0, k2) \<and> view k2 = view k \<and>
    Mac_readEntry h K w key old k2 = (-1, old) \<and> \<not> Mac_hasEntry h K w key k2"
proof -
  let ?s = "toUtf8 h (mw_name w)" and ?a = "toUtf8 h key"
  have e: "errSecDuplicateItem \<noteq> 0" "errSecItemNotFound \<noteq> 0" by (simp_all add: errSecDuplicateItem_def errSecItemNotFound_def)
  obtain k1 where k1: "kc_add K ?s ?a v k = (0, k1)" "view k1 = (view k)((?s, ?a) \<mapsto> v)"
    using assms unfolding keychain_laws_def by blast
  then have w1: "view k1 (?s, ?a) = Some v" by simp
  then obtain i k2 where k2: "kc_find K ?s ?a k1 = (0, v, i)" "kc_delete K i k1 = (0, k2)" "view k2 = (view k1)((?s, ?a) := None)"
    using assms(1) unfolding keychain_laws_def by blast
  have d: "kc_add K ?s ?a v' k1 = (errSecDuplicateItem, k1)" using assms(1) w1 by (simp add: keychain_laws_def)
  have v2: "view k2 = view k" using k1(2) k2(3) assms(2) by auto
  then have n: "fst (kc_find K ?s ?a k2) = errSecItemNotFound" using assms by (simp add: keychain_laws_def)
  note defs = Mac_writeEntryStream_def writeEntryImplementation_def removeEntryImplementation_def Mac_readEntry_def Mac_readPassword_def
    Mac_hasEntry_def Mac_walletName_def Let_def
  have "Mac_writeEntryStream h K w key v k = (0, k1)" using k1(1) e by (simp add: defs)
  moreover have "Mac_readEntry h K (w\<lparr>mw_folder := f\<rparr>) key old k1 = (0, v)" using k2(1) by (simp add: defs)
  moreover have "0 \<notin> set v \<longrightarrow> Mac_readPassword h K w key t k1 = (0, fromUtf8 h v)"
    using k2(1) by (simp add: defs cstr_nonzero)
  moreover have "Mac_writeEntryStream h K w key v' k1 = (0, k2)" using d k2(1,2) by (simp add: defs)
  moreover have "Mac_readEntry h K w key old k2 = (-1, old)" "\<not> Mac_hasEntry h K w key k2"
    using n e by (simp_all add: defs split: prod.split) (metis fst_conv)
  ultimately show ?thesis using k1(2) v2 by blast
qed

theorem second_write_removes_witness:
  "\<exists>k1 k2. Mac_writeEntryStream example_host list_keychain (Mac_openWallet (qs ''w'')) (qs ''k'') [1] [] = (0, k1) \<and>
     Mac_writeEntryStream example_host list_keychain (Mac_openWallet (qs ''w'')) (qs ''k'') [2] k1 = (0, k2) \<and>
     Mac_readEntry example_host list_keychain (Mac_openWallet (qs ''w'')) (qs ''k'') [9] k2 = (-1, [9])"
  using second_write_removes [OF list_keychain_laws, where k = "[]" and h = example_host and w = "Mac_openWallet (qs ''w'')" and
      key = "qs ''k''" and v = "[1]" and v' = "[2]" and old = "[9]" and f = "[]" and t = "[]"] by auto

end
