(* ===== verification/Spec2Isabelle.thy ===== *)
theory Spec2Isabelle
  imports CbcMaster KSecretDMainProps KSecretDVault KSecretDDialogs KWalletWizard FdoEvents FdoMarshal PortalEvents KWalletQueryProps KWalletMac
begin

text \<open>
  A model of KWallet, the password store of the KDE desktop, with the theorems that make it correct.

  \<^bold>\<open>The program.\<close>  A wallet is a set of folders, each with named entries (passwords, maps, binary data), kept in an
  encrypted file.  Below \<open>src/runtime\<close>, the library \<open>kwalletbackend\<close> holds the content of one wallet and reads and
  writes its file; the daemon \<open>ksecretd\<close> opens, closes and serves wallets to applications through handles, and
  offers the same wallets through the freedesktop Secret Service.  The older daemon \<open>kwalletd\<close>, the client library
  \<open>src/api/KWallet\<close> and \<open>kwallet-query\<close> are clients of these.

  \<^bold>\<open>Foundations.\<close>
  \<^item> \<open>Prelude\<close>: bytes, big-endian numbers, Qt strings as lists of 16-bit units, results that may be undefined
    behaviour or not return (the type \<open>run\<close>), and lemmas on them.
  \<^item> \<open>QtMap\<close>: \<open>QMap\<close> as an ordered association list, with its laws in the locale \<open>ordered_dict\<close>.
  \<^item> \<open>Host\<close>: the record \<open>host\<close> of what is not in the repository (text codecs, \<open>QDataStream\<close>, MD5, PBKDF2, GpgME, the
    operating system's answers), the files as a map from paths to bytes, and the documented laws of the streams.

  \<^bold>\<open>The library kwalletbackend.\<close>
  \<^item> \<open>Sha1\<close> (\<open>sha1.cc\<close>): the digest object on its counters and buffer; its rounds are those of FIPS 180-4, and the
    digest does not depend on how the message was divided.
  \<^item> \<open>BlockCipher\<close>, \<open>Cbc\<close>, \<open>BlowfishTables\<close>, \<open>Blowfish\<close> (\<open>blockcipher.h\<close>, \<open>cbc.cc\<close>, \<open>blowfishtables.h\<close>,
    \<open>blowfish.cc\<close>): the abstract cipher as a record of methods with the contract \<open>block_cipher\<close>, chaining over any
    such cipher, and Blowfish as an instance; decryption inverts encryption.
  \<^item> \<open>CbcMaster\<close> (\<open>cbc.master.cc\<close>): the chaining object of earlier releases; what it encrypts is read in the old mode.
  \<^item> \<open>BackendData\<close>, \<open>BackendContent\<close>, \<open>BackendHashes\<close>, \<open>BackendProps\<close>, \<open>EntryStore\<close> (\<open>kwalletentry.cc\<close> and the
    operations on folders and entries of \<open>kwalletbackend.cc\<close>): the record \<open>backend\<close> has the fields of the class.  The
    digest table answers for the content in any run; \<open>entry_store\<close> is the contract of reading what was written.
  \<^item> \<open>Persist\<close>, \<open>PersistProps\<close>, \<open>GpgPersist\<close> (\<open>backendpersisthandler.cpp\<close>): the file formats byte by byte, every
    check and result code; round trips, that the readers end, and that a failed write leaves all files alone.
  \<^item> \<open>BackendFile\<close>, \<open>BackendFileProps\<close> (the rest of \<open>kwalletbackend.cc\<close>): opening, saving, closing and renaming a
    wallet, its salt and its password hashes; what was saved is opened again.

  \<^bold>\<open>The daemon ksecretd.\<close>
  \<^item> \<open>KTimeout\<close> (\<open>ktimeout.cpp\<close>): the pool of timers, with what Qt keeps of them.
  \<^item> \<open>KSecretD\<close>, \<open>KSecretDOpen\<close> (\<open>ksecretd.cpp\<close>): the record \<open>ksecretd\<close> with the wallets by handle, the timers,
    the failure count, the settings, the files, the queue of requests and the events it emits (its signals and its calls
    that are deferred to the event loop).  The answers a user gives in dialogs are the record \<open>user\<close> that an operation takes.
  \<^item> \<open>KSecretDProps\<close>, \<open>KSecretDInv\<close>, \<open>KSecretDClaims\<close>: entries are what was last written; the invariant of the daemon
    in all runs (\<open>inductive\<close> steps for every operation); the queue is served; entries survive a restart; errors.
  \<^item> \<open>KSecretDVault\<close>: the daemon as an abstract vault of handles, folders, keys, types and values; the locale
    \<open>machine_refinement\<close> carries the simulation of one request to every run.

  \<^item> \<open>KNewWalletDialog\<close> (\<open>knewwalletdialog.cpp\<close>): the dialog for a new wallet, whose answers are the field
    \<open>u_newWallet\<close> of \<open>user\<close>; a GPG key that it gives can be used, when GpgME starts.
  \<^item> \<open>KSecretDDialogs\<close> (\<open>ksecretd.cpp\<close>): the active dialog, how it is brought to the front, and the warning about
    failed accesses, of which there is one at most.
  \<^item> \<open>KWalletWizard\<close> (\<open>kwalletwizard.cpp\<close>): the wizard for a first wallet, which is built but not used; what it
    answers when it is finished, however the user went through it.
  \<^item> \<open>KSecretDMain\<close>, \<open>KSecretDMainProps\<close> (\<open>main.cpp\<close>): the start by the PAM module, with the hash of the password from a
    pipe and the environment from a socket (records \<open>os\<close> and \<open>logind\<close>), and the watcher of the login session; after a
    login the local wallet is open with what was saved in it.

  \<^bold>\<open>The Secret Service\<close> (\<open>kwalletfreedesktop*.cpp\<close> in \<open>ksecretd\<close>).
  \<^item> \<open>FdoLabel\<close>: labels with copy numbers, the entry a label stands for, object paths, and names that are not in use
    (locale \<open>fresh_names\<close>: the search ends within the number of names taken).
  \<^item> \<open>FdoAttributes\<close>: the attributes of items as a JSON object with its file; the record \<open>desktop\<close> extends \<open>host\<close> by JSON
    and the mathematics of the session ciphers.
  \<^item> \<open>FdoSession\<close>: sessions and the transport of secrets (locale \<open>session_algorithm\<close>).
  \<^item> \<open>FdoCollection\<close>, \<open>FdoItem\<close>: collections over the wallets of the daemon; items for their entries.  Their state
    \<open>cstate\<close> is a collection together with the daemon and the log of messages sent.
  \<^item> \<open>FdoService\<close>, \<open>FdoCalls\<close>: the service with its collections, aliases, sessions and prompts; the slots that the daemon
    calls, then the calls of clients.
  \<^item> \<open>FdoMarshal\<close>: the operators for secrets, object paths and property maps over the arguments of D-Bus (the record
    \<open>wire\<close>, with the documented behaviour \<open>wire_laws\<close>); a call of \<open>CreateItem\<close> arrives as it was sent.
  \<^item> \<open>FdoProps\<close>, \<open>FdoClaims\<close>, \<open>FdoServiceProps\<close>, \<open>FdoEvents\<close>: created items are read back; unlocking lists every
    entry; prompts and aliases; the errors; that reactions of service and daemon to one another end.

  \<^bold>\<open>The compatibility daemon kwalletd\<close> (\<open>kwalletd.cpp\<close>, \<open>secretserviceclient.cpp\<close>).
  \<^item> \<open>SecretService\<close>: the client of a Secret Service.  libsecret and the service behind it are the record \<open>libsecret\<close> of
    functions over a state the model leaves open; \<open>client\<close> has the fields of the class and the signals it emits.
  \<^item> \<open>SecretProps\<close>, \<open>SecretExample\<close>: the laws of a service that keeps its promises (\<open>secret_laws\<close>: what a created item
    holds, that other items stay, what searches find), what reading, writing, deleting and renaming entries do under
    them, and a small service for which they hold.
  \<^item> \<open>KWalletD\<close>, \<open>KWalletDCalls\<close>: the daemon, with wallets by handle and application, the folders it knows, the migration
    of old wallet files, all calls of its interface and its start; \<open>forward\<close> passes on the signals of the client.
  \<^item> \<open>KWalletDProps\<close>, \<open>KWalletDClaims\<close>, \<open>KWalletDSessions\<close>, \<open>KWalletDMigrate\<close>, \<open>KWalletDErrors\<close>: what is written is read;
    renaming; handles are private to their application in every history of openings and closings (\<open>session_run\<close>); what migration copies; the errors.

  \<^bold>\<open>The client library\<close> (\<open>kwallet.cpp\<close>).
  \<^item> \<open>KWalletLib\<close>, \<open>KWalletLibCalls\<close>: the record \<open>library\<close> is the launcher of a process with the daemon it talks to;
    the record \<open>wallet\<close> has the fields of the private class and the signals the object has emitted.  The record \<open>bus\<close>
    says which calls arrive and which replies are lost; calls reach the model of \<open>kwalletd\<close>, and what it has sent is
    brought to the objects by \<open>api_event_loop\<close>, or by \<open>daemon_ends\<close>.
  \<^item> \<open>KWalletLibProps\<close>, \<open>KWalletLibSessions\<close>, \<open>KWalletLibRuns\<close>, \<open>KWalletLibClaims\<close>, \<open>KWalletLibExamples\<close>: what is
    written through an object is read back; opening and forced closing through library and daemon together; an
    invariant of the objects in all runs of a process (\<open>app_run\<close>: calls, signals, ends and restarts of the daemon, with a
    count of how often each object was opened).
  \<^item> \<open>KWalletMac\<close> (\<open>kwallet_mac.cpp\<close>): the variant of the class over the keychain of macOS (record \<open>keychain\<close>).

  \<^bold>\<open>The tools.\<close>
  \<^item> \<open>KWalletQuery\<close>, \<open>KWalletQueryProps\<close> (\<open>querydriver.cpp\<close> and \<open>main.cpp\<close> of \<open>kwallet-query\<close>): one run of the tool over
    the client library, with what it prints as a log; what \<open>-w\<close> wrote, \<open>-r\<close> prints.
  \<^item> \<open>PortalSecrets\<close>, \<open>PortalEvents\<close> (\<open>kwalletportalsecrets.cpp\<close>): the secrets of sandboxed applications, over the model
    of \<open>ksecretd\<close>; with its queue and the event loop, every request gets one reply.

  \<^bold>\<open>Bounds and fuel.\<close>  Machine integers have their C++ width; where an \<open>int\<close> can overflow (the idle time in
  milliseconds, the number of asynchronous requests) the operation is undefined (\<open>c_int\<close>).  The loops that retry a password dialog take the list
  of the user's answers; the search for a handle is \<open>partial_function (option)\<close> over the numbers of the generator.
  The daemon and the service call one another through signals: an operation of the daemon runs first and leaves its
  events, which \<open>deliver\<close> passes to the service.  Its nesting is bounded by the number of open wallets plus one, since
  only deleting an open wallet makes a new event for a slot; \<open>reactions_end\<close> shows that the bound is never used up.
  Objects deleted later by Qt are marked and go with \<open>event_loop\<close>.

  \<^bold>\<open>Not modelled.\<close>  Windows and what they show, the file \<open>kwalletdbuscontext.cpp\<close>, which is not built, the
  marshalling that Qt or generated code does, and registration on the bus beyond the log of messages.
\<close>

end
